(* ===== verification/JsValue.thy ===== *)
theory JsValue
  imports Prelude Complex_Main
begin

text \<open>
  JavaScript values as the handlers see them in a request body or a query string, and the
  parts of the standard library the source calls on them: truthiness, \<open>typeof\<close>, \<open>??\<close>,
  \<open>Number\<close>, \<open>parseInt\<close>, \<open>parseFloat\<close> and \<open>Number.isInteger\<close>. A number is NaN, an infinity or
  a rational that has been rounded to binary64 (\<open>f64\<close>: 53 significant bits, ties to even,
  gradual underflow). The sign of zero is not kept: no modelled branch reads it.
\<close>

section \<open>Numbers\<close>

datatype jsnum = NaN | PosInf | NegInf | Fin rat

function bitlen_aux :: "int \<Rightarrow> int" where
  "bitlen_aux n = (if n < 2 then 0 else 1 + bitlen_aux (n div 2))"
  by pat_completeness auto
termination
  by (relation "measure nat") auto

declare bitlen_aux.simps [simp del]

definition pow2 :: "int \<Rightarrow> rat" where
  "pow2 k = (if 0 \<le> k then 2 ^ nat k else 1 / 2 ^ nat (- k))"

text \<open>The largest \<open>k\<close> with \<open>2 ^ k \<le> x\<close>, for a positive rational.\<close>

definition ilog2 :: "rat \<Rightarrow> int" where
  "ilog2 x =
     (let (a, b) = quotient_of x;
          k = bitlen_aux a - bitlen_aux b
      in if pow2 k \<le> x then k else k - 1)"

definition round_even :: "rat \<Rightarrow> int" where
  "round_even q =
     (let n = \<lfloor>q\<rfloor>; r = q - of_int n
      in if r < 1 / 2 then n else if r > 1 / 2 then n + 1 else if even n then n else n + 1)"

definition f64_pos :: "rat \<Rightarrow> rat" where
  "f64_pos x = (let u = pow2 (max (ilog2 x - 52) (- 1074)) in of_int (round_even (x / u)) * u)"

definition f64 :: "rat \<Rightarrow> rat" where
  "f64 x = (if x = 0 then 0 else if x < 0 then - f64_pos (- x) else f64_pos x)"

text \<open>Rounding to binary64 with overflow to the infinities.\<close>

definition to_num :: "rat \<Rightarrow> jsnum" where
  "to_num x =
     (let y = f64 x in if y \<ge> 2 ^ 1024 then PosInf else if y \<le> - (2 ^ 1024) then NegInf else Fin y)"

fun js_isInteger :: "jsnum \<Rightarrow> bool" where
  "js_isInteger (Fin q) = (q = of_int \<lfloor>q\<rfloor>)"
| "js_isInteger _ = False"

fun js_isFinite :: "jsnum \<Rightarrow> bool" where
  "js_isFinite (Fin q) = True"
| "js_isFinite _ = False"

lemma js_isInteger_Fin: "js_isInteger n \<longleftrightarrow> (\<exists>k. n = Fin (of_int k))"
  by (cases n) auto

text \<open>Comparison of a number with a constant; false on NaN, as IEEE comparison is.\<close>

fun num_lt :: "jsnum \<Rightarrow> rat \<Rightarrow> bool" where
  "num_lt NaN c = False"
| "num_lt PosInf c = False"
| "num_lt NegInf c = True"
| "num_lt (Fin q) c = (q < c)"

fun num_gt :: "jsnum \<Rightarrow> rat \<Rightarrow> bool" where
  "num_gt NaN c = False"
| "num_gt PosInf c = True"
| "num_gt NegInf c = False"
| "num_gt (Fin q) c = (q > c)"

section \<open>Reading numbers from strings\<close>

definition digit_val :: "char \<Rightarrow> int" where
  "digit_val c = of_char c - 48"

definition digits_val :: "string \<Rightarrow> int" where
  "digits_val ds = foldl (\<lambda>n d. 10 * n + digit_val d) 0 ds"

text \<open>
  The longest decimal literal a string starts with, \<open>ip [. fp] [e exp]\<close>, and what is left.
  An exponent without digits is not part of the literal.
\<close>

definition scan_exp :: "string \<Rightarrow> int \<times> string" where
  "scan_exp s =
     (case s of
        [] \<Rightarrow> (0, s)
      | c # r \<Rightarrow>
          if c = CHR ''e'' \<or> c = CHR ''E'' then
            (let (neg, r') = (case r of [] \<Rightarrow> (False, r)
                               | d # r'' \<Rightarrow> if d = CHR ''-'' then (True, r'')
                                            else if d = CHR ''+'' then (False, r'') else (False, r));
                 ds = takeWhile is_digit r'
             in if ds = [] then (0, s)
                else ((if neg then - digits_val ds else digits_val ds),
                      dropWhile is_digit r'))
          else (0, s))"

definition scan_decimal :: "string \<Rightarrow> (rat \<times> string) option" where
  "scan_decimal s =
     (let ip = takeWhile is_digit s;
          r = dropWhile is_digit s;
          (fp, r') = (case r of [] \<Rightarrow> ([], r)
                        | c # r0 \<Rightarrow> if c = CHR ''.''
                                     then (takeWhile is_digit r0, dropWhile is_digit r0) else ([], r))
      in if ip = [] \<and> fp = [] then None
         else (let (e, rest) = scan_exp r';
                   m = of_int (digits_val (ip @ fp));
                   k = e - int (length fp)
               in Some ((if 0 \<le> k then m * 10 ^ nat k else m / 10 ^ nat (- k)), rest)))"

definition signed :: "(string \<Rightarrow> 'a) \<Rightarrow> (string \<Rightarrow> 'a) \<Rightarrow> string \<Rightarrow> 'a" where
  "signed pos neg s =
     (case s of [] \<Rightarrow> pos []
      | c # r \<Rightarrow> if c = CHR ''-'' then neg r else if c = CHR ''+'' then pos r else pos s)"

text \<open>\<open>Number(s)\<close>: the whole trimmed string must be a literal; the empty string is 0.\<close>

definition num_literal :: "bool \<Rightarrow> string \<Rightarrow> jsnum" where
  "num_literal neg s =
     (if s = ''Infinity'' then (if neg then NegInf else PosInf)
      else (case scan_decimal s of
              Some (v, []) \<Rightarrow> to_num (if neg then - v else v)
            | _ \<Rightarrow> NaN))"

definition radix_digit :: "char \<Rightarrow> int" where
  "radix_digit c = (let n = of_char (lower_char c) :: int in
     if 48 \<le> n \<and> n \<le> 57 then n - 48 else if 97 \<le> n \<and> n \<le> 102 then n - 87 else 99)"

definition radix_literal :: "int \<Rightarrow> string \<Rightarrow> jsnum" where
  "radix_literal b ds =
     (if ds \<noteq> [] \<and> (\<forall>c \<in> set ds. radix_digit c < b)
      then to_num (of_int (foldl (\<lambda>n d. b * n + radix_digit d) 0 ds)) else NaN)"

definition js_Number :: "string \<Rightarrow> jsnum" where
  "js_Number s =
     (let t = js_trim s; p = to_lower (take 2 t) in
      if t = [] then Fin 0
      else if p = ''0x'' then radix_literal 16 (drop 2 t)
      else if p = ''0o'' then radix_literal 8 (drop 2 t)
      else if p = ''0b'' then radix_literal 2 (drop 2 t)
      else signed (num_literal False) (num_literal True) t)"

text \<open>\<open>parseInt(s, 10)\<close>: the longest run of digits after white space and a sign.\<close>

definition int_prefix :: "bool \<Rightarrow> string \<Rightarrow> jsnum" where
  "int_prefix neg s =
     (let ds = takeWhile is_digit s
      in if ds = [] then NaN
         else to_num (if neg then - of_int (digits_val ds) else of_int (digits_val ds)))"

definition js_parseInt :: "string \<Rightarrow> jsnum" where
  "js_parseInt s = signed (int_prefix False) (int_prefix True) (trim_start s)"

section \<open>Values\<close>

datatype js =
    Undef
  | Null
  | Bool bool
  | Num jsnum
  | Str string
  | Arr "js list"
  | Obj "(string \<times> js) list"

fun truthy :: "js \<Rightarrow> bool" where
  "truthy Undef = False"
| "truthy Null = False"
| "truthy (Bool b) = b"
| "truthy (Num n) = (n \<noteq> NaN \<and> n \<noteq> Fin 0)"
| "truthy (Str s) = (s \<noteq> [])"
| "truthy (Arr _) = True"
| "truthy (Obj _) = True"

fun nullish :: "js \<Rightarrow> bool" where
  "nullish Undef = True"
| "nullish Null = True"
| "nullish _ = False"

text \<open>Property access with optional chaining: undefined on anything that has no such key.\<close>

fun js_get :: "js \<Rightarrow> string \<Rightarrow> js" where
  "js_get (Obj kvs) k = (case map_of kvs k of None \<Rightarrow> Undef | Some v \<Rightarrow> v)"
| "js_get _ k = Undef"

fun is_str :: "js \<Rightarrow> bool" where
  "is_str (Str _) = True"
| "is_str _ = False"

fun the_str :: "js \<Rightarrow> string" where
  "the_str (Str s) = s"
| "the_str _ = []"

lemma is_str_iff: "is_str v \<longleftrightarrow> (\<exists>s. v = Str s)"
  by (cases v) auto

lemma nullish_not_truthy: "nullish v \<Longrightarrow> \<not> truthy v"
  by (cases v) auto

text \<open>\<open>Map.prototype.set\<close>: a key that is there keeps its place.\<close>

fun js_map_set :: "('k \<times> 'v) list \<Rightarrow> 'k \<Rightarrow> 'v \<Rightarrow> ('k \<times> 'v) list" where
  "js_map_set [] k v = [(k, v)]"
| "js_map_set ((k', v') # kvs) k v =
     (if k' = k then (k, v) # kvs else (k', v') # js_map_set kvs k v)"

end
