(* ===== verification/Access.thy ===== *)
theory Access
  imports JsValue
begin

text \<open>
  Who a caller is and what it may do: bearer-token authentication (\<open>middleware/auth.ts\<close>),
  client roles (\<open>middleware/keycloak-config.ts\<close>, \<open>middleware/role.ts\<close>), ownership scoping
  (\<open>helpers/scope.ts\<close>), elevated agent scopes (\<open>helpers/elevated-scope.ts\<close>), the network an
  agent container joins (\<open>resolveAgentNetwork\<close> of \<open>services/docker.ts\<close>), the
  terminal's own token check (\<open>services/terminal-token.ts\<close>) and the re-check of
  participation on open streams (\<open>helpers/participation-watch.ts\<close>).

  jsonwebtoken and the JWKS client are third-party: they are the record \<open>jwt_lib\<close>, an
  argument of the definitions. \<open>jl_verify\<close> is called with the algorithm list RS256 fixed,
  so it has no argument for it. Log lines are not modelled.
\<close>

section \<open>Authentication\<close>

record jwt_lib =
  jl_decode :: "string \<Rightarrow> js option"                     \<comment> \<open>the header, or None when not a JWT\<close>
  jl_key :: "js \<Rightarrow> string option"                        \<comment> \<open>None: the resolver throws\<close>
  jl_verify :: "string \<Rightarrow> string \<Rightarrow> string \<Rightarrow> js option"   \<comment> \<open>token, key, issuer; None: throws\<close>

datatype gate = Reject nat string | Next js

fun is_num :: "js \<Rightarrow> bool" where
  "is_num (Num _) = True"
| "is_num _ = False"

definition sub_ok :: "js \<Rightarrow> bool" where
  "sub_ok payload = (is_str (js_get payload ''sub'') \<and> the_str (js_get payload ''sub'') \<noteq> [])"

text \<open>The middleware \<open>createRequireAuth\<close> returns: a response, or the request passed on with its user.\<close>

definition require_auth :: "jwt_lib \<Rightarrow> string \<Rightarrow> string option \<Rightarrow> gate" where
  "require_auth lib issuer hdr =
     (case hdr of
        None \<Rightarrow> Reject 401 ''Missing or invalid Authorization header''
      | Some h \<Rightarrow>
          if \<not> startsWith h ''Bearer '' then Reject 401 ''Missing or invalid Authorization header''
          else (let token = slice_from 7 h in
            case jl_decode lib token of
              None \<Rightarrow> Reject 401 ''Invalid token''
            | Some header \<Rightarrow>
                (case jl_key lib header of
                   None \<Rightarrow> Reject 401 ''Invalid or expired token''
                 | Some key \<Rightarrow>
                     (case jl_verify lib token key issuer of
                        None \<Rightarrow> Reject 401 ''Invalid or expired token''
                      | Some payload \<Rightarrow>
                          if \<not> is_num (js_get payload ''exp'') then Reject 401 ''Token missing exp claim''
                          else if \<not> sub_ok payload then Reject 401 ''Token missing sub claim''
                          else Next payload))))"

section \<open>Roles\<close>

definition roles_from :: "string \<Rightarrow> js \<Rightarrow> js list" where
  "roles_from client payload =
     (case js_get (js_get (js_get payload ''resource_access'') client) ''roles'' of
        Arr rs \<Rightarrow> rs
      | _ \<Rightarrow> [])"

definition is_admin :: "string \<Rightarrow> js \<Rightarrow> bool" where
  "is_admin client user = (Str ''admin'' \<in> set (roles_from client user))"

text \<open>
  \<open>ROLE_IMPLIES[role]\<close> is a lookup in an object literal. A key that the literal does not
  have but \<open>Object.prototype\<close> does is found there; iterating what it finds is a TypeError,
  so the lookup is partial: \<open>None\<close> is the exception.
\<close>

definition proto_keys :: "string list" where
  "proto_keys = [''constructor'', ''toString'', ''valueOf'', ''hasOwnProperty'', ''isPrototypeOf'',
     ''propertyIsEnumerable'', ''toLocaleString'', ''__proto__'', ''__defineGetter__'',
     ''__defineSetter__'', ''__lookupGetter__'', ''__lookupSetter__'']"

definition role_implies :: "string \<Rightarrow> string list option" where
  "role_implies r =
     (if r = ''admin'' then Some [''user'']
      else if r \<in> set proto_keys then None else Some [])"

fun implied_roles :: "string list \<Rightarrow> string list option" where
  "implied_roles [] = Some []"
| "implied_roles (r # rs) =
     (case role_implies r of None \<Rightarrow> None
      | Some is \<Rightarrow> (case implied_roles rs of None \<Rightarrow> None | Some js \<Rightarrow> Some (is @ js)))"

definition effective_roles :: "string list \<Rightarrow> string list option" where
  "effective_roles granted =
     (case implied_roles granted of None \<Rightarrow> None | Some is \<Rightarrow> Some (dedupe (granted @ is)))"

text \<open>
  \<open>requireRole\<close>; \<open>None\<close> for the user is an unauthenticated request. The roles array is
  declared \<open>string[]\<close>; entries that are not strings name no role. The middleware throwing
  is Express's 500.
\<close>

definition role_names :: "js list \<Rightarrow> string list" where
  "role_names rs = map the_str (filter is_str rs)"

definition require_role :: "string \<Rightarrow> string \<Rightarrow> js option \<Rightarrow> gate" where
  "require_role client role user =
     (case user of
        None \<Rightarrow> Reject 401 ''Not authenticated''
      | Some u \<Rightarrow>
          (case effective_roles (role_names (roles_from client u)) of
             None \<Rightarrow> Reject 500 ''TypeError''
           | Some eff \<Rightarrow> if role \<in> set eff then Next u
                         else Reject 403 (''Requires '' @ role @ '' role'')))"

section \<open>Ownership\<close>

datatype where_clause = AllRows | CreatedBy js

definition scope_to_owner :: "string \<Rightarrow> js \<Rightarrow> where_clause" where
  "scope_to_owner client user =
     (if is_admin client user then AllRows else CreatedBy (js_get user ''sub''))"

section \<open>Agent scopes\<close>

definition elevated_scopes :: "string list" where
  "elevated_scopes = [''host_docker'', ''vps_system'']"

definition is_elevated_scope :: "string \<Rightarrow> bool" where
  "is_elevated_scope s = (s \<in> set elevated_scopes)"

text \<open>
  Both queries run over the scopes of the skills assigned to the agent, given here as the
  list of that join's \<open>scope\<close> column (None is NULL). \<open>LIMIT 1\<close> takes the first row.
\<close>

definition scope_column :: "string option list \<Rightarrow> string list" where
  "scope_column rows = map the (filter (\<lambda>r. r \<noteq> None) rows)"

definition agent_elevated_scope :: "string option list \<Rightarrow> string option" where
  "agent_elevated_scope rows =
     (case filter is_elevated_scope (scope_column rows) of [] \<Rightarrow> None | s # _ \<Rightarrow> Some s)"

definition agent_effective_scope :: "string option list \<Rightarrow> string option" where
  "agent_effective_scope rows =
     (let scopes = dedupe (scope_column rows) in
      if scopes = [] then None
      else if ''vps_system'' \<in> set scopes then Some ''vps_system''
      else if ''host_docker'' \<in> set scopes then Some ''host_docker''
      else Some ''container_local'')"

definition agent_network :: "string \<Rightarrow> string" where
  "agent_network pfx = pfx @ ''_agent_internal''"

definition sandbox_network :: "string \<Rightarrow> string" where
  "sandbox_network pfx = pfx @ ''_agent_sandbox''"

definition resolve_agent_network :: "string \<Rightarrow> string option \<Rightarrow> string" where
  "resolve_agent_network pfx scope =
     (if scope = Some ''host_docker'' \<or> scope = Some ''vps_system'' then agent_network pfx
      else sandbox_network pfx)"

section \<open>The terminal's token check\<close>

record terminal_principal =
  tp_sub :: string
  tp_roles :: "js list"
  tp_exp :: jsnum

fun the_num :: "js \<Rightarrow> jsnum" where
  "the_num (Num n) = n"
| "the_num _ = NaN"

definition verify_terminal_token :: "jwt_lib \<Rightarrow> string \<Rightarrow> string \<Rightarrow> string \<Rightarrow> terminal_principal option" where
  "verify_terminal_token lib client issuer token =
     (case jl_decode lib token of
        None \<Rightarrow> None
      | Some header \<Rightarrow>
          (case jl_key lib header of
             None \<Rightarrow> None
           | Some key \<Rightarrow>
               (case jl_verify lib token key issuer of
                  None \<Rightarrow> None
                | Some payload \<Rightarrow>
                    if \<not> is_num (js_get payload ''exp'') then None
                    else if \<not> sub_ok payload then None
                    else Some \<lparr>tp_sub = the_str (js_get payload ''sub''),
                               tp_roles = roles_from client payload,
                               tp_exp = the_num (js_get payload ''exp'')\<rparr>)))"

section \<open>Participation re-checks\<close>

text \<open>\<open>stillAuthorised\<close>: the query's answer, and a query that throws (\<open>None\<close>) is a refusal.\<close>

definition still_authorised :: "bool option \<Rightarrow> bool" where
  "still_authorised answer = (case answer of Some b \<Rightarrow> b | None \<Rightarrow> False)"

section \<open>Lemmas\<close>

lemma bearer_slice [simp]: "slice_from 7 (''Bearer '' @ t) = t"
  by (simp add: slice_from_def)

lemma bearer_slice_cons [simp]:
  "slice_from 7 (CHR ''B'' # CHR ''e'' # CHR ''a'' # CHR ''r'' # CHR ''e'' # CHR ''r'' # CHR '' '' # t) = t"
  by (simp add: slice_from_def)

lemma require_auth_bearer:
  "require_auth lib issuer (Some (''Bearer '' @ t)) =
     (case jl_decode lib t of
        None \<Rightarrow> Reject 401 ''Invalid token''
      | Some header \<Rightarrow>
          (case jl_key lib header of
             None \<Rightarrow> Reject 401 ''Invalid or expired token''
           | Some key \<Rightarrow>
               (case jl_verify lib t key issuer of
                  None \<Rightarrow> Reject 401 ''Invalid or expired token''
                | Some payload \<Rightarrow>
                    if \<not> is_num (js_get payload ''exp'') then Reject 401 ''Token missing exp claim''
                    else if \<not> sub_ok payload then Reject 401 ''Token missing sub claim''
                    else Next payload)))"
proof -
  have "startsWith (''Bearer '' @ t) ''Bearer ''" by (rule startsWith_append)
  moreover have "slice_from 7 (''Bearer '' @ t) = t" by (rule bearer_slice)
  ultimately show ?thesis
    unfolding require_auth_def by (simp only: option.case Let_def if_False not_True_eq_False)
qed

lemma require_auth_Next:
  assumes "require_auth lib issuer hdr = Next p"
  obtains t h k where "hdr = Some (''Bearer '' @ t)" "jl_decode lib t = Some h" "jl_key lib h = Some k"
    "jl_verify lib t k issuer = Some p" "is_num (js_get p ''exp'')" "sub_ok p"
proof -
  obtain h where h: "hdr = Some h" and bearer: "startsWith h ''Bearer ''"
    using assms by (auto simp: require_auth_def split: option.splits if_splits)
  then obtain t where t: "h = ''Bearer '' @ t" unfolding startsWith_iff by blast
  have nx: "require_auth lib issuer (Some (''Bearer '' @ t)) = Next p"
    using assms h t by (simp only:)
  then have "\<exists>hd k. jl_decode lib t = Some hd \<and> jl_key lib hd = Some k \<and>
      jl_verify lib t k issuer = Some p \<and> is_num (js_get p ''exp'') \<and> sub_ok p"
    unfolding require_auth_bearer by (auto split: option.splits if_splits)
  then show ?thesis using that h t by blast
qed

lemma implied_roles_Some:
  "implied_roles rs = Some is \<Longrightarrow> set is = (if ''admin'' \<in> set rs then {''user''} else {})"
proof (induction rs arbitrary: "is")
  case Nil
  then show ?case by simp
next
  case (Cons r rs)
  then obtain a b where a: "role_implies r = Some a" and b: "implied_roles rs = Some b"
    and i: "is = a @ b"
    by (auto split: option.splits)
  have "set a = (if r = ''admin'' then {''user''} else {})"
    using a unfolding role_implies_def by (simp only: split: if_splits) auto
  with Cons.IH [OF b] i show ?case by (auto simp del: insert_iff)
qed

lemma implied_roles_total:
  "set rs \<inter> set proto_keys = {} \<Longrightarrow> implied_roles rs \<noteq> None"
proof (induction rs)
  case Nil
  then show ?case by simp
next
  case (Cons r rs)
  then have "r \<notin> set proto_keys" and "implied_roles rs \<noteq> None" by simp_all
  then show ?case by (cases "r = ''admin''") (auto simp only: role_implies_def implied_roles.simps
      split: option.splits if_splits)
qed

lemma effective_roles_Some:
  "effective_roles rs = Some eff \<Longrightarrow>
     set eff = set rs \<union> (if ''admin'' \<in> set rs then {''user''} else {})"
  by (auto simp: effective_roles_def dest: implied_roles_Some split: option.splits)

lemma role_names_iff: "r \<in> set (role_names rs) \<longleftrightarrow> Str r \<in> set rs"
  by (force simp: role_names_def is_str_iff)

lemma require_role_Next:
  "require_role client role (Some u) = Next v \<Longrightarrow>
     v = u \<and> (Str role \<in> set (roles_from client u) \<or> role = ''user'' \<and> is_admin client u)"
  by (auto simp: require_role_def is_admin_def role_names_iff dest!: effective_roles_Some
      split: option.splits if_splits)

lemma set_scope_column: "s \<in> set (scope_column rows) \<longleftrightarrow> Some s \<in> set rows"
  by (force simp: scope_column_def)

lemma agent_elevated_scope_None_iff:
  "agent_elevated_scope rows = None \<longleftrightarrow> (\<forall>s. Some s \<in> set rows \<longrightarrow> \<not> is_elevated_scope s)"
proof -
  have "agent_elevated_scope rows = None \<longleftrightarrow> filter is_elevated_scope (scope_column rows) = []"
    by (simp add: agent_elevated_scope_def split: list.split)
  also have "\<dots> \<longleftrightarrow> (\<forall>s. Some s \<in> set rows \<longrightarrow> \<not> is_elevated_scope s)"
    by (auto simp: filter_empty_conv set_scope_column)
  finally show ?thesis .
qed

lemma agent_effective_elevated_iff:
  "agent_effective_scope rows \<in> {Some ''host_docker'', Some ''vps_system''} \<longleftrightarrow>
     (\<exists>s. Some s \<in> set rows \<and> is_elevated_scope s)"
proof -
  have ne: "Some s \<in> set rows \<Longrightarrow> scope_column rows \<noteq> []" for s
    using set_scope_column [of s rows] by (auto simp del: not_None_eq)
  show ?thesis
    unfolding agent_effective_scope_def Let_def is_elevated_scope_def elevated_scopes_def
    using ne by (auto simp: set_scope_column)
qed

section \<open>Properties\<close>

text \<open>
  C37: The API admits exactly the verified bearers. A request passes the middleware with user
  \<open>p\<close> if and only if its header is "Bearer " and a token that decodes, whose signing key
  resolves, which verifies against the issuer to \<open>p\<close>, and which has a numeric expiry and a
  non-empty subject.
\<close>

theorem require_auth_exact:
  "(require_auth lib issuer hdr = Next p) =
     (\<exists>t h k. hdr = Some (''Bearer '' @ t) \<and> jl_decode lib t = Some h \<and> jl_key lib h = Some k \<and>
        jl_verify lib t k issuer = Some p \<and> is_num (js_get p ''exp'') \<and> sub_ok p)"
proof
  assume "require_auth lib issuer hdr = Next p"
  then show "\<exists>t h k. hdr = Some (''Bearer '' @ t) \<and> jl_decode lib t = Some h \<and> jl_key lib h = Some k \<and>
      jl_verify lib t k issuer = Some p \<and> is_num (js_get p ''exp'') \<and> sub_ok p"
    by (rule require_auth_Next) blast
next
  assume "\<exists>t h k. hdr = Some (''Bearer '' @ t) \<and> jl_decode lib t = Some h \<and> jl_key lib h = Some k \<and>
      jl_verify lib t k issuer = Some p \<and> is_num (js_get p ''exp'') \<and> sub_ok p"
  then obtain t h k where hdr: "hdr = Some (''Bearer '' @ t)" and "jl_decode lib t = Some h"
    "jl_key lib h = Some k" "jl_verify lib t k issuer = Some p" "is_num (js_get p ''exp'')" "sub_ok p"
    by blast
  then show "require_auth lib issuer hdr = Next p"
    unfolding hdr require_auth_bearer by (simp only: option.case simp_thms if_False)
qed

text \<open>
  The terminal is as strict as the API. For every token, library and issuer, the
  terminal's own check accepts a token exactly when the API's middleware accepts it as a
  bearer, and the principal it returns is read off the payload the API would pass on.
\<close>

theorem terminal_token_as_api:
  "verify_terminal_token lib client issuer t =
     (case require_auth lib issuer (Some (''Bearer '' @ t)) of
        Reject n e \<Rightarrow> None
      | Next p \<Rightarrow> Some \<lparr>tp_sub = the_str (js_get p ''sub''), tp_roles = roles_from client p,
                       tp_exp = the_num (js_get p ''exp'')\<rparr>)"
  unfolding require_auth_bearer verify_terminal_token_def
  by (simp split: option.split if_split)

text \<open>
  An admin may do what a user may, and nobody else gains a role. Unless a granted role
  is named like a key of every JavaScript object, the gate for a role passes exactly the
  users who were granted it, and admins when the role is user.
\<close>

theorem require_role_exact:
  assumes "set (role_names (roles_from client u)) \<inter> set proto_keys = {}"
  shows "(require_role client role (Some u) = Next u) =
    (Str role \<in> set (roles_from client u) \<or> role = ''user'' \<and> Str ''admin'' \<in> set (roles_from client u))"
proof -
  let ?rs = "role_names (roles_from client u)"
  obtain eff where eff: "effective_roles ?rs = Some eff"
    using implied_roles_total [OF assms] by (auto simp: effective_roles_def)
  have "set eff = set ?rs \<union> (if ''admin'' \<in> set ?rs then {''user''} else {})"
    using eff by (rule effective_roles_Some)
  then have "role \<in> set eff \<longleftrightarrow> role \<in> set ?rs \<or> role = ''user'' \<and> ''admin'' \<in> set ?rs"
    by (simp split: if_split)
  then show ?thesis using eff by (simp add: require_role_def role_names_iff)
qed

theorem require_role_exact_witness:
  "require_role ''c'' ''user'' (Some (Obj [(''resource_access'', Obj [(''c'', Obj [(''roles'', Arr [Str ''admin''])])])])) =
     Next (Obj [(''resource_access'', Obj [(''c'', Obj [(''roles'', Arr [Str ''admin''])])])])"
proof -
  let ?u = "Obj [(''resource_access'', Obj [(''c'', Obj [(''roles'', Arr [Str ''admin''])])])]"
  have "roles_from ''c'' ?u = [Str ''admin'']" by (simp add: roles_from_def)
  then show ?thesis using require_role_exact [of "''c''" ?u "''user''"]
    by (simp add: role_names_def proto_keys_def)
qed

text \<open>
  A role named like a prototype key takes the gate down. The comment on the hierarchy says
  that a role that is not one of its keys grants only itself; a user who also holds a role
  called "constructor" gets a 500 from every gate, an admin included.
\<close>

theorem require_role_prototype_key:
  "role \<in> set proto_keys \<Longrightarrow>
     require_role ''c'' ''admin'' (Some (Obj [(''resource_access'', Obj [(''c'',
       Obj [(''roles'', Arr [Str ''admin'', Str role])])])])) = Reject 500 ''TypeError''"
proof -
  assume r: "role \<in> set proto_keys"
  then have "role \<noteq> ''admin''" by (auto simp: proto_keys_def)
  then have none: "role_implies role = None" using r by (simp only: role_implies_def if_False if_True)
  have adm: "role_implies ''admin'' = Some [''user'']" by (simp only: role_implies_def if_True simp_thms)
  have "implied_roles [''admin'', role] = None" unfolding implied_roles.simps adm none option.case ..
  then have eff: "effective_roles [''admin'', role] = None" by (simp only: effective_roles_def option.case)
  have "role_names (roles_from ''c'' (Obj [(''resource_access'', Obj [(''c'',
      Obj [(''roles'', Arr [Str ''admin'', Str role])])])])) = [''admin'', role]"
    by (simp add: roles_from_def role_names_def)
  then show ?thesis by (simp only: require_role_def option.case eff)
qed

theorem require_role_prototype_key_witness:
  "require_role ''c'' ''admin'' (Some (Obj [(''resource_access'', Obj [(''c'',
       Obj [(''roles'', Arr [Str ''admin'', Str ''constructor''])])])])) = Reject 500 ''TypeError''"
  by (rule require_role_prototype_key) (simp add: proto_keys_def)

text \<open>
  Only elevated agents join the internal network. Whatever the skills of an agent, the
  network its container is created on is the internal one exactly when one of them has an
  elevated scope, the same condition the chat routes and the assignment routes check.
\<close>

theorem internal_network_iff_elevated:
  "(resolve_agent_network pfx (agent_effective_scope rows) = agent_network pfx) =
     (agent_elevated_scope rows \<noteq> None)"
proof -
  have ne: "agent_network pfx \<noteq> sandbox_network pfx"
    by (simp add: agent_network_def sandbox_network_def)
  have "resolve_agent_network pfx sc = agent_network pfx \<longleftrightarrow> sc \<in> {Some ''host_docker'', Some ''vps_system''}" for sc
    using ne [symmetric] by (auto simp: resolve_agent_network_def)
  also have "(agent_effective_scope rows \<in> {Some ''host_docker'', Some ''vps_system''}) =
      (\<exists>s. Some s \<in> set rows \<and> is_elevated_scope s)"
    by (rule agent_effective_elevated_iff)
  also have "\<dots> = (agent_elevated_scope rows \<noteq> None)"
    by (simp only: agent_elevated_scope_None_iff) simp
  finally show ?thesis .
qed

end
