(* ===== verification/Effects.thy ===== *)
theory Effects
  imports Prelude
begin

text \<open>
  Handlers that talk to Postgres. A computation takes the world (the database and the
  schedule of faults) to an outcome and a new world. Every query either runs or throws: the
  world holds a list with one entry per query still to come, \<open>True\<close> meaning that the query
  throws (a lost connection, an exhausted pool, a statement timeout); an exhausted list
  means that the remaining queries run. A statement outside a transaction commits on its
  own, so a fault leaves the effects of the statements before it in place.

  A transaction (\<open>pool.connect\<close>, BEGIN, the work, COMMIT, ROLLBACK in the catch, release)
  restores the database when anything in it throws, COMMIT included.

  A Hoare triple \<open>holds P m Q E\<close> speaks of the database only and so quantifies over every
  fault schedule: \<open>Q\<close> for a computation that returns, \<open>E\<close> for one that throws.
\<close>

section \<open>Results\<close>

text \<open>Reading back a successful outcome through the guards that lead to it.\<close>

lemma guard_Inr [eff_simps]: "((if b then Inl e else r) = Inr y) = (\<not> b \<and> r = Inr y)"
  by simp

lemma case_sum_Inr [eff_simps]:
  "((case s of Inl e \<Rightarrow> Inl e | Inr u \<Rightarrow> f u) = Inr y) = (\<exists>u. s = Inr u \<and> f u = Inr y)"
  by (cases s) auto

section \<open>Computations\<close>

datatype exn = DbFault | UniqueViolation string | Thrown string

record 'd world =
  faults :: "bool list"
  db :: 'd

type_synonym ('d, 'a) eff = "'d world \<Rightarrow> (exn + 'a) \<times> 'd world"

definition ret :: "'a \<Rightarrow> ('d, 'a) eff" where
  "ret x w = (Inr x, w)"

definition throw :: "exn \<Rightarrow> ('d, 'a) eff" where
  "throw e w = (Inl e, w)"

definition eff_bind :: "('d, 'a) eff \<Rightarrow> ('a \<Rightarrow> ('d, 'b) eff) \<Rightarrow> ('d, 'b) eff" where
  "eff_bind m f w = (case m w of (Inl e, w') \<Rightarrow> (Inl e, w') | (Inr x, w') \<Rightarrow> f x w')"

definition eff_seq :: "('d, 'a) eff \<Rightarrow> ('d, 'b) eff \<Rightarrow> ('d, 'b) eff" where
  "eff_seq m n = eff_bind m (\<lambda>_. n)"

definition eff_catch :: "('d, 'a) eff \<Rightarrow> (exn \<Rightarrow> ('d, 'a) eff) \<Rightarrow> ('d, 'a) eff" where
  "eff_catch m h w = (case m w of (Inl e, w') \<Rightarrow> h e w' | (Inr x, w') \<Rightarrow> (Inr x, w'))"

text \<open>\<open>finally\<close>: the cleanup runs either way; its own exception replaces the outcome.\<close>

definition eff_finally :: "('d, 'a) eff \<Rightarrow> ('d, unit) eff \<Rightarrow> ('d, 'a) eff" where
  "eff_finally m c w =
     (case m w of (r, w') \<Rightarrow>
        (case c w' of (Inl e, w'') \<Rightarrow> (Inl e, w'') | (Inr _, w'') \<Rightarrow> (r, w'')))"

text \<open>One statement: a function of the database that may also violate a constraint.\<close>

definition db_query :: "('d \<Rightarrow> exn + 'a \<times> 'd) \<Rightarrow> ('d, 'a) eff" where
  "db_query q w =
     (case faults w of
        True # fs \<Rightarrow> (Inl DbFault, w\<lparr>faults := fs\<rparr>)
      | _ \<Rightarrow> (let w' = w\<lparr>faults := tl (faults w)\<rparr> in
              case q (db w) of
                Inl e \<Rightarrow> (Inl e, w')
              | Inr (x, d) \<Rightarrow> (Inr x, w'\<lparr>db := d\<rparr>)))"

definition db_read :: "('d \<Rightarrow> 'a) \<Rightarrow> ('d, 'a) eff" where
  "db_read f = db_query (\<lambda>d. Inr (f d, d))"

definition db_write :: "('d \<Rightarrow> 'd) \<Rightarrow> ('d, unit) eff" where
  "db_write f = db_query (\<lambda>d. Inr ((), f d))"

text \<open>A database state is also changed by things that are not queries (in-memory logs).\<close>

definition local_step :: "('d \<Rightarrow> 'd) \<Rightarrow> ('d, unit) eff" where
  "local_step f w = (Inr (), w\<lparr>db := f (db w)\<rparr>)"

definition peek :: "('d \<Rightarrow> 'a) \<Rightarrow> ('d, 'a) eff" where
  "peek f w = (Inr (f (db w)), w)"

definition no_op_query :: "('d, unit) eff" where
  "no_op_query = db_query (\<lambda>d. Inr ((), d))"

text \<open>
  The connection is one query (it can fail like one), and so are BEGIN, COMMIT and
  ROLLBACK; a failing ROLLBACK is swallowed by its own catch.
\<close>

definition transaction :: "('d, 'a) eff \<Rightarrow> ('d, 'a) eff" where
  "transaction m =
     eff_seq no_op_query
       (\<lambda>w. let d0 = db w in
          case eff_seq no_op_query (eff_bind m (\<lambda>x. eff_seq no_op_query (ret x))) w of
            (Inr x, w') \<Rightarrow> (Inr x, w')
          | (Inl e, w') \<Rightarrow> (Inl e, (snd (no_op_query w'))\<lparr>db := d0\<rparr>))"

fun eff_for :: "'a list \<Rightarrow> ('a \<Rightarrow> ('d, unit) eff) \<Rightarrow> ('d, unit) eff" where
  "eff_for [] f = ret ()"
| "eff_for (x # xs) f = eff_seq (f x) (eff_for xs f)"

fun eff_map :: "('a \<Rightarrow> ('d, 'b) eff) \<Rightarrow> 'a list \<Rightarrow> ('d, 'b list) eff" where
  "eff_map f [] = ret []"
| "eff_map f (x # xs) = eff_bind (f x) (\<lambda>y. eff_bind (eff_map f xs) (\<lambda>ys. ret (y # ys)))"

text \<open>
  A computation on a part of the database (\<open>get\<close> reads the part, \<open>put\<close> writes it back), and a
  try whose outcome is handed on as a value.
\<close>

definition eff_zoom :: "('d \<Rightarrow> 's) \<Rightarrow> ('s \<Rightarrow> 'd \<Rightarrow> 'd) \<Rightarrow> ('s, 'a) eff \<Rightarrow> ('d, 'a) eff" where
  "eff_zoom get put m w =
     (case m \<lparr>faults = faults w, db = get (db w)\<rparr> of
        (r, w') \<Rightarrow> (r, \<lparr>faults = faults w', db = put (db w') (db w)\<rparr>))"

definition eff_try :: "('d, 'a) eff \<Rightarrow> ('d, exn + 'a) eff" where
  "eff_try m = eff_catch (eff_bind m (\<lambda>x. ret (Inr x))) (\<lambda>e. ret (Inl e))"

section \<open>Triples\<close>

definition holds :: "('d \<Rightarrow> bool) \<Rightarrow> ('d, 'a) eff \<Rightarrow> ('a \<Rightarrow> 'd \<Rightarrow> bool) \<Rightarrow> ('d \<Rightarrow> bool) \<Rightarrow> bool" where
  "holds P m Q E =
     (\<forall>w. P (db w) \<longrightarrow>
        (case m w of (Inr x, w') \<Rightarrow> Q x (db w') | (Inl e, w') \<Rightarrow> E (db w')))"

lemma holdsI:
  assumes "\<And>w x w'. P (db w) \<Longrightarrow> m w = (Inr x, w') \<Longrightarrow> Q x (db w')"
    and "\<And>w e w'. P (db w) \<Longrightarrow> m w = (Inl e, w') \<Longrightarrow> E (db w')"
  shows "holds P m Q E"
  using assms unfolding holds_def by (auto split: prod.splits sum.splits)

lemma holds_Inr: "holds P m Q E \<Longrightarrow> m w = (Inr x, w') \<Longrightarrow> P (db w) \<Longrightarrow> Q x (db w')"
  unfolding holds_def by (metis (mono_tags, lifting) case_prod_conv sum.case(2))

lemma holds_Inl: "holds P m Q E \<Longrightarrow> m w = (Inl e, w') \<Longrightarrow> P (db w) \<Longrightarrow> E (db w')"
  unfolding holds_def by (metis (mono_tags, lifting) case_prod_conv sum.case(1))

lemma holds_ret: "(\<And>d. P d \<Longrightarrow> Q x d) \<Longrightarrow> holds P (ret x) Q E"
  by (simp add: holds_def ret_def)

lemma holds_throw: "(\<And>d. P d \<Longrightarrow> E d) \<Longrightarrow> holds P (throw e) Q E"
  by (simp add: holds_def throw_def)

lemma holds_bind:
  assumes "holds P m R E" and "\<And>x. holds (R x) (f x) Q E"
  shows "holds P (eff_bind m f) Q E"
  using assms unfolding holds_def eff_bind_def by (fastforce split: prod.splits sum.splits)

lemma holds_seq:
  "holds P m R E \<Longrightarrow> (\<And>x. holds (R x) n Q E) \<Longrightarrow> holds P (eff_seq m n) Q E"
  unfolding eff_seq_def by (rule holds_bind)

lemma holds_catch:
  assumes "holds P m Q R" and "\<And>e. holds R (h e) Q E"
  shows "holds P (eff_catch m h) Q E"
  using assms unfolding holds_def eff_catch_def by (fastforce split: prod.splits sum.splits)

lemma holds_query:
  assumes "\<And>d. P d \<Longrightarrow> E d" and "\<And>d x d'. P d \<Longrightarrow> q d = Inr (x, d') \<Longrightarrow> Q x d'"
  shows "holds P (db_query q) Q E"
  using assms unfolding holds_def db_query_def
  by (auto simp: Let_def split: list.splits bool.splits sum.splits prod.splits)

lemma holds_read:
  "(\<And>d. P d \<Longrightarrow> E d) \<Longrightarrow> (\<And>d. P d \<Longrightarrow> Q (f d) d) \<Longrightarrow> holds P (db_read f) Q E"
  unfolding db_read_def by (rule holds_query) auto

lemma holds_write:
  "(\<And>d. P d \<Longrightarrow> E d) \<Longrightarrow> (\<And>d. P d \<Longrightarrow> Q () (f d)) \<Longrightarrow> holds P (db_write f) Q E"
  unfolding db_write_def by (rule holds_query) auto

lemma holds_local: "(\<And>d. P d \<Longrightarrow> Q () (f d)) \<Longrightarrow> holds P (local_step f) Q E"
  by (simp add: holds_def local_step_def)

lemma holds_peek: "(\<And>d. P d \<Longrightarrow> Q (f d) d) \<Longrightarrow> holds P (peek f) Q E"
  by (simp add: holds_def peek_def)

lemma holds_conseq:
  assumes "holds P' m Q' E'" and "\<And>d. P d \<Longrightarrow> P' d"
    and "\<And>x d. Q' x d \<Longrightarrow> Q x d" and "\<And>d. E' d \<Longrightarrow> E d"
  shows "holds P m Q E"
  using assms unfolding holds_def by (fastforce split: prod.splits sum.splits)

lemma holds_if:
  "(b \<Longrightarrow> holds P m Q E) \<Longrightarrow> (\<not> b \<Longrightarrow> holds P n Q E) \<Longrightarrow> holds P (if b then m else n) Q E"
  by simp

lemma holds_option:
  "holds P m Q E \<Longrightarrow> (\<And>y. x = Some y \<Longrightarrow> holds P (f y) Q E) \<Longrightarrow> holds P (case_option m f x) Q E"
  by (cases x) auto

lemma holds_finally:
  assumes "holds P m R R'" and "\<And>x. holds (R x) c (\<lambda>_. Q x) E" and "holds R' c (\<lambda>_. E) E"
  shows "holds P (eff_finally m c) Q E"
proof -
  have "case eff_finally m c w of (Inr x, w') \<Rightarrow> Q x (db w') | (Inl e, w') \<Rightarrow> E (db w')" if "P (db w)" for w
  proof -
    obtain r w1 where m: "m w = (r, w1)" by fastforce
    obtain s w2 where c: "c w1 = (s, w2)" by fastforce
    show ?thesis
    proof (cases r)
      case (Inr x)
      have "R x (db w1)" using holds_Inr[OF assms(1)] m Inr that by blast
      then show ?thesis using holds_Inr[OF assms(2), of w1] holds_Inl[OF assms(2), of w1] m c Inr
        by (cases s) (auto simp: eff_finally_def)
    next
      case (Inl e)
      have "R' (db w1)" using holds_Inl[OF assms(1)] m Inl that by blast
      then show ?thesis using holds_Inr[OF assms(3), of w1] holds_Inl[OF assms(3), of w1] m c Inl
        by (cases s) (auto simp: eff_finally_def)
    qed
  qed
  then show ?thesis unfolding holds_def by blast
qed

lemma holds_zoom:
  "(\<And>d. P d \<Longrightarrow> holds (\<lambda>s. s = get d) m (\<lambda>x s. Q x (put s d)) (\<lambda>s. E (put s d))) \<Longrightarrow>
   holds P (eff_zoom get put m) Q E"
proof (rule holdsI)
  fix w x w' assume h: "\<And>d. P d \<Longrightarrow> holds (\<lambda>s. s = get d) m (\<lambda>x s. Q x (put s d)) (\<lambda>s. E (put s d))"
    and p: "P (db w)" and e: "eff_zoom get put m w = (Inr x, w')"
  obtain w1 where m: "m \<lparr>faults = faults w, db = get (db w)\<rparr> = (Inr x, w1)" "db w' = put (db w1) (db w)"
    using e by (auto simp: eff_zoom_def split: prod.splits)
  show "Q x (db w')" using holds_Inr[OF h[OF p] m(1)] m(2) by simp
next
  fix w e w' assume h: "\<And>d. P d \<Longrightarrow> holds (\<lambda>s. s = get d) m (\<lambda>x s. Q x (put s d)) (\<lambda>s. E (put s d))"
    and p: "P (db w)" and e: "eff_zoom get put m w = (Inl e, w')"
  obtain w1 where m: "m \<lparr>faults = faults w, db = get (db w)\<rparr> = (Inl e, w1)" "db w' = put (db w1) (db w)"
    using e by (auto simp: eff_zoom_def split: prod.splits)
  show "E (db w')" using holds_Inl[OF h[OF p] m(1)] m(2) by simp
qed

lemma holds_try:
  assumes "holds P m (\<lambda>x. Q (Inr x)) (\<lambda>d. \<forall>e. Q (Inl e) d)" shows "holds P (eff_try m) Q E"
  unfolding eff_try_def
  by (rule holds_catch, rule holds_bind[OF assms], rule holds_ret, assumption, rule holds_ret) simp

lemma holds_no_op: "holds P no_op_query (\<lambda>_. P) P"
  unfolding no_op_query_def by (rule holds_query) auto

lemma snd_no_op_db: "db (snd (no_op_query w)) = db w"
  by (auto simp: no_op_query_def db_query_def Let_def split: list.splits bool.splits)

section \<open>Preservation\<close>

text \<open>\<open>keeps I m\<close>: whatever throws and whenever, \<open>m\<close> keeps \<open>I\<close>.\<close>

definition keeps :: "('d \<Rightarrow> bool) \<Rightarrow> ('d, 'a) eff \<Rightarrow> bool" where
  "keeps I m = holds I m (\<lambda>_. I) I"

lemma keepsD: "keeps I m \<Longrightarrow> I (db w) \<Longrightarrow> I (db (snd (m w)))"
  unfolding keeps_def holds_def by (metis (mono_tags, lifting) case_prod_unfold sum.case_eq_if)

lemma keepsI: "(\<And>w. I (db w) \<Longrightarrow> I (db (snd (m w)))) \<Longrightarrow> keeps I m"
  unfolding keeps_def holds_def by (auto split: prod.splits sum.splits) (metis snd_conv)+

lemma keeps_ret [inv_intros, intro]: "keeps I (ret x)"
  unfolding keeps_def by (rule holds_ret)

lemma keeps_throw [inv_intros, intro]: "keeps I (throw e)"
  unfolding keeps_def by (rule holds_throw)

lemma keeps_bind [inv_intros, intro]:
  "keeps I m \<Longrightarrow> (\<And>x. keeps I (f x)) \<Longrightarrow> keeps I (eff_bind m f)"
  unfolding keeps_def by (rule holds_bind)

lemma keeps_seq [inv_intros, intro]: "keeps I m \<Longrightarrow> keeps I n \<Longrightarrow> keeps I (eff_seq m n)"
  unfolding keeps_def by (rule holds_seq)

lemma keeps_catch [inv_intros, intro]:
  "keeps I m \<Longrightarrow> (\<And>e. keeps I (h e)) \<Longrightarrow> keeps I (eff_catch m h)"
  unfolding keeps_def by (rule holds_catch)

lemma keeps_finally [inv_intros, intro]:
  fixes m :: "('d, 'a) eff" and c :: "('d, unit) eff"
  shows "keeps I m \<Longrightarrow> keeps I c \<Longrightarrow> keeps I (eff_finally m c)"
proof (rule keepsI)
  fix w :: "'d world" assume m: "keeps I m" and c: "keeps I c" and i: "I (db w)"
  obtain r w' where mw: "m w = (r, w')" by (cases "m w")
  have "I (db w')" using keepsD [OF m i] mw by simp
  then have "I (db (snd (c w')))" by (rule keepsD [OF c])
  then show "I (db (snd (eff_finally m c w)))"
    by (auto simp: eff_finally_def mw split: prod.splits sum.splits)
qed

lemma keeps_query: "(\<And>d x d'. I d \<Longrightarrow> q d = Inr (x, d') \<Longrightarrow> I d') \<Longrightarrow> keeps I (db_query q)"
  unfolding keeps_def by (rule holds_query)

lemma keeps_read [inv_intros, intro]: "keeps I (db_read f)"
  unfolding keeps_def by (rule holds_read)

lemma keeps_write: "(\<And>d. I d \<Longrightarrow> I (f d)) \<Longrightarrow> keeps I (db_write f)"
  unfolding keeps_def by (rule holds_write)

lemma keeps_local: "(\<And>d. I d \<Longrightarrow> I (f d)) \<Longrightarrow> keeps I (local_step f)"
  unfolding keeps_def by (rule holds_local)

lemma keeps_peek [inv_intros, intro]: "keeps I (peek f)"
  unfolding keeps_def by (rule holds_peek)

lemma keeps_no_op [inv_intros, intro]: "keeps I no_op_query"
  unfolding keeps_def by (rule holds_no_op)

lemma keeps_zoom: "(\<And>s d. I d \<Longrightarrow> I (put s d)) \<Longrightarrow> keeps I (eff_zoom get put m)"
  unfolding keeps_def by (rule holds_zoom, rule holdsI) auto

lemma keeps_try [inv_intros, intro]: "keeps I m \<Longrightarrow> keeps I (eff_try m)"
  unfolding eff_try_def by (intro keeps_catch keeps_bind keeps_ret)

lemma keeps_for [inv_intros, intro]: "(\<And>x. x \<in> set xs \<Longrightarrow> keeps I (f x)) \<Longrightarrow> keeps I (eff_for xs f)"
  by (induction xs) auto

lemma keeps_map [inv_intros, intro]: "(\<And>x. x \<in> set xs \<Longrightarrow> keeps I (f x)) \<Longrightarrow> keeps I (eff_map f xs)"
  by (induction xs) auto

lemma keeps_if [inv_intros, intro]: "(b \<Longrightarrow> keeps I m) \<Longrightarrow> (\<not> b \<Longrightarrow> keeps I n) \<Longrightarrow> keeps I (if b then m else n)"
  by simp

lemma keeps_option [inv_intros, intro]:
  "keeps I m \<Longrightarrow> (\<And>y. x = Some y \<Longrightarrow> keeps I (f y)) \<Longrightarrow> keeps I (case_option m f x)"
  by (cases x) auto

lemma keeps_sum [inv_intros, intro]:
  "(\<And>y. x = Inl y \<Longrightarrow> keeps I (f y)) \<Longrightarrow> (\<And>y. x = Inr y \<Longrightarrow> keeps I (g y)) \<Longrightarrow> keeps I (case_sum f g x)"
  by (cases x) auto

lemma keeps_prod [inv_intros, intro]:
  "(\<And>a b. x = (a, b) \<Longrightarrow> keeps I (f a b)) \<Longrightarrow> keeps I (case_prod f x)"
  by (cases x) auto

lemma keeps_list [inv_intros, intro]:
  "keeps I m \<Longrightarrow> (\<And>y ys. x = y # ys \<Longrightarrow> keeps I (f y ys)) \<Longrightarrow> keeps I (case_list m f x)"
  by (cases x) auto

text \<open>
  \<open>yields I m Q\<close>: what \<open>m\<close> returns from a state with \<open>I\<close> satisfies \<open>Q\<close>; the rule for a bind
  hands that fact to what follows.
\<close>

definition yields :: "('d \<Rightarrow> bool) \<Rightarrow> ('d, 'a) eff \<Rightarrow> ('a \<Rightarrow> bool) \<Rightarrow> bool" where
  "yields I m Q = holds I m (\<lambda>x _. Q x) (\<lambda>_. True)"

lemma yieldsI: "(\<And>w x w'. I (db w) \<Longrightarrow> m w = (Inr x, w') \<Longrightarrow> Q x) \<Longrightarrow> yields I m Q"
  unfolding yields_def by (rule holdsI) auto

lemma yieldsD: "yields I m Q \<Longrightarrow> I (db w) \<Longrightarrow> m w = (Inr x, w') \<Longrightarrow> Q x"
  unfolding yields_def by (rule holds_Inr)

lemma yields_ret: "Q x \<Longrightarrow> yields I (ret x) Q"
  by (rule yieldsI) (simp add: ret_def)

lemma yields_bind:
  "keeps I m \<Longrightarrow> yields I m R \<Longrightarrow> (\<And>x. R x \<Longrightarrow> yields I (f x) Q) \<Longrightarrow> yields I (eff_bind m f) Q"
  unfolding yields_def keeps_def holds_def eff_bind_def by (fastforce split: prod.splits sum.splits)

lemma yields_any: "yields I m (\<lambda>_. True)"
  by (rule yieldsI) simp

lemma yields_if: "(b \<Longrightarrow> yields I m Q) \<Longrightarrow> (\<not> b \<Longrightarrow> yields I n Q) \<Longrightarrow> yields I (if b then m else n) Q"
  by simp

lemma yields_query:
  "(\<And>d x d'. I d \<Longrightarrow> q d = Inr (x, d') \<Longrightarrow> Q x) \<Longrightarrow> yields I (db_query q) Q"
  unfolding yields_def by (rule holds_query) auto

lemma yields_map:
  "(\<And>x. x \<in> set xs \<Longrightarrow> keeps I (f x)) \<Longrightarrow> (\<And>x. x \<in> set xs \<Longrightarrow> yields I (f x) (R x)) \<Longrightarrow>
     yields I (eff_map f xs) (\<lambda>ys. list_all2 R xs ys)"
proof (induction xs)
  case Nil
  then show ?case by (simp add: yields_ret)
next
  case (Cons x xs)
  have "yields I (eff_map f xs) (\<lambda>ys. list_all2 R xs ys)"
    using Cons.prems by (intro Cons.IH) auto
  moreover have "keeps I (eff_map f xs)" using Cons.prems(1) by (intro keeps_map) auto
  ultimately show ?case unfolding eff_map.simps
    by (intro yields_bind [OF Cons.prems(1) Cons.prems(2)] yields_bind [where R = "list_all2 R xs"] yields_ret)
      auto
qed

lemma keeps_bind_val:
  "keeps I m \<Longrightarrow> yields I m Q \<Longrightarrow> (\<And>x. Q x \<Longrightarrow> keeps I (f x)) \<Longrightarrow> keeps I (eff_bind m f)"
  unfolding yields_def keeps_def holds_def eff_bind_def by (fastforce split: prod.splits sum.splits)

section \<open>Transactions\<close>

text \<open>A transaction that throws leaves the database exactly as it found it.\<close>

lemma transaction_throws:
  fixes m :: "('d, 'a) eff"
  shows "transaction m w = (Inl e, w') \<Longrightarrow> db w' = db w"
proof -
  assume t: "transaction m w = (Inl e, w')"
  obtain r w1 where c: "no_op_query w = (r, w1)" by (cases "no_op_query w")
  have w1: "db w1 = db w" using snd_no_op_db [of w] c by simp
  show "db w' = db w"
    using t w1 c
    by (auto simp: transaction_def eff_seq_def eff_bind_def Let_def
        split: prod.splits sum.splits)
qed

lemma holds_transaction:
  fixes m :: "('d, 'a) eff"
  assumes "holds P m Q (\<lambda>_. True)" and "\<And>d. P d \<Longrightarrow> E d"
  shows "holds P (transaction m) Q E"
proof (rule holdsI)
  fix w w' :: "'d world" and e assume "P (db w)" "transaction m w = (Inl e, w')"
  then show "E (db w')" using transaction_throws assms(2) by metis
next
  fix w w' :: "'d world" and x assume P: "P (db w)" and t: "transaction m w = (Inr x, w')"
  have body: "holds P (eff_seq no_op_query (eff_bind m (\<lambda>x. eff_seq no_op_query (ret x)))) Q (\<lambda>_. True)"
    by (rule holds_seq [where R = "\<lambda>_. P"], rule holds_conseq [OF holds_no_op], simp_all)
      (rule holds_bind [OF assms(1)], rule holds_seq, rule holds_conseq [OF holds_no_op],
        assumption, assumption, simp, rule holds_ret, assumption)
  obtain r w1 where c: "no_op_query w = (r, w1)" by (cases "no_op_query w")
  have w1: "db w1 = db w" using snd_no_op_db [of w] c by simp
  have "eff_seq no_op_query (eff_bind m (\<lambda>x. eff_seq no_op_query (ret x))) w1 = (Inr x, w')"
    using t c by (auto simp: transaction_def eff_seq_def eff_bind_def Let_def
        split: prod.splits sum.splits)
  from holds_Inr [OF body this] show "Q x (db w')" using P w1 by simp
qed

lemma keeps_transaction [inv_intros, intro]: "keeps I m \<Longrightarrow> keeps I (transaction m)"
  unfolding keeps_def by (rule holds_transaction) (auto intro: holds_conseq)

section \<open>Reading an outcome back\<close>

lemma bind_InrE:
  assumes "eff_bind m f w = (Inr y, w')"
  obtains x w1 where "m w = (Inr x, w1)" "f x w1 = (Inr y, w')"
  using assms unfolding eff_bind_def by (auto split: prod.splits sum.splits)

lemma seq_InrE:
  assumes "eff_seq m n w = (Inr y, w')"
  obtains x w1 where "m w = (Inr x, w1)" "n w1 = (Inr y, w')"
  using assms unfolding eff_seq_def by (rule bind_InrE)

lemma read_Inr: "db_read f w = (Inr x, w1) \<Longrightarrow> x = f (db w) \<and> db w1 = db w"
  by (auto simp: db_read_def db_query_def Let_def split: list.splits bool.splits)

lemma write_Inr: "db_write f w = (Inr x, w1) \<Longrightarrow> db w1 = f (db w)"
  by (auto simp: db_write_def db_query_def Let_def split: list.splits bool.splits)

section \<open>Fault-free evaluation\<close>

lemma ret_eval [eff_simps]: "ret x w = (Inr x, w)"
  by (simp add: ret_def)

lemma throw_eval [eff_simps]: "throw e w = (Inl e, w)"
  by (simp add: throw_def)

lemma bind_eval [eff_simps]:
  "m w = (Inr x, w') \<Longrightarrow> eff_bind m f w = f x w'"
  "m w = (Inl e, w') \<Longrightarrow> eff_bind m f w = (Inl e, w')"
  by (simp_all add: eff_bind_def)

lemma seq_eval [eff_simps]:
  "m w = (Inr x, w') \<Longrightarrow> eff_seq m n w = n w'"
  "m w = (Inl e, w') \<Longrightarrow> eff_seq m n w = (Inl e, w')"
  by (simp_all add: eff_seq_def eff_bind_def)

lemma query_eval:
  "faults w = [] \<Longrightarrow> db_query q w =
     (case q (db w) of Inl e \<Rightarrow> (Inl e, w) | Inr (x, d) \<Rightarrow> (Inr x, w\<lparr>db := d\<rparr>))"
  by (cases w) (auto simp: db_query_def Let_def split: sum.splits prod.splits)

lemma read_eval [eff_simps]: "faults w = [] \<Longrightarrow> db_read f w = (Inr (f (db w)), w)"
  by (cases w) (simp add: db_read_def query_eval)

lemma write_eval [eff_simps]: "faults w = [] \<Longrightarrow> db_write f w = (Inr (), w\<lparr>db := f (db w)\<rparr>)"
  by (simp add: db_write_def query_eval)

section \<open>Runs without faults\<close>

text \<open>
  \<open>runs P m Q\<close>: when every query runs, \<open>m\<close> returns and \<open>Q\<close> holds of its value and the
  database. This is the total counterpart of \<open>holds\<close>, for statements that something is done.
\<close>

definition runs :: "('d \<Rightarrow> bool) \<Rightarrow> ('d, 'a) eff \<Rightarrow> ('a \<Rightarrow> 'd \<Rightarrow> bool) \<Rightarrow> bool" where
  "runs P m Q = (\<forall>w. faults w = [] \<longrightarrow> P (db w) \<longrightarrow>
     (\<exists>x w'. m w = (Inr x, w') \<and> faults w' = [] \<and> Q x (db w')))"

lemma runsD:
  "runs P m Q \<Longrightarrow> faults w = [] \<Longrightarrow> P (db w) \<Longrightarrow>
   \<exists>x w'. m w = (Inr x, w') \<and> faults w' = [] \<and> Q x (db w')"
  by (simp add: runs_def)

lemma runs_ret: "(\<And>d. P d \<Longrightarrow> Q x d) \<Longrightarrow> runs P (ret x) Q"
  by (simp add: runs_def ret_def)

lemma runs_bind: "runs P m R \<Longrightarrow> (\<And>x. runs (R x) (f x) Q) \<Longrightarrow> runs P (eff_bind m f) Q"
  unfolding runs_def eff_bind_def by fastforce

lemma runs_seq: "runs P m R \<Longrightarrow> (\<And>x. runs (R x) n Q) \<Longrightarrow> runs P (eff_seq m n) Q"
  unfolding eff_seq_def by (rule runs_bind)

lemma runs_catch: "runs P m Q \<Longrightarrow> runs P (eff_catch m h) Q"
  unfolding runs_def eff_catch_def by fastforce

lemma runs_read: "(\<And>d. P d \<Longrightarrow> Q (f d) d) \<Longrightarrow> runs P (db_read f) Q"
  by (simp add: runs_def read_eval)

lemma runs_write: "(\<And>d. P d \<Longrightarrow> Q () (f d)) \<Longrightarrow> runs P (db_write f) Q"
  by (simp add: runs_def write_eval)

lemma runs_local: "(\<And>d. P d \<Longrightarrow> Q () (f d)) \<Longrightarrow> runs P (local_step f) Q"
  by (simp add: runs_def local_step_def)

lemma runs_if: "(b \<Longrightarrow> runs P m Q) \<Longrightarrow> (\<not> b \<Longrightarrow> runs P n Q) \<Longrightarrow> runs P (if b then m else n) Q"
  by simp

lemma runs_conseq:
  "runs P' m Q' \<Longrightarrow> (\<And>d. P d \<Longrightarrow> P' d) \<Longrightarrow> (\<And>x d. Q' x d \<Longrightarrow> Q x d) \<Longrightarrow> runs P m Q"
  unfolding runs_def by metis

lemma runs_map: "(\<And>x. x \<in> set xs \<Longrightarrow> runs P (f x) (\<lambda>_. P)) \<Longrightarrow> runs P (eff_map f xs) (\<lambda>_. P)"
  by (induction xs) (auto intro!: runs_ret runs_bind)

lemma runs_for: "(\<And>x. x \<in> set xs \<Longrightarrow> runs P (f x) (\<lambda>_. P)) \<Longrightarrow> runs P (eff_for xs f) (\<lambda>_. P)"
  by (induction xs) (auto intro!: runs_ret runs_seq)

text \<open>
  \<open>calm m\<close>: \<open>m\<close> does not make queries fail that would run. Together with a triple for the body
  of a try, this gives the total statement for a catch whose body may throw.
\<close>

named_theorems calm_intros \<open>computations that bring no faults of their own\<close>

definition calm :: "('d, 'a) eff \<Rightarrow> bool" where
  "calm m = (\<forall>w. faults w = [] \<longrightarrow> faults (snd (m w)) = [])"

lemma calm_ret [calm_intros]: "calm (ret x)"
  and calm_throw [calm_intros]: "calm (throw e)"
  and calm_local [calm_intros]: "calm (local_step f)"
  and calm_peek [calm_intros]: "calm (peek g)"
  by (simp_all add: calm_def ret_def throw_def local_step_def peek_def)

lemma calm_query [calm_intros]: "calm (db_query q)"
  by (auto simp: calm_def db_query_def Let_def split: list.splits bool.splits sum.splits prod.splits)

lemma calm_read [calm_intros]: "calm (db_read f)"
  and calm_write [calm_intros]: "calm (db_write g)"
  unfolding db_read_def db_write_def by (rule calm_query)+

lemma calm_bind [calm_intros]: "calm m \<Longrightarrow> (\<And>x. calm (f x)) \<Longrightarrow> calm (eff_bind m f)"
  unfolding calm_def eff_bind_def by (fastforce split: prod.splits sum.splits)

lemma calm_seq [calm_intros]: "calm m \<Longrightarrow> calm n \<Longrightarrow> calm (eff_seq m n)"
  unfolding eff_seq_def by (rule calm_bind)

lemma calm_catch [calm_intros]: "calm m \<Longrightarrow> (\<And>e. calm (h e)) \<Longrightarrow> calm (eff_catch m h)"
  unfolding calm_def eff_catch_def by (fastforce split: prod.splits sum.splits)

lemma calm_if [calm_intros]: "(b \<Longrightarrow> calm m) \<Longrightarrow> (\<not> b \<Longrightarrow> calm n) \<Longrightarrow> calm (if b then m else n)"
  by simp

lemma calm_zoom [calm_intros]: "calm m \<Longrightarrow> calm (eff_zoom get put m)"
  unfolding calm_def eff_zoom_def by (auto split: prod.splits) (metis snd_conv world.select_convs(1))

lemma calm_try [calm_intros]: "calm m \<Longrightarrow> calm (eff_try m)"
  unfolding eff_try_def by (intro calm_catch calm_bind calm_ret)

lemma calm_option [calm_intros]: "calm m \<Longrightarrow> (\<And>x. calm (f x)) \<Longrightarrow> calm (case_option m f x)"
  by (cases x) auto

lemma runs_catch_any:
  assumes "holds P m Q R" "calm m" "\<And>e. runs R (h e) Q" shows "runs P (eff_catch m h) Q"
  unfolding runs_def
proof (intro allI impI)
  fix w :: "'a world" assume w: "faults w = []" "P (db w)"
  obtain r w' where r: "m w = (r, w')" by fastforce
  have f: "faults w' = []" using assms(2) w(1) r unfolding calm_def by (metis snd_conv)
  show "\<exists>x w'. eff_catch m h w = (Inr x, w') \<and> faults w' = [] \<and> Q x (db w')"
  proof (cases r)
    case (Inr x)
    then show ?thesis using holds_Inr[OF assms(1)] r f w by (auto simp: eff_catch_def)
  next
    case (Inl e)
    then have "R (db w')" using holds_Inl[OF assms(1)] r w by auto
    then show ?thesis using runsD[OF assms(3) f, of e] r Inl by (simp add: eff_catch_def)
  qed
qed

lemma runs_query: "(\<And>d. P d \<Longrightarrow> \<exists>x d'. q d = Inr (x, d') \<and> Q x d') \<Longrightarrow> runs P (db_query q) Q"
  by (fastforce simp: runs_def query_eval)

lemma runs_finally:
  assumes "runs P m R" "\<And>x. runs (R x) c (\<lambda>_. Q x)" shows "runs P (eff_finally m c) Q"
  unfolding runs_def
proof (intro allI impI)
  fix w :: "'a world" assume "faults w = []" "P (db w)"
  then obtain x w1 where 1: "m w = (Inr x, w1)" "faults w1 = []" "R x (db w1)"
    using runsD[OF assms(1)] by blast
  then obtain u w2 where "c w1 = (Inr u, w2)" "faults w2 = []" "Q x (db w2)"
    using runsD[OF assms(2)] by blast
  then show "\<exists>x w'. eff_finally m c w = (Inr x, w') \<and> faults w' = [] \<and> Q x (db w')"
    using 1 by (simp add: eff_finally_def)
qed

end
