(* ===== verification/Streams.thy ===== *)
theory Streams
  imports JsValue
begin

text \<open>
  What keeps a slow or absent reader from costing the process its memory: the WebSocket
  relay (\<open>services/relay-backpressure.ts\<close>), the server-sent-event writer and its failure
  signal (\<open>services/sse-writer.ts\<close>), the two bounded reads (\<open>helpers/bounded-read.ts\<close> in the
  api, \<open>utils/request-body.ts\<close> in the ui), the credential deadline
  (\<open>helpers/stream-deadline.ts\<close>) and the backfill notice (\<open>helpers/chat-backfill.ts\<close>).

  Every component is a state record with one operation per callback the source registers;
  the events of the environment (a peer draining its queue, a socket closing) are
  operations too, so a list of operations is an interleaving.
\<close>

section \<open>Interfaces\<close>

text \<open>
  A producer that stops admitting once its queue is past a cap. What a step may add is one
  frame, and nothing is added while the queue is over the cap.
\<close>

locale capped_queue = guarded_system step inv
  for step :: "'c \<Rightarrow> 's \<Rightarrow> 's" and inv :: "'s \<Rightarrow> bool" +
  fixes load :: "'s \<Rightarrow> nat"
    and fits :: "'c \<Rightarrow> bool"
    and cap :: nat
    and frame :: nat
  assumes grows: "inv s \<Longrightarrow> fits c \<Longrightarrow> load (step c s) \<le> load s + frame"
    and closed: "inv s \<Longrightarrow> cap < load s \<Longrightarrow> load (step c s) \<le> load s"
begin

lemma step_bounded: "inv s \<Longrightarrow> fits c \<Longrightarrow> load s \<le> cap + frame \<Longrightarrow> load (step c s) \<le> cap + frame"
  using grows [of s c] closed [of s c] by (cases "cap < load s") auto

lemma run_bounded:
  "inv s \<Longrightarrow> load s \<le> cap + frame \<Longrightarrow> \<forall>c \<in> set cs. fits c \<Longrightarrow> load (fold step cs s) \<le> cap + frame"
  by (induction cs arbitrary: s) (auto simp: step_bounded step_inv)

end

text \<open>
  A counter of consecutive failures that signals once per outage: at the threshold when it
  is armed, and a success re-arms it. \<open>fired\<close> counts the signals sent so far.
\<close>

locale streak_signal =
  fixes fail :: "'s \<Rightarrow> 's"
    and succeed :: "'s \<Rightarrow> 's"
    and count :: "'s \<Rightarrow> nat"
    and armed :: "'s \<Rightarrow> bool"
    and fired :: "'s \<Rightarrow> nat"
    and threshold :: nat
  assumes count_fail: "count (fail s) = Suc (count s)"
    and count_succeed: "count (succeed s) = 0"
    and armed_fail: "armed (fail s) = (armed s \<and> Suc (count s) < threshold)"
    and armed_succeed: "armed (succeed s)"
    and fired_fail: "fired (fail s) = fired s + (if armed s \<and> threshold \<le> Suc (count s) then 1 else 0)"
    and fired_succeed: "fired (succeed s) = fired s"
begin

lemma outage_count: "count ((fail ^^ n) s) = count s + n"
  by (induction n) (auto simp: count_fail)

lemma outage_signals:
  "count s = 0 \<Longrightarrow> armed s \<Longrightarrow> 0 < threshold \<Longrightarrow>
     fired ((fail ^^ n) s) = fired s + (if threshold \<le> n then 1 else 0) \<and>
     armed ((fail ^^ n) s) = (n < threshold)"
proof (induction n)
  case 0
  then show ?case by simp
next
  case (Suc n)
  then show ?case
    by (auto simp: fired_fail armed_fail outage_count)
qed

lemma second_outage_signals:
  "count s = 0 \<Longrightarrow> armed s \<Longrightarrow> 0 < threshold \<Longrightarrow> threshold \<le> m \<Longrightarrow> threshold \<le> n \<Longrightarrow>
     fired ((fail ^^ n) (succeed ((fail ^^ m) s))) = fired s + 2"
  using outage_signals [of s m] outage_signals [of "succeed ((fail ^^ m) s)" n]
  by (simp add: count_succeed armed_succeed fired_succeed)

end

section \<open>The WebSocket relay\<close>

record relay_opts =
  high_water :: nat
  hard_cap :: nat

definition relay_defaults :: relay_opts where
  "relay_defaults = \<lparr>high_water = 1024 * 1024, hard_cap = 8 * 1024 * 1024\<rparr>"

text \<open>
  \<open>rl_queue\<close> is the destination's \<open>bufferedAmount\<close>, \<open>rl_src_paused\<close> the state of the source's
  socket, \<open>rl_polling\<close> whether the resume interval is armed, \<open>rl_overflows\<close> the arguments
  \<open>onOverflow\<close> has been called with.
\<close>

record relay =
  rl_paused :: bool
  rl_overflowed :: bool
  rl_polling :: bool
  rl_src_paused :: bool
  rl_open :: bool
  rl_queue :: nat
  rl_sent :: "(string \<times> bool) list"
  rl_overflows :: "nat list"

datatype relay_op =
    Message string bool   \<comment> \<open>a frame and its binary flag arrive from the source\<close>
  | PollTick              \<comment> \<open>the resume interval fires\<close>
  | PeerDrains nat        \<comment> \<open>the destination's socket sends that many bytes\<close>
  | PeerCloses            \<comment> \<open>the destination leaves the OPEN state\<close>
  | Teardown              \<comment> \<open>the returned cleanup\<close>

definition resume_threshold :: "relay_opts \<Rightarrow> nat" where
  "resume_threshold opts = high_water opts div 2"

definition stop_polling :: "relay \<Rightarrow> relay" where
  "stop_polling s = s\<lparr>rl_polling := False\<rparr>"

definition resume_source :: "relay \<Rightarrow> relay" where
  "resume_source s = (stop_polling (s\<lparr>rl_paused := False\<rparr>))\<lparr>rl_src_paused := False\<rparr>"

definition pause_source :: "relay \<Rightarrow> relay" where
  "pause_source s =
     (if rl_paused s then s
      else s\<lparr>rl_paused := True, rl_src_paused := True, rl_polling := True\<rparr>)"

text \<open>
  \<open>send\<close> is the \<open>ws\<close> library's: \<open>grow q d\<close> is \<open>bufferedAmount\<close> after sending \<open>d\<close> on a queue
  of \<open>q\<close> bytes.
\<close>

definition on_message :: "(nat \<Rightarrow> string \<Rightarrow> nat) \<Rightarrow> relay_opts \<Rightarrow> string \<Rightarrow> bool \<Rightarrow> relay \<Rightarrow> relay" where
  "on_message grow opts d b s =
     (if rl_overflowed s then s
      else if \<not> rl_open s then s
      else (let s1 = s\<lparr>rl_sent := rl_sent s @ [(d, b)], rl_queue := grow (rl_queue s) d\<rparr>;
                queued = rl_queue s1 in
            if queued > hard_cap opts
            then stop_polling (s1\<lparr>rl_overflowed := True\<rparr>)\<lparr>rl_overflows := rl_overflows s @ [queued]\<rparr>
            else if queued > high_water opts then pause_source s1
            else s1))"

definition on_poll_tick :: "relay_opts \<Rightarrow> relay \<Rightarrow> relay" where
  "on_poll_tick opts s =
     (if \<not> rl_polling s then s
      else if \<not> rl_open s then resume_source s
      else if rl_queue s \<le> resume_threshold opts then resume_source s
      else s)"

definition relay_cleanup :: "relay \<Rightarrow> relay" where
  "relay_cleanup s = (let s1 = stop_polling s in if rl_paused s1 then s1\<lparr>rl_src_paused := False\<rparr> else s1)"

fun relay_step :: "(nat \<Rightarrow> string \<Rightarrow> nat) \<Rightarrow> relay_opts \<Rightarrow> relay_op \<Rightarrow> relay \<Rightarrow> relay" where
  "relay_step grow opts (Message d b) s = on_message grow opts d b s"
| "relay_step grow opts PollTick s = on_poll_tick opts s"
| "relay_step grow opts (PeerDrains n) s = s\<lparr>rl_queue := rl_queue s - n\<rparr>"
| "relay_step grow opts PeerCloses s = s\<lparr>rl_open := False\<rparr>"
| "relay_step grow opts Teardown s = relay_cleanup s"

definition relay_init :: relay where
  "relay_init = \<lparr>rl_paused = False, rl_overflowed = False, rl_polling = False, rl_src_paused = False,
     rl_open = True, rl_queue = 0, rl_sent = [], rl_overflows = []\<rparr>"

lemmas relay_defs = on_message_def on_poll_tick_def relay_cleanup_def resume_source_def
  pause_source_def stop_polling_def Let_def

text \<open>
  The invariant. An overflow is recorded once, and while the relay has not overflowed the
  queue is within the hard cap; a source that is stopped is known to be paused.
\<close>

definition relay_inv :: "relay_opts \<Rightarrow> relay \<Rightarrow> bool" where
  "relay_inv opts s \<longleftrightarrow>
     (\<not> rl_overflowed s \<longrightarrow> rl_queue s \<le> hard_cap opts \<and> rl_overflows s = []) \<and>
     (rl_overflowed s \<longrightarrow> length (rl_overflows s) = 1 \<and> \<not> rl_polling s) \<and>
     (rl_src_paused s \<longrightarrow> rl_paused s) \<and> (rl_polling s \<longrightarrow> rl_paused s)"

lemma relay_step_inv [inv_intros]: "relay_inv opts s \<Longrightarrow> relay_inv opts (relay_step grow opts c s)"
  by (cases c) (auto simp: relay_inv_def relay_defs)

lemma relay_inv_init: "relay_inv opts relay_init"
  by (simp add: relay_inv_def relay_init_def)

text \<open>Without a teardown, a paused source of a relay that has not overflowed is being polled.\<close>

definition relay_live :: "relay \<Rightarrow> bool" where
  "relay_live s \<longleftrightarrow> (rl_paused s \<and> \<not> rl_overflowed s \<longrightarrow> rl_polling s)"

lemma relay_step_live: "c \<noteq> Teardown \<Longrightarrow> relay_live s \<Longrightarrow> relay_live (relay_step grow opts c s)"
  by (cases c) (auto simp: relay_live_def relay_defs)

lemma relay_run_live: "Teardown \<notin> set cs \<Longrightarrow> relay_live s \<Longrightarrow> relay_live (fold (relay_step grow opts) cs s)"
  by (induction cs arbitrary: s) (auto simp: relay_step_live)

definition relay_fits :: "nat \<Rightarrow> relay_op \<Rightarrow> bool" where
  "relay_fits n c = (case c of Message d b \<Rightarrow> length d \<le> n | _ \<Rightarrow> True)"

definition queue_plus :: "nat \<Rightarrow> string \<Rightarrow> nat" where
  "queue_plus q d = q + length d"

interpretation relay_q: capped_queue "relay_step queue_plus opts" "relay_inv opts" rl_queue
    "relay_fits n" "hard_cap opts" n for opts n
proof unfold_locales
  fix s c
  show "relay_inv opts s \<Longrightarrow> relay_inv opts (relay_step queue_plus opts c s)"
    by (rule relay_step_inv)
next
  fix s c
  show "relay_inv opts s \<Longrightarrow> relay_fits n c \<Longrightarrow> rl_queue (relay_step queue_plus opts c s) \<le> rl_queue s + n"
    by (cases c) (auto simp: relay_fits_def relay_defs queue_plus_def)
next
  fix s c
  show "relay_inv opts s \<Longrightarrow> hard_cap opts < rl_queue s \<Longrightarrow>
      rl_queue (relay_step queue_plus opts c s) \<le> rl_queue s"
    by (cases c) (auto simp: relay_inv_def relay_defs)
qed

interpretation relay_over: sticky_system "relay_step grow opts"
    "\<lambda>s. rl_overflowed s \<and> rl_sent s = sent \<and> rl_overflows s = ovs" for grow opts sent ovs
proof unfold_locales
  fix s c
  show "rl_overflowed s \<and> rl_sent s = sent \<and> rl_overflows s = ovs \<Longrightarrow>
      rl_overflowed (relay_step grow opts c s) \<and> rl_sent (relay_step grow opts c s) = sent \<and>
      rl_overflows (relay_step grow opts c s) = ovs"
    by (cases c) (auto simp: relay_defs)
qed

section \<open>The server-sent-event writer\<close>

text \<open>
  \<open>sse_len\<close> is the response's \<open>writableLength\<close>; Node's \<open>write\<close> adds the chunk to it and
  answers whether it stays below the socket's high-water mark. \<open>sse_listening\<close> says that the
  once-listener for \<open>drain\<close> is registered.
\<close>

record sse =
  sse_source :: bool
  sse_overflowed :: bool
  sse_paused :: bool
  sse_src_paused :: bool
  sse_listening :: bool
  sse_len :: nat
  sse_ended :: bool
  sse_written :: "string list"
  sse_overflows :: "nat list"

datatype sse_op = SetSource bool | Write string | Flushes nat | DrainEvent | EndStream

definition sse_write :: "nat \<Rightarrow> nat \<Rightarrow> string \<Rightarrow> sse \<Rightarrow> bool \<times> sse" where
  "sse_write hwm cap chunk s =
     (if sse_overflowed s \<or> sse_ended s then (False, s)
      else if sse_len s > cap
      then (False, s\<lparr>sse_overflowed := True, sse_overflows := sse_overflows s @ [sse_len s]\<rparr>)
      else (let s1 = s\<lparr>sse_len := sse_len s + length chunk, sse_written := sse_written s @ [chunk]\<rparr>;
                accepted = (sse_len s1 < hwm) in
            (accepted,
             if \<not> accepted \<and> sse_source s1 \<and> \<not> sse_paused s1
             then s1\<lparr>sse_paused := True, sse_src_paused := True, sse_listening := True\<rparr>
             else s1)))"

definition sse_drain :: "sse \<Rightarrow> sse" where
  "sse_drain s =
     (let s1 = s\<lparr>sse_len := 0\<rparr> in
      if sse_listening s1
      then (let s2 = s1\<lparr>sse_listening := False, sse_paused := False\<rparr> in
            if \<not> sse_overflowed s2 \<and> sse_source s2 then s2\<lparr>sse_src_paused := False\<rparr> else s2)
      else s1)"

fun sse_step :: "nat \<Rightarrow> nat \<Rightarrow> sse_op \<Rightarrow> sse \<Rightarrow> sse" where
  "sse_step hwm cap (SetSource b) s = s\<lparr>sse_source := b, sse_src_paused := False\<rparr>"
| "sse_step hwm cap (Write chunk) s = snd (sse_write hwm cap chunk s)"
| "sse_step hwm cap (Flushes n) s = s\<lparr>sse_len := sse_len s - n\<rparr>"
| "sse_step hwm cap DrainEvent s = sse_drain s"
| "sse_step hwm cap EndStream s = s\<lparr>sse_ended := True\<rparr>"

definition sse_init :: sse where
  "sse_init = \<lparr>sse_source = False, sse_overflowed = False, sse_paused = False, sse_src_paused = False,
     sse_listening = False, sse_len = 0, sse_ended = False, sse_written = [], sse_overflows = []\<rparr>"

definition sse_defaults_cap :: nat where
  "sse_defaults_cap = 8 * 1024 * 1024"

definition sse_defaults_signal_ms :: nat where
  "sse_defaults_signal_ms = 10000"

lemmas sse_defs = sse_write_def sse_drain_def Let_def

definition sse_inv :: "sse \<Rightarrow> bool" where
  "sse_inv s \<longleftrightarrow>
     (sse_paused s = sse_listening s) \<and> (sse_src_paused s \<longrightarrow> sse_source s) \<and> (sse_src_paused s \<and> \<not> sse_overflowed s \<longrightarrow> sse_listening s) \<and>
     length (sse_overflows s) = (if sse_overflowed s then 1 else 0)"

lemma sse_step_inv [inv_intros]: "sse_inv s \<Longrightarrow> sse_inv (sse_step hwm cap c s)"
  by (cases c) (auto simp: sse_inv_def sse_defs)

lemma sse_inv_init: "sse_inv sse_init"
  by (simp add: sse_inv_def sse_init_def)

definition sse_fits :: "nat \<Rightarrow> sse_op \<Rightarrow> bool" where
  "sse_fits n c = (case c of Write chunk \<Rightarrow> length chunk \<le> n | _ \<Rightarrow> True)"

interpretation sse_q: capped_queue "sse_step hwm cap" sse_inv sse_len "sse_fits n" cap n
  for hwm cap n
proof unfold_locales
  fix s c
  show "sse_inv s \<Longrightarrow> sse_inv (sse_step hwm cap c s)" by (rule sse_step_inv)
next
  fix s c
  show "sse_inv s \<Longrightarrow> sse_fits n c \<Longrightarrow> sse_len (sse_step hwm cap c s) \<le> sse_len s + n"
    by (cases c) (auto simp: sse_fits_def sse_defs)
next
  fix s c
  show "sse_inv s \<Longrightarrow> cap < sse_len s \<Longrightarrow> sse_len (sse_step hwm cap c s) \<le> sse_len s"
    by (cases c) (auto simp: sse_defs)
qed

section \<open>The poll-failure signal\<close>

definition failure_threshold_for :: "nat \<Rightarrow> nat" where
  "failure_threshold_for poll_ms = max 1 ((sse_defaults_signal_ms + poll_ms - 1) div poll_ms)"

record poll_signal =
  ps_failures :: nat
  ps_signalled :: bool
  ps_fired :: nat

definition record_failure :: "nat \<Rightarrow> poll_signal \<Rightarrow> poll_signal" where
  "record_failure threshold s =
     (let s1 = s\<lparr>ps_failures := ps_failures s + 1\<rparr> in
      if \<not> ps_signalled s1 \<and> ps_failures s1 \<ge> threshold
      then s1\<lparr>ps_signalled := True, ps_fired := ps_fired s1 + 1\<rparr> else s1)"

definition record_success :: "poll_signal \<Rightarrow> poll_signal" where
  "record_success s = s\<lparr>ps_failures := 0, ps_signalled := False\<rparr>"

interpretation poll_sig: streak_signal "record_failure threshold" record_success ps_failures
    "\<lambda>s. \<not> ps_signalled s" ps_fired threshold for threshold
  by unfold_locales (auto simp: record_failure_def record_success_def Let_def)

section \<open>Bounded reads\<close>

text \<open>What both bounded reads promise: everything, when it is within the limit, or a refusal.\<close>

definition bounded_concat :: "nat \<Rightarrow> string list \<Rightarrow> string option" where
  "bounded_concat limit chunks =
     (if length (concat chunks) \<le> limit then Some (concat chunks) else None)"

datatype read_event = Data string | ReadError | ReadEnd | ReadClose

datatype read_outcome = Resolved string | TooLarge nat | Failed

record collector =
  co_chunks :: "string list"
  co_total :: nat
  co_outcome :: "read_outcome option"
  co_destroyed :: bool

definition max_read_bytes :: nat where
  "max_read_bytes = 2 * 1024 * 1024"

definition co_init :: collector where
  "co_init = \<lparr>co_chunks = [], co_total = 0, co_outcome = None, co_destroyed = False\<rparr>"

definition settle :: "read_outcome \<Rightarrow> collector \<Rightarrow> collector" where
  "settle r s = (if co_outcome s = None then s\<lparr>co_outcome := Some r\<rparr> else s)"

fun collect_step :: "nat \<Rightarrow> read_event \<Rightarrow> collector \<Rightarrow> collector" where
  "collect_step limit (Data chunk) s =
     (let s1 = s\<lparr>co_total := co_total s + length chunk\<rparr> in
      if co_total s1 > limit
      then settle (TooLarge limit) (s1\<lparr>co_destroyed := True, co_chunks := []\<rparr>)
      else s1\<lparr>co_chunks := co_chunks s1 @ [chunk]\<rparr>)"
| "collect_step limit ReadError s = settle Failed s"
| "collect_step limit ReadEnd s = settle (Resolved (concat (co_chunks s))) s"
| "collect_step limit ReadClose s = settle (Resolved (concat (co_chunks s))) s"

definition collect_bounded :: "nat \<Rightarrow> read_event list \<Rightarrow> read_outcome option" where
  "collect_bounded limit evs = co_outcome (fold (collect_step limit) evs co_init)"

definition co_inv :: "nat \<Rightarrow> collector \<Rightarrow> bool" where
  "co_inv limit s \<longleftrightarrow> length (concat (co_chunks s)) \<le> limit \<and>
     length (concat (co_chunks s)) \<le> co_total s"

lemma collect_step_inv: "co_inv limit s \<Longrightarrow> co_inv limit (collect_step limit e s)"
  by (cases e) (auto simp: co_inv_def settle_def Let_def)

interpretation collector: guarded_system "collect_step limit" "co_inv limit" for limit
  by unfold_locales (rule collect_step_inv)

interpretation collector_settled: sticky_system "collect_step limit" "\<lambda>s. co_outcome s = Some r" for limit r
proof unfold_locales
  fix s c
  show "co_outcome s = Some r \<Longrightarrow> co_outcome (collect_step limit c s) = Some r"
    by (cases c) (auto simp: settle_def Let_def)
qed

lemma fold_data_ok:
  "co_outcome s = None \<Longrightarrow> co_total s = length (concat (co_chunks s)) \<Longrightarrow>
   length (concat (co_chunks s @ ds)) \<le> limit \<Longrightarrow>
   fold (collect_step limit) (map Data ds) s =
     s\<lparr>co_chunks := co_chunks s @ ds, co_total := length (concat (co_chunks s @ ds))\<rparr>"
  by (induction ds arbitrary: s) (auto simp: Let_def)

lemma fold_data_over:
  "co_outcome s = None \<Longrightarrow> co_total s \<le> limit \<Longrightarrow>
   limit < co_total s + length (concat ds) \<Longrightarrow>
   co_outcome (fold (collect_step limit) (map Data ds) s) = Some (TooLarge limit)"
proof (induction ds arbitrary: s)
  case Nil
  then show ?case by simp
next
  case (Cons d ds)
  show ?case
  proof (cases "co_total s + length d \<le> limit")
    case True
    then show ?thesis using Cons.prems by (auto simp: Let_def intro!: Cons.IH)
  next
    case False
    then have "co_outcome (collect_step limit (Data d) s) = Some (TooLarge limit)"
      using Cons.prems by (simp add: Let_def settle_def)
    then show ?thesis by (simp add: collector_settled.run_stuck)
  qed
qed

lemma collect_bounded_end:
  "collect_bounded limit (map Data ds @ ReadEnd # rest) =
     Some (case bounded_concat limit ds of Some b \<Rightarrow> Resolved b | None \<Rightarrow> TooLarge limit)"
proof (cases "length (concat ds) \<le> limit")
  case True
  have "fold (collect_step limit) (map Data ds) co_init =
      co_init\<lparr>co_chunks := ds, co_total := length (concat ds)\<rparr>"
    using fold_data_ok [of co_init ds limit] True by (simp add: co_init_def)
  then have "co_outcome (fold (collect_step limit) (map Data ds @ [ReadEnd]) co_init) =
      Some (Resolved (concat ds))"
    by (simp add: settle_def co_init_def)
  then show ?thesis
    using collector_settled.run_stuck True by (simp add: collect_bounded_def bounded_concat_def)
next
  case False
  then have "co_outcome (fold (collect_step limit) (map Data ds) co_init) = Some (TooLarge limit)"
    by (intro fold_data_over) (auto simp: co_init_def)
  then show ?thesis
    using collector_settled.run_stuck [of _ "TooLarge limit" limit "ReadEnd # rest"] False
    by (simp add: collect_bounded_def bounded_concat_def del: fold.simps collect_step.simps)
qed

text \<open>
  The ui's \<open>readBodyLimited\<close>: the declared length first, then the counted loop. \<open>None\<close> for
  the body is a request without one. The empty reads the loop skips carry no bytes.
\<close>

datatype body_result = Body string | BodyTooLarge nat

fun read_loop :: "nat \<Rightarrow> nat \<Rightarrow> string list \<Rightarrow> string list \<Rightarrow> body_result" where
  "read_loop limit sofar chunks [] = Body (concat chunks)"
| "read_loop limit sofar chunks (v # vs) =
     (let sofar' = sofar + length v in
      if sofar' > limit then BodyTooLarge limit else read_loop limit sofar' (chunks @ [v]) vs)"

definition read_body_limited :: "nat \<Rightarrow> string option \<Rightarrow> string list option \<Rightarrow> body_result" where
  "read_body_limited limit content_length body =
     (let declared = map_option js_Number content_length in
      if (case declared of None \<Rightarrow> False | Some n \<Rightarrow> js_isFinite n \<and> num_gt n (of_nat limit))
      then BodyTooLarge limit
      else (case body of None \<Rightarrow> Body [] | Some vs \<Rightarrow> read_loop limit 0 [] vs))"

lemma read_loop_concat:
  "sofar = length (concat chunks) \<Longrightarrow> sofar \<le> limit \<Longrightarrow>
   read_loop limit sofar chunks vs =
     (case bounded_concat limit (chunks @ vs) of Some b \<Rightarrow> Body b | None \<Rightarrow> BodyTooLarge limit)"
proof (induction vs arbitrary: sofar chunks)
  case Nil
  then show ?case by (simp add: bounded_concat_def)
next
  case (Cons v vs)
  show ?case
  proof (cases "sofar + length v \<le> limit")
    case True
    then show ?thesis using Cons.prems Cons.IH [of "sofar + length v" "chunks @ [v]"]
      by (simp add: Let_def)
  next
    case False
    then show ?thesis using Cons.prems by (simp add: Let_def bounded_concat_def)
  qed
qed

section \<open>The credential deadline\<close>

definition max_timeout_ms :: int where
  "max_timeout_ms = 2147483647"

text \<open>
  \<open>setTimeout\<close> keeps its delay as a signed 32-bit count of milliseconds: one outside
  1 .. 2147483647 becomes 1, and a fraction is dropped.
\<close>

definition timer_delay :: "rat \<Rightarrow> int" where
  "timer_delay d = (if d > of_int max_timeout_ms \<or> d < 1 then 1 else \<lfloor>d\<rfloor>)"

text \<open>\<open>None\<close> is the refusal; \<open>Some d\<close> is the delay given to \<open>setTimeout\<close>.\<close>

definition arm_credential_deadline :: "int \<Rightarrow> js \<Rightarrow> rat option" where
  "arm_credential_deadline now cred_exp =
     (case cred_exp of
        Num (Fin e) \<Rightarrow>
          (let ms_remaining = e * 1000 - of_int now in
           if ms_remaining \<le> 0 then None else Some (min ms_remaining (of_int max_timeout_ms)))
      | _ \<Rightarrow> None)"

section \<open>The backfill notice\<close>

record backfill_notice =
  bn_sent :: nat
  bn_total :: nat
  bn_oldest :: "nat option"
  bn_has_older :: bool

definition backfill_notice :: "nat list \<Rightarrow> nat \<Rightarrow> backfill_notice" where
  "backfill_notice seqs tot =
     \<lparr>bn_sent = length seqs, bn_total = tot,
      bn_oldest = (case seqs of [] \<Rightarrow> None | q # _ \<Rightarrow> Some q),
      bn_has_older = (tot > length seqs)\<rparr>"

section \<open>Properties\<close>

text \<open>
  The relay's memory is bounded. Whatever the two sockets do, if no frame is longer than
  \<open>n\<close> bytes the destination's queue never exceeds the hard cap by more than one frame.
\<close>

theorem relay_memory_bounded:
  assumes "\<forall>c \<in> set cs. relay_fits n c"
  shows "rl_queue (fold (relay_step queue_plus opts) cs relay_init) \<le> hard_cap opts + n"
  by (rule relay_q.run_bounded) (use assms relay_inv_init in \<open>auto simp: relay_init_def\<close>)

theorem relay_memory_bounded_witness:
  "rl_queue (fold (relay_step queue_plus \<lparr>high_water = 2, hard_cap = 4\<rparr>)
     [Message ''abc'' False, Message ''abc'' False, Message ''abc'' False] relay_init) \<le> 4 + 3"
  using relay_memory_bounded [of "[Message ''abc'' False, Message ''abc'' False, Message ''abc'' False]" 3
      "\<lparr>high_water = 2, hard_cap = 4\<rparr>"]
  by (simp add: relay_fits_def)

text \<open>
  An overflow ends the relay, once. After any events at most one overflow is reported,
  and from then on nothing further is sent, whatever arrives.
\<close>

theorem relay_overflow_once:
  fixes grow opts cs cs'
  shows "length (rl_overflows (fold (relay_step grow opts) cs relay_init)) =
      (if rl_overflowed (fold (relay_step grow opts) cs relay_init) then 1 else 0) \<and>
    (rl_overflowed (fold (relay_step grow opts) cs relay_init) \<longrightarrow>
       rl_sent (fold (relay_step grow opts) (cs @ cs') relay_init) =
       rl_sent (fold (relay_step grow opts) cs relay_init))"
proof -
  let ?s = "fold (relay_step grow opts) cs relay_init"
  have inv: "relay_inv opts ?s"
    using relay_inv_init relay_step_inv by (induction cs rule: rev_induct) auto
  have "rl_overflowed ?s \<Longrightarrow> rl_sent (fold (relay_step grow opts) cs' ?s) = rl_sent ?s"
    using relay_over.run_stuck [of ?s "rl_sent ?s" "rl_overflows ?s" grow opts cs'] by simp
  then show ?thesis using inv by (auto simp: relay_inv_def)
qed

theorem relay_overflow_once_witness:
  "rl_overflowed (relay_step queue_plus \<lparr>high_water = 1, hard_cap = 2\<rparr> (Message ''abc'' False) relay_init) \<and>
   rl_sent (fold (relay_step queue_plus \<lparr>high_water = 1, hard_cap = 2\<rparr>)
     ([Message ''abc'' False] @ [PeerDrains 3, Message ''d'' False]) relay_init) = [(''abc'', False)]"
proof -
  have "rl_overflowed (relay_step queue_plus \<lparr>high_water = 1, hard_cap = 2\<rparr> (Message ''abc'' False) relay_init)"
    "rl_sent (relay_step queue_plus \<lparr>high_water = 1, hard_cap = 2\<rparr> (Message ''abc'' False) relay_init) = [(''abc'', False)]"
    by code_simp+
  then show ?thesis
    using relay_overflow_once [of queue_plus "\<lparr>high_water = 1, hard_cap = 2\<rparr>" "[Message ''abc'' False]"
        "[PeerDrains 3, Message ''d'' False]"]
    by simp
qed

text \<open>
  A paused source is resumed. After any events other than the teardown, if the relay has
  not overflowed and the destination has drained to half the high-water mark or has closed,
  the next tick of the resume interval leaves the source running.
\<close>

theorem relay_resumes:
  assumes "Teardown \<notin> set cs" and "s = fold (relay_step grow opts) cs relay_init"
    and "\<not> rl_overflowed s" and "rl_queue s \<le> resume_threshold opts \<or> \<not> rl_open s"
  shows "\<not> rl_src_paused (relay_step grow opts PollTick s) \<and> \<not> rl_paused (relay_step grow opts PollTick s)"
proof -
  have "relay_live s" unfolding assms(2)
    by (rule relay_run_live [OF assms(1)]) (simp add: relay_live_def relay_init_def)
  moreover have "relay_inv opts s" unfolding assms(2)
    using relay_inv_init relay_step_inv by (induction cs rule: rev_induct) auto
  ultimately show ?thesis
    using assms(3,4) by (auto simp: relay_live_def relay_inv_def relay_defs)
qed

theorem relay_resumes_witness:
  "rl_src_paused (fold (relay_step queue_plus relay_defaults) [PeerDrains 1] relay_init\<lparr>rl_queue := 0\<rparr>) = False \<and>
   \<not> rl_src_paused (relay_step queue_plus \<lparr>high_water = 2, hard_cap = 9\<rparr> PollTick
     (fold (relay_step queue_plus \<lparr>high_water = 2, hard_cap = 9\<rparr>) [Message ''abc'' False, PeerDrains 2] relay_init))"
proof -
  let ?o = "\<lparr>high_water = 2, hard_cap = 9\<rparr>" and ?cs = "[Message ''abc'' False, PeerDrains 2]"
  have "\<not> rl_overflowed (fold (relay_step queue_plus ?o) ?cs relay_init) \<and>
      rl_queue (fold (relay_step queue_plus ?o) ?cs relay_init) \<le> resume_threshold ?o"
    by code_simp
  then show ?thesis
    using relay_resumes [of ?cs "fold (relay_step queue_plus ?o) ?cs relay_init" queue_plus ?o]
    by (simp add: relay_init_def)
qed

text \<open>
  The event stream's memory is bounded, and its producer is not left paused. If no frame
  is longer than \<open>n\<close> bytes the response never queues more than the cap plus one frame; the
  overflow is reported at most once; and when the response drains, a producer that the
  writer paused runs again unless the stream overflowed.
\<close>

theorem sse_bounded_and_resumes:
  assumes "\<forall>c \<in> set cs. sse_fits n c" and "s = fold (sse_step hwm cap) cs sse_init"
  shows "sse_len s \<le> cap + n \<and> length (sse_overflows s) \<le> 1 \<and>
    (sse_overflowed s \<or> \<not> sse_src_paused (sse_step hwm cap DrainEvent s))"
proof -
  have "sse_len s \<le> cap + n" unfolding assms(2)
    by (rule sse_q.run_bounded) (use assms(1) sse_inv_init in \<open>auto simp: sse_init_def\<close>)
  moreover have "sse_inv s" unfolding assms(2) using sse_inv_init by (rule sse_q.run_inv)
  ultimately show ?thesis by (auto simp: sse_inv_def sse_defs)
qed

theorem sse_bounded_and_resumes_witness:
  "sse_src_paused (fold (sse_step 2 9) [SetSource True, Write ''abc''] sse_init) \<and>
   \<not> sse_src_paused (sse_step 2 9 DrainEvent (fold (sse_step 2 9) [SetSource True, Write ''abc''] sse_init))"
proof -
  let ?s = "fold (sse_step 2 9) [SetSource True, Write ''abc''] sse_init"
  have "sse_src_paused ?s \<and> \<not> sse_overflowed ?s" by code_simp
  then show ?thesis
    using sse_bounded_and_resumes [of "[SetSource True, Write ''abc'']" 3 ?s 2 9]
    by (simp add: sse_fits_def)
qed

lemma ceil_div:
  fixes a k :: nat
  assumes "0 < k"
  shows "a \<le> ((a + k - 1) div k) * k" and "((a + k - 1) div k) * k < a + k"
proof -
  define q r where "q = (a + k - 1) div k" and "r = (a + k - 1) mod k"
  have "a + k - 1 = q * k + r" "r < k" using assms by (simp_all add: q_def r_def)
  then show "a \<le> ((a + k - 1) div k) * k" "((a + k - 1) div k) * k < a + k"
    using assms by (simp_all add: q_def [symmetric])
qed

text \<open>
  The stream says once per outage that it cannot reach its store. With a poll interval
  of \<open>ms\<close>, \<open>m\<close> failures in a row signal exactly once when they reach the threshold and not at
  all before; after a success a second outage signals again; and the threshold covers at
  least ten seconds without exceeding them by a whole interval.
\<close>

theorem poll_signal_once_per_outage:
  assumes "0 < ms" and "failure_threshold_for ms \<le> m" and "failure_threshold_for ms \<le> k"
  shows "ps_fired ((record_failure (failure_threshold_for ms) ^^ j) \<lparr>ps_failures = 0, ps_signalled = False, ps_fired = 0\<rparr>) =
      (if failure_threshold_for ms \<le> j then 1 else 0) \<and>
    ps_fired ((record_failure (failure_threshold_for ms) ^^ k)
      (record_success ((record_failure (failure_threshold_for ms) ^^ m)
        \<lparr>ps_failures = 0, ps_signalled = False, ps_fired = 0\<rparr>))) = 2 \<and>
    sse_defaults_signal_ms \<le> failure_threshold_for ms * ms \<and>
    failure_threshold_for ms * ms < sse_defaults_signal_ms + ms"
proof -
  let ?s = "\<lparr>ps_failures = 0, ps_signalled = False, ps_fired = 0\<rparr>"
  let ?f = "record_failure (failure_threshold_for ms)"
  have t: "0 < failure_threshold_for ms" by (simp add: failure_threshold_for_def)
  have "ps_fired ((?f ^^ j) ?s) = (if failure_threshold_for ms \<le> j then 1 else 0)"
    using poll_sig.outage_signals [of ?s "failure_threshold_for ms" j] t by simp
  moreover have "ps_fired ((?f ^^ k) (record_success ((?f ^^ m) ?s))) = 2"
    using poll_sig.second_outage_signals [of ?s "failure_threshold_for ms" m k] t assms(2,3)
    by simp
  moreover have "1 \<le> (sse_defaults_signal_ms + ms - 1) div ms"
    using assms(1) by (simp add: sse_defaults_signal_ms_def div_greater_zero_iff Suc_le_eq)
  moreover note ceil_div [OF assms(1), of sse_defaults_signal_ms]
  ultimately show ?thesis by (simp add: failure_threshold_for_def max_def)
qed

theorem poll_signal_once_per_outage_witness:
  "ps_fired ((record_failure (failure_threshold_for 5000) ^^ 2)
      (record_success ((record_failure (failure_threshold_for 5000) ^^ 3)
        \<lparr>ps_failures = 0, ps_signalled = False, ps_fired = 0\<rparr>))) = 2"
  using poll_signal_once_per_outage [of 5000 3 2 1]
  by (simp add: failure_threshold_for_def sse_defaults_signal_ms_def)

text \<open>
  A bounded read is the whole body or a refusal, and holds no more than the limit
  meanwhile. For every way a stream splits its bytes into chunks, \<open>collectBounded\<close> resolves
  with their concatenation when that is within the limit and rejects otherwise, whatever
  comes after the end; and at every point, of every event sequence, the bytes it retains are
  within the limit.
\<close>

theorem collect_bounded_correct:
  "collect_bounded limit (map Data ds @ ReadEnd # rest) =
     Some (if length (concat ds) \<le> limit then Resolved (concat ds) else TooLarge limit) \<and>
   length (concat (co_chunks (fold (collect_step limit) evs co_init))) \<le> limit"
proof -
  have "co_inv limit (fold (collect_step limit) evs co_init)"
    by (rule collector.run_inv) (simp add: co_inv_def co_init_def)
  then show ?thesis using collect_bounded_end [of limit ds rest]
    by (simp add: bounded_concat_def co_inv_def)
qed

text \<open>
  The ui's body limit cannot be passed by chunking. Whatever the declared length, a body
  that is read is within the limit and is the concatenation of its chunks; and a body within
  the limit whose declared length is absent is read in full.
\<close>

theorem read_body_limited_correct:
  "(case read_body_limited limit cl (Some vs) of
      Body b \<Rightarrow> b = concat vs \<and> length b \<le> limit
    | BodyTooLarge n \<Rightarrow> n = limit \<and> (cl \<noteq> None \<or> limit < length (concat vs))) \<and>
   read_body_limited limit None (Some vs) =
     (if length (concat vs) \<le> limit then Body (concat vs) else BodyTooLarge limit)"
  by (auto simp: read_body_limited_def read_loop_concat bounded_concat_def split: option.splits)

theorem read_body_limited_correct_witness:
  "read_body_limited 3 (Some ''x'') (Some [''ab'', ''cd'']) = BodyTooLarge 3 \<and> (3::nat) < length (concat [''ab'', ''cd''])"
proof -
  have "read_body_limited 3 (Some ''x'') (Some [''ab'', ''cd'']) = BodyTooLarge 3" by code_simp
  then show ?thesis using read_body_limited_correct [where limit = 3 and cl = "Some ''x''" and vs = "[''ab'', ''cd'']"] by simp
qed

text \<open>
  A stream does not outlive its credential. The deadline is refused exactly when there is
  no finite expiry in the future; otherwise the timer that is armed waits a delay the runtime
  honours (at least one millisecond and within the 32-bit range, so it cannot fire at once
  for a distant expiry), and it fires no later than the expiry, a fraction of a millisecond
  rounded up to one aside.
\<close>

theorem deadline_honoured:
  "case arm_credential_deadline now e of
     None \<Rightarrow> (\<forall>q. e \<noteq> Num (Fin q) \<or> q * 1000 \<le> of_int now)
   | Some d \<Rightarrow> 0 < d \<and> 1 \<le> timer_delay d \<and> timer_delay d \<le> max_timeout_ms \<and>
       (\<exists>q. e = Num (Fin q) \<and> of_int (timer_delay d) \<le> max 1 (q * 1000 - of_int now) \<and>
            (q * 1000 - of_int now > of_int max_timeout_ms \<longrightarrow> timer_delay d = max_timeout_ms))"
proof (cases "\<exists>q. e = Num (Fin q) \<and> \<not> q * 1000 \<le> of_int now")
  case True
  then obtain q where e: "e = Num (Fin q)" and q: "0 < q * 1000 - of_int now" by auto
  define r where "r = q * 1000 - of_int now"
  have arm: "arm_credential_deadline now e = Some (min r (of_int max_timeout_ms))"
    using q by (simp add: arm_credential_deadline_def e r_def Let_def)
  have fl: "of_int \<lfloor>x\<rfloor> \<le> x" for x :: rat by simp
  have "1 \<le> timer_delay (min r (of_int max_timeout_ms))"
    "timer_delay (min r (of_int max_timeout_ms)) \<le> max_timeout_ms"
    "of_int (timer_delay (min r (of_int max_timeout_ms))) \<le> max 1 r"
    "r > of_int max_timeout_ms \<longrightarrow> timer_delay (min r (of_int max_timeout_ms)) = max_timeout_ms"
    using q fl [of r]
    by (auto simp: timer_delay_def max_timeout_ms_def min_def max_def le_floor_iff floor_le_iff r_def [symmetric])
  moreover have "0 < min r (of_int max_timeout_ms)" using q by (simp add: r_def max_timeout_ms_def)
  ultimately show ?thesis unfolding arm option.case
    by (intro conjI exI [of _ q] e) (simp_all add: r_def)
next
  case False
  then have "arm_credential_deadline now e = None"
    by (auto simp: arm_credential_deadline_def Let_def split: js.splits jsnum.splits)
  then show ?thesis using False by auto
qed

theorem deadline_honoured_witness:
  "arm_credential_deadline 0 (Num (Fin 4294968)) = Some (of_int max_timeout_ms) \<and>
   timer_delay (of_int max_timeout_ms) = max_timeout_ms"
proof -
  have "arm_credential_deadline 0 (Num (Fin 4294968)) = Some (of_int max_timeout_ms)"
    by (simp add: arm_credential_deadline_def max_timeout_ms_def)
  then show ?thesis using deadline_honoured [where now = 0 and e = "Num (Fin 4294968)"] by (simp add: max_timeout_ms_def)
qed

end
