(* ===== verification/ChatDb.thy ===== *)
theory ChatDb
  imports Access Effects
begin

text \<open>
  The chat tables (\<open>db/migrations/028\<close>, \<open>030\<close>, \<open>038\<close>, \<open>041\<close>, \<open>043\<close>, \<open>053\<close>, \<open>071\<close>) and one
  definition per SQL statement of \<open>routes/chat.ts\<close>. A table is a list of rows in insertion
  order; a statement is a function of the database, atomic as Postgres makes it, and the
  constraints it can break (primary keys, foreign keys, the idempotency index, the length of
  a VARCHAR, a malformed uuid) are \<open>Inl\<close>.

  The message sequence is the counter \<open>d_seq\<close>, the last value drawn: an INSERT draws one and
  an UPDATE that says \<open>seq = nextval(...)\<close> draws one per row it touches (\<open>bump_where\<close>).
  \<open>msg_evolves\<close> is what such statements may do to a row; it is the contract a reader of the
  stream relies on: what changed since the counter stood at \<open>c\<close> carries a sequence number
  above \<open>c\<close>, and a row in a terminal status keeps it.
\<close>

section \<open>Tables\<close>

datatype thread_type = Direct | Group

datatype party = Human | Agent

datatype party_role = Owner | Member

datatype msg_role = UserRole | Assistant

datatype msg_status = Pending | Thinking | Complete | Error

record thread =
  t_id :: string
  t_type :: thread_type
  t_title :: "string option"
  t_created_by :: string
  t_lead :: "string option"
  t_created :: int
  t_updated :: int

record participant =
  p_thread :: string
  p_id :: string
  p_kind :: party
  p_role :: party_role
  p_joined :: int
  p_left :: "int option"

record msg =
  m_id :: string
  m_seq :: nat
  m_thread :: string
  m_author :: string
  m_kind :: party
  m_role :: msg_role
  m_content :: string
  m_status :: msg_status
  m_reply_to :: "string option"
  m_targets :: "string list option"
  m_model :: "string option"
  m_in :: "int option"
  m_out :: "int option"
  m_dur :: "int option"
  m_error :: "string option"
  m_key :: "string option"
  m_chain :: "string option"
  m_hop :: "int option"
  m_trig :: "string option"
  m_batch :: bool
  m_created :: int
  m_updated :: int

text \<open>
  What the chat routes read of an agent: its row, the \<open>allowed_models\<close> of its policy, and the
  \<open>scope\<close> column of the join over its skills.
\<close>

record agent =
  a_id :: string
  a_slug :: string
  a_name :: string
  a_status :: string
  a_work_token :: "string option"
  a_models :: js
  a_scopes :: "string option list"
  a_owner :: "string option"

text \<open>
  A work item as \<open>dispatchChatWork\<close> posts it. The list of requests sent is part of the state,
  so that theorems can speak of what left the process.
\<close>

record dispatch_req =
  rq_url :: string
  rq_token :: string
  rq_thread :: string
  rq_message :: string
  rq_history :: "(msg_role \<times> string) list"
  rq_model :: string
  rq_callback :: string
  rq_type :: "thread_type option"
  rq_participants :: "(string \<times> string) list"
  rq_lead :: bool
  rq_collaborators :: "(string \<times> string) list"
  rq_agent :: string

record chat_db =
  d_threads :: "thread list"
  d_parts :: "participant list"
  d_msgs :: "msg list"
  d_agents :: "agent list"
  d_seq :: nat
  d_ids :: nat
  d_outbox :: "dispatch_req list"

text \<open>
  What the handlers take from outside: Postgres' reading of a uuid, a text and an integer
  parameter, the generator of ids, the agentbox's answer to a dispatch, the environment
  variables, and the clock, which stands still within a handler.
\<close>

datatype http_result =
    NetError string                  \<comment> \<open>the fetch rejects, a timeout included\<close>
  | HttpError nat string             \<comment> \<open>a response that is not ok, and its text\<close>
  | HttpOk bool                      \<comment> \<open>the \<open>accepted\<close> of the JSON answer\<close>

record chat_env =
  uuid_in :: "string \<Rightarrow> string option"
  pg_text :: "js \<Rightarrow> string"
  pg_int :: "js \<Rightarrow> int option"
  gen_id :: "nat \<Rightarrow> string"
  post_work :: "dispatch_req \<Rightarrow> http_result"
  callback_token :: "string option"
  default_model :: string
  max_hops :: jsnum
  max_chain_ms :: jsnum
  now :: int

section \<open>Values going into the database\<close>

definition text_ok :: "string \<Rightarrow> bool" where
  "text_ok s = (CHR 0x00 \<notin> set s)"

definition varchar_ok :: "nat \<Rightarrow> string \<Rightarrow> bool" where
  "varchar_ok n s = (text_ok s \<and> length s \<le> n)"

definition text_param :: "chat_env \<Rightarrow> js \<Rightarrow> string" where
  "text_param env v = (case v of Str s \<Rightarrow> s | _ \<Rightarrow> pg_text env v)"

text \<open>\<open>v || null\<close> for a text column.\<close>

definition or_null :: "chat_env \<Rightarrow> js \<Rightarrow> string option" where
  "or_null env v = (if truthy v then Some (text_param env v) else None)"

text \<open>\<open>v || null\<close> for an integer column; the outer option is Postgres refusing the value.\<close>

definition int_or_null :: "chat_env \<Rightarrow> js \<Rightarrow> int option option" where
  "int_or_null env v =
     (if truthy v then (case pg_int env v of None \<Rightarrow> None | Some k \<Rightarrow> Some (Some k)) else Some None)"

text \<open>
  A uuid parameter: \<open>Inl\<close> when Postgres refuses it, \<open>None\<close> for NULL (which equals nothing).
  A number, a boolean, an object or an array has a text form that is no uuid.
\<close>

definition uuid_param :: "chat_env \<Rightarrow> js \<Rightarrow> exn + string option" where
  "uuid_param env v =
     (case v of
        Null \<Rightarrow> Inr None
      | Undef \<Rightarrow> Inr None
      | Str s \<Rightarrow> (case uuid_in env s of None \<Rightarrow> Inl DbFault | Some u \<Rightarrow> Inr (Some u))
      | _ \<Rightarrow> Inl DbFault)"

definition on_uuid :: "chat_env \<Rightarrow> js \<Rightarrow> (string option \<Rightarrow> chat_db \<Rightarrow> 'a) \<Rightarrow> (chat_db, 'a) eff" where
  "on_uuid env v f =
     db_query (\<lambda>d. case uuid_param env v of Inl e \<Rightarrow> Inl e | Inr u \<Rightarrow> Inr (f u d, d))"

section \<open>Drawing from the sequence\<close>

fun bump_rows :: "(msg \<Rightarrow> bool) \<Rightarrow> (msg \<Rightarrow> msg) \<Rightarrow> nat \<Rightarrow> msg list \<Rightarrow> msg list \<times> nat" where
  "bump_rows P f c [] = ([], c)"
| "bump_rows P f c (m # ms) =
     (if P m
      then (let (ms', c') = bump_rows P f (Suc c) ms in ((f m)\<lparr>m_seq := Suc c\<rparr> # ms', c'))
      else (let (ms', c') = bump_rows P f c ms in (m # ms', c')))"

text \<open>The row count and the new database of an UPDATE that renumbers what it touches.\<close>

definition bump_where :: "(msg \<Rightarrow> bool) \<Rightarrow> (msg \<Rightarrow> msg) \<Rightarrow> chat_db \<Rightarrow> nat \<times> chat_db" where
  "bump_where P f d =
     (let (ms, c) = bump_rows P f (d_seq d) (d_msgs d)
      in (length (filter P (d_msgs d)), d\<lparr>d_msgs := ms, d_seq := c\<rparr>))"

definition bump_query :: "(msg \<Rightarrow> bool) \<Rightarrow> (msg \<Rightarrow> msg) \<Rightarrow> (chat_db, nat) eff" where
  "bump_query P f = db_query (\<lambda>d. Inr (bump_where P f d))"

definition update_threads :: "(thread \<Rightarrow> bool) \<Rightarrow> (thread \<Rightarrow> thread) \<Rightarrow> chat_db \<Rightarrow> chat_db" where
  "update_threads P f d = d\<lparr>d_threads := map (\<lambda>t. if P t then f t else t) (d_threads d)\<rparr>"

section \<open>Reading\<close>

definition find_thread :: "string option \<Rightarrow> chat_db \<Rightarrow> thread option" where
  "find_thread u d = (case u of None \<Rightarrow> None | Some i \<Rightarrow> find (\<lambda>t. t_id t = i) (d_threads d))"

definition find_msg :: "string option \<Rightarrow> chat_db \<Rightarrow> msg option" where
  "find_msg u d = (case u of None \<Rightarrow> None | Some i \<Rightarrow> find (\<lambda>m. m_id m = i) (d_msgs d))"

definition find_agent :: "string option \<Rightarrow> chat_db \<Rightarrow> agent option" where
  "find_agent u d = (case u of None \<Rightarrow> None | Some i \<Rightarrow> find (\<lambda>a. a_id a = i) (d_agents d))"

definition human_in :: "string option \<Rightarrow> string \<Rightarrow> chat_db \<Rightarrow> bool" where
  "human_in u sub d =
     (\<exists>p \<in> set (d_parts d). Some (p_thread p) = u \<and> p_id p = sub \<and> p_kind p = Human \<and> p_left p = None)"

definition owner_in :: "string option \<Rightarrow> string \<Rightarrow> chat_db \<Rightarrow> bool" where
  "owner_in u sub d =
     (\<exists>p \<in> set (d_parts d). Some (p_thread p) = u \<and> p_id p = sub \<and> p_kind p = Human \<and> p_role p = Owner)"

definition active_agents :: "string option \<Rightarrow> chat_db \<Rightarrow> string list" where
  "active_agents u d =
     map p_id (filter (\<lambda>p. Some (p_thread p) = u \<and> p_kind p = Agent \<and> p_left p = None) (d_parts d))"

text \<open>\<open>isParticipant\<close> and \<open>isThreadOwner\<close>: an admin is not looked up.\<close>

definition is_participant :: "chat_env \<Rightarrow> js \<Rightarrow> string \<Rightarrow> bool \<Rightarrow> (chat_db, bool) eff" where
  "is_participant env tid sub admin =
     (if admin then ret True else on_uuid env tid (\<lambda>u d. human_in u sub d))"

definition is_thread_owner :: "chat_env \<Rightarrow> js \<Rightarrow> string \<Rightarrow> bool \<Rightarrow> (chat_db, bool) eff" where
  "is_thread_owner env tid sub admin =
     (if admin then ret True else on_uuid env tid (\<lambda>u d. owner_in u sub d))"

definition get_agent_for_dispatch :: "chat_env \<Rightarrow> js \<Rightarrow> (chat_db, agent option) eff" where
  "get_agent_for_dispatch env v = on_uuid env v find_agent"

definition get_thread_agents :: "chat_env \<Rightarrow> js \<Rightarrow> (chat_db, string list) eff" where
  "get_thread_agents env tid = on_uuid env tid active_agents"

definition get_thread_type :: "chat_env \<Rightarrow> js \<Rightarrow> (chat_db, (thread_type \<times> string option) option) eff" where
  "get_thread_type env tid =
     on_uuid env tid (\<lambda>u d. map_option (\<lambda>t. (t_type t, t_lead t)) (find_thread u d))"

text \<open>\<open>getAgentElevatedScope\<close>: the skills of an agent that is not there are no rows.\<close>

definition elevated_of :: "string option \<Rightarrow> chat_db \<Rightarrow> string option" where
  "elevated_of u d = (case find_agent u d of None \<Rightarrow> None | Some a \<Rightarrow> agent_elevated_scope (a_scopes a))"

definition get_elevated_scope :: "chat_env \<Rightarrow> js \<Rightarrow> (chat_db, string option) eff" where
  "get_elevated_scope env v = on_uuid env v elevated_of"

text \<open>
  \<open>resolveAgentSlugs\<close>: the join casts \<open>participant_id\<close> to uuid, and the rows go into a
  JavaScript \<open>Map\<close> (a second row with a slug replaces the value and keeps the position).
\<close>

fun slug_rows :: "chat_env \<Rightarrow> string list \<Rightarrow> string list \<Rightarrow> chat_db \<Rightarrow> (string \<times> string) list option" where
  "slug_rows env slugs [] d = Some []"
| "slug_rows env slugs (p # ps) d =
     (case uuid_in env p of
        None \<Rightarrow> None
      | Some u \<Rightarrow>
          (case slug_rows env slugs ps d of
             None \<Rightarrow> None
           | Some rest \<Rightarrow>
               (case find_agent (Some u) d of
                  None \<Rightarrow> Some rest
                | Some a \<Rightarrow> if a_slug a \<in> set slugs then Some ((a_slug a, p) # rest) else Some rest)))"

definition resolve_agent_slugs ::
    "chat_env \<Rightarrow> js \<Rightarrow> string list \<Rightarrow> (chat_db, (string \<times> string) list) eff" where
  "resolve_agent_slugs env tid slugs =
     (if slugs = [] then ret []
      else db_query (\<lambda>d. case uuid_param env tid of
                            Inl e \<Rightarrow> Inl e
                          | Inr u \<Rightarrow> (case slug_rows env slugs (active_agents u d) d of
                                        None \<Rightarrow> Inl DbFault
                                      | Some rows \<Rightarrow>
                                          Inr (foldl (\<lambda>mp (s, p). js_map_set mp s p) [] rows, d))))"

definition has_pending :: "chat_env \<Rightarrow> js \<Rightarrow> string \<Rightarrow> (chat_db, bool) eff" where
  "has_pending env tid author =
     on_uuid env tid (\<lambda>u d. \<exists>m \<in> set (d_msgs d). Some (m_thread m) = u \<and> m_author m = author \<and>
        m_kind m = Agent \<and> m_status m = Pending)"

text \<open>The newest \<open>n\<close> complete messages, oldest first. Rows are sorted on their sequence number.\<close>

definition newest_first :: "msg list \<Rightarrow> msg list" where
  "newest_first ms = rev (sort_key m_seq ms)"

definition message_history_limit :: nat where
  "message_history_limit = 50"

definition load_history :: "chat_env \<Rightarrow> js \<Rightarrow> (chat_db, (msg_role \<times> string) list) eff" where
  "load_history env tid =
     on_uuid env tid (\<lambda>u d. rev (take message_history_limit
        (map (\<lambda>m. (m_role m, m_content m))
          (newest_first (filter (\<lambda>m. Some (m_thread m) = u \<and> m_status m = Complete) (d_msgs d))))))"

section \<open>Inserting\<close>

definition thread_exists :: "string \<Rightarrow> chat_db \<Rightarrow> bool" where
  "thread_exists i d = (\<exists>t \<in> set (d_threads d). t_id t = i)"

definition agent_exists :: "string \<Rightarrow> chat_db \<Rightarrow> bool" where
  "agent_exists i d = (\<exists>a \<in> set (d_agents d). a_id a = i)"

definition msg_exists :: "string \<Rightarrow> chat_db \<Rightarrow> bool" where
  "msg_exists i d = (\<exists>m \<in> set (d_msgs d). m_id m = i)"

definition fk :: "(string \<Rightarrow> chat_db \<Rightarrow> bool) \<Rightarrow> string option \<Rightarrow> chat_db \<Rightarrow> bool" where
  "fk ex r d = (case r of None \<Rightarrow> True | Some i \<Rightarrow> ex i d)"

definition thread_insert ::
    "chat_env \<Rightarrow> thread_type \<Rightarrow> js \<Rightarrow> string \<Rightarrow> js \<Rightarrow> chat_db \<Rightarrow> exn + thread \<times> chat_db" where
  "thread_insert env ty title sub lead d =
     (case uuid_param env (if truthy lead then lead else Null) of
        Inl e \<Rightarrow> Inl e
      | Inr ld \<Rightarrow>
          (let t = \<lparr>t_id = gen_id env (d_ids d), t_type = ty, t_title = or_null env title,
                    t_created_by = sub, t_lead = ld, t_created = now env, t_updated = now env\<rparr>
           in if \<not> varchar_ok 255 sub \<or> \<not> (case t_title t of None \<Rightarrow> True | Some s \<Rightarrow> varchar_ok 255 s)
              then Inl DbFault
              else if thread_exists (t_id t) d then Inl (UniqueViolation ''chat_threads_pkey'')
              else if \<not> fk agent_exists ld d then Inl DbFault
              else Inr (t, d\<lparr>d_threads := d_threads d @ [t], d_ids := Suc (d_ids d)\<rparr>)))"

definition insert_thread ::
    "chat_env \<Rightarrow> thread_type \<Rightarrow> js \<Rightarrow> string \<Rightarrow> js \<Rightarrow> (chat_db, thread) eff" where
  "insert_thread env ty title sub lead = db_query (thread_insert env ty title sub lead)"

definition same_key :: "participant \<Rightarrow> participant \<Rightarrow> bool" where
  "same_key p q = (p_thread p = p_thread q \<and> p_id p = p_id q \<and> p_kind p = p_kind q)"

fun no_dup_keys :: "participant list \<Rightarrow> bool" where
  "no_dup_keys [] = True"
| "no_dup_keys (p # ps) = ((\<forall>q \<in> set ps. \<not> same_key p q) \<and> no_dup_keys ps)"

definition member_row :: "chat_env \<Rightarrow> string \<Rightarrow> party \<Rightarrow> party_role \<Rightarrow> string \<Rightarrow> participant" where
  "member_row env tid k r i =
     \<lparr>p_thread = tid, p_id = i, p_kind = k, p_role = r, p_joined = now env, p_left = None\<rparr>"

definition participants_insert :: "participant list \<Rightarrow> chat_db \<Rightarrow> exn + unit \<times> chat_db" where
  "participants_insert ps d =
     (if \<exists>p \<in> set ps. \<not> varchar_ok 255 (p_id p) \<or> \<not> thread_exists (p_thread p) d then Inl DbFault
     else if \<not> no_dup_keys (d_parts d @ ps) then Inl (UniqueViolation ''chat_participants_pkey'')
     else Inr ((), d\<lparr>d_parts := d_parts d @ ps\<rparr>))"

definition insert_participants :: "participant list \<Rightarrow> (chat_db, unit) eff" where
  "insert_participants ps = db_query (participants_insert ps)"

text \<open>The column defaults of \<open>chat_messages\<close>; the id, the number and the times are set on insert.\<close>

definition blank_msg :: msg where
  "blank_msg = \<lparr>m_id = [], m_seq = 0, m_thread = [], m_author = [], m_kind = Human, m_role = UserRole,
     m_content = [], m_status = Complete, m_reply_to = None, m_targets = None, m_model = None,
     m_in = None, m_out = None, m_dur = None, m_error = None, m_key = None, m_chain = None,
     m_hop = None, m_trig = None, m_batch = False, m_created = 0, m_updated = 0\<rparr>"

definition idempotency_clash :: "msg \<Rightarrow> chat_db \<Rightarrow> bool" where
  "idempotency_clash m d =
     (m_key m \<noteq> None \<and>
      (\<exists>x \<in> set (d_msgs d). m_thread x = m_thread m \<and> m_author x = m_author m \<and> m_key x = m_key m))"

definition key_index :: string where
  "key_index = ''idx_chat_messages_idempotency''"

definition insert_msg :: "chat_env \<Rightarrow> msg \<Rightarrow> chat_db \<Rightarrow> exn + msg \<times> chat_db" where
  "insert_msg env row d =
     (let m = row\<lparr>m_id := gen_id env (d_ids d), m_seq := Suc (d_seq d),
                  m_created := now env, m_updated := now env\<rparr>
      in if \<not> varchar_ok 255 (m_author m) \<or> \<not> text_ok (m_content m) \<or>
            \<not> (case m_key m of None \<Rightarrow> True | Some k \<Rightarrow> varchar_ok 64 k)
         then Inl DbFault
         else if msg_exists (m_id m) d then Inl (UniqueViolation ''chat_messages_pkey'')
         else if idempotency_clash m d then Inl (UniqueViolation key_index)
         else if \<not> thread_exists (m_thread m) d \<or> \<not> fk msg_exists (m_reply_to m) d \<or>
                 \<not> fk msg_exists (m_trig m) d
         then Inl DbFault
         else Inr (m, d\<lparr>d_msgs := d_msgs d @ [m], d_seq := Suc (d_seq d), d_ids := Suc (d_ids d)\<rparr>))"

definition insert_user_msg ::
    "chat_env \<Rightarrow> string \<Rightarrow> string \<Rightarrow> string \<Rightarrow> js \<Rightarrow> string list option \<Rightarrow> (chat_db, msg) eff" where
  "insert_user_msg env tid sub content key targets =
     db_query (insert_msg env (blank_msg\<lparr>m_thread := tid, m_author := sub, m_kind := Human,
        m_role := UserRole, m_content := content, m_status := Complete, m_key := or_null env key,
        m_targets := targets\<rparr>))"

text \<open>The chain of a dispatch: \<open>chain_id\<close>, \<open>chain_hop\<close>, \<open>triggered_by\<close>, or none of them.\<close>

type_synonym chain = "(string \<times> int \<times> string) option"

definition insert_placeholder ::
    "chat_env \<Rightarrow> string \<Rightarrow> string \<Rightarrow> string \<Rightarrow> chain \<Rightarrow> (chat_db, msg) eff" where
  "insert_placeholder env tid author reply ch =
     db_query (insert_msg env (blank_msg\<lparr>m_thread := tid, m_author := author, m_kind := Agent,
        m_role := Assistant, m_content := [], m_status := Pending, m_reply_to := Some reply,
        m_chain := map_option fst ch, m_hop := map_option (\<lambda>(_, h, _). h) ch,
        m_trig := map_option (\<lambda>(_, _, t). t) ch\<rparr>))"

text \<open>\<open>INSERT ... ON CONFLICT DO UPDATE SET left_at = NULL\<close>\<close>

definition participant_upsert :: "chat_env \<Rightarrow> js \<Rightarrow> js \<Rightarrow> chat_db \<Rightarrow> exn + unit \<times> chat_db" where
  "participant_upsert env tid v d =
     (case uuid_param env tid of
       Inl e \<Rightarrow> Inl e
     | Inr None \<Rightarrow> Inl DbFault
     | Inr (Some i) \<Rightarrow>
         (let p = member_row env i Agent Member (text_param env v) in
          if nullish v \<or> \<not> varchar_ok 255 (p_id p) then Inl DbFault
          else if \<exists>q \<in> set (d_parts d). same_key q p
          then Inr ((), d\<lparr>d_parts := map (\<lambda>q. if same_key q p then q\<lparr>p_left := None\<rparr> else q) (d_parts d)\<rparr>)
          else if \<not> thread_exists i d then Inl DbFault
          else Inr ((), d\<lparr>d_parts := d_parts d @ [p]\<rparr>)))"

definition upsert_participant :: "chat_env \<Rightarrow> js \<Rightarrow> js \<Rightarrow> (chat_db, unit) eff" where
  "upsert_participant env tid v = db_query (participant_upsert env tid v)"

section \<open>Updating and deleting\<close>

definition open_status :: "msg_status \<Rightarrow> bool" where
  "open_status s = (s = Pending \<or> s = Thinking)"

definition terminal_status :: "msg_status \<Rightarrow> bool" where
  "terminal_status s = (s = Complete \<or> s = Error)"

definition fail_with :: "string \<Rightarrow> msg \<Rightarrow> msg" where
  "fail_with why m = m\<lparr>m_status := Error, m_error := Some why\<rparr>"

definition mark_failed :: "string \<Rightarrow> string \<Rightarrow> (chat_db, nat) eff" where
  "mark_failed i why = bump_query (\<lambda>m. m_id m = i \<and> m_status m = Pending) (fail_with why)"

definition promote_to_group :: "chat_env \<Rightarrow> js \<Rightarrow> (chat_db, unit) eff" where
  "promote_to_group env tid = db_query (\<lambda>d.
     case uuid_param env tid of
       Inl e \<Rightarrow> Inl e
     | Inr u \<Rightarrow> Inr ((), update_threads (\<lambda>t. Some (t_id t) = u \<and> t_type t = Direct)
                           (\<lambda>t. t\<lparr>t_type := Group\<rparr>) d))"

definition fail_pending_of :: "chat_env \<Rightarrow> js \<Rightarrow> js \<Rightarrow> (chat_db, nat) eff" where
  "fail_pending_of env tid v = db_query (\<lambda>d.
     case uuid_param env tid of
       Inl e \<Rightarrow> Inl e
     | Inr u \<Rightarrow>
         Inr (bump_where (\<lambda>m. Some (m_thread m) = u \<and> \<not> nullish v \<and> m_author m = text_param env v \<and>
                m_kind m = Agent \<and> m_status m = Pending) (fail_with ''Agent removed from thread'') d))"

definition participant_leave :: "chat_env \<Rightarrow> js \<Rightarrow> js \<Rightarrow> chat_db \<Rightarrow> exn + unit \<times> chat_db" where
  "participant_leave env tid v d =
     (case uuid_param env tid of
       Inl e \<Rightarrow> Inl e
     | Inr u \<Rightarrow>
         Inr ((), d\<lparr>d_parts := map (\<lambda>p. if Some (p_thread p) = u \<and> \<not> nullish v \<and>
                  p_id p = text_param env v \<and> p_kind p = Agent
                then p\<lparr>p_left := Some (now env)\<rparr> else p) (d_parts d)\<rparr>))"

definition leave_thread :: "chat_env \<Rightarrow> js \<Rightarrow> js \<Rightarrow> (chat_db, unit) eff" where
  "leave_thread env tid v = db_query (participant_leave env tid v)"

text \<open>
  Deleting a thread cascades to its participants and messages, and a message left elsewhere
  that pointed at a deleted one has the reference set to NULL.
\<close>

definition drop_ref :: "string list \<Rightarrow> string option \<Rightarrow> string option" where
  "drop_ref gone r = (case r of None \<Rightarrow> None | Some i \<Rightarrow> if i \<in> set gone then None else Some i)"

definition thread_delete :: "chat_env \<Rightarrow> js \<Rightarrow> chat_db \<Rightarrow> exn + nat \<times> chat_db" where
  "thread_delete env tid d =
     (case uuid_param env tid of
       Inl e \<Rightarrow> Inl e
     | Inr u \<Rightarrow>
         (let gone = map m_id (filter (\<lambda>m. Some (m_thread m) = u) (d_msgs d)) in
          Inr (length (filter (\<lambda>t. Some (t_id t) = u) (d_threads d)),
               d\<lparr>d_threads := filter (\<lambda>t. Some (t_id t) \<noteq> u) (d_threads d),
                 d_parts := filter (\<lambda>p. Some (p_thread p) \<noteq> u) (d_parts d),
                 d_msgs := map (\<lambda>m. m\<lparr>m_reply_to := drop_ref gone (m_reply_to m),
                                      m_trig := drop_ref gone (m_trig m)\<rparr>)
                             (filter (\<lambda>m. Some (m_thread m) \<noteq> u) (d_msgs d))\<rparr>)))"

definition delete_thread :: "chat_env \<Rightarrow> js \<Rightarrow> (chat_db, nat) eff" where
  "delete_thread env tid = db_query (thread_delete env tid)"

definition cancel_pending :: "chat_env \<Rightarrow> js \<Rightarrow> (chat_db, nat) eff" where
  "cancel_pending env tid = db_query (\<lambda>d.
     case uuid_param env tid of
       Inl e \<Rightarrow> Inl e
     | Inr u \<Rightarrow> Inr (bump_where (\<lambda>m. Some (m_thread m) = u \<and> m_status m = Pending)
                       (fail_with ''Cancelled by user'') d))"

text \<open>\<open>UPDATE chat_threads SET updated_at = NOW()\<close> on one thread\<close>

definition touch_thread :: "chat_env \<Rightarrow> string option \<Rightarrow> chat_db \<Rightarrow> chat_db" where
  "touch_thread env u d = update_threads (\<lambda>t. Some (t_id t) = u) (\<lambda>t. t\<lparr>t_updated := now env\<rparr>) d"

text \<open>The same with the title taken from the first human message when there is none.\<close>

definition earliest :: "msg list \<Rightarrow> msg option" where
  "earliest ms = (case sort_key m_created ms of [] \<Rightarrow> None | m # _ \<Rightarrow> Some m)"

definition auto_title :: "chat_db \<Rightarrow> thread \<Rightarrow> string option" where
  "auto_title d t =
     (case t_title t of
        Some s \<Rightarrow> Some s
      | None \<Rightarrow> map_option (\<lambda>m. take 50 (m_content m))
                  (earliest (filter (\<lambda>m. m_thread m = t_id t \<and> m_kind m = Human) (d_msgs d))))"

definition touch_and_title :: "chat_env \<Rightarrow> string option \<Rightarrow> chat_db \<Rightarrow> chat_db" where
  "touch_and_title env u d =
     update_threads (\<lambda>t. Some (t_id t) = u) (\<lambda>t. t\<lparr>t_updated := now env, t_title := auto_title d t\<rparr>) d"

section \<open>The statements of the callback\<close>

text \<open>The columns a callback body sets; \<open>None\<close> when Postgres refuses one of them.\<close>

definition callback_row :: "chat_env \<Rightarrow> js \<Rightarrow> msg_status \<Rightarrow> (msg \<Rightarrow> msg) option" where
  "callback_row env body st =
     (let c = js_get body ''content''; txt = (if truthy c then text_param env c else []);
          mdl = or_null env (js_get body ''model'') in
      case (int_or_null env (js_get body ''input_tokens''), int_or_null env (js_get body ''output_tokens''),
            int_or_null env (js_get body ''duration_ms'')) of
        (Some i, Some o', Some du) \<Rightarrow>
          if \<not> text_ok txt \<or> \<not> (case mdl of None \<Rightarrow> True | Some s \<Rightarrow> varchar_ok 128 s) then None
          else Some (\<lambda>m. m\<lparr>m_content := txt, m_status := st, m_model := mdl, m_in := i, m_out := o',
                           m_dur := du, m_updated := now env\<rparr>)
      | _ \<Rightarrow> None)"

definition with_error :: "string option \<Rightarrow> msg \<Rightarrow> msg" where
  "with_error e m = m\<lparr>m_error := e\<rparr>"

definition update_open :: "chat_env \<Rightarrow> js \<Rightarrow> (msg \<Rightarrow> msg) option \<Rightarrow> (chat_db, nat) eff" where
  "update_open env mid f = db_query (\<lambda>d.
     case uuid_param env mid of
       Inl e \<Rightarrow> Inl e
     | Inr u \<Rightarrow>
         (case f of
            None \<Rightarrow> Inl DbFault
          | Some g \<Rightarrow> Inr (bump_where (\<lambda>m. Some (m_id m) = u \<and> open_status (m_status m)) g d)))"

definition thinking_update :: "chat_env \<Rightarrow> js \<Rightarrow> js \<Rightarrow> (chat_db, nat) eff" where
  "thinking_update env mid body = update_open env mid (callback_row env body Thinking)"

definition final_update :: "chat_env \<Rightarrow> js \<Rightarrow> js \<Rightarrow> msg_status \<Rightarrow> (chat_db, nat) eff" where
  "final_update env mid body st =
     (let e = or_null env (js_get body ''error_message'') in
      update_open env mid
        (if (case e of None \<Rightarrow> True | Some s \<Rightarrow> text_ok s)
         then map_option (\<lambda>f m. with_error e (f m)) (callback_row env body st) else None))"

definition get_msg :: "chat_env \<Rightarrow> js \<Rightarrow> (chat_db, msg option) eff" where
  "get_msg env mid = on_uuid env mid find_msg"

definition thread_of :: "string option \<Rightarrow> chat_db \<Rightarrow> string option" where
  "thread_of u d = map_option m_thread (find_msg u d)"

definition touch_thread_of :: "chat_env \<Rightarrow> js \<Rightarrow> (chat_db, unit) eff" where
  "touch_thread_of env mid = db_query (\<lambda>d.
     case uuid_param env mid of
       Inl e \<Rightarrow> Inl e
     | Inr u \<Rightarrow> Inr ((), touch_thread env (thread_of u d) d))"

definition title_thread_of :: "chat_env \<Rightarrow> js \<Rightarrow> (chat_db, unit) eff" where
  "title_thread_of env mid = db_query (\<lambda>d.
     case uuid_param env mid of
       Inl e \<Rightarrow> Inl e
     | Inr u \<Rightarrow> Inr ((), touch_and_title env (thread_of u d) d))"

text \<open>The reply a batch answers and the type of its thread.\<close>

definition batch_row :: "string option \<Rightarrow> chat_db \<Rightarrow> (string option \<times> thread_type) option" where
  "batch_row u d =
     (case find_msg u d of
        None \<Rightarrow> None
      | Some m \<Rightarrow> map_option (\<lambda>t. (m_reply_to m, t_type t)) (find_thread (Some (m_thread m)) d))"

definition siblings :: "string \<Rightarrow> chat_db \<Rightarrow> nat \<times> nat" where
  "siblings r d =
     (let ms = filter (\<lambda>m. m_reply_to m = Some r \<and> m_kind m = Agent) (d_msgs d)
      in (length ms, length (filter (\<lambda>m. terminal_status (m_status m)) ms)))"

definition set_batch :: "msg \<Rightarrow> msg" where
  "set_batch m = m\<lparr>m_batch := True\<rparr>"

definition mark_batch_complete :: "chat_env \<Rightarrow> js \<Rightarrow> (chat_db, nat) eff" where
  "mark_batch_complete env mid = db_query (\<lambda>d.
     case uuid_param env mid of
       Inl e \<Rightarrow> Inl e
     | Inr u \<Rightarrow> Inr (bump_where (\<lambda>m. Some (m_id m) = u) set_batch d))"

text \<open>The triggering message becomes hop 0 of its chain. This UPDATE draws no number.\<close>

definition set_chain_root :: "string \<Rightarrow> string option \<Rightarrow> chat_db \<Rightarrow> chat_db" where
  "set_chain_root cid u d =
     d\<lparr>d_msgs := map (\<lambda>m. if Some (m_id m) = u \<and> m_chain m = None
                          then m\<lparr>m_chain := Some cid, m_hop := Some 0\<rparr> else m) (d_msgs d)\<rparr>"

definition backfill_chain :: "chat_env \<Rightarrow> string \<Rightarrow> js \<Rightarrow> (chat_db, unit) eff" where
  "backfill_chain env cid mid = db_query (\<lambda>d.
     case uuid_param env mid of Inl e \<Rightarrow> Inl e | Inr u \<Rightarrow> Inr ((), set_chain_root cid u d))"

definition chain_start :: "string \<Rightarrow> chat_db \<Rightarrow> int option" where
  "chain_start cid d =
     (let ts = map m_created (filter (\<lambda>m. m_chain m = Some cid) (d_msgs d))
      in if ts = [] then None else Some (Min (set ts)))"

definition chain_authors :: "string \<Rightarrow> chat_db \<Rightarrow> string list" where
  "chain_authors cid d =
     dedupe (map m_author (filter (\<lambda>m. m_chain m = Some cid \<and> m_kind m = Agent \<and>
        (m_status m = Complete \<or> m_status m = Pending)) (d_msgs d)))"

text \<open>The active agent participants joined with their agents: slug and display name.\<close>

fun agent_infos :: "chat_env \<Rightarrow> string list \<Rightarrow> chat_db \<Rightarrow> agent list option" where
  "agent_infos env [] d = Some []"
| "agent_infos env (p # ps) d =
     (case (uuid_in env p, agent_infos env ps d) of
        (Some u, Some rest) \<Rightarrow>
          Some (case find_agent (Some u) d of None \<Rightarrow> rest | Some a \<Rightarrow> a # rest)
      | _ \<Rightarrow> None)"

definition thread_agent_infos :: "chat_env \<Rightarrow> js \<Rightarrow> (chat_db, agent list) eff" where
  "thread_agent_infos env tid = db_query (\<lambda>d.
     case uuid_param env tid of
       Inl e \<Rightarrow> Inl e
     | Inr u \<Rightarrow> (case agent_infos env (active_agents u d) d of
                   None \<Rightarrow> Inl DbFault | Some is \<Rightarrow> Inr (is, d)))"

section \<open>The stale sweep\<close>

definition stale_timeout_ms :: int where
  "stale_timeout_ms = 2 * 60 * 1000"

definition no_response_message :: string where
  "no_response_message = ''No response received within 2 minutes''"

definition sweep_row :: "chat_env \<Rightarrow> msg \<Rightarrow> msg" where
  "sweep_row env m = (fail_with no_response_message m)\<lparr>m_updated := now env\<rparr>"

definition is_stale :: "chat_env \<Rightarrow> msg \<Rightarrow> bool" where
  "is_stale env m = (open_status (m_status m) \<and> m_updated m < now env - stale_timeout_ms)"

definition sweep_stale :: "chat_env \<Rightarrow> (chat_db, nat) eff" where
  "sweep_stale env = bump_query (is_stale env) (sweep_row env)"

end
