(* ===== verification/ChatLaws.thy ===== *)
theory ChatLaws
  imports ChatDb
begin

text \<open>
  What every statement of the chat routes keeps. \<open>chat_inv\<close> is the well-formedness of the
  tables; \<open>announced d0 d\<close> says that every row of \<open>d\<close> either is a row of \<open>d0\<close> whose visible
  columns did not change or carries a number above the counter of \<open>d0\<close>; \<open>kept d0 d\<close> says that
  every row of \<open>d0\<close> is still there and only moved forward (its status never leaves a terminal
  one). Both relations are transitive under \<open>chat_inv\<close>, so they are preserved by any
  interleaving of statements, which is what the \<open>keeps\<close> lemmas state for each of them.
\<close>

section \<open>Invariant and relations\<close>

definition keys_unique :: "msg list \<Rightarrow> bool" where
  "keys_unique ms =
     (\<forall>x \<in> set ms. \<forall>y \<in> set ms. m_key x \<noteq> None \<and> m_key x = m_key y \<and> m_thread x = m_thread y \<and>
        m_author x = m_author y \<longrightarrow> m_id x = m_id y)"

definition chat_inv :: "chat_db \<Rightarrow> bool" where
  "chat_inv d =
     (distinct (map m_id (d_msgs d)) \<and> distinct (map m_seq (d_msgs d)) \<and>
      (\<forall>m \<in> set (d_msgs d). m_seq m \<le> d_seq d \<and> thread_exists (m_thread m) d) \<and>
      keys_unique (d_msgs d) \<and> distinct (map t_id (d_threads d)) \<and> no_dup_keys (d_parts d) \<and>
      (\<forall>p \<in> set (d_parts d). thread_exists (p_thread p) d))"

type_synonym visible_row =
  "string \<times> msg_status \<times> string option \<times> int option \<times> int option \<times> int option \<times> string option"

definition visible :: "msg \<Rightarrow> visible_row" where
  "visible m = (m_content m, m_status m, m_model m, m_in m, m_out m, m_dur m, m_error m)"

fun status_rank :: "msg_status \<Rightarrow> nat" where
  "status_rank Pending = 0"
| "status_rank Thinking = 1"
| "status_rank Complete = 2"
| "status_rank Error = 2"

definition frozen :: "msg \<Rightarrow> msg \<Rightarrow> bool" where
  "frozen m m' =
     (m_id m' = m_id m \<and> m_thread m' = m_thread m \<and> m_author m' = m_author m \<and>
      m_kind m' = m_kind m \<and> m_role m' = m_role m \<and> m_key m' = m_key m \<and> m_created m' = m_created m)"

definition msg_evolves :: "nat \<Rightarrow> msg \<Rightarrow> msg \<Rightarrow> bool" where
  "msg_evolves c m m' =
     (frozen m m' \<and> m_seq m \<le> m_seq m' \<and> status_rank (m_status m) \<le> status_rank (m_status m') \<and>
      (terminal_status (m_status m) \<longrightarrow> visible m' = visible m) \<and>
      (visible m' \<noteq> visible m \<longrightarrow> c < m_seq m'))"

definition announced :: "chat_db \<Rightarrow> chat_db \<Rightarrow> bool" where
  "announced d0 d =
     (d_seq d0 \<le> d_seq d \<and> d_agents d = d_agents d0 \<and>
      (\<forall>m' \<in> set (d_msgs d). (\<exists>m \<in> set (d_msgs d0). msg_evolves (d_seq d0) m m') \<or> d_seq d0 < m_seq m'))"

definition kept :: "chat_db \<Rightarrow> chat_db \<Rightarrow> bool" where
  "kept d0 d =
     ((\<forall>m \<in> set (d_msgs d0). \<exists>m' \<in> set (d_msgs d). msg_evolves (d_seq d0) m m') \<and>
      (\<forall>t \<in> set (d_threads d0). thread_exists (t_id t) d))"

lemma evolves_refl [simp]: "msg_evolves c m m"
  by (simp add: msg_evolves_def frozen_def)

lemma evolves_self [intro]:
  "m \<in> set ms \<Longrightarrow> \<exists>m' \<in> set ms. msg_evolves c m m'"
  "m \<in> set ms \<Longrightarrow> \<exists>m' \<in> set ms. msg_evolves c m' m"
  using evolves_refl by blast+

lemma evolves_trans:
  "msg_evolves c m m1 \<Longrightarrow> msg_evolves c' m1 m2 \<Longrightarrow> c \<le> c' \<Longrightarrow> msg_evolves c m m2"
  by (cases "m_status m"; cases "m_status m1")
    (fastforce simp: msg_evolves_def frozen_def terminal_status_def visible_def)+

lemma announced_refl [simp]: "announced d d"
  unfolding announced_def using evolves_refl by blast

lemma kept_refl [simp]: "kept d d"
  unfolding kept_def thread_exists_def using evolves_refl by blast

lemma announced_trans:
  assumes a: "announced d0 d1" and b: "announced d1 d2"
  shows "announced d0 d2"
proof -
  have le: "d_seq d0 \<le> d_seq d1" and le': "d_seq d1 \<le> d_seq d2"
    and ag: "d_agents d2 = d_agents d0"
    using a b by (simp_all add: announced_def)
  moreover have "(\<exists>m \<in> set (d_msgs d0). msg_evolves (d_seq d0) m m2) \<or> d_seq d0 < m_seq m2"
    if "m2 \<in> set (d_msgs d2)" for m2
  proof (cases "d_seq d1 < m_seq m2")
    case True
    then show ?thesis using le by simp
  next
    case False
    then obtain m1 where m1: "m1 \<in> set (d_msgs d1)" and e1: "msg_evolves (d_seq d1) m1 m2"
      using b \<open>m2 \<in> set (d_msgs d2)\<close> by (auto simp: announced_def)
    show ?thesis
    proof (cases "d_seq d0 < m_seq m1")
      case True
      then show ?thesis using e1 by (auto simp: msg_evolves_def)
    next
      case False
      then show ?thesis using a m1 evolves_trans [OF _ e1 le] unfolding announced_def by blast
    qed
  qed
  ultimately show ?thesis by (simp add: announced_def)
qed

lemma kept_trans:
  assumes "kept d0 d1" and "announced d0 d1" and "kept d1 d2"
  shows "kept d0 d2"
proof -
  have le: "d_seq d0 \<le> d_seq d1" using assms(2) by (simp add: announced_def)
  have "\<exists>m2 \<in> set (d_msgs d2). msg_evolves (d_seq d0) m m2" if "m \<in> set (d_msgs d0)" for m
    using assms that evolves_trans [OF _ _ le] unfolding kept_def by meson
  moreover have "thread_exists (t_id t) d2" if "t \<in> set (d_threads d0)" for t
    using assms(1,3) that unfolding kept_def thread_exists_def by metis
  ultimately show ?thesis by (simp add: kept_def)
qed

text \<open>The two state predicates the statements are shown to keep.\<close>

definition since :: "chat_db \<Rightarrow> chat_db \<Rightarrow> bool" where
  "since d0 d = (chat_inv d \<and> announced d0 d)"

definition since_kept :: "chat_db \<Rightarrow> chat_db \<Rightarrow> bool" where
  "since_kept d0 d = (chat_inv d \<and> announced d0 d \<and> kept d0 d)"

lemma since_step:
  "since d0 d \<Longrightarrow> (chat_inv d \<Longrightarrow> chat_inv d' \<and> announced d d') \<Longrightarrow> since d0 d'"
  unfolding since_def using announced_trans by blast

lemma since_kept_step:
  "since_kept d0 d \<Longrightarrow> (chat_inv d \<Longrightarrow> chat_inv d' \<and> announced d d' \<and> kept d d') \<Longrightarrow> since_kept d0 d'"
  unfolding since_kept_def using announced_trans kept_trans by blast

text \<open>
  A statement is \<open>sound\<close> when it keeps the invariant, announces what it changes and loses
  nothing. Soundness of each statement gives the preservation of both predicates.
\<close>

definition sound :: "(chat_db \<Rightarrow> exn + 'a \<times> chat_db) \<Rightarrow> bool" where
  "sound q = (\<forall>d x d'. chat_inv d \<longrightarrow> q d = Inr (x, d') \<longrightarrow> chat_inv d' \<and> announced d d' \<and> kept d d')"

lemma soundI:
  "(\<And>d x d'. chat_inv d \<Longrightarrow> q d = Inr (x, d') \<Longrightarrow> chat_inv d' \<and> announced d d' \<and> kept d d') \<Longrightarrow> sound q"
  unfolding sound_def by blast

lemma sound_keeps: "sound q \<Longrightarrow> keeps (since d0) (db_query q)"
  unfolding sound_def by (rule keeps_query) (blast intro: since_step)

lemma sound_keeps_kept: "sound q \<Longrightarrow> keeps (since_kept d0) (db_query q)"
  unfolding sound_def by (rule keeps_query) (blast intro: since_kept_step)

section \<open>Renumbering updates\<close>

definition bumped :: "(msg \<Rightarrow> bool) \<Rightarrow> (msg \<Rightarrow> msg) \<Rightarrow> nat \<Rightarrow> nat \<Rightarrow> msg \<Rightarrow> msg \<Rightarrow> bool" where
  "bumped P f c c' m m' =
     (if P m then (\<exists>n. c < n \<and> n \<le> c' \<and> m' = (f m)\<lparr>m_seq := n\<rparr>) else m' = m)"

lemma bumped_mono: "bumped P f c1 c2 m m' \<Longrightarrow> c0 \<le> c1 \<Longrightarrow> c2 \<le> c3 \<Longrightarrow> bumped P f c0 c3 m m'"
  by (simp add: bumped_def split: if_splits) (metis le_less_trans le_trans)

lemma bump_rows_all2:
  "bump_rows P f c ms = (ms', c') \<Longrightarrow> c \<le> c' \<and> list_all2 (bumped P f c c') ms ms'"
proof (induction ms arbitrary: c ms')
  case Nil
  then show ?case by simp
next
  case (Cons m ms)
  show ?case
  proof (cases "P m")
    case True
    then obtain ns where r: "bump_rows P f (Suc c) ms = (ns, c')"
      and ms': "ms' = (f m)\<lparr>m_seq := Suc c\<rparr> # ns"
      using Cons.prems by (auto split: prod.splits)
    have "Suc c \<le> c'" and "list_all2 (bumped P f (Suc c) c') ms ns"
      using Cons.IH [OF r] by auto
    then show ?thesis using True ms'
      by (auto simp: bumped_def [of P f c c' m] elim!: list_all2_mono intro: bumped_mono)
  next
    case False
    then obtain ns where r: "bump_rows P f c ms = (ns, c')" and ms': "ms' = m # ns"
      using Cons.prems by (auto split: prod.splits)
    then show ?thesis using Cons.IH [OF r] False by (auto simp: bumped_def)
  qed
qed

lemma bump_rows_distinct_seq:
  "bump_rows P f c ms = (ms', c') \<Longrightarrow> distinct (map m_seq ms) \<Longrightarrow> \<forall>m \<in> set ms. m_seq m \<le> c0 \<Longrightarrow>
   c0 \<le> c \<Longrightarrow> distinct (map m_seq ms') \<and> (\<forall>m' \<in> set ms'. m_seq m' \<in> m_seq ` set ms \<or> c < m_seq m')"
proof (induction ms arbitrary: c ms')
  case Nil
  then show ?case by simp
next
  case (Cons m ms)
  show ?case
  proof (cases "P m")
    case True
    then obtain ns where r: "bump_rows P f (Suc c) ms = (ns, c')"
      and ms': "ms' = (f m)\<lparr>m_seq := Suc c\<rparr> # ns"
      using Cons.prems by (auto split: prod.splits)
    have d: "distinct (map m_seq ns)"
      and s: "\<forall>m' \<in> set ns. m_seq m' \<in> m_seq ` set ms \<or> Suc c < m_seq m'"
      using Cons.IH [OF r] Cons.prems by auto
    have "m_seq x \<le> c" if "x \<in> set ms" for x
      using that Cons.prems(3,4) by (meson le_trans list.set_intros(2))
    then have "m_seq m' \<noteq> Suc c" if "m' \<in> set ns" for m'
      using s that by fastforce
    then show ?thesis using d s ms' by (auto intro: Suc_lessD)
  next
    case False
    then obtain ns where r: "bump_rows P f c ms = (ns, c')" and ms': "ms' = m # ns"
      using Cons.prems by (auto split: prod.splits)
    have d: "distinct (map m_seq ns)"
      and s: "\<forall>m' \<in> set ns. m_seq m' \<in> m_seq ` set ms \<or> c < m_seq m'"
      using Cons.IH [OF r] Cons.prems by auto
    have le: "m_seq m \<le> c" using Cons.prems by auto
    have new: "m_seq m \<notin> m_seq ` set ms" using Cons.prems(2) by simp
    have "m_seq m' \<noteq> m_seq m" if "m' \<in> set ns" for m'
      using s that new le by (metis leD)
    then have "m_seq m \<notin> set (map m_seq ns)" by force
    then show ?thesis using d s ms' by auto
  qed
qed

text \<open>What an update may do to the rows it matches.\<close>

definition update_ok :: "(msg \<Rightarrow> bool) \<Rightarrow> (msg \<Rightarrow> msg) \<Rightarrow> bool" where
  "update_ok P f =
     (\<forall>m. P m \<longrightarrow> frozen m (f m) \<and> status_rank (m_status m) \<le> status_rank (m_status (f m)) \<and>
        (terminal_status (m_status m) \<longrightarrow> visible (f m) = visible m))"

lemma bumped_evolves:
  assumes "update_ok P f" and "bumped P f c c' m m'" and "m_seq m \<le> c"
  shows "msg_evolves c m m'"
  using assms unfolding update_ok_def bumped_def
  by (auto simp: msg_evolves_def frozen_def visible_def split: if_splits)

lemma frozen_map:
  "list_all2 frozen ms ms' \<Longrightarrow> map m_id ms' = map m_id ms \<and> map m_thread ms' = map m_thread ms"
  by (induction rule: list_all2_induct) (auto simp: frozen_def)

lemma list_all2_set1: "list_all2 R xs ys \<Longrightarrow> x \<in> set xs \<Longrightarrow> \<exists>y \<in> set ys. R x y"
  by (induction rule: list_all2_induct) auto

lemma list_all2_set2: "list_all2 R xs ys \<Longrightarrow> y \<in> set ys \<Longrightarrow> \<exists>x \<in> set xs. R x y"
  by (induction rule: list_all2_induct) auto

lemma frozen_keys_unique:
  assumes r: "list_all2 frozen ms ms'" and u: "keys_unique ms"
  shows "keys_unique ms'"
  unfolding keys_unique_def
proof (intro ballI impI)
  fix x' y' assume x': "x' \<in> set ms'" and y': "y' \<in> set ms'"
    and k: "m_key x' \<noteq> None \<and> m_key x' = m_key y' \<and> m_thread x' = m_thread y' \<and> m_author x' = m_author y'"
  obtain x y where x: "x \<in> set ms" "frozen x x'" and y: "y \<in> set ms" "frozen y y'"
    using list_all2_set2 [OF r x'] list_all2_set2 [OF r y'] by blast
  have "m_key x \<noteq> None \<and> m_key x = m_key y \<and> m_thread x = m_thread y \<and> m_author x = m_author y"
    using k x(2) y(2) unfolding frozen_def by metis
  then have "m_id x = m_id y" using u x(1) y(1) unfolding keys_unique_def by blast
  then show "m_id x' = m_id y'" using x(2) y(2) by (simp add: frozen_def)
qed

lemma bump_where_rows:
  "bump_where P f d = (n, d') \<Longrightarrow>
     list_all2 (bumped P f (d_seq d) (d_seq d')) (d_msgs d) (d_msgs d') \<and> d_seq d \<le> d_seq d' \<and>
     d_threads d' = d_threads d \<and> d_parts d' = d_parts d \<and> d_agents d' = d_agents d \<and>
     d_outbox d' = d_outbox d"
  by (auto simp: bump_where_def dest: bump_rows_all2 split: prod.splits)

lemma bumped_all_evolve:
  assumes ok: "update_ok P f" and b: "list_all2 (bumped P f c c') ms ms'"
    and le: "\<forall>m \<in> set ms. m_seq m \<le> c"
  shows "list_all2 (msg_evolves c) ms ms'"
  using b le by (induction rule: list_all2_induct) (auto intro: bumped_evolves [OF ok])

lemma bump_where_sound:
  assumes ok: "update_ok P f" and inv: "chat_inv d" and b: "bump_where P f d = (n, d')"
  shows "chat_inv d' \<and> announced d d' \<and> kept d d'"
proof -
  note rows = bump_where_rows [OF b]
  have le: "\<forall>m \<in> set (d_msgs d). m_seq m \<le> d_seq d" using inv by (simp add: chat_inv_def)
  have ev: "list_all2 (msg_evolves (d_seq d)) (d_msgs d) (d_msgs d')"
    using bumped_all_evolve [OF ok _ le] rows by blast
  then have fr: "list_all2 frozen (d_msgs d) (d_msgs d')"
    by (rule list_all2_mono) (simp add: msg_evolves_def)
  obtain ms' where ms': "bump_rows P f (d_seq d) (d_msgs d) = (ms', d_seq d')" "d_msgs d' = ms'"
    using b by (auto simp: bump_where_def split: prod.splits)
  have dist: "distinct (map m_seq (d_msgs d'))"
    using bump_rows_distinct_seq [OF ms'(1) _ le order.refl] inv ms'(2) by (simp add: chat_inv_def)
  have th: "thread_exists i d' = thread_exists i d" for i using rows by (simp add: thread_exists_def)
  have up: "m_seq m' \<le> d_seq d' \<and> thread_exists (m_thread m') d'" if m': "m' \<in> set (d_msgs d')" for m'
  proof -
    obtain m where m: "m \<in> set (d_msgs d)" and bm: "bumped P f (d_seq d) (d_seq d') m m'"
      using rows list_all2_set2 [OF _ m'] by blast
    have "m_thread m' = m_thread m" using bm ok
      by (auto simp: bumped_def update_ok_def frozen_def split: if_splits)
    moreover have "m_seq m' \<le> d_seq d'" using bm le m rows
      by (auto simp: bumped_def split: if_splits)
    ultimately show ?thesis using inv m th by (simp add: chat_inv_def)
  qed
  have "chat_inv d'" unfolding chat_inv_def
    using dist up frozen_map [OF fr] frozen_keys_unique [OF fr] inv rows th
    by (simp add: chat_inv_def)
  moreover have "announced d d'" unfolding announced_def
    using rows list_all2_set2 [OF ev] by blast
  moreover have "kept d d'" unfolding kept_def
    using rows list_all2_set1 [OF ev] th by (auto simp: thread_exists_def)
  ultimately show ?thesis by blast
qed

lemma sound_bump: "update_ok P f \<Longrightarrow> sound (\<lambda>d. Inr (bump_where P f d))"
  by (rule soundI) (auto dest: bump_where_sound)

lemma sound_bump_uuid:
  "(\<And>u. update_ok (P u) f) \<Longrightarrow>
     sound (\<lambda>d. case uuid_param env v of Inl e \<Rightarrow> Inl e | Inr u \<Rightarrow> Inr (bump_where (P u) f d))"
  by (rule soundI) (auto split: sum.splits dest: bump_where_sound)

lemma update_ok_fail: "(\<And>m. P m \<Longrightarrow> m_status m = Pending) \<Longrightarrow> update_ok P (fail_with why)"
  by (auto simp: update_ok_def fail_with_def frozen_def terminal_status_def)

section \<open>Statements that leave the messages alone\<close>

lemma sound_untouched:
  assumes "\<And>d x d'. chat_inv d \<Longrightarrow> q d = Inr (x, d') \<Longrightarrow>
      d_msgs d' = d_msgs d \<and> d_seq d' = d_seq d \<and> d_agents d' = d_agents d \<and>
      (\<forall>i. thread_exists i d \<longrightarrow> thread_exists i d') \<and> distinct (map t_id (d_threads d')) \<and>
      no_dup_keys (d_parts d') \<and> (\<forall>p \<in> set (d_parts d'). thread_exists (p_thread p) d')"
  shows "sound q"
proof (rule soundI)
  fix d x d' assume inv: "chat_inv d" and q: "q d = Inr (x, d')"
  note f = assms [OF inv q]
  have "chat_inv d'" using f inv by (simp add: chat_inv_def)
  moreover have "announced d d'" using f by (auto simp: announced_def intro: evolves_refl)
  moreover have "kept d d'" using f by (auto simp: kept_def thread_exists_def intro: evolves_refl)
  ultimately show "chat_inv d' \<and> announced d d' \<and> kept d d'" by blast
qed

lemma sound_on_uuid: "sound (\<lambda>d. case uuid_param env v of Inl e \<Rightarrow> Inl e | Inr u \<Rightarrow> Inr (f u d, d))"
  by (rule sound_untouched) (auto simp: chat_inv_def split: sum.splits)

lemma update_threads_facts:
  assumes "\<And>t. t_id (f t) = t_id t"
  shows "d_msgs (update_threads P f d) = d_msgs d \<and> d_seq (update_threads P f d) = d_seq d \<and>
    d_agents (update_threads P f d) = d_agents d \<and> d_parts (update_threads P f d) = d_parts d \<and>
    d_outbox (update_threads P f d) = d_outbox d \<and>
    map t_id (d_threads (update_threads P f d)) = map t_id (d_threads d) \<and>
    thread_exists i (update_threads P f d) = thread_exists i d"
  using assms by (auto simp: update_threads_def thread_exists_def image_iff)

lemma update_threads_sound:
  assumes "\<And>t. t_id (f t) = t_id t" and inv: "chat_inv d"
  shows "chat_inv (update_threads P f d) \<and> announced d (update_threads P f d) \<and>
    kept d (update_threads P f d)"
proof -
  have "sound (\<lambda>d. Inr ((), update_threads P f d))"
    using assms(1) by (intro sound_untouched) (auto simp: update_threads_facts chat_inv_def)
  then show ?thesis using inv unfolding sound_def by blast
qed

lemma no_dup_append:
  "no_dup_keys (ps @ [p]) \<longleftrightarrow> no_dup_keys ps \<and> (\<forall>q \<in> set ps. \<not> same_key q p)"
  by (induction ps) auto

lemma no_dup_map:
  "(\<And>p. same_key p (f p)) \<Longrightarrow> no_dup_keys (map f ps) = no_dup_keys ps"
proof (induction ps)
  case Nil
  then show ?case by simp
next
  case (Cons p ps)
  have "same_key (f p) (f q) = same_key p q" for q
    using Cons.prems [of p] Cons.prems [of q] by (auto simp: same_key_def)
  then show ?case using Cons by simp
qed

lemma no_dup_filter: "no_dup_keys ps \<Longrightarrow> no_dup_keys (filter P ps)"
  by (induction ps) auto

section \<open>Each statement\<close>

lemma insert_msg_facts:
  "insert_msg env row d = Inr (m, d') \<Longrightarrow>
     m = row\<lparr>m_id := gen_id env (d_ids d), m_seq := Suc (d_seq d), m_created := now env, m_updated := now env\<rparr> \<and>
     d' = d\<lparr>d_msgs := d_msgs d @ [m], d_seq := Suc (d_seq d), d_ids := Suc (d_ids d)\<rparr> \<and>
     \<not> msg_exists (m_id m) d"
  unfolding insert_msg_def Let_def guard_Inr by auto

lemma keys_unique_snoc:
  assumes u: "keys_unique (d_msgs d)" and c: "\<not> idempotency_clash x d"
  shows "keys_unique (d_msgs d @ [x])"
  unfolding keys_unique_def
proof (intro ballI impI)
  fix y z assume y: "y \<in> set (d_msgs d @ [x])" and z: "z \<in> set (d_msgs d @ [x])"
    and k: "m_key y \<noteq> None \<and> m_key y = m_key z \<and> m_thread y = m_thread z \<and> m_author y = m_author z"
  have "y \<in> set (d_msgs d) \<and> z \<in> set (d_msgs d) \<or> y = x \<and> z = x"
    using y z k c unfolding idempotency_clash_def by (metis UnE empty_iff insert_iff list.set(1,2) set_append)
  then show "m_id y = m_id z" using u k unfolding keys_unique_def by blast
qed

lemma sound_insert_msg: "sound (insert_msg env row)"
proof (rule soundI)
  fix d m d' assume inv: "chat_inv d" and q: "insert_msg env row d = Inr (m, d')"
  define x where "x = row\<lparr>m_id := gen_id env (d_ids d), m_seq := Suc (d_seq d),
                          m_created := now env, m_updated := now env\<rparr>"
  have d': "d' = d\<lparr>d_msgs := d_msgs d @ [x], d_seq := Suc (d_seq d), d_ids := Suc (d_ids d)\<rparr>"
    and new: "\<not> msg_exists (m_id x) d" and clash: "\<not> idempotency_clash x d"
    and th: "thread_exists (m_thread x) d"
    using q unfolding insert_msg_def Let_def x_def [symmetric] guard_Inr by auto
  have ku: "keys_unique (d_msgs d @ [x])"
    using inv clash by (intro keys_unique_snoc) (auto simp: chat_inv_def)
  have seqx: "m_seq x = Suc (d_seq d)" by (simp add: x_def)
  have below: "m_seq m \<le> d_seq d" if "m \<in> set (d_msgs d)" for m using inv that by (simp add: chat_inv_def)
  have "m_seq x \<notin> m_seq ` set (d_msgs d)" using below seqx by fastforce
  moreover have "m_id x \<notin> m_id ` set (d_msgs d)" using new by (auto simp: msg_exists_def)
  ultimately have "chat_inv d'"
    using inv th ku seqx below by (auto simp: chat_inv_def d' thread_exists_def le_Suc_eq)
  moreover have "announced d d'" unfolding announced_def d' using seqx by auto
  moreover have "kept d d'" unfolding kept_def d' using evolves_refl by (auto simp: thread_exists_def)
  ultimately show "chat_inv d' \<and> announced d d' \<and> kept d d'" by blast
qed

lemma thread_insert_row:
  assumes "thread_insert env ty title sub lead d = Inr (t, d')"
  shows "d' = d\<lparr>d_threads := d_threads d @ [t], d_ids := Suc (d_ids d)\<rparr> \<and> \<not> thread_exists (t_id t) d \<and>
    t_type t = ty \<and> t_created_by t = sub \<and> t_id t = gen_id env (d_ids d)"
  using assms unfolding thread_insert_def Let_def guard_Inr case_sum_Inr by auto

lemma sound_insert_thread: "sound (thread_insert env ty title sub lead)"
proof (rule sound_untouched)
  fix d t d' assume inv: "chat_inv d" and q: "thread_insert env ty title sub lead d = Inr (t, d')"
  show "d_msgs d' = d_msgs d \<and> d_seq d' = d_seq d \<and> d_agents d' = d_agents d \<and>
      (\<forall>i. thread_exists i d \<longrightarrow> thread_exists i d') \<and> distinct (map t_id (d_threads d')) \<and>
      no_dup_keys (d_parts d') \<and> (\<forall>p \<in> set (d_parts d'). thread_exists (p_thread p) d')"
    using thread_insert_row [OF q] inv by (auto simp: chat_inv_def thread_exists_def)
qed

lemma participants_insert_rows:
  assumes "participants_insert ps d = Inr (x, d')"
  shows "d' = d\<lparr>d_parts := d_parts d @ ps\<rparr> \<and> no_dup_keys (d_parts d @ ps) \<and>
    (\<forall>p \<in> set ps. thread_exists (p_thread p) d)"
  using assms unfolding participants_insert_def guard_Inr by auto

lemma sound_insert_participants: "sound (participants_insert ps)"
proof (rule sound_untouched)
  fix d x d' assume inv: "chat_inv d" and q: "participants_insert ps d = Inr (x, d')"
  show "d_msgs d' = d_msgs d \<and> d_seq d' = d_seq d \<and> d_agents d' = d_agents d \<and>
      (\<forall>i. thread_exists i d \<longrightarrow> thread_exists i d') \<and> distinct (map t_id (d_threads d')) \<and>
      no_dup_keys (d_parts d') \<and> (\<forall>p \<in> set (d_parts d'). thread_exists (p_thread p) d')"
    using participants_insert_rows [OF q] inv by (auto simp: chat_inv_def thread_exists_def)
qed

lemma participant_upsert_rows:
  assumes "participant_upsert env tid v d = Inr (x, d')"
  obtains p where "d' = d\<lparr>d_parts := map (\<lambda>q. if same_key q p then q\<lparr>p_left := None\<rparr> else q) (d_parts d)\<rparr>"
    and "p_kind p = Agent"
  | p where "d' = d\<lparr>d_parts := d_parts d @ [p]\<rparr>" "\<forall>q \<in> set (d_parts d). \<not> same_key q p"
    "thread_exists (p_thread p) d" "p_kind p = Agent" "p_left p = None" "p_id p = text_param env v"
proof -
  obtain u where "uuid_param env tid = Inr u" using assms
    by (cases "uuid_param env tid") (auto simp: participant_upsert_def)
  then obtain i where i: "uuid_param env tid = Inr (Some i)" using assms
    by (cases u) (auto simp: participant_upsert_def)
  define p where "p = member_row env i Agent Member (text_param env v)"
  have p: "p_thread p = i" "p_kind p = Agent" "p_left p = None" "p_id p = text_param env v"
    by (simp_all add: p_def member_row_def)
  have body: "(if nullish v \<or> \<not> varchar_ok 255 (p_id p) then Inl DbFault
      else if \<exists>q \<in> set (d_parts d). same_key q p
      then Inr ((), d\<lparr>d_parts := map (\<lambda>q. if same_key q p then q\<lparr>p_left := None\<rparr> else q) (d_parts d)\<rparr>)
      else if \<not> thread_exists i d then Inl DbFault
      else Inr ((), d\<lparr>d_parts := d_parts d @ [p]\<rparr>)) = Inr (x, d')"
    using assms i by (simp only: participant_upsert_def sum.case option.case Let_def p_def)
  show ?thesis
  proof (cases "\<exists>q \<in> set (d_parts d). same_key q p")
    case True
    then show ?thesis using body that(1) [of p] p unfolding guard_Inr by auto
  next
    case False
    then show ?thesis using body that(2) [of p] p by (auto split: if_splits)
  qed
qed

lemma no_dup_map_parts:
  "(\<And>p. same_key p (f p)) \<Longrightarrow> no_dup_keys ps \<Longrightarrow> no_dup_keys (map f ps)"
  by (simp add: no_dup_map)

lemma sound_upsert_participant: "sound (participant_upsert env tid v)"
proof (rule sound_untouched)
  fix d x d' assume inv: "chat_inv d" and q: "participant_upsert env tid v d = Inr (x, d')"
  from q show "d_msgs d' = d_msgs d \<and> d_seq d' = d_seq d \<and> d_agents d' = d_agents d \<and>
      (\<forall>i. thread_exists i d \<longrightarrow> thread_exists i d') \<and> distinct (map t_id (d_threads d')) \<and>
      no_dup_keys (d_parts d') \<and> (\<forall>p \<in> set (d_parts d'). thread_exists (p_thread p) d')"
  proof (cases rule: participant_upsert_rows)
    case (1 p)
    have "no_dup_keys (d_parts d')" unfolding 1 using inv
      by (auto simp: chat_inv_def intro!: no_dup_map_parts) (simp_all add: same_key_def)
    then show ?thesis using inv by (auto simp: 1 chat_inv_def thread_exists_def)
  next
    case (2 p)
    then show ?thesis using inv by (auto simp: no_dup_append chat_inv_def thread_exists_def)
  qed
qed

lemma participant_leave_rows:
  assumes "participant_leave env tid v d = Inr (x, d')"
  obtains P where "d' = d\<lparr>d_parts := map (\<lambda>p. if P p then p\<lparr>p_left := Some (now env)\<rparr> else p) (d_parts d)\<rparr>"
  using assms unfolding participant_leave_def case_sum_Inr by auto

lemma sound_leave: "sound (participant_leave env tid v)"
proof (rule sound_untouched)
  fix d x d' assume inv: "chat_inv d" and q: "participant_leave env tid v d = Inr (x, d')"
  from q show "d_msgs d' = d_msgs d \<and> d_seq d' = d_seq d \<and> d_agents d' = d_agents d \<and>
      (\<forall>i. thread_exists i d \<longrightarrow> thread_exists i d') \<and> distinct (map t_id (d_threads d')) \<and>
      no_dup_keys (d_parts d') \<and> (\<forall>p \<in> set (d_parts d'). thread_exists (p_thread p) d')"
  proof (cases rule: participant_leave_rows)
    case (1 P)
    have "no_dup_keys (d_parts d')" unfolding 1 using inv
      by (auto simp: chat_inv_def intro!: no_dup_map_parts) (simp_all add: same_key_def)
    then show ?thesis using inv by (auto simp: 1 chat_inv_def thread_exists_def)
  qed
qed

text \<open>A deletion keeps the invariant and announces what it changes (nothing visible).\<close>

lemma thread_delete_since:
  assumes inv: "chat_inv d" and q: "thread_delete env tid d = Inr (n, d')"
  shows "chat_inv d' \<and> announced d d'"
proof -
  obtain u where d': "d' = d\<lparr>d_threads := filter (\<lambda>t. Some (t_id t) \<noteq> u) (d_threads d),
      d_parts := filter (\<lambda>p. Some (p_thread p) \<noteq> u) (d_parts d),
      d_msgs := map (\<lambda>m. m\<lparr>m_reply_to := drop_ref (map m_id (filter (\<lambda>m. Some (m_thread m) = u) (d_msgs d))) (m_reply_to m),
                           m_trig := drop_ref (map m_id (filter (\<lambda>m. Some (m_thread m) = u) (d_msgs d))) (m_trig m)\<rparr>)
                  (filter (\<lambda>m. Some (m_thread m) \<noteq> u) (d_msgs d))\<rparr>"
    using q unfolding thread_delete_def case_sum_Inr Let_def by auto
  define F :: "msg \<Rightarrow> msg" where "F = (\<lambda>m. m\<lparr>m_reply_to := drop_ref (map m_id (filter (\<lambda>m. Some (m_thread m) = u) (d_msgs d))) (m_reply_to m),
                           m_trig := drop_ref (map m_id (filter (\<lambda>m. Some (m_thread m) = u) (d_msgs d))) (m_trig m)\<rparr>)"
  define ms where "ms = filter (\<lambda>m. Some (m_thread m) \<noteq> u) (d_msgs d)"
  have msgs: "d_msgs d' = map F ms" and seq: "d_seq d' = d_seq d" and ag: "d_agents d' = d_agents d"
    and parts: "d_parts d' = filter (\<lambda>p. Some (p_thread p) \<noteq> u) (d_parts d)"
    and thr: "d_threads d' = filter (\<lambda>t. Some (t_id t) \<noteq> u) (d_threads d)"
    by (simp_all add: d' F_def ms_def)
  have fr: "frozen m (F m)" "m_seq (F m) = m_seq m" "visible (F m) = visible m" for m
    by (simp_all add: F_def frozen_def visible_def)
  have th: "thread_exists i d' = (thread_exists i d \<and> Some i \<noteq> u)" for i
    by (auto simp: thread_exists_def thr)
  have id: "map m_id (map F ms) = map m_id ms" "map m_seq (map F ms) = map m_seq ms"
    using fr by (simp_all add: frozen_def)
  have "keys_unique ms" using inv by (auto simp: chat_inv_def keys_unique_def ms_def)
  then have ku: "keys_unique (map F ms)"
    by (rule frozen_keys_unique [rotated]) (simp add: list.rel_map fr list.rel_refl)
  have d1: "distinct (map m_id ms)" and d2: "distinct (map m_seq ms)"
    using inv by (simp_all add: chat_inv_def ms_def distinct_map_filter)
  have bd: "\<forall>m \<in> set ms. m_seq m \<le> d_seq d \<and> thread_exists (m_thread m) d \<and> Some (m_thread m) \<noteq> u"
    using inv by (auto simp: chat_inv_def ms_def)
  have "chat_inv d'" unfolding chat_inv_def msgs id seq using ku d1 d2 bd inv th
    by (auto simp: chat_inv_def parts thr fr distinct_map_filter no_dup_filter
        fr(1) [unfolded frozen_def])
  moreover have "announced d d'" unfolding announced_def msgs seq ag
    using fr by (auto simp: ms_def msg_evolves_def frozen_def visible_def intro!: bexI)
  ultimately show ?thesis by blast
qed

end
