(* ===== verification/ChatDispatch.thy ===== *)
theory ChatDispatch
  imports ChatLaws
begin

text \<open>
  The helpers of \<open>routes/chat.ts\<close> between the statements and the handlers: \<open>@\<close>-mentions, the
  sanitizer of dispatch failures, \<open>dispatchChatWork\<close> (\<open>services/chat-dispatch.ts\<close>) and
  \<open>dispatchToAgents\<close>; and the interface \<open>statement_closed\<close>: a predicate that every statement
  keeps is kept by every handler.
\<close>

section \<open>Mentions\<close>

definition slug_start :: "char \<Rightarrow> bool" where
  "slug_start c = (is_digit c \<or> (let n = of_char c :: int in 97 \<le> n \<and> n \<le> 122))"

definition slug_char :: "char \<Rightarrow> bool" where
  "slug_char c = (slug_start c \<or> c = CHR ''-'')"

text \<open>\<open>@([a-z0-9][a-z0-9-]*)\<close> at the head of a string: the slug and what follows it.\<close>

definition at_slug :: "string \<Rightarrow> (string \<times> string) option" where
  "at_slug s =
     (case s of
        a # c # r \<Rightarrow>
          if a = CHR ''@'' \<and> slug_start c then Some (c # takeWhile slug_char r, dropWhile slug_char r)
          else None
      | _ \<Rightarrow> None)"

text \<open>\<open>(?:^|\s)@...\<close> at the head of a string; \<open>b\<close> says that it is the head of the input.\<close>

definition mention_at :: "bool \<Rightarrow> string \<Rightarrow> (string \<times> string) option" where
  "mention_at b s =
     (case (if b then at_slug s else None) of
        Some r \<Rightarrow> Some r
      | None \<Rightarrow> (case s of [] \<Rightarrow> None | c # cs \<Rightarrow> if js_space c then at_slug cs else None))"

lemma at_slug_shorter: "at_slug s = Some (w, r) \<Longrightarrow> length r < length s"
  by (auto simp: at_slug_def split: list.splits if_splits)
    (meson le_imp_less_Suc length_dropWhile_le less_Suc_eq)

lemma mention_at_shorter: "mention_at b s = Some (w, r) \<Longrightarrow> length r < length s"
  by (auto simp: mention_at_def split: list.splits if_splits option.splits dest: at_slug_shorter)

text \<open>All matches in order, and the input without them.\<close>

function scan_mentions :: "bool \<Rightarrow> string \<Rightarrow> string list \<times> string" where
  "scan_mentions b s =
     (case mention_at b s of
        Some (w, r) \<Rightarrow> (let (ws, rest) = scan_mentions False r in (w # ws, rest))
      | None \<Rightarrow> (case s of
                   [] \<Rightarrow> ([], [])
                 | c # cs \<Rightarrow> (let (ws, rest) = scan_mentions False cs in (ws, c # rest))))"
  by pat_completeness auto
termination
  by (relation "measure (length o snd)") (auto dest: mention_at_shorter)

declare scan_mentions.simps [simp del]

definition parse_mentions :: "string \<Rightarrow> string list \<times> string" where
  "parse_mentions content =
     (let (slugs, stripped) = scan_mentions True content;
          clean = js_trim stripped
      in (dedupe slugs, if clean = [] then js_trim content else clean))"

section \<open>The sanitizer\<close>

definition dispatch_reason_max_len :: nat where
  "dispatch_reason_max_len = 500"

definition redacted :: string where
  "redacted = ''[REDACTED]''"

text \<open>\<open>s.split(t).join(by)\<close> for a non-empty \<open>t\<close>\<close>

function replace_all :: "string \<Rightarrow> string \<Rightarrow> string \<Rightarrow> string" where
  "replace_all t by s =
     (case s of
        [] \<Rightarrow> []
      | c # cs \<Rightarrow>
          if t \<noteq> [] \<and> take (length t) s = t then by @ replace_all t by (drop (length t) s)
          else c # replace_all t by cs)"
  by pat_completeness auto
termination
  by (relation "measure (\<lambda>(t, by, s). length s)") auto

declare replace_all.simps [simp del]

text \<open>
  \<open>/Bearer\s+\S+/gi\<close> at the head of a string: what follows the match. The white space is
  taken greedily and never given back, since it is followed by what is not white space.
\<close>

definition bearer_at :: "string \<Rightarrow> string option" where
  "bearer_at s =
     (let r = drop 6 s; ws = takeWhile js_space r; v = dropWhile js_space r
      in if to_lower (take 6 s) = ''bearer'' \<and> ws \<noteq> [] \<and> v \<noteq> []
         then Some (dropWhile (\<lambda>c. \<not> js_space c) v) else None)"

lemma bearer_at_shorter: "bearer_at s = Some r \<Longrightarrow> length r < length s"
proof -
  assume b: "bearer_at s = Some r"
  then have r: "r = dropWhile (\<lambda>c. \<not> js_space c) (dropWhile js_space (drop 6 s))"
    and ne: "drop 6 s \<noteq> []"
    by (auto simp: bearer_at_def Let_def split: if_splits)
  have "length r \<le> length (drop 6 s)" unfolding r by (meson length_dropWhile_le order_trans)
  then show ?thesis using ne by (cases "length s \<le> 6") auto
qed

function redact_bearer :: "string \<Rightarrow> string" where
  "redact_bearer s =
     (case bearer_at s of
        Some r \<Rightarrow> ''Bearer [REDACTED]'' @ redact_bearer r
      | None \<Rightarrow> (case s of [] \<Rightarrow> [] | c # cs \<Rightarrow> c # redact_bearer cs))"
  by pat_completeness auto
termination
  by (relation "measure length") (auto dest: bearer_at_shorter)

declare redact_bearer.simps [simp del]

text \<open>The ellipsis is written as the three bytes of its UTF-8 form.\<close>

definition ellipsis :: string where
  "ellipsis = [CHR 0xE2, CHR 0x80, CHR 0xA6]"

definition sanitize_dispatch_reason :: "string \<Rightarrow> string option list \<Rightarrow> string" where
  "sanitize_dispatch_reason reason secrets =
     (let s1 = foldl (\<lambda>s sec. case sec of None \<Rightarrow> s | Some t \<Rightarrow> if t = [] then s else replace_all t redacted s)
                 reason secrets;
          s2 = redact_bearer s1
      in if length s2 > dispatch_reason_max_len then take dispatch_reason_max_len s2 @ ellipsis else s2)"

section \<open>Dispatching\<close>

definition callback_url :: string where
  "callback_url = ''http://api:3000/internal/chat/callback''"

text \<open>
  \<open>dispatchChatWork\<close>: the request it posts, and how it reads the answer. \<open>None\<close> is the promise
  rejecting, with \<open>String(err)\<close> as the reason.
\<close>

definition dispatch_chat_work ::
    "agent \<Rightarrow> string \<Rightarrow> string \<Rightarrow> (msg_role \<times> string) list \<Rightarrow> string \<Rightarrow> thread_type option \<Rightarrow>
     (string \<times> string) list \<Rightarrow> bool \<Rightarrow> (string \<times> string) list \<Rightarrow> dispatch_req" where
  "dispatch_chat_work a tid mid history model ty participants lead collaborators =
     \<lparr>rq_url = ''http://agentbox-'' @ a_slug a @ '':8054/work'',
      rq_token = (case a_work_token a of None \<Rightarrow> [] | Some t \<Rightarrow> t),
      rq_thread = tid, rq_message = mid, rq_history = history, rq_model = model,
      rq_callback = callback_url, rq_type = ty, rq_participants = participants, rq_lead = lead,
      rq_collaborators = collaborators, rq_agent = a_id a\<rparr>"

definition show_nat :: "nat \<Rightarrow> string" where
  "show_nat n = (let d = (\<lambda>k. char_of (48 + k mod 10)) in
     if n < 10 then [d n] else if n < 100 then [d (n div 10), d n]
     else [d (n div 100), d (n div 10), d n])"

definition dispatch_outcome :: "http_result \<Rightarrow> string option" where
  "dispatch_outcome r =
     (case r of
        NetError e \<Rightarrow> Some e
      | HttpError code txt \<Rightarrow> Some (''Agentbox returned '' @ show_nat code @ '': '' @ txt)
      | HttpOk accepted \<Rightarrow> if accepted then None else Some ''not accepted'')"

text \<open>\<open>do_thread\<close> is the thread's id, \<open>do_thread_text\<close> the text of it the request carried.\<close>

record dispatch_opts =
  do_thread :: string
  do_thread_text :: string
  do_agents :: "agent list"
  do_reply :: string
  do_history :: "(msg_role \<times> string) list"
  do_chain :: chain
  do_type :: "thread_type option"
  do_participants :: "(string \<times> string) list"
  do_lead :: "string option"

type_synonym sent = "string \<times> string"   \<comment> \<open>agent id, message id\<close>

definition display_name :: "agent \<Rightarrow> string" where
  "display_name a = (if a_name a = [] then a_slug a else a_name a)"

text \<open>\<open>models[0] || DEFAULT_CHAT_MODEL\<close>, with \<open>models\<close> the column when it is an array\<close>

definition agent_model :: "chat_env \<Rightarrow> agent \<Rightarrow> string" where
  "agent_model env a =
     (case a_models a of
        Arr (v # _) \<Rightarrow> if truthy v then text_param env v else default_model env
      | _ \<Rightarrow> default_model env)"

definition lead_truthy :: "string option \<Rightarrow> bool" where
  "lead_truthy l = (case l of None \<Rightarrow> False | Some s \<Rightarrow> s \<noteq> [])"

definition make_request :: "chat_env \<Rightarrow> dispatch_opts \<Rightarrow> agent \<Rightarrow> string \<Rightarrow> dispatch_req" where
  "make_request env opts a mid =
     (let led = lead_truthy (do_lead opts); isled = led \<and> do_lead opts = Some (a_id a)
      in dispatch_chat_work a (do_thread_text opts) mid (do_history opts) (agent_model env a) (do_type opts)
           (do_participants opts) isled
           (if isled
            then map (\<lambda>b. (a_slug b, display_name b)) (filter (\<lambda>b. do_lead opts \<noteq> Some (a_id b)) (do_agents opts))
            else []))"

definition push_request :: "dispatch_req \<Rightarrow> chat_db \<Rightarrow> chat_db" where
  "push_request r d = d\<lparr>d_outbox := d_outbox d @ [r]\<rparr>"

text \<open>Phase 1: the placeholders, one after the other.\<close>

definition create_placeholders :: "chat_env \<Rightarrow> dispatch_opts \<Rightarrow> (chat_db, (agent \<times> string) list) eff" where
  "create_placeholders env opts =
     eff_map (\<lambda>a. eff_bind (insert_placeholder env (do_thread opts) (a_id a) (do_reply opts) (do_chain opts))
                   (\<lambda>m. ret (a, m_id m)))
       (do_agents opts)"

text \<open>A status update whose failure is logged and swallowed.\<close>

definition mark_failed_logged :: "string \<Rightarrow> string \<Rightarrow> (chat_db, unit) eff" where
  "mark_failed_logged i why = eff_catch (eff_bind (mark_failed i why) (\<lambda>_. ret ())) (\<lambda>_. ret ())"

definition not_configured :: string where
  "not_configured = ''Chat is not configured on this server (CHAT_CALLBACK_TOKEN missing)''"

text \<open>Phase 3 for one placeholder.\<close>

definition settle_one :: "chat_env \<Rightarrow> dispatch_opts \<Rightarrow> agent \<times> string \<Rightarrow> (chat_db, bool) eff" where
  "settle_one env opts am =
     (case dispatch_outcome (post_work env (make_request env opts (fst am) (snd am))) of
        None \<Rightarrow> ret True
      | Some reason \<Rightarrow>
          eff_seq (mark_failed_logged (snd am)
                     (''Dispatch failed: '' @ sanitize_dispatch_reason reason [a_work_token (fst am)]))
            (ret False))"

record dispatch_report =
  dr_dispatched :: "sent list"
  dr_failed :: "(sent \<times> string) list"

definition token_configured :: "chat_env \<Rightarrow> bool" where
  "token_configured env = (case callback_token env of None \<Rightarrow> False | Some t \<Rightarrow> t \<noteq> [])"

text \<open>
  \<open>dispatchToAgents\<close>. The work items are posted together once every placeholder exists, and
  the answers are then settled in order.
\<close>

definition dispatch_to_agents :: "chat_env \<Rightarrow> dispatch_opts \<Rightarrow> (chat_db, dispatch_report) eff" where
  "dispatch_to_agents env opts =
     eff_bind (create_placeholders env opts) (\<lambda>placeholders.
       if \<not> token_configured env
       then eff_seq (eff_for placeholders (\<lambda>am. mark_failed_logged (snd am) not_configured))
              (ret \<lparr>dr_dispatched = [],
                    dr_failed = map (\<lambda>am. ((a_id (fst am), snd am), ''callback_not_configured'')) placeholders\<rparr>)
       else
         eff_seq (eff_for placeholders (\<lambda>am. local_step (push_request (make_request env opts (fst am) (snd am)))))
           (eff_bind (eff_map (settle_one env opts) placeholders) (\<lambda>oks.
              let tagged = zip placeholders oks
              in ret \<lparr>dr_dispatched = map (\<lambda>(am, _). (a_id (fst am), snd am)) (filter snd tagged),
                      dr_failed = map (\<lambda>(am, _). ((a_id (fst am), snd am), ''dispatch_failed''))
                                    (filter (\<lambda>x. \<not> snd x) tagged)\<rparr>)))"

end
