(* ===== verification/Chat.thy ===== *)
theory Chat
  imports ChatDispatch
begin

text \<open>
  The handlers of \<open>routes/chat.ts\<close> that change the database: creating a thread, updating and
  deleting it, its participants, sending a message, cancelling, the agentbox callback with
  its agent-to-agent orchestration, the stale sweep, and the stale reconcile of a thread
  read. A handler is a computation over the tables whose value is the reply; a body value
  is whatever the JSON parser produced. Every statement can throw, and the handler's own
  \<open>catch\<close> is part of it. A transaction that is rolled back restores the tables, the sequence
  included: the numbers Postgres would skip are drawn again, which changes no order and no
  uniqueness among committed rows.

  A dash outside ASCII in a message is written as two hyphens.

  \<open>requireRole('user')\<close> runs before each of them (\<open>Access.require_role\<close>).
\<close>

section \<open>Callers and replies\<close>

record caller =
  c_sub :: string
  c_admin :: bool

definition caller_of :: "string \<Rightarrow> js \<Rightarrow> caller" where
  "caller_of client user = \<lparr>c_sub = the_str (js_get user ''sub''), c_admin = is_admin client user\<rparr>"

type_synonym skip = "string \<times> string"   \<comment> \<open>agent id, reason\<close>

datatype reply =
    Fail nat string
  | ThreadCreated thread msg dispatch_report "skip list"
  | MessageSent msg dispatch_report "skip list"
  | ThreadUpdated thread
  | ThreadDeleted
  | ParticipantList "participant list"
  | Cancelled nat
  | CallbackDone bool
  | ThreadRead thread "msg list" nat bool

definition max_agents_per_group :: nat where
  "max_agents_per_group = 8"

text \<open>\<open>/^[0-9a-f]{8}-...-[0-9a-f]{12}$/i\<close>\<close>

definition hex_char :: "char \<Rightarrow> bool" where
  "hex_char c = (is_digit c \<or> (let n = of_char (lower_char c) :: int in 97 \<le> n \<and> n \<le> 102))"

definition uuid_re :: "string \<Rightarrow> bool" where
  "uuid_re s = (map length (split_on (CHR ''-'') s) = [8, 4, 4, 4, 12] \<and>
                (\<forall>w \<in> set (split_on (CHR ''-'') s). \<forall>c \<in> set w. hex_char c))"

definition lead_uuid_ok :: "js \<Rightarrow> bool" where
  "lead_uuid_ok v = (is_str v \<and> uuid_re (the_str v))"

text \<open>The tail of a handler's \<open>try\<close>: the idempotency index is a 409, anything else a 500.\<close>

definition or_conflict :: "string \<Rightarrow> exn \<Rightarrow> (chat_db, reply) eff" where
  "or_conflict what e =
     (if e = UniqueViolation key_index
      then ret (Fail 409 ''Duplicate message (idempotency key already used)'')
      else ret (Fail 500 what))"

definition or_500 :: "string \<Rightarrow> exn \<Rightarrow> (chat_db, reply) eff" where
  "or_500 what e = ret (Fail 500 what)"

section \<open>Creating a thread\<close>

text \<open>The agents of the request in order; the first that is missing ends the request.\<close>

fun lookup_agents :: "chat_env \<Rightarrow> js list \<Rightarrow> (chat_db, js + agent list) eff" where
  "lookup_agents env [] = ret (Inr [])"
| "lookup_agents env (v # vs) =
     eff_bind (get_agent_for_dispatch env v) (\<lambda>oa.
       case oa of
         None \<Rightarrow> ret (Inl v)
       | Some a \<Rightarrow> eff_bind (lookup_agents env vs) (\<lambda>r.
           ret (case r of Inl u \<Rightarrow> Inl u | Inr as \<Rightarrow> Inr (a # as))))"

text \<open>The first agent with an elevated scope, when the caller is not an admin.\<close>

fun elevated_deny :: "chat_env \<Rightarrow> bool \<Rightarrow> agent list \<Rightarrow> (chat_db, (agent \<times> string) option) eff" where
  "elevated_deny env admin [] = ret None"
| "elevated_deny env admin (a # as) =
     eff_bind (get_elevated_scope env (Str (a_id a))) (\<lambda>sc.
       case sc of
         Some s \<Rightarrow> if \<not> admin then ret (Some (a, s)) else elevated_deny env admin as
       | None \<Rightarrow> elevated_deny env admin as)"

definition elevated_message :: "string \<Rightarrow> string \<Rightarrow> string" where
  "elevated_message who sc = ''Elevated agent '' @ who @ '' ('' @ sc @ '') requires admin privileges''"

definition runnable :: "agent \<Rightarrow> bool" where
  "runnable a = (a_status a = ''running'' \<and> (case a_work_token a of None \<Rightarrow> False | Some t \<Rightarrow> t \<noteq> []))"

definition requested_agents :: "js \<Rightarrow> js list option" where
  "requested_agents body =
     (case js_get body ''agent_ids'' of
        Arr (v # vs) \<Rightarrow> Some (v # vs)
      | _ \<Rightarrow> if truthy (js_get body ''agent_id'') then Some [js_get body ''agent_id''] else None)"

definition message_ok :: "js \<Rightarrow> bool" where
  "message_ok v = (is_str v \<and> js_trim (the_str v) \<noteq> [])"

definition lead_error :: "js \<Rightarrow> thread_type \<Rightarrow> js list \<Rightarrow> string option" where
  "lead_error lead ty uuids =
     (if \<not> truthy lead then None
      else if \<not> lead_uuid_ok lead then Some ''lead_agent_id must be a valid UUID''
      else if ty \<noteq> Group
      then Some ''lead_agent_id is only valid for group threads (requires agent_ids with 2+ agents)''
      else if lead \<notin> set uuids then Some ''lead_agent_id must be one of the agent_ids''
      else None)"

text \<open>The three inserts that are one transaction.\<close>

definition thread_writes ::
    "chat_env \<Rightarrow> caller \<Rightarrow> thread_type \<Rightarrow> js \<Rightarrow> js \<Rightarrow> js \<Rightarrow> string \<Rightarrow> agent list \<Rightarrow> (chat_db, thread \<times> msg) eff" where
  "thread_writes env c ty title lead key content agents =
     transaction
       (eff_bind (insert_thread env ty title (c_sub c) lead) (\<lambda>t.
          eff_seq (insert_participants (member_row env (t_id t) Human Owner (c_sub c) #
                     map (\<lambda>a. member_row env (t_id t) Agent Member (a_id a)) agents))
            (eff_bind (insert_user_msg env (t_id t) (c_sub c) content key None) (\<lambda>m. ret (t, m)))))"

definition infos :: "agent list \<Rightarrow> (string \<times> string) list" where
  "infos as = map (\<lambda>a. (a_slug a, display_name a)) as"

definition skipped_of :: "agent list \<Rightarrow> skip list" where
  "skipped_of as = map (\<lambda>a. (a_id a, ''not_running'')) (filter (\<lambda>a. \<not> runnable a) as)"

text \<open>The agents are known and allowed: classify them, store the thread, dispatch.\<close>

definition create_store :: "chat_env \<Rightarrow> caller \<Rightarrow> js \<Rightarrow> thread_type \<Rightarrow> agent list \<Rightarrow> (chat_db, reply) eff" where
  "create_store env c body ty agents =
     (let lead = js_get body ''lead_agent_id'';
          content = js_trim (the_str (js_get body ''message''));
          dispatchable = filter runnable agents;
          targets = (if truthy lead then filter (\<lambda>a. lead = Str (a_id a)) dispatchable else dispatchable) in
      if dispatchable = []
      then ret (Fail 400 ''No available agents -- all selected agents are not running'')
      else if truthy lead \<and> targets = [] then ret (Fail 409 ''Lead agent is not running'')
      else
        eff_bind (thread_writes env c ty (js_get body ''title'') lead
                    (js_get body ''idempotency_key'') content agents) (\<lambda>(t, m).
          eff_bind (dispatch_to_agents env
             \<lparr>do_thread = t_id t, do_thread_text = t_id t, do_agents = targets, do_reply = m_id m,
              do_history = [(UserRole, content)], do_chain = None, do_type = Some ty,
              do_participants = (if ty = Group then infos agents else []),
              do_lead = (if truthy lead then Some (the_str lead) else None)\<rparr>)
            (\<lambda>rep. ret (ThreadCreated t m rep (skipped_of agents)))))"

definition create_checked :: "chat_env \<Rightarrow> caller \<Rightarrow> js \<Rightarrow> thread_type \<Rightarrow> agent list \<Rightarrow> (chat_db, reply) eff" where
  "create_checked env c body ty agents =
     eff_bind (elevated_deny env (c_admin c) agents) (\<lambda>deny. case deny of
       Some (a, sc) \<Rightarrow> ret (Fail 403 (elevated_message (display_name a) sc))
     | None \<Rightarrow> create_store env c body ty agents)"

definition create_thread_body :: "chat_env \<Rightarrow> caller \<Rightarrow> js \<Rightarrow> (chat_db, reply) eff" where
  "create_thread_body env c body =
     (case requested_agents body of
        None \<Rightarrow> ret (Fail 400 ''agent_id or agent_ids is required'')
      | Some uuids \<Rightarrow>
          (let ty = (if length uuids = 1 then Direct else Group) in
           if \<not> message_ok (js_get body ''message'')
           then ret (Fail 400 ''message is required and must be a non-empty string'')
           else if ty = Group \<and> length uuids > max_agents_per_group
           then ret (Fail 400 ''Maximum 8 agents per group thread'')
           else (case lead_error (js_get body ''lead_agent_id'') ty uuids of
             Some e \<Rightarrow> ret (Fail 400 e)
           | None \<Rightarrow>
             eff_bind (lookup_agents env uuids) (\<lambda>r. case r of
               Inl v \<Rightarrow> ret (Fail 404 (''Agent not found: '' @ (if is_str v then the_str v else ''null'')))
             | Inr agents \<Rightarrow> create_checked env c body ty agents))))"

definition create_thread :: "chat_env \<Rightarrow> caller \<Rightarrow> js \<Rightarrow> (chat_db, reply) eff" where
  "create_thread env c body =
     eff_catch (create_thread_body env c body) (or_conflict ''Failed to create thread'')"

section \<open>Updating, deleting\<close>

text \<open>\<open>SET lead_agent_id\<close> and \<open>title\<close> only when the body has them.\<close>

definition apply_patch :: "chat_env \<Rightarrow> js \<Rightarrow> string option \<Rightarrow> js \<Rightarrow> thread \<Rightarrow> thread" where
  "apply_patch env title ld lead t =
     (let t1 = t\<lparr>t_updated := now env\<rparr>;
          t2 = (if title = Undef then t1
                else t1\<lparr>t_title := (if nullish title then None else Some (the_str title))\<rparr>)
      in if lead = Undef then t2 else t2\<lparr>t_lead := ld\<rparr>)"

definition thread_patch :: "chat_env \<Rightarrow> js \<Rightarrow> js \<Rightarrow> js \<Rightarrow> chat_db \<Rightarrow> exn + thread option \<times> chat_db" where
  "thread_patch env tid title lead d =
     (case uuid_param env tid of
        Inl e \<Rightarrow> Inl e
      | Inr u \<Rightarrow>
          (case uuid_param env lead of
             Inl e \<Rightarrow> Inl e
           | Inr ld \<Rightarrow>
               if (is_str title \<and> \<not> varchar_ok 255 (the_str title)) \<or>
                  (find_thread u d \<noteq> None \<and> \<not> fk agent_exists ld d)
               then Inl DbFault
               else (let d' = update_threads (\<lambda>t. Some (t_id t) = u) (apply_patch env title ld lead) d
                     in Inr (find_thread u d', d'))))"

definition update_thread_body :: "chat_env \<Rightarrow> caller \<Rightarrow> js \<Rightarrow> js \<Rightarrow> (chat_db, reply) eff" where
  "update_thread_body env c tid body =
     eff_bind (is_thread_owner env tid (c_sub c) (c_admin c)) (\<lambda>ok.
       if \<not> ok then ret (Fail 404 ''Thread not found'')
       else (let title = js_get body ''title''; lead = js_get body ''lead_agent_id'' in
         if \<not> nullish title \<and> \<not> is_str title then ret (Fail 400 ''title must be a string or null'')
         else
           eff_bind (if nullish lead then ret None
                     else if \<not> lead_uuid_ok lead then ret (Some ''lead_agent_id must be a valid UUID or null'')
                     else eff_bind (get_thread_agents env tid) (\<lambda>as.
                       ret (if the_str lead \<in> set as then None
                            else Some ''lead_agent_id must be an active agent participant in the thread'')))
             (\<lambda>err. case err of
                Some e \<Rightarrow> ret (Fail 400 e)
              | None \<Rightarrow>
                  eff_bind (db_query (thread_patch env tid title lead)) (\<lambda>row.
                    ret (case row of None \<Rightarrow> Fail 404 ''Thread not found'' | Some t \<Rightarrow> ThreadUpdated t)))))"

definition update_thread :: "chat_env \<Rightarrow> caller \<Rightarrow> js \<Rightarrow> js \<Rightarrow> (chat_db, reply) eff" where
  "update_thread env c tid body =
     eff_catch (update_thread_body env c tid body) (or_500 ''Failed to update thread'')"

text \<open>
  The audit line of a deletion asks once more whether an admin was also the owner, so that
  query can throw after the thread is gone.
\<close>

definition remove_thread_body :: "chat_env \<Rightarrow> caller \<Rightarrow> js \<Rightarrow> (chat_db, reply) eff" where
  "remove_thread_body env c tid =
     eff_bind (is_thread_owner env tid (c_sub c) (c_admin c)) (\<lambda>ok.
       if \<not> ok then ret (Fail 404 ''Thread not found'')
       else eff_bind (delete_thread env tid) (\<lambda>n.
         if n = 0 then ret (Fail 404 ''Thread not found'')
         else eff_seq (if c_admin c then is_thread_owner env tid (c_sub c) False else ret False)
                (ret ThreadDeleted)))"

definition remove_thread :: "chat_env \<Rightarrow> caller \<Rightarrow> js \<Rightarrow> (chat_db, reply) eff" where
  "remove_thread env c tid =
     eff_catch (remove_thread_body env c tid) (or_500 ''Failed to delete thread'')"

section \<open>Participants\<close>

fun elevated_deny_ids :: "chat_env \<Rightarrow> bool \<Rightarrow> js list \<Rightarrow> (chat_db, (js \<times> string) option) eff" where
  "elevated_deny_ids env admin [] = ret None"
| "elevated_deny_ids env admin (v # vs) =
     eff_bind (get_elevated_scope env v) (\<lambda>sc.
       case sc of
         Some s \<Rightarrow> if \<not> admin then ret (Some (v, s)) else elevated_deny_ids env admin vs
       | None \<Rightarrow> elevated_deny_ids env admin vs)"

text \<open>\<open>None\<close> continues the handler, \<open>Some\<close> is its reply.\<close>

definition add_agents :: "chat_env \<Rightarrow> caller \<Rightarrow> js \<Rightarrow> js list \<Rightarrow> (chat_db, reply option) eff" where
  "add_agents env c tid add =
     eff_bind (get_thread_agents env tid) (\<lambda>current.
       if length current + length (filter (\<lambda>v. v \<notin> Str ` set current) add) > max_agents_per_group
       then ret (Some (Fail 400 ''Maximum 8 agents per group thread''))
       else eff_bind (elevated_deny_ids env (c_admin c) add) (\<lambda>deny. case deny of
         Some (v, sc) \<Rightarrow> ret (Some (Fail 403 (elevated_message (text_param env v) sc)))
       | None \<Rightarrow>
           eff_seq (eff_for add (upsert_participant env tid))
             (eff_bind (get_thread_agents env tid) (\<lambda>post.
                eff_seq (if length post > 1 then promote_to_group env tid else ret ()) (ret None)))))"

definition remove_agents :: "chat_env \<Rightarrow> js \<Rightarrow> js list \<Rightarrow> (chat_db, unit) eff" where
  "remove_agents env tid rem =
     eff_for rem (\<lambda>v. eff_seq (fail_pending_of env tid v) (leave_thread env tid v))"

definition list_participants :: "chat_env \<Rightarrow> js \<Rightarrow> (chat_db, participant list) eff" where
  "list_participants env tid =
     on_uuid env tid (\<lambda>u d. filter (\<lambda>p. Some (p_thread p) = u) (d_parts d))"

definition update_participants_body :: "chat_env \<Rightarrow> caller \<Rightarrow> js \<Rightarrow> js \<Rightarrow> (chat_db, reply) eff" where
  "update_participants_body env c tid body =
     eff_bind (is_thread_owner env tid (c_sub c) (c_admin c)) (\<lambda>ok.
       if \<not> ok then ret (Fail 404 ''Thread not found'')
       else eff_bind (case js_get body ''add'' of Arr add \<Rightarrow> add_agents env c tid add | _ \<Rightarrow> ret None) (\<lambda>r.
         case r of
           Some rep \<Rightarrow> ret rep
         | None \<Rightarrow>
             eff_seq (case js_get body ''remove'' of Arr rem \<Rightarrow> remove_agents env tid rem | _ \<Rightarrow> ret ())
               (eff_bind (list_participants env tid) (\<lambda>ps. ret (ParticipantList ps)))))"

definition update_participants :: "chat_env \<Rightarrow> caller \<Rightarrow> js \<Rightarrow> js \<Rightarrow> (chat_db, reply) eff" where
  "update_participants env c tid body =
     eff_catch (update_participants_body env c tid body) (or_500 ''Failed to update participants'')"

section \<open>Sending a message\<close>

text \<open>The participants the message goes to, or the reply that refuses it.\<close>

definition message_targets ::
    "chat_env \<Rightarrow> js \<Rightarrow> string list \<Rightarrow> string list \<Rightarrow> (chat_db, reply + string list \<times> string list option) eff" where
  "message_targets env tid slugs allids =
     (if slugs = [] then ret (Inr (allids, None))
      else eff_bind (resolve_agent_slugs env tid slugs) (\<lambda>resolved.
        case filter (\<lambda>s. s \<notin> fst ` set resolved) slugs of
          s # _ \<Rightarrow> ret (Inl (Fail 400 (''Unknown agent: @'' @ s)))
        | [] \<Rightarrow> ret (Inr (map snd resolved, Some (map snd resolved)))))"

fun load_agents :: "chat_env \<Rightarrow> string list \<Rightarrow> (chat_db, agent list) eff" where
  "load_agents env [] = ret []"
| "load_agents env (p # ps) =
     eff_bind (get_agent_for_dispatch env (Str p)) (\<lambda>oa.
       eff_bind (load_agents env ps) (\<lambda>as. ret (case oa of None \<Rightarrow> as | Some a \<Rightarrow> a # as)))"

text \<open>The dispatchable agents, and the others with the reason.\<close>

fun classify :: "chat_env \<Rightarrow> js \<Rightarrow> agent list \<Rightarrow> (chat_db, agent list \<times> skip list) eff" where
  "classify env tid [] = ret ([], [])"
| "classify env tid (a # as) =
     (if \<not> runnable a
      then eff_bind (classify env tid as) (\<lambda>(ds, ss). ret (ds, (a_id a, ''not_running'') # ss))
      else eff_bind (has_pending env tid (a_id a)) (\<lambda>busy.
        eff_bind (classify env tid as) (\<lambda>(ds, ss).
          ret (if busy then (ds, (a_id a, ''has_pending'') # ss) else (a # ds, ss)))))"

definition unavailable :: "thread_type \<Rightarrow> skip list \<Rightarrow> reply" where
  "unavailable ty sk =
     (if ty = Group then Fail 409 ''No agents available for dispatch (all pending or not running)''
      else if (case sk of [] \<Rightarrow> False | (_, r) # _ \<Rightarrow> r = ''has_pending'')
      then Fail 409 ''Agent is still responding to a previous message''
      else Fail 409 ''Agent is not running'')"

definition message_writes ::
    "chat_env \<Rightarrow> caller \<Rightarrow> js \<Rightarrow> string \<Rightarrow> js \<Rightarrow> string list option \<Rightarrow> (chat_db, msg) eff" where
  "message_writes env c tid content key targets =
     transaction
       (eff_bind (insert_user_msg env (case uuid_param env tid of Inr (Some u) \<Rightarrow> u | _ \<Rightarrow> [])
                    (c_sub c) content key targets) (\<lambda>m.
          eff_seq (db_query (\<lambda>d. case uuid_param env tid of
                                   Inl e \<Rightarrow> Inl e | Inr u \<Rightarrow> Inr ((), touch_thread env u d)))
            (ret m)))"

text \<open>
  What follows the user message: the history, the participants, and the dispatch. The lead
  agent's availability is looked at only here, after the message is stored.
\<close>

definition send_dispatch ::
    "chat_env \<Rightarrow> js \<Rightarrow> thread_type \<Rightarrow> string option \<Rightarrow> string list \<Rightarrow> msg \<Rightarrow> agent list \<Rightarrow> skip list \<Rightarrow>
     (chat_db, reply) eff" where
  "send_dispatch env tid ty lead allids m dispatchable sk =
     eff_bind (load_history env tid) (\<lambda>history.
     eff_bind (if ty = Group then load_agents env allids else ret []) (\<lambda>members.
       (let targets = (if lead_truthy lead then filter (\<lambda>a. lead = Some (a_id a)) dispatchable
                       else dispatchable) in
        if lead_truthy lead \<and> targets = []
        then ret (Fail 409 ''Lead agent is not running or has a pending response'')
        else eff_bind (dispatch_to_agents env
            \<lparr>do_thread = m_thread m, do_thread_text = the_str tid, do_agents = targets, do_reply = m_id m, do_history = history,
             do_chain = None, do_type = Some ty, do_participants = infos members, do_lead = lead\<rparr>)
          (\<lambda>rep. ret (MessageSent m rep sk)))))"

definition send_classified ::
    "chat_env \<Rightarrow> caller \<Rightarrow> js \<Rightarrow> js \<Rightarrow> string \<Rightarrow> thread_type \<Rightarrow> string option \<Rightarrow> string list \<Rightarrow>
     string list option \<Rightarrow> agent list \<Rightarrow> (chat_db, reply) eff" where
  "send_classified env c tid body content ty lead allids targets agents =
     eff_bind (classify env tid agents) (\<lambda>(dispatchable, sk).
       if dispatchable = [] then ret (unavailable ty sk)
       else eff_bind (message_writes env c tid content (js_get body ''idempotency_key'') targets) (\<lambda>m.
         send_dispatch env tid ty lead allids m dispatchable sk))"

definition send_checked ::
    "chat_env \<Rightarrow> caller \<Rightarrow> js \<Rightarrow> js \<Rightarrow> string \<Rightarrow> thread_type \<Rightarrow> string option \<Rightarrow> string list \<Rightarrow>
     string list option \<Rightarrow> agent list \<Rightarrow> (chat_db, reply) eff" where
  "send_checked env c tid body content ty lead allids targets agents =
     eff_bind (elevated_deny env (c_admin c) agents) (\<lambda>deny. case deny of
       Some (a, sc) \<Rightarrow> ret (Fail 403 (elevated_message (display_name a) sc))
     | None \<Rightarrow> send_classified env c tid body content ty lead allids targets agents)"

definition send_targets ::
    "chat_env \<Rightarrow> caller \<Rightarrow> js \<Rightarrow> js \<Rightarrow> string \<Rightarrow> thread_type \<Rightarrow> string option \<Rightarrow> string list \<Rightarrow>
     (chat_db, reply) eff" where
  "send_targets env c tid body content ty lead allids =
     (if allids = [] then ret (Fail 400 ''No agent participant found in thread'')
      else eff_bind (message_targets env tid (fst (parse_mentions content)) allids) (\<lambda>tg. case tg of
        Inl rep \<Rightarrow> ret rep
      | Inr (ids, targets) \<Rightarrow>
        eff_bind (load_agents env ids) (\<lambda>agents.
          if agents = [] then ret (Fail 400 ''No available agents'')
          else send_checked env c tid body content ty lead allids targets agents)))"

definition send_message_body :: "chat_env \<Rightarrow> caller \<Rightarrow> js \<Rightarrow> js \<Rightarrow> (chat_db, reply) eff" where
  "send_message_body env c tid body =
     eff_bind (is_participant env tid (c_sub c) (c_admin c)) (\<lambda>ok.
       if \<not> ok then ret (Fail 404 ''Thread not found'')
       else if \<not> message_ok (js_get body ''message'')
       then ret (Fail 400 ''message is required and must be a non-empty string'')
       else eff_bind (get_thread_type env tid) (\<lambda>info. case info of
         None \<Rightarrow> ret (Fail 404 ''Thread not found'')
       | Some (ty, lead) \<Rightarrow>
           eff_bind (get_thread_agents env tid)
             (send_targets env c tid body (js_trim (the_str (js_get body ''message''))) ty lead)))"

definition send_message :: "chat_env \<Rightarrow> caller \<Rightarrow> js \<Rightarrow> js \<Rightarrow> (chat_db, reply) eff" where
  "send_message env c tid body =
     eff_catch (send_message_body env c tid body) (or_conflict ''Failed to send message'')"

definition cancel_messages :: "chat_env \<Rightarrow> caller \<Rightarrow> js \<Rightarrow> (chat_db, reply) eff" where
  "cancel_messages env c tid =
     eff_catch
       (eff_bind (is_participant env tid (c_sub c) (c_admin c)) (\<lambda>ok.
          if \<not> ok then ret (Fail 404 ''Thread not found'')
          else eff_bind (cancel_pending env tid) (\<lambda>n. ret (Cancelled n))))
       (or_500 ''Failed to cancel messages'')"

section \<open>Reading a thread\<close>

text \<open>
  \<open>GET /threads/:id\<close> writes too: a pending message older than two minutes on the page is
  marked failed. \<open>before\<close> is the parsed cursor and \<open>limit\<close> the page size; the reply holds the
  page as the reader sees it, with the marked rows changed in place.
\<close>

definition page_of :: "string option \<Rightarrow> nat option \<Rightarrow> chat_db \<Rightarrow> msg list" where
  "page_of u before d =
     newest_first (filter (\<lambda>m. Some (m_thread m) = u \<and>
        (case before of None \<Rightarrow> True | Some b \<Rightarrow> m_seq m < b)) (d_msgs d))"

definition count_of :: "string option \<Rightarrow> chat_db \<Rightarrow> nat" where
  "count_of u d = length (filter (\<lambda>m. Some (m_thread m) = u) (d_msgs d))"

definition stale_on_read :: "chat_env \<Rightarrow> msg \<Rightarrow> bool" where
  "stale_on_read env m = (m_status m = Pending \<and> now env - m_created m > stale_timeout_ms)"

definition mark_stale :: "string list \<Rightarrow> (chat_db, nat) eff" where
  "mark_stale ids = bump_query (\<lambda>m. m_id m \<in> set ids \<and> m_status m = Pending)
     (fail_with no_response_message)"

definition read_thread_body ::
    "chat_env \<Rightarrow> caller \<Rightarrow> js \<Rightarrow> nat option \<Rightarrow> nat \<Rightarrow> (chat_db, reply) eff" where
  "read_thread_body env c tid before limit =
     eff_bind (is_participant env tid (c_sub c) (c_admin c)) (\<lambda>ok.
       if \<not> ok then ret (Fail 404 ''Thread not found'')
       else eff_bind (on_uuid env tid find_thread) (\<lambda>row. case row of
         None \<Rightarrow> ret (Fail 404 ''Thread not found'')
       | Some t \<Rightarrow>
         eff_seq (list_participants env tid)
         (eff_bind (on_uuid env tid (\<lambda>u d. take (limit + 1) (page_of u before d))) (\<lambda>rows.
          eff_bind (on_uuid env tid count_of) (\<lambda>total_rows.
            (let page = rev (take limit rows);
                 stale = map m_id (filter (stale_on_read env) page) in
             eff_seq (if stale = [] then ret 0 else mark_stale stale)
               (ret (ThreadRead t
                       (map (\<lambda>m. if m_id m \<in> set stale then fail_with no_response_message m else m) page)
                       total_rows (length rows > limit)))))))))"

definition read_thread :: "chat_env \<Rightarrow> caller \<Rightarrow> js \<Rightarrow> nat option \<Rightarrow> nat \<Rightarrow> (chat_db, reply) eff" where
  "read_thread env c tid before limit =
     eff_catch (read_thread_body env c tid before limit) (or_500 ''Failed to get thread'')"

section \<open>The agentbox callback\<close>

text \<open>Batch completion: the last terminal sibling of a group reply is flagged. Faults are swallowed.\<close>

definition batch_check :: "chat_env \<Rightarrow> js \<Rightarrow> (chat_db, unit) eff" where
  "batch_check env mid =
     eff_catch
       (eff_bind (on_uuid env mid batch_row) (\<lambda>row. case row of
          Some (Some r, Group) \<Rightarrow>
            eff_bind (db_read (siblings r)) (\<lambda>(tot, term).
              if 0 < tot \<and> term = tot then eff_bind (mark_batch_complete env mid) (\<lambda>_. ret ()) else ret ())
        | _ \<Rightarrow> ret ()))
       (\<lambda>_. ret ())"

text \<open>
  The queries of the auto-journal and of the elevated-response audit line change nothing and
  swallow their faults; the journal entry itself leaves through \<open>appendJournal\<close>, not awaited.
\<close>

definition silent_read :: "chat_env \<Rightarrow> js \<Rightarrow> (chat_db, unit) eff" where
  "silent_read env mid = eff_catch (eff_bind (get_msg env mid) (\<lambda>_. ret ())) (\<lambda>_. ret ())"

definition elevated_tag :: "chat_env \<Rightarrow> js \<Rightarrow> (chat_db, unit) eff" where
  "elevated_tag env mid =
     eff_catch
       (eff_bind (get_msg env mid) (\<lambda>row. case row of
          Some m \<Rightarrow> if m_kind m = Agent
                    then eff_bind (get_elevated_scope env (Str (m_author m))) (\<lambda>_. ret ()) else ret ()
        | None \<Rightarrow> ret ()))
       (\<lambda>_. ret ())"

text \<open>Who of the mentioned may answer: not elevated, running with a token, nothing pending.\<close>

fun eligible_agents :: "chat_env \<Rightarrow> js \<Rightarrow> string list \<Rightarrow> (chat_db, agent list) eff" where
  "eligible_agents env tid [] = ret []"
| "eligible_agents env tid (p # ps) =
     eff_bind (get_elevated_scope env (Str p)) (\<lambda>sc.
       if sc \<noteq> None then eligible_agents env tid ps
       else eff_bind (get_agent_for_dispatch env (Str p)) (\<lambda>oa. case oa of
         None \<Rightarrow> eligible_agents env tid ps
       | Some a \<Rightarrow>
           if \<not> runnable a then eligible_agents env tid ps
           else eff_bind (has_pending env tid (a_id a)) (\<lambda>busy.
             if busy then eligible_agents env tid ps
             else eff_bind (eligible_agents env tid ps) (\<lambda>as. ret (a # as)))))"

definition int_le_num :: "int \<Rightarrow> jsnum \<Rightarrow> bool" where
  "int_le_num k n =
     (case n of NaN \<Rightarrow> False | PosInf \<Rightarrow> True | NegInf \<Rightarrow> False | Fin q \<Rightarrow> of_int k \<le> q)"

text \<open>The dispatch of one hop, with the eligible agents at hand.\<close>

definition chain_dispatch :: "chat_env \<Rightarrow> js \<Rightarrow> string \<Rightarrow> string \<Rightarrow> int \<Rightarrow> agent list \<Rightarrow> (chat_db, unit) eff" where
  "chain_dispatch env mid tid cid hop agents =
     eff_bind (load_history env (Str tid)) (\<lambda>history.
     eff_bind (get_thread_type env (Str tid)) (\<lambda>info.
       (let ty = map_option fst info;
            reply = (case uuid_param env mid of Inr (Some r) \<Rightarrow> r | _ \<Rightarrow> []) in
        eff_bind (if ty = Some Group then thread_agent_infos env (Str tid) else ret []) (\<lambda>members.
        eff_bind (dispatch_to_agents env
            \<lparr>do_thread = tid, do_thread_text = tid, do_agents = agents, do_reply = reply,
             do_history = history, do_chain = Some (cid, hop, reply),
             do_type = ty, do_participants = infos members, do_lead = None\<rparr>)
          (\<lambda>_. ret ())))))"

text \<open>The guards in order: the hop budget, the time budget, the cycle check, eligibility.\<close>

definition chain_step ::
    "chat_env \<Rightarrow> js \<Rightarrow> string \<Rightarrow> string \<Rightarrow> int \<Rightarrow> string list \<Rightarrow> (chat_db, unit) eff" where
  "chain_step env mid tid cid hop targets =
     (if \<not> int_le_num hop (max_hops env) then ret ()
      else eff_bind (db_read (chain_start cid)) (\<lambda>start.
        if \<not> int_le_num (now env - (case start of None \<Rightarrow> now env | Some t \<Rightarrow> t)) (max_chain_ms env)
        then ret ()
        else eff_bind (db_read (chain_authors cid)) (\<lambda>seen.
          (let fresh = filter (\<lambda>p. p \<notin> set seen) targets in
           if fresh = [] then ret ()
           else eff_bind (eligible_agents env (Str tid) fresh) (\<lambda>agents.
             if agents = [] then ret () else chain_dispatch env mid tid cid hop agents)))))"

text \<open>The chain of the triggering message, or a new one with the message as its hop 0.\<close>

definition chain_of :: "chat_env \<Rightarrow> js \<Rightarrow> msg \<Rightarrow> (chat_db, string) eff" where
  "chain_of env mid m =
     (case m_chain m of
        Some cid \<Rightarrow> ret cid
      | None \<Rightarrow> eff_bind (peek (\<lambda>d. gen_id env (d_ids d))) (\<lambda>cid.
          eff_seq (local_step (\<lambda>d. d\<lparr>d_ids := Suc (d_ids d)\<rparr>))
            (eff_seq (backfill_chain env cid mid) (ret cid))))"

definition orchestrate_body :: "chat_env \<Rightarrow> js \<Rightarrow> string \<Rightarrow> (chat_db, unit) eff" where
  "orchestrate_body env mid content =
     (let slugs = fst (parse_mentions content) in
      if slugs = [] then ret ()
      else eff_bind (get_msg env mid) (\<lambda>row. case row of
        None \<Rightarrow> ret ()
      | Some m \<Rightarrow>
          eff_bind (resolve_agent_slugs env (Str (m_thread m)) slugs) (\<lambda>resolved.
            (let targets = filter (\<lambda>p. p \<noteq> m_author m) (map snd resolved) in
             if targets = [] then ret ()
             else eff_bind (chain_of env mid m) (\<lambda>cid.
               chain_step env mid (m_thread m) cid
                 ((case m_hop m of None \<Rightarrow> 0 | Some h \<Rightarrow> h) + 1) targets)))))"

definition orchestrate :: "chat_env \<Rightarrow> js \<Rightarrow> js \<Rightarrow> (chat_db, unit) eff" where
  "orchestrate env mid content =
     (if message_ok content
      then eff_catch (orchestrate_body env mid (the_str content)) (\<lambda>_. ret ()) else ret ())"

definition already_terminal :: "chat_env \<Rightarrow> js \<Rightarrow> (chat_db, reply) eff" where
  "already_terminal env mid =
     eff_bind (get_msg env mid) (\<lambda>row.
       ret (case row of None \<Rightarrow> Fail 404 ''unknown_message'' | Some _ \<Rightarrow> CallbackDone False))"

definition callback_thinking :: "chat_env \<Rightarrow> js \<Rightarrow> js \<Rightarrow> (chat_db, reply) eff" where
  "callback_thinking env mid body =
     eff_bind (thinking_update env mid body) (\<lambda>n.
       if n = 0 then already_terminal env mid
       else eff_seq (touch_thread_of env mid) (ret (CallbackDone True)))"

definition callback_final :: "chat_env \<Rightarrow> bool \<Rightarrow> js \<Rightarrow> js \<Rightarrow> msg_status \<Rightarrow> (chat_db, reply) eff" where
  "callback_final env journal mid body st =
     eff_bind (final_update env mid body st) (\<lambda>n.
       if n = 0 then already_terminal env mid
       else eff_seq (title_thread_of env mid)
         (eff_seq (if st = Complete \<and> truthy (js_get body ''content'') \<and> journal
                   then silent_read env mid else ret ())
         (eff_seq (batch_check env mid)
         (eff_seq (elevated_tag env mid)
         (eff_seq (if st = Complete then orchestrate env mid (js_get body ''content'') else ret ())
           (ret (CallbackDone True)))))))"

text \<open>
  \<open>chatCallbackHandler\<close>; \<open>journal\<close> says that the knowledge service's token is configured. It
  has no \<open>try\<close> of its own: what it throws is the router's 500.
\<close>

definition chat_callback :: "chat_env \<Rightarrow> bool \<Rightarrow> string option \<Rightarrow> js \<Rightarrow> (chat_db, reply) eff" where
  "chat_callback env journal hdr body =
     (if \<not> token_configured env then ret (Fail 503 ''callback_not_configured'')
      else (case hdr of
        None \<Rightarrow> ret (Fail 401 ''unauthorized'')
      | Some h \<Rightarrow>
          if \<not> startsWith h ''Bearer '' then ret (Fail 401 ''unauthorized'')
          else if Some (slice_from 7 h) \<noteq> callback_token env then ret (Fail 401 ''unauthorized'')
          else (let mid = js_get body ''message_id''; st = js_get body ''status'' in
            if \<not> truthy mid then ret (Fail 400 ''message_id is required'')
            else if \<not> nullish (js_get body ''idempotency_key'')
            then ret (Fail 400 ''idempotency_key is not allowed in callback'')
            else if st = Str ''thinking'' then callback_thinking env mid body
            else callback_final env journal mid body (if st = Str ''error'' then Error else Complete))))"

section \<open>The sweeper\<close>

definition sweep :: "chat_env \<Rightarrow> (chat_db, nat) eff" where
  "sweep env = eff_catch (sweep_stale env) (\<lambda>_. ret 0)"

section \<open>Operations as a whole\<close>

datatype chat_op =
    CreateThread caller js
  | UpdateThread caller js js
  | RemoveThread caller js
  | UpdateParticipants caller js js
  | SendMessage caller js js
  | CancelMessages caller js
  | ReadThread caller js "nat option" nat
  | Callback bool "string option" js
  | Sweep

fun chat_handler :: "chat_env \<Rightarrow> chat_op \<Rightarrow> (chat_db, reply) eff" where
  "chat_handler env (CreateThread c b) = create_thread env c b"
| "chat_handler env (UpdateThread c t b) = update_thread env c t b"
| "chat_handler env (RemoveThread c t) = remove_thread env c t"
| "chat_handler env (UpdateParticipants c t b) = update_participants env c t b"
| "chat_handler env (SendMessage c t b) = send_message env c t b"
| "chat_handler env (CancelMessages c t) = cancel_messages env c t"
| "chat_handler env (ReadThread c t b l) = read_thread env c t b l"
| "chat_handler env (Callback j h b) = chat_callback env j h b"
| "chat_handler env Sweep = eff_bind (sweep env) (\<lambda>n. ret (Cancelled n))"

text \<open>One operation under its own environment (time passes between operations) and its own faults.\<close>

type_synonym chat_event = "chat_env \<times> bool list \<times> chat_op"

definition chat_step :: "chat_event \<Rightarrow> chat_db \<Rightarrow> chat_db" where
  "chat_step ev d =
     (case ev of (env, fs, op) \<Rightarrow> db (snd (chat_handler env op \<lparr>faults = fs, db = d\<rparr>)))"

end
