(* ===== verification/ChatClosed.thy ===== *)
theory ChatClosed
  imports Chat
begin

text \<open>
  The interface between the statements and the handlers. A predicate on the tables that every
  statement keeps (\<open>statement_closed\<close>) is kept by every handler, under every schedule of
  faults; \<open>hop_ok\<close> is the condition under which a placeholder is inserted with a chain hop.
  The thread deletion, which loses rows, is a law of the extension \<open>deletion_closed\<close>.
\<close>

locale statement_closed =
  fixes I :: "chat_db \<Rightarrow> bool"
    and hop_ok :: "int \<Rightarrow> bool"
    and req_ok :: "dispatch_req \<Rightarrow> bool"
  assumes thread_ins: "I d \<Longrightarrow> thread_insert env ty ti sub ld d = Inr (t, d') \<Longrightarrow> I d'"
    and parts_ins: "I d \<Longrightarrow> participants_insert ps d = Inr (u, d') \<Longrightarrow> I d'"
    and upsert: "I d \<Longrightarrow> participant_upsert env tid v d = Inr (u, d') \<Longrightarrow> I d'"
    and leave: "I d \<Longrightarrow> participant_leave env tid v d = Inr (u, d') \<Longrightarrow> I d'"
    and msg_ins: "I d \<Longrightarrow> (\<And>h. m_hop row = Some h \<Longrightarrow> hop_ok h) \<Longrightarrow>
      insert_msg env row d = Inr (m, d') \<Longrightarrow> I d'"
    and bump: "I d \<Longrightarrow> update_ok P f \<Longrightarrow> (\<And>m. m_hop (f m) = m_hop m) \<Longrightarrow>
      bump_where P f d = (n, d') \<Longrightarrow> I d'"
    and threads: "I d \<Longrightarrow> (\<And>x. t_id (g x) = t_id x) \<Longrightarrow> I (update_threads Q g d)"
    and root: "I d \<Longrightarrow> I (set_chain_root cid i d)"
    and push: "I d \<Longrightarrow> req_ok r \<Longrightarrow> I (push_request r d)"
    and next_id: "I d \<Longrightarrow> I (d\<lparr>d_ids := Suc (d_ids d)\<rparr>)"
begin

subsection \<open>Statements\<close>

lemma on_uuid_keeps [intro]: "keeps I (on_uuid env v f)"
  unfolding on_uuid_def by (rule keeps_query) (auto split: sum.splits)

lemma reads [intro]:
  "keeps I (is_participant env tid sub admin)" "keeps I (is_thread_owner env tid sub admin)"
  "keeps I (get_agent_for_dispatch env v)" "keeps I (get_thread_agents env v)"
  "keeps I (get_thread_type env v)" "keeps I (get_elevated_scope env v)"
  "keeps I (has_pending env v a)" "keeps I (load_history env v)" "keeps I (get_msg env v)"
  "keeps I (list_participants env v)"
  unfolding is_participant_def is_thread_owner_def get_agent_for_dispatch_def get_thread_agents_def
    get_thread_type_def get_elevated_scope_def has_pending_def load_history_def get_msg_def
    list_participants_def
  by auto

lemma resolve_keeps [intro]: "keeps I (resolve_agent_slugs env tid slugs)"
  unfolding resolve_agent_slugs_def
  by (intro keeps_if keeps_ret keeps_query) (auto split: sum.splits option.splits)

lemma infos_keeps [intro]: "keeps I (thread_agent_infos env tid)"
  unfolding thread_agent_infos_def
  by (intro keeps_query) (auto split: sum.splits option.splits)

lemma inserts [intro]:
  "keeps I (insert_thread env ty ti sub ld)" "keeps I (insert_participants ps)"
  "keeps I (upsert_participant env tid v)" "keeps I (leave_thread env tid v)"
  "keeps I (insert_user_msg env i sub content key targets)"
  unfolding insert_thread_def insert_participants_def upsert_participant_def leave_thread_def
    insert_user_msg_def
  by (rule keeps_query, erule (1) thread_ins parts_ins upsert leave)+
    (rule keeps_query, rule msg_ins, auto simp: blank_msg_def)

lemma placeholder_keeps [intro]:
  "(\<And>c h t. ch = Some (c, h, t) \<Longrightarrow> hop_ok h) \<Longrightarrow> keeps I (insert_placeholder env tid a r ch)"
  unfolding insert_placeholder_def
  by (rule keeps_query, rule msg_ins) (auto simp: blank_msg_def)

lemma bump_query_keeps:
  "update_ok P f \<Longrightarrow> (\<And>m. m_hop (f m) = m_hop m) \<Longrightarrow> keeps I (bump_query P f)"
  unfolding bump_query_def by (rule keeps_query) (auto intro: bump)

lemma fail_hop [simp]: "m_hop (fail_with why m) = m_hop m"
  by (simp add: fail_with_def)

lemma bump_uuid_keeps:
  "(\<And>u. update_ok (P u) f) \<Longrightarrow> (\<And>m. m_hop (f m) = m_hop m) \<Longrightarrow>
     keeps I (db_query (\<lambda>d. case uuid_param env v of Inl e \<Rightarrow> Inl e | Inr u \<Rightarrow> Inr (bump_where (P u) f d)))"
  by (rule keeps_query) (auto split: sum.splits intro: bump)

lemma failing [intro]:
  "keeps I (mark_failed i why)" "keeps I (mark_stale ids)"
  "keeps I (fail_pending_of env tid v)" "keeps I (cancel_pending env tid)"
  unfolding mark_failed_def mark_stale_def fail_pending_of_def cancel_pending_def
  by (rule bump_query_keeps bump_uuid_keeps; rule update_ok_fail fail_hop; blast)+

lemma thread_updates [intro]:
  "keeps I (promote_to_group env tid)" "keeps I (touch_thread_of env tid)"
  "keeps I (title_thread_of env tid)"
  unfolding promote_to_group_def touch_thread_of_def title_thread_of_def touch_thread_def
    touch_and_title_def
  by (rule keeps_query; auto split: sum.splits intro!: threads)+

lemma callback_row_facts:
  "callback_row env body st = Some f \<Longrightarrow> frozen m (f m) \<and> m_status (f m) = st \<and> m_hop (f m) = m_hop m"
  by (auto simp: callback_row_def Let_def frozen_def split: option.splits if_splits)

lemma update_open_keeps:
  assumes "\<And>f (m :: msg). g = Some f \<Longrightarrow> frozen m (f m) \<and> m_status (f m) \<noteq> Pending \<and> m_hop (f m) = m_hop m"
  shows "keeps I (update_open env mid g)"
proof (cases g)
  case None
  then show ?thesis unfolding update_open_def by (auto intro!: keeps_query split: sum.splits)
next
  case (Some f)
  have ok: "update_ok (\<lambda>m. Some (m_id m) = u \<and> open_status (m_status m)) f" for u
    unfolding update_ok_def
  proof (intro allI impI)
    fix m :: msg assume "Some (m_id m) = u \<and> open_status (m_status m)"
    then show "frozen m (f m) \<and> status_rank (m_status m) \<le> status_rank (m_status (f m)) \<and>
        (terminal_status (m_status m) \<longrightarrow> visible (f m) = visible m)"
      using assms [OF Some, of m]
      by (cases "m_status (f m)") (auto simp: open_status_def terminal_status_def)
  qed
  show ?thesis unfolding update_open_def Some option.case
    by (rule bump_uuid_keeps [OF ok]) (use assms [OF Some] in blast)
qed

lemma callback_updates [intro]:
  "keeps I (thinking_update env mid body)"
  "st \<noteq> Pending \<Longrightarrow> keeps I (final_update env mid body st)"
  unfolding thinking_update_def final_update_def Let_def
  by (rule update_open_keeps,
      auto dest!: callback_row_facts simp: with_error_def frozen_def split: if_splits)+

lemma batch_keeps [intro]: "keeps I (mark_batch_complete env mid)"
  unfolding mark_batch_complete_def
  by (rule bump_uuid_keeps) (auto simp: update_ok_def set_batch_def frozen_def visible_def)

lemma root_keeps [intro]: "keeps I (backfill_chain env cid mid)"
  unfolding backfill_chain_def by (rule keeps_query) (auto intro: root split: sum.splits)

lemma sweep_keeps [intro]: "keeps I (sweep_stale env)"
  unfolding sweep_stale_def
  by (rule bump_query_keeps)
    (auto simp: update_ok_def is_stale_def open_status_def terminal_status_def sweep_row_def
      fail_with_def frozen_def)

lemma push_keeps [intro]: "req_ok r \<Longrightarrow> keeps I (local_step (push_request r))"
  by (rule keeps_local) (rule push)

subsection \<open>Dispatching\<close>

lemma mark_logged_keeps [intro]: "keeps I (mark_failed_logged i why)"
  unfolding mark_failed_logged_def by auto

lemma placeholders_keep:
  assumes "\<And>c h t. do_chain opts = Some (c, h, t) \<Longrightarrow> hop_ok h"
  shows "keeps I (create_placeholders env opts)"
  unfolding create_placeholders_def
  by (intro keeps_map keeps_bind keeps_ret placeholder_keeps) (rule assms)

lemma placeholders_yield:
  assumes "\<And>c h t. do_chain opts = Some (c, h, t) \<Longrightarrow> hop_ok h"
  shows "yields I (create_placeholders env opts) (\<lambda>ps. fst ` set ps \<subseteq> set (do_agents opts))"
proof (rule yieldsI)
  fix w ps and w' :: "chat_db world"
  have "yields I (create_placeholders env opts) (list_all2 (\<lambda>a p. fst p = a) (do_agents opts))"
    unfolding create_placeholders_def
    by (intro yields_map keeps_bind keeps_ret placeholder_keeps yields_bind [where R = "\<lambda>_. True"]
        yields_ret yields_any) (use assms in auto)
  moreover assume "I (db w)" "create_placeholders env opts w = (Inr ps, w')"
  ultimately have "list_all2 (\<lambda>a p. fst p = a) (do_agents opts) ps" by (rule yieldsD)
  then show "fst ` set ps \<subseteq> set (do_agents opts)" by (auto dest: list_all2_set2)
qed

lemma dispatch_keeps_if:
  assumes hop: "\<And>c h t. do_chain opts = Some (c, h, t) \<Longrightarrow> hop_ok h"
    and req: "\<And>a mid. a \<in> set (do_agents opts) \<Longrightarrow> req_ok (make_request env opts a mid)"
  shows "keeps I (dispatch_to_agents env opts)"
proof -
  have settle: "keeps I (settle_one env opts am)" for am
    unfolding settle_one_def by auto
  have push: "keeps I (local_step (push_request (make_request env opts (fst am) (snd am))))"
    if "am \<in> set ps" "fst ` set ps \<subseteq> set (do_agents opts)" for am ps
    using that req by (intro push_keeps) auto
  show ?thesis unfolding dispatch_to_agents_def Let_def
  proof (rule keeps_bind_val)
    show "keeps I (create_placeholders env opts)" using hop by (rule placeholders_keep)
    show "yields I (create_placeholders env opts) (\<lambda>ps. fst ` set ps \<subseteq> set (do_agents opts))"
      using hop by (rule placeholders_yield)
  qed (intro keeps_bind keeps_if keeps_seq keeps_for keeps_ret keeps_map mark_logged_keeps settle,
      rule push)
qed

subsection \<open>Handlers\<close>

lemma or_keeps [intro]: "keeps I (or_conflict what e)" "keeps I (or_500 what e)"
  unfolding or_conflict_def or_500_def by auto

lemma lookup_keeps [intro]: "keeps I (lookup_agents env vs)"
  by (induction vs) auto

lemma deny_keeps [intro]: "keeps I (elevated_deny env admin as)" "keeps I (elevated_deny_ids env admin vs)"
  by (induction as, auto) (induction vs, auto)

lemma thread_writes_keeps [intro]: "keeps I (thread_writes env c ty title lead key content agents)"
  unfolding thread_writes_def by (intro keeps_transaction keeps_bind keeps_seq keeps_ret inserts)

lemma message_writes_keeps [intro]: "keeps I (message_writes env c tid content key targets)"
  unfolding message_writes_def touch_thread_def
  by (intro keeps_transaction keeps_bind keeps_seq keeps_ret inserts keeps_query)
    (auto split: sum.splits intro!: threads)

lemma patch_keeps [intro]: "keeps I (db_query (thread_patch env tid title lead))"
  by (rule keeps_query)
    (auto simp: thread_patch_def apply_patch_def Let_def split: sum.splits if_splits intro!: threads)

lemma update_thread_keeps [intro]: "keeps I (update_thread env c tid body)"
  unfolding update_thread_def update_thread_body_def Let_def
  by (intro keeps_catch keeps_option keeps_if keeps_ret keeps_bind patch_keeps reads or_keeps)

lemma add_keeps [intro]: "keeps I (add_agents env c tid add)"
  unfolding add_agents_def
  by (intro keeps_bind keeps_if keeps_ret keeps_option keeps_prod keeps_seq keeps_for reads deny_keeps
      inserts thread_updates)

lemma remove_keeps [intro]: "keeps I (remove_agents env tid rem)"
  unfolding remove_agents_def by (intro keeps_for keeps_seq failing inserts)

lemma update_participants_keeps [intro]: "keeps I (update_participants env c tid body)"
proof -
  have "keeps I (case js_get body ''add'' of Arr add \<Rightarrow> add_agents env c tid add | _ \<Rightarrow> ret None)"
    by (cases "js_get body ''add''") auto
  moreover have "keeps I (case js_get body ''remove'' of Arr rem \<Rightarrow> remove_agents env tid rem | _ \<Rightarrow> ret ())"
    by (cases "js_get body ''remove''") auto
  ultimately show ?thesis
    unfolding update_participants_def update_participants_body_def
    by (intro keeps_catch keeps_bind keeps_if keeps_ret keeps_option keeps_seq reads or_keeps)
qed

lemma targets_keeps [intro]: "keeps I (message_targets env tid slugs allids)"
  unfolding message_targets_def by (intro keeps_if keeps_ret keeps_bind keeps_list resolve_keeps)

lemma load_keeps [intro]: "keeps I (load_agents env ps)"
  by (induction ps) auto

lemma classify_keeps [intro]: "keeps I (classify env tid as)"
  by (induction as) auto

lemma cancel_keeps [intro]: "keeps I (cancel_messages env c tid)"
  unfolding cancel_messages_def by (intro keeps_catch keeps_bind keeps_if keeps_ret reads failing or_keeps)

lemma read_thread_keeps [intro]: "keeps I (read_thread env c tid before limit)"
  unfolding read_thread_def read_thread_body_def Let_def
  by (intro keeps_catch keeps_bind keeps_option keeps_seq keeps_if keeps_ret reads on_uuid_keeps failing
      or_keeps)

lemma batch_check_keeps [intro]: "keeps I (batch_check env mid)"
proof -
  have inner: "keeps I (eff_bind (db_read (siblings r)) (\<lambda>(tot, term).
              if 0 < tot \<and> term = tot then eff_bind (mark_batch_complete env mid) (\<lambda>_. ret ()) else ret ()))" for r
    by (intro keeps_bind keeps_read keeps_prod keeps_if keeps_ret batch_keeps)
  have "keeps I (case row of Some (Some r, Group) \<Rightarrow>
            eff_bind (db_read (siblings r)) (\<lambda>(tot, term).
              if 0 < tot \<and> term = tot then eff_bind (mark_batch_complete env mid) (\<lambda>_. ret ()) else ret ())
        | _ \<Rightarrow> ret ())" for row
    using inner by (simp split: option.split prod.split thread_type.split add: keeps_ret)
  then show ?thesis unfolding batch_check_def by (intro keeps_catch keeps_bind keeps_ret on_uuid_keeps)
qed

lemma silent_keeps [intro]: "keeps I (silent_read env mid)" "keeps I (elevated_tag env mid)"
  unfolding silent_read_def elevated_tag_def
  by (intro keeps_catch keeps_bind keeps_option keeps_if keeps_ret reads)+

lemma eligible_keeps [intro]: "keeps I (eligible_agents env tid ps)"
proof (induction ps)
  case (Cons p ps)
  then show ?case unfolding eligible_agents.simps
    by (intro keeps_bind keeps_if keeps_option keeps_ret reads)
qed (simp add: keeps_ret)

lemma chain_of_keeps [intro]: "keeps I (chain_of env mid m)"
  unfolding chain_of_def
  by (intro keeps_option keeps_ret keeps_bind keeps_peek keeps_seq keeps_local root_keeps next_id)

end

text \<open>The handlers, once the hop budget is a law and any request may be posted.\<close>

locale chat_closed = statement_closed +
  fixes env :: chat_env
  assumes budget: "int_le_num h (max_hops env) \<Longrightarrow> hop_ok h"
    and any_req: "req_ok r"
begin

lemma dispatch_keeps:
  "(\<And>c h t. do_chain opts = Some (c, h, t) \<Longrightarrow> hop_ok h) \<Longrightarrow> keeps I (dispatch_to_agents env' opts)"
  by (rule dispatch_keeps_if) (auto simp: any_req)

lemma create_store_keeps [intro]: "keeps I (create_store env' c body ty agents)"
  unfolding create_store_def Let_def
  by (intro keeps_if keeps_ret keeps_bind keeps_prod thread_writes_keeps dispatch_keeps) simp

lemma create_thread_keeps [intro]: "keeps I (create_thread env' c body)"
  unfolding create_thread_def create_thread_body_def create_checked_def Let_def
  by (intro keeps_catch keeps_option keeps_if keeps_ret keeps_bind keeps_sum keeps_prod lookup_keeps
      deny_keeps create_store_keeps or_keeps)

lemma send_dispatch_keeps [intro]: "keeps I (send_dispatch env' tid ty lead allids m ds sk)"
  unfolding send_dispatch_def Let_def
  by (intro keeps_bind keeps_if keeps_ret reads load_keeps dispatch_keeps) simp

lemma send_checked_keeps [intro]: "keeps I (send_checked env' c tid body content ty lead allids tg as)"
  unfolding send_checked_def send_classified_def
  by (intro keeps_bind keeps_option keeps_prod keeps_if keeps_ret deny_keeps classify_keeps
      message_writes_keeps send_dispatch_keeps)

lemma send_message_keeps [intro]: "keeps I (send_message env' c tid body)"
  unfolding send_message_def send_message_body_def send_targets_def Let_def
  by (intro keeps_catch keeps_bind keeps_option keeps_prod keeps_sum keeps_if keeps_ret reads targets_keeps
      load_keeps send_checked_keeps or_keeps)


lemma chain_keeps [intro]: "keeps I (chain_step env mid tid cid hop targets)"
proof (cases "int_le_num hop (max_hops env)")
  case True
  then have "keeps I (chain_dispatch env mid tid cid hop as)" for as
    unfolding chain_dispatch_def Let_def
    by (intro keeps_bind keeps_if keeps_ret reads infos_keeps dispatch_keeps) (simp add: budget)
  then show ?thesis unfolding chain_step_def Let_def
    by (intro keeps_bind keeps_if keeps_ret keeps_read eligible_keeps)
next
  case False
  then show ?thesis by (simp add: chain_step_def keeps_ret)
qed

lemma orchestrate_keeps [intro]: "keeps I (orchestrate env mid content)"
  unfolding orchestrate_def orchestrate_body_def Let_def
  by (intro keeps_if keeps_catch keeps_bind keeps_option keeps_ret reads resolve_keeps chain_of_keeps
      chain_keeps)

lemma callback_keeps [intro]: "keeps I (chat_callback env journal hdr body)"
  unfolding chat_callback_def callback_thinking_def callback_final_def already_terminal_def Let_def
  by (intro keeps_if keeps_option keeps_ret keeps_bind keeps_seq callback_updates reads thread_updates
      silent_keeps batch_check_keeps orchestrate_keeps) simp_all

lemma handler_keeps:
  "(\<And>c t. op \<noteq> RemoveThread c t) \<Longrightarrow> keeps I (chat_handler env op)"
  by (cases op) (auto simp: sweep_def)

end

text \<open>With a deletion among the operations.\<close>

locale deletion_closed = chat_closed +
  assumes deleted: "I d \<Longrightarrow> thread_delete env tid d = Inr (n, d') \<Longrightarrow> I d'"
begin

lemma remove_thread_keeps [intro]: "keeps I (remove_thread env c tid)"
proof -
  have "keeps I (delete_thread env tid)" unfolding delete_thread_def by (rule keeps_query) (rule deleted)
  then show ?thesis unfolding remove_thread_def remove_thread_body_def
    by (intro keeps_catch keeps_bind keeps_if keeps_ret keeps_seq reads or_keeps)
qed

lemma all_handlers_keep: "keeps I (chat_handler env op)"
proof (cases "\<exists>c t. op = RemoveThread c t")
  case True
  then show ?thesis using remove_thread_keeps by auto
next
  case False
  then show ?thesis by (intro handler_keeps) blast
qed

end

end
