(* ===== verification/ChatDemo.thy ===== *)
theory ChatDemo
  imports ChatClosed
begin

text \<open>
  A small state of the chat tables on which the witnesses of the chat properties are
  evaluated: two threads, three running agents (one with an elevated skill), an open and a
  finished message. The uuid reader of this environment accepts every non-empty string.
\<close>

definition demo_env :: chat_env where
  "demo_env = \<lparr>uuid_in = (\<lambda>s. if s = [] then None else Some s), pg_text = (\<lambda>_. ''v''),
     pg_int = (\<lambda>_. None), gen_id = (\<lambda>n. replicate n (CHR ''g'')), post_work = (\<lambda>_. HttpOk True),
     callback_token = Some ''secret'', default_model = ''model'', max_hops = Fin 5,
     max_chain_ms = Fin 60000, now = 1000000\<rparr>"

definition demo_agent :: "string \<Rightarrow> string option list \<Rightarrow> agent" where
  "demo_agent i scopes = \<lparr>a_id = i, a_slug = ''s'' @ i, a_name = [], a_status = ''running'',
     a_work_token = Some ''tok'', a_models = Null, a_scopes = scopes, a_owner = Some ''u1''\<rparr>"

definition demo_thread :: "string \<Rightarrow> thread_type \<Rightarrow> thread" where
  "demo_thread i ty = \<lparr>t_id = i, t_type = ty, t_title = None, t_created_by = ''u1'', t_lead = None,
     t_created = 0, t_updated = 0\<rparr>"

definition demo_part :: "string \<Rightarrow> string \<Rightarrow> party \<Rightarrow> party_role \<Rightarrow> participant" where
  "demo_part t i k r = \<lparr>p_thread = t, p_id = i, p_kind = k, p_role = r, p_joined = 0, p_left = None\<rparr>"

definition demo_msg :: "string \<Rightarrow> nat \<Rightarrow> string \<Rightarrow> party \<Rightarrow> msg_status \<Rightarrow> msg" where
  "demo_msg i n who k st = blank_msg\<lparr>m_id := i, m_seq := n, m_thread := ''t1'', m_author := who,
     m_kind := k, m_content := ''hello'', m_status := st\<rparr>"

definition demo_db :: chat_db where
  "demo_db = \<lparr>d_threads = [demo_thread ''t1'' Group, demo_thread ''t2'' Direct],
     d_parts = [demo_part ''t1'' ''u1'' Human Owner, demo_part ''t1'' ''a1'' Agent Member,
                demo_part ''t1'' ''a2'' Agent Member, demo_part ''t2'' ''u1'' Human Owner,
                demo_part ''t2'' ''a3'' Agent Member],
     d_msgs = [demo_msg ''m1'' 1 ''u1'' Human Complete, demo_msg ''m2'' 2 ''a1'' Agent Thinking,
               demo_msg ''m3'' 3 ''a2'' Agent Pending],
     d_agents = [demo_agent ''a1'' [], demo_agent ''a2'' [None],
                 demo_agent ''a3'' [Some ''host_docker'']],
     d_seq = 3, d_ids = 5, d_outbox = []\<rparr>"

definition demo_user :: caller where
  "demo_user = \<lparr>c_sub = ''u1'', c_admin = False\<rparr>"

lemma demo_inv: "chat_inv demo_db"
  by code_simp

end
