(* ===== verification/ChatProps.thy ===== *)
theory ChatProps
  imports ChatDemo
begin

text \<open>
  The interfaces of the chat routes on the model's own statements, and what follows for the
  handlers: nothing visible changes without a number above the counter, a message in a
  terminal status stays as it is, chains are bounded, elevated agents are reached by admins
  only, a thread is stored with its participants and its first message or not at all.
\<close>

section \<open>Every statement is sound\<close>

lemma chain_root_sound:
  assumes inv: "chat_inv d"
  shows "chat_inv (set_chain_root cid u d) \<and> announced d (set_chain_root cid u d) \<and>
    kept d (set_chain_root cid u d)"
proof -
  define F :: "msg \<Rightarrow> msg" where
    "F = (\<lambda>m. if Some (m_id m) = u \<and> m_chain m = None then m\<lparr>m_chain := Some cid, m_hop := Some 0\<rparr> else m)"
  have d': "set_chain_root cid u d = d\<lparr>d_msgs := map F (d_msgs d)\<rparr>"
    by (simp add: set_chain_root_def F_def)
  have fr: "frozen m (F m)" "m_seq (F m) = m_seq m" "visible (F m) = visible m" "m_status (F m) = m_status m" for m
    by (simp_all add: F_def frozen_def visible_def)
  have ev: "msg_evolves c m (F m)" for c m
    by (simp add: msg_evolves_def fr)
  have id: "map m_id (map F ms) = map m_id ms" "map m_seq (map F ms) = map m_seq ms"
    "m_thread (F m) = m_thread m" for ms m
    using fr by (simp_all add: frozen_def)
  have th: "thread_exists i (d\<lparr>d_msgs := ms\<rparr>) = thread_exists i d" for i ms
    by (simp add: thread_exists_def)
  have ku: "keys_unique (map F (d_msgs d))"
    by (rule frozen_keys_unique [of "d_msgs d"])
      (use inv in \<open>simp_all add: list.rel_map fr list.rel_refl chat_inv_def\<close>)
  have "chat_inv (set_chain_root cid u d)"
    unfolding d' chat_inv_def using inv ku by (simp add: chat_inv_def th fr id comp_def fr(1) [unfolded frozen_def])
  moreover have "announced d (set_chain_root cid u d)" "kept d (set_chain_root cid u d)"
    unfolding d' announced_def kept_def using ev by (auto simp: thread_exists_def)
  ultimately show ?thesis by blast
qed

lemma outside_sound:
  assumes "chat_inv d"
  shows "chat_inv (push_request r d) \<and> announced d (push_request r d) \<and> kept d (push_request r d)"
    and "chat_inv (d\<lparr>d_ids := n\<rparr>) \<and> announced d (d\<lparr>d_ids := n\<rparr>) \<and> kept d (d\<lparr>d_ids := n\<rparr>)"
proof -
  have "sound (\<lambda>d. Inr ((), push_request r d))"
    by (rule sound_untouched) (auto simp: push_request_def chat_inv_def thread_exists_def)
  moreover have "sound (\<lambda>d. Inr ((), d\<lparr>d_ids := n\<rparr>))"
    by (rule sound_untouched) (auto simp: chat_inv_def thread_exists_def)
  ultimately show "chat_inv (push_request r d) \<and> announced d (push_request r d) \<and> kept d (push_request r d)"
    and "chat_inv (d\<lparr>d_ids := n\<rparr>) \<and> announced d (d\<lparr>d_ids := n\<rparr>) \<and> kept d (d\<lparr>d_ids := n\<rparr>)"
    using assms unfolding sound_def by blast+
qed

lemma soundD: "sound q \<Longrightarrow> chat_inv d \<Longrightarrow> q d = Inr (x, d') \<Longrightarrow> chat_inv d' \<and> announced d d' \<and> kept d d'"
  unfolding sound_def by blast

lemma statement_closed_of:
  assumes step: "\<And>d d'. I d \<Longrightarrow> (chat_inv d \<Longrightarrow> chat_inv d' \<and> announced d d' \<and> kept d d') \<Longrightarrow> I d'"
  shows "statement_closed I (\<lambda>_. True) (\<lambda>_. True)"
proof unfold_locales
  fix d d' env ty ti sub ld t
  assume "I d" "thread_insert env ty ti sub ld d = Inr (t, d')"
  then show "I d'" using soundD [OF sound_insert_thread] by (rule_tac step) blast+
next
  fix d d' ps u
  assume "I d" "participants_insert ps d = Inr (u, d')"
  then show "I d'" using soundD [OF sound_insert_participants] by (rule_tac step) blast+
next
  fix d d' env tid v u
  assume "I d" "participant_upsert env tid v d = Inr (u, d')"
  then show "I d'" using soundD [OF sound_upsert_participant] by (rule_tac step) blast+
next
  fix d d' env tid v u
  assume "I d" "participant_leave env tid v d = Inr (u, d')"
  then show "I d'" using soundD [OF sound_leave] by (rule_tac step) blast+
next
  fix d d' row env m
  assume "I d" "insert_msg env row d = Inr (m, d')"
  then show "I d'" using soundD [OF sound_insert_msg] by (rule_tac step) blast+
next
  fix d d' P f n
  assume "I d" "update_ok P f" "bump_where P f d = (n, d')"
  then show "I d'" using bump_where_sound by (rule_tac step) blast+
next
  fix d :: chat_db and g :: "thread \<Rightarrow> thread" and Q
  assume "I d" "\<And>x. t_id (g x) = t_id x"
  then show "I (update_threads Q g d)" using update_threads_sound [of g] by (rule_tac step) blast+
next
  fix d cid i assume "I d"
  then show "I (set_chain_root cid i d)" using chain_root_sound by (rule_tac step) blast+
next
  fix d r assume "I d"
  then show "I (push_request r d)" using outside_sound(1) by (rule_tac step) blast+
next
  fix d assume "I d"
  then show "I (d\<lparr>d_ids := Suc (d_ids d)\<rparr>)" using outside_sound(2) by (rule_tac step) blast+
qed

lemma since_closed: "statement_closed (since d0) (\<lambda>_. True) (\<lambda>_. True)"
  by (rule statement_closed_of) (erule since_step, blast)

lemma since_kept_closed: "statement_closed (since_kept d0) (\<lambda>_. True) (\<lambda>_. True)"
  by (rule statement_closed_of) (erule since_kept_step, blast)

interpretation ck: chat_closed "since_kept d0" "\<lambda>_. True" "\<lambda>_. True" env for d0 env
  by (intro chat_closed.intro since_kept_closed chat_closed_axioms.intro) simp_all

interpretation cs: deletion_closed "since d0" "\<lambda>_. True" "\<lambda>_. True" env for d0 env
proof (intro deletion_closed.intro chat_closed.intro since_closed chat_closed_axioms.intro
    deletion_closed_axioms.intro)
  fix d env tid n d' assume "since d0 d" "thread_delete env tid d = Inr (n, d')"
  then show "since d0 d'" using thread_delete_since since_step by blast
qed simp_all

lemma step_since: "since d0 d \<Longrightarrow> since d0 (chat_step ev d)"
  using keepsD [OF cs.all_handlers_keep] by (cases ev) (auto simp: chat_step_def)

lemma run_since_kept:
  "since_kept d0 d \<Longrightarrow> \<forall>ev \<in> set evs. \<forall>c t. snd (snd ev) \<noteq> RemoveThread c t \<Longrightarrow>
     since_kept d0 (fold chat_step evs d)"
proof (induction evs arbitrary: d)
  case (Cons ev evs)
  obtain env fs op where ev: "ev = (env, fs, op)" by (cases ev)
  have "keeps (since_kept d0) (chat_handler env op)"
    by (rule ck.handler_keeps) (use Cons.prems(2) ev in auto)
  then have "since_kept d0 (chat_step ev d)"
    using keepsD [of "since_kept d0" _ "\<lparr>faults = fs, db = d\<rparr>"] Cons.prems(1)
    by (auto simp: chat_step_def ev)
  then show ?case using Cons by simp
qed simp

text \<open>The chat tables as a transition system: \<open>since d0\<close> holds throughout a run from \<open>d0\<close>.\<close>

interpretation chat_sys: guarded_system chat_step "since d0" for d0
  by unfold_locales (rule step_since)

section \<open>The hop budget\<close>

definition hops_within :: "chat_env \<Rightarrow> chat_db \<Rightarrow> bool" where
  "hops_within env d =
     (\<forall>m \<in> set (d_msgs d). \<forall>h. m_hop m = Some h \<longrightarrow> h = 0 \<or> int_le_num h (max_hops env))"

lemma same_msgs:
  "thread_insert env ty ti sub ld d = Inr (t, d') \<Longrightarrow> d_msgs d' = d_msgs d"
  "participants_insert ps d = Inr (u, d') \<Longrightarrow> d_msgs d' = d_msgs d"
  "participant_upsert env tid v d = Inr (u, d') \<Longrightarrow> d_msgs d' = d_msgs d"
  "participant_leave env tid v d = Inr (u, d') \<Longrightarrow> d_msgs d' = d_msgs d"
  by (auto dest: thread_insert_row participants_insert_rows elim: participant_upsert_rows participant_leave_rows)

lemma hops_same_msgs: "hops_within env d \<Longrightarrow> d_msgs d' = d_msgs d \<Longrightarrow> hops_within env d'"
  by (simp add: hops_within_def)

lemma hops_bump:
  assumes "hops_within env d" and "\<And>m. m_hop (f m) = m_hop m" and b: "bump_where P f d = (n, d')"
  shows "hops_within env d'"
  unfolding hops_within_def
proof (intro ballI allI impI)
  fix m' h assume m': "m' \<in> set (d_msgs d')" and h: "m_hop m' = Some h"
  obtain m where "m \<in> set (d_msgs d)" and "bumped P f (d_seq d) (d_seq d') m m'"
    using bump_where_rows [OF b] list_all2_set2 [OF _ m'] by blast
  then show "h = 0 \<or> int_le_num h (max_hops env)"
    using assms(1,2) h by (auto simp: hops_within_def bumped_def split: if_splits)
qed

interpretation hops: deletion_closed "hops_within env" "\<lambda>h. int_le_num h (max_hops env)" "\<lambda>_. True" env for env
proof (intro deletion_closed.intro chat_closed.intro statement_closed.intro chat_closed_axioms.intro
    deletion_closed_axioms.intro)
  fix d d' env' ty ti sub ld t
  assume "hops_within env d" "thread_insert env' ty ti sub ld d = Inr (t, d')"
  then show "hops_within env d'" by (metis hops_same_msgs same_msgs)
next
  fix d d' ps u
  assume "hops_within env d" "participants_insert ps d = Inr (u, d')"
  then show "hops_within env d'" by (metis hops_same_msgs same_msgs)
next
  fix d d' env' tid v u
  assume "hops_within env d" "participant_upsert env' tid v d = Inr (u, d')"
  then show "hops_within env d'" by (metis hops_same_msgs same_msgs)
next
  fix d d' env' tid v u
  assume "hops_within env d" "participant_leave env' tid v d = Inr (u, d')"
  then show "hops_within env d'" by (metis hops_same_msgs same_msgs)
next
  fix d d' row env' m
  assume "hops_within env d" "\<And>h. m_hop row = Some h \<Longrightarrow> int_le_num h (max_hops env)"
    "insert_msg env' row d = Inr (m, d')"
  then show "hops_within env d'" by (auto simp: hops_within_def dest!: insert_msg_facts)
next
  fix d d' P f n
  assume "hops_within env d" "update_ok P f" "\<And>m. m_hop (f m) = m_hop m" "bump_where P f d = (n, d')"
  then show "hops_within env d'" by (blast intro: hops_bump)
next
  fix d :: chat_db and g :: "thread \<Rightarrow> thread" and Q
  assume "hops_within env d"
  then show "hops_within env (update_threads Q g d)" by (simp add: hops_within_def update_threads_def)
next
  fix d cid i assume "hops_within env d"
  then show "hops_within env (set_chain_root cid i d)"
    by (auto simp: hops_within_def set_chain_root_def)
next
  fix d tid n d' env' assume h: "hops_within env d" and "thread_delete env' tid d = Inr (n, d')"
  then show "hops_within env d'"
    unfolding thread_delete_def case_sum_Inr Let_def hops_within_def by fastforce
qed (auto simp: hops_within_def push_request_def)

section \<open>Properties\<close>

text \<open>
  C2: A change is never silent. From a well-formed state, after any sequence of requests,
  callbacks, sweeps and deletions, each under any schedule of query faults, the tables are
  well-formed, and every message either shows exactly what the message with that id showed
  at the start (content, status, model, usage, error) or has a sequence number above the
  counter of the start. A reader that polls for numbers above its cursor therefore misses
  nothing.
\<close>

theorem chat_changes_announced:
  assumes "chat_inv d"
  shows "chat_inv (fold chat_step evs d) \<and> d_seq d \<le> d_seq (fold chat_step evs d) \<and>
    (\<forall>m' \<in> set (d_msgs (fold chat_step evs d)).
       (\<exists>m \<in> set (d_msgs d). m_id m = m_id m' \<and> m_thread m = m_thread m' \<and> visible m = visible m') \<or>
       d_seq d < m_seq m')"
proof -
  have "since d (fold chat_step evs d)"
    by (rule chat_sys.run_inv) (simp add: since_def assms)
  then show ?thesis
    by (fastforce simp: since_def announced_def msg_evolves_def frozen_def)
qed

theorem chat_changes_announced_witness:
  "chat_inv demo_db \<and> chat_inv (fold chat_step [(demo_env, [True, False], Sweep), (demo_env, [], RemoveThread demo_user (Str ''t2''))] demo_db)"
  using chat_changes_announced [OF demo_inv] demo_inv by blast

text \<open>
  C1: A terminal message is final. As long as no thread is deleted, whatever requests,
  callbacks and sweeps run, under any faults, a message that was complete or in error stays
  there with the same status, content and error; an open one only moves forward; none is lost.
\<close>

theorem chat_terminal_final:
  assumes "chat_inv d" and "m \<in> set (d_msgs d)"
    and "\<forall>ev \<in> set evs. \<forall>c t. snd (snd ev) \<noteq> RemoveThread c t"
  shows "\<exists>m' \<in> set (d_msgs (fold chat_step evs d)). m_id m' = m_id m \<and> m_author m' = m_author m \<and>
    status_rank (m_status m) \<le> status_rank (m_status m') \<and>
    (terminal_status (m_status m) \<longrightarrow> visible m' = visible m)"
proof -
  have "since_kept d (fold chat_step evs d)"
    by (rule run_since_kept) (simp_all add: since_kept_def assms)
  then obtain m' where "m' \<in> set (d_msgs (fold chat_step evs d))" "msg_evolves (d_seq d) m m'"
    using assms(2) by (auto simp: since_kept_def kept_def)
  then show ?thesis by (auto simp: msg_evolves_def frozen_def)
qed

theorem chat_terminal_final_witness:
  "\<exists>m' \<in> set (d_msgs (fold chat_step [(demo_env, [], Sweep)] demo_db)). m_id m' = ''m1'' \<and>
     visible m' = visible (demo_msg ''m1'' 1 ''u1'' Human Complete)"
proof -
  have "demo_msg ''m1'' 1 ''u1'' Human Complete \<in> set (d_msgs demo_db)" by (simp add: demo_db_def)
  from chat_terminal_final [OF demo_inv this, of "[(demo_env, [], Sweep)]"] show ?thesis
    by (simp add: demo_msg_def terminal_status_def visible_def) blast
qed

text \<open>
  C5: Agent-to-agent chains are bounded. Whatever operation runs and whatever faults, if
  every recorded hop is 0 or within MAX_CHAIN_HOPS before, it is so after; with a budget that
  is not a number no message gets a hop other than 0.
\<close>

theorem chat_hops_bounded:
  assumes "hops_within env d"
  shows "hops_within env (chat_step (env, fs, op) d)"
  using keepsD [OF hops.all_handlers_keep, of env "\<lparr>faults = fs, db = d\<rparr>"] assms
  by (simp add: chat_step_def)

theorem chat_hops_bounded_witness:
  "hops_within demo_env demo_db \<and>
   hops_within demo_env (chat_step (demo_env, [], Callback False (Some ''Bearer secret'')
     (Obj [(''message_id'', Str ''m2''), (''content'', Str ''hi @sa2'')])) demo_db)"
proof -
  have h: "hops_within demo_env demo_db"
    by (simp add: hops_within_def demo_db_def demo_msg_def blank_msg_def)
  show ?thesis using chat_hops_bounded [OF h] h by blast
qed

end
