(* ===== verification/ChatGate.thy ===== *)
theory ChatGate
  imports ChatDemo
begin

text \<open>
  Who can make work leave the process. \<open>only_plain A out d\<close> says that every request posted
  since the outbox was \<open>out\<close> went to an agent without an elevated skill (of the agents \<open>A\<close>).
  All statements keep it, a post keeps it when its target is plain, and each handler posts
  only to agents its own checks have cleared.
\<close>

section \<open>Plain requests\<close>

definition elevated_in :: "agent list \<Rightarrow> string \<Rightarrow> string option" where
  "elevated_in A i =
     (case find (\<lambda>a. a_id a = i) A of None \<Rightarrow> None | Some a \<Rightarrow> agent_elevated_scope (a_scopes a))"

definition only_plain :: "agent list \<Rightarrow> dispatch_req list \<Rightarrow> chat_db \<Rightarrow> bool" where
  "only_plain A out d =
     (d_agents d = A \<and>
      (\<exists>rs. d_outbox d = out @ rs \<and> (\<forall>r \<in> set rs. elevated_in A (rq_agent r) = None)))"

text \<open>
  Postgres reads back the uuids it stores: the documented round trip of the uuid type, for
  the ids of the agents at hand.
\<close>

definition ids_canonical :: "chat_env \<Rightarrow> agent list \<Rightarrow> bool" where
  "ids_canonical env A = (\<forall>a \<in> set A. uuid_in env (a_id a) = Some (a_id a))"

lemma elevated_of_in: "d_agents d = A \<Longrightarrow> elevated_of (Some i) d = elevated_in A i"
  by (simp add: elevated_of_def elevated_in_def find_agent_def)

lemma only_plain_quiet:
  "only_plain A out d \<Longrightarrow> d_agents d' = d_agents d \<Longrightarrow> d_outbox d' = d_outbox d \<Longrightarrow> only_plain A out d'"
  by (simp add: only_plain_def)

lemma only_plain_push:
  assumes p: "only_plain A out d" and r: "elevated_in A (rq_agent r) = None"
  shows "only_plain A out (push_request r d)"
proof -
  obtain rs where "d_outbox d = out @ rs" "\<forall>r \<in> set rs. elevated_in A (rq_agent r) = None"
    and ag: "d_agents d = A"
    using p by (auto simp: only_plain_def)
  then have "d_outbox (push_request r d) = out @ (rs @ [r])" "\<forall>x \<in> set (rs @ [r]). elevated_in A (rq_agent x) = None"
    using r by (auto simp: push_request_def)
  moreover have "d_agents (push_request r d) = A" using ag by (simp add: push_request_def)
  ultimately show ?thesis unfolding only_plain_def by blast
qed

interpretation plain: statement_closed "only_plain A out" "\<lambda>_. True" "\<lambda>r. elevated_in A (rq_agent r) = None"
  for A out
proof
  fix d d' env ty ti sub ld t
  assume "only_plain A out d" "thread_insert env ty ti sub ld d = Inr (t, d')"
  then show "only_plain A out d'" by (auto dest!: thread_insert_row intro: only_plain_quiet)
next
  fix d d' ps u
  assume "only_plain A out d" "participants_insert ps d = Inr (u, d')"
  then show "only_plain A out d'" by (auto dest!: participants_insert_rows intro: only_plain_quiet)
next
  fix d d' env tid v u
  assume "only_plain A out d" "participant_upsert env tid v d = Inr (u, d')"
  then show "only_plain A out d'" by (auto elim!: participant_upsert_rows intro: only_plain_quiet)
next
  fix d d' env tid v u
  assume "only_plain A out d" "participant_leave env tid v d = Inr (u, d')"
  then show "only_plain A out d'" by (auto elim!: participant_leave_rows intro: only_plain_quiet)
next
  fix d d' row env m
  assume "only_plain A out d" "insert_msg env row d = Inr (m, d')"
  then show "only_plain A out d'" by (auto dest!: insert_msg_facts intro: only_plain_quiet)
next
  fix d d' P f n
  assume "only_plain A out d" "update_ok P f" "bump_where P f d = (n, d')"
  then show "only_plain A out d'" by (auto dest!: bump_where_rows intro: only_plain_quiet)
next
  fix d :: chat_db and g :: "thread \<Rightarrow> thread" and Q
  assume "only_plain A out d"
  then show "only_plain A out (update_threads Q g d)" by (simp add: only_plain_def update_threads_def)
next
  fix d and r :: dispatch_req
  assume "only_plain A out d" "elevated_in A (rq_agent r) = None"
  then show "only_plain A out (push_request r d)" by (rule only_plain_push)
qed (auto simp: only_plain_def set_chain_root_def)

section \<open>What the checks return\<close>

lemma yields_on_uuid:
  "(\<And>d u. I d \<Longrightarrow> uuid_param env v = Inr u \<Longrightarrow> Q (f u d)) \<Longrightarrow> yields I (on_uuid env v f) Q"
  unfolding on_uuid_def by (rule yields_query) (auto split: sum.splits)

lemma get_agent_yields:
  "yields (only_plain A out) (get_agent_for_dispatch env v) (\<lambda>r. \<forall>a. r = Some a \<longrightarrow> a \<in> set A \<and>
     find (\<lambda>x. a_id x = a_id a) A = Some a \<and> uuid_param env v = Inr (Some (a_id a)))"
  unfolding get_agent_for_dispatch_def
proof (rule yields_on_uuid)
  fix d :: chat_db and u assume d: "only_plain A out d" and u: "uuid_param env v = Inr u"
  show "\<forall>a. find_agent u d = Some a \<longrightarrow> a \<in> set A \<and> find (\<lambda>x. a_id x = a_id a) A = Some a \<and>
      uuid_param env v = Inr (Some (a_id a))"
  proof (intro allI impI)
    fix a assume a: "find_agent u d = Some a"
    then obtain i where i: "u = Some i" "find (\<lambda>x. a_id x = i) A = Some a"
      using d by (auto simp: find_agent_def only_plain_def split: option.splits)
    then have "a \<in> set A \<and> a_id a = i" by (auto simp: find_Some_iff)
    then show "a \<in> set A \<and> find (\<lambda>x. a_id x = a_id a) A = Some a \<and> uuid_param env v = Inr (Some (a_id a))"
      using i u by auto
  qed
qed

lemma lookup_yields:
  "yields (only_plain A out) (lookup_agents env vs) (\<lambda>r. \<forall>as. r = Inr as \<longrightarrow> set as \<subseteq> set A)"
proof (induction vs)
  case Nil
  then show ?case by (simp add: yields_ret)
next
  case (Cons v vs)
  show ?case unfolding lookup_agents.simps
  proof (rule yields_bind [OF plain.reads(3) get_agent_yields])
    fix oa assume oa: "\<forall>a. oa = Some a \<longrightarrow> a \<in> set A \<and> find (\<lambda>x. a_id x = a_id a) A = Some a \<and>
        uuid_param env v = Inr (Some (a_id a))"
    show "yields (only_plain A out)
        (case oa of None \<Rightarrow> ret (Inl v)
         | Some a \<Rightarrow> eff_bind (lookup_agents env vs) (\<lambda>r. ret (case r of Inl u \<Rightarrow> Inl u | Inr as \<Rightarrow> Inr (a # as))))
        (\<lambda>r. \<forall>as. r = Inr as \<longrightarrow> set as \<subseteq> set A)"
    proof (cases oa)
      case None
      then show ?thesis by (simp add: yields_ret)
    next
      case (Some a)
      then show ?thesis using oa
        by (auto intro!: yields_bind [OF plain.lookup_keeps Cons.IH] yields_ret split: sum.splits
            dest!: subsetD)
    qed
  qed
qed

lemma deny_yields:
  assumes c: "ids_canonical env A" and sub: "set as \<subseteq> set A"
  shows "yields (only_plain A out) (elevated_deny env False as)
    (\<lambda>r. r = None \<longrightarrow> (\<forall>a \<in> set as. elevated_in A (a_id a) = None))"
  using sub
proof (induction as)
  case Nil
  then show ?case by (simp add: yields_ret)
next
  case (Cons a as)
  have id: "uuid_param env (Str (a_id a)) = Inr (Some (a_id a))"
    using c Cons.prems by (simp add: ids_canonical_def uuid_param_def)
  have sc: "yields (only_plain A out) (get_elevated_scope env (Str (a_id a))) (\<lambda>sc. sc = elevated_in A (a_id a))"
    unfolding get_elevated_scope_def
    by (rule yields_on_uuid) (auto simp: id only_plain_def intro: elevated_of_in)
  show ?case unfolding elevated_deny.simps
  proof (rule yields_bind [OF plain.reads(6) sc])
    fix s assume s: "s = elevated_in A (a_id a)"
    show "yields (only_plain A out)
        (case s of Some x \<Rightarrow> if \<not> False then ret (Some (a, x)) else elevated_deny env False as
         | None \<Rightarrow> elevated_deny env False as)
        (\<lambda>r. r = None \<longrightarrow> (\<forall>a \<in> set (a # as). elevated_in A (a_id a) = None))"
    proof (cases s)
      case None
      have "yields (only_plain A out) (elevated_deny env False as)
          (\<lambda>r. r = None \<longrightarrow> (\<forall>a \<in> set as. elevated_in A (a_id a) = None))"
        using Cons by simp
      then show ?thesis using None s unfolding yields_def holds_def
        by (fastforce split: prod.splits sum.splits)
    next
      case (Some x)
      then show ?thesis by (simp add: yields_ret)
    qed
  qed
qed

lemma load_yields: "yields (only_plain A out) (load_agents env ps) (\<lambda>as. set as \<subseteq> set A)"
proof (induction ps)
  case Nil
  then show ?case by (simp add: yields_ret)
next
  case (Cons p ps)
  show ?case unfolding load_agents.simps
    by (rule yields_bind [OF plain.reads(3) get_agent_yields],
        rule yields_bind [OF plain.load_keeps Cons.IH], rule yields_ret)
      (auto split: option.splits)
qed

lemma classify_yields: "yields (only_plain A out) (classify env tid as) (\<lambda>r. set (fst r) \<subseteq> set as)"
proof (induction as)
  case Nil
  then show ?case by (simp add: yields_ret)
next
  case (Cons a as)
  have rest: "yields (only_plain A out)
      (eff_bind (classify env tid as) (\<lambda>(ds, ss). ret (F ds ss)))
      (\<lambda>r. set (fst r) \<subseteq> set (a # as))" if "\<And>ds ss. set ds \<subseteq> set as \<Longrightarrow> set (fst (F ds ss)) \<subseteq> set (a # as)" for F
  proof (rule yields_bind [OF plain.classify_keeps Cons.IH])
    fix x :: "agent list \<times> skip list" assume "set (fst x) \<subseteq> set as"
    then show "yields (only_plain A out) (case x of (ds, ss) \<Rightarrow> ret (F ds ss)) (\<lambda>r. set (fst r) \<subseteq> set (a # as))"
      using that [of "fst x" "snd x"] by (cases x) (simp add: yields_ret)
  qed
  show ?case unfolding classify.simps
    by (intro yields_if rest yields_bind [OF plain.reads(7) yields_any]) auto
qed

section \<open>The handlers post to plain agents only\<close>

lemma plain_dispatch:
  assumes "\<And>a. a \<in> set (do_agents opts) \<Longrightarrow> elevated_in A (a_id a) = None"
  shows "keeps (only_plain A out) (dispatch_to_agents env opts)"
  by (rule plain.dispatch_keeps_if)
    (use assms in \<open>simp_all add: make_request_def dispatch_chat_work_def Let_def\<close>)

lemma create_store_gate:
  assumes "\<And>a. a \<in> set as \<Longrightarrow> elevated_in A (a_id a) = None"
  shows "keeps (only_plain A out) (create_store env c body ty as)"
  unfolding create_store_def Let_def
  by (intro keeps_if keeps_ret keeps_bind keeps_prod plain.thread_writes_keeps plain_dispatch)
    (use assms in \<open>auto split: if_splits\<close>)

lemma create_checked_gate:
  assumes adm: "\<not> c_admin c" and ids: "ids_canonical env A" and sub: "set as \<subseteq> set A"
  shows "keeps (only_plain A out) (create_checked env c body ty as)"
  unfolding create_checked_def eq_False [THEN iffD2, OF adm]
proof (rule keeps_bind_val [OF plain.deny_keeps(1) deny_yields [OF ids sub]])
  fix r :: "(agent \<times> string) option"
  assume "r = None \<longrightarrow> (\<forall>a \<in> set as. elevated_in A (a_id a) = None)"
  then show "keeps (only_plain A out) (case r of Some (a, sc) \<Rightarrow>
      ret (Fail 403 (elevated_message (display_name a) sc)) | None \<Rightarrow> create_store env c body ty as)"
    by (cases r) (auto intro: create_store_gate)
qed

lemma create_gate:
  assumes "\<not> c_admin c" and "ids_canonical env A"
  shows "keeps (only_plain A out) (create_thread env c body)"
proof -
  have "keeps (only_plain A out) (eff_bind (lookup_agents env uuids) (\<lambda>r. case r of
      Inl v \<Rightarrow> ret (missing v) | Inr agents \<Rightarrow> create_checked env c body ty agents))" for uuids missing ty
  proof (rule keeps_bind_val [OF plain.lookup_keeps lookup_yields])
    fix r :: "js + agent list" assume "\<forall>as. r = Inr as \<longrightarrow> set as \<subseteq> set A"
    then show "keeps (only_plain A out) (case r of Inl v \<Rightarrow> ret (missing v)
        | Inr agents \<Rightarrow> create_checked env c body ty agents)"
      by (cases r) (simp_all add: create_checked_gate [OF assms] keeps_ret)
  qed
  then show ?thesis unfolding create_thread_def create_thread_body_def Let_def
    by (intro keeps_catch keeps_option keeps_if keeps_ret plain.or_keeps)
qed

lemma send_dispatch_gate:
  assumes "\<And>a. a \<in> set ds \<Longrightarrow> elevated_in A (a_id a) = None"
  shows "keeps (only_plain A out) (send_dispatch env tid ty lead allids m ds sk)"
  unfolding send_dispatch_def Let_def
  by (intro keeps_bind keeps_if keeps_ret plain.reads plain.load_keeps plain_dispatch)
    (use assms in \<open>auto split: if_splits\<close>)

lemma send_classified_gate:
  assumes "\<And>a. a \<in> set as \<Longrightarrow> elevated_in A (a_id a) = None"
  shows "keeps (only_plain A out) (send_classified env c tid body content ty lead allids tg as)"
  unfolding send_classified_def
proof (rule keeps_bind_val [OF plain.classify_keeps classify_yields])
  fix r :: "agent list \<times> skip list" assume "set (fst r) \<subseteq> set as"
  then show "keeps (only_plain A out) (case r of (ds, sk) \<Rightarrow> if ds = [] then ret (unavailable ty sk)
      else eff_bind (message_writes env c tid content (js_get body ''idempotency_key'') tg) (\<lambda>m.
        send_dispatch env tid ty lead allids m ds sk))"
    by (intro keeps_prod keeps_if keeps_ret keeps_bind plain.message_writes_keeps send_dispatch_gate)
      (use assms in auto)
qed

lemma send_checked_gate:
  assumes adm: "\<not> c_admin c" and ids: "ids_canonical env A" and sub: "set as \<subseteq> set A"
  shows "keeps (only_plain A out) (send_checked env c tid body content ty lead allids tg as)"
  unfolding send_checked_def eq_False [THEN iffD2, OF adm]
proof (rule keeps_bind_val [OF plain.deny_keeps(1) deny_yields [OF ids sub]])
  fix r :: "(agent \<times> string) option"
  assume "r = None \<longrightarrow> (\<forall>a \<in> set as. elevated_in A (a_id a) = None)"
  then show "keeps (only_plain A out) (case r of Some (a, sc) \<Rightarrow>
      ret (Fail 403 (elevated_message (display_name a) sc))
    | None \<Rightarrow> send_classified env c tid body content ty lead allids tg as)"
    by (cases r) (auto intro: send_classified_gate)
qed

lemma send_gate:
  assumes "\<not> c_admin c" and "ids_canonical env A"
  shows "keeps (only_plain A out) (send_message env c tid body)"
proof -
  have loaded: "keeps (only_plain A out) (eff_bind (load_agents env ids) (\<lambda>as.
      if as = [] then ret none else send_checked env c tid body content ty lead allids tg as))"
    for ids none content ty lead allids tg
    by (rule keeps_bind_val [OF plain.load_keeps load_yields])
      (simp add: send_checked_gate [OF assms] keeps_ret)
  show ?thesis unfolding send_message_def send_message_body_def send_targets_def
    by (intro keeps_catch keeps_bind [OF plain.targets_keeps] keeps_bind [OF plain.reads(1)]
        keeps_bind [OF plain.reads(4)] keeps_bind [OF plain.reads(5)]
        keeps_option keeps_prod keeps_sum keeps_if keeps_ret loaded plain.or_keeps)
qed

text \<open>The callback: the agents a chain is continued with have passed the elevated check.\<close>

lemma eligible_yields:
  "yields (only_plain A out) (eligible_agents env tid ps)
     (\<lambda>as. \<forall>a \<in> set as. elevated_in A (a_id a) = None)"
proof (induction ps)
  case Nil
  then show ?case by (simp add: yields_ret)
next
  case (Cons p ps)
  let ?I = "only_plain A out" and ?Q = "\<lambda>as. \<forall>a \<in> set as. elevated_in A (a_id a) = None"
  have sc: "yields ?I (get_elevated_scope env (Str p))
      (\<lambda>sc. \<forall>i. uuid_param env (Str p) = Inr (Some i) \<longrightarrow> sc = elevated_in A i)"
    unfolding get_elevated_scope_def
    by (rule yields_on_uuid) (auto simp: only_plain_def intro: elevated_of_in)
  show ?case unfolding eligible_agents.simps
  proof (rule yields_bind [OF plain.reads(6) sc], rule yields_if [OF Cons.IH],
      rule yields_bind [OF plain.reads(3) get_agent_yields])
    fix s :: "string option" and oa
    assume s: "\<forall>i. uuid_param env (Str p) = Inr (Some i) \<longrightarrow> s = elevated_in A i" "\<not> s \<noteq> None"
      and oa: "\<forall>a. oa = Some a \<longrightarrow> a \<in> set A \<and> find (\<lambda>x. a_id x = a_id a) A = Some a \<and>
          uuid_param env (Str p) = Inr (Some (a_id a))"
    show "yields ?I (case oa of None \<Rightarrow> eligible_agents env tid ps
       | Some a \<Rightarrow>
           if \<not> runnable a then eligible_agents env tid ps
           else eff_bind (has_pending env tid (a_id a)) (\<lambda>busy.
             if busy then eligible_agents env tid ps
             else eff_bind (eligible_agents env tid ps) (\<lambda>as. ret (a # as)))) ?Q"
    proof (cases oa)
      case None
      then show ?thesis using Cons.IH by simp
    next
      case (Some a)
      then have "elevated_in A (a_id a) = None" using s oa by simp
      then show ?thesis unfolding Some option.case
        by (intro yields_if Cons.IH yields_bind [OF plain.reads(7) yields_any]
            yields_bind [OF plain.eligible_keeps Cons.IH] yields_ret) simp
    qed
  qed
qed

lemma chain_step_gate: "keeps (only_plain A out) (chain_step env mid tid cid hop targets)"
proof -
  have disp: "keeps (only_plain A out) (chain_dispatch env mid tid cid hop as)"
    if "\<forall>a \<in> set as. elevated_in A (a_id a) = None" for as
    unfolding chain_dispatch_def Let_def
    by (intro keeps_bind keeps_if keeps_ret plain.reads plain.infos_keeps plain_dispatch) (use that in simp)
  have "keeps (only_plain A out) (eff_bind (eligible_agents env (Str tid) ps) (\<lambda>as.
      if as = [] then ret () else chain_dispatch env mid tid cid hop as))" for ps
    by (rule keeps_bind_val [OF plain.eligible_keeps eligible_yields]) (simp add: disp keeps_ret)
  then show ?thesis unfolding chain_step_def Let_def
    by (intro keeps_bind [OF keeps_read] keeps_if keeps_ret)
qed

lemma callback_gate: "keeps (only_plain A out) (chat_callback env journal hdr body)"
proof -
  have "keeps (only_plain A out) (orchestrate env mid content)" for mid content
    unfolding orchestrate_def orchestrate_body_def Let_def
    by (intro keeps_if keeps_catch keeps_bind keeps_option keeps_ret plain.reads plain.resolve_keeps
        plain.chain_of_keeps chain_step_gate)
  then show ?thesis
    unfolding chat_callback_def callback_thinking_def callback_final_def already_terminal_def Let_def
    by (intro keeps_if keeps_option keeps_ret keeps_bind keeps_seq plain.callback_updates plain.reads
        plain.thread_updates plain.silent_keeps plain.batch_check_keeps) simp_all
qed

section \<open>Those who are not in a thread\<close>

text \<open>A shut guard: nothing but the lookup runs.\<close>

lemma on_uuid_same: "keeps (\<lambda>x. x = d) (on_uuid env v f)"
  unfolding on_uuid_def by (rule keeps_query) (auto split: sum.splits)

lemma shut_guard:
  assumes "keeps (\<lambda>x. x = d) g" and "yields (\<lambda>x. x = d) g (\<lambda>ok. \<not> ok)"
  shows "keeps (\<lambda>x. x = d) (eff_bind g (\<lambda>ok. if \<not> ok then ret r else m))"
  by (rule keeps_bind_val [OF assms]) (simp add: keeps_ret)

lemma not_participant:
  assumes "\<And>u. uuid_param env tid = Inr u \<Longrightarrow> \<not> human_in u sub d"
  shows "keeps (\<lambda>x. x = d) (is_participant env tid sub False)"
    and "yields (\<lambda>x. x = d) (is_participant env tid sub False) (\<lambda>ok. \<not> ok)"
  unfolding is_participant_def
  by (simp add: on_uuid_same) (auto intro!: yields_on_uuid simp: assms)

lemma not_owner:
  assumes "\<And>u. uuid_param env tid = Inr u \<Longrightarrow> \<not> owner_in u sub d"
  shows "keeps (\<lambda>x. x = d) (is_thread_owner env tid sub False)"
    and "yields (\<lambda>x. x = d) (is_thread_owner env tid sub False) (\<lambda>ok. \<not> ok)"
  unfolding is_thread_owner_def
  by (simp add: on_uuid_same) (auto intro!: yields_on_uuid simp: assms)

lemma caught_same: "keeps (\<lambda>x. x = d) m \<Longrightarrow> keeps (\<lambda>x. x = d) (eff_catch m (or_500 what))"
  "keeps (\<lambda>x. x = d) m \<Longrightarrow> keeps (\<lambda>x. x = d) (eff_catch m (or_conflict what))"
  unfolding or_500_def or_conflict_def by (intro keeps_catch keeps_ret keeps_if; assumption)+

section \<open>Properties\<close>

text \<open>
  C3: The elevated gate. When somebody who is not an admin creates a thread or sends a
  message, then under any faults no work is posted to an agent that has an elevated skill;
  what was posted before stays as it was.
\<close>

theorem chat_elevated_gate:
  assumes "\<not> c_admin c" and "ids_canonical env (d_agents d)"
    and "op = CreateThread c body \<or> op = SendMessage c tid body"
  shows "\<exists>rs. d_outbox (chat_step (env, fs, op) d) = d_outbox d @ rs \<and>
    (\<forall>r \<in> set rs. elevated_in (d_agents d) (rq_agent r) = None)"
proof -
  have "keeps (only_plain (d_agents d) (d_outbox d)) (chat_handler env op)"
    using assms create_gate send_gate by auto
  moreover have "only_plain (d_agents d) (d_outbox d) d" by (simp add: only_plain_def)
  ultimately have "only_plain (d_agents d) (d_outbox d) (chat_step (env, fs, op) d)"
    unfolding chat_step_def using keepsD [of _ _ "\<lparr>faults = fs, db = d\<rparr>"] by fastforce
  then show ?thesis by (simp add: only_plain_def)
qed

theorem chat_elevated_gate_witness:
  "d_outbox (chat_step (demo_env, [], SendMessage demo_user (Str ''t1'') (Obj [(''message'', Str ''hi'')])) demo_db) \<noteq> [] \<and>
   (\<exists>rs. d_outbox (chat_step (demo_env, [], SendMessage demo_user (Str ''t1'') (Obj [(''message'', Str ''hi'')])) demo_db) =
      d_outbox demo_db @ rs \<and> (\<forall>r \<in> set rs. elevated_in (d_agents demo_db) (rq_agent r) = None))"
proof
  show "d_outbox (chat_step (demo_env, [], SendMessage demo_user (Str ''t1'') (Obj [(''message'', Str ''hi'')])) demo_db) \<noteq> []"
    by code_simp
  show "\<exists>rs. d_outbox (chat_step (demo_env, [], SendMessage demo_user (Str ''t1'') (Obj [(''message'', Str ''hi'')])) demo_db) =
      d_outbox demo_db @ rs \<and> (\<forall>r \<in> set rs. elevated_in (d_agents demo_db) (rq_agent r) = None)"
    by (rule chat_elevated_gate [where c = demo_user and tid = "Str ''t1''" and body = "Obj [(''message'', Str ''hi'')]"])
      (simp_all add: demo_user_def ids_canonical_def demo_db_def demo_agent_def demo_env_def)
qed

text \<open>
  C4: An agent cannot reach an elevated agent. Whatever an agentbox reports back, whoever it
  mentions and whatever faults occur, the work the callback posts goes to agents without an
  elevated skill only.
\<close>

theorem callback_never_elevated:
  "\<exists>rs. d_outbox (chat_step (env, fs, Callback journal hdr body) d) = d_outbox d @ rs \<and>
    list_all (\<lambda>r. elevated_in (d_agents d) (rq_agent r) = None) rs"
proof -
  have "only_plain (d_agents d) (d_outbox d) d" by (simp add: only_plain_def)
  then have "only_plain (d_agents d) (d_outbox d) (chat_step (env, fs, Callback journal hdr body) d)"
    unfolding chat_step_def using keepsD [OF callback_gate, of _ _ "\<lparr>faults = fs, db = d\<rparr>"] by simp
  then show ?thesis by (simp add: only_plain_def list_all_iff)
qed

text \<open>
  C14: Outsiders change nothing. A caller who is not an admin and not a current participant
  of a thread leaves the tables exactly as they are with a message, a cancellation or a read
  on that thread, and one who is not its owner with an update, a deletion or a change of
  participants, whatever the body and the faults.
\<close>

theorem outsider_changes_nothing:
  assumes adm: "\<not> c_admin c"
  shows "((\<forall>u. uuid_param env tid = Inr u \<longrightarrow> \<not> human_in u (c_sub c) d) \<longrightarrow>
      chat_step (env, fs, SendMessage c tid body) d = d \<and>
      chat_step (env, fs, CancelMessages c tid) d = d \<and>
      chat_step (env, fs, ReadThread c tid before limit) d = d) \<and>
    ((\<forall>u. uuid_param env tid = Inr u \<longrightarrow> \<not> owner_in u (c_sub c) d) \<longrightarrow>
      chat_step (env, fs, UpdateThread c tid body) d = d \<and>
      chat_step (env, fs, RemoveThread c tid) d = d \<and>
      chat_step (env, fs, UpdateParticipants c tid body) d = d)"
proof -
  note adm' = eq_False [THEN iffD2, OF adm]
  have run: "chat_step (env, fs, op) d = d" if "keeps (\<lambda>x. x = d) (chat_handler env op)" for op
    unfolding chat_step_def using keepsD [OF that, of "\<lparr>faults = fs, db = d\<rparr>"] by simp
  have parts: "(\<forall>u. uuid_param env tid = Inr u \<longrightarrow> \<not> human_in u (c_sub c) d) \<longrightarrow>
      chat_step (env, fs, SendMessage c tid body) d = d \<and>
      chat_step (env, fs, CancelMessages c tid) d = d \<and>
      chat_step (env, fs, ReadThread c tid before limit) d = d"
    by (intro impI conjI run)
      (simp_all add: send_message_def send_message_body_def cancel_messages_def read_thread_def
        read_thread_body_def adm' not_participant shut_guard caught_same)
  have owners: "(\<forall>u. uuid_param env tid = Inr u \<longrightarrow> \<not> owner_in u (c_sub c) d) \<longrightarrow>
      chat_step (env, fs, UpdateThread c tid body) d = d \<and>
      chat_step (env, fs, RemoveThread c tid) d = d \<and>
      chat_step (env, fs, UpdateParticipants c tid body) d = d"
    by (intro impI conjI run)
      (simp_all add: update_thread_def update_thread_body_def remove_thread_def
        remove_thread_body_def update_participants_def update_participants_body_def adm'
        not_owner shut_guard caught_same)
  show ?thesis using parts owners by blast
qed

theorem outsider_changes_nothing_witness:
  "chat_step (demo_env, [], CancelMessages (demo_user\<lparr>c_sub := ''u9''\<rparr>) (Str ''t1'')) demo_db = demo_db \<and>
   chat_step (demo_env, [], RemoveThread (demo_user\<lparr>c_sub := ''u9''\<rparr>) (Str ''t1'')) demo_db = demo_db"
  using outsider_changes_nothing [of "demo_user\<lparr>c_sub := ''u9''\<rparr>" demo_env "Str ''t1''" demo_db "[]"]
  by (simp add: demo_user_def demo_db_def demo_part_def human_in_def owner_in_def)

end
