(* ===== verification/ChatAtomic.thy ===== *)
theory ChatAtomic
  imports ChatDemo "HOL-Library.Multiset"
begin

text \<open>
  What a reply of the chat routes says about the tables: a thread is stored with its
  participants and its first message or not at all, each agent of a dispatch is accounted
  for once, the sweep leaves no stale message, and the idempotency key of a thread creation.
\<close>

section \<open>Storing a thread\<close>

text \<open>The thread, its participants and its first message are there.\<close>

definition stored :: "chat_db \<Rightarrow> chat_env \<Rightarrow> caller \<Rightarrow> agent list \<Rightarrow> thread \<Rightarrow> msg \<Rightarrow> chat_db \<Rightarrow> bool" where
  "stored d0 env c agents t m d =
     (d_threads d = d_threads d0 @ [t] \<and>
      d_parts d = d_parts d0 @ member_row env (t_id t) Human Owner (c_sub c) #
                    map (\<lambda>a. member_row env (t_id t) Agent Member (a_id a)) agents \<and>
      m \<in> set (d_msgs d) \<and> m_thread m = t_id t \<and> m_author m = c_sub c \<and> m_kind m = Human \<and>
      m_status m = Complete)"

lemma thread_writes_stored:
  "holds (\<lambda>d. d = d0) (thread_writes env c ty title lead key content agents)
     (\<lambda>tm d. stored d0 env c agents (fst tm) (snd tm) d) (\<lambda>d. d = d0)"
  unfolding thread_writes_def
proof (rule holds_transaction)
  let ?rows = "\<lambda>t. member_row env (t_id t) Human Owner (c_sub c) #
      map (\<lambda>a. member_row env (t_id t) Agent Member (a_id a)) agents"
  show "holds (\<lambda>d. d = d0)
     (eff_bind (insert_thread env ty title (c_sub c) lead) (\<lambda>t.
        eff_seq (insert_participants (?rows t))
          (eff_bind (insert_user_msg env (t_id t) (c_sub c) content key None) (\<lambda>m. ret (t, m)))))
     (\<lambda>tm d. stored d0 env c agents (fst tm) (snd tm) d) (\<lambda>_. True)"
  proof (rule holds_bind)
    show "holds (\<lambda>d. d = d0) (insert_thread env ty title (c_sub c) lead)
        (\<lambda>t d. d_threads d = d_threads d0 @ [t] \<and> d_parts d = d_parts d0) (\<lambda>_. True)"
      unfolding insert_thread_def by (rule holds_query) (auto dest: thread_insert_row)
    fix t
    show "holds (\<lambda>d. d_threads d = d_threads d0 @ [t] \<and> d_parts d = d_parts d0)
        (eff_seq (insert_participants (?rows t))
          (eff_bind (insert_user_msg env (t_id t) (c_sub c) content key None) (\<lambda>m. ret (t, m))))
        (\<lambda>tm d. stored d0 env c agents (fst tm) (snd tm) d) (\<lambda>_. True)"
    proof (rule holds_seq)
      show "holds (\<lambda>d. d_threads d = d_threads d0 @ [t] \<and> d_parts d = d_parts d0)
          (insert_participants (?rows t))
          (\<lambda>_ d. d_threads d = d_threads d0 @ [t] \<and> d_parts d = d_parts d0 @ ?rows t) (\<lambda>_. True)"
        unfolding insert_participants_def
        by (rule holds_query) (auto dest: participants_insert_rows)
      show "holds (\<lambda>d. d_threads d = d_threads d0 @ [t] \<and> d_parts d = d_parts d0 @ ?rows t)
          (eff_bind (insert_user_msg env (t_id t) (c_sub c) content key None) (\<lambda>m. ret (t, m)))
          (\<lambda>tm d. stored d0 env c agents (fst tm) (snd tm) d) (\<lambda>_. True)"
      proof (rule holds_bind [where R = "stored d0 env c agents t"])
        show "holds (\<lambda>d. d_threads d = d_threads d0 @ [t] \<and> d_parts d = d_parts d0 @ ?rows t)
            (insert_user_msg env (t_id t) (c_sub c) content key None) (stored d0 env c agents t) (\<lambda>_. True)"
          unfolding insert_user_msg_def
          by (rule holds_query) (auto dest!: insert_msg_facts simp: stored_def blank_msg_def)
      qed (rule holds_ret, simp)
    qed
  qed
qed simp

lemma stored_placeholder: "keeps (stored d0 env c as t m) (insert_placeholder env' tid a r ch)"
  unfolding insert_placeholder_def
  by (rule keeps_query) (auto simp: stored_def dest!: insert_msg_facts)

lemma stored_bump:
  assumes s: "stored d0 env c as t m d" and b: "bump_where P f d = (n, d')" and p: "\<not> P m"
  shows "stored d0 env c as t m d'"
proof -
  note r = bump_where_rows [OF b]
  obtain m' where "m' \<in> set (d_msgs d')" "bumped P f (d_seq d) (d_seq d') m m'"
    using r s list_all2_set1 unfolding stored_def by metis
  then have "m \<in> set (d_msgs d')" using p by (simp add: bumped_def)
  then show ?thesis using s r by (simp add: stored_def)
qed

lemma stored_failed: "keeps (stored d0 env c as t m) (mark_failed_logged i why)"
  unfolding mark_failed_logged_def mark_failed_def bump_query_def
proof (intro keeps_catch keeps_bind keeps_ret keeps_query)
  fix d x d' assume s: "stored d0 env c as t m d"
    and "Inr (bump_where (\<lambda>m. m_id m = i \<and> m_status m = Pending) (fail_with why) d) = Inr (x, d')"
  then have b: "bump_where (\<lambda>m. m_id m = i \<and> m_status m = Pending) (fail_with why) d = (x, d')" by simp
  show "stored d0 env c as t m d'"
    by (rule stored_bump [OF s b]) (use s in \<open>simp add: stored_def\<close>)
qed

lemma stored_dispatch: "keeps (stored d0 env c as t m) (dispatch_to_agents env' opts)"
proof -
  have push: "keeps (stored d0 env c as t m) (local_step (push_request r))" for r
    by (rule keeps_local) (simp add: stored_def push_request_def)
  have settle: "keeps (stored d0 env c as t m) (settle_one env' opts am)" for am
    unfolding settle_one_def by (auto intro: stored_failed)
  show ?thesis unfolding dispatch_to_agents_def create_placeholders_def Let_def
    by (intro keeps_bind keeps_if keeps_seq keeps_for keeps_ret keeps_map stored_failed stored_placeholder
        settle push)
qed

text \<open>\<open>outcome d0\<close>: nothing happened, or the thread is stored.\<close>

definition all_or_nothing :: "chat_db \<Rightarrow> chat_env \<Rightarrow> caller \<Rightarrow> chat_db \<Rightarrow> bool" where
  "all_or_nothing d0 env c d = (d = d0 \<or> (\<exists>as t m. stored d0 env c as t m d))"

definition created_reply :: "chat_db \<Rightarrow> chat_env \<Rightarrow> caller \<Rightarrow> reply \<Rightarrow> chat_db \<Rightarrow> bool" where
  "created_reply d0 env c r d =
     (case r of ThreadCreated t m rep sk \<Rightarrow> (\<exists>as. stored d0 env c as t m d)
      | _ \<Rightarrow> all_or_nothing d0 env c d)"

lemma holds_reads: "keeps (\<lambda>x. x = d0) m \<Longrightarrow> holds (\<lambda>d. d = d0) m (\<lambda>_ d. d = d0) (all_or_nothing d0 env c)"
  unfolding keeps_def by (erule holds_conseq) (auto simp: all_or_nothing_def)

lemma fail_created: "d = d0 \<Longrightarrow> created_reply d0 env c (Fail k e) d"
  by (simp add: created_reply_def all_or_nothing_def)

lemma create_store_all:
  "holds (\<lambda>d. d = d0) (create_store env c body ty as) (created_reply d0 env c) (all_or_nothing d0 env c)"
proof -
  let ?E = "all_or_nothing d0 env c"
  have inner: "holds (stored d0 env c as t m)
      (eff_bind (dispatch_to_agents env (opts t m)) (\<lambda>rep. ret (ThreadCreated t m rep (skipped_of as))))
      (created_reply d0 env c) ?E" for opts :: "thread \<Rightarrow> msg \<Rightarrow> dispatch_opts" and t m
    by (rule holds_bind [where R = "\<lambda>_. stored d0 env c as t m"],
        rule holds_conseq [OF stored_dispatch [unfolded keeps_def]])
      (auto simp: all_or_nothing_def created_reply_def intro!: holds_ret)
  have all: "holds (\<lambda>d. d = d0)
      (eff_bind (thread_writes env c ty ti ld k ct as) (\<lambda>(t, m).
        eff_bind (dispatch_to_agents env (opts t m)) (\<lambda>rep. ret (ThreadCreated t m rep (skipped_of as)))))
      (created_reply d0 env c) ?E" for opts :: "thread \<Rightarrow> msg \<Rightarrow> dispatch_opts" and ti ld k ct
  proof (rule holds_bind)
    show "holds (\<lambda>d. d = d0) (thread_writes env c ty ti ld k ct as)
        (\<lambda>tm d. stored d0 env c as (fst tm) (snd tm) d) ?E"
      by (rule holds_conseq [OF thread_writes_stored]) (auto simp: all_or_nothing_def)
    fix tm :: "thread \<times> msg"
    show "holds (stored d0 env c as (fst tm) (snd tm))
        (case tm of (t, m) \<Rightarrow> eff_bind (dispatch_to_agents env (opts t m))
          (\<lambda>rep. ret (ThreadCreated t m rep (skipped_of as)))) (created_reply d0 env c) ?E"
      using inner by (cases tm) simp
  qed
  show ?thesis unfolding create_store_def Let_def
    by (intro holds_if holds_ret all) (auto intro: fail_created)
qed

lemma same_on_uuid: "keeps (\<lambda>x. x = d0) (on_uuid env v f)"
  unfolding on_uuid_def by (rule keeps_query) (auto split: sum.splits)

lemma same_lookup: "keeps (\<lambda>x. x = d0) (lookup_agents env vs)"
  by (induction vs) (auto simp: get_agent_for_dispatch_def intro!: same_on_uuid)

lemma same_deny: "keeps (\<lambda>x. x = d0) (elevated_deny env admin as)"
  by (induction as) (auto simp: get_elevated_scope_def intro!: same_on_uuid)

lemma create_checked_all:
  "holds (\<lambda>d. d = d0) (create_checked env c body ty as) (created_reply d0 env c) (all_or_nothing d0 env c)"
  unfolding create_checked_def
proof (rule holds_bind [OF holds_reads [OF same_deny]])
  fix r :: "(agent \<times> string) option"
  show "holds (\<lambda>d. d = d0) (case r of Some (a, sc) \<Rightarrow> ret (Fail 403 (elevated_message (display_name a) sc))
      | None \<Rightarrow> create_store env c body ty as) (created_reply d0 env c) (all_or_nothing d0 env c)"
    by (cases r) (auto intro: create_store_all holds_ret fail_created)
qed

lemma create_thread_all:
  "holds (\<lambda>d. d = d0) (create_thread env c body) (created_reply d0 env c) (\<lambda>_. False)"
proof -
  have body: "holds (\<lambda>d. d = d0) (create_thread_body env c body) (created_reply d0 env c) (all_or_nothing d0 env c)"
  proof -
    have looked: "holds (\<lambda>d. d = d0) (eff_bind (lookup_agents env uuids) (\<lambda>r. case r of
        Inl v \<Rightarrow> ret (Fail 404 (''Agent not found: '' @ (if is_str v then the_str v else ''null'')))
      | Inr agents \<Rightarrow> create_checked env c body ty agents)) (created_reply d0 env c) (all_or_nothing d0 env c)"
      for uuids ty
    proof (rule holds_bind [OF holds_reads [OF same_lookup]])
      fix r :: "js + agent list"
      show "holds (\<lambda>d. d = d0) (case r of
          Inl v \<Rightarrow> ret (Fail 404 (''Agent not found: '' @ (if is_str v then the_str v else ''null'')))
        | Inr agents \<Rightarrow> create_checked env c body ty agents) (created_reply d0 env c) (all_or_nothing d0 env c)"
        by (cases r) (auto intro: create_checked_all holds_ret fail_created)
    qed
    show ?thesis unfolding create_thread_body_def Let_def
      by (intro holds_option holds_if holds_ret looked fail_created)
  qed
  show ?thesis unfolding create_thread_def or_conflict_def
    by (rule holds_catch [OF body]) (auto intro!: holds_if holds_ret simp: created_reply_def)
qed

section \<open>The idempotency key of a new thread\<close>

text \<open>\<open>spares I m\<close>: from a state with \<open>I\<close>, \<open>m\<close> does not throw the violation of the key index.\<close>

definition spares :: "(chat_db \<Rightarrow> bool) \<Rightarrow> (chat_db, 'a) eff \<Rightarrow> bool" where
  "spares I m = (\<forall>w. I (db w) \<longrightarrow> fst (m w) \<noteq> Inl (UniqueViolation key_index))"

lemma spares_ret: "spares I (ret x)"
  by (simp add: spares_def ret_def)

lemma spares_bind:
  assumes "spares I m" and "holds I m R (\<lambda>_. True)" and "\<And>x. spares (R x) (f x)"
  shows "spares I (eff_bind m f)"
  unfolding spares_def
proof (intro allI impI)
  fix w :: "chat_db world" assume i: "I (db w)"
  obtain r w' where m: "m w = (r, w')" by (cases "m w")
  show "fst (eff_bind m f w) \<noteq> Inl (UniqueViolation key_index)"
  proof (cases r)
    case (Inl e)
    then show ?thesis using assms(1) i m by (auto simp: spares_def eff_bind_def)
  next
    case (Inr x)
    then have "R x (db w')" using holds_Inr [OF assms(2)] m i by blast
    then show ?thesis using assms(3) [of x] m Inr by (simp add: spares_def eff_bind_def)
  qed
qed

lemma spares_query:
  "(\<And>d. I d \<Longrightarrow> q d \<noteq> Inl (UniqueViolation key_index)) \<Longrightarrow> spares I (db_query q)"
  unfolding spares_def db_query_def
  by (auto simp: Let_def split: list.splits bool.splits sum.splits prod.splits)

lemma spares_keeps: "spares I m \<Longrightarrow> keeps I m \<Longrightarrow> (\<And>x. spares I (f x)) \<Longrightarrow> spares I (eff_bind m f)"
  by (rule spares_bind [where R = "\<lambda>_. I"]) (auto simp: keeps_def intro: holds_conseq)

lemma spares_seq: "spares I m \<Longrightarrow> keeps I m \<Longrightarrow> spares I n \<Longrightarrow> spares I (eff_seq m n)"
  unfolding eff_seq_def by (rule spares_keeps)

lemma spares_on_uuid: "spares I (on_uuid env v f)"
  unfolding on_uuid_def by (rule spares_query) (auto simp: uuid_param_def split: js.splits option.splits)

lemma spares_caught: "spares I (eff_catch m (\<lambda>_. ret x))"
  by (auto simp: spares_def eff_catch_def ret_def split: prod.splits sum.splits)

lemma spares_for: "(\<And>x. spares I (f x) \<and> keeps I (f x)) \<Longrightarrow> spares I (eff_for xs f)"
  by (induction xs) (auto intro: spares_ret spares_seq)

lemma spares_map: "(\<And>x. spares I (f x) \<and> keeps I (f x)) \<Longrightarrow> spares I (eff_map f xs)"
  by (induction xs) (auto intro: spares_ret spares_keeps)

lemma spares_transaction:
  assumes "spares I m"
  shows "spares I (transaction m)"
  unfolding spares_def
proof (intro allI impI)
  have noop: "fst (no_op_query w) \<noteq> Inl (UniqueViolation key_index)" for w :: "chat_db world"
    by (auto simp: no_op_query_def db_query_def Let_def split: list.splits bool.splits)
  fix w :: "chat_db world" assume i: "I (db w)"
  obtain r1 w1 where 1: "no_op_query w = (r1, w1)" by (cases "no_op_query w")
  obtain r2 w2 where 2: "no_op_query w1 = (r2, w2)" by (cases "no_op_query w1")
  have d: "I (db w2)" using i snd_no_op_db [of w] snd_no_op_db [of w1] 1 2 by simp
  obtain r3 w3 where 3: "m w2 = (r3, w3)" by (cases "m w2")
  have n3: "r3 \<noteq> Inl (UniqueViolation key_index)" using assms d 3 by (auto simp: spares_def)
  show "fst (transaction m w) \<noteq> Inl (UniqueViolation key_index)"
    using noop [of w] noop [of w1] noop [of w3] n3 1 2 3
    by (auto simp: transaction_def eff_seq_def eff_bind_def Let_def ret_def split: sum.splits prod.splits)
qed

lemma key_neq: "key_index \<noteq> ''chat_threads_pkey''" "key_index \<noteq> ''chat_participants_pkey''"
  "key_index \<noteq> ''chat_messages_pkey''"
  by (simp_all add: key_index_def)

lemma spares_thread_writes: "spares chat_inv (thread_writes env c ty title lead key content agents)"
  unfolding thread_writes_def
proof (rule spares_transaction, rule spares_bind)
  show "spares chat_inv (insert_thread env ty title (c_sub c) lead)"
    unfolding insert_thread_def thread_insert_def Let_def
    by (rule spares_query)
      (auto simp: uuid_param_def key_neq [symmetric] split: sum.splits js.splits option.splits)
  let ?R = "\<lambda>t d. \<forall>m \<in> set (d_msgs d). m_thread m \<noteq> t_id t"
  show "holds chat_inv (insert_thread env ty title (c_sub c) lead) ?R (\<lambda>_. True)"
    unfolding insert_thread_def
    by (rule holds_query) (fastforce simp: chat_inv_def dest: thread_insert_row)+
  fix t :: thread
  show "spares (?R t) (eff_seq (insert_participants (member_row env (t_id t) Human Owner (c_sub c) #
                     map (\<lambda>a. member_row env (t_id t) Agent Member (a_id a)) agents))
            (eff_bind (insert_user_msg env (t_id t) (c_sub c) content key None) (\<lambda>m. ret (t, m))))"
  proof (rule spares_seq)
    show "spares (?R t) (insert_participants ps)" for ps
      unfolding insert_participants_def participants_insert_def
      by (rule spares_query) (auto simp: key_neq [symmetric])
    show "keeps (?R t) (insert_participants ps)" for ps
      unfolding insert_participants_def by (rule keeps_query) (auto dest: participants_insert_rows)
    have "spares (?R t) (insert_user_msg env (t_id t) (c_sub c) content key None)"
      unfolding insert_user_msg_def insert_msg_def Let_def
      by (rule spares_query) (auto simp: key_neq [symmetric] idempotency_clash_def)
    then show "spares (?R t) (eff_bind (insert_user_msg env (t_id t) (c_sub c) content key None) (\<lambda>m. ret (t, m)))"
      by (rule spares_bind [where R = "\<lambda>_ _. True"]) (auto intro!: spares_ret holdsI)
  qed
qed

lemma spares_dispatch: "spares (\<lambda>_. True) (dispatch_to_agents env opts)"
proof -
  have k: "keeps (\<lambda>_. True) m" for m :: "(chat_db, 'x) eff" by (rule keepsI) simp
  have ph: "spares (\<lambda>_. True) (insert_placeholder env tid a r ch)" for tid a r ch
    unfolding insert_placeholder_def insert_msg_def Let_def
    by (rule spares_query) (auto simp: key_neq [symmetric] idempotency_clash_def blank_msg_def)
  have settle: "spares (\<lambda>_. True) (settle_one env opts am)" for am
    unfolding settle_one_def mark_failed_logged_def
    by (auto split: option.splits intro!: spares_ret spares_seq spares_caught k)
  have push: "spares (\<lambda>_. True) (local_step g)" for g by (simp add: spares_def local_step_def)
  show ?thesis unfolding dispatch_to_agents_def create_placeholders_def Let_def mark_failed_logged_def
    by (intro spares_keeps spares_map k conjI ph spares_ret impI spares_seq spares_for spares_caught settle push
        | simp)+
qed

definition duplicate_reply :: reply where
  "duplicate_reply = Fail 409 ''Duplicate message (idempotency key already used)''"

lemma true_keeps: "keeps (\<lambda>_. True) m"
  by (rule keepsI) simp

lemma same_keeps:
  fixes m :: "('d, 'a) eff"
  assumes same: "\<And>d0. keeps (\<lambda>x. x = d0) m"
  shows "keeps I m"
proof (rule keepsI)
  fix w :: "'d world" assume "I (db w)"
  moreover have "db (snd (m w)) = db w" by (rule keepsD [OF same]) simp
  ultimately show "I (db (snd (m w)))" by simp
qed

lemmas any_keeps = same_keeps [OF same_on_uuid] same_keeps [OF same_lookup] same_keeps [OF same_deny]

lemma spares_cases:
  "(b \<Longrightarrow> spares I m) \<Longrightarrow> (\<not> b \<Longrightarrow> spares I n) \<Longrightarrow> spares I (if b then m else n)"
  "spares I m \<Longrightarrow> (\<And>y. spares I (f y)) \<Longrightarrow> spares I (case_option m f x)"
  "(\<And>a. spares I (g a)) \<Longrightarrow> (\<And>c. spares I (h c)) \<Longrightarrow> spares I (case_sum g h z)"
  "(\<And>a c. spares I (p a c)) \<Longrightarrow> spares I (case_prod p v)"
  by (simp_all split: option.split sum.split prod.split)

lemma spares_lookup: "spares I (lookup_agents env vs)"
proof (induction vs)
  case (Cons v vs)
  show ?case unfolding lookup_agents.simps get_agent_for_dispatch_def
    by (intro spares_keeps spares_on_uuid any_keeps spares_cases spares_ret Cons)
qed (simp add: spares_ret)

lemma spares_deny: "spares I (elevated_deny env admin as)"
proof (induction as)
  case (Cons a as)
  show ?case unfolding elevated_deny.simps get_elevated_scope_def
    by (intro spares_keeps spares_on_uuid any_keeps spares_cases spares_ret Cons)
qed (simp add: spares_ret)

lemma spares_weaken: "spares (\<lambda>_. True) m \<Longrightarrow> spares I m"
  by (simp add: spares_def)

lemma spares_store: "spares chat_inv (create_store env c body ty as)"
proof -
  have w: "spares chat_inv (eff_bind (thread_writes env c ty ti ld k ct as) f)"
    if "\<And>tm. spares (\<lambda>_. True) (f tm)"
    for ti ld k ct and f :: "thread \<times> msg \<Rightarrow> (chat_db, reply) eff"
    by (rule spares_bind [OF spares_thread_writes, where R = "\<lambda>_ _. True"]) (auto intro: holdsI that)
  show ?thesis unfolding create_store_def Let_def
    by (intro spares_cases(1) spares_ret w spares_cases(4) spares_keeps spares_dispatch true_keeps)
qed

lemma spares_create_body: "spares chat_inv (create_thread_body env c body)"
proof -
  have checked: "spares chat_inv (create_checked env c body ty as)" for ty as
    unfolding create_checked_def
    by (intro spares_keeps spares_deny any_keeps spares_cases spares_store spares_ret)
  have looked: "spares chat_inv (eff_bind (lookup_agents env uuids) (\<lambda>r. case r of
      Inl v \<Rightarrow> ret (missing v) | Inr agents \<Rightarrow> create_checked env c body ty agents))" for uuids missing ty
    by (intro spares_keeps spares_lookup any_keeps spares_cases checked spares_ret)
  show ?thesis unfolding create_thread_body_def Let_def
    by (intro spares_cases looked spares_ret)
qed

text \<open>No branch of the handler returns the conflict reply by itself.\<close>

lemma yields_true_bind: "(\<And>x. yields (\<lambda>_. True) (f x) Q) \<Longrightarrow> yields (\<lambda>_. True) (eff_bind m f) Q"
  by (rule yields_bind [OF true_keeps yields_any])

lemma yields_cases:
  "(\<And>a b. yields I (f a b) Q) \<Longrightarrow> yields I (case_prod f x) Q"
  "yields I m Q \<Longrightarrow> (\<And>y. yields I (g y) Q) \<Longrightarrow> yields I (case_option m g v) Q"
  "(\<And>a. yields I (p a) Q) \<Longrightarrow> (\<And>c. yields I (h c) Q) \<Longrightarrow> yields I (case_sum p h z) Q"
  by (simp_all split: option.split sum.split prod.split)

lemma create_body_other: "yields (\<lambda>_. True) (create_thread_body env c body) (\<lambda>r. r \<noteq> duplicate_reply)"
proof -
  have store: "yields (\<lambda>_. True) (create_store env c body ty as) (\<lambda>r. r \<noteq> duplicate_reply)" for ty as
    unfolding create_store_def Let_def
    by (intro yields_if yields_true_bind yields_cases yields_ret) (simp_all add: duplicate_reply_def)
  have checked: "yields (\<lambda>_. True) (create_checked env c body ty as) (\<lambda>r. r \<noteq> duplicate_reply)" for ty as
    unfolding create_checked_def
    by (intro yields_true_bind yields_cases store yields_ret) (simp add: duplicate_reply_def)
  have looked: "yields (\<lambda>_. True) (eff_bind (lookup_agents env uuids) (\<lambda>r. case r of
      Inl v \<Rightarrow> ret (Fail 404 (missing v)) | Inr agents \<Rightarrow> create_checked env c body ty agents))
      (\<lambda>r. r \<noteq> duplicate_reply)" for uuids missing ty
    by (intro yields_true_bind yields_cases checked yields_ret) (simp add: duplicate_reply_def)
  have f400: "yields (\<lambda>_. True) (ret (Fail 400 e)) (\<lambda>r. r \<noteq> duplicate_reply)" for e
    by (rule yields_ret) (simp add: duplicate_reply_def)
  show ?thesis unfolding create_thread_body_def Let_def
    by (intro yields_cases yields_if looked f400)
qed

section \<open>Properties\<close>

text \<open>
  Creating a thread is all or nothing. Under any faults, the tables end exactly as they
  began, or the thread is there with its owner, all its agents and its first message as
  complete; and the reply that reports the thread is given in the second case only.
\<close>

theorem create_thread_atomic:
  "case create_thread env c body \<lparr>faults = fs, db = d0\<rparr> of (x, w) \<Rightarrow>
     (case x of
        Inr (ThreadCreated t m rep sk) \<Rightarrow> \<exists>agents. stored d0 env c agents t m (db w)
      | Inr _ \<Rightarrow> db w = d0 \<or> (\<exists>agents t m. stored d0 env c agents t m (db w))
      | Inl e \<Rightarrow> False)"
proof -
  obtain x w' where r: "create_thread env c body \<lparr>faults = fs, db = d0\<rparr> = (x, w')"
    by (cases "create_thread env c body \<lparr>faults = fs, db = d0\<rparr>")
  have "x \<noteq> Inl e" for e
    using holds_Inl [OF create_thread_all, of env c body] r by fastforce
  then obtain rep where x: "x = Inr rep" by (cases x) auto
  have "created_reply d0 env c rep (db w')"
    using holds_Inr [OF create_thread_all, of env c body] r x by fastforce
  then show ?thesis using r x
    by (cases rep) (auto simp: created_reply_def all_or_nothing_def)
qed

text \<open>
  The idempotency key of a thread creation detects nothing. From a well-formed state,
  whatever the body and the faults, the reply is never the 409 for a duplicate: the index is
  scoped to the thread, and the thread is new.
\<close>

theorem create_thread_key_inert:
  assumes "chat_inv d"
  shows "fst (create_thread env c body \<lparr>faults = fs, db = d\<rparr>) \<noteq> Inr duplicate_reply"
proof -
  let ?w = "\<lparr>faults = fs, db = d\<rparr>"
  obtain r w' where b: "create_thread_body env c body ?w = (r, w')" by (cases "create_thread_body env c body ?w")
  have "r \<noteq> Inl (UniqueViolation key_index)"
    using spares_create_body [of env c body] assms b unfolding spares_def
    by (metis fst_conv world.select_convs(2))
  moreover have "r \<noteq> Inr duplicate_reply" using yieldsD [OF create_body_other] b by blast
  ultimately show ?thesis using b
    by (auto simp: create_thread_def eff_catch_def or_conflict_def ret_def duplicate_reply_def split: sum.splits)
qed

theorem create_thread_key_inert_witness:
  "chat_inv demo_db \<and>
   fst (create_thread demo_env demo_user (Obj [(''agent_id'', Str ''a1''), (''message'', Str ''hi''), (''idempotency_key'', Str ''k'')])
     \<lparr>faults = [], db = demo_db\<rparr>) \<noteq> Inr duplicate_reply"
  using create_thread_key_inert [OF demo_inv] demo_inv by blast

text \<open>
  A failure is reported for a thread that was created. When the placeholder insert that
  follows the transaction is the query that fails, the reply is the 500 "Failed to create
  thread", and the thread, its participants and its message are stored, with no assistant
  message to follow. The key of the request does not help a retry either: the same request
  again creates a second thread.
\<close>

theorem create_thread_500_after_commit:
  "let body = Obj [(''agent_id'', Str ''a1''), (''message'', Str ''hi''), (''idempotency_key'', Str ''k'')];
       first = create_thread demo_env demo_user body \<lparr>faults = replicate 8 False @ [True], db = demo_db\<rparr>;
       again = create_thread demo_env demo_user body (snd first)
   in fst first = Inr (Fail 500 ''Failed to create thread'') \<and>
      length (d_threads (db (snd first))) = 3 \<and> length (d_msgs (db (snd first))) = 4 \<and>
      length (d_threads (db (snd again))) = 4 \<and>
      map m_content (filter (\<lambda>m. m_key m = Some ''k'') (d_msgs (db (snd again)))) = [''hi'', ''hi'']"
  by code_simp

text \<open>
  A refused message is stored. In a group thread whose lead agent is still answering, a
  message is refused with the 409 "Lead agent is not running or has a pending response",
  and it is in the thread as a complete user message that no agent is asked to answer.
\<close>

theorem send_409_after_commit:
  "let d = demo_db\<lparr>d_threads := [(demo_thread ''t1'' Group)\<lparr>t_lead := Some ''a2''\<rparr>]\<rparr>;
       out = send_message demo_env demo_user (Str ''t1'') (Obj [(''message'', Str ''hi'')]) \<lparr>faults = [], db = d\<rparr>
   in fst out = Inr (Fail 409 ''Lead agent is not running or has a pending response'') \<and>
      map (\<lambda>m. (m_content m, m_status m)) (drop 3 (d_msgs (db (snd out)))) = [(''hi'', Complete)] \<and>
      d_outbox (db (snd out)) = []"
  by code_simp

text \<open>
  An agent that is still answering is asked again. The concurrency guard looks for a
  pending message only: an agent whose message has reached 'thinking' gets the next work
  item while it is still open, whereas one whose message is pending is skipped.
\<close>

theorem thinking_agent_dispatched_again:
  "let out = send_message demo_env demo_user (Str ''t1'') (Obj [(''message'', Str ''hi'')]) \<lparr>faults = [], db = demo_db\<rparr>
   in map rq_agent (d_outbox (db (snd out))) = [''a1''] \<and>
      map m_status (filter (\<lambda>m. m_author m = ''a1'') (d_msgs (db (snd out)))) = [Thinking, Pending] \<and>
      (case fst out of Inr (MessageSent m rep sk) \<Rightarrow> sk = [(''a2'', ''has_pending'')] | _ \<Rightarrow> False)"
  by code_simp

section \<open>The sweep\<close>

lemma bump_where_all2:
  "bump_where P f d = (n, d') \<Longrightarrow> list_all2 (bumped P f (d_seq d) (d_seq d')) (d_msgs d) (d_msgs d')"
  by (simp add: bump_where_rows)

text \<open>
  The sweep ends every stale wait and nothing else. When its statement runs, each message
  that was pending or thinking and had not been touched for two minutes is an error with the
  no-response text and a new number; every other row is as it was; and none is stale after.
\<close>

theorem sweep_clears_stale:
  "list_all2 (\<lambda>m m'. if is_stale env m
       then m_status m' = Error \<and> m_error m' = Some no_response_message \<and> d_seq d < m_seq m' \<and>
            m_id m' = m_id m \<and> m_content m' = m_content m
       else m' = m) (d_msgs d) (d_msgs (chat_step (env, [], Sweep) d)) \<and>
   filter (is_stale env) (d_msgs (chat_step (env, [], Sweep) d)) = []"
proof -
  obtain n d' where b: "bump_where (is_stale env) (sweep_row env) d = (n, d')"
    by (cases "bump_where (is_stale env) (sweep_row env) d")
  have s: "chat_step (env, [], Sweep) d = d'"
    by (simp add: chat_step_def sweep_def sweep_stale_def bump_query_def db_query_def eff_catch_def
        eff_bind_def ret_def Let_def b)
  have r: "list_all2 (\<lambda>m m'. if is_stale env m
       then m_status m' = Error \<and> m_error m' = Some no_response_message \<and> d_seq d < m_seq m' \<and>
            m_id m' = m_id m \<and> m_content m' = m_content m
       else m' = m) (d_msgs d) (d_msgs d')"
    using bump_where_all2 [OF b]
    by (rule list_all2_mono) (auto simp: bumped_def sweep_row_def fail_with_def split: if_splits)
  moreover have "\<not> is_stale env m'" if "m' \<in> set (d_msgs d')" for m'
    using list_all2_set2 [OF r that] by (auto simp: is_stale_def open_status_def split: if_splits)
  ultimately show ?thesis by (simp add: s filter_empty_conv)
qed

section \<open>The accounts of a dispatch\<close>

lemma map_result:
  assumes "\<And>x w y w'. f x w = (Inr y, w') \<Longrightarrow> R x y" and "eff_map f xs w = (Inr ys, w')"
  shows "list_all2 R xs ys"
  using assms(2)
proof (induction xs arbitrary: w ys)
  case (Cons x xs)
  then show ?case
    by (auto simp: eff_bind_def ret_def split: prod.splits sum.splits dest: assms(1))
qed (simp add: ret_def)

lemma split_accounts:
  "length bs = length ps \<Longrightarrow>
   mset (map (\<lambda>(p, _). f p) (filter snd (zip ps bs))) + mset (map (\<lambda>(p, _). f p) (filter (\<lambda>x. \<not> snd x) (zip ps bs)))
     = mset (map f ps)"
  by (induction ps bs rule: list_induct2') auto

text \<open>
  Every agent of a dispatch is accounted for exactly once. When the dispatch returns, the
  dispatched and the failed agents together are the agents it was given, as multisets; and
  without a callback token all of them are reported failed.
\<close>

theorem dispatch_accounts:
  assumes "dispatch_to_agents env opts w = (Inr rep, w')"
  shows "mset (map fst (dr_dispatched rep)) + mset (map (fst \<circ> fst) (dr_failed rep)) =
           mset (map a_id (do_agents opts)) \<and>
         (token_configured env \<or> dr_dispatched rep = [])"
proof -
  obtain ps w1 where ps: "create_placeholders env opts w = (Inr ps, w1)"
    using assms by (auto simp: dispatch_to_agents_def eff_bind_def split: prod.splits sum.splits)
  have "list_all2 (\<lambda>a p. fst p = a) (do_agents opts) ps"
    using ps unfolding create_placeholders_def
    by (rule map_result [rotated]) (auto simp: eff_bind_def ret_def split: prod.splits sum.splits)
  then have ids: "map (a_id \<circ> fst) ps = map a_id (do_agents opts)"
    by (induction rule: list_all2_induct) auto
  have ids': "image_mset (\<lambda>x. a_id (fst x)) (mset ps) = image_mset a_id (mset (do_agents opts))"
    using arg_cong [OF ids, of mset] by (simp add: comp_def)
  show ?thesis
  proof (cases "token_configured env")
    case True
    then obtain oks w2 w3 where oks: "eff_map (settle_one env opts) ps w2 = (Inr oks, w3)"
      and rep: "rep = \<lparr>dr_dispatched = map (\<lambda>(am, _). (a_id (fst am), snd am)) (filter snd (zip ps oks)),
                      dr_failed = map (\<lambda>(am, _). ((a_id (fst am), snd am), ''dispatch_failed''))
                                    (filter (\<lambda>x. \<not> snd x) (zip ps oks))\<rparr>"
      using assms ps by (auto simp: dispatch_to_agents_def eff_bind_def eff_seq_def ret_def Let_def
          split: prod.splits sum.splits)
    have "length oks = length ps" using map_result [OF _ oks, of "\<lambda>_ _. True"] by (simp add: list_all2_lengthD)
    then show ?thesis using True split_accounts [of oks ps "a_id \<circ> fst"] ids'
      by (simp add: rep comp_def case_prod_unfold)
  next
    case False
    then have "rep = \<lparr>dr_dispatched = [],
                    dr_failed = map (\<lambda>am. ((a_id (fst am), snd am), ''callback_not_configured'')) ps\<rparr>"
      using assms ps by (auto simp: dispatch_to_agents_def eff_bind_def eff_seq_def ret_def
          split: prod.splits sum.splits)
    then show ?thesis using ids' by (simp add: comp_def)
  qed
qed

theorem dispatch_accounts_witness:
  "case dispatch_to_agents demo_env \<lparr>do_thread = ''t1'', do_thread_text = ''t1'', do_agents = d_agents demo_db,
       do_reply = ''m1'', do_history = [], do_chain = None, do_type = None, do_participants = [], do_lead = None\<rparr>
       \<lparr>faults = [], db = demo_db\<rparr> of
     (Inr rep, w) \<Rightarrow> mset (map fst (dr_dispatched rep)) + mset (map (fst \<circ> fst) (dr_failed rep)) =
        mset (map a_id (d_agents demo_db))
   | (Inl e, w) \<Rightarrow> False"
proof -
  let ?o = "\<lparr>do_thread = ''t1'', do_thread_text = ''t1'', do_agents = d_agents demo_db,
       do_reply = ''m1'', do_history = [], do_chain = None, do_type = None, do_participants = [], do_lead = None\<rparr>"
  have "case fst (dispatch_to_agents demo_env ?o \<lparr>faults = [], db = demo_db\<rparr>) of Inr rep \<Rightarrow> True | Inl e \<Rightarrow> False"
    by code_simp
  then obtain rep w where "dispatch_to_agents demo_env ?o \<lparr>faults = [], db = demo_db\<rparr> = (Inr rep, w)"
    by (cases "dispatch_to_agents demo_env ?o \<lparr>faults = [], db = demo_db\<rparr>") (auto split: sum.splits)
  from dispatch_accounts [OF this] show ?thesis by (simp add: \<open>dispatch_to_agents demo_env ?o _ = _\<close>)
qed

end
