(* ===== verification/ChatStream.thy ===== *)
theory ChatStream
  imports ChatProps
begin

text \<open>
  The event stream of a thread (\<open>GET /threads/:id/stream\<close> and \<open>helpers/chat-backfill.ts\<close>): a
  cursor over the message numbers, a bounded backfill on the first poll, and a poll of
  everything above the cursor each second. A poll is given whether its queries succeed. The
  chat routes run between the polls, so a run is an interleaving of both; the bounded
  writer the frames go through is \<open>Streams.sse\<close>, and a stream it has ended polls no more.
\<close>

section \<open>The stream\<close>

datatype frame = BackfillFrame nat nat "nat option" bool | MessageFrame msg

record stream =
  sm_cursor :: int
  sm_backfill :: bool
  sm_frames :: "frame list"
  sm_failures :: nat

definition sse_backfill_limit :: nat where
  "sse_backfill_limit = 500"

text \<open>\<open>Last-Event-ID\<close>, parsed with \<open>parseInt\<close>; 0 when it is absent, empty or not a number.\<close>

definition initial_cursor :: "string option \<Rightarrow> int" where
  "initial_cursor hdr =
     (case hdr of
        None \<Rightarrow> 0
      | Some s \<Rightarrow> if s = [] then 0
                  else (case js_parseInt s of Fin q \<Rightarrow> \<lfloor>q\<rfloor> | _ \<Rightarrow> 0))"

definition above_cursor :: "string option \<Rightarrow> int \<Rightarrow> chat_db \<Rightarrow> msg list" where
  "above_cursor u c d = filter (\<lambda>m. Some (m_thread m) = u \<and> int (m_seq m) > c) (d_msgs d)"

text \<open>\<open>POLL_SQL\<close>: ascending.\<close>

definition poll_rows :: "string option \<Rightarrow> int \<Rightarrow> chat_db \<Rightarrow> msg list" where
  "poll_rows u c d = sort_key m_seq (above_cursor u c d)"

text \<open>\<open>BACKFILL_TAIL_SQL\<close>: the newest \<open>n\<close>, ascending again.\<close>

definition backfill_tail :: "string option \<Rightarrow> int \<Rightarrow> nat \<Rightarrow> chat_db \<Rightarrow> msg list" where
  "backfill_tail u c n d = rev (take n (rev (poll_rows u c d)))"

definition thread_message_count :: "string option \<Rightarrow> chat_db \<Rightarrow> nat" where
  "thread_message_count u d = length (filter (\<lambda>m. Some (m_thread m) = u) (d_msgs d))"

definition notice_frame :: "msg list \<Rightarrow> nat \<Rightarrow> frame" where
  "notice_frame rows n =
     BackfillFrame (length rows) n (case rows of [] \<Rightarrow> None | m # _ \<Rightarrow> Some (m_seq m)) (n > length rows)"

fun emit_rows :: "msg list \<Rightarrow> stream \<Rightarrow> stream" where
  "emit_rows [] s = s"
| "emit_rows (m # ms) s =
     emit_rows ms (s\<lparr>sm_frames := sm_frames s @ [MessageFrame m], sm_cursor := int (m_seq m)\<rparr>)"

text \<open>
  One tick: \<open>ok1\<close> says that the row query succeeds, \<open>ok2\<close> that the count query does. The
  backfill flag is cleared between the two.
\<close>

definition poll_tick :: "bool \<Rightarrow> bool \<Rightarrow> string option \<Rightarrow> chat_db \<Rightarrow> stream \<Rightarrow> stream" where
  "poll_tick ok1 ok2 u d s =
     (if \<not> ok1 then s\<lparr>sm_failures := Suc (sm_failures s)\<rparr>
      else if sm_backfill s
      then (let rows = backfill_tail u (sm_cursor s) sse_backfill_limit d;
                s1 = s\<lparr>sm_backfill := False\<rparr> in
            if \<not> ok2 then s1\<lparr>sm_failures := Suc (sm_failures s1)\<rparr>
            else emit_rows rows (s1\<lparr>sm_frames := sm_frames s1 @ [notice_frame rows (thread_message_count u d)],
                                    sm_failures := 0\<rparr>))
      else emit_rows (poll_rows u (sm_cursor s) d) (s\<lparr>sm_failures := 0\<rparr>))"

datatype stream_event = Route chat_event | Tick bool bool

fun stream_step :: "string option \<Rightarrow> stream_event \<Rightarrow> chat_db \<times> stream \<Rightarrow> chat_db \<times> stream" where
  "stream_step u (Route ev) (d, s) = (chat_step ev d, s)"
| "stream_step u (Tick ok1 ok2) (d, s) = (d, poll_tick ok1 ok2 u d s)"

section \<open>What a reader has seen\<close>

definition seen :: "frame list \<Rightarrow> msg \<Rightarrow> bool" where
  "seen fs m = (\<exists>m0. MessageFrame m0 \<in> set fs \<and> m_id m0 = m_id m \<and> visible m0 = visible m)"

definition known :: "msg set \<Rightarrow> msg \<Rightarrow> bool" where
  "known K m = (\<exists>m0 \<in> K. m_id m0 = m_id m \<and> visible m0 = visible m)"

text \<open>
  The invariant of a stream past its backfill whose reader already had the rows \<open>K\<close>: every
  row of the thread at or below the cursor has been seen in its present state.
\<close>

definition stream_inv :: "msg set \<Rightarrow> string option \<Rightarrow> chat_db \<times> stream \<Rightarrow> bool" where
  "stream_inv K u ds =
     (case ds of (d, s) \<Rightarrow> chat_inv d \<and> \<not> sm_backfill s \<and> sm_cursor s \<le> int (d_seq d) \<and>
        (\<forall>m \<in> set (d_msgs d). Some (m_thread m) = u \<and> int (m_seq m) \<le> sm_cursor s \<longrightarrow>
           known K m \<or> seen (sm_frames s) m))"

lemma emit_rows_frames: "sm_frames (emit_rows ms s) = sm_frames s @ map MessageFrame ms"
  by (induction ms arbitrary: s) auto

lemma emit_rows_cursor:
  "sm_cursor (emit_rows ms s) = (if ms = [] then sm_cursor s else int (m_seq (last ms)))"
  by (induction ms arbitrary: s) auto

lemma emit_rows_flags: "sm_backfill (emit_rows ms s) = sm_backfill s" "sm_failures (emit_rows ms s) = sm_failures s"
  by (induction ms arbitrary: s) auto

lemma set_poll_rows: "set (poll_rows u c d) = {m \<in> set (d_msgs d). Some (m_thread m) = u \<and> int (m_seq m) > c}"
  by (auto simp: poll_rows_def above_cursor_def)

lemma last_poll_rows:
  assumes "m \<in> set (poll_rows u c d)"
  shows "m_seq m \<le> m_seq (last (poll_rows u c d))"
proof -
  have "sorted (map m_seq (poll_rows u c d))" by (simp add: poll_rows_def)
  moreover obtain ys z where "poll_rows u c d = ys @ [z]"
    using assms by (cases "poll_rows u c d" rule: rev_cases) auto
  ultimately show ?thesis using assms by (auto simp: sorted_append)
qed

lemma tick_seen:
  assumes inv: "stream_inv K u (d, s)" and m: "m \<in> set (d_msgs d)" "Some (m_thread m) = u"
  shows "known K m \<or> seen (sm_frames (poll_tick True ok2 u d s)) m"
proof (cases "int (m_seq m) \<le> sm_cursor s")
  case True
  then show ?thesis using inv m
    by (auto simp: stream_inv_def poll_tick_def emit_rows_frames seen_def)
next
  case False
  then have "m \<in> set (poll_rows u (sm_cursor s) d)" using m by (simp add: set_poll_rows)
  then show ?thesis using inv
    by (auto simp: stream_inv_def poll_tick_def emit_rows_frames seen_def)
qed

lemma tick_inv:
  assumes inv: "stream_inv K u (d, s)"
  shows "stream_inv K u (d, poll_tick ok1 ok2 u d s)"
proof (cases ok1)
  case False
  then show ?thesis using inv by (simp add: stream_inv_def poll_tick_def)
next
  case True
  have bf: "\<not> sm_backfill s" and le: "\<forall>m \<in> set (d_msgs d). m_seq m \<le> d_seq d"
    and c: "sm_cursor s \<le> int (d_seq d)" and ci: "chat_inv d"
    using inv by (auto simp: stream_inv_def chat_inv_def)
  let ?s = "poll_tick ok1 ok2 u d s"
  have s': "?s = emit_rows (poll_rows u (sm_cursor s) d) (s\<lparr>sm_failures := 0\<rparr>)"
    using True bf by (simp add: poll_tick_def)
  have "sm_cursor ?s \<le> int (d_seq d)"
  proof (cases "poll_rows u (sm_cursor s) d = []")
    case False
    then have "last (poll_rows u (sm_cursor s) d) \<in> set (d_msgs d)"
      using last_in_set [OF False] by (simp add: set_poll_rows)
    then show ?thesis using le False by (simp add: s' emit_rows_cursor)
  qed (use c in \<open>simp add: s' emit_rows_cursor\<close>)
  moreover have "\<not> sm_backfill ?s" using bf by (simp add: s' emit_rows_flags)
  ultimately show ?thesis using tick_seen [OF inv, of _ ok2] ci True by (auto simp: stream_inv_def)
qed

lemma route_inv:
  assumes inv: "stream_inv K u (d, s)"
  shows "stream_inv K u (chat_step ev d, s)"
proof -
  have ci: "chat_inv d" and c: "sm_cursor s \<le> int (d_seq d)" using inv by (auto simp: stream_inv_def)
  have sc: "since d (chat_step ev d)" by (rule step_since) (simp add: since_def ci)
  then have mono: "d_seq d \<le> d_seq (chat_step ev d)" by (simp add: since_def announced_def)
  have "known K m' \<or> seen (sm_frames s) m'"
    if m': "m' \<in> set (d_msgs (chat_step ev d))" "Some (m_thread m') = u" "int (m_seq m') \<le> sm_cursor s" for m'
  proof -
    have "\<not> d_seq d < m_seq m'" using m'(3) c by simp
    then obtain m where m: "m \<in> set (d_msgs d)" and e: "msg_evolves (d_seq d) m m'"
      using sc m'(1) by (auto simp: since_def announced_def)
    have same: "m_id m' = m_id m" "m_thread m' = m_thread m" "visible m' = visible m" "m_seq m \<le> m_seq m'"
      using e \<open>\<not> d_seq d < m_seq m'\<close> by (auto simp: msg_evolves_def frozen_def)
    have "Some (m_thread m) = u" "int (m_seq m) \<le> sm_cursor s" using same m'(2,3) by simp_all
    then have "known K m \<or> seen (sm_frames s) m" using inv m by (auto simp: stream_inv_def)
    then show ?thesis using same by (simp add: known_def seen_def)
  qed
  then show ?thesis using inv sc mono by (auto simp: stream_inv_def since_def)
qed

text \<open>The stream beside the routes is a transition system with that invariant.\<close>

interpretation stream_sys: guarded_system "stream_step u" "stream_inv K u" for K u
proof
  fix s c assume "stream_inv K u s"
  then show "stream_inv K u (stream_step u c s)"
    by (cases s; cases c) (simp_all add: route_inv tick_inv)
qed

section \<open>Properties\<close>


definition demo_stream :: stream where
  "demo_stream = \<lparr>sm_cursor = 1, sm_backfill = False, sm_frames = [], sm_failures = 0\<rparr>"


text \<open>
  The backfill is the newest page and says so. The first tick, when both its queries
  succeed, delivers the newest 500 messages above the cursor, oldest of them first, after one
  notice with their number, the number of messages in the thread, the first sequence number
  sent, and whether the thread has more; the cursor ends on the last one delivered.
\<close>

theorem backfill_is_newest_page:
  assumes "sm_backfill s" and "rows = poll_rows u (sm_cursor s) d"
    and "page = drop (length rows - sse_backfill_limit) rows"
  shows "sm_frames (poll_tick True True u d s) =
      sm_frames s @ BackfillFrame (length page) (thread_message_count u d)
        (case page of [] \<Rightarrow> None | m # _ \<Rightarrow> Some (m_seq m)) (length page < thread_message_count u d) #
        map MessageFrame page \<and>
    length page \<le> sse_backfill_limit \<and> sorted (map m_seq page) \<and>
    (\<forall>x \<in> set rows - set page. \<forall>y \<in> set page. m_seq x \<le> m_seq y) \<and>
    sm_cursor (poll_tick True True u d s) = (if page = [] then sm_cursor s else int (m_seq (last page)))"
proof -
  have page: "backfill_tail u (sm_cursor s) sse_backfill_limit d = page"
    by (simp add: backfill_tail_def assms(2,3) take_rev)
  have sorted: "sorted (map m_seq rows)" by (simp add: assms(2) poll_rows_def)
  have split: "rows = take (length rows - sse_backfill_limit) rows @ page" by (simp add: assms(3))
  have "sorted (map m_seq (take (length rows - sse_backfill_limit) rows @ page))"
    using sorted split by simp
  then have s2: "sorted (map m_seq page)"
    "\<forall>x \<in> set (take (length rows - sse_backfill_limit) rows). \<forall>y \<in> set page. m_seq x \<le> m_seq y"
    by (auto simp: sorted_append)
  have "set rows - set page \<subseteq> set (take (length rows - sse_backfill_limit) rows)"
    using arg_cong [OF split, of set] by auto
  then show ?thesis using s2
    by (auto simp: poll_tick_def assms(1) page Let_def emit_rows_frames emit_rows_cursor notice_frame_def
        assms(3) split: list.splits)
qed

theorem backfill_is_newest_page_witness:
  "map m_seq (poll_rows (Some ''t1'') 0 demo_db) = [1, 2, 3] \<and>
   sm_cursor (poll_tick True True (Some ''t1'') demo_db (demo_stream\<lparr>sm_cursor := 0, sm_backfill := True\<rparr>)) = 3"
proof -
  have rows: "map m_seq (poll_rows (Some ''t1'') 0 demo_db) = [1, 2, 3]" by code_simp
  have len: "length (poll_rows (Some ''t1'') 0 demo_db) = 3" by code_simp
  have last: "m_seq (last (poll_rows (Some ''t1'') 0 demo_db)) = 3" by code_simp
  let ?s = "demo_stream\<lparr>sm_cursor := 0, sm_backfill := True\<rparr>"
  have "sm_cursor (poll_tick True True (Some ''t1'') demo_db ?s) =
      (if poll_rows (Some ''t1'') 0 demo_db = [] then sm_cursor ?s
       else int (m_seq (last (poll_rows (Some ''t1'') 0 demo_db))))"
    using backfill_is_newest_page [of ?s "poll_rows (Some ''t1'') 0 demo_db" "Some ''t1''" demo_db
        "poll_rows (Some ''t1'') 0 demo_db"] len
    by (simp add: sse_backfill_limit_def)
  then show ?thesis using rows last len by auto
qed

text \<open>
  A failed count turns the bounded backfill into an unbounded one. When the row query of
  the first tick succeeds and its count query fails, the flag is already cleared: the next
  tick delivers every message above the original cursor, however many there are, and no
  notice is ever sent.
\<close>

theorem backfill_bound_lost:
  assumes "sm_backfill s"
  shows "sm_frames (poll_tick True True u d (poll_tick True False u d s)) =
    sm_frames s @ map MessageFrame (poll_rows u (sm_cursor s) d)"
  using assms by (simp add: poll_tick_def Let_def emit_rows_frames)

theorem backfill_bound_lost_witness:
  "length (sm_frames (poll_tick True True (Some ''t1'') demo_db
     (poll_tick True False (Some ''t1'') demo_db (demo_stream\<lparr>sm_cursor := 0, sm_backfill := True\<rparr>)))) = 3"
proof -
  have len: "length (map MessageFrame (poll_rows (Some ''t1'') 0 demo_db)) = 3" by code_simp
  show ?thesis
    using backfill_bound_lost [of "demo_stream\<lparr>sm_cursor := 0, sm_backfill := True\<rparr>" "Some ''t1''" demo_db] len
    by (simp add: demo_stream_def)
qed

end
