(* ===== verification/ChatReasons.thy ===== *)
theory ChatReasons
  imports ChatDispatch
begin

text \<open>
  The reason of a failed dispatch is stored where users read it. This theory shows that the
  sanitizer of \<open>routes/chat.ts\<close> keeps the agent's work token out of it, for tokens of the
  form the api generates (lower-case hexadecimal digits and hyphens, longer than eight).
\<close>

section \<open>Occurrences\<close>

lemma sublist_barrier:
  assumes "sublist t (u @ c # v)" and "c \<notin> set t"
  shows "sublist t u \<or> sublist t v"
proof -
  obtain a b where e: "u @ c # v = a @ t @ b" using assms(1) by (auto simp: sublist_def)
  show ?thesis
  proof (cases "length a + length t \<le> length u")
    case True
    have "take (length a + length t) (u @ c # v) = a @ t" using e by simp
    then have "prefix (a @ t) u" using True by (metis append_take_drop_id diff_is_0_eq' prefixI
        take_append take_eq_Nil append_Nil2)
    then show ?thesis by (auto simp: prefix_def sublist_def)
  next
    case False
    have "length u < length a"
    proof (rule ccontr)
      assume "\<not> length u < length a"
      then have "length u - length a < length t" using False by simp
      moreover have "(u @ c # v) ! length u = c" by simp
      ultimately have "t ! (length u - length a) = c"
        using e \<open>\<not> length u < length a\<close> by (simp add: nth_append)
      then show False using assms(2) \<open>length u - length a < length t\<close> by (metis nth_mem)
    qed
    then have "drop (length u + 1) (u @ c # v) = drop (length u + 1) a @ t @ b"
      using e by simp
    then have "v = drop (length u + 1) a @ t @ b" by simp
    then show ?thesis by (auto simp: sublist_def)
  qed
qed

lemma sublist_longer: "sublist t s \<Longrightarrow> length s < length t \<Longrightarrow> False"
  by (auto dest: sublist_length_le)

lemma sublist_inside: "sublist t a \<Longrightarrow> sublist t (u @ a @ v)"
  unfolding sublist_def by (metis append.assoc)

lemma sublist_inside': "sublist t a \<Longrightarrow> sublist t (a @ v)" "sublist t a \<Longrightarrow> sublist t (u @ a)"
  using sublist_inside [of t a "[]" v] sublist_inside [of t a u "[]"] by simp_all

section \<open>Replacing the token\<close>

lemma replace_all_split:
  assumes "t \<noteq> []"
  shows "\<not> sublist t s \<and> replace_all t by s = s \<or>
    (\<exists>pre rest. s = pre @ t @ rest \<and> \<not> sublist t pre \<and> replace_all t by s = pre @ by @ replace_all t by rest)"
proof (induction s)
  case Nil
  then show ?case using assms by (simp add: replace_all.simps)
next
  case (Cons c cs)
  show ?case
  proof (cases "take (length t) (c # cs) = t")
    case True
    then have "c # cs = [] @ t @ drop (length t) (c # cs)" by (metis append_Nil append_take_drop_id)
    moreover have "replace_all t by (c # cs) = [] @ by @ replace_all t by (drop (length t) (c # cs))"
      using True assms by (subst replace_all.simps) simp
    moreover have "\<not> sublist t []" using assms by simp
    ultimately show ?thesis by blast
  next
    case False
    have step: "replace_all t by (c # cs) = c # replace_all t by cs"
      using False by (subst replace_all.simps) simp
    have np: "\<not> prefix t (c # cs)" using False by (auto simp: prefix_def)
    from Cons show ?thesis
    proof (elim disjE exE conjE)
      assume "\<not> sublist t cs" "replace_all t by cs = cs"
      then show ?thesis using np step by (auto simp: sublist_Cons_right)
    next
      fix pre rest
      assume cs: "cs = pre @ t @ rest" and "\<not> sublist t pre"
        and r: "replace_all t by cs = pre @ by @ replace_all t by rest"
      moreover have "\<not> prefix t (c # pre)"
        using np unfolding cs by (metis append_Cons prefix_prefix)
      ultimately have "c # cs = (c # pre) @ t @ rest" "\<not> sublist t (c # pre)"
        "replace_all t by (c # cs) = (c # pre) @ by @ replace_all t by rest"
        using step by (simp_all add: sublist_Cons_right)
      then show ?thesis by blast
    qed
  qed
qed

definition token_char :: "char \<Rightarrow> bool" where
  "token_char c = (is_digit c \<or> c = CHR ''-'' \<or> c \<in> set ''abcdef'')"

definition token_like :: "string \<Rightarrow> bool" where
  "token_like t = (8 < length t \<and> (\<forall>c \<in> set t. token_char c))"

lemma token_like_not:
  "token_like t \<Longrightarrow> \<not> token_char c \<Longrightarrow> c \<notin> set t"
  by (auto simp: token_like_def)

lemma outside_token:
  "\<not> token_char (CHR ''['')" "\<not> token_char (CHR '']'')" "\<not> token_char (CHR ''B'')"
  "\<not> token_char (CHR '' '')" "\<not> token_char (CHR 0xE2)"
  by (simp_all add: token_char_def is_digit_def)

lemma redacted_barrier:
  assumes t: "token_like t" and s: "sublist t (u @ redacted @ v)"
  shows "sublist t u \<or> sublist t v"
proof -
  have e: "u @ redacted @ v = u @ CHR ''['' # (''REDACTED'' @ CHR '']'' # v)" by (simp add: redacted_def)
  have "sublist t u \<or> sublist t (''REDACTED'' @ CHR '']'' # v)"
    using sublist_barrier [OF s [unfolded e]] token_like_not [OF t outside_token(1)] by blast
  moreover have "\<not> sublist t ''REDACTED''" using t sublist_longer [of t "''REDACTED''"]
    by (auto simp: token_like_def)
  ultimately show ?thesis
    using sublist_barrier [of t "''REDACTED''" "CHR '']''" v] token_like_not [OF t outside_token(2)] by blast
qed

lemma replace_all_removes:
  assumes t: "token_like t"
  shows "\<not> sublist t (replace_all t redacted s)"
proof (induction s rule: length_induct)
  case (1 s)
  have ne: "t \<noteq> []" using t by (auto simp: token_like_def)
  from replace_all_split [OF ne, of s redacted] show ?case
  proof (elim disjE exE conjE)
    assume "\<not> sublist t s" "replace_all t redacted s = s"
    then show ?thesis by simp
  next
    fix pre rest
    assume s: "s = pre @ t @ rest" and pre: "\<not> sublist t pre"
      and r: "replace_all t redacted s = pre @ redacted @ replace_all t redacted rest"
    have "\<not> sublist t (replace_all t redacted rest)" using 1 ne by (simp add: s)
    then show ?thesis using redacted_barrier [OF t] pre r by auto
  qed
qed

section \<open>The bearer pattern brings no token back\<close>

lemma bearer_at_suffix: "bearer_at s = Some r \<Longrightarrow> suffix r s"
  by (auto simp: bearer_at_def Let_def split: if_splits)
    (meson suffix_dropWhile suffix_drop suffix_order.trans)

lemma redact_bearer_split:
  "redact_bearer s = s \<or>
   (\<exists>pre mid r. s = pre @ mid @ r \<and> mid \<noteq> [] \<and>
      redact_bearer s = pre @ ''Bearer '' @ redacted @ redact_bearer r)"
proof (induction s)
  case Nil
  then show ?case by (simp add: redact_bearer.simps bearer_at_def)
next
  case (Cons c cs)
  show ?case
  proof (cases "bearer_at (c # cs)")
    case (Some r)
    then obtain mid where mid: "c # cs = mid @ r" using bearer_at_suffix by (auto simp: suffix_def)
    moreover have "mid \<noteq> []" using mid bearer_at_shorter [OF Some] by auto
    moreover have "redact_bearer (c # cs) = [] @ ''Bearer '' @ redacted @ redact_bearer r"
      using Some by (subst redact_bearer.simps) (simp add: redacted_def)
    ultimately show ?thesis by (metis append_Nil)
  next
    case None
    have step: "redact_bearer (c # cs) = c # redact_bearer cs"
      using None by (subst redact_bearer.simps) simp
    from Cons show ?thesis
    proof (elim disjE exE conjE)
      assume "redact_bearer cs = cs" then show ?thesis using step by simp
    next
      fix pre mid r
      assume "cs = pre @ mid @ r" "mid \<noteq> []" "redact_bearer cs = pre @ ''Bearer '' @ redacted @ redact_bearer r"
      then have "c # cs = (c # pre) @ mid @ r" "redact_bearer (c # cs) = (c # pre) @ ''Bearer '' @ redacted @ redact_bearer r"
        using step by simp_all
      then show ?thesis using \<open>mid \<noteq> []\<close> by blast
    qed
  qed
qed

lemma redact_bearer_adds_none:
  assumes t: "token_like t"
  shows "sublist t (redact_bearer s) \<Longrightarrow> sublist t s"
proof (induction s rule: length_induct)
  case (1 s)
  from redact_bearer_split [of s] show ?case
  proof (elim disjE exE conjE)
    assume "redact_bearer s = s" then show ?thesis using 1 by simp
  next
    fix pre mid r
    assume s: "s = pre @ mid @ r" "mid \<noteq> []"
      and e: "redact_bearer s = pre @ ''Bearer '' @ redacted @ redact_bearer r"
    have e': "redact_bearer s = pre @ CHR ''B'' # ((''earer'' @ [CHR '' '']) @ redacted @ redact_bearer r)"
      by (simp add: e)
    have "sublist t pre \<or> sublist t ((''earer'' @ [CHR '' '']) @ redacted @ redact_bearer r)"
      using sublist_barrier 1(2) token_like_not [OF t outside_token(3)] unfolding e' by metis
    moreover have "\<not> sublist t (''earer'' @ [CHR '' ''])"
      using t sublist_longer [of t "''earer'' @ [CHR '' '']"] by (auto simp: token_like_def)
    ultimately have "sublist t pre \<or> sublist t (redact_bearer r)"
      using redacted_barrier [OF t] by blast
    moreover have "sublist t (redact_bearer r) \<Longrightarrow> sublist t r" using 1(1) s by simp
    ultimately show ?thesis unfolding s(1)
      using sublist_inside'(1) [of t pre "mid @ r"] sublist_inside'(2) [of t r "pre @ mid"] by auto
  qed
qed

section \<open>Properties\<close>

text \<open>
  The work token never reaches a stored reason. Whatever an agentbox or the network says
  when a dispatch fails, and however often and wherever it repeats the token, the sanitized
  reason does not contain it; and the reason is at most 500 characters and an ellipsis long.
\<close>

theorem dispatch_reason_hides_token:
  assumes "token_like t"
  shows "\<not> sublist t (sanitize_dispatch_reason reason [Some t]) \<and>
    length (sanitize_dispatch_reason reason [Some t]) \<le> dispatch_reason_max_len + length ellipsis"
proof -
  have ne: "t \<noteq> []" using assms by (auto simp: token_like_def)
  define s2 where "s2 = redact_bearer (replace_all t redacted reason)"
  have s2: "\<not> sublist t s2"
    using redact_bearer_adds_none [OF assms] replace_all_removes [OF assms] unfolding s2_def by blast
  have san: "sanitize_dispatch_reason reason [Some t] =
      (if length s2 > dispatch_reason_max_len then take dispatch_reason_max_len s2 @ ellipsis else s2)"
    using ne by (simp add: sanitize_dispatch_reason_def Let_def s2_def)
  have "\<not> sublist t (take n s2 @ ellipsis)" for n
  proof
    assume "sublist t (take n s2 @ ellipsis)"
    then have "sublist t (take n s2) \<or> sublist t [CHR 0x80, CHR 0xA6]"
      using sublist_barrier [of t "take n s2" "CHR 0xE2" "[CHR 0x80, CHR 0xA6]"]
        token_like_not [OF assms outside_token(5)] by (simp only: ellipsis_def) blast
    moreover have "\<not> sublist t [CHR 0x80, CHR 0xA6]"
      using assms sublist_longer [of t "[CHR 0x80, CHR 0xA6]"] by (auto simp: token_like_def)
    ultimately have "sublist t (take n s2 @ drop n s2)" using sublist_inside'(1) by blast
    then show False using s2 by simp
  qed
  then show ?thesis using s2 san by (auto simp: dispatch_reason_max_len_def)
qed

theorem dispatch_reason_hides_token_witness:
  "token_like ''0123-abcdef'' \<and>
   sanitize_dispatch_reason ''no: Bearer 0123-abcdef 0123-abcdef'' [Some ''0123-abcdef''] =
     ''no: Bearer [REDACTED] [REDACTED]'' \<and>
   \<not> sublist ''0123-abcdef'' (sanitize_dispatch_reason ''no: Bearer 0123-abcdef 0123-abcdef'' [Some ''0123-abcdef''])"
proof -
  have t: "token_like ''0123-abcdef''" by code_simp
  have "sanitize_dispatch_reason ''no: Bearer 0123-abcdef 0123-abcdef'' [Some ''0123-abcdef''] =
     ''no: Bearer [REDACTED] [REDACTED]''" by code_simp
  then show ?thesis using dispatch_reason_hides_token [OF t] t by blast
qed

end
