(* ===== verification/Binary64.thy ===== *)
theory Binary64
  imports JsValue
begin

text \<open>
  Facts on the binary64 arithmetic of JsValue that several components use: rounding does not
  cross small integers, integers of at most 52 bits are exact, and so is reading the decimal
  digits of such a number.
\<close>

section \<open>Bounds of binary64 rounding\<close>

text \<open>
  Rounding never crosses an integer of at most 52 bits. This is what keeps a value below a
  ceiling after the multiplication that converts it to the engine's unit.
\<close>

lemma bitlen_aux_bounds:
  assumes "1 \<le> n" shows "2 ^ nat (bitlen_aux n) \<le> n \<and> n < 2 ^ nat (bitlen_aux n + 1) \<and> 0 \<le> bitlen_aux n"
  using assms
proof (induction n rule: bitlen_aux.induct)
  case (1 n)
  show ?case
  proof (cases "n < 2")
    case True
    then show ?thesis using 1 by (simp add: bitlen_aux.simps)
  next
    case False
    then have ih: "2 ^ nat (bitlen_aux (n div 2)) \<le> n div 2 \<and> n div 2 < 2 ^ nat (bitlen_aux (n div 2) + 1) \<and> 0 \<le> bitlen_aux (n div 2)"
      using 1 by simp
    let ?k = "nat (bitlen_aux (n div 2))"
    have "bitlen_aux n = 1 + bitlen_aux (n div 2)"
      using False by (simp add: bitlen_aux.simps)
    then have k: "nat (bitlen_aux n) = Suc ?k" "nat (bitlen_aux n + 1) = Suc (Suc ?k)"
      using ih by (simp_all add: nat_add_distrib)
    have "nat (bitlen_aux (n div 2) + 1) = Suc ?k" using ih by (simp add: nat_add_distrib)
    then have "(2::int) ^ ?k \<le> n div 2" "n div 2 < 2 * 2 ^ ?k" using ih by simp_all
    then have "2 * (2::int) ^ ?k \<le> n" "n < 2 * (2 * 2 ^ ?k)" by linarith+
    moreover have "0 \<le> bitlen_aux n" using ih \<open>bitlen_aux n = 1 + bitlen_aux (n div 2)\<close> by simp
    ultimately show ?thesis using k by simp
  qed
qed

lemma pow2_pos [simp]: "0 < pow2 k"
  by (simp add: pow2_def)

lemma pow2_powi: "pow2 k = 2 powi k"
  by (simp add: pow2_def power_int_def power_one_over inverse_eq_divide)

lemma pow2_mono: "j \<le> k \<Longrightarrow> pow2 j \<le> pow2 k"
  by (simp add: pow2_powi power_int_increasing)

lemma ilog2_le:
  assumes "0 < x" shows "pow2 (ilog2 x) \<le> x"
proof -
  obtain a b where ab: "quotient_of x = (a, b)" by force
  have b: "0 < b" and x: "x = of_int a / of_int b"
    using quotient_of_denom_pos[OF ab] quotient_of_div[OF ab] by auto
  have a: "0 < a" using assms x b by (simp add: zero_less_divide_iff)
  let ?j = "bitlen_aux a" and ?l = "bitlen_aux b"
  have ja: "2 ^ nat ?j \<le> a" "0 \<le> ?j" and lb: "b < 2 ^ nat (?l + 1)" "0 \<le> ?l"
    using bitlen_aux_bounds[of a] bitlen_aux_bounds[of b] a b by auto
  have A: "pow2 ?j \<le> of_int a" unfolding pow2_def using ja by simp
  have B: "of_int b \<le> pow2 (?l + 1)" unfolding pow2_def
    using lb by (simp add: less_imp_le)
  have "pow2 (?j - ?l - 1) = pow2 ?j / pow2 (?l + 1)"
    by (simp add: pow2_powi power_int_diff[symmetric] diff_diff_eq)
  also have "\<dots> \<le> of_int a / of_int b"
    using A B a b by (intro frac_le) (auto intro: less_imp_le)
  finally have "pow2 (?j - ?l - 1) \<le> x" using x by simp
  then show ?thesis by (simp add: ilog2_def ab Let_def)
qed

lemma round_even_le:
  assumes "q \<le> of_int n" shows "round_even q \<le> n"
proof (cases "q = of_int n")
  case True
  then show ?thesis by (simp add: round_even_def Let_def)
next
  case False
  with assms have "\<lfloor>q\<rfloor> < n" by (simp add: floor_less_iff)
  then show ?thesis by (auto simp: round_even_def Let_def)
qed

lemma round_even_ge:
  assumes "of_int n \<le> q" shows "n \<le> round_even q"
proof -
  have "n \<le> \<lfloor>q\<rfloor>" using assms by (simp add: le_floor_iff)
  then show ?thesis by (auto simp: round_even_def Let_def)
qed

lemma f64_pos_nonneg: "0 \<le> x \<Longrightarrow> 0 \<le> f64_pos x"
  using round_even_ge[of 0 "x / pow2 (max (ilog2 x - 52) (- 1074))"]
  by (simp add: f64_pos_def Let_def divide_nonneg_pos order.strict_implies_order)

lemma f64_pos_le_int:
  assumes "0 < x" "x \<le> of_int c" "c \<le> 2 ^ 52" shows "f64_pos x \<le> of_int c"
proof -
  let ?e = "max (ilog2 x - 52) (- 1074)"
  have "pow2 (ilog2 x) \<le> 2 ^ 52"
    using ilog2_le[OF assms(1)] assms(2,3) of_int_le_iff[of c "2 ^ 52", where 'a=rat] by simp
  then have "(2::rat) powi (ilog2 x) \<le> 2 powi 52" by (simp add: pow2_powi power_int_def)
  then have "ilog2 x \<le> 52" by (rule power_int_le_imp_le_exp[rotated]) simp_all
  then have e: "?e \<le> 0" by simp
  let ?n = "c * 2 ^ nat (- ?e)"
  have u: "pow2 ?e = 1 / 2 ^ nat (- ?e)" using e by (simp add: pow2_def split: if_splits)
  have "x / pow2 ?e \<le> of_int ?n" using assms(2) u by simp
  then have "round_even (x / pow2 ?e) \<le> ?n" by (rule round_even_le)
  then have "of_int (round_even (x / pow2 ?e)) * pow2 ?e \<le> of_int ?n * pow2 ?e"
    by (intro mult_right_mono) (auto intro: less_imp_le simp del: of_int_mult)
  also have "of_int ?n * pow2 ?e = of_int c" by (simp add: u)
  finally show ?thesis by (simp add: f64_pos_def Let_def)
qed

lemma f64_bounds:
  assumes "0 \<le> x" "x \<le> of_int c" "c \<le> 2 ^ 52" shows "0 \<le> f64 x \<and> f64 x \<le> of_int c"
  using assms f64_pos_le_int[of x c] f64_pos_nonneg[of x] by (auto simp: f64_def)

lemma f64_nonneg: "0 \<le> x \<Longrightarrow> 0 \<le> f64 x"
  using f64_pos_nonneg by (auto simp: f64_def)

lemma to_num_bounds:
  assumes "0 \<le> x" "x \<le> of_int c" "c \<le> 2 ^ 52"
  shows "\<exists>y. to_num x = Fin y \<and> 0 \<le> y \<and> y \<le> of_int c"
proof -
  have b: "0 \<le> f64 x" "f64 x \<le> of_int c" using f64_bounds[OF assms] by auto
  have "of_int c \<le> (2::rat) ^ 52" using assms(3) of_int_le_iff[of c "2 ^ 52", where 'a=rat] by simp
  then have "f64 x < 2 ^ 1024" using b(2) order.strict_trans1[of "f64 x" "2 ^ 52" "2 ^ 1024"]
    by (simp add: order.trans)
  moreover have "- (2 ^ 1024) < f64 x" using b(1) by (smt (verit) zero_less_power neg_less_0_iff_less zero_less_numeral order_less_le_trans)
  ultimately show ?thesis using b by (auto simp: to_num_def Let_def not_le)
qed

lemma digits_val_nonneg: "(\<And>d. d \<in> set ds \<Longrightarrow> is_digit d) \<Longrightarrow> 0 \<le> digits_val ds"
proof -
  have "0 \<le> n \<Longrightarrow> 0 \<le> foldl (\<lambda>n d. 10 * n + digit_val d) n ds"
    if "\<And>d. d \<in> set ds \<Longrightarrow> is_digit d" for n using that
    by (induction ds arbitrary: n) (simp_all add: is_digit_def digit_val_def Let_def)
  then show "(\<And>d. d \<in> set ds \<Longrightarrow> is_digit d) \<Longrightarrow> 0 \<le> digits_val ds"
    by (simp add: digits_val_def)
qed


section \<open>Small integers are exact\<close>

lemma round_even_of_int [simp]: "round_even (of_int n) = n"
  by (simp add: round_even_def)

lemma f64_of_int:
  assumes "0 \<le> n" "n \<le> 2 ^ 52" shows "f64 (of_int n) = of_int n"
proof (cases "n = 0")
  case False
  then have n: "0 < n" using assms by simp
  let ?x = "of_int n :: rat"
  let ?e = "max (ilog2 ?x - 52) (- 1074)"
  have "pow2 (ilog2 ?x) \<le> ?x" using n by (intro ilog2_le) simp
  also have "?x \<le> 2 ^ 52" using assms(2) of_int_le_iff[of n "2 ^ 52", where 'a=rat] by simp
  finally have "(2::rat) powi (ilog2 ?x) \<le> 2 powi 52" by (simp add: pow2_powi power_int_def)
  then have "ilog2 ?x \<le> 52" by (rule power_int_le_imp_le_exp[rotated]) simp_all
  then have e: "?e \<le> 0" by simp
  then have u: "pow2 ?e = 1 / 2 ^ nat (- ?e)" by (simp add: pow2_def split: if_splits)
  have "?x / pow2 ?e = of_int (n * 2 ^ nat (- ?e))" by (simp add: u)
  then have "round_even (?x / pow2 ?e) = n * 2 ^ nat (- ?e)" by (simp only: round_even_of_int)
  then have "f64_pos ?x = ?x" by (simp add: f64_pos_def Let_def u)
  then show ?thesis using n by (simp add: f64_def)
qed (simp add: f64_def)

lemma to_num_of_int:
  assumes "0 \<le> n" "n \<le> 2 ^ 52" shows "to_num (of_int n) = Fin (of_int n)"
proof -
  have "(of_int n :: rat) \<le> 2 ^ 52" using assms(2) of_int_le_iff[of n "2 ^ 52", where 'a=rat] by simp
  then have "(of_int n :: rat) < 2 ^ 1024" by (rule order.strict_trans1) simp
  moreover have "- (2 ^ 1024) < (of_int n :: rat)" using assms(1)
    by (smt (verit) of_int_nonneg zero_less_power neg_less_0_iff_less zero_less_numeral order_less_le_trans)
  ultimately show ?thesis by (simp add: to_num_def f64_of_int[OF assms] Let_def not_le)
qed

section \<open>Decimal digits\<close>

definition digit_char :: "nat \<Rightarrow> char" where
  "digit_char n = char_of (48 + n)"

text \<open>The decimal form of a natural number.\<close>

fun decimal :: "nat \<Rightarrow> string" where
  "decimal n = (if n < 10 then [digit_char n] else decimal (n div 10) @ [digit_char (n mod 10)])"

declare decimal.simps [simp del]

lemma digit_char_facts:
  assumes "n < 10" shows "is_digit (digit_char n)" "digit_val (digit_char n) = int n"
proof -
  have "(of_char (digit_char n) :: nat) = 48 + n" using assms by (simp add: digit_char_def)
  then have "(of_char (digit_char n) :: int) = 48 + int n"
    by (metis of_nat_of_char of_nat_add of_nat_numeral)
  then show "is_digit (digit_char n)" "digit_val (digit_char n) = int n"
    using assms by (simp_all add: is_digit_def digit_val_def Let_def)
qed

lemma decimal_digits: "\<forall>c \<in> set (decimal n). is_digit c" "decimal n \<noteq> []"
proof (induction n rule: decimal.induct)
  case (1 n)
  show "\<forall>c \<in> set (decimal n). is_digit c" "decimal n \<noteq> []"
    using 1 by (auto simp: decimal.simps[of n] digit_char_facts)
qed

lemma digits_val_snoc: "digits_val (ds @ [c]) = 10 * digits_val ds + digit_val c"
  by (simp add: digits_val_def)

lemma decimal_val: "digits_val (decimal n) = int n"
proof (induction n rule: decimal.induct)
  case (1 n)
  show ?case
  proof (cases "n < 10")
    case True
    then show ?thesis by (simp add: decimal.simps[of n] digits_val_def digit_char_facts)
  next
    case False
    have "int n = 10 * int (n div 10) + int (n mod 10)"
      using arg_cong[OF mult_div_mod_eq[of 10 n, symmetric], of int] by (simp only: of_nat_add of_nat_mult of_nat_numeral)
    then show ?thesis using 1 False by (simp add: decimal.simps[of n] digits_val_snoc digit_char_facts)
  qed
qed

lemma decimal_head: "0 < n \<Longrightarrow> hd (decimal n) \<noteq> CHR ''0''"
proof (induction n rule: decimal.induct)
  case (1 n)
  show ?case
  proof (cases "n < 10")
    case True
    then have "digit_val (digit_char n) = int n" by (rule digit_char_facts)
    moreover have "digit_val CHR ''0'' = 0" by (simp add: digit_val_def)
    ultimately show ?thesis using True 1(2) by (auto simp: decimal.simps[of n])
  next
    case False
    then have "decimal n = decimal (n div 10) @ [digit_char (n mod 10)]" by (simp add: decimal.simps[of n])
    then show ?thesis using 1(1) False decimal_digits(2)[of "n div 10"] by (simp add: hd_append)
  qed
qed

end
