(* ===== verification/AgentLimits.thy ===== *)
theory AgentLimits
  imports Binary64 Effects
begin

text \<open>
  Resource limits of agent containers: the ceilings of \<open>helpers/agent-resource-limits.ts\<close>,
  the write-side validators of \<open>routes/agents.ts\<close>, and the readers of
  \<open>services/docker.ts\<close> that turn the stored strings into what the Docker Engine is sent.
  The two sides are separate functions on purpose in the source; the lemmas here show
  where they agree and where they do not.
\<close>

section \<open>Quantities as the readers see them\<close>

text \<open>
  The pattern \<open>\d+(?:\.\d+)?\<close> at the start of a string: the text it matches and the rest.
  What may follow the number is not a digit and not a dot, so the greedy match is the only
  one the anchored patterns can use.
\<close>

definition match_decimal :: "string \<Rightarrow> (string \<times> string) option" where
  "match_decimal s =
     (let ip = takeWhile is_digit s; r = dropWhile is_digit s
      in if ip = [] then None
         else (case r of
                 [] \<Rightarrow> Some (ip, [])
               | c # r' \<Rightarrow>
                   if c = CHR ''.'' \<and> takeWhile is_digit r' \<noteq> []
                   then Some (ip @ c # takeWhile is_digit r', dropWhile is_digit r')
                   else Some (ip, r)))"

text \<open>\<open>parseFloat\<close> of the matched text.\<close>

definition js_parseFloat :: "string \<Rightarrow> jsnum" where
  "js_parseFloat s = (case scan_decimal (trim_start s) of None \<Rightarrow> NaN | Some (v, _) \<Rightarrow> to_num v)"

text \<open>
  Multiplication by a power of two at least 1, exact in binary64 unless it overflows.
\<close>

fun num_scale :: "nat \<Rightarrow> jsnum \<Rightarrow> jsnum" where
  "num_scale k (Fin q) =
     (let y = q * 2 ^ k in if y \<ge> 2 ^ 1024 then PosInf else if y \<le> - (2 ^ 1024) then NegInf else Fin y)"
| "num_scale k n = n"

text \<open>\<open>/^(\d+(?:\.\d+)?)$/\<close>\<close>

definition match_cpus :: "string \<Rightarrow> string option" where
  "match_cpus s = (case match_decimal s of Some (m, []) \<Rightarrow> Some m | _ \<Rightarrow> None)"

text \<open>\<open>/^(\d+(?:\.\d+)?)\s*([kmg]?)b?$/i\<close>: the number and the unit, lower-cased.\<close>

definition match_mem :: "string \<Rightarrow> (string \<times> string) option" where
  "match_mem s =
     (case match_decimal s of
        None \<Rightarrow> None
      | Some (m, r) \<Rightarrow>
          (let t = to_lower (dropWhile js_space r);
               (u, t') = (case t of [] \<Rightarrow> ([], [])
                            | c # cs \<Rightarrow> if c \<in> set ''kmg'' then ([c], cs) else ([], t))
           in if t' = [] \<or> t' = ''b'' then Some (m, u) else None))"

section \<open>Ceilings\<close>

definition max_agent_cpus :: rat where "max_agent_cpus = 4"
definition max_agent_mem_bytes :: rat where "max_agent_mem_bytes = 16761118720"
definition max_agent_pids_limit :: rat where "max_agent_pids_limit = 300"

section \<open>The write side (routes/agents.ts)\<close>

definition cpus_validation_error :: "js \<Rightarrow> string option" where
  "cpus_validation_error v =
     (if \<not> is_str v then Some ''cpus must be a string''
      else (let value = (case match_cpus (the_str v) of Some m \<Rightarrow> js_parseFloat m | None \<Rightarrow> NaN)
            in if \<not> js_isFinite value \<or> \<not> num_gt value 0
               then Some ''cpus must be a positive number (e.g. \"1.0\")''
               else if num_gt value max_agent_cpus
               then Some ''cpus must not exceed 4 (the VPS has 4 CPUs - Docker itself refuses more at container-start)''
               else None))"

definition unit_shift :: "string \<Rightarrow> nat" where
  "unit_shift u = (if u = ''k'' then 10 else if u = ''m'' then 20 else if u = ''g'' then 30 else 0)"

definition mem_limit_validation_error :: "js \<Rightarrow> string option" where
  "mem_limit_validation_error v =
     (if \<not> is_str v then Some ''mem_limit must be a string''
      else case match_mem (the_str v) of
        None \<Rightarrow> Some ''mem_limit must be a number with an optional k/m/g unit (e.g. \"1g\")''
      | Some (m, u) \<Rightarrow>
          (let bytes = num_scale (unit_shift u) (js_parseFloat m)
           in if \<not> js_isFinite bytes \<or> \<not> num_gt bytes 0
              then Some ''mem_limit must be a positive amount of memory''
              else if num_gt bytes max_agent_mem_bytes
              then Some ''mem_limit must not exceed 16761118720 bytes (the VPS's total RAM - Docker accepts a larger value and enforces nothing)''
              else None))"

definition pids_limit_validation_error :: "js \<Rightarrow> string option" where
  "pids_limit_validation_error v =
     (case v of
        Num n \<Rightarrow>
          if \<not> js_isInteger n then Some ''pids_limit must be an integer''
          else if \<not> num_gt n 0
          then Some ''pids_limit must be a positive integer (negative values, including -1, mean \"unlimited\" to Docker)''
          else if num_gt n max_agent_pids_limit
          then Some ''pids_limit must not exceed 300 (the highest default_pids_limit among current container_profiles rows)''
          else None
      | _ \<Rightarrow> Some ''pids_limit must be an integer'')"

record profile_row =
  prof_name :: string
  default_cpus :: js
  default_mem_limit :: js
  default_pids_limit :: js

datatype profile_field = DefaultCpus | DefaultMemLimit | DefaultPidsLimit

definition field_violation :: "string \<Rightarrow> profile_field \<Rightarrow> string option \<Rightarrow> (string \<times> profile_field \<times> string) list" where
  "field_violation p f e = (case e of None \<Rightarrow> [] | Some msg \<Rightarrow> [(p, f, msg)])"

definition container_profile_ceiling_violations :: "profile_row list \<Rightarrow> (string \<times> profile_field \<times> string) list" where
  "container_profile_ceiling_violations ps = concat (map (\<lambda>p.
       field_violation (prof_name p) DefaultCpus (cpus_validation_error (default_cpus p)) @
       field_violation (prof_name p) DefaultMemLimit (mem_limit_validation_error (default_mem_limit p)) @
       field_violation (prof_name p) DefaultPidsLimit (pids_limit_validation_error (default_pids_limit p))) ps)"

section \<open>The start side (services/docker.ts)\<close>

datatype limit_error = InvalidCpus string | CpusAboveCapacity string
  | InvalidMem string | MemAboveRam string | InvalidPids jsnum

definition parse_cpus :: "string \<Rightarrow> limit_error + jsnum" where
  "parse_cpus s =
     (case match_cpus s of
        None \<Rightarrow> Inl (InvalidCpus s)
      | Some m \<Rightarrow>
          (let v = js_parseFloat m
           in if \<not> num_gt v 0 then Inl (InvalidCpus s)
              else if num_gt v max_agent_cpus then Inl (CpusAboveCapacity s)
              else Inr v))"

text \<open>The unit is applied one factor of 1024 at a time, as the source writes it.\<close>

definition in_bytes :: "string \<Rightarrow> jsnum \<Rightarrow> jsnum" where
  "in_bytes u v =
     (if u = ''k'' then num_scale 10 v
      else if u = ''m'' then num_scale 10 (num_scale 10 v)
      else if u = ''g'' then num_scale 10 (num_scale 10 (num_scale 10 v))
      else v)"

definition parse_mem_limit :: "string \<Rightarrow> limit_error + jsnum" where
  "parse_mem_limit s =
     (case match_mem s of
        None \<Rightarrow> Inl (InvalidMem s)
      | Some (m, u) \<Rightarrow>
          (let bytes = in_bytes u (js_parseFloat m)
           in if num_gt bytes max_agent_mem_bytes then Inl (MemAboveRam s) else Inr bytes))"

definition check_pids :: "jsnum \<Rightarrow> limit_error + jsnum" where
  "check_pids n =
     (if \<not> js_isInteger n \<or> \<not> num_gt n 0 \<or> num_gt n max_agent_pids_limit
      then Inl (InvalidPids n) else Inr n)"

text \<open>\<open>Math.round(v * 1e9)\<close>, ties upwards.\<close>

fun js_round :: "jsnum \<Rightarrow> jsnum" where
  "js_round (Fin q) = Fin (of_int \<lfloor>q + 1 / 2\<rfloor>)"
| "js_round n = n"

fun num_mul :: "jsnum \<Rightarrow> rat \<Rightarrow> jsnum" where
  "num_mul (Fin q) c = to_num (q * c)"
| "num_mul n c = n"

definition nano_cpus :: "jsnum \<Rightarrow> jsnum" where
  "nano_cpus v = js_round (num_mul v 1000000000)"

section \<open>Where the two sides agree\<close>

lemma num_scale_add [simp]: "num_scale j (num_scale k n) = num_scale (k + j) n"
proof (cases n)
  case (Fin q)
  have big: "(2::rat) ^ 1024 \<le> q * 2 ^ (k + j)" if "2 ^ 1024 \<le> q * 2 ^ k"
    using mult_mono[OF that, of 1 "2 ^ j"] that by (simp add: power_add mult.assoc)
  have small: "q * 2 ^ (k + j) \<le> - ((2::rat) ^ 1024)" if "q * 2 ^ k \<le> - (2 ^ 1024)"
    using mult_mono[of "2 ^ 1024" "- (q * 2 ^ k)" 1 "2 ^ j"] that by (simp add: power_add mult.assoc)
  have excl: "\<not> ((2::rat) ^ 1024 \<le> y \<and> y \<le> - (2 ^ 1024))" for y
    using order.trans[of "(2::rat) ^ 1024" y "- (2 ^ 1024)"] by simp
  show ?thesis
    using big small excl[of "q * 2 ^ (k + j)"]
    by (auto simp add: Fin Let_def power_add mult.assoc simp del: power_numeral)
qed auto

lemma digits_val_scanned [simp]:
  "0 \<le> digits_val (takeWhile is_digit s)"
  "0 \<le> digits_val (takeWhile is_digit s @ takeWhile is_digit t)"
  by (auto intro!: digits_val_nonneg dest: set_takeWhileD)

lemma scan_decimal_nonneg: "scan_decimal s = Some (v, r) \<Longrightarrow> 0 \<le> v"
  unfolding scan_decimal_def Let_def
  by (auto split: list.splits prod.splits if_splits
        intro!: mult_nonneg_nonneg divide_nonneg_nonneg)

definition nonneg_num :: "jsnum \<Rightarrow> bool" where
  "nonneg_num n = (n = PosInf \<or> (\<exists>q. n = Fin q \<and> 0 \<le> q))"

lemma to_num_nonneg: "0 \<le> x \<Longrightarrow> nonneg_num (to_num x)"
proof -
  assume "0 \<le> x"
  then have "0 \<le> f64 x" by (rule f64_nonneg)
  moreover have "(0::rat) < 2 ^ 1024" by (rule zero_less_power) simp
  ultimately have "\<not> f64 x \<le> - (2 ^ 1024)" by linarith
  then show ?thesis using \<open>0 \<le> f64 x\<close>
    by (simp add: to_num_def Let_def nonneg_num_def del: power_numeral)
qed

lemma num_scale_nonneg: "nonneg_num n \<Longrightarrow> nonneg_num (num_scale k n)"
proof (cases n)
  case (Fin q)
  assume "nonneg_num n"
  then have "0 \<le> q * 2 ^ k" by (simp add: Fin nonneg_num_def)
  moreover have "(0::rat) < 2 ^ 1024" by (rule zero_less_power) simp
  ultimately have "\<not> q * 2 ^ k \<le> - (2 ^ 1024)" by linarith
  then show ?thesis using \<open>0 \<le> q * 2 ^ k\<close>
    by (simp add: Fin Let_def nonneg_num_def del: power_numeral)
qed (simp_all add: nonneg_num_def)

lemma js_parseFloat_cases: "js_parseFloat s = NaN \<or> nonneg_num (js_parseFloat s)"
  using scan_decimal_nonneg to_num_nonneg
  by (fastforce simp: js_parseFloat_def split: option.splits)

lemma nano_cpus_bounds:
  assumes "0 \<le> q" "q \<le> max_agent_cpus"
  shows "\<exists>n. nano_cpus (Fin q) = Fin (of_int n) \<and> 0 \<le> n \<and> n \<le> 4000000000"
proof -
  have "q * 1000000000 \<le> of_int 4000000000" using assms by (simp add: max_agent_cpus_def)
  from to_num_bounds[OF _ this] assms(1) obtain y
    where y: "to_num (q * 1000000000) = Fin y" "0 \<le> y" "y \<le> 4000000000" by auto
  have "\<lfloor>y + 1 / 2\<rfloor> \<le> 4000000000" using y(3) by (simp add: floor_le_iff)
  moreover have "0 \<le> \<lfloor>y + 1 / 2\<rfloor>" using y(2) by simp
  ultimately show ?thesis using y(1) by (simp add: nano_cpus_def)
qed

text \<open>A number the matcher found always parses.\<close>

lemma match_decimal_parses:
  assumes "match_decimal s = Some (m, r)" shows "js_parseFloat m \<noteq> NaN"
proof -
  let ?ip = "takeWhile is_digit s"
  have ip: "?ip \<noteq> []" and m: "\<exists>t. m = ?ip @ t"
    using assms by (auto simp: match_decimal_def Let_def split: if_splits list.splits)
  obtain c t where c: "m = c # t" "is_digit c"
    using ip m by (cases s) (auto split: if_splits)
  have "\<not> js_space c" using c(2) by (auto simp: is_digit_def js_space_def Let_def)
  then have "trim_start m = m" using c by (simp add: trim_start_def)
  moreover have "takeWhile is_digit m \<noteq> []" using c by simp
  then have "scan_decimal m \<noteq> None"
    by (auto simp: scan_decimal_def Let_def split: list.splits prod.splits)
  moreover have "to_num v \<noteq> NaN" for v by (simp add: to_num_def Let_def del: power_numeral)
  ultimately show ?thesis by (auto simp: js_parseFloat_def)
qed

lemma match_mem_parses: "match_mem s = Some (m, u) \<Longrightarrow> js_parseFloat m \<noteq> NaN \<and> u \<in> {[], ''k'', ''m'', ''g''}"
  using match_decimal_parses by (auto simp: match_mem_def Let_def split: option.splits prod.splits list.splits if_splits)

lemma in_bytes_scale:
  assumes "match_mem s = Some (m, u)"
  shows "in_bytes u (js_parseFloat m) = num_scale (unit_shift u) (js_parseFloat m)"
proof -
  have "num_scale 0 (to_num v) = to_num v" for v
    by (simp add: to_num_def Let_def del: power_numeral)
  then have "num_scale 0 (js_parseFloat m) = js_parseFloat m"
    by (simp add: js_parseFloat_def split: option.splits)
  then show ?thesis using match_mem_parses[OF assms] by (auto simp: in_bytes_def unit_shift_def)
qed

lemma in_bytes_nonneg: "match_mem s = Some (m, u) \<Longrightarrow> nonneg_num (in_bytes u (js_parseFloat m))"
  using in_bytes_scale num_scale_nonneg js_parseFloat_cases match_mem_parses by metis

lemma parse_mem_limit_bounds:
  assumes "parse_mem_limit s = Inr n"
  shows "\<exists>q. n = Fin q \<and> 0 \<le> q \<and> q \<le> max_agent_mem_bytes"
proof -
  obtain m u where m: "match_mem s = Some (m, u)" "n = in_bytes u (js_parseFloat m)"
      "\<not> num_gt n max_agent_mem_bytes"
    using assms by (auto simp: parse_mem_limit_def Let_def split: option.splits if_splits)
  then show ?thesis using in_bytes_nonneg[OF m(1)] by (auto simp: nonneg_num_def not_less)
qed

lemma parse_cpus_bounds:
  assumes "parse_cpus s = Inr n"
  shows "\<exists>q. n = Fin q \<and> 0 < q \<and> q \<le> max_agent_cpus"
  using assms
  by (cases n) (auto simp: parse_cpus_def Let_def not_less split: option.splits if_splits)

lemma check_pids_bounds:
  assumes "check_pids n = Inr k"
  shows "\<exists>i. k = Fin (of_int i) \<and> 1 \<le> i \<and> i \<le> 300"
  using assms
  by (cases n) (auto simp: check_pids_def max_agent_pids_limit_def js_isInteger_Fin not_less split: if_splits)

lemma cpus_agree:
  "(cpus_validation_error (Str s) = None) =
     (\<exists>q. parse_cpus s = Inr (Fin q) \<and> 0 < q \<and> q \<le> max_agent_cpus)"
  by (cases "match_cpus s"; cases "js_parseFloat (the (match_cpus s))")
     (auto simp: cpus_validation_error_def parse_cpus_def Let_def)

lemma mem_limit_agree:
  "(mem_limit_validation_error (Str s) = None) =
     (\<exists>q. parse_mem_limit s = Inr (Fin q) \<and> 0 < q \<and> q \<le> max_agent_mem_bytes)"
proof (cases "match_mem s")
  case (Some mu)
  obtain m u where mu: "match_mem s = Some (m, u)" using Some by (cases mu) auto
  show ?thesis
    by (cases "in_bytes u (js_parseFloat m)")
       (auto simp: mem_limit_validation_error_def parse_mem_limit_def Let_def mu in_bytes_scale[OF mu, symmetric])
qed (simp add: mem_limit_validation_error_def parse_mem_limit_def)

lemma pids_agree:
  "(pids_limit_validation_error (Num n) = None) = (check_pids n = Inr n)"
  "(check_pids n = Inr n) = (\<exists>i. n = Fin (of_int i) \<and> 1 \<le> i \<and> i \<le> 300)"
  by (simp add: pids_limit_validation_error_def check_pids_def)
     (cases n, auto simp: check_pids_def max_agent_pids_limit_def js_isInteger_Fin not_less)

text \<open>
  The two independent copies of the limits agree. A cpus string is accepted by the
  write side exactly when the reader at container start returns a value, which is then
  finite, positive and at most 4; a mem_limit string is accepted exactly when the reader
  returns a positive number of bytes at most the RAM of the host; an accepted pids_limit is
  exactly one the start-side check lets through, an integer from 1 to 300. So a value that
  was written through the validators cannot fail, or lose its limit in parsing, when the
  container is started.
\<close>

theorem limits_agree:
  "(cpus_validation_error (Str s) = None) =
     (\<exists>q. parse_cpus s = Inr (Fin q) \<and> 0 < q \<and> q \<le> max_agent_cpus)
   \<and> (mem_limit_validation_error (Str s) = None) =
     (\<exists>q. parse_mem_limit s = Inr (Fin q) \<and> 0 < q \<and> q \<le> max_agent_mem_bytes)
   \<and> (pids_limit_validation_error (Num n) = None) = (check_pids n = Inr n)
   \<and> (check_pids n = Inr n) = (\<exists>i. n = Fin (of_int i) \<and> 1 \<le> i \<and> i \<le> 300)"
  by (intro conjI cpus_agree mem_limit_agree pids_agree)

section \<open>Where a limit vanishes\<close>

lemma tiny_cpus_text:
  "match_cpus ''0.0000000001'' = Some ''0.0000000001''"
  "trim_start ''0.0000000001'' = ''0.0000000001''"
  "match_mem ''0'' = Some (''0'', [])" "trim_start ''0'' = ''0''"
     apply code_simp
    apply (simp add: trim_start_def js_space_def)
   apply code_simp
  apply (simp add: trim_start_def js_space_def)
  done

lemma tiny_cpus_value:
  "scan_decimal ''0.0000000001'' = Some (1 / 10000000000, [])"
  "scan_decimal ''0'' = Some (0, [])"
  by (simp_all add: scan_decimal_def scan_exp_def is_digit_def digits_val_def digit_val_def)

lemma bitlen_10: "bitlen_aux 1 = 0" "bitlen_aux 10000000000 = 33"
  by (simp_all add: bitlen_aux.simps)

lemma quotient_of_inverse: "0 < n \<Longrightarrow> quotient_of (1 / of_int n) = (1, n)"
  using quotient_of_Fract[of 1 n] by (simp add: Fract_of_int_quotient normalize_def)

lemma ilog2_tiny: "ilog2 (1 / 10000000000) = - 34"
  using quotient_of_inverse[of 10000000000] by (simp add: ilog2_def bitlen_10 pow2_def)

lemma round_even_eq:
  assumes "of_int n - 1 / 2 < q" "q < of_int n + 1 / 2" shows "round_even q = n"
proof (cases "of_int n \<le> q")
  case True
  then have "\<lfloor>q\<rfloor> = n" using assms by (simp add: floor_eq_iff)
  then show ?thesis using assms by (simp add: round_even_def Let_def)
next
  case False
  then have "\<lfloor>q\<rfloor> = n - 1" using assms by (simp add: floor_eq_iff)
  then show ?thesis using assms False by (simp add: round_even_def Let_def)
qed

lemma tiny_cpus_rounded:
  "to_num (1 / 10000000000) = Fin (7737125245533627 / 77371252455336267181195264)"
proof -
  have "round_even (1 / 10000000000 / pow2 (- 86)) = 7737125245533627"
    by (rule round_even_eq) (simp_all add: pow2_def)
  then have "f64 (1 / 10000000000) = 7737125245533627 / 77371252455336267181195264"
    by (simp add: f64_def f64_pos_def ilog2_tiny pow2_def)
  then show ?thesis by (simp add: to_num_def)
qed

lemma round_even_near: "of_int (round_even q) \<le> q + 1"
proof -
  have "round_even q \<le> \<lfloor>q\<rfloor> + 1" by (simp add: round_even_def Let_def)
  then have "of_int (round_even q) \<le> rat_of_int (\<lfloor>q\<rfloor> + 1)" by (simp only: of_int_le_iff)
  then show ?thesis using of_int_floor_le[of q] by linarith
qed

lemma f64_pos_close:
  assumes "0 < x" "x \<le> 1" shows "f64_pos x \<le> x + pow2 (- 52)"
proof -
  let ?u = "pow2 (max (ilog2 x - 52) (- 1074))"
  have "(2::rat) powi (ilog2 x) \<le> 2 powi 0" using ilog2_le[OF assms(1)] assms(2) by (simp add: pow2_powi)
  then have "ilog2 x \<le> 0" by (rule power_int_le_imp_le_exp[rotated]) simp_all
  then have "?u \<le> pow2 (- 52)" by (intro pow2_mono) simp
  moreover have "of_int (round_even (x / ?u)) * ?u \<le> (x / ?u + 1) * ?u"
    by (intro mult_right_mono round_even_near) (auto intro: less_imp_le)
  moreover have "(x / ?u + 1) * ?u = x + ?u"
    using pow2_pos[of "max (ilog2 x - 52) (- 1074)"] by (simp add: ring_distribs less_imp_neq[symmetric])
  ultimately show ?thesis by (simp add: f64_pos_def Let_def)
qed

lemma tiny_cpus_nano:
  "nano_cpus (Fin (7737125245533627 / 77371252455336267181195264)) = Fin 0"
proof -
  let ?x = "7737125245533627 / 77371252455336267181195264 * 1000000000 :: rat"
  obtain y where y: "to_num ?x = Fin y" "0 \<le> y" using to_num_bounds[of ?x 1] by auto
  have "f64_pos ?x \<le> ?x + pow2 (- 52)" by (rule f64_pos_close) simp_all
  also have "\<dots> \<le> 1 / 4" by (simp add: pow2_def)
  finally have "f64 ?x \<le> 1 / 4" by (simp add: f64_def)
  then have "y \<le> 1 / 4" using y(1) by (simp add: to_num_def Let_def split: if_splits)
  have "\<lfloor>y + 1 / 2\<rfloor> = 0" using y(2) \<open>y \<le> 1 / 4\<close> by (simp add: floor_eq_iff)
  then show ?thesis using y by (simp add: nano_cpus_def)
qed

text \<open>
  A positive cpus value can still lose its limit after both checks: 1e-10 written out
  passes the write side and the reader, and the conversion to the engine's billionths of a
  CPU rounds it to 0, which the engine reads as no CPU limit. A mem_limit of 0 is refused
  by the write side only: the reader passes it on, and the engine reads 0 as unlimited.
\<close>

theorem limits_that_vanish:
  "cpus_validation_error (Str ''0.0000000001'') = None
   \<and> map_sum id nano_cpus (parse_cpus ''0.0000000001'') = Inr (Fin 0)
   \<and> parse_mem_limit ''0'' = Inr (Fin 0)
   \<and> mem_limit_validation_error (Str ''0'') = Some ''mem_limit must be a positive amount of memory''"
proof -
  have f: "js_parseFloat ''0.0000000001'' = Fin (7737125245533627 / 77371252455336267181195264)"
      "js_parseFloat ''0'' = Fin 0"
    by (simp_all only: js_parseFloat_def tiny_cpus_text tiny_cpus_value option.case prod.case tiny_cpus_rounded)
       (simp add: to_num_def f64_def)
  have c: "parse_cpus ''0.0000000001'' = Inr (Fin (7737125245533627 / 77371252455336267181195264))"
    by (simp add: parse_cpus_def tiny_cpus_text(1) f(1) max_agent_cpus_def)
  have w: "cpus_validation_error (Str ''0.0000000001'') = None"
    unfolding cpus_agree c by (rule exI, rule conjI, rule refl) (simp add: max_agent_cpus_def)
  have m: "parse_mem_limit ''0'' = Inr (Fin 0)"
    by (simp add: parse_mem_limit_def tiny_cpus_text(3) f(2) in_bytes_def max_agent_mem_bytes_def)
  have r: "mem_limit_validation_error (Str ''0'') = Some ''mem_limit must be a positive amount of memory''"
    unfolding mem_limit_validation_error_def is_str.simps the_str.simps tiny_cpus_text(3) option.case prod.case f(2)
    by (simp only: unit_shift_def) simp
  show ?thesis using c w m r tiny_cpus_nano by simp
qed

end
