(* ===== verification/Demux.thy ===== *)
theory Demux
  imports Prelude "HOL-Library.Word"
begin

text \<open>
  The engine's multiplexed exec output, as \<open>services/docker.ts\<close> decodes it in
  \<open>execInContainer\<close>, \<open>execInContainerWithExit\<close> and \<open>execWithStdin\<close>: frames of an eight-byte
  header (stream type, three bytes of padding, the payload's size as a big-endian 32-bit
  word) and a payload, cut into chunks anywhere. A partial frame at the end of a chunk is
  kept and put before the next one. Also the race of the stream against the timeout.
\<close>

section \<open>Frames\<close>

type_synonym byte = "8 word"
type_synonym bytes = "byte list"

text \<open>\<open>buf.readUInt32BE(4)\<close>, on a buffer of at least eight bytes.\<close>

definition read_be32 :: "bytes \<Rightarrow> nat" where
  "read_be32 b =
     ((unat (b ! 4) * 256 + unat (b ! 5)) * 256 + unat (b ! 6)) * 256 + unat (b ! 7)"

text \<open>
  The while loop: the complete frames of a buffer, as pairs of type and payload, and the
  remainder. The empty list stands for the remainder \<open>null\<close>: a kept slice is never empty.
\<close>

function demux_loop :: "bytes \<Rightarrow> (byte \<times> bytes) list \<times> bytes" where
  "demux_loop buf =
     (if length buf < 8 then ([], buf)
      else (let size = read_be32 buf; frame_end = 8 + size
            in if frame_end > length buf then ([], buf)
               else (case demux_loop (drop frame_end buf) of
                       (fs, r) \<Rightarrow> ((hd buf, take size (drop 8 buf)) # fs, r))))"
  by pat_completeness auto
termination
  by (relation "measure length") (auto simp: not_less)

declare demux_loop.simps [simp del]

lemma demux_loop_short:
  "length buf < 8 \<or> length buf < 8 + read_be32 buf \<Longrightarrow> demux_loop buf = ([], buf)"
  by (subst demux_loop.simps) (auto simp: Let_def)

lemma demux_loop_frame:
  "\<not> length buf < 8 \<Longrightarrow> \<not> length buf < 8 + read_be32 buf \<Longrightarrow> demux_loop buf =
     (case demux_loop (drop (8 + read_be32 buf) buf) of
        (fs, r) \<Rightarrow> ((hd buf, take (read_be32 buf) (drop 8 buf)) # fs, r))"
  by (subst demux_loop.simps) (simp add: Let_def)

definition payloads :: "byte \<Rightarrow> (byte \<times> bytes) list \<Rightarrow> bytes list" where
  "payloads t fs = map snd (filter (\<lambda>f. fst f = t) fs)"

text \<open>The transform of \<open>execInContainer\<close>: what it pushes for a chunk, and the new remainder.\<close>

definition demux_transform :: "bytes \<Rightarrow> bytes \<Rightarrow> bytes list \<times> bytes" where
  "demux_transform remainder chunk =
     (case demux_loop (remainder @ chunk) of (fs, r) \<Rightarrow> (payloads 1 fs, r))"

text \<open>The collector of the two variants that wait for the exit code.\<close>

record collected =
  stdout_chunks :: "bytes list"
  stderr_chunks :: "bytes list"
  remainder :: bytes

definition no_output :: collected where
  "no_output = \<lparr>stdout_chunks = [], stderr_chunks = [], remainder = []\<rparr>"

definition on_data :: "bytes \<Rightarrow> collected \<Rightarrow> collected" where
  "on_data chunk c =
     (case demux_loop (remainder c @ chunk) of
        (fs, r) \<Rightarrow> c\<lparr>stdout_chunks := stdout_chunks c @ payloads 1 fs,
                     stderr_chunks := stderr_chunks c @ payloads 2 fs, remainder := r\<rparr>)"

section \<open>The race against the timeout\<close>

datatype exec_event = Data bytes | StreamError string | End | Close | TimerFires

datatype exec_end = Finished | Failed string | TimedOut

text \<open>
  \<open>Promise.race\<close>: the first event that settles wins, what comes after changes nothing. The
  timer is armed only for a positive timeout. None: nothing has settled yet.
\<close>

fun exec_race :: "bool \<Rightarrow> collected \<Rightarrow> exec_event list \<Rightarrow> (exec_end \<times> collected) option" where
  "exec_race armed c [] = None"
| "exec_race armed c (Data d # es) = exec_race armed (on_data d c) es"
| "exec_race armed c (StreamError m # es) = Some (Failed m, c)"
| "exec_race armed c (End # es) = Some (Finished, c)"
| "exec_race armed c (Close # es) = Some (Finished, c)"
| "exec_race armed c (TimerFires # es) =
     (if armed then Some (TimedOut, c) else exec_race armed c es)"

record exec_result =
  exit_code :: int
  out_bytes :: bytes
  err_bytes :: bytes

text \<open>\<open>inspect.ExitCode ?? 1\<close>, and the chunks joined.\<close>

definition exec_result_of :: "int option \<Rightarrow> collected \<Rightarrow> exec_result" where
  "exec_result_of code c =
     \<lparr>exit_code = (case code of None \<Rightarrow> 1 | Some n \<Rightarrow> n),
      out_bytes = concat (stdout_chunks c), err_bytes = concat (stderr_chunks c)\<rparr>"

section \<open>Cutting the stream differently changes nothing\<close>

lemma demux_loop_append:
  "demux_loop a = (fs, r) \<Longrightarrow>
   demux_loop (a @ b) = (case demux_loop (r @ b) of (gs, s) \<Rightarrow> (fs @ gs, s))"
proof (induction a arbitrary: fs r rule: demux_loop.induct)
  case (1 buf)
  show ?case
  proof (cases "length buf < 8 \<or> 8 + read_be32 buf > length buf")
    case True
    then have "fs = [] \<and> r = buf" using 1(2) demux_loop_short[of buf] by auto
    then show ?thesis by (cases "demux_loop (buf @ b)") simp
  next
    case False
    let ?e = "8 + read_be32 buf"
    obtain gs s where gs: "demux_loop (drop ?e buf) = (gs, s)" by fastforce
    have fs: "fs = (hd buf, take (read_be32 buf) (drop 8 buf)) # gs" "r = s"
      using 1(2) False gs demux_loop_frame[of buf] by auto
    have ih: "demux_loop (drop ?e buf @ b) = (case demux_loop (s @ b) of (hs, t) \<Rightarrow> (gs @ hs, t))"
      using 1(1)[OF _ refl refl] False gs by simp
    have "read_be32 (buf @ b) = read_be32 buf" using False by (simp add: read_be32_def nth_append)
    moreover have "hd (buf @ b) = hd buf" "take (read_be32 buf) (drop 8 (buf @ b)) = take (read_be32 buf) (drop 8 buf)"
      using False by (auto simp: hd_append)
    ultimately have "demux_loop (buf @ b) =
        (case demux_loop (drop ?e buf @ b) of (hs, t) \<Rightarrow> ((hd buf, take (read_be32 buf) (drop 8 buf)) # hs, t))"
      using False demux_loop_frame[of "buf @ b"] by simp
    then show ?thesis using ih fs by (cases "demux_loop (s @ b)") simp
  qed
qed

lemma demux_loop_rest:
  assumes "demux_loop a = (fs, r)" shows "demux_loop r = ([], r)"
  using assms
proof (induction a arbitrary: fs rule: demux_loop.induct)
  case (1 buf)
  show ?case
  proof (cases "length buf < 8 \<or> length buf < 8 + read_be32 buf")
    case True
    then show ?thesis using 1(2) demux_loop_short by fastforce
  next
    case False
    then show ?thesis using 1(1)[OF _ refl refl] 1(2) demux_loop_frame[of buf]
      by (auto split: prod.splits)
  qed
qed

lemma payloads_append [simp]: "payloads t (fs @ gs) = payloads t fs @ payloads t gs"
  by (simp add: payloads_def)

lemma fold_on_data:
  assumes "demux_loop (remainder c) = ([], remainder c)"
  shows "fold on_data ds c = on_data (concat ds) c"
  using assms
proof (induction ds arbitrary: c)
  case Nil
  then show ?case by (simp add: on_data_def payloads_def)
next
  case (Cons d ds)
  obtain fs r where f: "demux_loop (remainder c @ d) = (fs, r)" by fastforce
  have "demux_loop (remainder (on_data d c)) = ([], remainder (on_data d c))"
    using demux_loop_rest[OF f] by (simp add: on_data_def f)
  then have "fold on_data (d # ds) c = on_data (concat ds) (on_data d c)" using Cons.IH by simp
  also have "\<dots> = on_data (d @ concat ds) c"
    using demux_loop_append[OF f, of "concat ds"]
    by (simp add: on_data_def f split: prod.splits)
  finally show ?case by simp
qed

section \<open>Encoding\<close>

text \<open>What the engine sends for a frame, with any padding.\<close>

definition write_be32 :: "nat \<Rightarrow> bytes" where
  "write_be32 n = map of_nat [n div 16777216, n div 65536, n div 256, n]"

definition encode_frame :: "byte \<times> bytes \<times> bytes \<Rightarrow> bytes" where
  "encode_frame f = (case f of (t, pad, p) \<Rightarrow> t # pad @ write_be32 (length p) @ p)"

definition frame_ok :: "byte \<times> bytes \<times> bytes \<Rightarrow> bool" where
  "frame_ok f = (length (fst (snd f)) = 3 \<and> length (snd (snd f)) < 2 ^ 32)"

lemma byte_of_nat: "unat (of_nat n :: byte) = n mod 256"
  by (simp add: unat_of_nat)

lemma read_write_be32:
  assumes "length pad = 3" "n < 2 ^ 32"
  shows "read_be32 (t # pad @ write_be32 n @ p) = n"
proof -
  obtain a b c where "pad = [a, b, c]" using assms(1)
    by (auto simp: length_Suc_conv eval_nat_numeral)
  then have "read_be32 (t # pad @ write_be32 n @ p) =
      ((n div 16777216 mod 256 * 256 + n div 65536 mod 256) * 256 + n div 256 mod 256) * 256 + n mod 256"
    by (simp add: read_be32_def write_be32_def byte_of_nat)
  also have "\<dots> = n"
  proof -
    have "n div 65536 = n div 256 div 256" "n div 16777216 = n div 256 div 256 div 256"
      by (simp_all add: div_mult2_eq[symmetric])
    moreover have "n div 256 div 256 div 256 < 256" using assms(2) by simp
    ultimately show ?thesis by simp
  qed
  finally show ?thesis .
qed

lemma demux_encoded:
  assumes "list_all frame_ok fs"
  shows "demux_loop (concat (map encode_frame fs) @ r) =
           (case demux_loop r of (gs, s) \<Rightarrow> (map (\<lambda>(t, pad, p). (t, p)) fs @ gs, s))"
  using assms
proof (induction fs)
  case Nil
  then show ?case by (cases "demux_loop r") simp
next
  case (Cons f fs)
  obtain t pad p where f: "f = (t, pad, p)" by (cases f)
  have ok: "length pad = 3" "length p < 2 ^ 32" using Cons.prems by (simp_all add: f frame_ok_def)
  let ?rest = "concat (map encode_frame fs) @ r"
  let ?b = "t # pad @ write_be32 (length p) @ p @ ?rest"
  have size: "read_be32 ?b = length p" using read_write_be32[OF ok, of t "p @ ?rest"] by simp
  have w: "length (write_be32 (length p)) = 4" by (simp add: write_be32_def)
  have d: "drop 8 ?b = p @ ?rest" "drop (8 + length p) ?b = ?rest" "length ?b = 8 + length p + length ?rest"
    using ok w by (simp_all add: drop_Cons' drop_append)
  have "demux_loop ?b = (case demux_loop ?rest of (gs, s) \<Rightarrow> ((t, p) # gs, s))"
    using demux_loop_frame[of ?b] d(3) unfolding size d(1,2) by simp
  moreover have "encode_frame (t, pad, p) = t # pad @ write_be32 (length p) @ p"
    by (simp add: encode_frame_def)
  ultimately show ?case using Cons by (cases "demux_loop r") (simp add: f)
qed

section \<open>What an exec returns\<close>

text \<open>An exec's outcome: the race, and when the stream ended the exit code and the output.\<close>

definition exec_outcome ::
  "bool \<Rightarrow> int option \<Rightarrow> exec_event list \<Rightarrow> (exec_end + exec_result) option" where
  "exec_outcome armed code es =
     (case exec_race armed no_output es of
        None \<Rightarrow> None
      | Some (Finished, c) \<Rightarrow> Some (Inr (exec_result_of code c))
      | Some (e, _) \<Rightarrow> Some (Inl e))"

lemma exec_race_data: "exec_race armed c (map Data ds @ es) = exec_race armed (fold on_data ds c) es"
  by (induction ds arbitrary: c) auto

lemma no_output_fold: "fold on_data ds no_output = on_data (concat ds) no_output"
  by (rule fold_on_data) (simp add: no_output_def demux_loop_short)

lemma collect_encoded:
  assumes "list_all frame_ok fs" "concat ds = concat (map encode_frame fs)"
  shows "fold on_data ds no_output =
     \<lparr>stdout_chunks = map (\<lambda>(t, pad, p). p) (filter (\<lambda>f. fst f = 1) fs),
      stderr_chunks = map (\<lambda>(t, pad, p). p) (filter (\<lambda>f. fst f = 2) fs), remainder = []\<rparr>"
proof -
  have "payloads t (map (\<lambda>(t, pad, p). (t, p)) fs) = map (\<lambda>(t, pad, p). p) (filter (\<lambda>f. fst f = t) fs)" for t
    by (induction fs) (auto simp: payloads_def)
  then show ?thesis using demux_encoded[OF assms(1), of "[]"]
    unfolding no_output_fold assms(2)
    by (simp add: on_data_def no_output_def demux_loop_short)
qed

text \<open>
  C40: The exec output is decoded exactly. However the engine cuts its multiplexed stream
  into chunks, the collector reaches the state it would reach on the whole stream at once,
  incomplete frames at the end included. And when the stream is the encoding of frames of
  less than 2 to the 32 bytes and ends, whatever padding they carry and whatever comes
  after the end, the result is the exit code (1 when the engine reports none), the payloads
  of type 1 joined as stdout and those of type 2 as stderr.
\<close>

theorem exec_output_exact:
  assumes "list_all frame_ok fs" and "concat ds = concat (map encode_frame fs)"
  shows "exec_outcome armed code (map Data ds @ End # rest) =
           Some (Inr \<lparr>exit_code = (case code of None \<Rightarrow> 1 | Some n \<Rightarrow> n),
                      out_bytes = concat (map (\<lambda>(t, pad, p). p) (filter (\<lambda>f. fst f = 1) fs)),
                      err_bytes = concat (map (\<lambda>(t, pad, p). p) (filter (\<lambda>f. fst f = 2) fs))\<rparr>)
         \<and> fold on_data chunks no_output = on_data (concat chunks) no_output"
  using collect_encoded[OF assms]
  by (simp add: exec_outcome_def exec_race_data exec_result_of_def no_output_fold)

theorem exec_output_exact_witness:
  "exec_outcome True None (map Data [[1, 0, 0, 0, 0, 0], [0, 2, 104, 105, 2, 0, 0], [0, 0, 0, 0, 1, 33]] @ End # [TimerFires]) =
     Some (Inr \<lparr>exit_code = 1, out_bytes = [104, 105], err_bytes = [33]\<rparr>)"
  using exec_output_exact[of "[(1, [0, 0, 0], [104, 105]), (2, [0, 0, 0], [33])]"
      "[[1, 0, 0, 0, 0, 0], [0, 2, 104, 105, 2, 0, 0], [0, 0, 0, 0, 1, 33]]" True None "[TimerFires]" "[]"]
  by (simp add: frame_ok_def encode_frame_def write_be32_def)

end
