(* ===== verification/Docker.thy ===== *)
theory Docker
  imports Access AgentLimits Demux
begin

text \<open>
  \<open>services/docker.ts\<close>: what the API asks of the Docker Engine (its mapping of scopes to
  networks is in theory Access). The engine is not part of
  the repository, so it is a parameter: a function from the calls made so far and the next
  call to its answer, any answer at all. A computation returns its outcome and the calls it
  made, oldest first, so a safety statement about the calls holds for every engine.

  The decoder of the engine's multiplexed exec output is in theory Demux.
\<close>

section \<open>The engine\<close>

record cinfo =
  ci_id :: string
  ci_status :: string
  ci_labels :: "(string \<times> string) list"
  ci_health :: "string option"
  ci_finished :: "string option"
  ci_started :: "string option"

record mount =
  m_source :: string
  m_target :: string
  m_readonly :: bool

record cspec =
  cs_name :: string
  cs_image :: string
  cs_env :: "string list"
  cs_labels :: "(string \<times> string) list"
  cs_binds :: "string list"
  cs_mounts :: "mount list"
  cs_nano_cpus :: jsnum
  cs_memory :: jsnum
  cs_pids :: jsnum
  cs_restart :: string
  cs_network :: string
  cs_shm :: "jsnum option"

datatype docker_call =
    InspectC string
  | StopC string
  | RemoveC string
  | InspectImage string
  | CreateC cspec
  | StartC string
  | ConnectNet string string
  | RemoveVol string
  | Logs string int bool
  | CreateExec string "string list" bool bool
  | StartExec bool
  | WriteStdin bytes
  | InspectExec

text \<open>What a call can throw: an engine error with or without a status, or one of the file's own.\<close>

datatype dexn = Status nat | NoStatus | Refused string | NoConfigPath | BadLimit limit_error
  | StreamFailed string | CommandTimedOut

record engine =
  e_inspect :: "docker_call list \<Rightarrow> string \<Rightarrow> dexn + cinfo"
  e_image :: "docker_call list \<Rightarrow> string \<Rightarrow> dexn + string option"
  e_do :: "docker_call list \<Rightarrow> docker_call \<Rightarrow> dexn + unit"
  e_exec_events :: "docker_call list \<Rightarrow> exec_event list"
  e_exec_code :: "docker_call list \<Rightarrow> dexn + int option"

type_synonym 'a eng = "docker_call list \<Rightarrow> (dexn + 'a) \<times> docker_call list"

definition ereturn :: "'a \<Rightarrow> 'a eng" where
  "ereturn x h = (Inr x, h)"

definition eraise :: "dexn \<Rightarrow> 'a eng" where
  "eraise e h = (Inl e, h)"

definition ebind :: "'a eng \<Rightarrow> ('a \<Rightarrow> 'b eng) \<Rightarrow> 'b eng" where
  "ebind m f h = (case m h of (Inl e, h') \<Rightarrow> (Inl e, h') | (Inr x, h') \<Rightarrow> f x h')"

definition ecatch :: "'a eng \<Rightarrow> (dexn \<Rightarrow> 'a eng) \<Rightarrow> 'a eng" where
  "ecatch m k h = (case m h of (Inl e, h') \<Rightarrow> k e h' | (Inr x, h') \<Rightarrow> (Inr x, h'))"

definition elift :: "(dexn + 'a) \<Rightarrow> 'a eng" where
  "elift r h = (r, h)"

definition inspect_c :: "engine \<Rightarrow> string \<Rightarrow> cinfo eng" where
  "inspect_c e n h = (e_inspect e h n, h @ [InspectC n])"

definition inspect_image :: "engine \<Rightarrow> string \<Rightarrow> string option eng" where
  "inspect_image e n h = (e_image e h n, h @ [InspectImage n])"

definition do_call :: "engine \<Rightarrow> docker_call \<Rightarrow> unit eng" where
  "do_call e c h = (e_do e h c, h @ [c])"

text \<open>\<open>if (err.statusCode !== 404) throw err\<close>\<close>

definition unless_404 :: "'a \<Rightarrow> dexn \<Rightarrow> 'a eng" where
  "unless_404 x e = (if e = Status 404 then ereturn x else eraise e)"

lemmas eng_defs = ereturn_def eraise_def ebind_def ecatch_def elift_def inspect_c_def
  inspect_image_def do_call_def unless_404_def

section \<open>Names and labels\<close>

definition container_prefix :: string where "container_prefix = ''agentbox-''"
definition managed_label :: string where "managed_label = ''managed-by''"
definition managed_value :: string where "managed_value = ''hill90-api''"
definition volume_suffixes :: "string list" where
  "volume_suffixes = [''workspace'', ''logs'', ''data'']"

definition container_name :: "string \<Rightarrow> string" where
  "container_name a = container_prefix @ a"

definition volume_name :: "string \<Rightarrow> string \<Rightarrow> string" where
  "volume_name a s = container_prefix @ a @ ''-'' @ s"

definition assert_agentbox_name :: "string \<Rightarrow> unit eng" where
  "assert_agentbox_name n =
     (if startsWith n container_prefix then ereturn () else eraise (Refused n))"

definition assert_managed_label :: "(string \<times> string) list \<Rightarrow> unit eng" where
  "assert_managed_label ls =
     (if map_of ls managed_label = Some managed_value then ereturn ()
      else eraise (Refused ''container missing label managed-by=hill90-api''))"

definition assert_agentbox_volume :: "string \<Rightarrow> string \<Rightarrow> unit eng" where
  "assert_agentbox_volume v a =
     (let p = container_prefix @ a @ ''-''
      in if \<not> startsWith v p then eraise (Refused v)
         else if slice_from (length p) v \<notin> set volume_suffixes then eraise (Refused v)
         else ereturn ())"

section \<open>Creating a container\<close>

record docker_env =
  config_host_path :: string
  network_prefix :: string

record create_opts =
  co_agent :: string
  co_cpus :: string
  co_mem :: string
  co_pids :: jsnum
  co_env :: "string list"
  co_network :: string
  co_image :: string
  co_extra_env :: "string list"
  co_shm :: string

text \<open>Collision check: an existing container of that name goes, whatever its labels.\<close>

definition remove_collision :: "engine \<Rightarrow> string \<Rightarrow> unit eng" where
  "remove_collision e n =
     ecatch
       (ebind (inspect_c e n) (\<lambda>_.
        ebind (ecatch (do_call e (StopC n)) (\<lambda>_. ereturn ())) (\<lambda>_.
        do_call e (RemoveC n))))
       (unless_404 ())"

definition agent_mount :: "string \<Rightarrow> string \<Rightarrow> mount" where
  "agent_mount a s =
     \<lparr>m_source = volume_name a s,
      m_target = (if s = ''workspace'' then ''/workspace''
                  else if s = ''logs'' then ''/var/log/agentbox'' else ''/data''),
      m_readonly = False\<rparr>"

definition base_env :: "string \<Rightarrow> string list" where
  "base_env a =
     [''AGENT_ID='' @ a,
      ''AGENT_CONFIG=/etc/agentbox/agent.yml'',
      ''PATH=/home/agentuser/.local/bin:/data/tools/bin:/usr/local/sbin:/usr/local/bin:/usr/sbin:/usr/bin:/sbin:/bin'']"

text \<open>The image's revision stamp; a failure to read it leaves the label off.\<close>

definition image_revision :: "engine \<Rightarrow> string \<Rightarrow> string option eng" where
  "image_revision e img =
     ecatch (ebind (inspect_image e img) (\<lambda>stamp.
               ereturn (case stamp of None \<Rightarrow> None
                        | Some s \<Rightarrow> if js_trim s = [] then None else Some (js_trim s))))
            (\<lambda>_. ereturn None)"

definition lift_limit :: "(limit_error + 'a) \<Rightarrow> dexn + 'a" where
  "lift_limit r = (case r of Inl e \<Rightarrow> Inl (BadLimit e) | Inr x \<Rightarrow> Inr x)"

definition chosen_network :: "docker_env \<Rightarrow> create_opts \<Rightarrow> string" where
  "chosen_network env opts =
     (if co_network opts = [] then sandbox_network (network_prefix env) else co_network opts)"

definition container_spec ::
  "docker_env \<Rightarrow> create_opts \<Rightarrow> jsnum \<Rightarrow> jsnum \<Rightarrow> jsnum option \<Rightarrow> string option \<Rightarrow> cspec" where
  "container_spec env opts nano mem shm stamp =
     \<lparr>cs_name = container_name (co_agent opts),
      cs_image = (if co_image opts = [] then ''hill90/agentbox:latest'' else co_image opts),
      cs_env = base_env (co_agent opts) @ co_env opts @ co_extra_env opts,
      cs_labels = [(managed_label, managed_value), (''traefik.enable'', ''false'')]
                  @ (case stamp of None \<Rightarrow> [] | Some r \<Rightarrow> [(''com.hill90.revision'', r)]),
      cs_binds = [config_host_path env @ ''/'' @ co_agent opts @ '':/etc/agentbox:ro''],
      cs_mounts = map (agent_mount (co_agent opts)) volume_suffixes,
      cs_nano_cpus = nano, cs_memory = mem, cs_pids = co_pids opts,
      cs_restart = ''unless-stopped'',
      cs_network = chosen_network env opts,
      cs_shm = shm\<rparr>"

definition attach_edge :: "engine \<Rightarrow> docker_env \<Rightarrow> create_opts \<Rightarrow> bool eng" where
  "attach_edge e env opts =
     (if co_network opts = agent_network (network_prefix env)
      then ecatch (ebind (do_call e (ConnectNet ''hill90_edge'' (container_name (co_agent opts))))
                         (\<lambda>_. ereturn False))
                  (\<lambda>_. ereturn True)
      else ereturn False)"

text \<open>The container id and whether the edge network failed to attach.\<close>

definition create_and_start :: "engine \<Rightarrow> docker_env \<Rightarrow> create_opts \<Rightarrow> (string \<times> bool) eng" where
  "create_and_start e env opts =
     (let n = container_name (co_agent opts) in
      ebind (assert_agentbox_name n) (\<lambda>_.
      if config_host_path env = [] then eraise NoConfigPath
      else
      ebind (remove_collision e n) (\<lambda>_.
      ebind (elift (lift_limit (parse_cpus (co_cpus opts)))) (\<lambda>cpus.
      ebind (elift (lift_limit (parse_mem_limit (co_mem opts)))) (\<lambda>mem.
      ebind (elift (lift_limit (check_pids (co_pids opts)))) (\<lambda>_.
      ebind (if co_shm opts = [] then ereturn None
             else elift (map_sum id Some (lift_limit (parse_mem_limit (co_shm opts))))) (\<lambda>shm.
      ebind (image_revision e (if co_image opts = [] then ''hill90/agentbox:latest'' else co_image opts)) (\<lambda>stamp.
      ebind (do_call e (CreateC (container_spec env opts (nano_cpus cpus) mem shm stamp))) (\<lambda>_.
      ebind (do_call e (StartC n)) (\<lambda>_.
      ebind (attach_edge e env opts) (\<lambda>failed.
      ebind (inspect_c e n) (\<lambda>info.
      ereturn (ci_id info, failed)))))))))))))"

section \<open>Stopping, inspecting, removing\<close>

definition stop_and_remove :: "engine \<Rightarrow> string \<Rightarrow> unit eng" where
  "stop_and_remove e a =
     (let n = container_name a in
      ebind (assert_agentbox_name n) (\<lambda>_.
      ebind (inspect_c e n) (\<lambda>info.
      ebind (assert_managed_label (ci_labels info)) (\<lambda>_.
      ebind (ecatch (do_call e (StopC n)) (\<lambda>_. ereturn ())) (\<lambda>_.
      do_call e (RemoveC n))))))"

definition docker_zero_time :: string where
  "docker_zero_time = ''0001-01-01T00:00:00Z''"

text \<open>\<open>date_of\<close> is \<open>new Date(raw).getTime()\<close>, None when that is NaN.\<close>

definition parse_docker_timestamp :: "(string \<Rightarrow> int option) \<Rightarrow> string option \<Rightarrow> int option" where
  "parse_docker_timestamp date_of raw =
     (case raw of None \<Rightarrow> None
      | Some s \<Rightarrow> if s = [] \<or> s = docker_zero_time then None else date_of s)"

record container_view =
  cv_status :: string
  cv_id :: string
  cv_health :: "string option"
  cv_finished :: "int option"
  cv_started :: "int option"

definition inspect_container :: "(string \<Rightarrow> int option) \<Rightarrow> engine \<Rightarrow> string \<Rightarrow> container_view option eng" where
  "inspect_container date_of e a =
     (let n = container_name a in
      ebind (assert_agentbox_name n) (\<lambda>_.
      ecatch
        (ebind (inspect_c e n) (\<lambda>info.
         ebind (assert_managed_label (ci_labels info)) (\<lambda>_.
         ereturn (Some \<lparr>cv_status = ci_status info, cv_id = ci_id info, cv_health = ci_health info,
                        cv_finished = parse_docker_timestamp date_of (ci_finished info),
                        cv_started = parse_docker_timestamp date_of (ci_started info)\<rparr>))))
        (unless_404 None)))"

text \<open>Existence and running state; the name here is a constant of the caller.\<close>

definition inspect_container_presence :: "engine \<Rightarrow> string \<Rightarrow> (bool \<times> bool) eng" where
  "inspect_container_presence e n =
     ecatch (ebind (inspect_c e n) (\<lambda>info. ereturn (True, ci_status info = ''running'')))
            (unless_404 (False, False))"

fun remove_volumes :: "engine \<Rightarrow> string \<Rightarrow> string list \<Rightarrow> unit eng" where
  "remove_volumes e a [] = ereturn ()"
| "remove_volumes e a (s # ss) =
     ebind (assert_agentbox_volume (volume_name a s) a) (\<lambda>_.
     ebind (ecatch (do_call e (RemoveVol (volume_name a s))) (unless_404 ())) (\<lambda>_.
     remove_volumes e a ss))"

definition remove_agent_volumes :: "engine \<Rightarrow> string \<Rightarrow> unit eng" where
  "remove_agent_volumes e a = remove_volumes e a volume_suffixes"

text \<open>The guard every operation on an existing container starts with.\<close>

definition managed_container :: "engine \<Rightarrow> string \<Rightarrow> cinfo eng" where
  "managed_container e a =
     ebind (assert_agentbox_name (container_name a)) (\<lambda>_.
     ebind (inspect_c e (container_name a)) (\<lambda>info.
     ebind (assert_managed_label (ci_labels info)) (\<lambda>_.
     ereturn info)))"

definition get_container_logs :: "engine \<Rightarrow> string \<Rightarrow> int option \<Rightarrow> bool \<Rightarrow> unit eng" where
  "get_container_logs e a tail follow =
     ebind (managed_container e a) (\<lambda>_.
     do_call e (Logs (container_name a) (case tail of None \<Rightarrow> 200 | Some n \<Rightarrow> n) follow))"

text \<open>stdout only; the stream it returns decodes each chunk with \<open>demux_transform\<close>.\<close>

definition exec_in_container :: "engine \<Rightarrow> string \<Rightarrow> string list \<Rightarrow> unit eng" where
  "exec_in_container e a cmd =
     ebind (managed_container e a) (\<lambda>_.
     ebind (do_call e (CreateExec (container_name a) cmd False False)) (\<lambda>_.
     do_call e (StartExec False)))"

text \<open>
  Waiting for the stream, then for the exit code. None: neither the stream nor the timer
  has settled, so the call has not returned.
\<close>

definition await_exec :: "engine \<Rightarrow> bool \<Rightarrow> exec_result option eng" where
  "await_exec e armed h =
     (case exec_race armed no_output (e_exec_events e h) of
        None \<Rightarrow> ereturn None h
      | Some (Failed m, _) \<Rightarrow> eraise (StreamFailed m) h
      | Some (TimedOut, _) \<Rightarrow> eraise CommandTimedOut h
      | Some (Finished, c) \<Rightarrow>
          (map_sum id (\<lambda>code. Some (exec_result_of code c)) (e_exec_code e h), h @ [InspectExec]))"

definition exec_in_container_with_exit :: "engine \<Rightarrow> string \<Rightarrow> string list \<Rightarrow> int option \<Rightarrow> exec_result option eng" where
  "exec_in_container_with_exit e a cmd timeout =
     ebind (managed_container e a) (\<lambda>_.
     ebind (do_call e (CreateExec (container_name a) cmd False True)) (\<lambda>_.
     ebind (do_call e (StartExec False)) (\<lambda>_.
     await_exec e (case timeout of None \<Rightarrow> False | Some t \<Rightarrow> 0 < t))))"

definition exec_with_stdin ::
  "engine \<Rightarrow> string \<Rightarrow> string list \<Rightarrow> bytes \<Rightarrow> int option \<Rightarrow> exec_result option eng" where
  "exec_with_stdin e a cmd input timeout =
     ebind (managed_container e a) (\<lambda>_.
     ebind (do_call e (CreateExec (container_name a) cmd True True)) (\<lambda>_.
     ebind (do_call e (StartExec True)) (\<lambda>_.
     ebind (\<lambda>h. (Inr (), h @ [WriteStdin input])) (\<lambda>_.
     await_exec e (case timeout of None \<Rightarrow> False | Some t \<Rightarrow> 0 < t)))))"

section \<open>What every engine sees\<close>

text \<open>
  \<open>calls_ok P m\<close>: whatever the engine answers, every call \<open>m\<close> makes satisfies \<open>P\<close>.
\<close>

definition calls_ok :: "(docker_call \<Rightarrow> bool) \<Rightarrow> 'a eng \<Rightarrow> bool" where
  "calls_ok P m = (\<forall>h. \<exists>cs. snd (m h) = h @ cs \<and> list_all P cs)"

lemma calls_okI: "(\<And>h. \<exists>cs. snd (m h) = h @ cs \<and> list_all P cs) \<Longrightarrow> calls_ok P m"
  by (simp add: calls_ok_def)

lemma calls_ok_return [inv_intros, intro]: "calls_ok P (ereturn x)"
  and calls_ok_raise [inv_intros, intro]: "calls_ok P (eraise e)"
  and calls_ok_lift [inv_intros, intro]: "calls_ok P (elift r)"
  by (auto intro!: calls_okI simp: eng_defs)

lemma calls_ok_inspect: "P (InspectC n) \<Longrightarrow> calls_ok P (inspect_c e n)"
  and calls_ok_image: "P (InspectImage n) \<Longrightarrow> calls_ok P (inspect_image e n)"
  and calls_ok_do: "P c \<Longrightarrow> calls_ok P (do_call e c)"
  by (auto intro!: calls_okI simp: eng_defs)

lemma calls_ok_bind_val:
  assumes m: "calls_ok P m" and f: "\<And>x h h'. m h = (Inr x, h') \<Longrightarrow> calls_ok P (f x)"
  shows "calls_ok P (ebind m f)"
proof (rule calls_okI)
  fix h
  obtain cs where cs: "snd (m h) = h @ cs" "list_all P cs" using m by (auto simp: calls_ok_def)
  show "\<exists>cs. snd (ebind m f h) = h @ cs \<and> list_all P cs"
  proof (cases "m h")
    case (Pair r h')
    show ?thesis
    proof (cases r)
      case (Inl e)
      then show ?thesis using cs Pair by (auto simp: ebind_def)
    next
      case (Inr x)
      then obtain ds where "snd (f x h') = h' @ ds" "list_all P ds"
        using f Pair by (fastforce simp: calls_ok_def)
      then show ?thesis using cs Pair Inr by (intro exI[of _ "cs @ ds"]) (auto simp: ebind_def)
    qed
  qed
qed

lemma calls_ok_bind [inv_intros]: "calls_ok P m \<Longrightarrow> (\<And>x. calls_ok P (f x)) \<Longrightarrow> calls_ok P (ebind m f)"
  by (rule calls_ok_bind_val)

lemma calls_ok_catch [inv_intros]:
  assumes "calls_ok P m" "\<And>e. calls_ok P (k e)" shows "calls_ok P (ecatch m k)"
proof (rule calls_okI)
  fix h
  obtain cs where cs: "snd (m h) = h @ cs" "list_all P cs" using assms(1) by (auto simp: calls_ok_def)
  show "\<exists>cs. snd (ecatch m k h) = h @ cs \<and> list_all P cs"
  proof (cases "m h")
    case (Pair r h')
    show ?thesis
    proof (cases r)
      case (Inr x)
      then show ?thesis using cs Pair by (auto simp: ecatch_def)
    next
      case (Inl e)
      then obtain ds where "snd (k e h') = h' @ ds" "list_all P ds"
        using assms(2) by (fastforce simp: calls_ok_def)
      then show ?thesis using cs Pair Inl by (intro exI[of _ "cs @ ds"]) (auto simp: ecatch_def)
    qed
  qed
qed

lemma calls_ok_bind_limit:
  "(\<And>x. r = Inr x \<Longrightarrow> calls_ok P (f x)) \<Longrightarrow> calls_ok P (ebind (elift (lift_limit r)) f)"
  by (rule calls_ok_bind_val)
     (auto simp: elift_def lift_limit_def intro: calls_ok_lift split: sum.splits)

lemma calls_ok_if [inv_intros]:
  "(b \<Longrightarrow> calls_ok P m) \<Longrightarrow> (\<not> b \<Longrightarrow> calls_ok P n) \<Longrightarrow> calls_ok P (if b then m else n)"
  by simp

lemma calls_ok_404 [inv_intros]: "calls_ok P (unless_404 x e)"
  by (auto intro!: calls_okI simp: eng_defs)

lemma calls_okD: "calls_ok P m \<Longrightarrow> c \<in> set (snd (m [])) \<Longrightarrow> P c"
  unfolding calls_ok_def by (metis append_Nil list_all_iff)

section \<open>Containers are created within the ceilings\<close>

definition num_between :: "jsnum \<Rightarrow> int \<Rightarrow> int \<Rightarrow> bool" where
  "num_between n lo hi = (\<exists>q. n = Fin q \<and> of_int lo \<le> q \<and> q \<le> of_int hi)"

lemma num_between_int: "num_between (Fin (of_int n)) lo hi \<longleftrightarrow> lo \<le> n \<and> n \<le> hi"
  by (simp add: num_between_def)

text \<open>
  The calls \<open>create_and_start\<close> may make: it touches only the container of its agent, and
  the one it creates carries the managed label, the agent's own volumes and nothing but a
  read-only bind of the agent's own configuration, a network that is the requested one or
  the sandbox, and limits within the ceilings.
\<close>

definition spec_ok :: "docker_env \<Rightarrow> create_opts \<Rightarrow> cspec \<Rightarrow> bool" where
  "spec_ok env opts s =
     (cs_name s = ''agentbox-'' @ co_agent opts
      \<and> map_of (cs_labels s) ''managed-by'' = Some ''hill90-api''
      \<and> map_of (cs_labels s) ''traefik.enable'' = Some ''false''
      \<and> cs_binds s = [config_host_path env @ ''/'' @ co_agent opts @ '':/etc/agentbox:ro'']
      \<and> map m_source (cs_mounts s) =
          map (\<lambda>x. ''agentbox-'' @ co_agent opts @ ''-'' @ x) [''workspace'', ''logs'', ''data'']
      \<and> cs_network s = (if co_network opts = [] then network_prefix env @ ''_agent_sandbox'' else co_network opts)
      \<and> num_between (cs_nano_cpus s) 0 4000000000
      \<and> num_between (cs_memory s) 0 16761118720
      \<and> num_between (cs_pids s) 1 300)"

definition create_call_ok :: "docker_env \<Rightarrow> create_opts \<Rightarrow> docker_call \<Rightarrow> bool" where
  "create_call_ok env opts c =
     (let n = ''agentbox-'' @ co_agent opts in
      case c of
        InspectC m \<Rightarrow> m = n | StopC m \<Rightarrow> m = n | RemoveC m \<Rightarrow> m = n | StartC m \<Rightarrow> m = n
      | InspectImage i \<Rightarrow> True
      | CreateC s \<Rightarrow> spec_ok env opts s
      | ConnectNet net m \<Rightarrow>
          net = ''hill90_edge'' \<and> m = n \<and> co_network opts = network_prefix env @ ''_agent_internal''
      | _ \<Rightarrow> False)"

lemma spec_ok_container_spec:
  assumes "parse_cpus (co_cpus opts) = Inr cpus" "parse_mem_limit (co_mem opts) = Inr mem"
    and "check_pids (co_pids opts) = Inr p"
  shows "spec_ok env opts (container_spec env opts (nano_cpus cpus) mem shm stamp)"
proof -
  obtain q where q: "cpus = Fin q" "0 < q" "q \<le> max_agent_cpus" using parse_cpus_bounds[OF assms(1)] by auto
  then obtain n where n: "nano_cpus cpus = Fin (of_int n)" "0 \<le> n" "n \<le> 4000000000"
    using nano_cpus_bounds[of q] by auto
  have c: "num_between (nano_cpus cpus) 0 4000000000"
    unfolding n(1) num_between_int using n by simp
  obtain b where b: "mem = Fin b" "0 \<le> b" "b \<le> max_agent_mem_bytes"
    using parse_mem_limit_bounds[OF assms(2)] by auto
  have m: "num_between mem 0 16761118720"
    using b by (simp add: num_between_def max_agent_mem_bytes_def)
  obtain i where i: "p = Fin (of_int i)" "1 \<le> i" "i \<le> 300" using check_pids_bounds[OF assms(3)] by auto
  moreover have "co_pids opts = p" using assms(3) by (simp add: check_pids_def split: if_splits)
  ultimately have p: "num_between (co_pids opts) 1 300" by (simp add: num_between_int del: of_int_le_iff)
  show ?thesis using c m p
    by (simp add: spec_ok_def container_spec_def container_name_def container_prefix_def managed_label_def
        managed_value_def agent_mount_def volume_name_def volume_suffixes_def chosen_network_def
        sandbox_network_def)
qed

lemma calls_ok_remove_collision: "calls_ok (create_call_ok env opts) (remove_collision e (container_name (co_agent opts)))"
  unfolding remove_collision_def
  by (intro inv_intros calls_ok_inspect calls_ok_do)
     (simp_all add: create_call_ok_def container_name_def container_prefix_def)

lemma calls_ok_image_revision: "calls_ok (create_call_ok env opts) (image_revision e img)"
  unfolding image_revision_def
  by (intro inv_intros calls_ok_image) (simp_all add: create_call_ok_def)

lemma calls_ok_attach_edge: "calls_ok (create_call_ok env opts) (attach_edge e env opts)"
  unfolding attach_edge_def
  by (intro inv_intros calls_ok_do)
     (simp_all add: create_call_ok_def container_name_def container_prefix_def agent_network_def)

lemma calls_ok_create_and_start: "calls_ok (create_call_ok env opts) (create_and_start e env opts)"
  unfolding create_and_start_def Let_def assert_agentbox_name_def
  by ((rule calls_ok_bind_limit | rule calls_ok_bind calls_ok_if calls_ok_return calls_ok_raise
        calls_ok_lift calls_ok_remove_collision calls_ok_image_revision calls_ok_attach_edge
        calls_ok_do calls_ok_inspect
      | (simp add: create_call_ok_def container_name_def container_prefix_def spec_ok_container_spec; fail))+)


lemma own_volume:
  "s \<in> set volume_suffixes \<Longrightarrow> assert_agentbox_volume (volume_name a s) a = ereturn ()"
  using startsWith_append[of "container_prefix @ a @ ''-''" s]
  by (simp add: assert_agentbox_volume_def volume_name_def Let_def slice_from_def)

lemma remove_volumes_step:
  assumes "s \<in> set volume_suffixes"
  shows "remove_volumes e a (s # ss) h =
    (let c = RemoveVol (volume_name a s); r = e_do e h c
     in if r = Inr () \<or> r = Inl (Status 404) then remove_volumes e a ss (h @ [c]) else (r, h @ [c]))"
  using own_volume[OF assms] by (auto simp: eng_defs Let_def split: sum.splits)

text \<open>
  Stopping is confined to managed containers: the calls are exactly an inspect of the
  agent's container and, only when it carries the managed label, a stop whose failure is
  ignored and a remove whose answer is the outcome; a container without the label is
  refused and nothing happens to it. Removing volumes asks for the agent's own three
  volumes in order, treats a missing one as removed and stops at the first other failure.
\<close>

theorem stop_only_managed:
  "stop_and_remove e a [] =
     (let n = container_name a in
      case e_inspect e [] n of
        Inl x \<Rightarrow> (Inl x, [InspectC n])
      | Inr info \<Rightarrow>
          if map_of (ci_labels info) ''managed-by'' = Some ''hill90-api''
          then (e_do e [InspectC n, StopC n] (RemoveC n), [InspectC n, StopC n, RemoveC n])
          else (Inl (Refused ''container missing label managed-by=hill90-api''), [InspectC n]))
   \<and> remove_agent_volumes e a [] =
       (let c = (\<lambda>s. RemoveVol (volume_name a s));
            w = ''workspace''; l = ''logs''; d = ''data'';
            ok = (\<lambda>h s. e_do e h (c s) = Inr () \<or> e_do e h (c s) = Inl (Status 404))
        in if \<not> ok [] w then (e_do e [] (c w), [c w])
           else if \<not> ok [c w] l then (e_do e [c w] (c l), [c w, c l])
           else if \<not> ok [c w, c l] d then (e_do e [c w, c l] (c d), [c w, c l, c d])
           else (Inr (), [c w, c l, c d]))"
proof
  show "stop_and_remove e a [] =
     (let n = container_name a in
      case e_inspect e [] n of
        Inl x \<Rightarrow> (Inl x, [InspectC n])
      | Inr info \<Rightarrow>
          if map_of (ci_labels info) ''managed-by'' = Some ''hill90-api''
          then (e_do e [InspectC n, StopC n] (RemoveC n), [InspectC n, StopC n, RemoveC n])
          else (Inl (Refused ''container missing label managed-by=hill90-api''), [InspectC n]))"
    by (simp add: stop_and_remove_def Let_def assert_agentbox_name_def container_name_def
        assert_managed_label_def managed_label_def managed_value_def eng_defs split: sum.splits)
  show "remove_agent_volumes e a [] =
       (let c = (\<lambda>s. RemoveVol (volume_name a s));
            w = ''workspace''; l = ''logs''; d = ''data'';
            ok = (\<lambda>h s. e_do e h (c s) = Inr () \<or> e_do e h (c s) = Inl (Status 404))
        in if \<not> ok [] w then (e_do e [] (c w), [c w])
           else if \<not> ok [c w] l then (e_do e [c w] (c l), [c w, c l])
           else if \<not> ok [c w, c l] d then (e_do e [c w, c l] (c d), [c w, c l, c d])
           else (Inr (), [c w, c l, c d]))"
    by (simp add: remove_agent_volumes_def remove_volumes_step volume_suffixes_def ereturn_def Let_def
        del: remove_volumes.simps(2))
qed

text \<open>
  The collision check comes first and is not confined to managed containers: an
  existing container of the agent's name is stopped and removed, label or not, before the
  limits are read, so a start with an unusable cpus value destroys the container that was
  there and then fails.
\<close>

theorem collision_before_checks:
  assumes "e_inspect e [] (container_name (co_agent opts)) = Inr info"
    and "e_do e [InspectC (container_name (co_agent opts)), StopC (container_name (co_agent opts))]
           (RemoveC (container_name (co_agent opts))) = Inr ()"
    and "config_host_path env \<noteq> []" and "parse_cpus (co_cpus opts) = Inl err"
  shows "create_and_start e env opts [] =
     (Inl (BadLimit err),
      [InspectC (container_name (co_agent opts)), StopC (container_name (co_agent opts)),
       RemoveC (container_name (co_agent opts))])"
  using assms
  by (simp add: create_and_start_def Let_def assert_agentbox_name_def remove_collision_def
      container_name_def lift_limit_def eng_defs split: sum.splits)

definition quiet_engine :: engine where
  "quiet_engine =
     \<lparr>e_inspect = (\<lambda>_ _. Inr \<lparr>ci_id = ''c1'', ci_status = ''running'', ci_labels = [], ci_health = None,
                            ci_finished = None, ci_started = None\<rparr>),
      e_image = (\<lambda>_ _. Inr None), e_do = (\<lambda>_ _. Inr ()),
      e_exec_events = (\<lambda>_. [End]), e_exec_code = (\<lambda>_. Inr (Some 0))\<rparr>"

definition demo_opts :: create_opts where
  "demo_opts = \<lparr>co_agent = ''a'', co_cpus = ''x'', co_mem = ''1g'', co_pids = Fin 200, co_env = [],
     co_network = [], co_image = [], co_extra_env = [], co_shm = []\<rparr>"

lemma parse_cpus_x: "parse_cpus ''x'' = Inl (InvalidCpus ''x'')"
  by (simp add: parse_cpus_def match_cpus_def match_decimal_def is_digit_def)

theorem collision_before_checks_witness:
  "create_and_start quiet_engine \<lparr>config_host_path = ''/srv'', network_prefix = ''hill90''\<rparr> demo_opts [] =
     (Inl (BadLimit (InvalidCpus ''x'')),
      [InspectC ''agentbox-a'', StopC ''agentbox-a'', RemoveC ''agentbox-a''])"
  using collision_before_checks[of quiet_engine demo_opts _ "\<lparr>config_host_path = ''/srv'', network_prefix = ''hill90''\<rparr>"
      "InvalidCpus ''x''"] parse_cpus_x
  by (simp add: quiet_engine_def demo_opts_def container_name_def container_prefix_def)

end
