(* ===== verification/Reconciler.thy ===== *)
theory Reconciler
  imports Docker
begin

text \<open>
  Agent status reconciliation: \<open>reconcileAgentStatuses\<close> of \<open>services/docker.ts\<close>, the pass
  around it in \<open>services/agent-reconciler.ts\<close> and the in-memory verification state of
  \<open>services/agent-status-verification.ts\<close>. The daemon's answers during a pass are a
  parameter, a function from an agent's slug to what \<open>inspectContainer\<close> returned or threw;
  the database may fail at any query. A notification is recorded as asked for: its insert
  is fire-and-forget and cannot reach the pass.
\<close>

section \<open>Rows and state\<close>

record agent_row =
  ag_id :: string
  ag_slug :: string
  ag_status :: string
  ag_container_id :: "string option"
  ag_container_state :: "string option"
  ag_created_by :: string
  ag_error :: "string option"
  ag_finished :: "int option"
  ag_router_exp :: "int option"

record session_row =
  se_agent :: string
  se_stopped :: "int option"
  se_estimated :: bool

datatype notice =
    ContainerDeleted string string
  | TokenExpired string string int

record rec_db =
  ags :: "agent_row list"
  sessions :: "session_row list"
  history :: "(string \<times> string \<times> string) list"
  notices :: "notice list"
  now :: int
  default_verified :: bool
  explicit :: "string \<Rightarrow> bool option"
  escalated :: "string \<Rightarrow> int option"

section \<open>What the API may report (agent-status-verification.ts)\<close>

definition unknown_status :: string where "unknown_status = ''unknown''"

definition record_reconcile_pass :: "string list \<Rightarrow> rec_db \<Rightarrow> rec_db" where
  "record_reconcile_pass us d =
     d\<lparr>default_verified := True, explicit := fold (\<lambda>u m. m(u \<mapsto> False)) us Map.empty\<rparr>"

definition record_reconcile_failure :: "rec_db \<Rightarrow> rec_db" where
  "record_reconcile_failure d = d\<lparr>default_verified := False, explicit := Map.empty\<rparr>"

definition mark_status_verified :: "string \<Rightarrow> rec_db \<Rightarrow> rec_db" where
  "mark_status_verified slug d = d\<lparr>explicit := (explicit d)(slug \<mapsto> True)\<rparr>"

definition is_status_verified :: "rec_db \<Rightarrow> string \<Rightarrow> bool" where
  "is_status_verified d slug =
     (case explicit d slug of None \<Rightarrow> default_verified d | Some b \<Rightarrow> b)"

definition reported_status :: "rec_db \<Rightarrow> string \<Rightarrow> string \<Rightarrow> string" where
  "reported_status d slug recorded =
     (if is_status_verified d slug then recorded else unknown_status)"

section \<open>Patches\<close>

definition container_absent :: string where "container_absent = ''absent''"

text \<open>
  A change the pass wants written. The three outer options are the fields the pass may have
  no opinion on (\<open>undefined\<close>).
\<close>

record patch =
  p_id :: string
  p_slug :: string
  p_created_by :: string
  p_previous :: string
  p_status :: string
  p_container_state :: "string option"
  p_container_id :: "string option option"
  p_error :: "string option option"
  p_finished :: "int option option"

definition or_keep :: "'a option \<Rightarrow> 'a \<Rightarrow> 'a" where
  "or_keep n old = (case n of None \<Rightarrow> old | Some x \<Rightarrow> x)"

definition patch_row :: "patch \<Rightarrow> agent_row \<Rightarrow> agent_row" where
  "patch_row p a = a\<lparr>ag_status := p_status p, ag_container_state := p_container_state p,
     ag_container_id := or_keep (p_container_id p) (ag_container_id a),
     ag_error := or_keep (p_error p) (ag_error a),
     ag_finished := or_keep (p_finished p) (ag_finished a)\<rparr>"

definition update_agent :: "patch \<Rightarrow> rec_db \<Rightarrow> rec_db" where
  "update_agent p d = d\<lparr>ags := map (\<lambda>a. if ag_id a = p_id p then patch_row p a else a) (ags d)\<rparr>"

text \<open>The writer \<open>runReconcilePass\<close> hands to the reconciliation.\<close>

definition apply_patch :: "patch \<Rightarrow> (rec_db, unit) eff" where
  "apply_patch p =
     eff_seq (db_write (update_agent p))
       (if p_status p = p_previous p then ret ()
        else eff_seq
          (eff_catch (db_write (\<lambda>d. d\<lparr>history := history d @ [(p_id p, p_previous p, p_status p)]\<rparr>))
                     (\<lambda>_. ret ()))
          (if p_status p = ''stopped'' \<and> p_container_state p = Some container_absent
           then local_step (\<lambda>d. d\<lparr>notices := notices d @ [ContainerDeleted (p_created_by p) (p_id p)]\<rparr>)
           else ret ()))"

section \<open>One row\<close>

type_synonym daemon = "string \<Rightarrow> dexn + container_view option"

datatype row_outcome = Unverified bool | Promoted | Demoted | Grace | Observed | Steady

definition base_patch :: "agent_row \<Rightarrow> string option \<Rightarrow> patch" where
  "base_patch a cs =
     \<lparr>p_id = ag_id a, p_slug = ag_slug a, p_created_by = ag_created_by a,
      p_previous = ag_status a, p_status = ag_status a, p_container_state = cs,
      p_container_id = None, p_error = None, p_finished = None\<rparr>"

definition seen_state :: "container_view option \<Rightarrow> string" where
  "seen_state st = (case st of None \<Rightarrow> container_absent | Some v \<Rightarrow> cv_status v)"

definition seen_running :: "container_view option \<Rightarrow> bool" where
  "seen_running st = (case st of None \<Rightarrow> False | Some v \<Rightarrow> cv_status v = ''running'')"

definition confirmed_down :: "agent_row \<Rightarrow> container_view option \<Rightarrow> bool" where
  "confirmed_down a st =
     (seen_state st = container_absent
      \<or> (ag_container_state a \<noteq> None \<and> ag_container_state a \<noteq> Some ''running''))"

text \<open>The decision for a row: its outcome and the patch to apply, if any.\<close>

definition decide_row :: "daemon \<Rightarrow> agent_row \<Rightarrow> row_outcome \<times> patch option" where
  "decide_row insp a =
     (case insp (ag_slug a) of
        Inl _ \<Rightarrow>
          if ag_container_state a \<noteq> None then (Unverified True, Some (base_patch a None))
          else (Unverified False, None)
      | Inr st \<Rightarrow>
          (let cs = seen_state st; running = seen_running st in
           if running \<and> ag_status a \<noteq> ''running'' then
             (Promoted, Some ((base_patch a (Some cs))\<lparr>p_status := ''running'',
                p_container_id := Some (map_option cv_id st), p_error := Some None, p_finished := Some None\<rparr>))
           else if \<not> running \<and> ag_status a = ''running'' \<and> confirmed_down a st then
             (Demoted, Some ((base_patch a (Some cs))\<lparr>p_status := ''stopped'',
                p_container_id := Some None,
                p_error := Some (Some (case st of None \<Rightarrow> ''Container not found''
                                        | Some v \<Rightarrow> ''Container '' @ cv_status v)),
                p_finished := Some (case st of None \<Rightarrow> None | Some v \<Rightarrow> cv_finished v)\<rparr>))
           else if \<not> running \<and> ag_status a = ''running'' then
             (Grace, Some (base_patch a (Some cs)))
           else if ag_container_state a \<noteq> Some cs then (Observed, Some (base_patch a (Some cs)))
           else (Steady, None)))"

definition reconcile_row :: "daemon \<Rightarrow> agent_row \<Rightarrow> (rec_db, row_outcome) eff" where
  "reconcile_row insp a =
     (case decide_row insp a of (out, p) \<Rightarrow>
        eff_seq (case p of None \<Rightarrow> ret () | Some p \<Rightarrow> apply_patch p) (ret out))"

text \<open>\<open>reconcileAgentStatuses\<close> over the rows that were read.\<close>

definition reconcile_agent_statuses :: "daemon \<Rightarrow> agent_row list \<Rightarrow> (rec_db, row_outcome list) eff" where
  "reconcile_agent_statuses insp rows = eff_map (reconcile_row insp) rows"

section \<open>The pass\<close>

definition row_of :: "rec_db \<Rightarrow> string \<Rightarrow> agent_row option" where
  "row_of d i = find (\<lambda>a. ag_id a = i) (ags d)"

definition close_session :: "rec_db \<Rightarrow> session_row \<Rightarrow> session_row" where
  "close_session d s =
     (case row_of d (se_agent s) of
        None \<Rightarrow> s
      | Some a \<Rightarrow>
          if se_stopped s = None \<and> ag_status a \<noteq> ''running''
          then s\<lparr>se_stopped := Some (case ag_finished a of None \<Rightarrow> now d | Some t \<Rightarrow> t),
                 se_estimated := (ag_finished a = None)\<rparr>
          else s)"

definition sweep_sessions :: "rec_db \<Rightarrow> rec_db" where
  "sweep_sessions d = d\<lparr>sessions := map (close_session d) (sessions d)\<rparr>"

definition close_sessions_for_stopped_agents :: "(rec_db, unit) eff" where
  "close_sessions_for_stopped_agents = eff_catch (db_write sweep_sessions) (\<lambda>_. ret ())"

definition escalate_row :: "(agent_row \<Rightarrow> bool) \<Rightarrow> agent_row \<Rightarrow> rec_db \<Rightarrow> rec_db" where
  "escalate_row skip a d =
     (case ag_router_exp a of
        None \<Rightarrow> d
      | Some t \<Rightarrow>
          if ag_status a \<noteq> ''running'' \<or> t > now d \<or> skip a \<or> escalated d (ag_id a) = Some t then d
          else d\<lparr>escalated := (escalated d)(ag_id a \<mapsto> t),
                 notices := notices d @ [TokenExpired (ag_created_by a) (ag_id a) t]\<rparr>)"

definition escalate_unrenewed_tokens :: "(agent_row \<Rightarrow> bool) \<Rightarrow> agent_row list \<Rightarrow> rec_db \<Rightarrow> rec_db" where
  "escalate_unrenewed_tokens skip rows d = fold (escalate_row skip) rows d"

record reconcile_result =
  checked :: nat
  promoted :: nat
  demoted :: nat
  reconciled :: nat
  unverified :: "string list"

fun is_unverified :: "row_outcome \<Rightarrow> bool" where
  "is_unverified (Unverified _) = True"
| "is_unverified _ = False"

definition was_patched :: "row_outcome \<Rightarrow> bool" where
  "was_patched out = (out \<noteq> Steady \<and> out \<noteq> Unverified False)"

definition count_of :: "row_outcome \<Rightarrow> row_outcome list \<Rightarrow> nat" where
  "count_of x outs = length (filter (\<lambda>y. y = x) outs)"

definition result_of :: "agent_row list \<Rightarrow> row_outcome list \<Rightarrow> reconcile_result" where
  "result_of rows outs =
     \<lparr>checked = length rows, promoted = count_of Promoted outs, demoted = count_of Demoted outs,
      reconciled = count_of Promoted outs + count_of Demoted outs,
      unverified = map (ag_slug \<circ> fst) (filter (is_unverified \<circ> snd) (zip rows outs))\<rparr>"

definition patched_ids :: "agent_row list \<Rightarrow> row_outcome list \<Rightarrow> string list" where
  "patched_ids rows outs = map (ag_id \<circ> fst) (filter (was_patched \<circ> snd) (zip rows outs))"

definition run_reconcile_pass :: "daemon \<Rightarrow> (rec_db, reconcile_result option) eff" where
  "run_reconcile_pass insp =
     eff_catch
       (eff_bind (db_read ags) (\<lambda>rows.
        eff_bind (reconcile_agent_statuses insp rows) (\<lambda>outs.
        let res = result_of rows outs in
        eff_seq close_sessions_for_stopped_agents
        (eff_seq (local_step (record_reconcile_pass (unverified res)))
        (eff_seq (local_step (escalate_unrenewed_tokens
                    (\<lambda>a. ag_id a \<in> set (patched_ids rows outs) \<or> ag_slug a \<in> set (unverified res)) rows))
        (ret (Some res)))))))
       (\<lambda>_. eff_seq (local_step record_reconcile_failure) (ret None))"

section \<open>What a pass does to the rows\<close>

text \<open>The specification of the decision: where a row ends up when its patch is written.\<close>

definition settle_row :: "daemon \<Rightarrow> agent_row \<Rightarrow> agent_row" where
  "settle_row insp a = (case snd (decide_row insp a) of None \<Rightarrow> a | Some p \<Rightarrow> patch_row p a)"

definition settle_in :: "string set \<Rightarrow> daemon \<Rightarrow> agent_row list \<Rightarrow> agent_row list" where
  "settle_in S insp as = map (\<lambda>a. if ag_id a \<in> S then settle_row insp a else a) as"

lemma patch_row_id [simp]: "ag_id (patch_row p a) = ag_id a" "ag_slug (patch_row p a) = ag_slug a"
  by (simp_all add: patch_row_def)

lemma settle_row_id [simp]: "ag_id (settle_row insp a) = ag_id a" "ag_slug (settle_row insp a) = ag_slug a"
  by (simp_all add: settle_row_def split: option.splits)

lemma decide_row_ids: "decide_row insp a = (out, Some p) \<Longrightarrow> p_id p = ag_id a"
  by (auto simp: decide_row_def base_patch_def Let_def split: sum.splits if_splits)

lemma settle_in_empty [simp]: "settle_in {} insp as = as"
  by (simp add: settle_in_def)

text \<open>Only the UPDATE touches the rows; when the patch throws, it was the UPDATE that failed.\<close>

lemma holds_apply_patch:
  "holds (\<lambda>d. ags d = X) (apply_patch p)
     (\<lambda>_ d. ags d = map (\<lambda>a. if ag_id a = p_id p then patch_row p a else a) X) (\<lambda>d. ags d = X)"
  unfolding apply_patch_def
  by (rule holds_seq[OF holds_write[where Q = "\<lambda>_ d. ags d = map (\<lambda>a. if ag_id a = p_id p then patch_row p a else a) X"]])
     (auto simp: update_agent_def
        intro!: holds_if holds_ret holds_local holds_seq[where R = "\<lambda>_ d. ags d = map (\<lambda>a. if ag_id a = p_id p then patch_row p a else a) X"]
          holds_catch[where R = "\<lambda>d. ags d = map (\<lambda>a. if ag_id a = p_id p then patch_row p a else a) X"] holds_write)

lemma holds_reconcile_row:
  assumes own: "\<forall>x \<in> set X. ag_id x = ag_id a \<longrightarrow> x = a"
  shows "holds (\<lambda>d. ags d = X) (reconcile_row insp a)
     (\<lambda>out d. ags d = settle_in {ag_id a} insp X \<and> out = fst (decide_row insp a)) (\<lambda>d. ags d = X)"
proof -
  obtain out p where dec: "decide_row insp a = (out, p)" by fastforce
  show ?thesis
  proof (cases p)
    case None
    then have "settle_in {ag_id a} insp X = X"
      using own dec by (auto simp: settle_in_def settle_row_def intro!: map_cong_filter)
    then show ?thesis using None dec
      by (auto simp: reconcile_row_def intro!: holds_seq[where R = "\<lambda>_ d. ags d = X"] holds_ret)
  next
    case (Some q)
    have "map (\<lambda>x. if ag_id x = p_id q then patch_row q x else x) X = settle_in {ag_id a} insp X"
      using own dec Some decide_row_ids[of insp a out q] by (auto simp: settle_in_def settle_row_def)
    then show ?thesis using Some dec holds_apply_patch[of X q]
      by (auto simp: reconcile_row_def intro!: holds_seq holds_ret)
  qed
qed

lemma holds_pre_pure: "(C \<Longrightarrow> holds P m Q E) \<Longrightarrow> holds (\<lambda>d. P d \<and> C) m Q E"
  by (auto simp: holds_def)

lemma holds_reconcile_rows:
  assumes "distinct (map ag_id rs)" "\<forall>r \<in> set rs. \<forall>x \<in> set X. ag_id x = ag_id r \<longrightarrow> x = r"
  shows "holds (\<lambda>d. ags d = X) (reconcile_agent_statuses insp rs)
     (\<lambda>outs d. ags d = settle_in (ag_id ` set rs) insp X \<and> outs = map (fst \<circ> decide_row insp) rs)
     (\<lambda>d. \<exists>S \<subseteq> ag_id ` set rs. ags d = settle_in S insp X)"
  using assms
proof (induction rs arbitrary: X)
  case Nil
  then show ?case by (simp add: reconcile_agent_statuses_def holds_ret)
next
  case (Cons r rs)
  let ?Y = "settle_in {ag_id r} insp X"
  have fresh: "\<forall>q \<in> set rs. \<forall>x \<in> set ?Y. ag_id x = ag_id q \<longrightarrow> x = q"
    using Cons.prems by (force simp: settle_in_def split: if_splits)
  have comb: "settle_in S insp ?Y = settle_in (insert (ag_id r) S) insp X" if "S \<subseteq> ag_id ` set rs" for S
    using that Cons.prems(1) by (auto simp: settle_in_def)
  have ih: "holds (\<lambda>d. ags d = ?Y) (eff_map (reconcile_row insp) rs)
     (\<lambda>outs d. ags d = settle_in (ag_id ` set (r # rs)) insp X \<and> outs = map (fst \<circ> decide_row insp) rs)
     (\<lambda>d. \<exists>S \<subseteq> ag_id ` set (r # rs). ags d = settle_in S insp X)"
    using Cons.prems(1)
    by (intro holds_conseq[OF Cons.IH[OF _ fresh, unfolded reconcile_agent_statuses_def]])
       (auto simp: comb intro: exI[of _ "insert (ag_id r) S" for S])
  have "holds (\<lambda>d. ags d = X) (reconcile_row insp r)
     (\<lambda>out d. ags d = ?Y \<and> out = fst (decide_row insp r)) (\<lambda>d. \<exists>S \<subseteq> ag_id ` set (r # rs). ags d = settle_in S insp X)"
    using Cons.prems(2)
    by (intro holds_conseq[OF holds_reconcile_row[of X r insp]]) (auto intro!: exI[of _ "{}"])
  then show ?case unfolding reconcile_agent_statuses_def eff_map.simps
    by (rule holds_bind, intro holds_pre_pure holds_bind[OF ih] holds_ret) auto
qed

section \<open>What a pass establishes\<close>

lemma holds_and:
  "holds P m Q E \<Longrightarrow> keeps I m \<Longrightarrow>
   holds (\<lambda>d. P d \<and> I d) m (\<lambda>x d. Q x d \<and> I d) (\<lambda>d. E d \<and> I d)"
  unfolding keeps_def holds_def by (fastforce split: prod.splits sum.splits)

lemma keeps_sessions_apply_patch: "keeps (\<lambda>d. sessions d = S) (apply_patch p)"
  unfolding apply_patch_def
  by (intro keeps_seq keeps_if keeps_ret keeps_catch keeps_write keeps_local) (simp_all add: update_agent_def)

lemma keeps_sessions_rows: "keeps (\<lambda>d. sessions d = S) (reconcile_agent_statuses insp rs)"
  unfolding reconcile_agent_statuses_def reconcile_row_def
  by (intro keeps_map keeps_prod keeps_seq keeps_option keeps_ret keeps_sessions_apply_patch)

lemma escalate_frame [simp]:
  "ags (escalate_unrenewed_tokens skip rows d) = ags d"
  "sessions (escalate_unrenewed_tokens skip rows d) = sessions d"
  "default_verified (escalate_unrenewed_tokens skip rows d) = default_verified d"
  "explicit (escalate_unrenewed_tokens skip rows d) = explicit d"
  unfolding escalate_unrenewed_tokens_def
  by (induction rows arbitrary: d) (auto simp: escalate_row_def split: option.splits)

lemma escalate_verified [simp]:
  "is_status_verified (escalate_unrenewed_tokens skip rows d) slug = is_status_verified d slug"
  by (simp add: is_status_verified_def split: option.split)

lemma sweep_sessions_frame [simp]: "ags (sweep_sessions d) = ags d"
  by (simp add: sweep_sessions_def)

lemma record_frame [simp]:
  "ags (record_reconcile_pass us d) = ags d" "sessions (record_reconcile_pass us d) = sessions d"
  "ags (record_reconcile_failure d) = ags d" "sessions (record_reconcile_failure d) = sessions d"
  by (simp_all add: record_reconcile_pass_def record_reconcile_failure_def)

lemma explicit_fold: "fold (\<lambda>u m. m(u \<mapsto> False)) us m x = (if x \<in> set us then Some False else m x)"
  by (induction us arbitrary: m) auto

lemma verified_after_pass: "is_status_verified (record_reconcile_pass us d) slug \<longleftrightarrow> slug \<notin> set us"
  by (simp add: is_status_verified_def record_reconcile_pass_def explicit_fold)

lemma settle_in_all: "settle_in (ag_id ` set as) insp as = map (settle_row insp) as"
  by (simp add: settle_in_def)

lemma unverified_slugs:
  "a \<in> set rows \<Longrightarrow> insp (ag_slug a) = Inl e \<Longrightarrow>
   ag_slug a \<in> set (unverified (result_of rows (map (fst \<circ> decide_row insp) rows)))"
  by (induction rows) (auto simp: result_of_def decide_row_def)

text \<open>
  The state after a pass, whatever failed during it: it succeeded, every row is settled,
  the sessions are as before or swept over the settled rows, and the rows that could not
  be inspected are the ones not verified; or it failed, some of the rows are settled, no
  session is touched and nothing is verified.
\<close>

definition swept :: "agent_row list \<Rightarrow> session_row list \<Rightarrow> session_row list \<Rightarrow> bool" where
  "swept as ss ts = (ts = ss \<or> (\<exists>d. ags d = as \<and> ts = map (close_session d) ss))"

definition pass_result :: "daemon \<Rightarrow> agent_row list \<Rightarrow> session_row list \<Rightarrow> reconcile_result option \<Rightarrow> rec_db \<Rightarrow> bool" where
  "pass_result insp A S res d =
     (case res of
        Some r \<Rightarrow> ags d = map (settle_row insp) A
          \<and> r = result_of A (map (fst \<circ> decide_row insp) A)
          \<and> swept (ags d) S (sessions d)
          \<and> (\<forall>slug. is_status_verified d slug \<longleftrightarrow> slug \<notin> set (unverified r))
      | None \<Rightarrow> (\<exists>I. ags d = settle_in I insp A) \<and> sessions d = S
          \<and> (\<forall>slug. \<not> is_status_verified d slug))"

lemma holds_close_sessions:
  "holds (\<lambda>d. ags d = B \<and> sessions d = S) close_sessions_for_stopped_agents
     (\<lambda>_ d. ags d = B \<and> swept B S (sessions d)) E"
  unfolding close_sessions_for_stopped_agents_def
  by (rule holds_catch[where R = "\<lambda>d. ags d = B \<and> sessions d = S"])
     (auto intro!: holds_write holds_ret simp: swept_def sweep_sessions_def)

lemma holds_run_pass:
  assumes "distinct (map ag_id A)"
  shows "holds (\<lambda>d. ags d = A \<and> sessions d = S) (run_reconcile_pass insp) (pass_result insp A S) (\<lambda>_. False)"
proof -
  let ?I = "\<lambda>d. (\<exists>T. ags d = settle_in T insp A) \<and> sessions d = S"
  let ?outs = "map (fst \<circ> decide_row insp) A" and ?B = "map (settle_row insp) A"
  have own: "\<forall>r \<in> set A. \<forall>x \<in> set A. ag_id x = ag_id r \<longrightarrow> x = r"
    using assms by (auto simp: distinct_map inj_on_def)
  have rows: "holds (\<lambda>d. ags d = A \<and> sessions d = S) (reconcile_agent_statuses insp A)
      (\<lambda>outs d. (ags d = ?B \<and> sessions d = S) \<and> outs = ?outs) ?I"
    by (rule holds_conseq[OF holds_and[OF holds_reconcile_rows[OF assms own] keeps_sessions_rows]])
       (auto simp: settle_in_all)
  let ?m = "eff_bind (reconcile_agent_statuses insp A) (\<lambda>outs.
        let res = result_of A outs in
        eff_seq close_sessions_for_stopped_agents
        (eff_seq (local_step (record_reconcile_pass (unverified res)))
        (eff_seq (local_step (escalate_unrenewed_tokens
                    (\<lambda>a. ag_id a \<in> set (patched_ids A outs) \<or> ag_slug a \<in> set (unverified res)) A))
        (ret (Some res)))))"
  have body: "holds (\<lambda>d. ags d = A \<and> sessions d = S) ?m (pass_result insp A S) ?I"
    unfolding Let_def
  proof (rule holds_bind[OF rows], rule holds_pre_pure)
    fix outs assume outs: "outs = ?outs"
    have verified: "holds (\<lambda>d. ags d = ?B \<and> swept ?B S (sessions d))
        (local_step (record_reconcile_pass (unverified (result_of A ?outs))))
        (\<lambda>_ d. ags d = ?B \<and> swept ?B S (sessions d)
           \<and> (\<forall>slug. is_status_verified d slug \<longleftrightarrow> slug \<notin> set (unverified (result_of A ?outs)))) ?I"
      by (rule holds_local) (simp add: verified_after_pass)
    have esc: "holds (\<lambda>d. ags d = ?B \<and> swept ?B S (sessions d)
           \<and> (\<forall>slug. is_status_verified d slug \<longleftrightarrow> slug \<notin> set (unverified (result_of A ?outs))))
        (local_step (escalate_unrenewed_tokens f A)) (\<lambda>_. pass_result insp A S (Some (result_of A ?outs))) ?I" for f
      by (rule holds_local) (simp add: pass_result_def)
    show "holds (\<lambda>d. ags d = ?B \<and> sessions d = S)
        (eff_seq close_sessions_for_stopped_agents
          (eff_seq (local_step (record_reconcile_pass (unverified (result_of A outs))))
          (eff_seq (local_step (escalate_unrenewed_tokens
                    (\<lambda>a. ag_id a \<in> set (patched_ids A outs) \<or> ag_slug a \<in> set (unverified (result_of A outs))) A))
          (ret (Some (result_of A outs)))))) (pass_result insp A S) ?I"
      unfolding outs
      by (rule holds_seq[OF holds_close_sessions], rule holds_seq[OF verified], rule holds_seq[OF esc], rule holds_ret)
  qed
  show ?thesis unfolding run_reconcile_pass_def
  proof (rule holds_catch[where R = ?I])
    show "holds (\<lambda>d. ags d = A \<and> sessions d = S)
      (eff_bind (db_read ags) (\<lambda>rows. eff_bind (reconcile_agent_statuses insp rows) (\<lambda>outs.
        let res = result_of rows outs in
        eff_seq close_sessions_for_stopped_agents
        (eff_seq (local_step (record_reconcile_pass (unverified res)))
        (eff_seq (local_step (escalate_unrenewed_tokens
                    (\<lambda>a. ag_id a \<in> set (patched_ids rows outs) \<or> ag_slug a \<in> set (unverified res)) rows))
        (ret (Some res))))))) (pass_result insp A S) ?I"
    proof (rule holds_bind[where R = "\<lambda>x d. (ags d = A \<and> sessions d = S) \<and> x = A"])
      show "holds (\<lambda>d. ags d = A \<and> sessions d = S) (db_read ags)
          (\<lambda>x d. (ags d = A \<and> sessions d = S) \<and> x = A) ?I"
        by (rule holds_read) (auto intro: exI[of _ "{}"])
    qed (rule holds_pre_pure, simp only: body)
    show "holds ?I (eff_seq (local_step record_reconcile_failure) (ret None)) (pass_result insp A S) (\<lambda>_. False)" for e :: exn
      by (rule holds_seq[OF holds_local[where Q = "\<lambda>_. pass_result insp A S None"]])
         (auto simp: pass_result_def is_status_verified_def record_reconcile_failure_def intro!: holds_ret)
  qed
qed

section \<open>Correctness of a pass\<close>

lemma decide_row_running:
  assumes "insp (ag_slug a) = Inr st"
  shows "(ag_status (settle_row insp a) = ''running'') =
     (seen_running st \<or> (ag_status a = ''running'' \<and> \<not> confirmed_down a st))"
    and "ag_container_state (settle_row insp a) = Some (seen_state st)"
  using assms
  by (auto simp: settle_row_def decide_row_def patch_row_def base_patch_def Let_def)

lemma settle_row_unseen:
  "insp (ag_slug a) = Inl e \<Longrightarrow> ag_status (settle_row insp a) = ag_status a"
  by (auto simp: settle_row_def decide_row_def patch_row_def base_patch_def)

lemma run_pass_result:
  assumes "run_reconcile_pass insp w = (Inr res, w')" "distinct (map ag_id (ags (db w)))"
  shows "pass_result insp (ags (db w)) (sessions (db w)) res (db w')"
  using holds_Inr[OF holds_run_pass[OF assms(2)] assms(1)] by simp


text \<open>
  No session is closed on a single sighting. When a pass closes the session of an
  agent, whatever fails during the pass, the agent either was recorded as not running
  before it, or its container was seen not running now and is confirmed down: it does not
  exist any more, or an earlier pass already recorded it in a state other than running.
\<close>

theorem session_close_confirmed:
  assumes "run_reconcile_pass insp w = (Inr res, w')"
    and "distinct (map ag_id (ags (db w)))"
    and "i < length (sessions (db w))"
    and "se_stopped (sessions (db w) ! i) = None"
    and "se_stopped (sessions (db w') ! i) \<noteq> None"
  shows "\<exists>a0 \<in> set (ags (db w)). ag_id a0 = se_agent (sessions (db w) ! i) \<and>
     (ag_status a0 \<noteq> ''running''
      \<or> (\<exists>st. insp (ag_slug a0) = Inr st \<and> \<not> seen_running st
           \<and> (seen_state st = container_absent
              \<or> ag_container_state a0 \<notin> {None, Some ''running''})))"
proof -
  let ?s = "sessions (db w) ! i"
  have res: "pass_result insp (ags (db w)) (sessions (db w)) res (db w')"
    by (rule run_pass_result[OF assms(1,2)])
  then obtain r where r: "res = Some r" using assms(4,5) by (cases res) (auto simp: pass_result_def)
  then obtain d where d: "ags d = map (settle_row insp) (ags (db w))" "sessions (db w') ! i = close_session d ?s"
    using res assms(3,4,5) by (auto simp: pass_result_def swept_def)
  then obtain a where a: "row_of d (se_agent ?s) = Some a" "ag_status a \<noteq> ''running''"
    using assms(4,5) by (auto simp: close_session_def split: option.splits if_splits)
  then have "a \<in> set (ags d)" "ag_id a = se_agent ?s"
    by (auto simp: row_of_def find_Some_iff)
  then obtain a0 where a0: "a0 \<in> set (ags (db w))" "a = settle_row insp a0" "ag_id a0 = se_agent ?s"
    using d(1) by auto
  show ?thesis
  proof (cases "insp (ag_slug a0)")
    case (Inl e)
    then show ?thesis using a0 a(2) settle_row_unseen[of insp a0 e] by auto
  next
    case (Inr st)
    have "\<not> (seen_running st \<or> (ag_status a0 = ''running'' \<and> \<not> confirmed_down a0 st))"
      using a0(2) a(2) decide_row_running(1)[where insp = insp, OF Inr] by simp
    then have "ag_status a0 \<noteq> ''running'' \<or> (\<not> seen_running st \<and> (seen_state st = container_absent
        \<or> ag_container_state a0 \<notin> {None, Some ''running''}))"
      unfolding confirmed_down_def by simp
    then show ?thesis using a0 Inr by metis
  qed
qed

text \<open>A session open although its agent is known and not running.\<close>

definition orphan_session :: "rec_db \<Rightarrow> session_row \<Rightarrow> bool" where
  "orphan_session d s =
     (se_stopped s = None
      \<and> (case row_of d (se_agent s) of None \<Rightarrow> False | Some a \<Rightarrow> ag_status a \<noteq> ''running''))"

definition no_orphans :: "rec_db \<Rightarrow> bool" where
  "no_orphans d = list_all (\<lambda>s. \<not> orphan_session d s) (sessions d)"

lemma no_orphans_sweep: "no_orphans (sweep_sessions d)"
  by (auto simp: no_orphans_def orphan_session_def sweep_sessions_def close_session_def row_of_def list_all_iff
      split: option.splits)

lemma no_orphans_frame [simp]:
  "no_orphans (record_reconcile_pass us d) = no_orphans d"
  "no_orphans (escalate_unrenewed_tokens f rows d) = no_orphans d"
  by (simp_all add: no_orphans_def orphan_session_def[abs_def] row_of_def)

lemma runs_apply_patch: "runs (\<lambda>_. True) (apply_patch p) (\<lambda>_ _. True)"
  unfolding apply_patch_def
  by (intro runs_seq runs_write runs_if runs_ret runs_catch runs_local) auto

lemma runs_rows: "runs (\<lambda>_. True) (reconcile_agent_statuses insp rows) (\<lambda>_ _. True)"
  unfolding reconcile_agent_statuses_def reconcile_row_def
  by (rule runs_map)
     (auto split: prod.split option.split intro!: runs_seq runs_ret runs_apply_patch)

lemma runs_run_pass:
  "runs (\<lambda>_. True) (run_reconcile_pass insp) (\<lambda>res d. (\<exists>r. res = Some r) \<and> no_orphans d)"
  unfolding run_reconcile_pass_def Let_def close_sessions_for_stopped_agents_def
  by (rule runs_catch, rule runs_bind[OF runs_read[where Q = "\<lambda>_ _. True"]], simp,
      rule runs_bind[OF runs_rows],
      rule runs_seq[OF runs_catch[OF runs_write[where Q = "\<lambda>_. no_orphans"]]], rule no_orphans_sweep,
      rule runs_seq[OF runs_local[where Q = "\<lambda>_. no_orphans"]], simp,
      rule runs_seq[OF runs_local[where Q = "\<lambda>_. no_orphans"]], simp,
      rule runs_ret, simp)

text \<open>
  When the database answers, a pass succeeds and heals: whatever state the rows and
  sessions were in before, however the daemon answers, afterwards no session is open whose
  agent's row says it is not running.
\<close>

theorem pass_heals_sessions:
  assumes "faults w = []"
  shows "\<exists>r w'. run_reconcile_pass insp w = (Inr (Some r), w') \<and> no_orphans (db w')"
  using runsD[OF runs_run_pass[of insp] assms] by blast

section \<open>A pass on a concrete table\<close>

definition demo_agent :: agent_row where
  "demo_agent = \<lparr>ag_id = ''u1'', ag_slug = ''a1'', ag_status = ''running'', ag_container_id = Some ''c1'',
     ag_container_state = Some ''exited'', ag_created_by = ''o1'', ag_error = None, ag_finished = None,
     ag_router_exp = None\<rparr>"

definition demo_daemon :: daemon where
  "demo_daemon slug = Inr (Some \<lparr>cv_status = ''exited'', cv_id = ''c1'', cv_health = None,
     cv_finished = Some 40, cv_started = Some 10\<rparr>)"

definition demo_world :: "rec_db world" where
  "demo_world = \<lparr>faults = [], db = \<lparr>ags = [demo_agent],
     sessions = [\<lparr>se_agent = ''u1'', se_stopped = None, se_estimated = False\<rparr>], history = [], notices = [],
     now = 100, default_verified = True, explicit = Map.empty, escalated = Map.empty\<rparr>\<rparr>"

definition demo_after :: "rec_db world" where
  "demo_after = \<lparr>faults = [], db = \<lparr>ags = [demo_agent\<lparr>ag_status := ''stopped'', ag_container_id := None,
       ag_error := Some ''Container exited'', ag_finished := Some 40\<rparr>],
     sessions = [\<lparr>se_agent = ''u1'', se_stopped = Some 40, se_estimated = False\<rparr>],
     history = [(''u1'', ''running'', ''stopped'')], notices = [],
     now = 100, default_verified = True, explicit = Map.empty, escalated = Map.empty\<rparr>\<rparr>"

lemma demo_pass:
  "run_reconcile_pass demo_daemon demo_world =
     (Inr (Some \<lparr>checked = 1, promoted = 0, demoted = 1, reconciled = 1, unverified = []\<rparr>), demo_after)"
  by (simp add: run_reconcile_pass_def reconcile_agent_statuses_def reconcile_row_def decide_row_def
      base_patch_def seen_state_def seen_running_def confirmed_down_def container_absent_def apply_patch_def
      update_agent_def patch_row_def or_keep_def close_sessions_for_stopped_agents_def sweep_sessions_def
      close_session_def row_of_def record_reconcile_pass_def escalate_unrenewed_tokens_def escalate_row_def
      result_of_def patched_ids_def count_of_def was_patched_def demo_daemon_def demo_world_def demo_agent_def
      demo_after_def eff_seq_def eff_bind_def eff_catch_def ret_def local_step_def read_eval write_eval Let_def)


theorem session_close_confirmed_witness:
  "\<exists>st. demo_daemon ''a1'' = Inr st \<and> \<not> seen_running st
     \<and> (seen_state st = container_absent \<or> ag_container_state demo_agent \<notin> {None, Some ''running''})"
  using session_close_confirmed[OF demo_pass, of 0]
  by (simp add: demo_world_def demo_after_def demo_agent_def)

theorem pass_heals_sessions_witness: "\<exists>r w'. run_reconcile_pass demo_daemon demo_world = (Inr (Some r), w') \<and> no_orphans (db w')"
  by (rule pass_heals_sessions) (simp add: demo_world_def)

end
