(* ===== verification/Workflows.thy ===== *)
theory Workflows
  imports ChatDispatch
begin

text \<open>
  Workflows: the cron scheduler (\<open>services/workflow-scheduler.ts\<close>, \<open>helpers/cron.ts\<close>), the
  routes that create, change, delete and run a workflow (\<open>routes/workflows.ts\<close>) and the
  public webhook (\<open>routes/workflows-webhook.ts\<close>). The tables are those of the migrations
  with the constraints the statements can violate; the cron library is a parameter, and so
  are the agentboxes. An advisory lock belongs to a connection of the pool, and each query
  of a tick may get another connection, so the two connections are arguments of the tick.
\<close>

section \<open>Tables\<close>

record wf =
  wf_id :: string
  wf_name :: string
  wf_agent :: string
  wf_cron :: "string option"
  wf_prompt :: string
  wf_by :: string
  wf_enabled :: bool
  wf_last :: "int option"
  wf_next :: "int option"
  wf_trigger :: string
  wf_hash :: "string option"

record wf_run =
  run_id :: string
  run_wf :: string
  run_status :: string
  run_thread :: "string option"
  run_error :: "string option"
  run_done :: "int option"

text \<open>A row offered to \<open>chat_messages\<close>: columns that a statement leaves out are NULL or default.\<close>

record chat_row =
  cr_thread :: string
  cr_author :: string
  cr_author_type :: string
  cr_role :: "string option"
  cr_content :: string
  cr_status :: string

record wf_db =
  wfs :: "wf list"
  wf_runs :: "wf_run list"
  w_agents :: "agent list"
  w_threads :: "(string \<times> string \<times> string) list"
  w_parts :: "(string \<times> string \<times> string) list"
  w_msgs :: "chat_row list"
  w_posted :: "dispatch_req list"
  w_count :: nat
  w_lock :: "nat list"
  w_busy :: bool

text \<open>
  \<open>we_parse\<close> is \<open>CronExpressionParser.parse\<close>, an error message when it throws; \<open>we_next\<close> the
  next occurrence after a time, or the error \<open>next()\<close> throws. \<open>we_text\<close> and \<open>we_bool\<close> are how
  a bound value reaches a text or a boolean column.
\<close>

record wf_env =
  we_parse :: "string \<Rightarrow> string option"
  we_next :: "string \<Rightarrow> int \<Rightarrow> string + int"
  we_now :: int
  we_gen :: "nat \<Rightarrow> string"
  we_sha :: "string \<Rightarrow> string"
  we_random :: "nat \<Rightarrow> string"
  we_post :: "dispatch_req \<Rightarrow> http_result"
  we_json :: "(string \<times> js) list \<Rightarrow> string"
  we_text :: "js \<Rightarrow> string"
  we_bool :: "js \<Rightarrow> bool option"

definition err_text :: "exn \<Rightarrow> string" where
  "err_text e =
     (case e of DbFault \<Rightarrow> ''query failed'' | UniqueViolation c \<Rightarrow> ''duplicate key: '' @ c | Thrown s \<Rightarrow> s)"

definition or_text :: "string \<Rightarrow> string \<Rightarrow> string" where
  "or_text s t = (if s = [] then t else s)"

section \<open>Cron (helpers/cron.ts)\<close>

definition is_valid_cron_expression :: "wf_env \<Rightarrow> string \<Rightarrow> bool" where
  "is_valid_cron_expression env s = (s \<noteq> [] \<and> we_parse env s = None)"

definition compute_next_run :: "wf_env \<Rightarrow> string option \<Rightarrow> string + int option" where
  "compute_next_run env c =
     (case c of
        None \<Rightarrow> Inr None
      | Some s \<Rightarrow>
          if s = [] then Inr None
          else (case we_parse env s of
                  Some e \<Rightarrow> Inl e
                | None \<Rightarrow> map_sum id Some (we_next env s (we_now env))))"

section \<open>Statements\<close>

definition fresh :: "wf_env \<Rightarrow> wf_db \<Rightarrow> string \<times> wf_db" where
  "fresh env d = (we_gen env (w_count d), d\<lparr>w_count := Suc (w_count d)\<rparr>)"

definition new_run :: "wf_env \<Rightarrow> string \<Rightarrow> string \<Rightarrow> string option \<Rightarrow> (wf_db, string) eff" where
  "new_run env wid st err = db_query (\<lambda>d.
     if wid \<notin> wf_id ` set (wfs d) then Inl (Thrown ''workflow_runs_workflow_id_fkey'')
     else (case fresh env d of (i, d') \<Rightarrow>
       Inr (i, d'\<lparr>wf_runs := wf_runs d @ [\<lparr>run_id = i, run_wf = wid, run_status = st, run_thread = None,
         run_error = err, run_done = (if err = None then None else Some (we_now env))\<rparr>]\<rparr>)))"

text \<open>\<open>title VARCHAR(255)\<close>\<close>

definition new_thread :: "wf_env \<Rightarrow> string \<Rightarrow> string \<Rightarrow> (wf_db, string) eff" where
  "new_thread env title by = db_query (\<lambda>d.
     if length title > 255 then Inl (Thrown ''value too long for type character varying(255)'')
     else (case fresh env d of (i, d') \<Rightarrow> Inr (i, d'\<lparr>w_threads := w_threads d @ [(i, title, by)]\<rparr>)))"

definition new_participant :: "string \<Rightarrow> string \<Rightarrow> string \<Rightarrow> (wf_db, unit) eff" where
  "new_participant t p ty = db_query (\<lambda>d.
     if (t, p, ty) \<in> set (w_parts d) then Inl (UniqueViolation ''chat_participants_pkey'')
     else Inr ((), d\<lparr>w_parts := w_parts d @ [(t, p, ty)]\<rparr>))"

text \<open>
  The constraints of \<open>chat_messages\<close> (migrations 028, 043 and 044): \<open>role\<close> is NOT NULL
  without a default and one of two values, \<open>status\<close> one of five.
\<close>

definition chat_row_error :: "chat_row \<Rightarrow> string option" where
  "chat_row_error r =
     (if cr_role r = None then Some ''null value in column role violates not-null constraint''
      else if cr_author_type r \<notin> {''human'', ''agent''} then Some ''chat_messages_author_type_check''
      else if cr_role r \<notin> {Some ''user'', Some ''assistant''} then Some ''chat_messages_role_check''
      else if cr_status r \<notin> {''pending'', ''thinking'', ''complete'', ''error'', ''stale''}
      then Some ''chat_messages_status_check''
      else None)"

definition insert_chat_row :: "wf_env \<Rightarrow> chat_row \<Rightarrow> (wf_db, string) eff" where
  "insert_chat_row env r = db_query (\<lambda>d.
     case chat_row_error r of
       Some e \<Rightarrow> Inl (Thrown e)
     | None \<Rightarrow> (case fresh env d of (i, d') \<Rightarrow> Inr (i, d'\<lparr>w_msgs := w_msgs d @ [r]\<rparr>)))"

text \<open>
  \<open>INSERT INTO chat_messages (thread_id, author_id, author_type, content, status)
  VALUES ($1, $2, 'human', $3, 'delivered')\<close>, the statement the three ways of running a
  workflow share.
\<close>

definition workflow_message :: "string \<Rightarrow> string \<Rightarrow> string \<Rightarrow> chat_row" where
  "workflow_message t by prompt =
     \<lparr>cr_thread = t, cr_author = by, cr_author_type = ''human'', cr_role = None,
      cr_content = prompt, cr_status = ''delivered''\<rparr>"

definition set_run_thread :: "string \<Rightarrow> string \<Rightarrow> (wf_db, unit) eff" where
  "set_run_thread r t = db_write (\<lambda>d. d\<lparr>wf_runs := map (\<lambda>x.
     if run_id x = r then x\<lparr>run_thread := Some t\<rparr> else x) (wf_runs d)\<rparr>)"

text \<open>The error label; \<open>only_running\<close> is the \<open>AND status = 'running'\<close> of the routes.\<close>

definition label_error :: "wf_env \<Rightarrow> bool \<Rightarrow> string \<Rightarrow> string \<Rightarrow> (wf_db, unit) eff" where
  "label_error env only_running r msg = db_write (\<lambda>d. d\<lparr>wf_runs := map (\<lambda>x.
     if run_id x = r \<and> (only_running \<longrightarrow> run_status x = ''running'')
     then x\<lparr>run_status := ''error'', run_error := Some msg, run_done := Some (we_now env)\<rparr> else x) (wf_runs d)\<rparr>)"

definition on_wf :: "string \<Rightarrow> (wf \<Rightarrow> wf) \<Rightarrow> wf_db \<Rightarrow> wf_db" where
  "on_wf i f d = d\<lparr>wfs := map (\<lambda>x. if wf_id x = i then f x else x) (wfs d)\<rparr>"

definition agent_of :: "wf_db \<Rightarrow> string \<Rightarrow> agent option" where
  "agent_of d i = find (\<lambda>a. a_id a = i) (w_agents d)"

definition wf_model :: "agent \<Rightarrow> string" where
  "wf_model a = (case a_models a of Arr (Str s # _) \<Rightarrow> or_text s ''default'' | _ \<Rightarrow> ''default'')"

definition wf_request :: "agent \<Rightarrow> string \<Rightarrow> string \<Rightarrow> string \<Rightarrow> dispatch_req" where
  "wf_request a tid mid prompt =
     dispatch_chat_work a tid mid [(UserRole, prompt)] (wf_model a) None [] False []"

definition post :: "wf_env \<Rightarrow> dispatch_req \<Rightarrow> (wf_db, string option) eff" where
  "post env r = eff_seq (local_step (\<lambda>d. d\<lparr>w_posted := w_posted d @ [r]\<rparr>)) (ret (dispatch_outcome (we_post env r)))"

section \<open>The scheduler (workflow-scheduler.ts)\<close>

definition log_run_error :: "wf_env \<Rightarrow> string \<Rightarrow> string \<Rightarrow> (wf_db, unit) eff" where
  "log_run_error env wid msg =
     eff_catch (eff_bind (new_run env wid ''error'' (Some msg)) (\<lambda>_. ret ())) (\<lambda>_. ret ())"

definition record_cron_failure :: "wf_env \<Rightarrow> string \<Rightarrow> string option \<Rightarrow> string \<Rightarrow> (wf_db, unit) eff" where
  "record_cron_failure env wid c e =
     log_run_error env wid (''Cannot schedule next run: cron expression \"''
       @ (case c of None \<Rightarrow> ''null'' | Some s \<Rightarrow> s) @ ''\" is invalid - '' @ e)"

definition record_unexpected_failure :: "wf_env \<Rightarrow> string \<Rightarrow> exn \<Rightarrow> (wf_db, unit) eff" where
  "record_unexpected_failure env wid e =
     log_run_error env wid (''Scheduler tick failed for this workflow: '' @ err_text e)"

text \<open>\<open>next = computeNextRun(...)\<close>, an invalid cron recorded and read as no next run.\<close>

definition next_or_record :: "wf_env \<Rightarrow> wf \<Rightarrow> (wf_db, int option) eff" where
  "next_or_record env x =
     (case compute_next_run env (wf_cron x) of
        Inr n \<Rightarrow> ret n
      | Inl e \<Rightarrow> eff_seq (record_cron_failure env (wf_id x) (wf_cron x) e) (ret None))"

definition initialize_row :: "wf_env \<Rightarrow> wf \<Rightarrow> (wf_db, unit) eff" where
  "initialize_row env x =
     (case compute_next_run env (wf_cron x) of
        Inl e \<Rightarrow> record_cron_failure env (wf_id x) (wf_cron x) e
      | Inr None \<Rightarrow> ret ()
      | Inr (Some n) \<Rightarrow> db_write (on_wf (wf_id x) (\<lambda>y. y\<lparr>wf_next := Some n\<rparr>)))"

definition initialize_next_runs :: "wf_env \<Rightarrow> (wf_db, unit) eff" where
  "initialize_next_runs env =
     eff_catch
       (eff_bind (db_read (\<lambda>d. filter (\<lambda>x. wf_enabled x \<and> wf_next x = None) (wfs d)))
          (\<lambda>rows. eff_for rows (initialize_row env)))
       (\<lambda>_. ret ())"

text \<open>Thread, participants, message, dispatch: the body of the try of \<open>executeWorkflow\<close>.\<close>

definition run_workflow :: "wf_env \<Rightarrow> wf \<Rightarrow> agent \<Rightarrow> string \<Rightarrow> (wf_db, unit) eff" where
  "run_workflow env x a rid =
     eff_bind (new_thread env (''Workflow: '' @ wf_name x) ''system'') (\<lambda>t.
     eff_seq (new_participant t (wf_agent x) ''agent'')
     (eff_seq (new_participant t (wf_by x) ''human'')
     (eff_bind (insert_chat_row env (workflow_message t (wf_by x) (wf_prompt x))) (\<lambda>m.
      eff_bind (post env (wf_request a t m (wf_prompt x))) (\<lambda>refused.
      eff_seq (set_run_thread rid t)
      (case refused of
         None \<Rightarrow> ret ()
       | Some e \<Rightarrow> throw (Thrown (or_text e ''Agent rejected work''))))))))"

definition execute_workflow :: "wf_env \<Rightarrow> wf \<Rightarrow> agent \<Rightarrow> (wf_db, unit) eff" where
  "execute_workflow env x a =
     (if a_status a \<noteq> ''running'' then
        eff_bind (next_or_record env x) (\<lambda>n.
        db_write (on_wf (wf_id x) (\<lambda>y. y\<lparr>wf_next := n\<rparr>)))
      else
        eff_bind (new_run env (wf_id x) ''running'' None) (\<lambda>rid.
        eff_seq (eff_catch (run_workflow env x a rid)
                   (\<lambda>e. eff_catch (label_error env False rid (or_text (err_text e) ''Unknown error'')) (\<lambda>_. ret ())))
        (eff_bind (next_or_record env x) (\<lambda>n.
         db_write (on_wf (wf_id x) (\<lambda>y. y\<lparr>wf_last := Some (we_now env), wf_next := n\<rparr>))))))"

definition due :: "wf_env \<Rightarrow> wf_db \<Rightarrow> wf \<Rightarrow> bool" where
  "due env d x =
     (wf_enabled x \<and> agent_of d (wf_agent x) \<noteq> None
      \<and> (case wf_next x of None \<Rightarrow> False | Some t \<Rightarrow> t \<le> we_now env))"

definition due_workflows :: "wf_env \<Rightarrow> wf_db \<Rightarrow> (wf \<times> agent) list" where
  "due_workflows env d =
     map (\<lambda>x. (x, the (agent_of d (wf_agent x)))) (filter (due env d) (wfs d))"

text \<open>\<open>pg_try_advisory_lock\<close> on connection \<open>c\<close>: granted unless another connection holds it.\<close>

definition try_lock :: "nat \<Rightarrow> (wf_db, bool) eff" where
  "try_lock c = db_query (\<lambda>d.
     if set (w_lock d) \<subseteq> {c} then Inr (True, d\<lparr>w_lock := c # w_lock d\<rparr>) else Inr (False, d))"

definition unlock :: "nat \<Rightarrow> (wf_db, unit) eff" where
  "unlock c = db_write (\<lambda>d. d\<lparr>w_lock := remove1 c (w_lock d)\<rparr>)"

definition tick_one :: "wf_env \<Rightarrow> wf \<times> agent \<Rightarrow> (wf_db, unit) eff" where
  "tick_one env xa =
     eff_catch (execute_workflow env (fst xa) (snd xa)) (record_unexpected_failure env (wf_id (fst xa)))"

definition tick :: "wf_env \<Rightarrow> nat \<Rightarrow> nat \<Rightarrow> (wf_db, unit) eff" where
  "tick env c1 c2 =
     eff_seq (local_step (\<lambda>d. d\<lparr>w_busy := True\<rparr>))
     (eff_finally
       (eff_catch
         (eff_bind (try_lock c1) (\<lambda>ok.
            if \<not> ok then ret ()
            else eff_finally
              (eff_bind (db_read (due_workflows env)) (\<lambda>ds. eff_for ds (tick_one env)))
              (unlock c2)))
         (\<lambda>_. ret ()))
       (local_step (\<lambda>d. d\<lparr>w_busy := False\<rparr>)))"

section \<open>Running a workflow on request (workflows.ts, workflows-webhook.ts)\<close>

datatype wf_resp =
    WfRunning string string
  | WfNotFound
  | WfConflict
  | WfBad string
  | WfCreated string "string option"
  | WfUpdated
  | WfDeleted
  | WfFailed

text \<open>A path parameter, None when it is not the text of a UUID and the cast throws.\<close>

definition with_id :: "string option \<Rightarrow> (string \<Rightarrow> wf_db \<Rightarrow> 'a) \<Rightarrow> (wf_db, 'a) eff" where
  "with_id i f = db_query (\<lambda>d. case i of None \<Rightarrow> Inl DbFault | Some u \<Rightarrow> Inr (f u d, d))"

definition visible_wf :: "string \<Rightarrow> bool \<Rightarrow> string \<Rightarrow> wf \<Rightarrow> bool" where
  "visible_wf sub admin u x = (wf_id x = u \<and> (admin \<or> wf_by x = sub))"

definition joined :: "(wf \<Rightarrow> bool) \<Rightarrow> wf_db \<Rightarrow> (wf \<times> agent) option" where
  "joined P d = (case find (\<lambda>x. P x \<and> agent_of d (wf_agent x) \<noteq> None) (wfs d) of
     None \<Rightarrow> None | Some x \<Rightarrow> Some (x, the (agent_of d (wf_agent x))))"

text \<open>
  What follows the \<open>workflow_runs\<close> insert: thread, run label, participants, message,
  dispatch (fire and forget: its outcome is not read), last run. The title, the thread's
  creator, the human participant, the prompt and how the agent's models are read (a query
  of its own in \<open>/:id/run\<close>, a join of the first query in the webhook) are what the two
  routes differ in.
\<close>

definition run_body ::
  "wf_env \<Rightarrow> wf \<Rightarrow> agent \<Rightarrow> string \<Rightarrow> string \<Rightarrow> string \<Rightarrow> string \<Rightarrow> (wf_db, unit) eff \<Rightarrow> string \<Rightarrow> (wf_db, wf_resp) eff" where
  "run_body env x a title by human prompt models rid =
     eff_bind (new_thread env title by) (\<lambda>t.
     eff_seq (set_run_thread rid t)
     (eff_seq (new_participant t (wf_agent x) ''agent'')
     (eff_seq (new_participant t human ''human'')
     (eff_bind (insert_chat_row env (workflow_message t human prompt)) (\<lambda>m.
      eff_seq models
      (eff_bind (post env (wf_request a t m prompt)) (\<lambda>_.
      eff_seq (db_write (on_wf (wf_id x) (\<lambda>y. y\<lparr>wf_last := Some (we_now env)\<rparr>)))
      (ret (WfRunning rid t)))))))))"

text \<open>The outer catch labels the run it created, when there is one, and answers 500.\<close>

definition labelled_run :: "wf_env \<Rightarrow> string \<Rightarrow> wf \<Rightarrow> (string \<Rightarrow> (wf_db, wf_resp) eff) \<Rightarrow> (wf_db, wf_resp) eff" where
  "labelled_run env fallback x body =
     eff_bind (new_run env (wf_id x) ''running'' None) (\<lambda>rid.
       eff_catch (body rid)
         (\<lambda>e. eff_seq (eff_catch (label_error env True rid (or_text (err_text e) fallback)) (\<lambda>_. ret ()))
                (ret WfFailed)))"

definition run_route :: "wf_env \<Rightarrow> string \<Rightarrow> bool \<Rightarrow> string option \<Rightarrow> (wf_db, wf_resp) eff" where
  "run_route env sub admin i =
     eff_catch
       (eff_bind (with_id i (\<lambda>u. joined (visible_wf sub admin u))) (\<lambda>o'.
          case o' of
            None \<Rightarrow> ret WfNotFound
          | Some (x, a) \<Rightarrow>
              if a_status a \<noteq> ''running'' then ret WfConflict
              else labelled_run env ''Run setup failed'' x
                     (run_body env x a (''Workflow: '' @ wf_name x) sub sub (wf_prompt x) no_op_query)))
       (\<lambda>_. ret WfFailed)"

definition webhook_prompt :: "wf_env \<Rightarrow> wf \<Rightarrow> (string \<times> js) list \<Rightarrow> string" where
  "webhook_prompt env x payload =
     (if payload = [] then wf_prompt x
      else wf_prompt x @ ''\<newline>\<newline>Webhook payload:\<newline>```json\<newline>'' @ we_json env payload @ ''\<newline>```'')"

definition webhook_route :: "wf_env \<Rightarrow> string \<Rightarrow> (string \<times> js) list \<Rightarrow> (wf_db, wf_resp) eff" where
  "webhook_route env token payload =
     eff_catch
       (eff_bind (db_read (joined (\<lambda>x. wf_hash x = Some (we_sha env token) \<and> wf_enabled x))) (\<lambda>o'.
          case o' of
            None \<Rightarrow> ret WfNotFound
          | Some (x, a) \<Rightarrow>
              if a_status a \<noteq> ''running'' then ret WfConflict
              else labelled_run env ''Webhook trigger failed'' x
                     (run_body env x a (''Webhook: '' @ wf_name x) ''webhook'' (wf_by x) (webhook_prompt env x payload) (ret ()))))
       (\<lambda>_. ret WfFailed)"

section \<open>Creating, changing and deleting a workflow (workflows.ts)\<close>

definition required_non_empty_error :: "js \<Rightarrow> string \<Rightarrow> string option" where
  "required_non_empty_error v label = (if \<not> truthy v then Some (label @ '' is required'') else None)"

definition was_provided :: "js \<Rightarrow> bool" where
  "was_provided v = (\<not> nullish v)"

definition invalid_output_type_error :: "js \<Rightarrow> string option" where
  "invalid_output_type_error v =
     (if was_provided v \<and> v \<noteq> Str ''none'' then Some ''output_type must be one of: none'' else None)"

text \<open>The parser throws on anything but a string.\<close>

definition valid_cron_js :: "wf_env \<Rightarrow> js \<Rightarrow> bool" where
  "valid_cron_js env v = (case v of Str s \<Rightarrow> is_valid_cron_expression env s | _ \<Rightarrow> False)"

text \<open>An agent id bound to a UUID column: the row it names, if any, or the cast throws.\<close>

definition agent_exists :: "wf_env \<Rightarrow> (string \<Rightarrow> string option) \<Rightarrow> js \<Rightarrow> (wf_db, string option) eff" where
  "agent_exists env uuid v = db_query (\<lambda>d.
     case uuid (we_text env v) of
       None \<Rightarrow> Inl DbFault
     | Some u \<Rightarrow> Inr (map_option a_id (agent_of d u), d))"

definition insert_wf :: "wf_env \<Rightarrow> wf \<Rightarrow> (wf_db, string) eff" where
  "insert_wf env x = db_query (\<lambda>d.
     if length (wf_name x) > 255 \<or> length (wf_trigger x) > 32
        \<or> (case wf_cron x of None \<Rightarrow> False | Some s \<Rightarrow> length s > 128)
     then Inl (Thrown ''value too long'')
     else if wf_hash x \<noteq> None \<and> wf_hash x \<in> wf_hash ` set (wfs d)
     then Inl (UniqueViolation ''idx_workflows_webhook_token_hash'')
     else (case fresh env d of (i, d') \<Rightarrow> Inr (i, d'\<lparr>wfs := wfs d @ [x\<lparr>wf_id := i\<rparr>]\<rparr>)))"

definition is_webhook :: "js \<Rightarrow> bool" where
  "is_webhook body = (js_get body ''trigger_type'' = Str ''webhook'')"

definition new_wf :: "wf_env \<Rightarrow> string \<Rightarrow> js \<Rightarrow> string \<Rightarrow> string \<Rightarrow> string option \<Rightarrow> int option \<Rightarrow> wf" where
  "new_wf env sub body aid trigger token next =
     \<lparr>wf_id = [], wf_name = we_text env (js_get body ''name''), wf_agent = aid,
      wf_cron = (if is_webhook body then None else Some (the_str (js_get body ''schedule_cron''))),
      wf_prompt = we_text env (js_get body ''prompt''), wf_by = sub,
      wf_enabled = (js_get body ''enabled'' \<noteq> Bool False), wf_last = None, wf_next = next,
      wf_trigger = trigger, wf_hash = map_option (we_sha env) token\<rparr>"

definition create_wf_body :: "wf_env \<Rightarrow> (string \<Rightarrow> string option) \<Rightarrow> string \<Rightarrow> js \<Rightarrow> (wf_db, wf_resp) eff" where
  "create_wf_body env uuid sub body =
     (if \<not> truthy (js_get body ''agent_id'') \<or> \<not> truthy (js_get body ''schedule_cron'')
      then ret (WfBad ''name, agent_id, schedule_cron, and prompt are required'')
      else case required_non_empty_error (js_get body ''name'') ''name'' of Some e \<Rightarrow> ret (WfBad e)
      | None \<Rightarrow>
      case required_non_empty_error (js_get body ''prompt'') ''prompt'' of Some e \<Rightarrow> ret (WfBad e)
      | None \<Rightarrow>
      case invalid_output_type_error (js_get body ''output_type'') of Some e \<Rightarrow> ret (WfBad e)
      | None \<Rightarrow>
      if \<not> valid_cron_js env (js_get body ''schedule_cron'') then ret (WfBad ''Invalid cron expression'')
      else eff_bind (agent_exists env uuid (js_get body ''agent_id'')) (\<lambda>oa.
        case oa of
          None \<Rightarrow> ret WfNotFound
        | Some aid \<Rightarrow>
            (let trigger = (if truthy (js_get body ''trigger_type'') then we_text env (js_get body ''trigger_type'') else ''cron'') in
             eff_bind (peek w_count) (\<lambda>k.
             let token = (if is_webhook body then Some (we_random env k) else None) in
             case (if is_webhook body then Inr None
                   else compute_next_run env (Some (the_str (js_get body ''schedule_cron'')))) of
               Inl e \<Rightarrow> throw (Thrown e)
             | Inr next \<Rightarrow>
                 eff_bind (insert_wf env (new_wf env sub body aid trigger token next)) (\<lambda>i.
                 ret (WfCreated i token))))))"

definition create_wf :: "wf_env \<Rightarrow> (string \<Rightarrow> string option) \<Rightarrow> string \<Rightarrow> js \<Rightarrow> (wf_db, wf_resp) eff" where
  "create_wf env uuid sub body = eff_catch (create_wf_body env uuid sub body) (\<lambda>_. ret WfFailed)"

text \<open>\<open>COALESCE($n, column)\<close>\<close>

definition coalesce :: "wf_env \<Rightarrow> js \<Rightarrow> string \<Rightarrow> string" where
  "coalesce env v old = (if was_provided v then we_text env v else old)"

definition updated_wf :: "wf_env \<Rightarrow> js \<Rightarrow> string option \<Rightarrow> bool \<Rightarrow> int option \<Rightarrow> wf \<Rightarrow> wf" where
  "updated_wf env body aid enabled next x =
     x\<lparr>wf_name := coalesce env (js_get body ''name'') (wf_name x),
       wf_agent := (case aid of None \<Rightarrow> wf_agent x | Some u \<Rightarrow> u),
       wf_cron := (if was_provided (js_get body ''schedule_cron'')
                   then Some (the_str (js_get body ''schedule_cron'')) else wf_cron x),
       wf_prompt := coalesce env (js_get body ''prompt'') (wf_prompt x),
       wf_enabled := enabled,
       wf_next := (case next of None \<Rightarrow> wf_next x | Some t \<Rightarrow> Some t)\<rparr>"

definition update_statement ::
  "wf_env \<Rightarrow> string \<Rightarrow> bool \<Rightarrow> string \<Rightarrow> js \<Rightarrow> string option \<Rightarrow> int option \<Rightarrow> (wf_db, wf_resp) eff" where
  "update_statement env sub admin u body aid next = db_query (\<lambda>d.
     let e = js_get body ''enabled'' in
     if length (coalesce env (js_get body ''name'') []) > 255
        \<or> (is_str (js_get body ''schedule_cron'') \<and> length (the_str (js_get body ''schedule_cron'')) > 128)
     then Inl (Thrown ''value too long'')
     else if was_provided e \<and> we_bool env e = None then Inl DbFault
     else if \<exists>x \<in> set (wfs d). visible_wf sub admin u x
     then Inr (WfUpdated, d\<lparr>wfs := map (\<lambda>x. if visible_wf sub admin u x
            then updated_wf env body aid (if was_provided e then the (we_bool env e) else wf_enabled x) next x
            else x) (wfs d)\<rparr>)
     else Inr (WfNotFound, d))"

text \<open>The new \<open>next_run_at\<close>, None when the column is not touched.\<close>

definition rescheduled :: "wf_env \<Rightarrow> js \<Rightarrow> wf \<Rightarrow> string + int option" where
  "rescheduled env body x =
     (let c = js_get body ''schedule_cron'';
          schedule = (if was_provided c then Some (the_str c) else wf_cron x);
          changed = (case c of Str s \<Rightarrow> Some s \<noteq> wf_cron x | _ \<Rightarrow> False);
          e = js_get body ''enabled'';
          re_enabled = (\<not> wf_enabled x \<and> e = Bool True)
      in if wf_trigger x \<noteq> ''webhook'' \<and> (changed \<or> re_enabled) then compute_next_run env schedule else Inr None)"

definition update_wf_checked ::
  "wf_env \<Rightarrow> string \<Rightarrow> bool \<Rightarrow> string option \<Rightarrow> js \<Rightarrow> string option \<Rightarrow> (wf_db, wf_resp) eff" where
  "update_wf_checked env sub admin i body aid =
     eff_bind (with_id i (\<lambda>u d. (u, find (visible_wf sub admin u) (wfs d)))) (\<lambda>(u, o').
       case o' of
         None \<Rightarrow> ret WfNotFound
       | Some x \<Rightarrow>
           (case rescheduled env body x of
              Inl e \<Rightarrow> throw (Thrown e)
            | Inr next \<Rightarrow> update_statement env sub admin u body aid next))"

definition update_wf_body ::
  "wf_env \<Rightarrow> (string \<Rightarrow> string option) \<Rightarrow> string \<Rightarrow> bool \<Rightarrow> string option \<Rightarrow> js \<Rightarrow> (wf_db, wf_resp) eff" where
  "update_wf_body env uuid sub admin i body =
     (case (if was_provided (js_get body ''name'') then required_non_empty_error (js_get body ''name'') ''name'' else None) of
        Some e \<Rightarrow> ret (WfBad e)
      | None \<Rightarrow>
      case (if was_provided (js_get body ''prompt'') then required_non_empty_error (js_get body ''prompt'') ''prompt'' else None) of
        Some e \<Rightarrow> ret (WfBad e)
      | None \<Rightarrow>
      case invalid_output_type_error (js_get body ''output_type'') of Some e \<Rightarrow> ret (WfBad e)
      | None \<Rightarrow>
      if was_provided (js_get body ''schedule_cron'') \<and> \<not> valid_cron_js env (js_get body ''schedule_cron'')
      then ret (WfBad ''Invalid cron expression'')
      else if was_provided (js_get body ''agent_id'')
      then eff_bind (agent_exists env uuid (js_get body ''agent_id'')) (\<lambda>oa.
             case oa of None \<Rightarrow> ret WfNotFound
             | Some aid \<Rightarrow> update_wf_checked env sub admin i body (Some aid))
      else update_wf_checked env sub admin i body None)"

definition update_wf ::
  "wf_env \<Rightarrow> (string \<Rightarrow> string option) \<Rightarrow> string \<Rightarrow> bool \<Rightarrow> string option \<Rightarrow> js \<Rightarrow> (wf_db, wf_resp) eff" where
  "update_wf env uuid sub admin i body =
     eff_catch (update_wf_body env uuid sub admin i body) (\<lambda>_. ret WfFailed)"

text \<open>The runs go with the workflow (ON DELETE CASCADE).\<close>

definition delete_wf :: "string \<Rightarrow> bool \<Rightarrow> string option \<Rightarrow> (wf_db, wf_resp) eff" where
  "delete_wf sub admin i =
     eff_catch
       (db_query (\<lambda>d. case i of None \<Rightarrow> Inl DbFault
          | Some u \<Rightarrow>
              if \<exists>x \<in> set (wfs d). visible_wf sub admin u x
              then Inr (WfDeleted, d\<lparr>wfs := filter (\<lambda>x. \<not> visible_wf sub admin u x) (wfs d),
                                   wf_runs := filter (\<lambda>r. run_wf r \<noteq> u) (wf_runs d)\<rparr>)
              else Inr (WfNotFound, d)))
       (\<lambda>_. ret WfFailed)"

end
