(* ===== verification/WorkflowProps.thy ===== *)
theory WorkflowProps
  imports Workflows
begin

text \<open>
  Theorems on workflows: what a tick does to the schedule, the advisory lock, and that no
  way of running a workflow reaches an agent, because the message insert they share cannot
  satisfy the constraints of its table.
\<close>

section \<open>The message insert\<close>

lemma workflow_message_rejected: "chat_row_error (workflow_message t u p) \<noteq> None"
  by (simp add: chat_row_error_def workflow_message_def)

lemma holds_insert: "holds I (insert_chat_row env (workflow_message t u p)) (\<lambda>_ _. False) I"
  unfolding insert_chat_row_def
  by (rule holds_query) (simp_all add: chat_row_error_def workflow_message_def)

lemma keeps_insert_bind: "keeps I (eff_bind (insert_chat_row env (workflow_message t u p)) f)"
  unfolding keeps_def by (rule holds_bind[OF holds_insert]) (simp add: holds_def)

lemma throws_insert_bind: "holds I (eff_bind (insert_chat_row env (workflow_message t u p)) f) (\<lambda>_ _. False) I"
  by (rule holds_bind[OF holds_insert]) (simp add: holds_def)

section \<open>Every operation leaves the outbox and the messages alone\<close>

definition same_outbox :: "dispatch_req list \<Rightarrow> chat_row list \<Rightarrow> wf_db \<Rightarrow> bool" where
  "same_outbox P M d = (w_posted d = P \<and> w_msgs d = M)"

named_theorems outbox_keeps \<open>statements that leave the outbox and the messages alone\<close>

lemma keeps_new_run [outbox_keeps]: "keeps (same_outbox P M) (new_run env wid st err)"
  unfolding new_run_def by (rule keeps_query) (auto simp: same_outbox_def fresh_def split: if_splits)

lemma keeps_new_thread [outbox_keeps]: "keeps (same_outbox P M) (new_thread env ti by)"
  unfolding new_thread_def by (rule keeps_query) (auto simp: same_outbox_def fresh_def split: if_splits)

lemma keeps_new_participant [outbox_keeps]: "keeps (same_outbox P M) (new_participant t p ty)"
  unfolding new_participant_def by (rule keeps_query) (auto simp: same_outbox_def split: if_splits)

lemma keeps_set_run_thread [outbox_keeps]: "keeps (same_outbox P M) (set_run_thread r t)"
  unfolding set_run_thread_def by (rule keeps_write) (simp add: same_outbox_def)

lemma keeps_label_error [outbox_keeps]: "keeps (same_outbox P M) (label_error env b r msg)"
  unfolding label_error_def by (rule keeps_write) (simp add: same_outbox_def)

lemma keeps_on_wf [outbox_keeps]: "keeps (same_outbox P M) (db_write (on_wf i f))"
  by (rule keeps_write) (simp add: same_outbox_def on_wf_def)

lemma keeps_log [outbox_keeps]: "keeps (same_outbox P M) (log_run_error env wid msg)"
  unfolding log_run_error_def by (intro keeps_catch keeps_bind keeps_ret keeps_new_run)

lemma keeps_next_or_record [outbox_keeps]: "keeps (same_outbox P M) (next_or_record env x)"
  unfolding next_or_record_def record_cron_failure_def
  by (intro keeps_sum keeps_seq keeps_ret keeps_log)

lemma keeps_initialize [outbox_keeps]: "keeps (same_outbox P M) (initialize_next_runs env)"
  unfolding initialize_next_runs_def initialize_row_def record_cron_failure_def
  by (intro keeps_catch keeps_bind keeps_read keeps_for keeps_sum keeps_option keeps_ret keeps_log keeps_on_wf)

lemma keeps_run_workflow [outbox_keeps]: "keeps (same_outbox P M) (run_workflow env x a rid)"
  unfolding run_workflow_def
  by (intro keeps_bind[OF keeps_new_thread] keeps_seq keeps_new_participant keeps_insert_bind)

lemma keeps_execute [outbox_keeps]: "keeps (same_outbox P M) (execute_workflow env x a)"
  unfolding execute_workflow_def
  by (intro keeps_if keeps_bind[OF keeps_next_or_record] keeps_bind[OF keeps_new_run] keeps_on_wf
      keeps_seq keeps_catch keeps_run_workflow keeps_label_error keeps_ret)

lemma keeps_tick_one [outbox_keeps]: "keeps (same_outbox P M) (tick_one env xa)"
  unfolding tick_one_def record_unexpected_failure_def by (intro keeps_catch keeps_execute keeps_log)

lemma keeps_try_lock [outbox_keeps]: "keeps (same_outbox P M) (try_lock c)"
  unfolding try_lock_def by (rule keeps_query) (auto simp: same_outbox_def split: if_splits)

lemma keeps_unlock [outbox_keeps]: "keeps (same_outbox P M) (unlock c)"
  unfolding unlock_def by (rule keeps_write) (simp add: same_outbox_def)

lemma keeps_tick [outbox_keeps]: "keeps (same_outbox P M) (tick env c1 c2)"
  unfolding tick_def
  by (intro keeps_seq keeps_finally keeps_catch keeps_bind[OF keeps_try_lock] keeps_if keeps_ret
      keeps_bind[OF keeps_read] keeps_for keeps_tick_one keeps_unlock keeps_local)
     (simp_all add: same_outbox_def)

lemma run_body_throws:
  "holds (same_outbox P M) (run_body env x a ti by human prompt models rid) (\<lambda>_ _. False) (same_outbox P M)"
  unfolding run_body_def
  by (rule holds_bind[OF keeps_new_thread[unfolded keeps_def]],
      rule holds_seq[OF keeps_set_run_thread[unfolded keeps_def]],
      rule holds_seq[OF keeps_new_participant[unfolded keeps_def]],
      rule holds_seq[OF keeps_new_participant[unfolded keeps_def]],
      rule throws_insert_bind)

text \<open>A run that is requested is never answered as running.\<close>

definition not_running :: "wf_resp \<Rightarrow> bool" where
  "not_running r = (r \<in> {WfNotFound, WfConflict, WfFailed})"

lemma not_running_intros: "not_running WfNotFound" "not_running WfConflict" "not_running WfFailed"
  by (simp_all add: not_running_def)

lemma labelled_run_fails:
  "holds (same_outbox P M) (labelled_run env fb x (run_body env x a ti by human prompt models))
     (\<lambda>r d. not_running r \<and> same_outbox P M d) (same_outbox P M)"
  unfolding labelled_run_def
  by (rule holds_bind[OF keeps_new_run[unfolded keeps_def]],
      rule holds_catch[OF holds_conseq[OF run_body_throws]], assumption, simp, assumption,
      rule holds_seq[where R = "\<lambda>_. same_outbox P M"],
      rule holds_catch[OF keeps_label_error[unfolded keeps_def]], rule holds_ret, assumption,
      rule holds_ret, simp add: not_running_def)

lemma run_route_fails:
  "holds (same_outbox P M) (run_route env sub admin i) (\<lambda>r d. not_running r \<and> same_outbox P M d) (\<lambda>_. False)"
  unfolding run_route_def with_id_def
  by (rule holds_catch[where R = "same_outbox P M"],
      rule holds_bind[OF holds_query[where Q = "\<lambda>_. same_outbox P M" and E = "same_outbox P M"]])
     (auto intro!: holds_if holds_ret labelled_run_fails not_running_intros split: option.splits prod.splits)

lemma webhook_route_fails:
  "holds (same_outbox P M) (webhook_route env tok payload) (\<lambda>r d. not_running r \<and> same_outbox P M d) (\<lambda>_. False)"
  unfolding webhook_route_def
  by (rule holds_catch[where R = "same_outbox P M"],
      rule holds_bind[OF holds_read[where Q = "\<lambda>_. same_outbox P M" and E = "same_outbox P M"]])
     (auto intro!: holds_if holds_ret labelled_run_fails not_running_intros split: option.splits prod.splits)

lemma keeps_agent_exists [outbox_keeps]: "keeps (same_outbox P M) (agent_exists env uuid v)"
  unfolding agent_exists_def by (rule keeps_query) (auto split: option.splits)

lemma keeps_create [outbox_keeps]: "keeps (same_outbox P M) (create_wf env uuid sub body)"
proof -
  have i: "keeps (same_outbox P M) (insert_wf env x)" for x
    unfolding insert_wf_def
    by (rule keeps_query) (auto simp: same_outbox_def fresh_def split: if_splits)
  show ?thesis unfolding create_wf_def create_wf_body_def Let_def
    by (intro keeps_catch keeps_if keeps_option keeps_sum keeps_ret keeps_throw
        keeps_bind[OF keeps_agent_exists] keeps_bind[OF keeps_peek] keeps_bind[OF i])
qed

lemma keeps_update_checked: "keeps (same_outbox P M) (update_wf_checked env sub admin i body aid)"
proof -
  have u: "keeps (same_outbox P M) (update_statement env sub admin u body aid n)" for u n
    unfolding update_statement_def Let_def
    by (rule keeps_query) (auto simp: same_outbox_def split: if_splits)
  have w: "keeps (same_outbox P M) (with_id i f)" for f :: "string \<Rightarrow> wf_db \<Rightarrow> string \<times> wf option"
    unfolding with_id_def by (rule keeps_query) (auto split: option.splits)
  show ?thesis unfolding update_wf_checked_def
    by (intro keeps_bind[OF w] keeps_prod keeps_option keeps_sum keeps_ret keeps_throw u)
qed

lemma keeps_update [outbox_keeps]: "keeps (same_outbox P M) (update_wf env uuid sub admin i body)"
  unfolding update_wf_def update_wf_body_def
  by (intro keeps_catch keeps_if keeps_option keeps_ret keeps_bind[OF keeps_agent_exists] keeps_update_checked)

lemma keeps_delete [outbox_keeps]: "keeps (same_outbox P M) (delete_wf sub admin i)"
  unfolding delete_wf_def
  by (intro keeps_catch keeps_query keeps_ret) (auto simp: same_outbox_def split: option.splits if_splits)

section \<open>The system of all operations\<close>

datatype wf_op =
    BootOp
  | TickOp nat nat
  | RunOp string bool "string option"
  | HookOp string "(string \<times> js) list"
  | CreateOp "string \<Rightarrow> string option" string js
  | UpdateOp "string \<Rightarrow> string option" string bool "string option" js
  | DeleteOp string bool "string option"

type_synonym wf_event = "wf_env \<times> bool list \<times> wf_op"

fun wf_handler :: "wf_env \<Rightarrow> wf_op \<Rightarrow> (wf_db, wf_resp) eff" where
  "wf_handler env BootOp = eff_seq (initialize_next_runs env) (ret WfUpdated)"
| "wf_handler env (TickOp c1 c2) = eff_seq (tick env c1 c2) (ret WfUpdated)"
| "wf_handler env (RunOp sub admin i) = run_route env sub admin i"
| "wf_handler env (HookOp tok payload) = webhook_route env tok payload"
| "wf_handler env (CreateOp uuid sub body) = create_wf env uuid sub body"
| "wf_handler env (UpdateOp uuid sub admin i body) = update_wf env uuid sub admin i body"
| "wf_handler env (DeleteOp sub admin i) = delete_wf sub admin i"

definition wf_step :: "wf_event \<Rightarrow> wf_db \<Rightarrow> wf_db" where
  "wf_step ev d = (case ev of (env, fs, c) \<Rightarrow> db (snd (wf_handler env c \<lparr>faults = fs, db = d\<rparr>)))"

lemma keeps_route:
  "holds (same_outbox P M) m (\<lambda>r d. not_running r \<and> same_outbox P M d) (\<lambda>_. False) \<Longrightarrow> keeps (same_outbox P M) m"
  unfolding keeps_def by (erule holds_conseq) auto

lemma keeps_handler: "keeps (same_outbox P M) (wf_handler env c)"
  by (cases c) (auto intro!: keeps_seq keeps_ret outbox_keeps keeps_route[OF run_route_fails]
      keeps_route[OF webhook_route_fails])

interpretation wf_outbox: guarded_system wf_step "same_outbox P M" for P M
proof
  fix d :: wf_db and ev :: wf_event
  assume "same_outbox P M d"
  then show "same_outbox P M (wf_step ev d)"
    using keepsD[OF keeps_handler, of P M "\<lparr>faults = fst (snd ev), db = d\<rparr>"]
    by (cases ev) (auto simp: wf_step_def)
qed

text \<open>
  No workflow ever reaches an agent. Whatever sequence of boots, ticks, manual runs,
  webhook calls and edits happens, under any faults, no work is posted to an agentbox and no
  chat message is stored: the message insert that the scheduler and the two routes share
  leaves out the column role, which is NOT NULL without a default, and writes the status
  "delivered", which the check constraint refuses. A manual run or a webhook call is
  answered 404, 409 or 500, never with a run.
\<close>

theorem workflows_never_reach_an_agent:
  "w_posted (fold wf_step evs d) = w_posted d \<and> w_msgs (fold wf_step evs d) = w_msgs d
   \<and> fst (run_route env sub admin i w) \<in> Inr ` {WfNotFound, WfConflict, WfFailed}
   \<and> fst (webhook_route env tok payload w) \<in> Inr ` {WfNotFound, WfConflict, WfFailed}"
proof -
  have "same_outbox (w_posted d) (w_msgs d) d" by (simp add: same_outbox_def)
  then have "same_outbox (w_posted d) (w_msgs d) (fold wf_step evs d)" by (rule wf_outbox.run_inv)
  moreover have answered: "fst (m w) \<in> Inr ` {WfNotFound, WfConflict, WfFailed}"
    if "\<And>P M. holds (same_outbox P M) m (\<lambda>r d. not_running r \<and> same_outbox P M d) (\<lambda>_. False)"
    for m :: "(wf_db, wf_resp) eff"
  proof -
    obtain r w' where r: "m w = (r, w')" by fastforce
    have "same_outbox (w_posted (db w)) (w_msgs (db w)) (db w)" by (simp add: same_outbox_def)
    then show ?thesis using holds_Inr[OF that _ \<open>same_outbox _ _ (db w)\<close>] holds_Inl[OF that _ \<open>same_outbox _ _ (db w)\<close>] r
      by (cases r) (auto simp: not_running_def)
  qed
  ultimately show ?thesis
    using answered[OF run_route_fails] answered[OF webhook_route_fails] by (simp add: same_outbox_def)
qed

section \<open>What a tick does to the schedule\<close>

lemma map_sum_Inr_iff: "map_sum f g x = Inr y \<longleftrightarrow> (\<exists>z. x = Inr z \<and> y = g z)"
  by (cases x) auto

definition next_of :: "wf_env \<Rightarrow> wf \<Rightarrow> int option" where
  "next_of env x = (case compute_next_run env (wf_cron x) of Inl _ \<Rightarrow> None | Inr n \<Rightarrow> n)"

text \<open>The row of a workflow after it was due in a tick.\<close>

definition ticked :: "wf_env \<Rightarrow> agent \<Rightarrow> wf \<Rightarrow> wf" where
  "ticked env a x = x\<lparr>wf_last := (if a_status a = ''running'' then Some (we_now env) else wf_last x),
                     wf_next := next_of env x\<rparr>"

definition sched :: "wf list \<Rightarrow> agent list \<Rightarrow> nat list \<Rightarrow> wf_db \<Rightarrow> bool" where
  "sched W G L d = (wfs d = W \<and> w_agents d = G \<and> w_lock d = L)"

definition on_id :: "string \<Rightarrow> (wf \<Rightarrow> wf) \<Rightarrow> wf list \<Rightarrow> wf list" where
  "on_id i f W = map (\<lambda>x. if wf_id x = i then f x else x) W"

lemma sched_on_wf: "sched W G L d \<Longrightarrow> sched (on_id i f W) G L (on_wf i f d)"
  by (simp add: sched_def on_wf_def on_id_def)

named_theorems sched_keeps \<open>statements that leave the workflows and agents alone\<close>

lemma sched_new_run [sched_keeps]: "keeps (sched W G L) (new_run env wid st err)"
  unfolding new_run_def by (rule keeps_query) (auto simp: sched_def fresh_def split: if_splits)

lemma sched_new_thread [sched_keeps]: "keeps (sched W G L) (new_thread env ti v)"
  unfolding new_thread_def by (rule keeps_query) (auto simp: sched_def fresh_def split: if_splits)

lemma sched_new_participant [sched_keeps]: "keeps (sched W G L) (new_participant t p ty)"
  unfolding new_participant_def by (rule keeps_query) (auto simp: sched_def split: if_splits)

lemma sched_label [sched_keeps]: "keeps (sched W G L) (label_error env b r msg)"
  unfolding label_error_def by (rule keeps_write) (simp add: sched_def)

lemma sched_run_workflow: "keeps (sched W G L) (run_workflow env x a rid)"
  unfolding run_workflow_def
  by (intro keeps_bind[OF sched_new_thread] keeps_seq sched_new_participant keeps_insert_bind)

lemma calm_run_workflow: "calm (run_workflow env x a rid)"
  unfolding run_workflow_def post_def new_thread_def new_participant_def insert_chat_row_def set_run_thread_def
  by (intro calm_intros)

lemma runs_log: "runs (sched W G L) (log_run_error env wid msg) (\<lambda>_. sched W G L)"
  unfolding log_run_error_def
proof (rule runs_catch_any)
  show "holds (sched W G L) (eff_bind (new_run env wid ''error'' (Some msg)) (\<lambda>_. ret ())) (\<lambda>_. sched W G L) (sched W G L)"
    by (rule keeps_bind[OF sched_new_run keeps_ret, unfolded keeps_def])
  show "calm (eff_bind (new_run env wid ''error'' (Some msg)) (\<lambda>_. ret ()))"
    unfolding new_run_def by (intro calm_intros)
qed (rule runs_ret)

lemma runs_next_or_record:
  "runs (sched W G L) (next_or_record env x) (\<lambda>n d. n = next_of env x \<and> sched W G L d)"
  by (cases "compute_next_run env (wf_cron x)")
     (auto simp: next_or_record_def next_of_def record_cron_failure_def intro!: runs_ret runs_seq[OF runs_log])

lemma runs_label: "runs (sched W G L) (eff_catch (label_error env b r msg) (\<lambda>_. ret ())) (\<lambda>_. sched W G L)"
  unfolding label_error_def by (intro runs_catch runs_write) (simp add: sched_def)

lemma runs_execute:
  assumes "x \<in> set W"
  shows "runs (sched W G L) (execute_workflow env x a) (\<lambda>_. sched (on_id (wf_id x) (\<lambda>y. y\<lparr>
     wf_last := (if a_status a = ''running'' then Some (we_now env) else wf_last y), wf_next := next_of env x\<rparr>) W) G L)"
proof (cases "a_status a = ''running''")
  case False
  then show ?thesis unfolding execute_workflow_def
    by (auto intro!: runs_bind[OF runs_next_or_record] runs_write dest: sched_on_wf)
next
  case True
  have new: "runs (sched W G L) (new_run env (wf_id x) ''running'' None) (\<lambda>_. sched W G L)"
    unfolding new_run_def using assms by (intro runs_query) (auto simp: sched_def fresh_def)
  have body: "runs (sched W G L)
      (eff_catch (run_workflow env x a rid)
         (\<lambda>e. eff_catch (label_error env False rid (or_text (err_text e) ''Unknown error'')) (\<lambda>_. ret ())))
      (\<lambda>_. sched W G L)" for rid
    by (rule runs_catch_any[OF sched_run_workflow[unfolded keeps_def] calm_run_workflow runs_label])
  show ?thesis unfolding execute_workflow_def using True
    by (auto intro!: runs_bind[OF new] runs_seq[OF body] runs_bind[OF runs_next_or_record] runs_write dest: sched_on_wf)
qed

text \<open>Each due workflow, in turn.\<close>

definition tick_row :: "wf_env \<Rightarrow> (wf \<times> agent) list \<Rightarrow> wf \<Rightarrow> wf" where
  "tick_row env ds y = (case find (\<lambda>xa. wf_id (fst xa) = wf_id y) ds of None \<Rightarrow> y | Some xa \<Rightarrow> ticked env (snd xa) y)"

lemma tick_row_id [simp]: "wf_id (tick_row env ds y) = wf_id y"
  by (simp add: tick_row_def ticked_def split: option.splits)

lemma runs_tick_rows:
  assumes "distinct (map (wf_id \<circ> fst) ds)"
    and "\<forall>xa \<in> set ds. fst xa \<in> set W" and "distinct (map wf_id W)"
  shows "runs (sched W G L) (eff_for ds (tick_one env)) (\<lambda>_. sched (map (tick_row env ds) W) G L)"
  using assms
proof (induction ds arbitrary: W)
  case Nil
  then show ?case by (simp add: runs_ret tick_row_def)
next
  case (Cons xa ds)
  obtain x a where xa: "xa = (x, a)" by force
  let ?W = "on_id (wf_id x) (ticked env a) W"
  have x: "x \<in> set W" using Cons.prems xa by simp
  have own: "y = x" if "y \<in> set W" "wf_id y = wf_id x" for y
    using that x Cons.prems(3) by (auto simp: distinct_map inj_on_def)
  have eq: "on_id (wf_id x) (\<lambda>y. y\<lparr>wf_last := (if a_status a = ''running'' then Some (we_now env) else wf_last y),
      wf_next := next_of env x\<rparr>) W = ?W"
    using own by (auto simp: on_id_def ticked_def)
  have one: "runs (sched W G L) (tick_one env xa) (\<lambda>_. sched ?W G L)"
    unfolding tick_one_def xa using runs_execute[OF x, of G L env a, unfolded eq] by (simp add: runs_catch)
  have ids: "map wf_id ?W = map wf_id W" by (simp add: on_id_def ticked_def)
  have "\<forall>xb \<in> set ds. fst xb \<in> set ?W"
    using Cons.prems(1,2) xa by (force simp: on_id_def image_iff)
  then have "runs (sched ?W G L) (eff_for ds (tick_one env)) (\<lambda>_. sched (map (tick_row env ds) ?W) G L)"
    using Cons.IH[of ?W] Cons.prems ids by simp
  moreover have "map (tick_row env ds) ?W = map (tick_row env (xa # ds)) W"
  proof -
    have "find (\<lambda>xb. wf_id (fst xb) = wf_id x) ds = None"
      using Cons.prems(1) xa by (force simp: find_None_iff)
    then show ?thesis by (auto simp: on_id_def tick_row_def xa ticked_def)
  qed
  ultimately show ?case using one by (auto intro: runs_seq)
qed


lemma due_agent: "due env d x \<Longrightarrow> \<exists>a. agent_of d (wf_agent x) = Some a"
  by (auto simp: due_def)

lemma due_workflows_cong:
  assumes "wfs d = wfs d'" "w_agents d = w_agents d'" shows "due_workflows env d = due_workflows env d'"
proof -
  have "agent_of d = agent_of d'" using assms(2) by (simp add: agent_of_def fun_eq_iff)
  then have "due env d = due env d'" by (simp add: due_def fun_eq_iff)
  then show ?thesis using assms by (simp add: due_workflows_def agent_of_def)
qed

lemma due_rows:
  "distinct (map wf_id (wfs d)) \<Longrightarrow> distinct (map (wf_id \<circ> fst) (due_workflows env d))"
  "xa \<in> set (due_workflows env d) \<Longrightarrow> fst xa \<in> set (wfs d)"
  by (auto simp: due_workflows_def comp_def distinct_map_filter)

text \<open>The row of a workflow after a tick, due or not.\<close>

definition after_tick :: "wf_env \<Rightarrow> wf_db \<Rightarrow> wf \<Rightarrow> wf" where
  "after_tick env d x = (if due env d x then ticked env (the (agent_of d (wf_agent x))) x else x)"

lemma tick_row_due:
  assumes "distinct (map wf_id (wfs d))" "x \<in> set (wfs d)"
  shows "tick_row env (due_workflows env d) x = after_tick env d x"
proof -
  have own: "y = x" if "y \<in> set (wfs d)" "wf_id y = wf_id x" for y
    using that assms by (auto simp: distinct_map inj_on_def)
  show ?thesis
  proof (cases "due env d x")
    case False
    have "find (\<lambda>xa. wf_id (fst xa) = wf_id x) (due_workflows env d) = None"
      using False own by (auto simp: find_None_iff due_workflows_def)
    then show ?thesis using False by (simp add: tick_row_def after_tick_def)
  next
    case True
    have "(x, the (agent_of d (wf_agent x))) \<in> set (due_workflows env d)"
      using True assms(2) by (auto simp: due_workflows_def)
    then obtain xa where f: "find (\<lambda>xa. wf_id (fst xa) = wf_id x) (due_workflows env d) = Some xa"
      by (metis (mono_tags, lifting) find_None_iff fst_conv not_Some_eq)
    then have "xa \<in> set (due_workflows env d)" "wf_id (fst xa) = wf_id x"
      by (auto simp: find_Some_iff)
    then obtain y where "xa = (y, the (agent_of d (wf_agent y)))" "y \<in> set (wfs d)" "wf_id y = wf_id x"
      by (auto simp: due_workflows_def)
    then have "xa = (x, the (agent_of d (wf_agent x)))" using own by blast
    then show ?thesis using True f by (simp add: tick_row_def after_tick_def)
  qed
qed

lemma tick_rows_due:
  "distinct (map wf_id (wfs d)) \<Longrightarrow> map (tick_row env (due_workflows env d)) (wfs d) = map (after_tick env d) (wfs d)"
  by (simp add: tick_row_due)

lemma runs_tick:
  assumes "set (w_lock d0) \<subseteq> {c1}" and "distinct (map wf_id (wfs d0))"
  shows "runs (\<lambda>d. d = d0) (tick env c1 c2)
     (\<lambda>_. sched (map (after_tick env d0) (wfs d0)) (w_agents d0) (remove1 c2 (c1 # w_lock d0)))"
proof -
  let ?Q = "sched (map (after_tick env d0) (wfs d0)) (w_agents d0)"
  let ?d1 = "d0\<lparr>w_busy := True, w_lock := c1 # w_lock d0\<rparr>"
  have due1: "due_workflows env ?d1 = due_workflows env d0"
    by (rule due_workflows_cong) simp_all
  have rows: "runs (sched (wfs d0) (w_agents d0) L) (eff_for (due_workflows env d0) (tick_one env)) (\<lambda>_. ?Q L)" for L
    using runs_tick_rows[OF due_rows(1)[OF assms(2), of env] _ assms(2), of "w_agents d0" L env] due_rows(2)
    by (simp add: tick_rows_due[OF assms(2)])
  have body: "runs (\<lambda>d. d = ?d1) (eff_bind (db_read (due_workflows env)) (\<lambda>ds. eff_for ds (tick_one env)))
      (\<lambda>_. ?Q (c1 # w_lock d0))"
  proof (rule runs_bind)
    show "runs (\<lambda>d. d = ?d1) (db_read (due_workflows env))
        (\<lambda>ds d. ds = due_workflows env d0 \<and> sched (wfs d0) (w_agents d0) (c1 # w_lock d0) d)"
      by (rule runs_read) (simp add: due1 sched_def)
  next
    fix ds
    show "runs (\<lambda>d. ds = due_workflows env d0 \<and> sched (wfs d0) (w_agents d0) (c1 # w_lock d0) d)
        (eff_for ds (tick_one env)) (\<lambda>_. ?Q (c1 # w_lock d0))"
      using rows[of "c1 # w_lock d0"] by (cases "ds = due_workflows env d0") (auto simp: runs_def)
  qed
  have locked: "runs (\<lambda>d. d = d0\<lparr>w_busy := True\<rparr>) (try_lock c1) (\<lambda>ok d. ok \<and> d = ?d1)"
    unfolding try_lock_def using assms(1) by (intro runs_query) auto
  have inner: "runs (\<lambda>d. ok \<and> d = ?d1)
      (if \<not> ok then ret ()
       else eff_finally (eff_bind (db_read (due_workflows env)) (\<lambda>ds. eff_for ds (tick_one env))) (unlock c2))
      (\<lambda>_. ?Q (remove1 c2 (c1 # w_lock d0)))" for ok
  proof (cases ok)
    case True
    have "runs (?Q (c1 # w_lock d0)) (unlock c2) (\<lambda>_. ?Q (remove1 c2 (c1 # w_lock d0)))"
      unfolding unlock_def by (rule runs_write) (simp add: sched_def)
    then show ?thesis using True runs_finally[OF body] by simp
  qed (simp add: runs_def)
  show ?thesis unfolding tick_def
    by (rule runs_seq[OF runs_local[where Q = "\<lambda>_ d. d = d0\<lparr>w_busy := True\<rparr>"]], simp,
        rule runs_finally[OF runs_catch[OF runs_bind[OF locked inner]]], rule runs_local, simp add: sched_def)
qed

text \<open>
  C38: A tick serves the schedule. When no query fails and the lock is free, a tick ends
  normally; every enabled workflow that is due and whose agent exists gets the next
  occurrence of its own cron expression (none when the expression is invalid), its last run
  set when the agent is running, and every other workflow is left as it is. If the cron
  library answers times in the future, no workflow is due afterwards, so no due workflow is
  lost behind another and none is run twice for one occurrence.
\<close>

theorem tick_serves_the_schedule:
  assumes "faults w = []" and "set (w_lock (db w)) \<subseteq> {c1}" and "distinct (map wf_id (wfs (db w)))"
    and "\<And>s n. we_next env s (we_now env) = Inr n \<Longrightarrow> we_now env < n"
  shows "fst (tick env c1 c2 w) = Inr ()
    \<and> wfs (db (snd (tick env c1 c2 w))) = map (\<lambda>x. if due env (db w) x
         then x\<lparr>wf_last := (if map_option a_status (agent_of (db w) (wf_agent x)) = Some ''running''
                            then Some (we_now env) else wf_last x),
                wf_next := next_of env x\<rparr>
         else x) (wfs (db w))
    \<and> due_workflows env (db (snd (tick env c1 c2 w))) = []"
proof -
  obtain w' where r: "tick env c1 c2 w = (Inr (), w')"
      and Q: "sched (map (after_tick env (db w)) (wfs (db w))) (w_agents (db w)) (remove1 c2 (c1 # w_lock (db w))) (db w')"
    using runsD[OF runs_tick[OF assms(2,3)] assms(1) refl] by fastforce
  have row: "after_tick env (db w) x = (if due env (db w) x
         then x\<lparr>wf_last := (if map_option a_status (agent_of (db w) (wf_agent x)) = Some ''running''
                            then Some (we_now env) else wf_last x),
                wf_next := next_of env x\<rparr> else x)" for x
    using due_agent[of env "db w" x] by (auto simp: after_tick_def ticked_def)
  have later: "we_now env < n" if "next_of env x = Some n" for x n
    using that assms(4) unfolding next_of_def compute_next_run_def
    by (auto split: option.splits sum.splits if_splits simp: map_sum_Inr_iff)
  have "\<not> due env (db w') (after_tick env (db w) x)" for x
  proof (cases "due env (db w) x")
    case True
    then show ?thesis using later[of x] by (auto simp: due_def row split: option.splits)
  next
    case False
    moreover have "agent_of (db w') = agent_of (db w)" using Q by (simp add: sched_def agent_of_def fun_eq_iff)
    ultimately show ?thesis by (simp add: after_tick_def) (simp add: due_def)
  qed
  then have "due_workflows env (db w') = []" using Q by (auto simp: due_workflows_def sched_def filter_empty_conv)
  then show ?thesis using Q r by (simp add: sched_def row)
qed

lemma locked_out:
  assumes "c1 \<in> set (w_lock d)" "c3 \<noteq> c1"
  shows "db (snd (tick env c3 c4 \<lparr>faults = fs, db = d\<rparr>)) = d\<lparr>w_busy := False\<rparr>"
proof -
  let ?d = "d\<lparr>w_busy := True\<rparr>"
  have "\<not> set (w_lock d) \<subseteq> {c3}" using assms by auto
  then have lock: "holds (\<lambda>x. x = ?d) (try_lock c3) (\<lambda>ok x. \<not> ok \<and> x = ?d) (\<lambda>x. x = ?d)"
    unfolding try_lock_def by (intro holds_query) auto
  have skipped: "holds (\<lambda>x. \<not> ok \<and> x = ?d) (if \<not> ok then ret () else m) (\<lambda>_ x. x = ?d) (\<lambda>x. x = ?d)"
    for ok and m :: "(wf_db, unit) eff"
    by (cases ok) (auto simp: holds_def ret_def)
  have "holds (\<lambda>x. x = d) (tick env c3 c4) (\<lambda>_ x. x = d\<lparr>w_busy := False\<rparr>) (\<lambda>_. False)"
    unfolding tick_def
    by (rule holds_seq[OF holds_local[where Q = "\<lambda>_ x. x = ?d"]], simp,
        rule holds_finally[OF holds_catch[OF holds_bind[OF lock skipped] holds_ret[where Q = "\<lambda>_ x. x = ?d"]]],
        assumption, (rule holds_local, simp)+)
  then have "case tick env c3 c4 \<lparr>faults = fs, db = d\<rparr> of (Inr x, w') \<Rightarrow> db w' = d\<lparr>w_busy := False\<rparr> | _ \<Rightarrow> False"
    unfolding holds_def by (metis world.select_convs(2))
  then show ?thesis by (cases "tick env c3 c4 \<lparr>faults = fs, db = d\<rparr>") (auto split: sum.splits)
qed

text \<open>
  The scheduler's lock leaks. The advisory lock is taken on one connection of the pool
  and released on whichever connection serves the release. When they differ, a tick without
  any failure leaves the lock with the first connection; from then on a tick whose lock
  query runs on another connection executes no workflow, whatever is due.
\<close>

theorem scheduler_lock_leaks:
  assumes "faults w = []" and "w_lock (db w) = []" and "distinct (map wf_id (wfs (db w)))"
    and "c1 \<noteq> c2" and "c3 \<noteq> c1"
  shows "w_lock (db (snd (tick env c1 c2 w))) = [c1]
    \<and> db (snd (tick later c3 c4 \<lparr>faults = fs, db = db (snd (tick env c1 c2 w))\<rparr>))
        = (db (snd (tick env c1 c2 w)))\<lparr>w_busy := False\<rparr>"
proof -
  have "set (w_lock (db w)) \<subseteq> {c1}" using assms(2) by simp
  then obtain w' where "tick env c1 c2 w = (Inr (), w')" "w_lock (db w') = [c1]"
    using runsD[OF runs_tick[OF _ assms(3)] assms(1) refl] assms(2,4) by (fastforce simp: sched_def)
  then show ?thesis using locked_out[OF _ assms(5)] by simp
qed

section \<open>Witnesses\<close>

definition minute_cron :: wf_env where
  "minute_cron = \<lparr>we_parse = (\<lambda>s. if s = ''* * * * *'' then None else Some ''bad''),
     we_next = (\<lambda>s t. Inr (t + 60)), we_now = 120, we_gen = (\<lambda>n. replicate n CHR ''i''),
     we_sha = id, we_random = (\<lambda>n. replicate n CHR ''r''), we_post = (\<lambda>_. HttpOk True),
     we_json = (\<lambda>_. ''{}''), we_text = the_str, we_bool = (\<lambda>v. case v of Bool b \<Rightarrow> Some b | _ \<Rightarrow> None)\<rparr>"

definition demo_wf :: wf where
  "demo_wf = \<lparr>wf_id = ''w1'', wf_name = ''digest'', wf_agent = ''a1'', wf_cron = Some ''* * * * *'',
     wf_prompt = ''summarise'', wf_by = ''u1'', wf_enabled = True, wf_last = None, wf_next = Some 100,
     wf_trigger = ''cron'', wf_hash = None\<rparr>"

definition demo_wf_agent :: agent where
  "demo_wf_agent = \<lparr>a_id = ''a1'', a_slug = ''box'', a_name = ''Box'', a_status = ''running'',
     a_work_token = Some ''t'', a_models = Null, a_scopes = [], a_owner = None\<rparr>"

definition demo_wf_world :: "wf_db world" where
  "demo_wf_world = \<lparr>faults = [], db = \<lparr>wfs = [demo_wf, demo_wf\<lparr>wf_id := ''w2'', wf_next := Some 150\<rparr>],
     wf_runs = [], w_agents = [demo_wf_agent], w_threads = [], w_parts = [], w_msgs = [], w_posted = [],
     w_count = 0, w_lock = [], w_busy = False\<rparr>\<rparr>"

theorem tick_serves_the_schedule_witness:
  "wfs (db (snd (tick minute_cron 0 0 demo_wf_world)))
     = [demo_wf\<lparr>wf_last := Some 120, wf_next := Some 180\<rparr>, demo_wf\<lparr>wf_id := ''w2'', wf_next := Some 150\<rparr>]"
  using tick_serves_the_schedule[of demo_wf_world 0 minute_cron 0]
  by (simp add: demo_wf_world_def minute_cron_def demo_wf_def demo_wf_agent_def due_def agent_of_def
      next_of_def compute_next_run_def)

theorem scheduler_lock_leaks_witness:
  "w_lock (db (snd (tick minute_cron 0 1 demo_wf_world))) = [0]
   \<and> wfs (db (snd (tick (minute_cron\<lparr>we_now := 900\<rparr>) 2 2
        \<lparr>faults = [], db = db (snd (tick minute_cron 0 1 demo_wf_world))\<rparr>)))
       = wfs (db (snd (tick minute_cron 0 1 demo_wf_world)))"
  using scheduler_lock_leaks[of demo_wf_world 0 1 2 minute_cron "minute_cron\<lparr>we_now := 900\<rparr>" 2 "[]"]
  by (simp add: demo_wf_world_def demo_wf_def)

end
