(* ===== verification/Terminal.thy ===== *)
theory Terminal
  imports ChatDb Streams
begin

text \<open>
  The terminal proxy (\<open>services/terminal-proxy.ts\<close>, wired by \<open>services/terminal-wiring.ts\<close>): the
  upgrade handler, over the chat tables, and the session that follows an accepted upgrade.
  A session is two WebSockets, two relays, an expiry timer and a ping interval; each
  callback the source registers is an operation on the session's state, and \<open>term_step\<close> says
  when the \<open>ws\<close> library and the timers may run it: a socket's events come while the socket
  is in the state that allows them, a timer fires while it is armed and due, and time does
  not pass an armed timer that is due. Times are milliseconds.
\<close>

section \<open>The upgrade\<close>

record term_req =
  tq_url :: "string option"
  tq_origin :: "string option"
  tq_protocols :: "string option"
  tq_auth :: "string option"

text \<open>
  \<open>te_uuid\<close> reads a uuid parameter as Postgres does; \<open>te_pick\<close> stands for the row that a
  \<open>LIMIT 1\<close> without an order returns.
\<close>

record term_env =
  te_origins :: "string option"
  te_verify :: "string \<Rightarrow> terminal_principal option"
  te_uuid :: "string \<Rightarrow> string option"
  te_pick :: nat
  te_now :: int

record term_cfg =
  tc_thread :: string
  tc_sub :: string
  tc_admin :: bool
  tc_exp :: rat
  tc_url :: string

datatype upgrade = Ignored | Refused nat | Destroyed | Accepted term_cfg

definition allowed_origins :: "string option \<Rightarrow> string list" where
  "allowed_origins v = filter (\<lambda>o'. o' \<noteq> []) (map js_trim (split_on CHR '','' (case v of None \<Rightarrow> [] | Some s \<Rightarrow> s)))"

definition is_origin_allowed :: "string option \<Rightarrow> string option \<Rightarrow> bool" where
  "is_origin_allowed v origin =
     (case origin of None \<Rightarrow> False | Some o' \<Rightarrow> o' \<noteq> [] \<and> o' \<in> set (allowed_origins v))"

definition protocol_bearer_prefix :: string where
  "protocol_bearer_prefix = ''hill90.bearer.''"

fun bearer_entry :: "string list \<Rightarrow> string option" where
  "bearer_entry [] = None"
| "bearer_entry (raw # rest) =
     (let entry = js_trim raw; token = slice_from (length protocol_bearer_prefix) entry in
      if startsWith entry protocol_bearer_prefix \<and> token \<noteq> [] then Some token else bearer_entry rest)"

definition token_from_protocols :: "string option \<Rightarrow> string option" where
  "token_from_protocols header =
     (case header of None \<Rightarrow> None | Some h \<Rightarrow> if h = [] then None else bearer_entry (split_on CHR '','' h))"

definition request_token :: "term_req \<Rightarrow> string option" where
  "request_token req =
     (case token_from_protocols (tq_protocols req) of
        Some t \<Rightarrow> Some t
      | None \<Rightarrow> (case tq_auth req of
                   None \<Rightarrow> None
                 | Some a \<Rightarrow> if startsWith a ''Bearer '' \<and> slice_from 7 a \<noteq> [] then Some (slice_from 7 a) else None))"

text \<open>\<open>/^\/chat\/threads\/([^/]+)\/terminal/\<close>: the rest of the URL, its query included, is free.\<close>

definition parse_thread_id :: "string option \<Rightarrow> string option" where
  "parse_thread_id url =
     (case url of
        None \<Rightarrow> None
      | Some u \<Rightarrow>
          if startsWith u ''/chat/threads/'' then
            (let i = takeWhile (\<lambda>c. c \<noteq> CHR ''/'') (slice_from 14 u);
                 rest = dropWhile (\<lambda>c. c \<noteq> CHR ''/'') (slice_from 14 u)
             in if i \<noteq> [] \<and> startsWith rest ''/terminal'' then Some i else None)
          else None)"

definition term_query :: "term_env \<Rightarrow> string \<Rightarrow> (string \<Rightarrow> chat_db \<Rightarrow> 'a) \<Rightarrow> (chat_db, 'a) eff" where
  "term_query env tid f =
     db_query (\<lambda>d. case te_uuid env tid of None \<Rightarrow> Inl DbFault | Some u \<Rightarrow> Inr (f u d, d))"

definition terminal_human :: "string \<Rightarrow> string \<Rightarrow> chat_db \<Rightarrow> bool" where
  "terminal_human sub u d = (\<exists>p \<in> set (d_parts d). p_thread p = u \<and> p_id p = sub \<and> p_kind p = Human)"

definition terminal_is_participant :: "term_env \<Rightarrow> string \<Rightarrow> string \<Rightarrow> (chat_db, bool) eff" where
  "terminal_is_participant env tid sub = term_query env tid (terminal_human sub)"

text \<open>The running agents among the agent rows of the thread.\<close>

definition running_agents :: "string \<Rightarrow> chat_db \<Rightarrow> agent list" where
  "running_agents u d =
     concat (map (\<lambda>i. filter (\<lambda>a. a_id a = i \<and> a_status a = ''running'') (d_agents d))
       (map p_id (filter (\<lambda>p. p_thread p = u \<and> p_kind p = Agent) (d_parts d))))"

definition agent_ws_url :: "agent \<Rightarrow> string" where
  "agent_ws_url a = ''ws://agentbox-'' @ a_slug a @ '':8054/terminal/ws?token='' @
     (case a_work_token a of None \<Rightarrow> ''null'' | Some t \<Rightarrow> t)"

definition resolve_agent_ws_url :: "term_env \<Rightarrow> string \<Rightarrow> (chat_db, string option) eff" where
  "resolve_agent_ws_url env tid = term_query env tid (\<lambda>u d.
     let rows = running_agents u d in
     if rows = [] then None else Some (agent_ws_url (rows ! (te_pick env mod length rows))))"

text \<open>\<open>user.exp * 1000\<close>\<close>

definition expires_at_ms :: "terminal_principal \<Rightarrow> jsnum" where
  "expires_at_ms user = (case tp_exp user of Fin q \<Rightarrow> to_num (q * 1000) | n \<Rightarrow> n)"

definition terminal_is_admin :: "terminal_principal \<Rightarrow> bool" where
  "terminal_is_admin user = (Str ''admin'' \<in> set (tp_roles user))"

text \<open>From the participation check on.\<close>

definition upgrade_resolved :: "term_env \<Rightarrow> string \<Rightarrow> terminal_principal \<Rightarrow> rat \<Rightarrow> (chat_db, upgrade) eff" where
  "upgrade_resolved env tid user e =
     eff_bind (if terminal_is_admin user then ret True else terminal_is_participant env tid (tp_sub user)) (\<lambda>ok.
       if \<not> ok then ret (Refused 403)
       else eff_bind (resolve_agent_ws_url env tid) (\<lambda>url.
              case url of
                None \<Rightarrow> ret (Refused 404)
              | Some u \<Rightarrow> ret (Accepted \<lparr>tc_thread = tid, tc_sub = tp_sub user,
                           tc_admin = terminal_is_admin user, tc_exp = e, tc_url = u\<rparr>)))"

definition upgrade_checked :: "term_env \<Rightarrow> term_req \<Rightarrow> string \<Rightarrow> (chat_db, upgrade) eff" where
  "upgrade_checked env req tid =
     (if \<not> is_origin_allowed (te_origins env) (tq_origin req) then ret (Refused 403)
      else case request_token req of
        None \<Rightarrow> ret (Refused 401)
      | Some token \<Rightarrow>
          (case te_verify env token of
             None \<Rightarrow> ret (Refused 401)
           | Some user \<Rightarrow>
               (case expires_at_ms user of
                  Fin e \<Rightarrow> if e \<le> of_int (te_now env) then ret (Refused 401)
                           else upgrade_resolved env tid user e
                | _ \<Rightarrow> ret (Refused 401))))"

definition terminal_upgrade :: "term_env \<Rightarrow> term_req \<Rightarrow> (chat_db, upgrade) eff" where
  "terminal_upgrade env req =
     (case parse_thread_id (tq_url req) of
        None \<Rightarrow> ret Ignored
      | Some tid \<Rightarrow> eff_catch (upgrade_checked env req tid) (\<lambda>_. ret Destroyed))"

text \<open>\<open>attachTerminalProxyFromConfig\<close>\<close>

definition wired_env :: "jwt_lib \<Rightarrow> string \<Rightarrow> string \<Rightarrow> term_env \<Rightarrow> term_env" where
  "wired_env lib client issuer env = env\<lparr>te_verify := verify_terminal_token lib client issuer\<rparr>"

section \<open>The session\<close>

datatype ready = Connecting | Open | Closing | Closed

text \<open>
  \<open>tm_frames\<close> are the close codes sent to the client, \<open>None\<close> for \<open>close()\<close>; \<open>tm_checks\<close> the
  participation queries in flight; \<open>tm_down\<close> relays from the agentbox to the client.
\<close>

record tsession =
  tm_client :: ready
  tm_agent :: ready
  tm_expiry :: bool
  tm_deadline :: int
  tm_ping :: bool
  tm_next_ping :: int
  tm_checks :: nat
  tm_down :: relay
  tm_up :: relay
  tm_frames :: "nat option list"
  tm_now :: int

definition ping_interval_ms :: int where
  "ping_interval_ms = 30000"

definition max_timeout_ms :: rat where
  "max_timeout_ms = 2147483647"

definition close_credential_expired :: nat where
  "close_credential_expired = 4002"

definition close_relay_overflow :: nat where
  "close_relay_overflow = 4003"

definition close_access_revoked :: nat where
  "close_access_revoked = 4004"

text \<open>\<open>setTimeout\<close> drops the fraction of its delay and takes 1 for a delay below that.\<close>

definition expiry_delay :: "rat \<Rightarrow> int \<Rightarrow> int" where
  "expiry_delay e t = max 1 \<lfloor>min (e - of_int t) max_timeout_ms\<rfloor>"

definition term_start :: "term_cfg \<Rightarrow> int \<Rightarrow> tsession" where
  "term_start cfg t =
     \<lparr>tm_client = Open, tm_agent = Connecting, tm_expiry = True, tm_deadline = t + expiry_delay (tc_exp cfg) t,
      tm_ping = True, tm_next_ping = t + ping_interval_ms, tm_checks = 0,
      tm_down = relay_init, tm_up = relay_init, tm_frames = [], tm_now = t\<rparr>"

definition close_client :: "nat option \<Rightarrow> tsession \<Rightarrow> tsession" where
  "close_client code s =
     (if tm_client s = Open then s\<lparr>tm_client := Closing, tm_frames := tm_frames s @ [code]\<rparr> else s)"

definition close_agent :: "tsession \<Rightarrow> tsession" where
  "close_agent s = (if tm_agent s = Open then s\<lparr>tm_agent := Closing\<rparr> else s)"

definition cleanup_all :: "tsession \<Rightarrow> tsession" where
  "cleanup_all s =
     close_agent (close_client None
       (s\<lparr>tm_down := relay_cleanup (tm_down s), tm_up := relay_cleanup (tm_up s),
          tm_expiry := False, tm_ping := False\<rparr>))"

definition on_expiry :: "tsession \<Rightarrow> tsession" where
  "on_expiry s = cleanup_all (close_client (Some close_credential_expired) (s\<lparr>tm_expiry := False\<rparr>))"

definition on_ping :: "term_cfg \<Rightarrow> tsession \<Rightarrow> tsession" where
  "on_ping cfg s =
     s\<lparr>tm_next_ping := tm_next_ping s + ping_interval_ms,
       tm_checks := (if tc_admin cfg then tm_checks s else Suc (tm_checks s))\<rparr>"

text \<open>The participation query answers, \<open>None\<close> when it throws.\<close>

definition on_check :: "bool option \<Rightarrow> tsession \<Rightarrow> tsession" where
  "on_check answer s =
     (let s1 = s\<lparr>tm_checks := tm_checks s - 1\<rparr> in
      if still_authorised answer then s1
      else cleanup_all (close_client (Some close_access_revoked) s1))"

definition on_unexpected_response :: "tsession \<Rightarrow> tsession" where
  "on_unexpected_response s = close_client (Some 1011) s"

definition end_for_overflow :: "tsession \<Rightarrow> tsession" where
  "end_for_overflow s = cleanup_all (close_client (Some close_relay_overflow) s)"

text \<open>A relay sees whether its destination is OPEN; its overflow callback ends the session.\<close>

definition relay_down :: "relay_op \<Rightarrow> (nat \<Rightarrow> string \<Rightarrow> nat) \<Rightarrow> tsession \<Rightarrow> tsession" where
  "relay_down c grow s =
     (let r = relay_step grow relay_defaults c ((tm_down s)\<lparr>rl_open := (tm_client s = Open)\<rparr>);
          s1 = s\<lparr>tm_down := r\<rparr>
      in if rl_overflows r \<noteq> rl_overflows (tm_down s) then end_for_overflow s1 else s1)"

definition relay_up :: "relay_op \<Rightarrow> (nat \<Rightarrow> string \<Rightarrow> nat) \<Rightarrow> tsession \<Rightarrow> tsession" where
  "relay_up c grow s =
     (let r = relay_step grow relay_defaults c ((tm_up s)\<lparr>rl_open := (tm_agent s = Open)\<rparr>);
          s1 = s\<lparr>tm_up := r\<rparr>
      in if rl_overflows r \<noteq> rl_overflows (tm_up s) then end_for_overflow s1 else s1)"

section \<open>When the callbacks run\<close>

datatype tev =
    AgentOpens
  | AgentRefuses
  | PingFires
  | CheckAnswers "bool option"
  | ExpiryFires
  | FromAgent string bool
  | FromClient string bool
  | DownPolls
  | UpPolls
  | ClientDrains nat
  | AgentDrains nat
  | ClientCloses
  | AgentCloses
  | ClientErrors
  | AgentErrors
  | Passes int

definition live_socket :: "ready \<Rightarrow> bool" where
  "live_socket r = (r = Open \<or> r = Closing)"

inductive term_step :: "(nat \<Rightarrow> string \<Rightarrow> nat) \<Rightarrow> term_cfg \<Rightarrow> tev \<Rightarrow> tsession \<Rightarrow> tsession \<Rightarrow> bool"
  for grow :: "nat \<Rightarrow> string \<Rightarrow> nat" and cfg :: term_cfg where
  agent_opens: "tm_agent s = Connecting \<Longrightarrow> term_step grow cfg AgentOpens s (s\<lparr>tm_agent := Open\<rparr>)"
| agent_refuses: "tm_agent s = Connecting \<Longrightarrow> term_step grow cfg AgentRefuses s (on_unexpected_response s)"
| ping_fires: "tm_ping s \<Longrightarrow> tm_next_ping s \<le> tm_now s \<Longrightarrow> term_step grow cfg PingFires s (on_ping cfg s)"
| check_answers: "0 < tm_checks s \<Longrightarrow> term_step grow cfg (CheckAnswers a) s (on_check a s)"
| expiry_fires: "tm_expiry s \<Longrightarrow> tm_deadline s \<le> tm_now s \<Longrightarrow> term_step grow cfg ExpiryFires s (on_expiry s)"
| from_agent: "live_socket (tm_agent s) \<Longrightarrow> term_step grow cfg (FromAgent d b) s (relay_down (Message d b) grow s)"
| from_client: "live_socket (tm_client s) \<Longrightarrow> term_step grow cfg (FromClient d b) s (relay_up (Message d b) grow s)"
| down_polls: "rl_polling (tm_down s) \<Longrightarrow> term_step grow cfg DownPolls s (relay_down PollTick grow s)"
| up_polls: "rl_polling (tm_up s) \<Longrightarrow> term_step grow cfg UpPolls s (relay_up PollTick grow s)"
| client_drains: "term_step grow cfg (ClientDrains n) s (relay_down (PeerDrains n) grow s)"
| agent_drains: "term_step grow cfg (AgentDrains n) s (relay_up (PeerDrains n) grow s)"
| client_closes: "live_socket (tm_client s) \<Longrightarrow> term_step grow cfg ClientCloses s (cleanup_all (s\<lparr>tm_client := Closed\<rparr>))"
| agent_closes: "tm_agent s \<noteq> Closed \<Longrightarrow> term_step grow cfg AgentCloses s (cleanup_all (s\<lparr>tm_agent := Closed\<rparr>))"
| client_errors: "live_socket (tm_client s) \<Longrightarrow> term_step grow cfg ClientErrors s (cleanup_all s)"
| agent_errors: "tm_agent s \<noteq> Closed \<Longrightarrow> term_step grow cfg AgentErrors s (cleanup_all s)"
| time_passes: "0 < n \<Longrightarrow> (tm_expiry s \<longrightarrow> tm_now s + n \<le> tm_deadline s) \<Longrightarrow>
    (tm_ping s \<longrightarrow> tm_now s + n \<le> tm_next_ping s) \<Longrightarrow>
    term_step grow cfg (Passes n) s (s\<lparr>tm_now := tm_now s + n\<rparr>)"

inductive_cases check_answersE [elim!]: "term_step grow cfg (CheckAnswers a) s t"
inductive_cases agent_opensE [elim!]: "term_step grow cfg AgentOpens s t"

inductive_simps passes_iff: "term_step grow cfg (Passes n) s t"

inductive term_run :: "(nat \<Rightarrow> string \<Rightarrow> nat) \<Rightarrow> term_cfg \<Rightarrow> tsession \<Rightarrow> tev list \<Rightarrow> tsession \<Rightarrow> bool"
  for grow :: "nat \<Rightarrow> string \<Rightarrow> nat" and cfg :: term_cfg where
  run_nil: "term_run grow cfg s [] s"
| run_cons: "term_step grow cfg e s t \<Longrightarrow> term_run grow cfg t es u \<Longrightarrow> term_run grow cfg s (e # es) u"

section \<open>Shutdown\<close>

text \<open>
  \<open>closeAllSessions\<close>: each live client is sent the close frame; one whose \<open>close\<close> throws
  (\<open>bad\<close>) is left to its connection. The answer is the number of live sessions; the wait for
  the sockets is bounded by the drain timeout and changes nothing here.
\<close>

definition drain_timeout_ms :: nat where
  "drain_timeout_ms = 2000"

definition close_all_sessions :: "(tsession \<Rightarrow> bool) \<Rightarrow> nat \<Rightarrow> tsession list \<Rightarrow> nat \<times> tsession list" where
  "close_all_sessions bad code ss =
     (length (filter (\<lambda>s. tm_client s = Open) ss),
      map (\<lambda>s. if bad s then s else close_client (Some code) s) ss)"

end
