(* ===== verification/TerminalProps.thy ===== *)
theory TerminalProps
  imports Terminal
begin

text \<open>
  Theorems on the terminal proxy: who is admitted, that a session is watched for as long as
  its client socket is open, that it ends once with a reason, that a revoked viewer is cut
  off within one ping, and two flaws: the agentbox socket that is left behind, and the agent
  that stays reachable after it left the thread.
\<close>

section \<open>Simplification of the callbacks\<close>

lemmas close_defs = cleanup_all_def close_client_def close_agent_def end_for_overflow_def Let_def

lemmas callback_defs = on_expiry_def on_ping_def on_check_def on_unexpected_response_def close_defs

lemma relay_open_inv [simp]: "relay_inv opts (r\<lparr>rl_open := b\<rparr>) = relay_inv opts r"
  by (simp add: relay_inv_def)

lemma relay_cleanup_inv: "relay_inv opts r \<Longrightarrow> relay_inv opts (relay_cleanup r)"
  using relay_step_inv[of opts r undefined Teardown] by simp

lemma cleanup_polling [simp]: "\<not> rl_polling (relay_cleanup r)"
  by (simp add: relay_defs)

lemma cleanup_overflows [simp]: "rl_overflows (relay_cleanup r) = rl_overflows r"
  by (simp add: relay_defs)

text \<open>A relay whose destination is not OPEN never arms its poll.\<close>

lemma shut_polling:
  "\<not> rl_open r \<Longrightarrow> \<not> rl_polling r \<Longrightarrow> \<not> rl_polling (relay_step grow opts c r)"
  by (cases c) (auto simp: relay_defs)

lemma shut_overflows: "\<not> rl_open r \<Longrightarrow> rl_overflows (relay_step grow opts c r) = rl_overflows r"
  by (cases c) (auto simp: relay_defs)

section \<open>The invariant of a session\<close>

text \<open>
  While the client socket is open the session is watched: the expiry timer is armed and not
  overdue, and so is the ping. At most one close frame has been sent, and only to a socket
  that is no longer open; once the client's close event is in, no timer is left.
\<close>

definition session_inv :: "term_cfg \<Rightarrow> int \<Rightarrow> tsession \<Rightarrow> bool" where
  "session_inv cfg t0 s \<longleftrightarrow>
     (tm_client s = Open \<longrightarrow> tm_expiry s \<and> tm_ping s \<and> tm_frames s = []) \<and>
     (tm_expiry s \<longrightarrow> tm_now s \<le> tm_deadline s) \<and>
     (tm_ping s \<longrightarrow> tm_now s \<le> tm_next_ping s \<and> tm_next_ping s \<le> tm_now s + ping_interval_ms) \<and>
     tm_deadline s = t0 + expiry_delay (tc_exp cfg) t0 \<and> length (tm_frames s) \<le> 1 \<and>
     tm_client s \<noteq> Connecting \<and> t0 \<le> tm_now s \<and>
     (tm_client s = Closed \<longrightarrow> \<not> tm_expiry s \<and> \<not> tm_ping s \<and>
        \<not> rl_polling (tm_down s) \<and> \<not> rl_polling (tm_up s)) \<and>
     relay_inv relay_defaults (tm_down s) \<and> relay_inv relay_defaults (tm_up s)"

lemma session_start: "session_inv cfg t (term_start cfg t)"
  by (simp add: session_inv_def term_start_def expiry_delay_def ping_interval_ms_def relay_inv_init)

text \<open>What every teardown gives, whatever socket closed.\<close>

lemma cleanup_inv: "session_inv cfg t0 s \<Longrightarrow> session_inv cfg t0 (cleanup_all s)"
  by (auto simp: session_inv_def close_defs relay_cleanup_inv)

lemma client_closed_inv: "session_inv cfg t0 s \<Longrightarrow> session_inv cfg t0 (cleanup_all (s\<lparr>tm_client := Closed\<rparr>))"
  by (auto simp: session_inv_def close_defs relay_cleanup_inv)

lemma quiet_polling:
  "(case c of Message d b \<Rightarrow> False | _ \<Rightarrow> True) \<Longrightarrow> \<not> rl_polling r \<Longrightarrow> \<not> rl_polling (relay_step grow opts c r)"
  by (cases c) (auto simp: relay_defs)

lemma overflow_inv:
  "session_inv cfg t0 s \<Longrightarrow> session_inv cfg t0 (end_for_overflow s)"
  by (auto simp: session_inv_def close_defs relay_cleanup_inv)

lemma down_inv:
  assumes "session_inv cfg t0 s" shows "session_inv cfg t0 (relay_down c grow s)"
proof -
  let ?r = "relay_step grow relay_defaults c ((tm_down s)\<lparr>rl_open := (tm_client s = Open)\<rparr>)"
  have "relay_inv relay_defaults ?r" using assms by (simp add: session_inv_def relay_step_inv)
  moreover have "tm_client s = Closed \<Longrightarrow> \<not> rl_polling ?r"
    using assms by (simp add: session_inv_def shut_polling)
  ultimately have "session_inv cfg t0 (s\<lparr>tm_down := ?r\<rparr>)" using assms by (auto simp: session_inv_def)
  then show ?thesis by (simp add: relay_down_def Let_def overflow_inv)
qed

lemma up_inv:
  assumes "session_inv cfg t0 s" and "tm_client s \<noteq> Closed \<or> (case c of Message d b \<Rightarrow> False | _ \<Rightarrow> True)"
  shows "session_inv cfg t0 (relay_up c grow s)"
proof -
  let ?r = "relay_step grow relay_defaults c ((tm_up s)\<lparr>rl_open := (tm_agent s = Open)\<rparr>)"
  have "relay_inv relay_defaults ?r" using assms by (simp add: session_inv_def relay_step_inv)
  moreover have "tm_client s = Closed \<Longrightarrow> \<not> rl_polling ?r"
    using assms by (intro quiet_polling) (auto simp: session_inv_def)
  ultimately have "session_inv cfg t0 (s\<lparr>tm_up := ?r\<rparr>)" using assms by (auto simp: session_inv_def)
  then show ?thesis by (simp add: relay_up_def Let_def overflow_inv)
qed

lemma step_session_inv: "term_step grow cfg e s t \<Longrightarrow> session_inv cfg t0 s \<Longrightarrow> session_inv cfg t0 t"
proof (induction rule: term_step.induct)
  case (from_client s d b)
  then show ?case by (intro up_inv) (auto simp: live_socket_def)
next
  case (client_closes s)
  then show ?case by (simp add: client_closed_inv)
next
  case (agent_closes s)
  then have "session_inv cfg t0 (s\<lparr>tm_agent := Closed\<rparr>)" by (auto simp: session_inv_def)
  then show ?case by (intro cleanup_inv) simp
next
  case (ping_fires s)
  then show ?case by (auto simp: session_inv_def on_ping_def ping_interval_ms_def)
next
  case (check_answers s a)
  then show ?case by (auto simp: session_inv_def on_check_def close_defs relay_cleanup_inv)
next
  case (expiry_fires s)
  then show ?case by (auto simp: session_inv_def on_expiry_def close_defs relay_cleanup_inv)
qed (auto intro: down_inv up_inv cleanup_inv simp: on_unexpected_response_def,
     auto simp: session_inv_def close_defs)

lemma run_session_inv: "term_run grow cfg s es t \<Longrightarrow> session_inv cfg t0 s \<Longrightarrow> session_inv cfg t0 t"
  by (induction rule: term_run.induct) (auto dest: step_session_inv)

lemma term_run_inv: "term_run grow cfg (term_start cfg t0) es s \<Longrightarrow> session_inv cfg t0 s"
  using run_session_inv session_start by blast

lemma expiry_delay_le: "of_int (t + expiry_delay e t) \<le> max e (of_int t + 1)"
proof -
  obtain k where k: "k = \<lfloor>min (e - of_int t) max_timeout_ms\<rfloor>" by simp
  have "(of_int k :: rat) \<le> e - of_int t"
    unfolding k by (rule order_trans[OF of_int_floor_le]) simp
  then have "of_int t + max 1 (of_int k) \<le> max e (of_int t + (1 :: rat))" by linarith
  then show ?thesis by (simp add: expiry_delay_def k[symmetric] of_int_max)
qed

text \<open>
  C31: A terminal session is watched as long as it is open. In every interleaving of the
  callbacks of its sockets, timers and queries, while the client socket is open its expiry
  timer and its ping are armed, the next ping is at most 30 seconds away, and the clock has
  not passed the expiry of the credential that opened the session (or one millisecond after
  its start). At most one close frame is ever sent, and after the client's close event no
  timer, ping or resume poll is left armed.
\<close>

theorem terminal_session_watched:
  assumes "term_run grow cfg (term_start cfg t0) es s"
  shows "(tm_client s = Open \<longrightarrow> tm_expiry s \<and> tm_ping s \<and> of_int (tm_now s) \<le> max (tc_exp cfg) (of_int t0 + 1)
            \<and> tm_now s \<le> tm_next_ping s \<and> tm_next_ping s \<le> tm_now s + 30000)
    \<and> length (tm_frames s) \<le> 1
    \<and> (tm_client s = Closed \<longrightarrow> \<not> tm_expiry s \<and> \<not> tm_ping s
          \<and> \<not> rl_polling (tm_down s) \<and> \<not> rl_polling (tm_up s))"
proof -
  have inv: "session_inv cfg t0 s" using assms by (rule term_run_inv)
  have "of_int (tm_now s) \<le> max (tc_exp cfg) (of_int t0 + 1)" if "tm_client s = Open"
  proof -
    have "tm_now s \<le> t0 + expiry_delay (tc_exp cfg) t0" using inv that by (auto simp: session_inv_def)
    then have "(of_int (tm_now s) :: rat) \<le> of_int (t0 + expiry_delay (tc_exp cfg) t0)" by simp
    then show ?thesis using expiry_delay_le order_trans by blast
  qed
  then show ?thesis using inv by (auto simp: session_inv_def ping_interval_ms_def)
qed

section \<open>Why a session ended\<close>

text \<open>What each close code says about the past, \<open>answers\<close> being the query answers seen.\<close>

definition reason_inv :: "term_cfg \<Rightarrow> bool option list \<Rightarrow> tsession \<Rightarrow> bool" where
  "reason_inv cfg answers s \<longleftrightarrow>
     (Some close_credential_expired \<in> set (tm_frames s) \<longrightarrow> tm_deadline s \<le> tm_now s) \<and>
     (Some close_access_revoked \<in> set (tm_frames s) \<longrightarrow> \<not> tc_admin cfg \<and> (\<exists>a \<in> set answers. a \<noteq> Some True)) \<and>
     (Some close_relay_overflow \<in> set (tm_frames s) \<longrightarrow> rl_overflows (tm_down s) @ rl_overflows (tm_up s) \<noteq> []) \<and>
     (\<forall>q \<in> set (rl_overflows (tm_down s) @ rl_overflows (tm_up s)). hard_cap relay_defaults < q) \<and>
     (0 < tm_checks s \<longrightarrow> \<not> tc_admin cfg)"

fun check_answers_of :: "tev list \<Rightarrow> bool option list" where
  "check_answers_of [] = []"
| "check_answers_of (CheckAnswers a # es) = a # check_answers_of es"
| "check_answers_of (_ # es) = check_answers_of es"

lemma check_answers_cons: "check_answers_of (e # es) = check_answers_of [e] @ check_answers_of es"
  by (cases e) auto

lemmas codes = close_credential_expired_def close_access_revoked_def close_relay_overflow_def

lemma overflow_grows:
  "rl_overflows (relay_step grow opts c r) \<noteq> rl_overflows r \<Longrightarrow> rl_overflows (relay_step grow opts c r) \<noteq> []"
  by (cases c) (auto simp: relay_defs split: if_splits)

lemma overflow_kept: "rl_overflows r \<noteq> [] \<Longrightarrow> rl_overflows (relay_step grow opts c r) \<noteq> []"
  by (cases c) (auto simp: relay_defs)

lemma overflow_over:
  "\<forall>q \<in> set (rl_overflows r). hard_cap opts < q \<Longrightarrow>
   \<forall>q \<in> set (rl_overflows (relay_step grow opts c r)). hard_cap opts < q"
  by (cases c) (auto simp: relay_defs)

lemma down_reason: "reason_inv cfg A s \<Longrightarrow> reason_inv cfg A (relay_down c grow s)"
  using overflow_grows[of grow relay_defaults c "(tm_down s)\<lparr>rl_open := (tm_client s = Open)\<rparr>"]
    overflow_kept[of "(tm_down s)\<lparr>rl_open := (tm_client s = Open)\<rparr>" grow relay_defaults c]
    overflow_over[of "(tm_down s)\<lparr>rl_open := (tm_client s = Open)\<rparr>" relay_defaults grow c]
  by (auto simp: reason_inv_def relay_down_def close_defs codes)

lemma up_reason: "reason_inv cfg A s \<Longrightarrow> reason_inv cfg A (relay_up c grow s)"
  using overflow_grows[of grow relay_defaults c "(tm_up s)\<lparr>rl_open := (tm_agent s = Open)\<rparr>"]
    overflow_kept[of "(tm_up s)\<lparr>rl_open := (tm_agent s = Open)\<rparr>" grow relay_defaults c]
    overflow_over[of "(tm_up s)\<lparr>rl_open := (tm_agent s = Open)\<rparr>" relay_defaults grow c]
  by (auto simp: reason_inv_def relay_up_def close_defs codes)

lemma cleanup_reason: "reason_inv cfg A s \<Longrightarrow> reason_inv cfg A (cleanup_all s)"
  by (auto simp: reason_inv_def close_defs)

lemma step_reason:
  "term_step grow cfg e s t \<Longrightarrow> reason_inv cfg A s \<Longrightarrow> reason_inv cfg (A @ check_answers_of [e]) t"
proof (induction rule: term_step.induct)
  case (check_answers s a)
  then show ?case
    by (cases a) (auto simp: reason_inv_def on_check_def still_authorised_def close_defs codes)
next
  case (ping_fires s)
  then show ?case by (auto simp: reason_inv_def on_ping_def)
next
  case (expiry_fires s)
  then show ?case by (auto simp: reason_inv_def on_expiry_def close_defs codes)
next
  case (agent_refuses s)
  then show ?case by (auto simp: reason_inv_def on_unexpected_response_def close_client_def codes)
next
  case (client_closes s)
  then have "reason_inv cfg A (s\<lparr>tm_client := Closed\<rparr>)" by (simp add: reason_inv_def)
  then show ?case by (simp add: cleanup_reason)
next
  case (agent_closes s)
  then have "reason_inv cfg A (s\<lparr>tm_agent := Closed\<rparr>)" by (simp add: reason_inv_def)
  then show ?case by (simp add: cleanup_reason)
next
  case (time_passes n s)
  then show ?case by (auto simp: reason_inv_def)
next
  case (agent_opens s)
  then show ?case by (simp add: reason_inv_def)
qed (simp_all add: down_reason up_reason cleanup_reason)

lemma run_reason:
  "term_run grow cfg s es t \<Longrightarrow> reason_inv cfg A s \<Longrightarrow> reason_inv cfg (A @ check_answers_of es) t"
proof (induction arbitrary: A rule: term_run.induct)
  case (run_nil s)
  then show ?case by simp
next
  case (run_cons e s t es u)
  from run_cons.IH[OF step_reason[OF run_cons.hyps(1) run_cons.prems]]
  show ?case by (simp add: check_answers_cons[of e es])
qed

text \<open>
  A close code tells the truth. When a session's client is sent 4002 the deadline of its
  credential has been reached; 4004 is sent only to a viewer that is not an admin and after a
  participation check that did not answer yes; 4003 only after a relay passed its hard cap.
\<close>

theorem terminal_close_reason:
  assumes "term_run grow cfg (term_start cfg t0) es s"
  shows "(Some 4002 \<in> set (tm_frames s) \<longrightarrow> t0 + expiry_delay (tc_exp cfg) t0 \<le> tm_now s)
    \<and> (Some 4004 \<in> set (tm_frames s) \<longrightarrow> \<not> tc_admin cfg \<and> (\<exists>a \<in> set (check_answers_of es). a \<noteq> Some True))
    \<and> (Some 4003 \<in> set (tm_frames s) \<longrightarrow>
         (\<exists>q \<in> set (rl_overflows (tm_down s) @ rl_overflows (tm_up s)). 8 * 1024 * 1024 < q))"
proof -
  have "reason_inv cfg [] (term_start cfg t0)" by (simp add: reason_inv_def term_start_def relay_init_def)
  then have "reason_inv cfg (check_answers_of es) s" using run_reason[OF assms, of "[]"] by simp
  moreover have "tm_deadline s = t0 + expiry_delay (tc_exp cfg) t0"
    using term_run_inv[OF assms] by (simp add: session_inv_def)
  ultimately show ?thesis 
    by (auto simp: reason_inv_def codes relay_defaults_def neq_Nil_conv)
qed

section \<open>A revoked viewer\<close>

text \<open>From \<open>t1\<close> on no check has answered yes: an open session has a ping by then or a check in flight.\<close>

definition watch_inv :: "int \<Rightarrow> tsession \<Rightarrow> bool" where
  "watch_inv t1 s = (tm_client s = Open \<longrightarrow> tm_next_ping s \<le> t1 + ping_interval_ms \<or> 0 < tm_checks s)"

lemma cleanup_ping [simp]:
  "tm_next_ping (cleanup_all s) = tm_next_ping s" "tm_checks (cleanup_all s) = tm_checks s"
  "tm_now (cleanup_all s) = tm_now s"
  by (simp_all add: close_defs)

lemma close_client_ping [simp]:
  "tm_next_ping (close_client c s) = tm_next_ping s" "tm_checks (close_client c s) = tm_checks s"
  by (simp_all add: close_client_def)

lemma cleanup_client [simp]: "tm_client (cleanup_all s) \<noteq> Open"
  by (simp add: close_defs)

lemma relay_ping [simp]:
  "tm_next_ping (relay_down c grow s) = tm_next_ping s" "tm_checks (relay_down c grow s) = tm_checks s"
  "tm_next_ping (relay_up c grow s) = tm_next_ping s" "tm_checks (relay_up c grow s) = tm_checks s"
  by (simp_all add: relay_down_def relay_up_def Let_def end_for_overflow_def)

lemma relay_client:
  "tm_client (relay_down c grow s) = Open \<Longrightarrow> tm_client s = Open"
  "tm_client (relay_up c grow s) = Open \<Longrightarrow> tm_client s = Open"
  by (auto simp: relay_down_def relay_up_def Let_def end_for_overflow_def split: if_splits)

lemma step_watch:
  "term_step grow cfg e s t \<Longrightarrow> \<not> tc_admin cfg \<Longrightarrow> Some True \<notin> set (check_answers_of [e]) \<Longrightarrow>
   watch_inv t1 s \<Longrightarrow> watch_inv t1 t"
proof (induction rule: term_step.induct)
  case (check_answers s a)
  then have "\<not> still_authorised a" by (cases a) (auto simp: still_authorised_def)
  then show ?case by (simp add: watch_inv_def on_check_def Let_def)
next
  case (agent_refuses s)
  then show ?case by (simp add: watch_inv_def on_unexpected_response_def close_client_def)
next
  case (ping_fires s)
  then show ?case by (simp add: watch_inv_def on_ping_def)
qed (auto simp: watch_inv_def on_expiry_def dest: relay_client)

lemma run_watch:
  "term_run grow cfg s es t \<Longrightarrow> \<not> tc_admin cfg \<Longrightarrow> Some True \<notin> set (check_answers_of es) \<Longrightarrow>
   watch_inv t1 s \<Longrightarrow> watch_inv t1 t"
proof (induction rule: term_run.induct)
  case (run_cons e s t es u)
  have "set (check_answers_of (e # es)) = set (check_answers_of [e]) \<union> set (check_answers_of es)"
    by (simp add: check_answers_cons[of e es])
  then show ?case using run_cons step_watch[of grow cfg e s t t1] by auto
qed

text \<open>
  C32: A revoked viewer is cut off within one ping. Take any session of a viewer that is not
  an admin, at any point of its life. If from there on no participation check answers yes
  (the viewer is not in the thread, or the database fails), more than 30 seconds pass, and
  no check is left unanswered, then the client socket is no longer open.
\<close>

theorem terminal_revocation_bounded:
  assumes "term_run grow cfg (term_start cfg t0) es s" and "term_run grow cfg s fs t"
    and "\<not> tc_admin cfg" and "Some True \<notin> set (check_answers_of fs)"
    and "tm_now s + 30000 < tm_now t" and "tm_checks t = 0"
  shows "tm_client t \<noteq> Open"
proof
  assume op: "tm_client t = Open"
  have s: "session_inv cfg t0 s" using assms(1) by (rule term_run_inv)
  then have t: "session_inv cfg t0 t" using run_session_inv[OF assms(2)] by blast
  have "watch_inv (tm_now s) s"
    using s by (auto simp: watch_inv_def session_inv_def)
  then have "watch_inv (tm_now s) t" using run_watch[OF assms(2-4)] by blast
  then show False using op t assms(5,6) by (auto simp: watch_inv_def session_inv_def ping_interval_ms_def)
qed

section \<open>The agentbox socket that is left behind\<close>

text \<open>Torn down on the client's side, with the agentbox socket open and nothing left to close it.\<close>

definition leaked :: "tsession \<Rightarrow> bool" where
  "leaked s = (tm_client s = Closed \<and> tm_agent s = Open \<and> \<not> tm_expiry s \<and> \<not> tm_ping s \<and> tm_checks s = 0
     \<and> \<not> rl_polling (tm_down s) \<and> \<not> rl_polling (tm_up s))"

lemma shut_message: "\<not> rl_open r \<Longrightarrow> on_message grow opts d b r = r"
  by (simp add: on_message_def)

lemma leak_stays:
  assumes "term_step grow cfg e s t" "leaked s" "e \<noteq> AgentCloses" "e \<noteq> AgentErrors" shows "leaked t"
  using assms
proof (induction rule: term_step.induct)
  case (from_agent s d b)
  then show ?case by (simp add: leaked_def relay_down_def Let_def shut_message)
next
  case (client_drains n s)
  then show ?case by (simp add: leaked_def relay_down_def Let_def)
next
  case (agent_drains n s)
  then show ?case by (simp add: leaked_def relay_up_def Let_def)
qed (auto simp: leaked_def live_socket_def)

lemma leak_run:
  "term_run grow cfg s es t \<Longrightarrow> leaked s \<Longrightarrow> list_all (\<lambda>e. e \<noteq> AgentCloses \<and> e \<noteq> AgentErrors) es \<Longrightarrow> leaked t"
  by (induction rule: term_run.induct) (auto dest: leak_stays)

text \<open>
  A terminal that is closed while the agentbox is still connecting leaves its socket
  behind. The teardown closes the agentbox socket only when it is open, so when the client
  goes first and the agentbox connects afterwards, the agentbox socket stays open: no timer,
  no check and no relay of the proxy is left that would close it, and whatever happens next,
  short of the agentbox closing or failing, it is still open.
\<close>

theorem terminal_upstream_leak:
  "\<exists>s. term_run grow cfg (term_start cfg t0) [ClientCloses, AgentOpens] s
     \<and> tm_client s = Closed \<and> tm_agent s = Open
     \<and> (\<forall>es t. term_run grow cfg s es t \<longrightarrow> list_all (\<lambda>e. e \<noteq> AgentCloses \<and> e \<noteq> AgentErrors) es
          \<longrightarrow> tm_agent t = Open)"
proof -
  let ?c = "cleanup_all ((term_start cfg t0)\<lparr>tm_client := Closed\<rparr>)"
  let ?s = "?c\<lparr>tm_agent := Open\<rparr>"
  have "term_step grow cfg ClientCloses (term_start cfg t0) ?c"
    by (rule client_closes) (simp add: term_start_def live_socket_def)
  moreover have "term_step grow cfg AgentOpens ?c ?s"
    by (rule agent_opens) (simp add: term_start_def close_defs)
  ultimately have run: "term_run grow cfg (term_start cfg t0) [ClientCloses, AgentOpens] ?s"
    by (rule run_cons[OF _ run_cons[OF _ run_nil]])
  have "leaked ?s" by (simp add: leaked_def term_start_def close_defs)
  then show ?thesis using run leak_run unfolding leaked_def by blast
qed

section \<open>The upgrade\<close>

lemma parse_thread_query:
  "parse_thread_id (Some u) = Some tid \<Longrightarrow> parse_thread_id (Some (u @ q)) = Some tid"
proof -
  assume a: "parse_thread_id (Some u) = Some tid"
  define r where "r = slice_from 14 u"
  have sw: "startsWith u ''/chat/threads/''" and i: "takeWhile (\<lambda>c. c \<noteq> CHR ''/'') r = tid" "tid \<noteq> []"
    and t: "startsWith (dropWhile (\<lambda>c. c \<noteq> CHR ''/'') r) ''/terminal''"
    using a by (auto simp: parse_thread_id_def r_def Let_def split: if_splits)
  have "length ''/chat/threads/'' = 14" by simp
  then have u: "u = ''/chat/threads/'' @ r" using startsWith_slice[OF sw] unfolding r_def by metis
  from t obtain z where z: "dropWhile (\<lambda>c. c \<noteq> CHR ''/'') r = ''/terminal'' @ z" by (auto simp: startsWith_iff)
  have r: "r = tid @ ''/terminal'' @ z" using i(1) z by (metis takeWhile_dropWhile_id)
  have no: "\<forall>c \<in> set tid. c \<noteq> CHR ''/''" using i(1) by (metis set_takeWhileD)
  have tw: "takeWhile (\<lambda>c. c \<noteq> CHR ''/'') (tid @ ''/terminal'' @ y) = tid"
    and dw: "dropWhile (\<lambda>c. c \<noteq> CHR ''/'') (tid @ ''/terminal'' @ y) = ''/terminal'' @ y" for y
    using no by (simp_all add: takeWhile_append2 dropWhile_append2)
  have "slice_from 14 (u @ q) = tid @ ''/terminal'' @ z @ q" by (simp add: u r slice_from_def)
  moreover have "startsWith (u @ q) ''/chat/threads/''" by (simp add: u startsWith_def)
  ultimately show ?thesis using i(2) tw[of "z @ q"] dw[of "z @ q"]
    by (simp add: parse_thread_id_def startsWith_def)
qed

lemma request_token_url: "request_token (req\<lparr>tq_url := x\<rparr>) = request_token req"
proof -
  have "tq_auth (req\<lparr>tq_url := x\<rparr>) = tq_auth req" "tq_protocols (req\<lparr>tq_url := x\<rparr>) = tq_protocols req" by simp_all
  then show ?thesis unfolding request_token_def by (simp only:)
qed

text \<open>A query that succeeds saw the database as it is.\<close>

lemma term_query_ok: "term_query env tid f w = (Inr x, w') \<Longrightarrow>
   \<exists>u. te_uuid env tid = Some u \<and> x = f u (db w) \<and> db w' = db w"
  by (auto simp: term_query_def db_query_def Let_def split: list.splits bool.splits option.splits)

lemma resolved_accepts:
  assumes "upgrade_resolved env tid user e w = (Inr (Accepted cfg), w')"
  shows "\<exists>u. te_uuid env tid = Some u \<and> tc_thread cfg = tid \<and> tc_sub cfg = tp_sub user \<and> tc_exp cfg = e
    \<and> tc_admin cfg = terminal_is_admin user
    \<and> (terminal_is_admin user \<or> terminal_human (tp_sub user) u (db w))
    \<and> (\<exists>a \<in> set (running_agents u (db w)). tc_url cfg = agent_ws_url a)"
proof -
  let ?m = "if terminal_is_admin user then ret True else terminal_is_participant env tid (tp_sub user)"
  obtain ok w1 where 1: "?m w = (Inr ok, w1)"
      and 2: "(if \<not> ok then ret (Refused 403) else eff_bind (resolve_agent_ws_url env tid) (\<lambda>url.
              case url of None \<Rightarrow> ret (Refused 404)
              | Some v \<Rightarrow> ret (Accepted \<lparr>tc_thread = tid, tc_sub = tp_sub user,
                           tc_admin = terminal_is_admin user, tc_exp = e, tc_url = v\<rparr>))) w1 = (Inr (Accepted cfg), w')"
    using assms unfolding upgrade_resolved_def eff_bind_def by (auto split: prod.splits sum.splits)
  have ok: ok using 2 by (cases ok) (auto simp: ret_def)
  then obtain url w2 where 3: "resolve_agent_ws_url env tid w1 = (Inr url, w2)"
      and 4: "(case url of None \<Rightarrow> ret (Refused 404)
              | Some v \<Rightarrow> ret (Accepted \<lparr>tc_thread = tid, tc_sub = tp_sub user,
                           tc_admin = terminal_is_admin user, tc_exp = e, tc_url = v\<rparr>)) w2 = (Inr (Accepted cfg), w')"
    using 2 unfolding eff_bind_def by (auto split: prod.splits sum.splits)
  then obtain v where v: "url = Some v" "cfg = \<lparr>tc_thread = tid, tc_sub = tp_sub user,
      tc_admin = terminal_is_admin user, tc_exp = e, tc_url = v\<rparr>"
    by (cases url) (auto simp: ret_def)
  obtain u where u: "te_uuid env tid = Some u"
      "url = (let rows = running_agents u (db w1) in
         if rows = [] then None else Some (agent_ws_url (rows ! (te_pick env mod length rows))))"
    using term_query_ok[OF 3[unfolded resolve_agent_ws_url_def]] by blast
  then have a: "\<exists>a \<in> set (running_agents u (db w1)). v = agent_ws_url a"
    using v(1) by (auto simp: Let_def split: if_splits)
  have "db w1 = db w \<and> (terminal_is_admin user \<or> terminal_human (tp_sub user) u (db w))"
    using 1 ok u(1) term_query_ok[of env tid "terminal_human (tp_sub user)" w ok w1]
    by (auto simp: ret_def terminal_is_participant_def split: if_splits)
  then show ?thesis using u(1) v a by auto
qed

text \<open>
  C30: Nobody gets a terminal without every check. Whatever queries fail, an accepted upgrade
  came from an origin that is an entry of the allowlist, with a token from the protocol or
  the authorization header that the verifier accepted and whose expiry lies ahead, for an
  admin or a human participant of the thread, and it leads to a running agent of that
  thread. A request from any other origin is answered 403 whatever its token is, and the
  query string of the URL plays no part.
\<close>

theorem terminal_upgrade_admits:
  assumes "terminal_upgrade env req w = (Inr (Accepted cfg), w')"
  shows "(\<exists>o' t user u. tq_origin req = Some o' \<and> o' \<noteq> [] \<and> o' \<in> set (allowed_origins (te_origins env))
      \<and> request_token req = Some t \<and> te_verify env t = Some user
      \<and> expires_at_ms user = Fin (tc_exp cfg) \<and> of_int (te_now env) < tc_exp cfg
      \<and> te_uuid env (tc_thread cfg) = Some u
      \<and> (Str ''admin'' \<in> set (tp_roles user) \<or> terminal_human (tp_sub user) u (db w))
      \<and> (\<exists>a \<in> set (running_agents u (db w)). tc_url cfg = agent_ws_url a))
    \<and> (evil \<notin> set (allowed_origins (te_origins env)) \<longrightarrow>
        fst (terminal_upgrade env (req\<lparr>tq_origin := Some evil, tq_protocols := p, tq_auth := a\<rparr>) w) = Inr (Refused 403))
    \<and> terminal_upgrade env (req\<lparr>tq_url := map_option (\<lambda>x. x @ q) (tq_url req)\<rparr>) w = terminal_upgrade env req w"
proof -
  obtain tid where tid: "parse_thread_id (tq_url req) = Some tid"
    using assms by (auto simp: terminal_upgrade_def ret_def split: option.splits)
  have c: "upgrade_checked env req tid w = (Inr (Accepted cfg), w')"
    using assms tid by (auto simp: terminal_upgrade_def eff_catch_def ret_def split: prod.splits sum.splits)
  then have org: "is_origin_allowed (te_origins env) (tq_origin req)"
    by (auto simp: upgrade_checked_def ret_def split: if_splits)
  with c obtain t where t: "request_token req = Some t"
    by (auto simp: upgrade_checked_def ret_def split: option.splits)
  with c org obtain user where user: "te_verify env t = Some user"
    by (auto simp: upgrade_checked_def ret_def split: option.splits)
  with c org t obtain e where e: "expires_at_ms user = Fin e" "\<not> e \<le> of_int (te_now env)"
      and r: "upgrade_resolved env tid user e w = (Inr (Accepted cfg), w')"
    by (auto simp: upgrade_checked_def ret_def split: jsnum.splits if_splits)
  obtain u where u: "te_uuid env tid = Some u" "tc_thread cfg = tid" "tc_exp cfg = e"
      "terminal_is_admin user \<or> terminal_human (tp_sub user) u (db w)"
      "\<exists>a \<in> set (running_agents u (db w)). tc_url cfg = agent_ws_url a"
    using resolved_accepts[OF r] by blast
  have "\<exists>o'. tq_origin req = Some o' \<and> o' \<noteq> [] \<and> o' \<in> set (allowed_origins (te_origins env))"
    using org by (auto simp: is_origin_allowed_def split: option.splits)
  then have 1: "\<exists>o' t user u. tq_origin req = Some o' \<and> o' \<noteq> [] \<and> o' \<in> set (allowed_origins (te_origins env))
      \<and> request_token req = Some t \<and> te_verify env t = Some user
      \<and> expires_at_ms user = Fin (tc_exp cfg) \<and> of_int (te_now env) < tc_exp cfg
      \<and> te_uuid env (tc_thread cfg) = Some u
      \<and> (Str ''admin'' \<in> set (tp_roles user) \<or> terminal_human (tp_sub user) u (db w))
      \<and> (\<exists>a \<in> set (running_agents u (db w)). tc_url cfg = agent_ws_url a)"
    using t user e u unfolding terminal_is_admin_def by (metis linorder_not_le)
  have 2: "evil \<notin> set (allowed_origins (te_origins env)) \<longrightarrow>
        fst (terminal_upgrade env (req\<lparr>tq_origin := Some evil, tq_protocols := p, tq_auth := a\<rparr>) w) = Inr (Refused 403)"
    using tid by (simp add: terminal_upgrade_def upgrade_checked_def is_origin_allowed_def eff_catch_def ret_def)
  obtain u0 where u0: "tq_url req = Some u0" using tid by (cases "tq_url req") (auto simp: parse_thread_id_def)
  have "parse_thread_id (Some (u0 @ q)) = Some tid" using tid u0 parse_thread_query by simp
  moreover have "upgrade_checked env (req\<lparr>tq_url := Some (u0 @ q)\<rparr>) tid = upgrade_checked env req tid"
    by (simp add: upgrade_checked_def request_token_url)
  ultimately have 3: "terminal_upgrade env (req\<lparr>tq_url := map_option (\<lambda>x. x @ q) (tq_url req)\<rparr>) w = terminal_upgrade env req w"
    using tid u0 by (simp add: terminal_upgrade_def)
  show ?thesis using 1 2 3 by blast
qed

text \<open>A computation that reads the same in two databases and changes neither.\<close>

definition agrees :: "'d \<Rightarrow> 'd \<Rightarrow> ('d, 'a) eff \<Rightarrow> bool" where
  "agrees d d' m = (\<forall>fs. \<exists>r fs'. m \<lparr>faults = fs, db = d\<rparr> = (r, \<lparr>faults = fs', db = d\<rparr>)
                             \<and> m \<lparr>faults = fs, db = d'\<rparr> = (r, \<lparr>faults = fs', db = d'\<rparr>))"

lemma agrees_ret: "agrees d d' (ret x)"
  by (simp add: agrees_def ret_def)

lemma agrees_bind:
  assumes "agrees d d' m" "\<And>x. agrees d d' (f x)" shows "agrees d d' (eff_bind m f)"
  unfolding agrees_def
proof
  fix fs
  obtain r fs' where 1: "m \<lparr>faults = fs, db = d\<rparr> = (r, \<lparr>faults = fs', db = d\<rparr>)"
      "m \<lparr>faults = fs, db = d'\<rparr> = (r, \<lparr>faults = fs', db = d'\<rparr>)"
    using assms(1) unfolding agrees_def by blast
  show "\<exists>r fs'. eff_bind m f \<lparr>faults = fs, db = d\<rparr> = (r, \<lparr>faults = fs', db = d\<rparr>)
      \<and> eff_bind m f \<lparr>faults = fs, db = d'\<rparr> = (r, \<lparr>faults = fs', db = d'\<rparr>)"
  proof (cases r)
    case (Inr x)
    obtain r2 fs2 where "f x \<lparr>faults = fs', db = d\<rparr> = (r2, \<lparr>faults = fs2, db = d\<rparr>)"
        "f x \<lparr>faults = fs', db = d'\<rparr> = (r2, \<lparr>faults = fs2, db = d'\<rparr>)"
      using assms(2)[of x] unfolding agrees_def by blast
    then show ?thesis using 1 Inr by (simp add: eff_bind_def)
  qed (use 1 in \<open>simp add: eff_bind_def\<close>)
qed

lemma agrees_catch_ret: "agrees d d' m \<Longrightarrow> agrees d d' (eff_catch m (\<lambda>_. ret x))"
  unfolding agrees_def
proof
  fix fs
  assume "\<forall>fs. \<exists>r fs'. m \<lparr>faults = fs, db = d\<rparr> = (r, \<lparr>faults = fs', db = d\<rparr>)
      \<and> m \<lparr>faults = fs, db = d'\<rparr> = (r, \<lparr>faults = fs', db = d'\<rparr>)"
  then obtain r fs' where "m \<lparr>faults = fs, db = d\<rparr> = (r, \<lparr>faults = fs', db = d\<rparr>)"
      "m \<lparr>faults = fs, db = d'\<rparr> = (r, \<lparr>faults = fs', db = d'\<rparr>)" by blast
  then show "\<exists>r fs'. eff_catch m (\<lambda>_. ret x) \<lparr>faults = fs, db = d\<rparr> = (r, \<lparr>faults = fs', db = d\<rparr>)
      \<and> eff_catch m (\<lambda>_. ret x) \<lparr>faults = fs, db = d'\<rparr> = (r, \<lparr>faults = fs', db = d'\<rparr>)"
    by (cases r) (auto simp: eff_catch_def ret_def)
qed

lemma agrees_query:
  assumes "\<And>u. f u d = f u d'" shows "agrees d d' (term_query env tid f)"
  using assms unfolding agrees_def term_query_def db_query_def
  by (auto simp: Let_def split: list.splits bool.splits option.splits)

lemma agrees_upgrade:
  assumes "\<And>u. running_agents u d = running_agents u d'" "\<And>sub u. terminal_human sub u d = terminal_human sub u d'"
  shows "agrees d d' (terminal_upgrade env req)"
proof -
  have "agrees d d' (upgrade_resolved env tid user e)" for tid user e
    unfolding upgrade_resolved_def terminal_is_participant_def resolve_agent_ws_url_def
    by (intro agrees_bind) (auto intro!: agrees_ret agrees_query agrees_bind simp: assms split: option.splits)
  then have "agrees d d' (upgrade_checked env req tid)" for tid
    unfolding upgrade_checked_def by (auto intro: agrees_ret split: option.splits jsnum.splits)
  then show ?thesis
    unfolding terminal_upgrade_def by (auto intro: agrees_ret agrees_catch_ret split: option.splits)
qed

lemma running_agents_left:
  "running_agents u (d\<lparr>d_parts := map (\<lambda>p. if P p then p\<lparr>p_left := z\<rparr> else p) (d_parts d)\<rparr>) = running_agents u d"
proof -
  have "map p_id (filter (\<lambda>p. p_thread p = u \<and> p_kind p = Agent) (map (\<lambda>p. if P p then p\<lparr>p_left := z\<rparr> else p) ps))
      = map p_id (filter (\<lambda>p. p_thread p = u \<and> p_kind p = Agent) ps)" for ps
    by (induction ps) auto
  then show ?thesis by (simp add: running_agents_def)
qed

lemma terminal_human_left:
  "terminal_human sub u (d\<lparr>d_parts := map (\<lambda>p. if P p then p\<lparr>p_left := z\<rparr> else p) (d_parts d)\<rparr>) = terminal_human sub u d"
proof -
  have "(\<exists>p \<in> set (map (\<lambda>p. if P p then p\<lparr>p_left := z\<rparr> else p) ps). p_thread p = u \<and> p_id p = sub \<and> p_kind p = Human)
      = (\<exists>p \<in> set ps. p_thread p = u \<and> p_id p = sub \<and> p_kind p = Human)" for ps
    by (induction ps) auto
  then show ?thesis by (simp add: terminal_human_def)
qed

text \<open>
  An agent that left the thread keeps its terminal. The participation and agent queries
  of the upgrade do not look at \<open>left_at\<close>: after an agent is removed from a thread, every
  upgrade request has the same outcome as before, so its shell is still offered to the
  thread's participants as long as its container runs.
\<close>

theorem terminal_reaches_removed_agent:
  "case participant_leave cenv tid v d of
     Inl _ \<Rightarrow> True
   | Inr (_, d') \<Rightarrow> fst (terminal_upgrade env req \<lparr>faults = fs, db = d'\<rparr>) = fst (terminal_upgrade env req \<lparr>faults = fs, db = d\<rparr>)"
proof (cases "participant_leave cenv tid v d")
  case (Inr r)
  then obtain P z where d': "snd r = d\<lparr>d_parts := map (\<lambda>p. if P p then p\<lparr>p_left := z\<rparr> else p) (d_parts d)\<rparr>"
    by (auto simp: participant_leave_def split: sum.splits)
  have "agrees d (snd r) (terminal_upgrade env req)"
    unfolding d' by (rule agrees_upgrade) (simp_all add: running_agents_left terminal_human_left)
  then have "fst (terminal_upgrade env req \<lparr>faults = fs, db = snd r\<rparr>) = fst (terminal_upgrade env req \<lparr>faults = fs, db = d\<rparr>)"
    unfolding agrees_def by (metis fst_conv)
  then show ?thesis using Inr by (cases r) simp
qed simp

section \<open>Witnesses\<close>

definition demo_cfg :: term_cfg where
  "demo_cfg = \<lparr>tc_thread = ''t1'', tc_sub = ''u1'', tc_admin = False, tc_exp = 600000, tc_url = ''ws://agentbox-box''\<rparr>"

definition pinged :: tsession where
  "pinged = on_ping demo_cfg ((term_start demo_cfg 0)\<lparr>tm_now := 30000\<rparr>)"

lemma demo_delay: "expiry_delay 600000 0 = 600000"
  by (simp add: expiry_delay_def max_timeout_ms_def)

lemma demo_pinged: "term_run queue_plus demo_cfg (term_start demo_cfg 0) [Passes 30000, PingFires] pinged"
proof -
  have "term_step queue_plus demo_cfg (Passes 30000) (term_start demo_cfg 0) ((term_start demo_cfg 0)\<lparr>tm_now := 30000\<rparr>)"
    by (simp add: passes_iff term_start_def demo_cfg_def demo_delay ping_interval_ms_def)
  moreover have "term_step queue_plus demo_cfg PingFires ((term_start demo_cfg 0)\<lparr>tm_now := 30000\<rparr>) pinged"
    unfolding pinged_def by (rule ping_fires) (simp_all add: term_start_def ping_interval_ms_def)
  ultimately show ?thesis by (rule run_cons[OF _ run_cons[OF _ run_nil]])
qed

lemma demo_check: "term_step queue_plus demo_cfg (CheckAnswers a) pinged (on_check a pinged)"
  by (rule check_answers) (simp add: pinged_def on_ping_def demo_cfg_def)

lemma demo_refused:
  "term_run queue_plus demo_cfg pinged [CheckAnswers None, Passes 1] ((on_check None pinged)\<lparr>tm_now := 30001\<rparr>)"
proof -
  have "term_step queue_plus demo_cfg (Passes 1) (on_check None pinged) ((on_check None pinged)\<lparr>tm_now := 30001\<rparr>)"
    by (simp add: passes_iff on_check_def still_authorised_def pinged_def on_ping_def term_start_def close_defs)
  then show ?thesis by (rule run_cons[OF demo_check run_cons[OF _ run_nil]])
qed

lemma term_run_append: "term_run grow cfg s es t \<Longrightarrow> term_run grow cfg t fs u \<Longrightarrow> term_run grow cfg s (es @ fs) u"
  by (induction rule: term_run.induct) (auto intro: run_cons)

theorem terminal_session_watched_witness:
  "tm_client pinged = Open \<and> tm_expiry pinged \<and> tm_ping pinged \<and> tm_next_ping pinged = 60000"
  using terminal_session_watched[OF demo_pinged]
  by (simp add: pinged_def on_ping_def term_start_def ping_interval_ms_def)

theorem terminal_close_reason_witness:
  "tm_frames ((on_check None pinged)\<lparr>tm_now := 30001\<rparr>) = [Some 4004] \<and> \<not> tc_admin demo_cfg"
  using terminal_close_reason[OF term_run_append[OF demo_pinged demo_refused]]
  by (simp add: on_check_def still_authorised_def pinged_def on_ping_def term_start_def close_defs codes)

theorem terminal_revocation_bounded_witness:
  "tm_client ((on_check None pinged)\<lparr>tm_now := 30001\<rparr>) \<noteq> Open"
  by (rule terminal_revocation_bounded[OF run_nil term_run_append[OF demo_pinged demo_refused]])
     (simp_all add: demo_cfg_def term_start_def on_check_def still_authorised_def pinged_def on_ping_def close_defs)

theorem terminal_upstream_leak_witness:
  "\<exists>s. term_run queue_plus demo_cfg (term_start demo_cfg 0) [ClientCloses, AgentOpens] s \<and> tm_agent s = Open"
  using terminal_upstream_leak[of queue_plus demo_cfg 0] by blast

definition demo_term_env :: term_env where
  "demo_term_env = \<lparr>te_origins = Some ''https://hill90.com, https://x.io'',
     te_verify = (\<lambda>t. if t = ''jwt'' then Some \<lparr>tp_sub = ''u1'', tp_roles = [Str ''user''], tp_exp = Fin 0\<rparr> else None),
     te_uuid = Some, te_pick = 7, te_now = - 5\<rparr>"

definition demo_term_req :: term_req where
  "demo_term_req = \<lparr>tq_url = Some ''/chat/threads/t1/terminal'', tq_origin = Some ''https://x.io'',
     tq_protocols = Some ''hill90.terminal.v1, hill90.bearer.jwt'', tq_auth = None\<rparr>"

definition demo_term_db :: chat_db where
  "demo_term_db = \<lparr>d_threads = [], d_parts = [
       \<lparr>p_thread = ''t1'', p_id = ''u1'', p_kind = Human, p_role = Owner, p_joined = 0, p_left = None\<rparr>,
       \<lparr>p_thread = ''t1'', p_id = ''a1'', p_kind = Agent, p_role = Member, p_joined = 0, p_left = Some 3\<rparr>],
     d_msgs = [], d_agents = [\<lparr>a_id = ''a1'', a_slug = ''box'', a_name = ''Box'', a_status = ''running'',
       a_work_token = Some ''w'', a_models = Null, a_scopes = [], a_owner = None\<rparr>],
     d_seq = 0, d_ids = 0, d_outbox = []\<rparr>"

definition demo_accepted :: term_cfg where
  "demo_accepted = \<lparr>tc_thread = ''t1'', tc_sub = ''u1'', tc_admin = False, tc_exp = 0,
     tc_url = ''ws://agentbox-box:8054/terminal/ws?token=w''\<rparr>"

lemma demo_upgrade: "terminal_upgrade demo_term_env demo_term_req \<lparr>faults = [], db = demo_term_db\<rparr>
   = (Inr (Accepted demo_accepted), \<lparr>faults = [], db = demo_term_db\<rparr>)"
proof -
  have 1: "parse_thread_id (tq_url demo_term_req) = Some ''t1''" by code_simp
  have 2: "request_token demo_term_req = Some ''jwt''" by code_simp
  have 3: "is_origin_allowed (te_origins demo_term_env) (tq_origin demo_term_req)" by code_simp
  have 4: "te_verify demo_term_env ''jwt'' = Some \<lparr>tp_sub = ''u1'', tp_roles = [Str ''user''], tp_exp = Fin 0\<rparr>"
    "te_uuid demo_term_env = Some" "te_now demo_term_env = - 5" "te_pick demo_term_env = 7"
    by (simp_all add: demo_term_env_def)
  have 5: "expires_at_ms \<lparr>tp_sub = ''u1'', tp_roles = [Str ''user''], tp_exp = Fin 0\<rparr> = Fin 0"
    by (simp add: expires_at_ms_def to_num_def f64_def)
  have 6: "terminal_human ''u1'' ''t1'' demo_term_db" by (simp add: terminal_human_def demo_term_db_def)
  have 7: "map agent_ws_url (running_agents ''t1'' demo_term_db) = [''ws://agentbox-box:8054/terminal/ws?token=w'']"
    by (simp add: running_agents_def demo_term_db_def agent_ws_url_def)
  then obtain a where a: "running_agents ''t1'' demo_term_db = [a]" "agent_ws_url a = ''ws://agentbox-box:8054/terminal/ws?token=w''"
    by (cases "running_agents ''t1'' demo_term_db") auto
  show ?thesis
    by (simp add: terminal_upgrade_def 1 upgrade_checked_def 2 3 4 5 upgrade_resolved_def terminal_is_admin_def
        terminal_is_participant_def resolve_agent_ws_url_def term_query_def db_query_def 6 a
        eff_catch_def eff_bind_def ret_def demo_accepted_def Let_def)
qed

theorem terminal_upgrade_admits_witness:
  "fst (terminal_upgrade demo_term_env (demo_term_req\<lparr>tq_origin := Some ''https://evil.io'',
      tq_protocols := Some ''hill90.bearer.jwt'', tq_auth := None\<rparr>) \<lparr>faults = [], db = demo_term_db\<rparr>) = Inr (Refused 403)"
proof -
  have "''https://evil.io'' \<notin> set (allowed_origins (te_origins demo_term_env))" by code_simp
  then show ?thesis using terminal_upgrade_admits[OF demo_upgrade] by blast
qed

end
