(* ===== verification/Encoding.thy ===== *)
theory Encoding
  imports Binary64
begin

text \<open>
  The codecs of the standard library that tokens are made of: base64url as Node's \<open>Buffer\<close>
  reads and writes it, and JSON (\<open>JSON.stringify\<close>, \<open>JSON.parse\<close>). Texts are their UTF-8
  bytes. The interface \<open>codec\<close> says that decoding inverts encoding; both are instances, and
  the composition of two is one.
\<close>

section \<open>Interface: a codec\<close>

locale codec =
  fixes enc :: "'a \<Rightarrow> 'b" and dec :: "'b \<Rightarrow> 'a option" and ok :: "'a \<Rightarrow> bool"
  assumes dec_enc: "ok x \<Longrightarrow> dec (enc x) = Some x"
begin

lemma enc_inj: "ok x \<Longrightarrow> ok y \<Longrightarrow> enc x = enc y \<Longrightarrow> x = y"
  by (metis dec_enc option.inject)

end

locale codec_chain = inner: codec enc1 dec1 ok1 + outer: codec enc2 dec2 ok2
  for enc1 :: "'a \<Rightarrow> 'b" and dec1 ok1 and enc2 :: "'b \<Rightarrow> 'c" and dec2 ok2 +
  assumes fits: "ok1 x \<Longrightarrow> ok2 (enc1 x)"
begin

lemma chain: "ok1 x \<Longrightarrow> Option.bind (dec2 (enc2 (enc1 x))) dec1 = Some x"
  by (simp add: fits inner.dec_enc outer.dec_enc)

end

sublocale codec_chain \<subseteq> whole: codec "\<lambda>x. enc2 (enc1 x)" "\<lambda>y. Option.bind (dec2 y) dec1" ok1
  by unfold_locales (rule chain)

section \<open>base64url\<close>

definition b64_alphabet :: string where
  "b64_alphabet = ''ABCDEFGHIJKLMNOPQRSTUVWXYZabcdefghijklmnopqrstuvwxyz0123456789-_''"

definition b64_char :: "nat \<Rightarrow> char" where
  "b64_char n = b64_alphabet ! n"

text \<open>The decoder takes both alphabets and skips every other character.\<close>

definition b64_val :: "char \<Rightarrow> nat option" where
  "b64_val c = (let n = of_char c :: nat in
     if 65 \<le> n \<and> n \<le> 90 then Some (n - 65)
     else if 97 \<le> n \<and> n \<le> 122 then Some (n - 71)
     else if 48 \<le> n \<and> n \<le> 57 then Some (n + 4)
     else if c = CHR ''-'' \<or> c = CHR ''+'' then Some 62
     else if c = CHR ''_'' \<or> c = CHR ''/'' then Some 63 else None)"

fun b64_sextets :: "nat list \<Rightarrow> nat list" where
  "b64_sextets [] = []"
| "b64_sextets [a] = [a div 4, a mod 4 * 16]"
| "b64_sextets [a, b] = [a div 4, a mod 4 * 16 + b div 16, b mod 16 * 4]"
| "b64_sextets (a # b # c # r) =
     a div 4 # (a mod 4 * 16 + b div 16) # (b mod 16 * 4 + c div 64) # c mod 64 # b64_sextets r"

fun b64_bytes :: "nat list \<Rightarrow> nat list" where
  "b64_bytes (w # x # y # z # r) =
     (w * 4 + x div 16) # (x mod 16 * 16 + y div 4) # (y mod 4 * 64 + z) # b64_bytes r"
| "b64_bytes [w, x, y] = [w * 4 + x div 16, x mod 16 * 16 + y div 4]"
| "b64_bytes [w, x] = [w * 4 + x div 16]"
| "b64_bytes _ = []"

definition base64url :: "string \<Rightarrow> string" where
  "base64url s = map b64_char (b64_sextets (map of_char s))"

definition from_base64url :: "string \<Rightarrow> string" where
  "from_base64url s = map char_of (b64_bytes (List.map_filter b64_val s))"

lemma b64_alphabet_length: "length b64_alphabet = 64"
  by (simp add: b64_alphabet_def)

lemma b64_alphabet_vals: "map b64_val b64_alphabet = map Some [0..<64]"
  by (simp add: b64_alphabet_def b64_val_def upt_conv_Cons)

lemma b64_val_char: "n < 64 \<Longrightarrow> b64_val (b64_char n) = Some n"
  using arg_cong[OF b64_alphabet_vals, of "\<lambda>xs. xs ! n"] by (simp add: b64_char_def b64_alphabet_length)

lemma packed:
  fixes m d k :: nat
  assumes "d < k" shows "(m * k + d) div k = m" "(m * k + d) mod k = d" "m < n \<Longrightarrow> m * k + d < n * k"
proof -
  show "(m * k + d) div k = m" "(m * k + d) mod k = d" using assms by simp_all
  assume "m < n"
  then have "Suc m * k \<le> n * k" by (intro mult_le_mono1) simp
  then show "m * k + d < n * k" using assms by simp
qed

lemma high_bits:
  fixes a :: nat
  shows "a < 256 \<Longrightarrow> a div 4 < 64" "a < 256 \<Longrightarrow> a div 16 < 16" "a < 256 \<Longrightarrow> a div 64 < 4"
  by (simp_all add: less_mult_imp_div_less)

lemma mid_sextets:
  fixes a b c :: nat
  shows "b < 256 \<Longrightarrow> a mod 4 * 16 + b div 16 < 64" "c < 256 \<Longrightarrow> b mod 16 * 4 + c div 64 < 64"
  using packed(3)[of "b div 16" 16 "a mod 4" 4] packed(3)[of "c div 64" 4 "b mod 16" 16] high_bits by simp_all

lemma last_sextets:
  fixes a :: nat
  shows "a mod 4 * 16 < 64" "a mod 16 * 4 < 64" "a mod 64 < 64"
  using packed(3)[of 0 16 "a mod 4" 4] packed(3)[of 0 4 "a mod 16" 16] by simp_all

lemma b64_sextets_lt: "\<forall>a \<in> set bs. a < 256 \<Longrightarrow> \<forall>n \<in> set (b64_sextets bs). n < 64"
proof (induction bs rule: b64_sextets.induct)
  case (4 a b c r)
  then have "a < 256" "b < 256" "c < 256" "\<forall>n \<in> set (b64_sextets r). n < 64" by simp_all
  then show ?case using high_bits(1)[of a] mid_sextets(1)[of b a] mid_sextets(2)[of c b] last_sextets(3)[of c] by simp
next
  case (2 a)
  then show ?case using high_bits(1)[of a] last_sextets(1)[of a] by simp
next
  case (3 a b)
  then show ?case using high_bits(1)[of a] mid_sextets(1)[of b a] last_sextets(2)[of b] by simp
qed simp

lemma octet_join:
  fixes a b c :: nat
  shows "b < 256 \<Longrightarrow> a div 4 * 4 + (a mod 4 * 16 + b div 16) div 16 = a"
    and "b < 256 \<Longrightarrow> c < 256 \<Longrightarrow> (a mod 4 * 16 + b div 16) mod 16 * 16 + (b mod 16 * 4 + c div 64) div 4 = b"
    and "c < 256 \<Longrightarrow> (b mod 16 * 4 + c div 64) mod 4 * 64 + c mod 64 = c"
  by (simp_all only: packed(1,2)[OF high_bits(2)] packed(1,2)[OF high_bits(3)] div_mult_mod_eq)

lemma b64_bytes_sextets: "\<forall>a \<in> set bs. a < 256 \<Longrightarrow> b64_bytes (b64_sextets bs) = bs"
proof (induction bs rule: b64_sextets.induct)
  case (4 a b c r)
  then have "b < 256" "c < 256" "b64_bytes (b64_sextets r) = r" by simp_all
  then show ?case by (simp only: b64_sextets.simps b64_bytes.simps octet_join)
next
  case (2 a)
  show ?case using octet_join(1)[of 0 a] by (simp only: b64_sextets.simps b64_bytes.simps) simp
next
  case (3 a b)
  then have "b < 256" by simp
  then show ?case using octet_join(1)[of b a] octet_join(2)[of b 0 a]
    by (simp only: b64_sextets.simps b64_bytes.simps) simp
qed simp

lemma map_filter_inverse: "(\<And>x. x \<in> set xs \<Longrightarrow> f (g x) = Some x) \<Longrightarrow> List.map_filter f (map g xs) = xs"
  by (induction xs) (auto simp: List.map_filter_simps)

lemma base64url_roundtrip: "from_base64url (base64url s) = s"
proof -
  have lt: "\<forall>a \<in> set (map of_char s). a < (256 :: nat)" by auto
  have "List.map_filter b64_val (base64url s) = b64_sextets (map of_char s)"
    unfolding base64url_def using b64_sextets_lt[OF lt] by (intro map_filter_inverse) (simp add: b64_val_char)
  then show ?thesis by (simp add: from_base64url_def b64_bytes_sextets[OF lt] comp_def)
qed

interpretation b64: codec base64url "\<lambda>s. Some (from_base64url s)" "\<lambda>_. True"
  by unfold_locales (simp add: base64url_roundtrip)

lemma b64_char_plain: "n < 64 \<Longrightarrow> b64_char n \<noteq> CHR ''.''"
proof -
  have "CHR ''.'' \<notin> set b64_alphabet" by (simp add: b64_alphabet_def)
  then show "n < 64 \<Longrightarrow> b64_char n \<noteq> CHR ''.''"
    unfolding b64_char_def by (metis b64_alphabet_length nth_mem)
qed

lemma base64url_no_dot: "CHR ''.'' \<notin> set (base64url s)"
proof -
  have "\<forall>a \<in> set (map of_char s). a < (256 :: nat)" by auto
  then show ?thesis using b64_sextets_lt b64_char_plain unfolding base64url_def by fastforce
qed

section \<open>JSON.stringify\<close>

definition hex_digits :: string where
  "hex_digits = ''0123456789abcdef''"

definition hex_char :: "nat \<Rightarrow> char" where
  "hex_char n = hex_digits ! n"

definition json_escape :: "char \<Rightarrow> string" where
  "json_escape c = (let n = of_char c :: nat in
     if c = CHR 0x22 \<or> c = CHR 0x5C then [CHR 0x5C, c]
     else if n = 8 then [CHR 0x5C, CHR ''b''] else if n = 9 then [CHR 0x5C, CHR ''t'']
     else if n = 10 then [CHR 0x5C, CHR ''n''] else if n = 12 then [CHR 0x5C, CHR ''f'']
     else if n = 13 then [CHR 0x5C, CHR ''r'']
     else if n < 32 then [CHR 0x5C, CHR ''u'', CHR ''0'', CHR ''0'', hex_char (n div 16), hex_char (n mod 16)]
     else [c])"

definition json_quote :: "string \<Rightarrow> string" where
  "json_quote s = [CHR 0x22] @ concat (map json_escape s) @ [CHR 0x22]"

text \<open>
  Integers below 10^21 print their digits; \<open>fmt\<close> is the text of any other finite number.
\<close>

definition num_text :: "(rat \<Rightarrow> string) \<Rightarrow> jsnum \<Rightarrow> string" where
  "num_text fmt n =
     (case n of
        Fin q \<Rightarrow>
          if q = of_int \<lfloor>q\<rfloor> \<and> \<bar>q\<bar> < 10 ^ 21
          then (if q < 0 then ''-'' else []) @ decimal (nat \<bar>\<lfloor>q\<rfloor>\<bar>) else fmt q
      | _ \<Rightarrow> ''null'')"

fun join_commas :: "string list \<Rightarrow> string" where
  "join_commas [] = []"
| "join_commas [s] = s"
| "join_commas (s # t # r) = s @ [CHR '',''] @ join_commas (t # r)"

fun js_stringify :: "(rat \<Rightarrow> string) \<Rightarrow> js \<Rightarrow> string"
  and elem_texts :: "(rat \<Rightarrow> string) \<Rightarrow> js list \<Rightarrow> string list"
  and member_texts :: "(rat \<Rightarrow> string) \<Rightarrow> (string \<times> js) list \<Rightarrow> string list" where
  "js_stringify fmt Undef = ''null''"
| "js_stringify fmt Null = ''null''"
| "js_stringify fmt (Bool b) = (if b then ''true'' else ''false'')"
| "js_stringify fmt (Num n) = num_text fmt n"
| "js_stringify fmt (Str s) = json_quote s"
| "js_stringify fmt (Arr vs) = [CHR ''[''] @ join_commas (elem_texts fmt vs) @ [CHR '']'']"
| "js_stringify fmt (Obj kvs) = [CHR ''{''] @ join_commas (member_texts fmt kvs) @ [CHR ''}'']"
| "elem_texts fmt [] = []"
| "elem_texts fmt (v # vs) = js_stringify fmt v # elem_texts fmt vs"
| "member_texts fmt [] = []"
| "member_texts fmt ((k, v) # kvs) =
     (if v = Undef then member_texts fmt kvs
      else (json_quote k @ [CHR '':''] @ js_stringify fmt v) # member_texts fmt kvs)"

section \<open>JSON.parse\<close>

definition json_space :: "char \<Rightarrow> bool" where
  "json_space c = (c = CHR '' '' \<or> c = CHR 0x09 \<or> c = CHR 0x0A \<or> c = CHR 0x0D)"

definition skip_ws :: "string \<Rightarrow> string" where
  "skip_ws s = dropWhile json_space s"

definition hex_val :: "char \<Rightarrow> nat option" where
  "hex_val c = (let n = of_char c :: nat in
     if 48 \<le> n \<and> n \<le> 57 then Some (n - 48)
     else if 97 \<le> n \<and> n \<le> 102 then Some (n - 87)
     else if 65 \<le> n \<and> n \<le> 70 then Some (n - 55) else None)"

definition hex4 :: "char \<Rightarrow> char \<Rightarrow> char \<Rightarrow> char \<Rightarrow> nat option" where
  "hex4 a b c d =
     (case (hex_val a, hex_val b, hex_val c, hex_val d) of
        (Some w, Some x, Some y, Some z) \<Rightarrow> Some (w * 4096 + x * 256 + y * 16 + z) | _ \<Rightarrow> None)"

text \<open>The UTF-8 bytes of one code unit; a surrogate pair is not joined.\<close>

definition utf8 :: "nat \<Rightarrow> string" where
  "utf8 n =
     (if n < 128 then [char_of n]
      else if n < 2048 then [char_of (192 + n div 64), char_of (128 + n mod 64)]
      else [char_of (224 + n div 4096), char_of (128 + n div 64 mod 64), char_of (128 + n mod 64)])"

definition plain_escape :: "char \<Rightarrow> char option" where
  "plain_escape e =
     (if e = CHR 0x22 \<or> e = CHR 0x5C \<or> e = CHR ''/'' then Some e
      else if e = CHR ''b'' then Some (CHR 0x08) else if e = CHR ''t'' then Some (CHR 0x09)
      else if e = CHR ''n'' then Some (CHR 0x0A) else if e = CHR ''f'' then Some (CHR 0x0C)
      else if e = CHR ''r'' then Some (CHR 0x0D) else None)"

definition before :: "string \<Rightarrow> (string \<times> string) option \<Rightarrow> (string \<times> string) option" where
  "before p o' = map_option (\<lambda>(s, r). (p @ s, r)) o'"

text \<open>What follows an opening quote: the string and what is left after the closing one.\<close>

fun json_chars :: "string \<Rightarrow> (string \<times> string) option" where
  "json_chars [] = None"
| "json_chars (c # s) =
     (if c = CHR 0x22 then Some ([], s)
      else if c = CHR 0x5C then
        (case s of
           [] \<Rightarrow> None
         | e # s' \<Rightarrow>
             if e = CHR ''u'' then
               (case s' of
                  w # x # y # z # r \<Rightarrow>
                    (case hex4 w x y z of None \<Rightarrow> None | Some n \<Rightarrow> before (utf8 n) (json_chars r))
                | _ \<Rightarrow> None)
             else (case plain_escape e of None \<Rightarrow> None | Some q \<Rightarrow> before [q] (json_chars s')))
      else if (of_char c :: nat) < 32 then None
      else before [c] (json_chars s))"

definition json_unsigned :: "string \<Rightarrow> (rat \<times> string) option" where
  "json_unsigned s =
     (let ip = takeWhile is_digit s; r = dropWhile is_digit s in
      if ip = [] \<or> (hd ip = CHR ''0'' \<and> length ip > 1)
         \<or> (case r of [] \<Rightarrow> False | c # r' \<Rightarrow> c = CHR ''.'' \<and> takeWhile is_digit r' = [])
      then None else scan_decimal s)"

definition json_number :: "string \<Rightarrow> (js \<times> string) option" where
  "json_number s =
     (case s of
        [] \<Rightarrow> None
      | c # r \<Rightarrow>
          if c = CHR ''-'' then map_option (\<lambda>(q, r'). (Num (to_num (- q)), r')) (json_unsigned r)
          else map_option (\<lambda>(q, r'). (Num (to_num q), r')) (json_unsigned s))"

text \<open>A repeated key keeps its place and takes the last value.\<close>

definition json_object :: "(string \<times> js) list \<Rightarrow> js" where
  "json_object kvs = Obj (foldl (\<lambda>m (k, v). js_map_set m k v) [] kvs)"

fun json_value :: "nat \<Rightarrow> string \<Rightarrow> (js \<times> string) option"
  and json_elems :: "nat \<Rightarrow> string \<Rightarrow> (js list \<times> string) option"
  and json_members :: "nat \<Rightarrow> string \<Rightarrow> ((string \<times> js) list \<times> string) option" where
  "json_value 0 s = None"
| "json_value (Suc n) s =
     (case skip_ws s of
        [] \<Rightarrow> None
      | c # r \<Rightarrow>
          if c = CHR 0x22 then map_option (\<lambda>(t, r'). (Str t, r')) (json_chars r)
          else if c = CHR ''['' then
            (if startsWith (skip_ws r) '']'' then Some (Arr [], slice_from 1 (skip_ws r))
             else map_option (\<lambda>(vs, r'). (Arr vs, r')) (json_elems n r))
          else if c = CHR ''{'' then
            (if startsWith (skip_ws r) ''}'' then Some (Obj [], slice_from 1 (skip_ws r))
             else map_option (\<lambda>(kvs, r'). (json_object kvs, r')) (json_members n r))
          else if startsWith (c # r) ''null'' then Some (Null, slice_from 3 r)
          else if startsWith (c # r) ''true'' then Some (Bool True, slice_from 3 r)
          else if startsWith (c # r) ''false'' then Some (Bool False, slice_from 4 r)
          else json_number (c # r))"
| "json_elems 0 s = None"
| "json_elems (Suc n) s =
     (case json_value n s of
        None \<Rightarrow> None
      | Some (v, r) \<Rightarrow>
          (case skip_ws r of
             [] \<Rightarrow> None
           | c # r' \<Rightarrow>
               if c = CHR '']'' then Some ([v], r')
               else if c = CHR '','' then map_option (\<lambda>(vs, r''). (v # vs, r'')) (json_elems n r')
               else None))"
| "json_members 0 s = None"
| "json_members (Suc n) s =
     (case skip_ws s of
        [] \<Rightarrow> None
      | q # s1 \<Rightarrow>
          if q \<noteq> CHR 0x22 then None
          else (case json_chars s1 of
            None \<Rightarrow> None
          | Some (k, s2) \<Rightarrow>
              (case skip_ws s2 of
                 [] \<Rightarrow> None
               | e # s3 \<Rightarrow>
                   if e \<noteq> CHR '':'' then None
                   else (case json_value n s3 of
                     None \<Rightarrow> None
                   | Some (v, r) \<Rightarrow>
                       (case skip_ws r of
                          [] \<Rightarrow> None
                        | c # r' \<Rightarrow>
                            if c = CHR ''}'' then Some ([(k, v)], r')
                            else if c = CHR '','' then
                              map_option (\<lambda>(kvs, r''). ((k, v) # kvs, r'')) (json_members n r')
                            else None)))))"

text \<open>Two calls at most are made for a character that is read, so the fuel never runs out.\<close>

definition json_parse :: "string \<Rightarrow> js option" where
  "json_parse s =
     (case json_value (2 * length s + 2) s of
        None \<Rightarrow> None
      | Some (v, r) \<Rightarrow> if skip_ws r = [] then Some v else None)"

section \<open>Parsing what was printed\<close>

lemma hex_val_char: "n < 16 \<Longrightarrow> hex_val (hex_char n) = Some n"
proof -
  have "map hex_val hex_digits = map Some [0..<16]"
    by (simp add: hex_digits_def hex_val_def upt_conv_Cons)
  from arg_cong[OF this, of "\<lambda>xs. xs ! n"]
  show "n < 16 \<Longrightarrow> hex_val (hex_char n) = Some n" by (simp add: hex_char_def hex_digits_def[THEN arg_cong, of length])
qed

lemma before_Some [simp]: "before p (Some (s, r)) = Some (p @ s, r)"
  by (simp add: before_def)

lemma json_chars_escape: "json_chars (json_escape c @ s) = before [c] (json_chars s)"
proof -
  let ?n = "of_char c :: nat"
  have u: "hex4 CHR ''0'' CHR ''0'' (hex_char (?n div 16)) (hex_char (?n mod 16)) = Some ?n" if "?n < 32"
  proof -
    have "?n div 16 < 16" using that by simp
    then have "hex_val (hex_char (?n div 16)) = Some (?n div 16)" "hex_val (hex_char (?n mod 16)) = Some (?n mod 16)"
      by (simp_all add: hex_val_char)
    moreover have "hex_val CHR ''0'' = Some 0" by (simp add: hex_val_def)
    ultimately show ?thesis by (simp add: hex4_def)
  qed
  consider "c = CHR 0x22 \<or> c = CHR 0x5C" | "?n \<in> {8, 9, 10, 12, 13}" | "?n < 32" "?n \<notin> {8, 9, 10, 12, 13}"
    | "32 \<le> ?n" "c \<noteq> CHR 0x22" "c \<noteq> CHR 0x5C" by fastforce
  then show ?thesis
  proof cases
    case 1
    then show ?thesis by (auto simp: json_escape_def plain_escape_def Let_def)
  next
    case 2
    then have "?n = of_char (CHR 0x08) \<or> ?n = of_char (CHR 0x09) \<or> ?n = of_char (CHR 0x0A)
        \<or> ?n = of_char (CHR 0x0C) \<or> ?n = of_char (CHR 0x0D)" by simp
    then have "c \<in> {CHR 0x08, CHR 0x09, CHR 0x0A, CHR 0x0C, CHR 0x0D}" unfolding of_char_eq_iff by simp
    then show ?thesis by (auto simp: json_escape_def plain_escape_def Let_def)
  next
    case 3
    then have "c \<noteq> CHR 0x22" "c \<noteq> CHR 0x5C" by auto
    then have "json_escape c = [CHR 0x5C, CHR ''u'', CHR ''0'', CHR ''0'', hex_char (?n div 16), hex_char (?n mod 16)]"
      using 3 by (simp add: json_escape_def Let_def)
    then show ?thesis using 3 u by (simp add: utf8_def)
  next
    case 4
    then have "json_escape c = [c]" by (simp add: json_escape_def Let_def)
    then show ?thesis using 4 by simp
  qed
qed

lemma json_chars_quoted: "json_chars (concat (map json_escape s) @ CHR 0x22 # r) = Some (s, r)"
  by (induction s) (simp_all add: json_chars_escape del: json_chars.simps(2), simp)

text \<open>What may follow a value inside a document.\<close>

definition stops :: "string \<Rightarrow> bool" where
  "stops r = (case r of [] \<Rightarrow> True | c # _ \<Rightarrow> c = CHR '','' \<or> c = CHR '']'' \<or> c = CHR ''}'')"

lemma takeWhile_digits:
  assumes "\<forall>c \<in> set ds. is_digit c" "stops r"
  shows "takeWhile is_digit (ds @ r) = ds" "dropWhile is_digit (ds @ r) = r"
proof -
  have "takeWhile is_digit r = []" "dropWhile is_digit r = r"
    using assms(2) by (cases r; auto simp: stops_def is_digit_def)+
  then show "takeWhile is_digit (ds @ r) = ds" "dropWhile is_digit (ds @ r) = r"
    using assms(1) by (simp_all add: takeWhile_append2 dropWhile_append2)
qed

lemma unsigned_decimal:
  assumes "stops r" shows "json_unsigned (decimal n @ r) = Some (of_nat n, r)"
proof -
  have d: "takeWhile is_digit (decimal n @ r) = decimal n" "dropWhile is_digit (decimal n @ r) = r"
    using takeWhile_digits[OF decimal_digits(1) assms] .
  have lead: "\<not> (hd (decimal n) = CHR ''0'' \<and> length (decimal n) > 1)"
  proof (cases "n < 10")
    case True
    then show ?thesis by (simp add: decimal.simps[of n])
  next
    case False
    then show ?thesis using decimal_head[of n] by simp
  qed
  have dot: "\<not> (case r of [] \<Rightarrow> False | c # r' \<Rightarrow> c = CHR ''.'' \<and> takeWhile is_digit r' = [])"
    using assms by (cases r) (auto simp: stops_def)
  have "scan_exp r = (0, r)" using assms by (cases r) (auto simp: stops_def scan_exp_def)
  moreover have "(case r of [] \<Rightarrow> ([], r) | c # r0 \<Rightarrow> if c = CHR ''.'' then (takeWhile is_digit r0, dropWhile is_digit r0) else ([], r)) = ([], r)"
    using assms by (cases r) (auto simp: stops_def)
  ultimately have "scan_decimal (decimal n @ r) = Some (of_nat n, r)"
    using decimal_digits(2)[of n] by (simp add: scan_decimal_def d decimal_val Let_def)
  then show ?thesis using d lead dot decimal_digits(2)[of n] by (simp add: json_unsigned_def Let_def)
qed

text \<open>
  The values a document can carry without loss: integers of at most 52 bits, no undefined, no
  repeated key.
\<close>

fun json_ok :: "js \<Rightarrow> bool" and elems_ok :: "js list \<Rightarrow> bool" and members_ok :: "(string \<times> js) list \<Rightarrow> bool" where
  "json_ok Undef = False"
| "json_ok (Num n) = (case n of Fin q \<Rightarrow> q = of_int \<lfloor>q\<rfloor> \<and> 0 \<le> q \<and> q \<le> 2 ^ 52 | _ \<Rightarrow> False)"
| "json_ok (Arr vs) = elems_ok vs"
| "json_ok (Obj kvs) = (distinct (map fst kvs) \<and> members_ok kvs)"
| "json_ok _ = True"
| "elems_ok [] = True"
| "elems_ok (v # vs) = (json_ok v \<and> elems_ok vs)"
| "members_ok [] = True"
| "members_ok ((k, v) # kvs) = (json_ok v \<and> members_ok kvs)"

fun fuel :: "js \<Rightarrow> nat" and elems_fuel :: "js list \<Rightarrow> nat" and members_fuel :: "(string \<times> js) list \<Rightarrow> nat" where
  "fuel (Arr vs) = Suc (elems_fuel vs)"
| "fuel (Obj kvs) = Suc (members_fuel kvs)"
| "fuel _ = 1"
| "elems_fuel [] = 0"
| "elems_fuel (v # vs) = Suc (fuel v + elems_fuel vs)"
| "members_fuel [] = 0"
| "members_fuel ((k, v) # kvs) = Suc (fuel v + members_fuel kvs)"

lemma num_text_ok:
  assumes "json_ok (Num n)" obtains k where "n = Fin (of_nat k)" "num_text fmt n = decimal k" "int k \<le> 2 ^ 52"
proof -
  obtain q where q: "n = Fin q" "q = of_int \<lfloor>q\<rfloor>" "0 \<le> q" "q \<le> 2 ^ 52" using assms by (cases n) auto
  define k where "k = nat \<lfloor>q\<rfloor>"
  have z: "0 \<le> \<lfloor>q\<rfloor>" using q(3) by simp
  then have "of_nat k = q" using q(2) by (simp add: k_def)
  moreover have "q < 10 ^ 21" using q(4) by (rule order.strict_trans1) simp
  then have "num_text fmt n = decimal k" using q z by (simp add: num_text_def k_def)
  moreover have "(of_int \<lfloor>q\<rfloor> :: rat) \<le> of_int (2 ^ 52)" using q(2,4) by simp
  then have "\<lfloor>q\<rfloor> \<le> 2 ^ 52" by (simp only: of_int_le_iff)
  then have "int k \<le> 2 ^ 52" using z by (simp add: k_def)
  ultimately show ?thesis using that q(1) by blast
qed

lemma digit_plain:
  assumes "is_digit c"
  shows "\<not> json_space c" "c \<notin> {CHR 0x22, CHR ''['', CHR ''{'', CHR ''n'', CHR ''t'', CHR ''f'', CHR ''-'', CHR '']'', CHR ''}''}"
  using assms by (auto simp: json_space_def is_digit_def Let_def)

lemma skip_ws_cons: "\<not> json_space c \<Longrightarrow> skip_ws (c # r) = c # r"
  by (simp add: skip_ws_def)

lemma startsWith_cons: "startsWith (c # s) (d # p) = (c = d \<and> startsWith s p)"
  by (auto simp: startsWith_def)

lemma value_number:
  assumes "stops r" "int k \<le> 2 ^ 52"
  shows "json_value (Suc n) (decimal k @ r) = Some (Num (Fin (of_nat k)), r)"
proof -
  obtain c t where ct: "decimal k = c # t" using decimal_digits(2)[of k] by (cases "decimal k") auto
  then have "is_digit c" using decimal_digits(1)[of k] by simp
  note c = digit_plain[OF this]
  have "to_num (of_nat k) = Fin (of_nat k)" using to_num_of_int[of "int k"] assms(2) by simp
  then have "json_number (c # t @ r) = Some (Num (Fin (of_nat k)), r)"
    using unsigned_decimal[OF assms(1), of k] c(2) by (simp add: json_number_def ct)
  then show ?thesis using c by (simp add: ct skip_ws_cons startsWith_cons)
qed

lemma foldl_map_set:
  "distinct (map fst (m @ kvs)) \<Longrightarrow> foldl (\<lambda>m (k, v). js_map_set m k v) m kvs = m @ kvs"
proof (induction kvs arbitrary: m)
  case (Cons kv kvs)
  obtain k v where kv: "kv = (k, v)" by force
  have "js_map_set m k v = m @ [(k, v)]" if "k \<notin> fst ` set m" for m
    using that by (induction m) auto
  moreover have "k \<notin> fst ` set m" using Cons.prems kv by auto
  ultimately show ?case using Cons kv by simp
qed simp

lemma json_object_distinct: "distinct (map fst kvs) \<Longrightarrow> json_object kvs = Obj kvs"
  using foldl_map_set[of "[]" kvs] by (simp add: json_object_def)

text \<open>What a value's text starts with is neither white space nor a closing bracket.\<close>

lemma text_head_ex:
  assumes "json_ok v"
  shows "\<exists>c t. js_stringify fmt v = c # t \<and> \<not> json_space c \<and> c \<noteq> CHR '']'' \<and> c \<noteq> CHR ''}''"
proof (cases v)
  case (Num n)
  obtain k where k: "num_text fmt n = decimal k" using num_text_ok[of n] assms Num by metis
  obtain c t where c: "decimal k = c # t" "is_digit c"
    using decimal_digits[of k] by (cases "decimal k") auto
  show ?thesis using digit_plain[OF c(2)] by (simp add: Num k c(1))
next
  case Undef
  then show ?thesis using assms by simp
next
  case (Bool b)
  then show ?thesis by (cases b) (simp_all add: json_space_def)
qed (simp_all add: json_quote_def json_space_def)

lemma text_head:
  assumes "json_ok v" obtains c t where "js_stringify fmt v = c # t" "\<not> json_space c" "c \<noteq> CHR '']''" "c \<noteq> CHR ''}''"
  using text_head_ex[OF assms] by blast

lemma join_head:
  assumes "json_ok v" obtains c t where "join_commas (js_stringify fmt v # ts) = c # t" "\<not> json_space c" "c \<noteq> CHR '']''"
proof -
  obtain c t where h: "js_stringify fmt v = c # t" "\<not> json_space c" "c \<noteq> CHR '']''"
    using text_head[OF assms] by metis
  then have "\<exists>t'. join_commas (js_stringify fmt v # ts) = c # t'" by (cases ts) auto
  then show ?thesis using that h by blast
qed

lemma stops_close: "stops (CHR '','' # r)" "stops (CHR '']'' # r)" "stops (CHR ''}'' # r)"
  by (simp_all add: stops_def)

lemma not_space: "\<not> json_space CHR '',''" "\<not> json_space CHR '']''" "\<not> json_space CHR ''}''"
  "\<not> json_space CHR 0x22" "\<not> json_space CHR '':''" "\<not> json_space CHR ''[''" "\<not> json_space CHR ''{''"
  by (simp_all add: json_space_def)

lemma json_roundtrip_at:
  "json_ok v \<Longrightarrow> fuel v \<le> n \<Longrightarrow> stops r \<Longrightarrow> json_value n (js_stringify fmt v @ r) = Some (v, r)"
  "elems_ok vs \<Longrightarrow> elems_fuel vs \<le> n \<Longrightarrow> vs \<noteq> [] \<Longrightarrow>
     json_elems n (join_commas (elem_texts fmt vs) @ CHR '']'' # r) = Some (vs, r)"
  "members_ok kvs \<Longrightarrow> members_fuel kvs \<le> n \<Longrightarrow> kvs \<noteq> [] \<Longrightarrow>
     json_members n (join_commas (member_texts fmt kvs) @ CHR ''}'' # r) = Some (kvs, r)"
proof (induction fmt v and fmt vs and fmt kvs arbitrary: n r and n r and n r
    rule: js_stringify_elem_texts_member_texts.induct)
  case (1 fmt)
  then show ?case by simp
next
  case (2 fmt)
  then obtain m where "n = Suc m" by (cases n) auto
  then show ?case by (simp add: skip_ws_def json_space_def startsWith_cons slice_from_def startsWith_def)
next
  case (3 fmt b)
  then obtain m where "n = Suc m" by (cases n) auto
  then show ?case by (cases b) (simp_all add: skip_ws_def json_space_def startsWith_cons slice_from_def startsWith_def)
next
  case (4 fmt q)
  then obtain m where n: "n = Suc m" by (cases n) auto
  obtain k where k: "q = Fin (of_nat k)" "num_text fmt q = decimal k" "int k \<le> 2 ^ 52"
    using num_text_ok[OF 4(1)] by metis
  then show ?case using value_number[OF 4(3) k(3), of m] n by simp
next
  case (5 fmt s)
  then obtain m where "n = Suc m" by (cases n) auto
  then show ?case by (simp add: json_quote_def skip_ws_cons not_space json_chars_quoted)
next
  case (6 fmt vs)
  then obtain m where n: "n = Suc m" "elems_fuel vs \<le> m" by (cases n) auto
  show ?case
  proof (cases vs)
    case Nil
    then show ?thesis using n by (simp add: skip_ws_cons not_space startsWith_def slice_from_def)
  next
    case (Cons v ws)
    then have "json_ok v" using 6 by simp
    then obtain c t where h: "join_commas (elem_texts fmt vs) = c # t" "\<not> json_space c" "c \<noteq> CHR '']''"
      using join_head Cons by (metis elem_texts.simps(2))
    have "json_elems m (join_commas (elem_texts fmt vs) @ CHR '']'' # r) = Some (vs, r)"
      using 6 n Cons by simp
    then show ?thesis using n h by (simp add: skip_ws_cons not_space startsWith_cons)
  qed
next
  case (7 fmt kvs)
  then obtain m where n: "n = Suc m" "members_fuel kvs \<le> m" by (cases n) auto
  have dist: "distinct (map fst kvs)" using 7 by simp
  show ?case
  proof (cases kvs)
    case Nil
    then show ?thesis using n by (simp add: skip_ws_cons not_space startsWith_def slice_from_def)
  next
    case (Cons kv ws)
    have ok: "members_ok kvs" using 7 by simp
    obtain k v where kv: "kv = (k, v)" by force
    have "v \<noteq> Undef" using ok Cons kv by auto
    then have "\<exists>t. join_commas (member_texts fmt kvs) = CHR 0x22 # t"
      using Cons kv by (cases "member_texts fmt ws") (auto simp: json_quote_def)
    then obtain t where h: "join_commas (member_texts fmt kvs) = CHR 0x22 # t" by blast
    have "json_members m (join_commas (member_texts fmt kvs) @ CHR ''}'' # r) = Some (kvs, r)"
      using 7 n Cons by simp
    then show ?thesis using n h dist by (simp add: skip_ws_cons not_space startsWith_cons json_object_distinct)
  qed
next
  case (8 fmt)
  then show ?case by simp
next
  case (9 fmt v vs)
  then obtain m where n: "n = Suc m" "fuel v \<le> m" "elems_fuel vs \<le> m" by (cases n) auto
  show ?case
  proof (cases vs)
    case Nil
    then show ?thesis using 9 n by (simp add: stops_close skip_ws_cons not_space)
  next
    case (Cons w ws)
    then have "json_value m (js_stringify fmt v @ CHR '','' # join_commas (elem_texts fmt vs) @ CHR '']'' # r)
        = Some (v, CHR '','' # join_commas (elem_texts fmt vs) @ CHR '']'' # r)"
      using 9 n by (simp add: stops_close)
    moreover have "json_elems m (join_commas (elem_texts fmt vs) @ CHR '']'' # r) = Some (vs, r)"
      using 9 n Cons by simp
    ultimately show ?thesis using Cons n by (simp add: skip_ws_cons not_space)
  qed
next
  case (10 fmt)
  then show ?case by simp
next
  case (11 fmt k v kvs)
  then obtain m where n: "n = Suc m" "fuel v \<le> m" "members_fuel kvs \<le> m" by (cases n) auto
  have v: "v \<noteq> Undef" using 11 by auto
  show ?case
  proof (cases kvs)
    case Nil
    then show ?thesis using 11 n v
      by (simp add: stops_close skip_ws_cons not_space json_quote_def json_chars_quoted)
  next
    case (Cons w ws)
    let ?rest = "CHR '','' # join_commas (member_texts fmt kvs) @ CHR ''}'' # r"
    have "member_texts fmt kvs \<noteq> []" using 11 Cons by (cases w) auto
    then have whole: "join_commas (member_texts fmt ((k, v) # kvs)) @ CHR ''}'' # r
        = json_quote k @ CHR '':'' # js_stringify fmt v @ ?rest"
      using v by (cases "member_texts fmt kvs") auto
    have "json_value m (js_stringify fmt v @ ?rest) = Some (v, ?rest)"
      using 11 n v by (simp add: stops_close)
    moreover have "json_members m (join_commas (member_texts fmt kvs) @ CHR ''}'' # r) = Some (kvs, r)"
      using 11 n v Cons by simp
    ultimately show ?thesis unfolding whole using n
      by (simp add: json_quote_def json_chars_quoted skip_ws_cons not_space)
  qed
qed

lemma join_length:
  "ts \<noteq> [] \<Longrightarrow> length (join_commas (t # ts)) = length t + 1 + length (join_commas ts)"
  by (cases ts) auto

lemma fuel_bound:
  "json_ok v \<Longrightarrow> fuel v \<le> 2 * length (js_stringify fmt v)"
  "elems_ok vs \<Longrightarrow> elems_fuel vs \<le> 2 * length (join_commas (elem_texts fmt vs)) + 1"
  "members_ok kvs \<Longrightarrow> members_fuel kvs \<le> 2 * length (join_commas (member_texts fmt kvs)) + 1"
proof (induction fmt v and fmt vs and fmt kvs rule: js_stringify_elem_texts_member_texts.induct)
  case (4 fmt n)
  obtain k where "num_text fmt n = decimal k" using num_text_ok[OF 4] by metis
  then show ?case using decimal_digits(2)[of k] by (cases "decimal k") auto
next
  case (9 fmt v vs)
  then show ?case by (cases vs) (auto simp: join_length)
next
  case (11 fmt k v kvs)
  then have "v \<noteq> Undef" by auto
  show ?case
  proof (cases kvs)
    case Nil
    then show ?thesis using 11 \<open>v \<noteq> Undef\<close> by (simp add: json_quote_def)
  next
    case (Cons w ws)
    then have "member_texts fmt kvs \<noteq> []" using 11 by (cases w) auto
    then show ?thesis using 11 \<open>v \<noteq> Undef\<close> by (simp add: join_length json_quote_def)
  qed
qed (auto simp: json_quote_def)

lemma json_roundtrip:
  assumes "json_ok v" shows "json_parse (js_stringify fmt v) = Some v"
proof -
  have "fuel v \<le> 2 * length (js_stringify fmt v) + 2" using fuel_bound(1)[OF assms, of fmt] by simp
  then have "json_value (2 * length (js_stringify fmt v) + 2) (js_stringify fmt v) = Some (v, [])"
    using json_roundtrip_at(1)[OF assms, of _ "[]" fmt] by (simp add: stops_def del: json_value.simps)
  then show ?thesis by (simp add: json_parse_def skip_ws_def del: json_value.simps)
qed

interpretation json: codec "js_stringify fmt" json_parse json_ok for fmt
  by unfold_locales (rule json_roundtrip)

text \<open>A segment of a token: JSON in base64url.\<close>

interpretation segment: codec_chain "js_stringify fmt" json_parse json_ok
    base64url "\<lambda>s. Some (from_base64url s)" "\<lambda>_. True" for fmt
  by unfold_locales simp

lemma segment_roundtrip: "json_ok v \<Longrightarrow> json_parse (from_base64url (base64url (js_stringify fmt v))) = Some v"
  using segment.chain[of v fmt] by simp

end
