(* ===== verification/Tokens.thy ===== *)
theory Tokens
  imports Encoding Effects
begin

text \<open>
  Tokens of agents: what \<open>services/model-router-token.ts\<close> and \<open>services/akm-token.ts\<close> issue,
  the verifier, the delegation endpoint (\<open>services/model-router-delegation.ts\<close>), revocation
  (\<open>services/model-router-revoke.ts\<close>, \<open>services/akm-revoke.ts\<close>) and the refresh handler
  (\<open>services/model-router-refresh.ts\<close>) over the \<open>agents\<close> table. Node's Ed25519, SHA-256 and
  random UUIDs are parameters, and so is what the AI service answers to a revocation. Times
  are seconds.
\<close>

section \<open>Keys and signing\<close>

text \<open>
  \<open>tl_load\<close> is \<open>createPrivateKey\<close>; \<open>tl_check\<close> verifies with the public half of a private key;
  \<open>tl_fmt\<close> prints the numbers JSON does not print as integers.
\<close>

record token_lib =
  tl_key :: "string option"
  tl_load :: "string \<Rightarrow> string option"
  tl_sign :: "string \<Rightarrow> string \<Rightarrow> string"
  tl_check :: "string \<Rightarrow> string \<Rightarrow> string \<Rightarrow> bool"
  tl_uuid :: "nat \<Rightarrow> string"
  tl_sha :: "string \<Rightarrow> string"
  tl_fmt :: "rat \<Rightarrow> string"
  tl_v2 :: bool

text \<open>\<open>replace(/\\n/g, '\n')\<close>: a backslash and an n become a newline.\<close>

fun unescape_newlines :: "string \<Rightarrow> string" where
  "unescape_newlines [] = []"
| "unescape_newlines [c] = [c]"
| "unescape_newlines (c # d # s) =
     (if c = CHR 0x5C \<and> d = CHR ''n'' then CHR 0x0A # unescape_newlines s
      else c # unescape_newlines (d # s))"

definition configured :: "string option \<Rightarrow> bool" where
  "configured v = (case v of None \<Rightarrow> False | Some s \<Rightarrow> s \<noteq> [])"

definition is_model_router_configured :: "token_lib \<Rightarrow> bool" where
  "is_model_router_configured lib = configured (tl_key lib)"

text \<open>None when it throws.\<close>

definition get_private_key :: "token_lib \<Rightarrow> string option" where
  "get_private_key lib =
     (if configured (tl_key lib) then tl_load lib (unescape_newlines (the (tl_key lib))) else None)"

definition dot :: char where
  "dot = CHR ''.''"

definition token_segment :: "token_lib \<Rightarrow> js \<Rightarrow> string" where
  "token_segment lib v = base64url (js_stringify (tl_fmt lib) v)"

definition jwt_header :: js where
  "jwt_header = Obj [(''alg'', Str ''EdDSA''), (''typ'', Str ''JWT'')]"

definition sign_jwt :: "token_lib \<Rightarrow> string \<Rightarrow> js \<Rightarrow> string" where
  "sign_jwt lib key claims =
     (let input = token_segment lib jwt_header @ [dot] @ token_segment lib claims
      in input @ [dot] @ base64url (tl_sign lib key input))"

section \<open>Issuing\<close>

record token_opts =
  to_slug :: string
  to_uuid :: string
  to_owner :: string
  to_scopes :: "string list option"
  to_corr :: "string option"

record token_result =
  tr_token :: string
  tr_jti :: string
  tr_refresh :: string
  tr_expires :: int

definition num_claim :: "int \<Rightarrow> js" where
  "num_claim n = Num (Fin (of_int n))"

definition scopes_claim :: "string list \<Rightarrow> js" where
  "scopes_claim ss = Arr (map Str ss)"

definition base_claims :: "token_lib \<Rightarrow> string \<Rightarrow> token_opts \<Rightarrow> string \<Rightarrow> int \<Rightarrow> (string \<times> js) list" where
  "base_claims lib aud opts jti now =
     [(''sub'', Str (if tl_v2 lib then to_uuid opts else to_slug opts)), (''principal_type'', Str ''agent''),
      (''iss'', Str ''hill90-api''), (''aud'', Str aud), (''exp'', num_claim (now + 3600)),
      (''iat'', num_claim now), (''jti'', Str jti)]"

definition extra_claims :: "token_lib \<Rightarrow> token_opts \<Rightarrow> (string \<times> js) list" where
  "extra_claims lib opts =
     (if tl_v2 lib then [(''agent_slug'', Str (to_slug opts))] else []) @
     (case to_corr opts of None \<Rightarrow> [] | Some c \<Rightarrow> if c = [] then [] else [(''correlation_id'', Str c)])"

definition model_router_claims :: "token_lib \<Rightarrow> token_opts \<Rightarrow> string \<Rightarrow> int \<Rightarrow> js" where
  "model_router_claims lib opts jti now =
     Obj (base_claims lib ''hill90-model-router'' opts jti now @
       [(''owner'', Str (to_owner opts)),
        (''scopes'', scopes_claim (case to_scopes opts of None \<Rightarrow> [] | Some ss \<Rightarrow> ss))] @ extra_claims lib opts)"

definition akm_claims :: "token_lib \<Rightarrow> token_opts \<Rightarrow> string \<Rightarrow> int \<Rightarrow> js" where
  "akm_claims lib opts jti now =
     Obj (base_claims lib ''hill90-akm'' opts jti now @
       [(''scopes'', scopes_claim (case to_scopes opts of None \<Rightarrow> [''akm:read'', ''akm:write''] | Some ss \<Rightarrow> ss)),
        (''owner'', Str (to_owner opts))] @ extra_claims lib opts)"

text \<open>The random UUIDs are drawn in order: the id of the token, then the refresh secret.\<close>

definition issue :: "token_lib \<Rightarrow> (string \<Rightarrow> js) \<Rightarrow> nat \<Rightarrow> int \<Rightarrow> token_result option" where
  "issue lib claims k now =
     (case get_private_key lib of
        None \<Rightarrow> None
      | Some key \<Rightarrow>
          (let jti = tl_uuid lib k in
           Some \<lparr>tr_token = sign_jwt lib key (claims jti), tr_jti = jti,
                 tr_refresh = tl_uuid lib (Suc k), tr_expires = now + 3600\<rparr>))"

definition generate_agent_model_router_token ::
  "token_lib \<Rightarrow> token_opts \<Rightarrow> nat \<Rightarrow> int \<Rightarrow> token_result option" where
  "generate_agent_model_router_token lib opts k now = issue lib (\<lambda>jti. model_router_claims lib opts jti now) k now"

definition generate_agent_akm_token :: "token_lib \<Rightarrow> token_opts \<Rightarrow> nat \<Rightarrow> int \<Rightarrow> token_result option" where
  "generate_agent_akm_token lib opts k now = issue lib (\<lambda>jti. akm_claims lib opts jti now) k now"

text \<open>The positional call: the slug stands for the UUID too.\<close>

definition legacy_opts :: "string \<Rightarrow> string \<Rightarrow> token_opts" where
  "legacy_opts agent owner = \<lparr>to_slug = agent, to_uuid = agent, to_owner = owner, to_scopes = None, to_corr = None\<rparr>"

definition get_model_router_env_vars :: "string \<Rightarrow> string \<Rightarrow> token_result \<Rightarrow> string list" where
  "get_model_router_env_vars router api r =
     [''MODEL_ROUTER_TOKEN='' @ tr_token r, ''AI_SERVICE_URL='' @ router, ''MODEL_ROUTER_URL='' @ router,
      ''MODEL_ROUTER_REFRESH_URL='' @ api @ ''/internal/model-router/refresh-token'',
      ''MODEL_ROUTER_REFRESH_SECRET='' @ tr_refresh r]"

definition get_akm_env_vars :: "string \<Rightarrow> token_result \<Rightarrow> string list" where
  "get_akm_env_vars url r =
     [''AKM_TOKEN='' @ tr_token r, ''AKM_SERVICE_URL='' @ url,
      ''AKM_REFRESH_URL='' @ url @ ''/internal/agents/refresh-token'',
      ''AKM_REFRESH_SECRET='' @ tr_refresh r, ''AKM_REFRESH_SECRET_FILE=/data/.akm_refresh_secret'']"

section \<open>Verifying\<close>

definition expired :: "js \<Rightarrow> int \<Rightarrow> bool" where
  "expired payload now = (case js_get payload ''exp'' of Num n \<Rightarrow> num_lt n (of_int now) | _ \<Rightarrow> False)"

text \<open>The payload, or None when the verifier throws.\<close>

definition verify_model_router_token :: "token_lib \<Rightarrow> string \<Rightarrow> bool \<Rightarrow> int \<Rightarrow> js option" where
  "verify_model_router_token lib token allow_expired now =
     (case split_on dot token of
        [h, p, s] \<Rightarrow>
          (case json_parse (from_base64url h) of
             None \<Rightarrow> None
           | Some header \<Rightarrow>
               if js_get header ''alg'' \<noteq> Str ''EdDSA'' then None
               else (case get_private_key lib of
                 None \<Rightarrow> None
               | Some key \<Rightarrow>
                   if \<not> tl_check lib key (h @ [dot] @ p) (from_base64url s) then None
                   else (case json_parse (from_base64url p) of
                     None \<Rightarrow> None
                   | Some payload \<Rightarrow>
                       if js_get payload ''iss'' \<noteq> Str ''hill90-api'' then None
                       else if js_get payload ''aud'' \<noteq> Str ''hill90-model-router'' then None
                       else if \<not> allow_expired \<and> expired payload now then None
                       else Some payload)))
      | _ \<Rightarrow> None)"

section \<open>Delegation\<close>

datatype tk_resp =
    TkStatus nat
  | TkChild string string
  | TkRenewed string string int

definition sign_delegation_token :: "token_lib \<Rightarrow> js \<Rightarrow> nat \<Rightarrow> int \<Rightarrow> (string \<times> string) option" where
  "sign_delegation_token lib body k now =
     (if \<not> configured (tl_key lib) then None
      else case tl_load lib (the (tl_key lib)) of
        None \<Rightarrow> None
      | Some key \<Rightarrow>
          (let jti = tl_uuid lib k in
           Some (sign_jwt lib key (Obj
             [(''sub'', js_get body ''sub''), (''iss'', Str ''hill90-api''), (''aud'', Str ''hill90-model-router''),
              (''delegation_id'', js_get body ''delegation_id''), (''parent_jti'', js_get body ''parent_jti''),
              (''exp'', js_get body ''expires_at''), (''iat'', num_claim now), (''jti'', Str jti)]), jti)))"

definition bearer :: "string option \<Rightarrow> string option" where
  "bearer auth = (case auth of None \<Rightarrow> None
     | Some a \<Rightarrow> if startsWith a ''Bearer '' then Some (slice_from 7 a) else None)"

text \<open>
  \<open>timingSafeEqual\<close> on equal lengths is equality. A body that is null or undefined makes the
  destructuring throw, which Express answers with 500.
\<close>

definition delegation_token_handler ::
  "token_lib \<Rightarrow> string option \<Rightarrow> string option \<Rightarrow> js \<Rightarrow> nat \<Rightarrow> int \<Rightarrow> tk_resp" where
  "delegation_token_handler lib service auth body k now =
     (case bearer auth of
        None \<Rightarrow> TkStatus 403
      | Some token \<Rightarrow>
          if \<not> configured service then TkStatus 503
          else if the service \<noteq> token then TkStatus 403
          else if nullish body then TkStatus 500
          else if \<not> truthy (js_get body ''sub'') \<or> \<not> truthy (js_get body ''delegation_id'')
             \<or> \<not> truthy (js_get body ''parent_jti'') \<or> \<not> truthy (js_get body ''expires_at'')
          then TkStatus 400
          else (case sign_delegation_token lib body k now of
                  None \<Rightarrow> TkStatus 500 | Some (t, jti) \<Rightarrow> TkChild t jti))"

section \<open>Revocation\<close>

record tok_agent =
  ta_id :: string
  ta_slug :: string
  ta_status :: string
  ta_jti :: "string option"
  ta_exp :: "int option"
  ta_hash :: "string option"
  ta_owner :: string

text \<open>
  \<open>tk_revoked\<close> are the revocations the AI service accepted, \<open>tk_audit\<close> the audit lines (action
  and token id).
\<close>

record tok_db =
  tk_agents :: "tok_agent list"
  tk_revoked :: "(string \<times> int) list"
  tk_audit :: "(string \<times> string) list"
  tk_count :: nat

record tok_env =
  tv_service :: "string option"
  tv_accepts :: "string \<Rightarrow> int \<Rightarrow> bool"
  tv_pick :: nat
  tv_now :: int

definition revoke_agent_model_router_token :: "tok_env \<Rightarrow> string \<Rightarrow> int option \<Rightarrow> (tok_db, unit) eff" where
  "revoke_agent_model_router_token env jti e =
     (if \<not> configured (tv_service env) then ret ()
      else (let until = (case e of None \<Rightarrow> tv_now env + 3600 | Some t \<Rightarrow> t) in
            if tv_accepts env jti until
            then local_step (\<lambda>d. d\<lparr>tk_revoked := (jti, until) # tk_revoked d\<rparr>)
            else throw (Thrown ''Model-router revocation failed'')))"

text \<open>The knowledge service has the same endpoint; \<open>env\<close> then holds that service's answers.\<close>

definition revoke_agent_akm_token :: "tok_env \<Rightarrow> string \<Rightarrow> int option \<Rightarrow> (tok_db, unit) eff" where
  "revoke_agent_akm_token env jti e =
     (if \<not> configured (tv_service env) then ret ()
      else (let until = (case e of None \<Rightarrow> tv_now env + 3600 | Some t \<Rightarrow> t) in
            if tv_accepts env jti until
            then local_step (\<lambda>d. d\<lparr>tk_revoked := (jti, until) # tk_revoked d\<rparr>)
            else throw (Thrown ''AKM revocation failed'')))"

definition audit :: "string \<Rightarrow> string \<Rightarrow> (tok_db, unit) eff" where
  "audit action jti = local_step (\<lambda>d. d\<lparr>tk_audit := (action, jti) # tk_audit d\<rparr>)"

section \<open>Refresh\<close>

definition refresh_match :: "string \<Rightarrow> string \<Rightarrow> tok_agent \<Rightarrow> bool" where
  "refresh_match sub hash a =
     ((ta_slug a = sub \<or> ta_id a = sub) \<and> ta_hash a = Some hash \<and> ta_status a = ''running'')"

definition refresh_select :: "token_lib \<Rightarrow> tok_env \<Rightarrow> string \<Rightarrow> string \<Rightarrow> (tok_db, tok_agent option) eff" where
  "refresh_select lib env sub secret = db_read (\<lambda>d.
     let rows = filter (refresh_match sub (tl_sha lib secret)) (tk_agents d) in
     if rows = [] then None else Some (rows ! (tv_pick env mod length rows)))"

text \<open>Drawing two UUIDs.\<close>

definition draw :: "(tok_db, nat) eff" where
  "draw = eff_bind (peek tk_count) (\<lambda>k. eff_seq (local_step (\<lambda>d. d\<lparr>tk_count := k + 2\<rparr>)) (ret k))"

definition store_token :: "token_lib \<Rightarrow> tok_agent \<Rightarrow> token_result \<Rightarrow> (tok_db, unit) eff" where
  "store_token lib a r = db_write (\<lambda>d. d\<lparr>tk_agents := map (\<lambda>x.
     if ta_id x = ta_id a
     then x\<lparr>ta_jti := Some (tr_jti r), ta_exp := Some (tr_expires r), ta_hash := Some (tl_sha lib (tr_refresh r))\<rparr>
     else x) (tk_agents d)\<rparr>)"

text \<open>The token that was replaced is revoked; a failure is audited and does not fail the refresh.\<close>

definition revoke_superseded :: "tok_env \<Rightarrow> tok_agent \<Rightarrow> (tok_db, unit) eff" where
  "revoke_superseded env a =
     (case ta_jti a of
        None \<Rightarrow> ret ()
      | Some jti \<Rightarrow>
          if jti = [] then ret ()
          else eff_catch
            (eff_seq (revoke_agent_model_router_token env jti (ta_exp a)) (audit ''token_revoked'' jti))
            (\<lambda>_. audit ''token_revoke_failed'' jti))"

definition refresh_opts :: "tok_agent \<Rightarrow> token_opts" where
  "refresh_opts a = \<lparr>to_slug = ta_slug a, to_uuid = ta_id a, to_owner = ta_owner a, to_scopes = None, to_corr = None\<rparr>"

text \<open>What follows the select, for the row it found.\<close>

definition refresh_rotate :: "token_lib \<Rightarrow> tok_env \<Rightarrow> tok_agent \<Rightarrow> (tok_db, tk_resp) eff" where
  "refresh_rotate lib env a =
     eff_bind draw (\<lambda>k.
     case generate_agent_model_router_token lib (refresh_opts a) k (tv_now env) of
       None \<Rightarrow> throw (Thrown ''signing key'')
     | Some r \<Rightarrow>
         eff_seq (store_token lib a r)
         (eff_seq (revoke_superseded env a)
         (ret (TkRenewed (tr_token r) (tr_refresh r) (tr_expires r)))))"

definition refresh_subject :: "token_lib \<Rightarrow> tok_env \<Rightarrow> string \<Rightarrow> string option" where
  "refresh_subject lib env token =
     (case verify_model_router_token lib token True (tv_now env) of
        None \<Rightarrow> None
      | Some payload \<Rightarrow> (case js_get payload ''sub'' of Str s \<Rightarrow> if s = [] then None else Some s | _ \<Rightarrow> None))"

definition model_router_refresh_handler ::
  "token_lib \<Rightarrow> tok_env \<Rightarrow> string option \<Rightarrow> js \<Rightarrow> (tok_db, tk_resp) eff" where
  "model_router_refresh_handler lib env auth body =
     (if \<not> is_model_router_configured lib then ret (TkStatus 503)
      else if nullish body then throw (Thrown ''Cannot destructure'')
      else case js_get body ''refresh_secret'' of
        Str secret \<Rightarrow>
          if secret = [] then ret (TkStatus 400)
          else (case bearer auth of
            None \<Rightarrow> ret (TkStatus 401)
          | Some token \<Rightarrow>
              (case refresh_subject lib env token of
                 None \<Rightarrow> ret (TkStatus 401)
               | Some sub \<Rightarrow>
                   eff_bind (refresh_select lib env sub secret) (\<lambda>row.
                   case row of None \<Rightarrow> ret (TkStatus 401) | Some a \<Rightarrow> refresh_rotate lib env a)))
      | _ \<Rightarrow> ret (TkStatus 400))"

end
