(* ===== verification/TokenProps.thy ===== *)
theory TokenProps
  imports Tokens
begin

text \<open>
  Theorems on tokens: a token this service issues verifies and carries its claims; the
  refresh handler changes one row or none; and two flaws of it, the concurrent refresh and
  the audit line of a revocation that was skipped.
\<close>

section \<open>What is issued verifies\<close>

lemma split_on_plain: "c \<notin> set s \<Longrightarrow> split_on c s = [s]"
  by (induction s) auto

lemma split_on_cons: "c \<notin> set s \<Longrightarrow> split_on c (s @ c # t) = s # split_on c t"
  by (induction s) auto

lemma dot_free: "dot \<notin> set (base64url s)"
  using base64url_no_dot by (simp add: dot_def)

lemma split_jwt: "split_on dot (sign_jwt lib key claims) =
   [token_segment lib jwt_header, token_segment lib claims,
    base64url (tl_sign lib key (token_segment lib jwt_header @ [dot] @ token_segment lib claims))]"
proof -
  have "dot \<notin> set (token_segment lib v)" for v by (simp add: token_segment_def dot_free)
  then show ?thesis by (simp add: sign_jwt_def Let_def split_on_cons split_on_plain dot_free)
qed

lemma num_claim_ok: "0 \<le> n \<Longrightarrow> n \<le> 2 ^ 52 \<Longrightarrow> json_ok (num_claim n)"
  using of_int_le_iff[of n "2 ^ 52", where 'a = rat] by (simp add: num_claim_def)

lemma scopes_ok: "elems_ok (map Str ss)"
  by (induction ss) auto

text \<open>The laws of the crypto library: its own signatures verify.\<close>

definition signs_verify :: "token_lib \<Rightarrow> bool" where
  "signs_verify lib = (\<forall>key m. tl_check lib key m (tl_sign lib key m))"

definition claim_time :: "int \<Rightarrow> bool" where
  "claim_time now = (0 \<le> now \<and> now + 3600 \<le> 2 ^ 52)"

lemma model_router_claims_ok: "claim_time now \<Longrightarrow> json_ok (model_router_claims lib opts jti now)"
  using num_claim_ok[of now] num_claim_ok[of "now + 3600"]
  by (auto simp: claim_time_def model_router_claims_def base_claims_def extra_claims_def scopes_claim_def scopes_ok
      simp del: json_ok.simps(2) split: option.splits)

lemma verify_signed:
  assumes "get_private_key lib = Some key" and "signs_verify lib" and "json_ok claims"
    and "js_get claims ''iss'' = Str ''hill90-api''" "js_get claims ''aud'' = Str ''hill90-model-router''"
    and "allow \<or> \<not> expired claims t"
  shows "verify_model_router_token lib (sign_jwt lib key claims) allow t = Some claims"
proof -
  have "json_parse (from_base64url (token_segment lib jwt_header)) = Some jwt_header"
    unfolding token_segment_def by (rule segment_roundtrip) (simp add: jwt_header_def)
  moreover have "js_get jwt_header ''alg'' = Str ''EdDSA''" by (simp add: jwt_header_def)
  moreover have "json_parse (from_base64url (token_segment lib claims)) = Some claims"
    unfolding token_segment_def by (rule segment_roundtrip[OF assms(3)])
  ultimately show ?thesis using assms
    by (simp add: verify_model_router_token_def split_jwt base64url_roundtrip signs_verify_def)
qed

lemma model_router_claim_values:
  "js_get (model_router_claims lib opts jti now) ''iss'' = Str ''hill90-api''"
  "js_get (model_router_claims lib opts jti now) ''aud'' = Str ''hill90-model-router''"
  "js_get (model_router_claims lib opts jti now) ''sub'' = Str (if tl_v2 lib then to_uuid opts else to_slug opts)"
  "js_get (model_router_claims lib opts jti now) ''jti'' = Str jti"
  "js_get (model_router_claims lib opts jti now) ''owner'' = Str (to_owner opts)"
  "js_get (model_router_claims lib opts jti now) ''exp'' = num_claim (now + 3600)"
  by (simp_all add: model_router_claims_def base_claims_def)

lemma claims_expired: "expired (model_router_claims lib opts jti now) t = (now + 3600 < t)"
proof -
  have "(of_int (now + 3600) :: rat) < of_int t \<longleftrightarrow> now + 3600 < t" by (rule of_int_less_iff)
  then show ?thesis by (simp add: expired_def model_router_claim_values num_claim_def)
qed

lemma akm_claims_ok: "claim_time now \<Longrightarrow> json_ok (akm_claims lib opts jti now)"
  using num_claim_ok[of now] num_claim_ok[of "now + 3600"]
  by (auto simp: claim_time_def akm_claims_def base_claims_def extra_claims_def scopes_claim_def scopes_ok
      simp del: json_ok.simps(2) split: option.splits)

lemma akm_refused:
  assumes "get_private_key lib = Some key" "claim_time now"
  shows "verify_model_router_token lib (sign_jwt lib key (akm_claims lib opts jti now)) allow t = None"
proof -
  have "json_parse (from_base64url (token_segment lib (akm_claims lib opts jti now))) = Some (akm_claims lib opts jti now)"
    unfolding token_segment_def by (rule segment_roundtrip[OF akm_claims_ok[OF assms(2)]])
  moreover have "js_get (akm_claims lib opts jti now) ''aud'' = Str ''hill90-akm''"
    by (simp add: akm_claims_def base_claims_def)
  ultimately show ?thesis
    by (simp add: verify_model_router_token_def split_jwt assms(1) split: option.split)
qed

text \<open>
  C33: What is issued verifies, and only where it is meant to. If the crypto library verifies
  its own signatures, a model-router token that was issued at time \<open>now\<close> passes the verifier
  unchanged: through base64url and JSON, both ways, the payload comes back with the agent,
  the owner and the token id it was issued for, up to an hour after, and after that only in
  the refresh flow, which ignores expiry. A knowledge token signed with the same key is
  refused at any time.
\<close>

theorem issued_token_verifies:
  assumes "generate_agent_model_router_token lib opts k now = Some r"
    and "signs_verify lib" and "claim_time now"
  shows "(\<exists>c. verify_model_router_token lib (tr_token r) True t = Some c
      \<and> verify_model_router_token lib (tr_token r) False t = (if t \<le> tr_expires r then Some c else None)
      \<and> js_get c ''sub'' = Str (if tl_v2 lib then to_uuid opts else to_slug opts)
      \<and> js_get c ''owner'' = Str (to_owner opts) \<and> js_get c ''jti'' = Str (tr_jti r))
    \<and> map_option (\<lambda>x. verify_model_router_token lib (tr_token x) allow t)
        (generate_agent_akm_token lib opts k now) = Some None"
proof -
  obtain key where key: "get_private_key lib = Some key"
    using assms(1) by (auto simp: generate_agent_model_router_token_def issue_def split: option.splits)
  let ?c = "model_router_claims lib opts (tl_uuid lib k) now"
  have r: "tr_token r = sign_jwt lib key ?c" "tr_jti r = tl_uuid lib k" "tr_expires r = now + 3600"
    using assms(1) key by (auto simp: generate_agent_model_router_token_def issue_def Let_def)
  have v: "verify_model_router_token lib (tr_token r) al t = Some ?c" if "al \<or> t \<le> tr_expires r" for al
    unfolding r(1) using that r(3)
    by (intro verify_signed[OF key assms(2) model_router_claims_ok[OF assms(3)]])
       (auto simp: model_router_claim_values claims_expired)
  have late: "verify_model_router_token lib (tr_token r) False t = None" if "\<not> t \<le> tr_expires r"
  proof -
    have "json_parse (from_base64url (token_segment lib ?c)) = Some ?c"
      unfolding token_segment_def by (rule segment_roundtrip[OF model_router_claims_ok[OF assms(3)]])
    then show ?thesis using that r(3) unfolding r(1)
      by (simp add: verify_model_router_token_def split_jwt claims_expired key split: option.split)
  qed
  have akm: "map_option (\<lambda>x. verify_model_router_token lib (tr_token x) allow t) (generate_agent_akm_token lib opts k now) = Some None"
    using key akm_refused[OF key assms(3)] by (simp add: generate_agent_akm_token_def issue_def Let_def)
  show ?thesis
    using v[of True] v[of False] late akm r(2)
    by (intro conjI exI[of _ ?c]) (auto simp: model_router_claim_values)
qed

section \<open>Refresh\<close>

text \<open>What revoking the superseded token adds to the revocations and to the audit log.\<close>

definition superseded :: "tok_env \<Rightarrow> tok_agent \<Rightarrow> (string \<times> int) list \<times> (string \<times> string) list" where
  "superseded env a =
     (case ta_jti a of
        None \<Rightarrow> ([], [])
      | Some j \<Rightarrow>
          if j = [] then ([], [])
          else if \<not> configured (tv_service env) then ([], [(''token_revoked'', j)])
          else (let until = (case ta_exp a of None \<Rightarrow> tv_now env + 3600 | Some t \<Rightarrow> t) in
                if tv_accepts env j until then ([(j, until)], [(''token_revoked'', j)])
                else ([], [(''token_revoke_failed'', j)])))"

lemma revoke_superseded_eq:
  "revoke_superseded env a w = (Inr (), w\<lparr>db := (db w)\<lparr>tk_revoked := fst (superseded env a) @ tk_revoked (db w),
     tk_audit := snd (superseded env a) @ tk_audit (db w)\<rparr>\<rparr>)"
  by (auto simp: revoke_superseded_def superseded_def revoke_agent_model_router_token_def audit_def
      eff_catch_def eff_seq_def eff_bind_def ret_def throw_def local_step_def Let_def split: option.splits)

text \<open>A row after its token was replaced.\<close>

definition renewed :: "token_lib \<Rightarrow> string \<Rightarrow> token_result \<Rightarrow> tok_agent \<Rightarrow> tok_agent" where
  "renewed lib i r x =
     (if ta_id x = i
      then x\<lparr>ta_jti := Some (tr_jti r), ta_exp := Some (tr_expires r), ta_hash := Some (tl_sha lib (tr_refresh r))\<rparr>
      else x)"

text \<open>The whole of a rotation: it fails without a trace, or it does all of its effects.\<close>

lemma refresh_rotate_cases:
  assumes "refresh_rotate lib env a w = (res, w')"
  shows "(\<exists>e. res = Inl e \<and> tk_agents (db w') = tk_agents (db w) \<and> tk_revoked (db w') = tk_revoked (db w)
            \<and> tk_audit (db w') = tk_audit (db w))
    \<or> (\<exists>r. generate_agent_model_router_token lib (refresh_opts a) (tk_count (db w)) (tv_now env) = Some r
         \<and> res = Inr (TkRenewed (tr_token r) (tr_refresh r) (tr_expires r))
         \<and> tk_agents (db w') = map (renewed lib (ta_id a) r) (tk_agents (db w))
         \<and> tk_revoked (db w') = fst (superseded env a) @ tk_revoked (db w)
         \<and> tk_audit (db w') = snd (superseded env a) @ tk_audit (db w)
         \<and> tk_count (db w') = tk_count (db w) + 2)"
proof (cases "generate_agent_model_router_token lib (refresh_opts a) (tk_count (db w)) (tv_now env)")
  case None
  then show ?thesis using assms
    by (auto simp: refresh_rotate_def draw_def eff_bind_def eff_seq_def peek_def local_step_def ret_def throw_def)
next
  case (Some r)
  let ?w = "w\<lparr>db := (db w)\<lparr>tk_count := tk_count (db w) + 2\<rparr>\<rparr>"
  have eq: "refresh_rotate lib env a w = eff_seq (store_token lib a r) (eff_seq (revoke_superseded env a)
      (ret (TkRenewed (tr_token r) (tr_refresh r) (tr_expires r)))) ?w"
    using Some by (simp add: refresh_rotate_def draw_def eff_bind_def eff_seq_def peek_def local_step_def ret_def)
  show ?thesis
  proof (cases "store_token lib a r ?w")
    case (Pair s w1)
    show ?thesis
    proof (cases s)
      case (Inl e)
      then have "db w1 = db ?w" using Pair
        by (auto simp: store_token_def db_write_def db_query_def Let_def split: list.splits bool.splits)
      then show ?thesis using assms eq Pair Inl by (auto simp: eff_seq_def eff_bind_def)
    next
      case (Inr u)
      then have "db w1 = (db ?w)\<lparr>tk_agents := map (renewed lib (ta_id a) r) (tk_agents (db w))\<rparr>" using Pair
        by (auto simp: store_token_def renewed_def[abs_def] db_write_def db_query_def Let_def split: list.splits bool.splits)
      then show ?thesis using assms eq Pair Inr Some
        by (auto simp: eff_seq_def eff_bind_def revoke_superseded_eq ret_def)
    qed
  qed
qed

lemma refresh_select_cases:
  assumes "refresh_select lib env sub secret w = (res, w')"
  shows "db w' = db w \<and> (case res of Inl _ \<Rightarrow> True | Inr None \<Rightarrow> True
    | Inr (Some a) \<Rightarrow> a \<in> set (tk_agents (db w)) \<and> refresh_match sub (tl_sha lib secret) a)"
proof -
  let ?rows = "filter (refresh_match sub (tl_sha lib secret)) (tk_agents (db w))"
  have "?rows ! (tv_pick env mod length ?rows) \<in> set ?rows" if "?rows \<noteq> []"
    using that by (intro nth_mem) simp
  then show ?thesis using assms
    by (auto simp: refresh_select_def db_read_def db_query_def Let_def split: list.splits bool.splits if_splits)
qed

text \<open>The handler refuses and changes nothing, or rotates the token of the row it found.\<close>

lemma refresh_handler_cases:
  assumes "model_router_refresh_handler lib env auth (Obj [(''refresh_secret'', Str secret)]) w = (res, w')"
  shows "db w' = db w \<and> (\<forall>t x e. res \<noteq> Inr (TkRenewed t x e))
    \<or> (\<exists>token payload sub a w1. bearer auth = Some token
        \<and> verify_model_router_token lib token True (tv_now env) = Some payload \<and> js_get payload ''sub'' = Str sub
        \<and> a \<in> set (tk_agents (db w)) \<and> refresh_match sub (tl_sha lib secret) a
        \<and> db w1 = db w \<and> refresh_rotate lib env a w1 = (res, w'))"
proof (cases "\<exists>token sub. is_model_router_configured lib \<and> secret \<noteq> [] \<and> bearer auth = Some token \<and> refresh_subject lib env token = Some sub")
  case False
  then have "(\<exists>n. res = Inr (TkStatus n)) \<and> w' = w" using assms
    unfolding model_router_refresh_handler_def
    by (cases "is_model_router_configured lib"; cases "secret = []"; cases "bearer auth";
        cases "refresh_subject lib env (the (bearer auth))") (auto simp: ret_def)
  then show ?thesis by auto
next
  case True
  then obtain token sub where ok: "is_model_router_configured lib" "secret \<noteq> []" "bearer auth = Some token"
      "refresh_subject lib env token = Some sub" by blast
  obtain payload where p: "verify_model_router_token lib token True (tv_now env) = Some payload" "js_get payload ''sub'' = Str sub"
    using ok(4) by (auto simp: refresh_subject_def split: option.splits js.splits if_splits)
  obtain row w1 where sel: "refresh_select lib env sub secret w = (row, w1)" by fastforce
  have run: "(res, w') = (case row of Inl x \<Rightarrow> (Inl x, w1) | Inr None \<Rightarrow> (Inr (TkStatus 401), w1)
      | Inr (Some a) \<Rightarrow> refresh_rotate lib env a w1)"
    using assms ok sel by (simp add: model_router_refresh_handler_def eff_bind_def ret_def split: sum.splits option.splits)
  have s: "db w1 = db w" using refresh_select_cases[OF sel] by simp
  show ?thesis
  proof (cases "\<exists>a. row = Inr (Some a)")
    case False
    then show ?thesis using run s by (auto split: sum.splits option.splits)
  next
    case True
    then obtain a where a: "row = Inr (Some a)" by blast
    then show ?thesis using refresh_select_cases[OF sel] ok(3) p run by auto
  qed
qed


section \<open>Two flaws\<close>

lemma superseded_old: "fst ` set (fst (superseded env a)) \<subseteq> (case ta_jti a of None \<Rightarrow> {} | Some j \<Rightarrow> {j})"
  by (auto simp: superseded_def Let_def split: option.splits if_splits)

lemma rotate_calm:
  assumes "faults w = []" "get_private_key lib = Some key"
  shows "\<exists>r w'. generate_agent_model_router_token lib (refresh_opts a) (tk_count (db w)) (tv_now env) = Some r
    \<and> refresh_rotate lib env a w = (Inr (TkRenewed (tr_token r) (tr_refresh r) (tr_expires r)), w')
    \<and> faults w' = [] \<and> tr_jti r = tl_uuid lib (tk_count (db w)) \<and> tr_refresh r = tl_uuid lib (tk_count (db w) + 1)
    \<and> tk_agents (db w') = map (renewed lib (ta_id a) r) (tk_agents (db w))
    \<and> tk_revoked (db w') = fst (superseded env a) @ tk_revoked (db w) \<and> tk_count (db w') = tk_count (db w) + 2"
proof -
  obtain r where r: "generate_agent_model_router_token lib (refresh_opts a) (tk_count (db w)) (tv_now env) = Some r"
      "tr_jti r = tl_uuid lib (tk_count (db w))" "tr_refresh r = tl_uuid lib (tk_count (db w) + 1)"
    using assms(2) by (simp add: generate_agent_model_router_token_def issue_def Let_def)
  obtain res w' where rot: "refresh_rotate lib env a w = (res, w')" by fastforce
  have "faults w' = [] \<and> (\<exists>x. res = Inr x)" using rot assms(1) r(1)
    by (auto simp: refresh_rotate_def draw_def eff_bind_def eff_seq_def peek_def local_step_def ret_def
        store_token_def db_write_def db_query_def revoke_superseded_eq Let_def)
  then show ?thesis using refresh_rotate_cases[OF rot] r rot by auto
qed

text \<open>
  Concurrent refreshes lose a token. The row is found by the old secret but written by
  the agent's id alone, so two requests with the same secret that both pass the check before
  either writes are both answered with a new token. Afterwards the agent's row knows neither
  the first token's id nor its secret, although the first caller was told they are good: its
  next refresh is refused, and no revocation names the token that was handed out.
\<close>

theorem refresh_race:
  assumes "faults w = []" and "get_private_key lib = Some key" and "a \<in> set (tk_agents (db w))"
    and "inj (tl_uuid lib)" and "inj (tl_sha lib)" and "ta_jti a = Some old"
    and "fst ` set (tk_revoked (db w)) \<subseteq> {old}" and "old \<noteq> tl_uuid lib (tk_count (db w))"
  shows "\<exists>t1 s1 e1 t2 s2 e2 w1 w2.
    refresh_rotate lib env a w = (Inr (TkRenewed t1 s1 e1), w1)
    \<and> refresh_rotate lib env a w1 = (Inr (TkRenewed t2 s2 e2), w2)
    \<and> (\<forall>x \<in> set (tk_agents (db w2)). ta_id x = ta_id a \<longrightarrow>
         ta_hash x \<noteq> Some (tl_sha lib s1) \<and> ta_jti x \<noteq> Some (tl_uuid lib (tk_count (db w))))
    \<and> tl_uuid lib (tk_count (db w)) \<notin> fst ` set (tk_revoked (db w2))"
proof -
  obtain r1 w1 where 1: "refresh_rotate lib env a w = (Inr (TkRenewed (tr_token r1) (tr_refresh r1) (tr_expires r1)), w1)"
      "faults w1 = []" "tr_refresh r1 = tl_uuid lib (tk_count (db w) + 1)"
      "tk_agents (db w1) = map (renewed lib (ta_id a) r1) (tk_agents (db w))"
      "tk_revoked (db w1) = fst (superseded env a) @ tk_revoked (db w)" "tk_count (db w1) = tk_count (db w) + 2"
    using rotate_calm[OF assms(1,2), of a env] by blast
  obtain r2 w2 where 2: "refresh_rotate lib env a w1 = (Inr (TkRenewed (tr_token r2) (tr_refresh r2) (tr_expires r2)), w2)"
      "tr_jti r2 = tl_uuid lib (tk_count (db w1))" "tr_refresh r2 = tl_uuid lib (tk_count (db w1) + 1)"
      "tk_agents (db w2) = map (renewed lib (ta_id a) r2) (tk_agents (db w1))"
      "tk_revoked (db w2) = fst (superseded env a) @ tk_revoked (db w1)"
    using rotate_calm[OF 1(2) assms(2), of a env] by blast
  have id: "ta_id (renewed lib i r x) = ta_id x" for i r x by (simp add: renewed_def)
  have rows: "ta_hash x \<noteq> Some (tl_sha lib (tr_refresh r1)) \<and> ta_jti x \<noteq> Some (tl_uuid lib (tk_count (db w)))"
    if x: "x \<in> set (tk_agents (db w2))" and i: "ta_id x = ta_id a" for x
  proof -
    obtain y where y: "x = renewed lib (ta_id a) r2 y" using x unfolding 2(4) set_map by blast
    then have "ta_id y = ta_id a" using i id by simp
    then show ?thesis using y 1(3,6) 2(2,3) inj_eq[OF assms(4)] inj_eq[OF assms(5)] by (simp add: renewed_def)
  qed
  have "fst ` set (tk_revoked (db w2)) \<subseteq> {old}"
    using 1(5) 2(5) assms(6,7) superseded_old[of env a] by auto
  then have "tl_uuid lib (tk_count (db w)) \<notin> fst ` set (tk_revoked (db w2))" using assms(8) by blast
  then show ?thesis using 1(1) 2(1) rows by blast
qed

text \<open>
  Without a service token the revocation is skipped and returns normally, and the audit log
  says that the token was revoked.
\<close>

lemma refresh_audit_lies:
  assumes "\<not> configured (tv_service env)" "ta_jti a = Some j" "j \<noteq> []"
  shows "revoke_superseded env a w = (Inr (), w\<lparr>db := (db w)\<lparr>tk_audit := (''token_revoked'', j) # tk_audit (db w)\<rparr>\<rparr>)"
  using assms by (simp add: revoke_superseded_eq superseded_def)

text \<open>A key stored with escaped newlines signs tokens and cannot sign a delegation.\<close>

lemma delegation_needs_raw_key:
  assumes "tl_key lib = Some k" "tl_load lib k = None" "configured service"
    and "truthy (js_get body ''sub'')" "truthy (js_get body ''delegation_id'')"
    and "truthy (js_get body ''parent_jti'')" "truthy (js_get body ''expires_at'')"
  shows "delegation_token_handler lib service (Some (''Bearer '' @ the service)) body n t = TkStatus 500"
proof -
  have "\<not> nullish body" using assms(4) by (cases body) auto
  moreover have "bearer (Some (''Bearer '' @ the service)) = Some (the service)"
    by (simp add: bearer_def startsWith_append slice_from_def del: append.simps)
  moreover have "sign_delegation_token lib body n t = None" using assms(1,2) by (simp add: sign_delegation_token_def)
  ultimately show ?thesis using assms unfolding delegation_token_handler_def by simp
qed

section \<open>Witnesses\<close>

text \<open>A toy signature: the message under the key.\<close>

definition demo_tokens :: token_lib where
  "demo_tokens = \<lparr>tl_key = Some ''k'', tl_load = Some, tl_sign = (\<lambda>k m. k @ m), tl_check = (\<lambda>k m s. s = k @ m),
     tl_uuid = decimal, tl_sha = (\<lambda>s. ''h'' @ s), tl_fmt = (\<lambda>_. ''0''), tl_v2 = False\<rparr>"

definition demo_tok_agent :: tok_agent where
  "demo_tok_agent = \<lparr>ta_id = ''id1'', ta_slug = ''box'', ta_status = ''running'', ta_jti = Some ''old'',
     ta_exp = Some 9, ta_hash = Some ''hs0'', ta_owner = ''u1''\<rparr>"

definition demo_tok_env :: tok_env where
  "demo_tok_env = \<lparr>tv_service = Some ''svc'', tv_accepts = (\<lambda>_ _. True), tv_pick = 0, tv_now = 100\<rparr>"

definition demo_tok_world :: "tok_db world" where
  "demo_tok_world = \<lparr>faults = [], db = \<lparr>tk_agents = [demo_tok_agent], tk_revoked = [], tk_audit = [], tk_count = 7\<rparr>\<rparr>"

definition demo_issued :: token_result where
  "demo_issued = the (generate_agent_model_router_token demo_tokens (refresh_opts demo_tok_agent) 7 100)"

lemma demo_key: "get_private_key demo_tokens = Some ''k''"
  by (simp add: demo_tokens_def get_private_key_def configured_def)

lemma demo_generate:
  "generate_agent_model_router_token demo_tokens (refresh_opts demo_tok_agent) 7 100 = Some demo_issued"
  "tr_expires demo_issued = 3700"
  by (simp_all add: demo_issued_def generate_agent_model_router_token_def issue_def Let_def demo_key)

lemma demo_signs: "signs_verify demo_tokens"
  by (simp add: signs_verify_def demo_tokens_def)

lemma demo_subject: "tl_v2 demo_tokens = False" "to_slug (refresh_opts demo_tok_agent) = ''box''"
  by (simp_all add: demo_tokens_def refresh_opts_def demo_tok_agent_def)

theorem issued_token_verifies_witness:
  "\<exists>c. verify_model_router_token demo_tokens (tr_token demo_issued) True 3800 = Some c
    \<and> verify_model_router_token demo_tokens (tr_token demo_issued) False 3800 = None
    \<and> js_get c ''sub'' = Str ''box''"
proof -
  have "claim_time 100" by (simp add: claim_time_def)
  from issued_token_verifies[OF demo_generate(1) demo_signs this, of 3800]
  show ?thesis unfolding demo_generate(2) demo_subject by auto
qed

theorem refresh_race_witness:
  "\<exists>t1 s1 e1 w1. refresh_rotate demo_tokens demo_tok_env demo_tok_agent demo_tok_world = (Inr (TkRenewed t1 s1 e1), w1)"
proof -
  have "decimal m = decimal n \<Longrightarrow> m = n" for m n by (metis decimal_val of_nat_eq_iff)
  then have "inj decimal" by (rule injI)
  then have uuid: "inj (tl_uuid demo_tokens)" by (simp add: demo_tokens_def)
  have sha: "inj (tl_sha demo_tokens)" by (simp add: inj_def demo_tokens_def)
  have w: "faults demo_tok_world = []" "demo_tok_agent \<in> set (tk_agents (db demo_tok_world))"
      "ta_jti demo_tok_agent = Some ''old''" "fst ` set (tk_revoked (db demo_tok_world)) \<subseteq> {''old''}"
    by (simp_all add: demo_tok_world_def demo_tok_agent_def)
  have old: "''old'' \<noteq> tl_uuid demo_tokens (tk_count (db demo_tok_world))"
    by (simp add: demo_tokens_def demo_tok_world_def decimal.simps digit_char_def)
  show ?thesis
    using refresh_race[OF w(1) demo_key w(2) uuid sha w(3,4) old, of demo_tok_env] by blast
qed

lemma demo_verifies: "\<exists>c. verify_model_router_token demo_tokens (tr_token demo_issued) True 100 = Some c
    \<and> js_get c ''sub'' = Str ''box''"
proof -
  have t: "tr_token demo_issued = sign_jwt demo_tokens ''k'' (model_router_claims demo_tokens (refresh_opts demo_tok_agent) (tl_uuid demo_tokens 7) 100)"
    by (simp add: demo_issued_def generate_agent_model_router_token_def issue_def Let_def demo_key)
  have "claim_time 100" by (simp add: claim_time_def)
  then show ?thesis unfolding t
    by (subst verify_signed[OF demo_key demo_signs model_router_claims_ok])
      (auto simp: model_router_claim_values demo_subject)
qed

definition demo_refresh :: "(tok_db, tk_resp) eff" where
  "demo_refresh = model_router_refresh_handler demo_tokens demo_tok_env
     (Some (''Bearer '' @ tr_token demo_issued)) (Obj [(''refresh_secret'', Str ''s0'')])"

lemma demo_refresh_renews: "\<exists>t s e w'. demo_refresh demo_tok_world = (Inr (TkRenewed t s e), w')"
proof -
  obtain c where "verify_model_router_token demo_tokens (tr_token demo_issued) True 100 = Some c" "js_get c ''sub'' = Str ''box''"
    using demo_verifies by blast
  then have sub: "refresh_subject demo_tokens demo_tok_env (tr_token demo_issued) = Some ''box''"
    by (simp add: refresh_subject_def demo_tok_env_def)
  have b: "bearer (Some (''Bearer '' @ x)) = Some x" for x
    by (simp add: bearer_def startsWith_append slice_from_def del: append.simps)
  have k: "is_model_router_configured demo_tokens"
    by (simp add: is_model_router_configured_def demo_tokens_def configured_def)
  have sel: "refresh_select demo_tokens demo_tok_env ''box'' ''s0'' demo_tok_world = (Inr (Some demo_tok_agent), demo_tok_world)"
    by (simp add: refresh_select_def db_read_def db_query_def demo_tok_world_def refresh_match_def demo_tok_agent_def
        demo_tokens_def)
  have "faults demo_tok_world = []" by (simp add: demo_tok_world_def)
  from rotate_calm[OF this demo_key, of demo_tok_agent demo_tok_env]
  show ?thesis by (auto simp: demo_refresh_def model_router_refresh_handler_def k b sub eff_bind_def sel simp del: append.simps)
qed


end
