(* ===== verification/ToolsConfig.thy ===== *)
theory ToolsConfig
  imports JsValue
begin

text \<open>
  \<open>services/merge-tools-config.ts\<close>: the tools an agent may use are merged from its skills.
  What a configuration permits is read as the agent's process reads it
  (\<open>services/agentbox/app/policy.py\<close>): an empty list of binaries allows all of them.
  \<open>grants\<close> is the specification: a configuration up to the order and the repetition of its
  lists; merging refines the join of the grants.
\<close>

section \<open>Configurations\<close>

record shell_config =
  sc_enabled :: bool
  sc_allowed :: "string list"
  sc_denied :: "string list"
  sc_timeout :: jsnum

record fs_config =
  fs_enabled :: bool
  fs_read_only :: bool
  fs_allowed :: "string list"
  fs_denied :: "string list"

record tools_config =
  tc_shell :: shell_config
  tc_fs :: fs_config
  tc_health :: bool

definition default_tools_config :: tools_config where
  "default_tools_config =
     \<lparr>tc_shell = \<lparr>sc_enabled = False, sc_allowed = [], sc_denied = [], sc_timeout = Fin 300\<rparr>,
      tc_fs = \<lparr>fs_enabled = False, fs_read_only = False, fs_allowed = [''/workspace'', ''/home/agentuser''],
               fs_denied = []\<rparr>,
      tc_health = True\<rparr>"

text \<open>\<open>Math.max\<close>: NaN wins, the empty maximum is negative infinity.\<close>

fun num_max :: "jsnum \<Rightarrow> jsnum \<Rightarrow> jsnum" where
  "num_max NaN y = NaN"
| "num_max x NaN = NaN"
| "num_max PosInf y = PosInf"
| "num_max x PosInf = PosInf"
| "num_max NegInf y = y"
| "num_max x NegInf = x"
| "num_max (Fin p) (Fin q) = Fin (max p q)"

definition math_max :: "jsnum list \<Rightarrow> jsnum" where
  "math_max xs = foldr num_max xs NegInf"

definition merge_tools_configs :: "tools_config list \<Rightarrow> tools_config" where
  "merge_tools_configs cs =
     (case cs of
        [] \<Rightarrow> default_tools_config
      | [c] \<Rightarrow> c
      | _ \<Rightarrow>
         (let sh = map tc_shell cs; fs = map tc_fs cs;
              any_unrestricted = (\<exists>c \<in> set sh. sc_allowed c = []) in
          \<lparr>tc_shell =
             \<lparr>sc_enabled = (\<exists>c \<in> set sh. sc_enabled c),
              sc_allowed = (if any_unrestricted then [] else dedupe (concat (map sc_allowed sh))),
              sc_denied = dedupe (concat (map sc_denied sh)),
              sc_timeout = math_max (map sc_timeout sh)\<rparr>,
           tc_fs =
             \<lparr>fs_enabled = (\<exists>c \<in> set fs. fs_enabled c),
              fs_read_only = (\<forall>c \<in> set fs. fs_read_only c),
              fs_allowed = dedupe (concat (map fs_allowed fs)),
              fs_denied = dedupe (concat (map fs_denied fs))\<rparr>,
           tc_health = (\<exists>c \<in> set cs. tc_health c)\<rparr>))"

section \<open>Summaries that ignore order\<close>

text \<open>
  An operation on lists whose result, seen through \<open>abs\<close>, is the join of what its arguments
  are: then neither order nor repetition matters, and merging may be done in groups.
\<close>

locale summary = semilattice_set join
  for join :: "'a \<Rightarrow> 'a \<Rightarrow> 'a" +
  fixes merge :: "'c list \<Rightarrow> 'c" and abs :: "'c \<Rightarrow> 'a"
  assumes merge_one: "abs (merge [c]) = abs c"
    and merge_more: "cs \<noteq> [] \<Longrightarrow> abs (merge (c # cs)) = join (abs c) (abs (merge cs))"
begin

lemma merge_joins: "cs \<noteq> [] \<Longrightarrow> abs (merge cs) = F (abs ` set cs)"
proof (induction cs)
  case (Cons c cs)
  show ?case
  proof (cases "cs = []")
    case True
    then show ?thesis by (simp add: merge_one)
  next
    case False
    then have "F (insert (abs c) (abs ` set cs)) = join (abs c) (F (abs ` set cs))" by (intro insert) auto
    then show ?thesis using Cons False by (simp add: merge_more)
  qed
qed simp

lemma blind: "cs \<noteq> [] \<Longrightarrow> set ds = set cs \<Longrightarrow> abs (merge ds) = abs (merge cs)"
  by (metis merge_joins set_empty)

lemma grouped:
  assumes "cs \<noteq> []" and "ds \<noteq> []"
  shows "abs (merge [merge cs, merge ds]) = abs (merge (cs @ ds))"
  using assms union[of "abs ` set cs" "abs ` set ds"]
  by (simp add: merge_joins image_Un)

end

section \<open>What a configuration grants\<close>

record grants =
  g_shell :: bool
  g_binaries :: "string set option"
  g_denied :: "string set"
  g_timeout :: jsnum
  g_files :: bool
  g_read_only :: bool
  g_paths :: "string set"
  g_closed :: "string set"
  g_health :: bool

definition grants_of :: "tools_config \<Rightarrow> grants" where
  "grants_of c =
     \<lparr>g_shell = sc_enabled (tc_shell c),
      g_binaries = (if sc_allowed (tc_shell c) = [] then None else Some (set (sc_allowed (tc_shell c)))),
      g_denied = set (sc_denied (tc_shell c)), g_timeout = sc_timeout (tc_shell c),
      g_files = fs_enabled (tc_fs c), g_read_only = fs_read_only (tc_fs c),
      g_paths = set (fs_allowed (tc_fs c)), g_closed = set (fs_denied (tc_fs c)), g_health = tc_health c\<rparr>"

definition both_or_all :: "string set option \<Rightarrow> string set option \<Rightarrow> string set option" where
  "both_or_all x y = (case (x, y) of (Some a, Some b) \<Rightarrow> Some (a \<union> b) | _ \<Rightarrow> None)"

definition join_grants :: "grants \<Rightarrow> grants \<Rightarrow> grants" where
  "join_grants x y =
     \<lparr>g_shell = (g_shell x \<or> g_shell y), g_binaries = both_or_all (g_binaries x) (g_binaries y),
      g_denied = g_denied x \<union> g_denied y, g_timeout = num_max (g_timeout x) (g_timeout y),
      g_files = (g_files x \<or> g_files y), g_read_only = (g_read_only x \<and> g_read_only y),
      g_paths = g_paths x \<union> g_paths y, g_closed = g_closed x \<union> g_closed y,
      g_health = (g_health x \<or> g_health y)\<rparr>"

lemma num_max_laws:
  "num_max (num_max x y) z = num_max x (num_max y z)" "num_max x y = num_max y x" "num_max x x = x"
  "num_max x NegInf = x" "num_max NegInf x = x"
  by (cases x; cases y; cases z; simp add: max.assoc max.commute)+

lemma both_or_all_laws:
  "both_or_all (both_or_all x y) z = both_or_all x (both_or_all y z)" "both_or_all x y = both_or_all y x"
  "both_or_all x x = x"
  by (auto simp: both_or_all_def split: option.splits)

interpretation grant_join: summary join_grants merge_tools_configs grants_of
proof unfold_locales
  show "join_grants (join_grants a b) c = join_grants a (join_grants b c)" for a b c
    by (simp add: join_grants_def num_max_laws(1) both_or_all_laws(1) Un_assoc)
  show "join_grants a b = join_grants b a" for a b
    by (auto simp: join_grants_def num_max_laws(2)[of "g_timeout a"] both_or_all_laws(2)[of "g_binaries a"])
  show "join_grants a a = a" for a
    by (simp add: join_grants_def num_max_laws both_or_all_laws)
  show "grants_of (merge_tools_configs [c]) = grants_of c" for c
    by (simp add: merge_tools_configs_def)
  show "grants_of (merge_tools_configs (c # cs)) = join_grants (grants_of c) (grants_of (merge_tools_configs cs))"
    if "cs \<noteq> []" for c cs
  proof (cases cs)
    case (Cons d ds)
    then show ?thesis
      by (cases ds)
        (auto simp: merge_tools_configs_def grants_of_def join_grants_def both_or_all_def math_max_def Let_def
          num_max_laws)
  qed (use that in simp)
qed

text \<open>
  C35: Merging is order-independent and loses nothing it promises to keep. Seen as grants, the
  merged configuration does not depend on the order of the skills or on repetitions, and may
  be computed in groups. It is the least upper bound the table of the source describes: shell
  and files are enabled if some skill enables them, every denial of every skill is kept, the
  binaries are restricted only if all skills restrict them, and then to the union.
\<close>

theorem merge_refines_grants:
  assumes "cs \<noteq> []"
  shows "grants_of (merge_tools_configs cs) =
      \<lparr>g_shell = (\<exists>c \<in> set cs. sc_enabled (tc_shell c)),
       g_binaries = (if \<exists>c \<in> set cs. sc_allowed (tc_shell c) = [] then None
                     else Some (\<Union>c \<in> set cs. set (sc_allowed (tc_shell c)))),
       g_denied = (\<Union>c \<in> set cs. set (sc_denied (tc_shell c))),
       g_timeout = math_max (map (sc_timeout \<circ> tc_shell) cs),
       g_files = (\<exists>c \<in> set cs. fs_enabled (tc_fs c)), g_read_only = (\<forall>c \<in> set cs. fs_read_only (tc_fs c)),
       g_paths = (\<Union>c \<in> set cs. set (fs_allowed (tc_fs c))),
       g_closed = (\<Union>c \<in> set cs. set (fs_denied (tc_fs c))), g_health = (\<exists>c \<in> set cs. tc_health c)\<rparr>
    \<and> (set ds = set cs \<longrightarrow> grants_of (merge_tools_configs ds) = grants_of (merge_tools_configs cs))
    \<and> grants_of (merge_tools_configs [merge_tools_configs cs, merge_tools_configs (c # es)]) =
        grants_of (merge_tools_configs (cs @ c # es))"
proof (intro conjI impI)
  show "set ds = set cs \<Longrightarrow> grants_of (merge_tools_configs ds) = grants_of (merge_tools_configs cs)"
    by (rule grant_join.blind[OF assms])
  show "grants_of (merge_tools_configs [merge_tools_configs cs, merge_tools_configs (c # es)]) =
      grants_of (merge_tools_configs (cs @ c # es))"
    by (rule grant_join.grouped[OF assms]) simp
qed (use assms in \<open>auto simp: merge_tools_configs_def grants_of_def Let_def math_max_def num_max_laws
      split: list.split\<close>)

section \<open>What the agent's process permits\<close>

text \<open>
  \<open>CommandPolicy.check\<close>: \<open>pl_search\<close> is \<open>re.search\<close>, \<open>pl_split\<close> is \<open>shlex.split\<close>, and the two
  resolutions look a name up in the container's PATH.
\<close>

record policy_lib =
  pl_search :: "string \<Rightarrow> string \<Rightarrow> bool"
  pl_split :: "string \<Rightarrow> string list option"
  pl_resolve :: "string \<Rightarrow> string"
  pl_resolve_name :: "string \<Rightarrow> string"

definition command_allowed :: "policy_lib \<Rightarrow> shell_config \<Rightarrow> string \<Rightarrow> bool" where
  "command_allowed lib c cmd =
     (if \<exists>p \<in> set (sc_denied c). pl_search lib p cmd then False
      else case pl_split lib cmd of
        None \<Rightarrow> False
      | Some [] \<Rightarrow> False
      | Some (b # _) \<Rightarrow>
          if sc_allowed c \<noteq> [] then pl_resolve lib b \<in> pl_resolve_name lib ` set (sc_allowed c) else True)"

text \<open>The shell tool exists only when it is enabled.\<close>

definition shell_runs :: "policy_lib \<Rightarrow> tools_config \<Rightarrow> string \<Rightarrow> bool" where
  "shell_runs lib c cmd = (sc_enabled (tc_shell c) \<and> command_allowed lib (tc_shell c) cmd)"

definition files_writable :: "tools_config \<Rightarrow> bool" where
  "files_writable c = (fs_enabled (tc_fs c) \<and> \<not> fs_read_only (tc_fs c))"

text \<open>
  A skill without tools lifts the restrictions of another. Merging a skill that grants
  neither shell nor files (and so leaves its lists empty) with a skill that restricts the
  shell to a list of binaries, or the files to reading, gives an agent that may run every
  command the second does not deny and may write: rights that neither skill has. The default
  configuration is such a skill.
\<close>

theorem merge_lifts_restrictions:
  assumes "\<not> sc_enabled (tc_shell d)" and "sc_allowed (tc_shell d) = []" and "sc_denied (tc_shell d) = []"
    and "\<not> fs_enabled (tc_fs d)" and "\<not> fs_read_only (tc_fs d)"
    and "sc_enabled (tc_shell c)" and "fs_enabled (tc_fs c)" and "fs_read_only (tc_fs c)"
    and "pl_split lib cmd = Some (b # args)" and "\<forall>p \<in> set (sc_denied (tc_shell c)). \<not> pl_search lib p cmd"
    and "pl_resolve lib b \<notin> pl_resolve_name lib ` set (sc_allowed (tc_shell c))" "sc_allowed (tc_shell c) \<noteq> []"
  shows "\<not> shell_runs lib c cmd \<and> \<not> shell_runs lib d cmd \<and> shell_runs lib (merge_tools_configs [c, d]) cmd
    \<and> \<not> files_writable c \<and> \<not> files_writable d \<and> files_writable (merge_tools_configs [c, d])"
  using assms by (auto simp: shell_runs_def command_allowed_def files_writable_def merge_tools_configs_def)

definition demo_policy :: policy_lib where
  "demo_policy = \<lparr>pl_search = (\<lambda>p s. sublist p s), pl_split = (\<lambda>s. Some (split_on (CHR '' '') s)),
     pl_resolve = id, pl_resolve_name = id\<rparr>"

definition git_only :: tools_config where
  "git_only = \<lparr>tc_shell = \<lparr>sc_enabled = True, sc_allowed = [''git''], sc_denied = [''push''], sc_timeout = Fin 60\<rparr>,
     tc_fs = \<lparr>fs_enabled = True, fs_read_only = True, fs_allowed = [''/workspace''], fs_denied = []\<rparr>,
     tc_health = True\<rparr>"

theorem merge_refines_grants_witness:
  "grants_of (merge_tools_configs [git_only, default_tools_config]) =
   grants_of (merge_tools_configs [default_tools_config, git_only, default_tools_config])"
proof -
  have "[git_only, default_tools_config] \<noteq> []" "set [default_tools_config, git_only, default_tools_config] = set [git_only, default_tools_config]"
    by auto
  then show ?thesis using merge_refines_grants[THEN conjunct2, THEN conjunct1, THEN mp] by (metis (no_types))
qed

theorem merge_lifts_restrictions_witness:
  "\<not> shell_runs demo_policy git_only ''rm x''
   \<and> shell_runs demo_policy (merge_tools_configs [git_only, default_tools_config]) ''rm x''"
proof -
  have "pl_split demo_policy ''rm x'' = Some [''rm'', ''x'']"
    by (simp add: demo_policy_def split_on.simps)
  moreover have "\<forall>p \<in> set (sc_denied (tc_shell git_only)). \<not> pl_search demo_policy p ''rm x''"
    by (simp add: demo_policy_def git_only_def sublist_code)
  ultimately show ?thesis
    using merge_lifts_restrictions[of default_tools_config git_only demo_policy "''rm x''" "''rm''" "[''x'']"]
    by (simp add: git_only_def demo_policy_def default_tools_config_def)
qed

end
