(* ===== verification/Secrets.thy ===== *)
theory Secrets
  imports Encoding Effects
begin

text \<open>
  Encryption at rest (\<open>services/provider-key-crypto.ts\<close>) and the check of its key at boot
  (\<open>services/provider-key-canary.ts\<close>). AES-256-GCM is Node's: a cipher is a parameter that
  seals a text under a key and a nonce into a ciphertext and a tag, and opens them again. Byte
  strings are strings, a text is its UTF-8 bytes.
\<close>

section \<open>The cipher\<close>

text \<open>\<open>cl_nonce\<close> is the n-th draw of \<open>randomBytes(12)\<close>.\<close>

record cipher_lib =
  cl_seal :: "string \<Rightarrow> string \<Rightarrow> string \<Rightarrow> string \<times> string"
  cl_open :: "string \<Rightarrow> string \<Rightarrow> string \<Rightarrow> string \<Rightarrow> string option"
  cl_nonce :: "nat \<Rightarrow> string"

text \<open>
  What is documented of the cipher: under a key of 32 bytes a tag has 16, and what was sealed under a key and a
  nonce opens under them to the text it was sealed from.
\<close>

definition cipher_laws :: "cipher_lib \<Rightarrow> bool" where
  "cipher_laws lib \<longleftrightarrow>
     (\<forall>k n p. length k = 32 \<longrightarrow> length (snd (cl_seal lib k n p)) = 16
        \<and> cl_open lib k n (fst (cl_seal lib k n p)) (snd (cl_seal lib k n p)) = Some p)"

datatype crypt_error =
    NoKey | BadKey | TooShort | KeyMismatch

text \<open>The dash of the message, in UTF-8.\<close>

definition em_dash :: string where
  "em_dash = [CHR 0xE2, CHR 0x80, CHR 0x94]"

definition key_text :: "crypt_error \<Rightarrow> string" where
  "key_text e =
     (case e of
        NoKey \<Rightarrow> ''PROVIDER_KEY_ENCRYPTION_KEY not configured''
      | BadKey \<Rightarrow> ''PROVIDER_KEY_ENCRYPTION_KEY must be 32 bytes (64 hex chars)''
      | TooShort \<Rightarrow> ''Ciphertext too short''
      | KeyMismatch \<Rightarrow> ''PROVIDER_KEY_ENCRYPTION_KEY could not decrypt this ciphertext '' @ em_dash
          @ '' either the key is missing/malformed, or it does not match the key that encrypted the stored data.'')"

definition tag_length :: nat where
  "tag_length = 16"

text \<open>\<open>Buffer.from(s, 'hex')\<close> stops at the first pair that is no byte.\<close>

fun from_hex :: "string \<Rightarrow> string" where
  "from_hex (a # b # r) =
     (case (hex_val a, hex_val b) of
        (Some x, Some y) \<Rightarrow> char_of (16 * x + y) # from_hex r
      | _ \<Rightarrow> [])"
| "from_hex _ = []"

definition get_key_buffer :: "string \<Rightarrow> crypt_error + string" where
  "get_key_buffer hex = (let k = from_hex hex in if length k \<noteq> 32 then Inl BadKey else Inr k)"

text \<open>A stored secret: ciphertext with the tag appended, and the nonce.\<close>

type_synonym sealed = "string \<times> string"

definition encrypt_provider_key :: "cipher_lib \<Rightarrow> string \<Rightarrow> string \<Rightarrow> nat \<Rightarrow> crypt_error + sealed" where
  "encrypt_provider_key lib plain hex draw =
     (case get_key_buffer hex of
        Inl e \<Rightarrow> Inl e
      | Inr k \<Rightarrow> (let n = cl_nonce lib draw; (c, t) = cl_seal lib k n plain in Inr (c @ t, n)))"

definition decrypt_provider_key :: "cipher_lib \<Rightarrow> string \<Rightarrow> string \<Rightarrow> string \<Rightarrow> crypt_error + string" where
  "decrypt_provider_key lib encrypted nonce hex =
     (if length encrypted < tag_length then Inl TooShort
      else case get_key_buffer hex of
        Inl e \<Rightarrow> Inl KeyMismatch
      | Inr k \<Rightarrow>
          (let m = length encrypted - tag_length in
           case cl_open lib k nonce (take m encrypted) (drop m encrypted) of
             None \<Rightarrow> Inl KeyMismatch
           | Some p \<Rightarrow> Inr p))"

text \<open>The key of the process, an environment variable; the empty one counts as missing.\<close>

definition configured_key :: "string option \<Rightarrow> crypt_error + string" where
  "configured_key v = (case v of None \<Rightarrow> Inl NoKey | Some s \<Rightarrow> if s = [] then Inl NoKey else Inr s)"

definition usable_key :: "string \<Rightarrow> bool" where
  "usable_key hex = (length (from_hex hex) = 32)"

section \<open>Round trip\<close>

lemma key_buffer_usable: "usable_key hex \<Longrightarrow> get_key_buffer hex = Inr (from_hex hex)"
  by (simp add: usable_key_def get_key_buffer_def Let_def)

lemma key_buffer_unusable: "\<not> usable_key hex \<Longrightarrow> get_key_buffer hex = Inl BadKey"
  by (simp add: usable_key_def get_key_buffer_def Let_def)

lemma encrypt_usable:
  "usable_key hex \<Longrightarrow> encrypt_provider_key lib p hex n =
     Inr (fst (cl_seal lib (from_hex hex) (cl_nonce lib n) p) @ snd (cl_seal lib (from_hex hex) (cl_nonce lib n) p),
          cl_nonce lib n)"
  by (simp add: encrypt_provider_key_def key_buffer_usable Let_def split: prod.splits)

lemma decrypt_encrypted:
  assumes "cipher_laws lib" "usable_key hex" "encrypt_provider_key lib p hex n = Inr (c, nonce)"
  shows "decrypt_provider_key lib c nonce hex = Inr p"
  using assms
  by (auto simp: encrypt_usable decrypt_provider_key_def key_buffer_usable cipher_laws_def tag_length_def usable_key_def Let_def)

text \<open>A secret under a usable key is a codec, and so is a JSON value kept as one.\<close>

definition seal_text :: "cipher_lib \<Rightarrow> string \<Rightarrow> nat \<Rightarrow> string \<Rightarrow> sealed option" where
  "seal_text lib hex n p = (case encrypt_provider_key lib p hex n of Inl e \<Rightarrow> None | Inr s \<Rightarrow> Some s)"

definition open_text :: "cipher_lib \<Rightarrow> string \<Rightarrow> sealed option \<Rightarrow> string option" where
  "open_text lib hex s =
     (case s of None \<Rightarrow> None
      | Some (c, n) \<Rightarrow> (case decrypt_provider_key lib c n hex of Inl e \<Rightarrow> None | Inr p \<Rightarrow> Some p))"

interpretation sealing: codec "seal_text lib hex n" "open_text lib hex" "\<lambda>_. cipher_laws lib \<and> usable_key hex" for lib hex n
proof unfold_locales
  fix p assume ok: "cipher_laws lib \<and> usable_key hex"
  obtain c m where e: "encrypt_provider_key lib p hex n = Inr (c, m)" using ok by (simp add: encrypt_usable)
  have "decrypt_provider_key lib c m hex = Inr p" using decrypt_encrypted ok e by blast
  then show "open_text lib hex (seal_text lib hex n p) = Some p" by (simp add: seal_text_def open_text_def e)
qed

interpretation sealed_json: codec_chain "js_stringify fmt" json_parse "\<lambda>v. json_ok v \<and> cipher_laws lib \<and> usable_key hex"
    "seal_text lib hex n" "open_text lib hex" "\<lambda>_. cipher_laws lib \<and> usable_key hex" for fmt lib hex n
  by unfold_locales (auto simp: json_roundtrip)

section \<open>The canary\<close>

text \<open>
  Rows of the four tables with their two columns; the order is that in which the table is read,
  which \<open>LIMIT 1\<close> without \<open>ORDER BY\<close> leaves open.
\<close>

record vault =
  va_connections :: "(string option \<times> string option) list"
  va_mcp :: "(string option \<times> string option) list"
  va_env :: "(string option \<times> string option) list"
  va_hooks :: "(string option \<times> string option) list"

definition candidates :: "(string \<times> (vault \<Rightarrow> (string option \<times> string option) list)) list" where
  "candidates = [(''provider_connections'', va_connections), (''mcp_servers'', va_mcp),
     (''agents.env_vars'', va_env), (''agent_webhooks.secret'', va_hooks)]"

fun whole :: "string option \<times> string option \<Rightarrow> sealed option" where
  "whole (Some c, Some n) = Some (c, n)"
| "whole _ = None"

definition first_sealed :: "(string option \<times> string option) list \<Rightarrow> sealed option" where
  "first_sealed rows = (case List.map_filter whole rows of [] \<Rightarrow> None | s # _ \<Rightarrow> Some s)"

fun find_from :: "(string \<times> (vault \<Rightarrow> (string option \<times> string option) list)) list \<Rightarrow> (vault, (string \<times> sealed) option) eff" where
  "find_from [] = ret None"
| "find_from ((src, tab) # cs) =
     eff_bind (db_read (\<lambda>v. first_sealed (tab v))) (\<lambda>r.
     case r of Some s \<Rightarrow> ret (Some (src, s)) | None \<Rightarrow> find_from cs)"

definition find_existing_ciphertext :: "(vault, (string \<times> sealed) option) eff" where
  "find_existing_ciphertext = find_from candidates"

datatype canary_result = Verified string | NothingToVerify

definition run_provider_key_canary :: "cipher_lib \<Rightarrow> string option \<Rightarrow> (vault, canary_result) eff" where
  "run_provider_key_canary lib key =
     eff_bind find_existing_ciphertext (\<lambda>cand.
     case cand of
       None \<Rightarrow> ret NothingToVerify
     | Some (src, (c, n)) \<Rightarrow>
         (case configured_key key of
            Inl e \<Rightarrow> throw (Thrown (key_text KeyMismatch))
          | Inr hex \<Rightarrow>
              (case decrypt_provider_key lib c n hex of
                 Inl e \<Rightarrow> throw (Thrown (key_text e))
               | Inr _ \<Rightarrow> ret (Verified src))))"

end
