(* ===== verification/Fleet.thy ===== *)
theory Fleet
  imports ToolsConfig Tokens Docker Reconciler ChatDb Secrets
begin

text \<open>
  The state the agent routes work on (\<open>routes/agents.ts\<close>): the agents with all the columns the
  lifecycle reads or writes, their skills and tools, sessions and history, what the Docker
  engine was asked, the tokens revoked at the two services, and what was audited, announced
  and notified. The chat tables are a part of it (\<open>fl_chat\<close>), and so is what the reconciler
  sees (\<open>observe\<close>), so that the components run on one state.

  Sections on the statements come first; the routes are in theories Skills, Installer and
  Lifecycle.
\<close>

section \<open>Tables\<close>

text \<open>The tool configuration of a row: merged from skills, or the caller's own JSON, kept as it is.\<close>

datatype stored_tools = Merged tools_config | Given js

record fleet_agent =
  fa_id :: string
  fa_slug :: string
  fa_name :: string
  fa_description :: string
  fa_status :: string
  fa_owner :: string
  fa_owner_name :: "string option"
  fa_cpus :: string
  fa_mem :: string
  fa_pids :: jsnum
  fa_tools :: stored_tools
  fa_soul :: string
  fa_rules :: string
  fa_profile :: "string option"
  fa_policy :: "string option"
  fa_tags :: "string list"
  fa_env_encrypted :: "string option"
  fa_env_nonce :: "string option"
  fa_avatar :: "string option"
  fa_container :: "string option"
  fa_container_state :: "string option"
  fa_error :: "string option"
  fa_finished :: "int option"
  fa_work :: "string option"
  fa_akm_jti :: "string option"
  fa_akm_exp :: "int option"
  fa_mr_jti :: "string option"
  fa_mr_exp :: "int option"
  fa_mr_hash :: "string option"

record skill_row =
  sk_id :: string
  sk_name :: string
  sk_scope :: string
  sk_config :: tools_config
  sk_instructions :: "string option"
  sk_description :: "string option"
  sk_platform :: bool

text \<open>Assignments are kept in the order of \<open>assigned_at\<close>.\<close>

record assignment =
  as_agent :: string
  as_skill :: string

record tool_row =
  tool_id :: string
  tool_name :: string
  tool_method :: string
  tool_ref :: "string option"

record install_row =
  in_agent :: string
  in_tool :: string
  in_status :: string
  in_message :: string
  in_at :: "int option"

record container_profile =
  pf_id :: string
  pf_image :: string
  pf_env :: "string list"
  pf_shm :: string

text \<open>
  Model policies (\<open>po_owner\<close> None: the platform's) and the models of users and platform; the
  names in a policy are JSON values.
\<close>

record policy_row =
  po_id :: string
  po_name :: string
  po_description :: string
  po_models :: "js list"
  po_owner :: "string option"

record model_row =
  mo_name :: string
  mo_owner :: "string option"
  mo_active :: bool

record webhook_row =
  wh_id :: string
  wh_agent :: string
  wh_url :: string
  wh_events :: "string list"
  wh_encrypted :: "string option"
  wh_nonce :: "string option"
  wh_active :: bool
  wh_created_by :: string

text \<open>A delivery that was attempted.\<close>

record hook_post =
  hp_hook :: string
  hp_url :: string
  hp_body :: string
  hp_signature :: "string option"

record fleet_session =
  fs_agent :: string
  fs_started :: int
  fs_estimated :: bool
  fs_stopped :: "int option"

text \<open>
  The files of an agent: \<open>agent.yml\<close> before it is printed (the printer is a library's), SOUL.md
  and RULES.md.
\<close>

record agent_yml =
  ay_version :: nat
  ay_id :: string
  ay_name :: string
  ay_description :: string
  ay_soul_path :: string
  ay_rules_path :: string
  ay_tools :: stored_tools
  ay_max_iterations :: nat
  ay_iteration_timeout :: nat
  ay_cpus :: string
  ay_mem :: string
  ay_pids :: jsnum
  ay_state :: "(string \<times> string) list"

record agent_files =
  af_yml :: agent_yml
  af_soul :: string
  af_rules :: string

text \<open>Audit lines carry the action, the agent and the token or container they name.\<close>

record fleet_db =
  fl_agents :: "fleet_agent list"
  fl_skills :: "skill_row list"
  fl_assigned :: "assignment list"
  fl_skill_tools :: "(string \<times> string) list"
  fl_tools :: "tool_row list"
  fl_installs :: "install_row list"
  fl_profiles :: "container_profile list"
  fl_policies :: "policy_row list"
  fl_models :: "model_row list"
  fl_webhooks :: "webhook_row list"
  fl_posts :: "hook_post list"
  fl_sessions :: "fleet_session list"
  fl_history :: "(string \<times> string \<times> string) list"
  fl_chat :: chat_db
  fl_calls :: "docker_call list"
  fl_fetched :: "string list"
  fl_files :: "(string \<times> agent_files) list"
  fl_akm_revoked :: "(string \<times> int) list"
  fl_mr_revoked :: "(string \<times> int) list"
  fl_audit :: "(string \<times> string \<times> string) list"
  fl_events :: "(string \<times> string) list"
  fl_notified :: "(js \<times> string) list"
  fl_default_verified :: bool
  fl_explicit :: "string \<Rightarrow> bool option"
  fl_count :: nat

section \<open>The surroundings\<close>

text \<open>
  The answer to a download, and \<open>new URL\<close> as far as the source reads it: protocol and host.
  \<open>fe_parse\<close> is the constructor with one argument, \<open>fe_resolve\<close> the \<open>href\<close> of the one with a
  base; None when it throws. Answers of hosts may depend on all that was fetched before.
  \<open>fe_rank\<close> orders names as the database's collation does; \<open>fe_fault_text\<close> is the message of a
  query that failed, \<open>fe_message\<close> that of an engine error. \<open>fe_write_files\<close> and
  \<open>fe_remove_files\<close> say whether the file system refuses, and how.

  \<open>fe_pg\<close> is the text the Postgres client makes of a parameter that is an array or an object,
  \<open>fe_new_id\<close> the ids the database draws, \<open>fe_hmac\<close> HMAC-SHA256 in hex, \<open>fe_iso\<close> the time as
  ISO text.
\<close>

record url_parts =
  up_protocol :: string
  up_host :: string

datatype fetch_result = FetchFails | Response nat "string option" bytes

record fleet_env =
  fe_uuid :: "string \<Rightarrow> string option"
  fe_docker :: docker_env
  fe_engine :: engine
  fe_date :: "string \<Rightarrow> int option"
  fe_message :: "dexn \<Rightarrow> string"
  fe_write_files :: "string \<Rightarrow> string option"
  fe_remove_files :: "string \<Rightarrow> string option"
  fe_lib :: token_lib
  fe_akm_key :: "string option"
  fe_akm :: tok_env
  fe_mr :: tok_env
  fe_akm_url :: string
  fe_router_url :: string
  fe_api_url :: string
  fe_callback :: "string option"
  fe_anthropic :: "string option"
  fe_tavily :: "string option"
  fe_client :: string
  fe_now :: int
  fe_fetch :: "string list \<Rightarrow> string \<Rightarrow> fetch_result"
  fe_parse :: "string \<Rightarrow> url_parts option"
  fe_resolve :: "string \<Rightarrow> string \<Rightarrow> string option"
  fe_rank :: "string \<Rightarrow> nat"
  fe_gh_version :: string
  fe_docker_version :: string
  fe_retries :: nat
  fe_fault_text :: string
  fe_cipher :: cipher_lib
  fe_enc_key :: "string option"
  fe_pg :: "js \<Rightarrow> string"
  fe_new_id :: "nat \<Rightarrow> string"
  fe_hmac :: "string \<Rightarrow> string \<Rightarrow> string"
  fe_iso :: string

text \<open>Both services sign with their own key; ids are drawn from one source.\<close>

definition akm_lib :: "fleet_env \<Rightarrow> token_lib" where
  "akm_lib env = (fe_lib env)\<lparr>tl_key := fe_akm_key env\<rparr>"

section \<open>Statements\<close>

definition find_fleet :: "string \<Rightarrow> fleet_db \<Rightarrow> fleet_agent option" where
  "find_fleet u d = find (\<lambda>a. fa_id a = u) (fl_agents d)"

text \<open>A parameter that is no uuid makes the statement throw.\<close>

definition fleet_query :: "fleet_env \<Rightarrow> string \<Rightarrow> (string \<Rightarrow> fleet_db \<Rightarrow> 'a \<times> fleet_db) \<Rightarrow> (fleet_db, 'a) eff" where
  "fleet_query env i q = db_query (\<lambda>d. case fe_uuid env i of None \<Rightarrow> Inl DbFault | Some u \<Rightarrow> Inr (q u d))"

definition select_agent :: "fleet_env \<Rightarrow> string \<Rightarrow> (fleet_db, fleet_agent option) eff" where
  "select_agent env i = fleet_query env i (\<lambda>u d. (find_fleet u d, d))"

definition change_agent :: "string \<Rightarrow> (fleet_agent \<Rightarrow> fleet_agent) \<Rightarrow> fleet_db \<Rightarrow> fleet_db" where
  "change_agent u f d = d\<lparr>fl_agents := map (\<lambda>a. if fa_id a = u then f a else a) (fl_agents d)\<rparr>"

definition update_fleet :: "fleet_env \<Rightarrow> string \<Rightarrow> (fleet_agent \<Rightarrow> fleet_agent) \<Rightarrow> (fleet_db, unit) eff" where
  "update_fleet env i f = fleet_query env i (\<lambda>u d. ((), change_agent u f d))"

definition best_effort :: "(fleet_db, unit) eff \<Rightarrow> (fleet_db, unit) eff" where
  "best_effort m = eff_catch m (\<lambda>_. ret ())"

definition fleet_audit :: "string \<Rightarrow> string \<Rightarrow> string \<Rightarrow> (fleet_db, unit) eff" where
  "fleet_audit action slug what = local_step (\<lambda>d. d\<lparr>fl_audit := fl_audit d @ [(action, slug, what)]\<rparr>)"

definition dispatch_event :: "string \<Rightarrow> string \<Rightarrow> (fleet_db, unit) eff" where
  "dispatch_event i ev = local_step (\<lambda>d. d\<lparr>fl_events := fl_events d @ [(i, ev)]\<rparr>)"

definition notify_user :: "js \<Rightarrow> string \<Rightarrow> (fleet_db, unit) eff" where
  "notify_user who what = local_step (\<lambda>d. d\<lparr>fl_notified := fl_notified d @ [(who, what)]\<rparr>)"

definition exn_text :: "fleet_env \<Rightarrow> exn \<Rightarrow> string" where
  "exn_text env e = (case e of Thrown s \<Rightarrow> s | _ \<Rightarrow> fe_fault_text env)"

definition log_status :: "string \<Rightarrow> string \<Rightarrow> string \<Rightarrow> (fleet_db, unit) eff" where
  "log_status i old new = db_write (\<lambda>d. d\<lparr>fl_history := fl_history d @ [(i, old, new)]\<rparr>)"

section \<open>Skills of an agent\<close>

definition skills_of :: "string \<Rightarrow> fleet_db \<Rightarrow> skill_row list" where
  "skills_of u d = concat (map (\<lambda>x. filter (\<lambda>s. sk_id s = as_skill x) (fl_skills d))
     (filter (\<lambda>x. as_agent x = u) (fl_assigned d)))"

definition scopes_of :: "string \<Rightarrow> fleet_db \<Rightarrow> string option list" where
  "scopes_of u d = map (\<lambda>s. Some (sk_scope s)) (skills_of u d)"

section \<open>The engine and the chat as parts\<close>

definition on_engine :: "fleet_env \<Rightarrow> 'a eng \<Rightarrow> (fleet_db, 'a) eff" where
  "on_engine env m w =
     (case m (fl_calls (db w)) of
        (r, h) \<Rightarrow> (map_sum (\<lambda>e. Thrown (fe_message env e)) id r, w\<lparr>db := (db w)\<lparr>fl_calls := h\<rparr>\<rparr>))"

definition on_chat :: "(chat_db, 'a) eff \<Rightarrow> (fleet_db, 'a) eff" where
  "on_chat = eff_zoom fl_chat (\<lambda>c d. d\<lparr>fl_chat := c\<rparr>)"

text \<open>The two revocation services, through the model of theory Tokens.\<close>

definition token_view :: "(string \<times> int) list \<Rightarrow> tok_db" where
  "token_view revoked = \<lparr>tk_agents = [], tk_revoked = revoked, tk_audit = [], tk_count = 0\<rparr>"

definition revoke_akm :: "fleet_env \<Rightarrow> string \<Rightarrow> int option \<Rightarrow> (fleet_db, unit) eff" where
  "revoke_akm env jti e =
     eff_zoom (\<lambda>d. token_view (fl_akm_revoked d)) (\<lambda>s d. d\<lparr>fl_akm_revoked := tk_revoked s\<rparr>)
       (revoke_agent_akm_token (fe_akm env) jti e)"

definition revoke_mr :: "fleet_env \<Rightarrow> string \<Rightarrow> int option \<Rightarrow> (fleet_db, unit) eff" where
  "revoke_mr env jti e =
     eff_zoom (\<lambda>d. token_view (fl_mr_revoked d)) (\<lambda>s d. d\<lparr>fl_mr_revoked := tk_revoked s\<rparr>)
       (revoke_agent_model_router_token (fe_mr env) jti e)"

section \<open>What the reconciler sees\<close>

definition observe_agent :: "fleet_agent \<Rightarrow> agent_row" where
  "observe_agent a =
     \<lparr>ag_id = fa_id a, ag_slug = fa_slug a, ag_status = fa_status a, ag_container_id = fa_container a,
      ag_container_state = fa_container_state a, ag_created_by = fa_owner a, ag_error = fa_error a,
      ag_finished = fa_finished a, ag_router_exp = fa_mr_exp a\<rparr>"

definition observe :: "fleet_db \<Rightarrow> rec_db" where
  "observe d =
     \<lparr>ags = map observe_agent (fl_agents d),
      sessions = map (\<lambda>s. \<lparr>se_agent = fs_agent s, se_stopped = fs_stopped s, se_estimated = False\<rparr>) (fl_sessions d),
      history = fl_history d, notices = [], now = 0, default_verified = fl_default_verified d,
      explicit = fl_explicit d, escalated = Map.empty\<rparr>"

definition mark_verified :: "string \<Rightarrow> (fleet_db, unit) eff" where
  "mark_verified slug = local_step (\<lambda>d. d\<lparr>fl_explicit := (fl_explicit d)(slug \<mapsto> True)\<rparr>)"

section \<open>Laws\<close>

lemma holds_fleet_query:
  assumes "\<And>d. P d \<Longrightarrow> E d" and "\<And>u d x d'. fe_uuid env i = Some u \<Longrightarrow> P d \<Longrightarrow> q u d = (x, d') \<Longrightarrow> Q x d'"
  shows "holds P (fleet_query env i q) Q E"
  unfolding fleet_query_def using assms by (intro holds_query) (auto split: option.splits)

lemma keeps_fleet_query: "(\<And>u d. I d \<Longrightarrow> I (snd (q u d))) \<Longrightarrow> keeps I (fleet_query env i q)"
  unfolding keeps_def by (rule holds_fleet_query) (auto, metis snd_conv)

lemma keeps_select_agent [inv_intros, intro]: "keeps I (select_agent env i)"
  unfolding select_agent_def by (rule keeps_fleet_query) simp

lemma yields_select_agent:
  "yields I (select_agent env i) (\<lambda>r. \<forall>a. r = Some a \<longrightarrow> fe_uuid env i = Some (fa_id a))"
  unfolding select_agent_def fleet_query_def
  by (rule yields_query) (auto simp: find_fleet_def find_Some_iff split: option.splits)

lemma keeps_update_fleet:
  "(\<And>u d. fe_uuid env i = Some u \<Longrightarrow> I d \<Longrightarrow> I (change_agent u f d)) \<Longrightarrow> keeps I (update_fleet env i f)"
  unfolding update_fleet_def keeps_def by (rule holds_fleet_query) auto

lemma keeps_best_effort [inv_intros, intro]: "keeps I m \<Longrightarrow> keeps I (best_effort m)"
  unfolding best_effort_def by (intro keeps_catch keeps_ret)

lemma keeps_on_engine:
  "(\<And>h d. I d \<Longrightarrow> I (d\<lparr>fl_calls := h\<rparr>)) \<Longrightarrow> keeps I (on_engine env m)"
  by (rule keepsI) (auto simp: on_engine_def split: prod.splits)

lemma keeps_on_chat: "(\<And>c d. I d \<Longrightarrow> I (d\<lparr>fl_chat := c\<rparr>)) \<Longrightarrow> keeps I (on_chat m)"
  unfolding on_chat_def by (rule keeps_zoom)

lemma keeps_revoke:
  "(\<And>x d. I d \<Longrightarrow> I (d\<lparr>fl_akm_revoked := x\<rparr>)) \<Longrightarrow> keeps I (revoke_akm env j e)"
  "(\<And>x d. I d \<Longrightarrow> I (d\<lparr>fl_mr_revoked := x\<rparr>)) \<Longrightarrow> keeps I (revoke_mr env j e)"
  unfolding revoke_akm_def revoke_mr_def by (rule keeps_zoom, simp)+

text \<open>What a revocation does, at either service: nothing, a new entry, or an exception.\<close>

lemma revoke_akm_eq:
  "revoke_akm env jti e w =
     (if \<not> configured (tv_service (fe_akm env)) then (Inr (), w)
      else (let until = (case e of None \<Rightarrow> tv_now (fe_akm env) + 3600 | Some t \<Rightarrow> t) in
        if tv_accepts (fe_akm env) jti until
        then (Inr (), w\<lparr>db := (db w)\<lparr>fl_akm_revoked := (jti, until) # fl_akm_revoked (db w)\<rparr>\<rparr>)
        else (Inl (Thrown ''AKM revocation failed''), w)))"
  by (auto simp: revoke_akm_def eff_zoom_def token_view_def revoke_agent_akm_token_def ret_def throw_def
      local_step_def Let_def)

lemma revoke_mr_eq:
  "revoke_mr env jti e w =
     (if \<not> configured (tv_service (fe_mr env)) then (Inr (), w)
      else (let until = (case e of None \<Rightarrow> tv_now (fe_mr env) + 3600 | Some t \<Rightarrow> t) in
        if tv_accepts (fe_mr env) jti until
        then (Inr (), w\<lparr>db := (db w)\<lparr>fl_mr_revoked := (jti, until) # fl_mr_revoked (db w)\<rparr>\<rparr>)
        else (Inl (Thrown ''Model-router revocation failed''), w)))"
  by (auto simp: revoke_mr_def eff_zoom_def token_view_def revoke_agent_model_router_token_def ret_def throw_def
      local_step_def Let_def)

text \<open>Marking an agent verified here is what the verification module does.\<close>

lemma observe_mark_verified:
  "observe (d\<lparr>fl_explicit := (fl_explicit d)(slug \<mapsto> True)\<rparr>) = mark_status_verified slug (observe d)"
  by (simp add: observe_def mark_status_verified_def)

lemma change_agent_ids [simp]:
  "(\<And>a. fa_id (f a) = fa_id a) \<Longrightarrow> map fa_id (fl_agents (change_agent u f d)) = map fa_id (fl_agents d)"
  by (simp add: change_agent_def)

end
