(* ===== verification/Installer.thy ===== *)
theory Installer
  imports Fleet ChatDispatch
begin

text \<open>
  \<open>services/tool-installer.ts\<close>: the tools that the skills of an agent need are put into its
  container, each with a bounded number of attempts and a status row. Downloads happen in the
  API process and follow redirects by hand, checking every hop. What the container answers
  comes from the engine of theory Docker. Tool names that are properties of
  \<open>Object.prototype\<close> are left out: the tables of versions and paths would find those.
\<close>

section \<open>Shell words\<close>

definition quote :: char where "quote = CHR 0x27"
definition backslash :: char where "backslash = CHR 0x5C"

definition shell_quote :: "string \<Rightarrow> string" where
  "shell_quote v =
     [quote] @ concat (map (\<lambda>c. if c = quote then [quote, backslash, quote, quote] else [c]) v) @ [quote]"

text \<open>
  How a POSIX shell reads a word: literal between quotes, one character after a backslash.
  The word ends at a blank; None for an open quote.
\<close>

fun sh_word :: "bool \<Rightarrow> string \<Rightarrow> (string \<times> string) option" where
  "sh_word True [] = None"
| "sh_word False [] = Some ([], [])"
| "sh_word True (c # s) =
     (if c = quote then sh_word False s else map_option (apfst ((#) c)) (sh_word True s))"
| "sh_word False (c # s) =
     (if c = quote then sh_word True s
      else if c = backslash then
        (case s of [] \<Rightarrow> None | d # s' \<Rightarrow> map_option (apfst ((#) d)) (sh_word False s'))
      else if c = CHR '' '' then Some ([], c # s)
      else map_option (apfst ((#) c)) (sh_word False s))"

section \<open>Downloads\<close>

definition allowed_download_hosts :: "string list" where
  "allowed_download_hosts =
     [''github.com'', ''release-assets.githubusercontent.com'', ''objects.githubusercontent.com'',
      ''download.docker.com'']"

definition download_url_ok :: "fleet_env \<Rightarrow> string \<Rightarrow> bool" where
  "download_url_ok env u =
     (case fe_parse env u of
        None \<Rightarrow> False
      | Some p \<Rightarrow> up_protocol p = ''https:'' \<and> up_host p \<in> set allowed_download_hosts)"

definition validate_download_url :: "fleet_env \<Rightarrow> string \<Rightarrow> (fleet_db, unit) eff" where
  "validate_download_url env u =
     (case fe_parse env u of
        None \<Rightarrow> throw (Thrown (''Invalid download URL: '' @ u))
      | Some p \<Rightarrow>
          if up_protocol p \<noteq> ''https:'' then throw (Thrown (''Download URL must use HTTPS (got '' @ up_protocol p @ ''): '' @ u))
          else if up_host p \<notin> set allowed_download_hosts
          then throw (Thrown (''Download URL hostname \"'' @ up_host p @ ''\" not in allowlist. Allowed: '' @ join_with '', '' allowed_download_hosts))
          else ret ())"

definition fetch :: "fleet_env \<Rightarrow> string \<Rightarrow> (fleet_db, fetch_result) eff" where
  "fetch env u = eff_bind (peek (\<lambda>d. fe_fetch env (fl_fetched d) u)) (\<lambda>r.
     eff_seq (local_step (\<lambda>d. d\<lparr>fl_fetched := fl_fetched d @ [u]\<rparr>)) (ret r))"

text \<open>The number counts the requests that are left.\<close>

primrec download_loop :: "fleet_env \<Rightarrow> string \<Rightarrow> nat \<Rightarrow> string \<Rightarrow> (fleet_db, bytes) eff" where
  "download_loop env orig 0 u = throw (Thrown (''Too many redirects (max 5) downloading '' @ orig))"
| "download_loop env orig (Suc n) u = eff_bind (fetch env u) (\<lambda>r.
     case r of
       FetchFails \<Rightarrow> throw (Thrown ''fetch failed'')
     | Response st loc body \<Rightarrow>
         if 300 \<le> st \<and> st < 400 then
           (case loc of
              None \<Rightarrow> throw (Thrown (''Redirect from '' @ u @ '' missing Location header''))
            | Some l \<Rightarrow>
                if l = [] then throw (Thrown (''Redirect from '' @ u @ '' missing Location header''))
                else (case fe_resolve env l u of
                        None \<Rightarrow> throw (Thrown ''Invalid URL'')
                      | Some v \<Rightarrow> eff_seq (validate_download_url env v) (download_loop env orig n v)))
         else if \<not> (200 \<le> st \<and> st < 300) then throw (Thrown (''Download failed: HTTP '' @ decimal st @ '' from '' @ u))
         else if body = [] then throw (Thrown (''Empty response from '' @ u))
         else ret body)"

definition max_download_redirects :: nat where
  "max_download_redirects = 5"

definition download_tarball :: "fleet_env \<Rightarrow> string \<Rightarrow> (fleet_db, bytes) eff" where
  "download_tarball env u =
     eff_seq (validate_download_url env u) (download_loop env u (max_download_redirects + 1) u)"

section \<open>Commands in the container\<close>

text \<open>
  Every call arms a timer, and a timer fires in the end: it is the last event if nothing
  settled the call before (\<open>exec_settles\<close> below).
\<close>

definition with_timer :: "engine \<Rightarrow> engine" where
  "with_timer e = e\<lparr>e_exec_events := \<lambda>h. e_exec_events e h @ [TimerFires]\<rparr>"

definition settled :: "exec_result option \<Rightarrow> (fleet_db, exec_result) eff" where
  "settled r = (case r of None \<Rightarrow> throw (Thrown ''not settled'') | Some x \<Rightarrow> ret x)"

definition run_command :: "fleet_env \<Rightarrow> string \<Rightarrow> string list \<Rightarrow> int \<Rightarrow> (fleet_db, exec_result) eff" where
  "run_command env slug cmd t =
     eff_bind (on_engine env (exec_in_container_with_exit (with_timer (fe_engine env)) slug cmd (Some t))) settled"

definition run_with_stdin :: "fleet_env \<Rightarrow> string \<Rightarrow> string list \<Rightarrow> bytes \<Rightarrow> int \<Rightarrow> (fleet_db, exec_result) eff" where
  "run_with_stdin env slug cmd input t =
     eff_bind (on_engine env (exec_with_stdin (with_timer (fe_engine env)) slug cmd input (Some t))) settled"

text \<open>\<open>`... ${result.stderr || result.stdout}`.trim()\<close>\<close>

definition text_of :: "bytes \<Rightarrow> string" where
  "text_of bs = map (\<lambda>b. char_of (unat b)) bs"

definition command_error :: "string \<Rightarrow> string \<Rightarrow> exec_result \<Rightarrow> exn" where
  "command_error what name r =
     Thrown (js_trim (what @ '' failed for \"'' @ name @ ''\": '' @
       text_of (if err_bytes r \<noteq> [] then err_bytes r else out_bytes r)))"

section \<open>Installing one tool\<close>

definition install_builtin :: "fleet_env \<Rightarrow> string \<Rightarrow> tool_row \<Rightarrow> (fleet_db, unit) eff" where
  "install_builtin env slug t =
     eff_bind (run_command env slug [''bash'', ''-lc'', ''command -v '' @ shell_quote (tool_name t)] 30000) (\<lambda>r.
     if exit_code r \<noteq> 0
     then throw (Thrown (''Builtin tool \"'' @ tool_name t @ ''\" not found in container PATH''))
     else ret ())"

definition apt_package :: "tool_row \<Rightarrow> string" where
  "apt_package t =
     (case tool_ref t of
        None \<Rightarrow> tool_name t
      | Some r \<Rightarrow> if js_trim r = [] then tool_name t else js_trim r)"

definition install_apt :: "fleet_env \<Rightarrow> string \<Rightarrow> tool_row \<Rightarrow> (fleet_db, unit) eff" where
  "install_apt env slug t =
     eff_bind (run_command env slug [''bash'', ''-lc'',
        ''command -v '' @ shell_quote (tool_name t) @
        '' >/dev/null 2>&1 || (apt-get update && DEBIAN_FRONTEND=noninteractive apt-get install -y --no-install-recommends '' @
        shell_quote (apt_package t) @ '')''] 120000) (\<lambda>r.
     if exit_code r \<noteq> 0 then throw (command_error ''APT install'' (tool_name t) r)
     else install_builtin env slug t)"

definition default_binary_version :: "fleet_env \<Rightarrow> string \<Rightarrow> string option" where
  "default_binary_version env n =
     (if n = ''gh'' then Some (fe_gh_version env)
      else if n = ''docker'' then Some (fe_docker_version env) else None)"

definition binary_path :: "string \<Rightarrow> string \<Rightarrow> string" where
  "binary_path n v =
     (if n = ''gh'' then ''gh_'' @ v @ ''_linux_amd64/bin/gh''
      else if n = ''docker'' then ''docker/docker'' else n @ ''/'' @ n)"

definition no_version :: "tool_row \<Rightarrow> exn" where
  "no_version t = Thrown (''No version configured for binary tool \"'' @ tool_name t @ ''\". Set HILL90_'' @
     to_upper (tool_name t) @ ''_VERSION or add to DEFAULT_BINARY_VERSIONS.'')"

definition binary_install_script :: "fleet_env \<Rightarrow> tool_row \<Rightarrow> exn + string" where
  "binary_install_script env t =
     (case default_binary_version env (tool_name t) of
        None \<Rightarrow> Inl (no_version t)
      | Some v \<Rightarrow>
          if v = [] then Inl (no_version t)
          else (let nl = [CHR 0x0A]; q = shell_quote (tool_name t) in
            Inr (nl @ ''set -euo pipefail'' @ nl @ ''mkdir -p /data/tools/bin /tmp/hill90-tools'' @ nl @
              ''tar -xzf - -C /tmp/hill90-tools'' @ nl @
              ''cp /tmp/hill90-tools/'' @ binary_path (tool_name t) v @ '' /data/tools/bin/'' @ q @ nl @
              ''chmod +x /data/tools/bin/'' @ q @ nl @ ''rm -rf /tmp/hill90-tools'' @ nl)))"

definition install_binary :: "fleet_env \<Rightarrow> string \<Rightarrow> tool_row \<Rightarrow> (fleet_db, unit) eff" where
  "install_binary env slug t =
     eff_bind (run_command env slug [''test'', ''-x'', ''/data/tools/bin/'' @ tool_name t] 30000) (\<lambda>c.
     if exit_code c = 0 then ret ()
     else case default_binary_version env (tool_name t) of
       None \<Rightarrow> throw (no_version t)
     | Some v \<Rightarrow>
         if v = [] then throw (no_version t)
         else case tool_ref t of
           None \<Rightarrow> throw (Thrown ''Cannot read properties of null'')
         | Some ref \<Rightarrow>
             eff_bind (download_tarball env (replace_all ''{version}'' v ref)) (\<lambda>tarball.
             case binary_install_script env t of
               Inl e \<Rightarrow> throw e
             | Inr script \<Rightarrow>
                 eff_bind (run_with_stdin env slug [''bash'', ''-lc'', script] tarball 300000) (\<lambda>r.
                 if exit_code r \<noteq> 0 then throw (command_error ''Binary install'' (tool_name t) r)
                 else ret ())))"

definition install_tool :: "fleet_env \<Rightarrow> string \<Rightarrow> tool_row \<Rightarrow> (fleet_db, unit) eff" where
  "install_tool env slug t =
     (if tool_method t = ''builtin'' then install_builtin env slug t
      else if tool_method t = ''apt'' then install_apt env slug t
      else install_binary env slug t)"

section \<open>Status rows and attempts\<close>

definition upsert_row :: "int \<Rightarrow> string \<Rightarrow> string \<Rightarrow> string \<Rightarrow> string \<Rightarrow> bool \<Rightarrow> install_row list \<Rightarrow> install_row list" where
  "upsert_row t u i st m stamp rows =
     (if \<exists>r \<in> set rows. in_agent r = u \<and> in_tool r = i
      then map (\<lambda>r. if in_agent r = u \<and> in_tool r = i
             then r\<lparr>in_status := st, in_message := m,
                    in_at := (if st = ''installed'' then Some t else in_at r)\<rparr>
             else r) rows
      else rows @ [\<lparr>in_agent = u, in_tool = i, in_status = st, in_message = m,
                    in_at = (if stamp then Some t else None)\<rparr>])"

definition upsert_install_status ::
    "fleet_env \<Rightarrow> string \<Rightarrow> string \<Rightarrow> string \<Rightarrow> string \<Rightarrow> bool \<Rightarrow> (fleet_db, unit) eff" where
  "upsert_install_status env u i st m stamp =
     db_write (\<lambda>d. d\<lparr>fl_installs := upsert_row (fe_now env) u i st m stamp (fl_installs d)\<rparr>)"

definition retry_message :: "fleet_env \<Rightarrow> bool \<Rightarrow> nat \<Rightarrow> exn \<Rightarrow> string" where
  "retry_message env again k e =
     (if again then ''reconcile: attempt '' @ decimal k @ '' failed, retrying''
      else ''attempt '' @ decimal k @ '' failed, retrying: '' @
           (if exn_text env e = [] then ''unknown'' else exn_text env e))"

text \<open>
  The attempts of a tool: \<open>n\<close> more after this one, which is the \<open>k\<close>-th. The outcome is
  \<open>lastError\<close>; a status row that cannot be written counts as a failed attempt, and one that
  cannot be written between two attempts throws. The flag tells the two callers apart.
\<close>

fun try_install :: "fleet_env \<Rightarrow> bool \<Rightarrow> string \<Rightarrow> string \<Rightarrow> tool_row \<Rightarrow> nat \<Rightarrow> nat \<Rightarrow> (fleet_db, exn option) eff" where
  "try_install env again u slug t n k =
     eff_bind (eff_try (eff_seq (install_tool env slug t)
                  (upsert_install_status env u (tool_id t) ''installed'' ''installed'' True))) (\<lambda>r.
     case r of
       Inr _ \<Rightarrow> ret None
     | Inl e \<Rightarrow>
         (case n of
            0 \<Rightarrow> ret (Some e)
          | Suc m \<Rightarrow>
              eff_seq (upsert_install_status env u (tool_id t) ''installing'' (retry_message env again k e) False)
                (try_install env again u slug t m (Suc k))))"

declare try_install.simps [simp del]

definition max_retries :: "fleet_env \<Rightarrow> tool_row \<Rightarrow> nat" where
  "max_retries env t = (if tool_method t = ''builtin'' then 0 else fe_retries env)"

definition failure_text :: "fleet_env \<Rightarrow> exn \<Rightarrow> string" where
  "failure_text env e = (if exn_text env e = [] then ''installation failed'' else exn_text env e)"

section \<open>All tools of an agent\<close>

definition required_tools :: "fleet_env \<Rightarrow> string \<Rightarrow> fleet_db \<Rightarrow> tool_row list" where
  "required_tools env u d = sort_key (\<lambda>t. fe_rank env (tool_name t))
     (filter (\<lambda>t. \<exists>x \<in> set (fl_assigned d). as_agent x = u \<and> (as_skill x, tool_id t) \<in> set (fl_skill_tools d))
       (fl_tools d))"

fun ensure_tools :: "fleet_env \<Rightarrow> string \<Rightarrow> string \<Rightarrow> tool_row list \<Rightarrow> (fleet_db, unit) eff" where
  "ensure_tools env u slug [] = ret ()"
| "ensure_tools env u slug (t # ts) =
     eff_seq (upsert_install_status env u (tool_id t) ''installing'' ''starting installation'' False)
     (eff_bind (try_install env False u slug t (max_retries env t) 1) (\<lambda>last.
      case last of
        None \<Rightarrow> ensure_tools env u slug ts
      | Some e \<Rightarrow>
          eff_seq (upsert_install_status env u (tool_id t) ''failed'' (failure_text env e) False)
            (throw (Thrown (''Failed installing required tool \"'' @ tool_name t @ ''\": '' @ failure_text env e)))))"

definition ensure_required_tools_installed :: "fleet_env \<Rightarrow> string \<Rightarrow> string \<Rightarrow> (fleet_db, unit) eff" where
  "ensure_required_tools_installed env u slug =
     eff_bind (db_read (required_tools env u)) (ensure_tools env u slug)"

record tool_report =
  tr_installed :: "string list"
  tr_already :: "string list"
  tr_failed :: "string list"

definition installed_set :: "string \<Rightarrow> fleet_db \<Rightarrow> install_row list" where
  "installed_set u d = filter (\<lambda>r. in_agent r = u) (fl_installs d)"

fun reconcile_tools :: "fleet_env \<Rightarrow> string \<Rightarrow> string \<Rightarrow> string set \<Rightarrow> tool_row list \<Rightarrow> tool_report \<Rightarrow> (fleet_db, tool_report) eff" where
  "reconcile_tools env u slug have_ids [] rep = ret rep"
| "reconcile_tools env u slug have_ids (t # ts) rep =
     (if tool_id t \<in> have_ids
      then reconcile_tools env u slug have_ids ts (rep\<lparr>tr_already := tr_already rep @ [tool_name t]\<rparr>)
      else
        eff_seq (upsert_install_status env u (tool_id t) ''installing'' ''reconcile: starting installation'' False)
        (eff_bind (try_install env True u slug t (max_retries env t) 1) (\<lambda>last.
         case last of
           None \<Rightarrow> reconcile_tools env u slug have_ids ts (rep\<lparr>tr_installed := tr_installed rep @ [tool_name t]\<rparr>)
         | Some e \<Rightarrow>
             eff_seq (upsert_install_status env u (tool_id t) ''failed'' (failure_text env e) False)
               (reconcile_tools env u slug have_ids ts (rep\<lparr>tr_failed := tr_failed rep @ [tool_name t]\<rparr>)))))"

definition delete_install :: "string \<Rightarrow> string \<Rightarrow> (fleet_db, unit) eff" where
  "delete_install u i = db_write (\<lambda>d. d\<lparr>fl_installs := filter (\<lambda>r. \<not> (in_agent r = u \<and> in_tool r = i)) (fl_installs d)\<rparr>)"

definition reconcile_tool_installs :: "fleet_env \<Rightarrow> string \<Rightarrow> string \<Rightarrow> (fleet_db, tool_report) eff" where
  "reconcile_tool_installs env u slug =
     eff_bind (db_read (required_tools env u)) (\<lambda>ts.
     eff_bind (db_read (installed_set u)) (\<lambda>old.
     eff_bind (reconcile_tools env u slug (in_tool ` {r \<in> set old. in_status r = ''installed''}) ts
                 \<lparr>tr_installed = [], tr_already = [], tr_failed = []\<rparr>) (\<lambda>rep.
     eff_seq (eff_for (filter (\<lambda>r. in_tool r \<notin> tool_id ` set ts) old) (\<lambda>r. delete_install u (in_tool r)))
       (ret rep))))"

end
