(* ===== verification/FleetDemo.thy ===== *)
theory FleetDemo
  imports Installer
begin

text \<open>
  A small concrete fleet: one agent with one skill that needs bash, an engine that answers
  every call, and services that accept every revocation.
\<close>

definition demo_cinfo :: cinfo where
  "demo_cinfo = \<lparr>ci_id = ''c1'', ci_status = ''running'', ci_labels = [(''managed-by'', ''hill90-api'')],
     ci_health = None, ci_finished = None, ci_started = None\<rparr>"

definition demo_docker :: engine where
  "demo_docker = \<lparr>e_inspect = (\<lambda>_ _. Inr demo_cinfo), e_image = (\<lambda>_ _. Inr None), e_do = (\<lambda>_ _. Inr ()),
     e_exec_events = (\<lambda>_. [End]), e_exec_code = (\<lambda>_. Inr (Some 0))\<rparr>"

definition demo_lib :: token_lib where
  "demo_lib = \<lparr>tl_key = None, tl_load = Some, tl_sign = (\<lambda>k m. k @ m), tl_check = (\<lambda>k m s. s = k @ m),
     tl_uuid = (\<lambda>n. replicate (Suc n) CHR ''u''), tl_sha = (\<lambda>s. ''h'' @ s), tl_fmt = (\<lambda>_. ''0''), tl_v2 = False\<rparr>"

definition demo_service :: tok_env where
  "demo_service = \<lparr>tv_service = Some ''svc'', tv_accepts = (\<lambda>_ _. True), tv_pick = 0, tv_now = 100\<rparr>"

text \<open>A cipher that hides nothing but keeps its laws, and a key of 32 bytes.\<close>

definition demo_cipher :: cipher_lib where
  "demo_cipher = \<lparr>cl_seal = (\<lambda>k n p. (p, take 16 k)),
     cl_open = (\<lambda>k n c t. if t = take 16 k then Some c else None),
     cl_nonce = (\<lambda>n. ''nonce'' @ decimal n)\<rparr>"

definition demo_hex :: string where
  "demo_hex = replicate 64 CHR ''a''"

lemma demo_cipher_laws: "cipher_laws demo_cipher"
  by (simp add: cipher_laws_def demo_cipher_def)

lemma demo_hex_usable: "usable_key demo_hex"
  by (simp add: usable_key_def demo_hex_def numeral_eq_Suc hex_val_def)

definition demo_fleet_env :: fleet_env where
  "demo_fleet_env = \<lparr>fe_uuid = Some, fe_docker = \<lparr>config_host_path = ''/cfg'', network_prefix = ''hill90''\<rparr>,
     fe_engine = demo_docker, fe_date = (\<lambda>_. None), fe_message = (\<lambda>_. ''engine''), fe_write_files = (\<lambda>_. None), fe_remove_files = (\<lambda>_. None),
     fe_lib = demo_lib, fe_akm_key = None, fe_akm = demo_service, fe_mr = demo_service, fe_akm_url = ''akm'',
     fe_router_url = ''ai'', fe_api_url = ''api'', fe_callback = None, fe_anthropic = None, fe_tavily = None,
     fe_client = ''ui'', fe_now = 100, fe_fetch = (\<lambda>_ _. FetchFails), fe_parse = (\<lambda>_. None),
     fe_resolve = (\<lambda>_ _. None), fe_rank = length, fe_gh_version = ''2'', fe_docker_version = ''28'',
     fe_retries = 1, fe_fault_text = ''query failed'', fe_cipher = demo_cipher, fe_enc_key = Some demo_hex,
     fe_pg = (\<lambda>_. ''{}''), fe_new_id = (\<lambda>n. ''n'' @ decimal n), fe_hmac = (\<lambda>k m. k @ m), fe_iso = ''now''\<rparr>"

definition demo_box :: fleet_agent where
  "demo_box = \<lparr>fa_id = ''a1'', fa_slug = ''box'', fa_name = ''Box'', fa_description = [], fa_status = ''stopped'', fa_owner = ''u1'', fa_owner_name = None,
     fa_cpus = ''1'', fa_mem = ''1g'', fa_pids = Fin 200, fa_tools = Merged default_tools_config, fa_soul = [], fa_rules = [],
     fa_profile = None, fa_policy = None, fa_tags = [], fa_env_encrypted = None, fa_env_nonce = None, fa_avatar = None, fa_container = None, fa_container_state = None, fa_error = None,
     fa_finished = None, fa_work = None, fa_akm_jti = None, fa_akm_exp = None, fa_mr_jti = None,
     fa_mr_exp = None, fa_mr_hash = None\<rparr>"

definition demo_skill :: skill_row where
  "demo_skill = \<lparr>sk_id = ''s1'', sk_name = ''shell'', sk_scope = ''container_local'', sk_config = git_only,
     sk_instructions = None, sk_description = None, sk_platform = False\<rparr>"

definition demo_bash :: tool_row where
  "demo_bash = \<lparr>tool_id = ''t1'', tool_name = ''bash'', tool_method = ''builtin'', tool_ref = None\<rparr>"

definition empty_chat :: chat_db where
  "empty_chat = \<lparr>d_threads = [], d_parts = [], d_msgs = [], d_agents = [], d_seq = 0, d_ids = 0, d_outbox = []\<rparr>"

definition demo_fleet :: fleet_db where
  "demo_fleet = \<lparr>fl_agents = [demo_box], fl_skills = [demo_skill],
     fl_assigned = [\<lparr>as_agent = ''a1'', as_skill = ''s1''\<rparr>], fl_skill_tools = [(''s1'', ''t1'')],
     fl_tools = [demo_bash], fl_installs = [], fl_profiles = [], fl_policies = [], fl_models = [], fl_webhooks = [], fl_posts = [],
     fl_sessions = [], fl_history = [],
     fl_chat = empty_chat, fl_calls = [], fl_fetched = [], fl_files = [], fl_akm_revoked = [],
     fl_mr_revoked = [], fl_audit = [], fl_events = [], fl_notified = [], fl_default_verified = False,
     fl_explicit = Map.empty, fl_count = 0\<rparr>"

definition demo_fleet_world :: "fleet_db world" where
  "demo_fleet_world = \<lparr>faults = [], db = demo_fleet\<rparr>"

lemma demo_required: "required_tools demo_fleet_env ''a1'' (db demo_fleet_world) = [demo_bash]"
  by (simp add: required_tools_def demo_fleet_world_def demo_fleet_def demo_bash_def)

end
