(* ===== verification/InstallerProps.thy ===== *)
theory InstallerProps
  imports FleetDemo "HOL-Library.Multiset"
begin

text \<open>
  What the installer guarantees: names reach the shell as single words, downloads stay on the
  allowed hosts and within a budget, a start that returns has every tool installed, and the
  report of a reconciliation agrees with the status rows.
\<close>

section \<open>Quoting\<close>

lemma sh_word_quoted:
  assumes "rest = [] \<or> (\<exists>s. rest = CHR '' '' # s)"
  shows "sh_word True (concat (map (\<lambda>c. if c = quote then [quote, backslash, quote, quote] else [c]) v) @ quote # rest) =
    Some (v, rest)"
proof (induction v)
  case Nil
  then show ?case using assms by (auto simp: quote_def backslash_def)
next
  case (Cons c v)
  have "backslash \<noteq> quote" by (simp add: quote_def backslash_def)
  then show ?case using Cons by (simp add: apfst_def)
qed

text \<open>
  Whatever a tool is called, the shell sees one word. Followed by a blank or by the end
  of the command, a quoted name is read back by the shell as exactly that name, so a name
  with quotes, blanks or separators in it cannot add words or commands.
\<close>

theorem shell_quote_one_word:
  "sh_word False (shell_quote v) = Some (v, []) \<and> sh_word False (shell_quote v @ '' '' @ s) = Some (v, '' '' @ s)"
  using sh_word_quoted[of "[]" v] sh_word_quoted[of "CHR '' '' # s" v] by (simp add: shell_quote_def)

section \<open>Frames\<close>

lemma ret_seq: "eff_seq (ret x) m = m"
  by (rule ext) (simp add: eff_seq_def eff_bind_def ret_def)

lemma throw_seq: "eff_seq (throw e) m = throw e"
  by (rule ext) (simp add: eff_seq_def eff_bind_def throw_def)

lemma validate_eq: "validate_download_url env u = (if download_url_ok env u then ret () else validate_download_url env u)"
  by (auto simp: validate_download_url_def download_url_ok_def split: option.split)

lemma validate_bad: "\<not> download_url_ok env u \<Longrightarrow> \<exists>e. validate_download_url env u = throw e"
  by (auto simp: validate_download_url_def download_url_ok_def split: option.splits)

text \<open>\<open>download_frame I\<close>: \<open>I\<close> survives engine calls and requests to allowed URLs.\<close>

definition download_frame :: "fleet_env \<Rightarrow> (fleet_db \<Rightarrow> bool) \<Rightarrow> bool" where
  "download_frame env I =
     ((\<forall>h d. I d \<longrightarrow> I (d\<lparr>fl_calls := h\<rparr>)) \<and>
      (\<forall>u d. download_url_ok env u \<longrightarrow> I d \<longrightarrow> I (d\<lparr>fl_fetched := fl_fetched d @ [u]\<rparr>)))"

lemma keeps_run_command:
  assumes "download_frame env I"
  shows "keeps I (run_command env slug cmd t)" and "keeps I (run_with_stdin env slug cmd input t)"
  unfolding run_command_def run_with_stdin_def settled_def using assms
  by (auto simp: download_frame_def intro!: keeps_bind keeps_on_engine)

lemma keeps_download_loop:
  assumes "download_frame env I"
  shows "download_url_ok env u \<Longrightarrow> keeps I (download_loop env orig n u)"
proof (induction n arbitrary: u)
  case (Suc n)
  have next_hop: "keeps I (eff_seq (validate_download_url env v) (download_loop env orig n v))" for v
  proof (cases "download_url_ok env v")
    case True
    then show ?thesis by (subst validate_eq) (simp only: if_True ret_seq Suc.IH)
  next
    case False
    then obtain e where "validate_download_url env v = throw e" using validate_bad by blast
    then show ?thesis by (simp add: throw_seq keeps_throw)
  qed
  have "keeps I (fetch env u)" unfolding fetch_def
    using assms Suc.prems by (intro keeps_bind keeps_peek keeps_seq keeps_local keeps_ret) (simp add: download_frame_def)
  then show ?case unfolding download_loop.simps
    by (rule keeps_bind) (auto split: fetch_result.split option.split intro: next_hop)
qed auto

lemma keeps_download_tarball:
  assumes "download_frame env I" shows "keeps I (download_tarball env u)"
proof (cases "download_url_ok env u")
  case True
  then show ?thesis unfolding download_tarball_def
    by (subst validate_eq) (simp only: if_True ret_seq keeps_download_loop[OF assms True])
next
  case False
  then obtain e where "validate_download_url env u = throw e" using validate_bad by blast
  then show ?thesis by (simp add: download_tarball_def throw_seq keeps_throw)
qed

lemma keeps_install_tool:
  assumes "download_frame env I" shows "keeps I (install_tool env slug t)"
proof -
  note run = keeps_run_command[OF assms]
  have b: "keeps I (install_builtin env slug t)" unfolding install_builtin_def
    by (intro keeps_bind run keeps_if keeps_throw keeps_ret)
  show ?thesis unfolding install_tool_def install_apt_def install_binary_def
    by (intro keeps_if keeps_bind run keeps_throw keeps_ret keeps_option keeps_sum
        keeps_download_tarball[OF assms] b)
qed

section \<open>Status rows\<close>

definition status_is :: "string \<Rightarrow> string \<Rightarrow> string \<Rightarrow> fleet_db \<Rightarrow> bool" where
  "status_is u i st d =
     ((\<exists>r \<in> set (fl_installs d). in_agent r = u \<and> in_tool r = i) \<and>
      (\<forall>r \<in> set (fl_installs d). in_agent r = u \<and> in_tool r = i \<longrightarrow> in_status r = st))"

lemma status_upsert:
  "status_is u i st (d\<lparr>fl_installs := upsert_row t u i st m b (fl_installs d)\<rparr>)"
proof (cases "\<exists>r \<in> set (fl_installs d). in_agent r = u \<and> in_tool r = i")
  case True
  then obtain r where "r \<in> set (fl_installs d)" "in_agent r = u" "in_tool r = i" by blast
  then have "\<exists>x \<in> set (upsert_row t u i st m b (fl_installs d)). in_agent x = u \<and> in_tool x = i"
    by (intro bexI[of _ "r\<lparr>in_status := st, in_message := m, in_at := (if st = ''installed'' then Some t else in_at r)\<rparr>"])
      (auto simp: upsert_row_def intro!: rev_image_eqI)
  moreover have "\<forall>x \<in> set (upsert_row t u i st m b (fl_installs d)). in_agent x = u \<and> in_tool x = i \<longrightarrow> in_status x = st"
    using True by (auto simp: upsert_row_def)
  ultimately show ?thesis by (simp add: status_is_def)
next
  case False
  then show ?thesis by (auto simp: status_is_def upsert_row_def)
qed

lemma status_upsert_other:
  "status_is u j st d \<Longrightarrow> j \<noteq> i \<Longrightarrow> status_is u j st (d\<lparr>fl_installs := upsert_row t u i st' m b (fl_installs d)\<rparr>)"
  by (fastforce simp: status_is_def upsert_row_def)

lemma status_frame [simp]:
  "status_is u j st (d\<lparr>fl_calls := h\<rparr>) = status_is u j st d"
  "status_is u j st (d\<lparr>fl_fetched := x\<rparr>) = status_is u j st d"
  by (simp_all add: status_is_def)

text \<open>
  A property of the rows that the upserts of tool \<open>i\<close> do not disturb survives its attempts,
  and when they succeed the row of the tool says so.
\<close>

definition upsert_frame :: "fleet_env \<Rightarrow> string \<Rightarrow> string \<Rightarrow> (fleet_db \<Rightarrow> bool) \<Rightarrow> bool" where
  "upsert_frame env u i P =
     (\<forall>d st m b. P d \<longrightarrow> P (d\<lparr>fl_installs := upsert_row (fe_now env) u i st m b (fl_installs d)\<rparr>))"

lemma holds_upsert:
  "upsert_frame env u i P \<Longrightarrow>
   holds P (upsert_install_status env u i st m b) (\<lambda>_ d. P d \<and> status_is u i st d) P"
  unfolding upsert_install_status_def upsert_frame_def by (rule holds_write) (auto simp: status_upsert)

lemma holds_try_install:
  assumes "download_frame env P" and "upsert_frame env u (tool_id t) P"
  shows "holds P (try_install env again u slug t n k)
    (\<lambda>r d. P d \<and> (r = None \<longrightarrow> status_is u (tool_id t) ''installed'' d)) P"
proof (induction n arbitrary: k)
  have one: "holds P (eff_try (eff_seq (install_tool env slug t)
        (upsert_install_status env u (tool_id t) ''installed'' ''installed'' True)))
      (\<lambda>r d. P d \<and> (\<forall>x. r = Inr x \<longrightarrow> status_is u (tool_id t) ''installed'' d)) P"
    using keeps_install_tool[OF assms(1), of slug t] unfolding keeps_def
    by (intro holds_try holds_seq[OF _ holds_conseq[OF holds_upsert[OF assms(2)]]]) auto
  {
    case 0
    show ?case unfolding try_install.simps[of _ _ _ _ _ 0]
      by (rule holds_bind[OF one]) (auto split: sum.split intro!: holds_ret)
  next
    case (Suc n)
    show ?case unfolding try_install.simps[of _ _ _ _ _ "Suc n"]
      by (rule holds_bind[OF one])
        (auto split: sum.split intro!: holds_ret holds_seq[OF holds_conseq[OF holds_upsert[OF assms(2)]] Suc.IH])
  }
qed

section \<open>A start that returns\<close>

lemma installed_frame:
  "download_frame env (\<lambda>d. \<forall>j \<in> S. status_is u j ''installed'' d)"
  by (simp add: download_frame_def)

lemma holds_ensure_tools:
  assumes "distinct (map tool_id ts)" and "S \<inter> tool_id ` set ts = {}"
  shows "holds (\<lambda>d. \<forall>j \<in> S. status_is u j ''installed'' d) (ensure_tools env u slug ts)
    (\<lambda>_ d. \<forall>j \<in> S \<union> tool_id ` set ts. status_is u j ''installed'' d) (\<lambda>_. True)"
  using assms
proof (induction ts arbitrary: S)
  case Nil
  then show ?case by (auto intro!: holds_ret)
next
  case (Cons t ts)
  let ?P = "\<lambda>d. \<forall>j \<in> S. status_is u j ''installed'' d"
  have up: "upsert_frame env u (tool_id t) ?P"
    using Cons.prems(2) by (auto simp: upsert_frame_def intro: status_upsert_other)
  have ih: "holds (\<lambda>d. \<forall>j \<in> insert (tool_id t) S. status_is u j ''installed'' d) (ensure_tools env u slug ts)
      (\<lambda>_ d. \<forall>j \<in> insert (tool_id t) S \<union> tool_id ` set ts. status_is u j ''installed'' d) (\<lambda>_. True)"
    using Cons.prems by (intro Cons.IH) auto
  have first: "holds ?P (upsert_install_status env u (tool_id t) ''installing'' ''starting installation'' False)
      (\<lambda>_. ?P) (\<lambda>_. True)"
    by (rule holds_conseq[OF holds_upsert[OF up]]) auto
  have attempts: "holds ?P (try_install env False u slug t (max_retries env t) 1)
      (\<lambda>r d. ?P d \<and> (r = None \<longrightarrow> status_is u (tool_id t) ''installed'' d)) (\<lambda>_. True)"
    by (rule holds_conseq[OF holds_try_install[OF installed_frame up]]) auto
  show ?case unfolding ensure_tools.simps
  proof (rule holds_seq[OF first], rule holds_bind[OF attempts])
    fix r
    show "holds (\<lambda>d. ?P d \<and> (r = None \<longrightarrow> status_is u (tool_id t) ''installed'' d))
       (case r of None \<Rightarrow> ensure_tools env u slug ts
        | Some e \<Rightarrow> eff_seq (upsert_install_status env u (tool_id t) ''failed'' (failure_text env e) False)
            (throw (Thrown (''Failed installing required tool \"'' @ tool_name t @ ''\": '' @ failure_text env e))))
       (\<lambda>_ d. \<forall>j \<in> S \<union> tool_id ` set (t # ts). status_is u j ''installed'' d) (\<lambda>_. True)"
    proof (cases r)
      case None
      then show ?thesis by (auto intro!: holds_conseq[OF ih])
    next
      case (Some e)
      then show ?thesis
        by (auto simp: upsert_install_status_def intro!: holds_seq[where R = "\<lambda>_ _. True"] holds_write holds_throw)
    qed
  qed
qed

text \<open>
  C25: A start that gets past the installer has its tools. Whatever queries, downloads and
  commands fail, when the installation of the required tools returns, every tool that a skill
  of the agent needs has a row that says installed.
\<close>

theorem ensure_installs_all:
  assumes "ensure_required_tools_installed env u slug w = (Inr (), w')"
    and "distinct (map tool_id (fl_tools (db w)))" and "t \<in> set (required_tools env u (db w))"
  shows "status_is u (tool_id t) ''installed'' (db w')"
proof -
  let ?ts = "required_tools env u (db w)"
  have d: "distinct (map tool_id ?ts)"
  proof -
    have "distinct (map tool_id (filter P (fl_tools (db w))))" for P using assms(2) by (rule distinct_map_filter)
    then show ?thesis unfolding required_tools_def by (simp add: distinct_map)
  qed
  from assms(1) obtain w1 where w1: "ensure_tools env u slug ?ts w1 = (Inr (), w')"
    unfolding ensure_required_tools_installed_def by (elim bind_InrE) (drule read_Inr, simp)
  show ?thesis using holds_Inr[OF holds_ensure_tools[OF d, of "{}" u env slug] w1] assms(3) by auto
qed

section \<open>Downloads\<close>

text \<open>\<open>spent env old k\<close>: at most \<open>k\<close> requests since \<open>old\<close>, all to allowed URLs.\<close>

definition spent :: "fleet_env \<Rightarrow> string list \<Rightarrow> nat \<Rightarrow> fleet_db \<Rightarrow> bool" where
  "spent env old k d = (\<exists>us. fl_fetched d = old @ us \<and> length us \<le> k \<and> (\<forall>u \<in> set us. download_url_ok env u))"

definition budget :: "fleet_env \<Rightarrow> nat \<Rightarrow> (fleet_db, 'a) eff \<Rightarrow> bool" where
  "budget env b m = (\<forall>old k. holds (spent env old k) m (\<lambda>_. spent env old (k + b)) (spent env old (k + b)))"

lemma spent_mono: "spent env old k d \<Longrightarrow> k \<le> l \<Longrightarrow> spent env old l d"
  by (fastforce simp: spent_def)

lemma budget_mono: "budget env a m \<Longrightarrow> a \<le> b \<Longrightarrow> budget env b m"
  unfolding budget_def by (fast intro: holds_conseq spent_mono add_left_mono)

lemma budget_keeps: "(\<And>old k. keeps (spent env old k) m) \<Longrightarrow> budget env b m"
  unfolding budget_def keeps_def by (fast intro: holds_conseq spent_mono le_add1)

lemma budget_ret [intro]: "budget env b (ret x)" and budget_throw [intro]: "budget env b (throw e)"
  by (rule budget_keeps, blast)+

lemma budget_bind: "budget env a m \<Longrightarrow> (\<And>x. budget env b (f x)) \<Longrightarrow> budget env (a + b) (eff_bind m f)"
  unfolding budget_def
proof (intro allI)
  fix old k assume m: "\<forall>old k. holds (spent env old k) m (\<lambda>_. spent env old (k + a)) (spent env old (k + a))"
    and f: "\<And>x. \<forall>old k. holds (spent env old k) (f x) (\<lambda>_. spent env old (k + b)) (spent env old (k + b))"
  have "holds (spent env old k) m (\<lambda>_. spent env old (k + a)) (spent env old (k + (a + b)))"
    by (rule holds_conseq[OF m[rule_format, of old k]]) (auto intro: spent_mono)
  then show "holds (spent env old k) (eff_bind m f) (\<lambda>_. spent env old (k + (a + b))) (spent env old (k + (a + b)))"
    by (rule holds_bind) (use f in \<open>fastforce simp: add.assoc[symmetric]\<close>)
qed

lemma budget_seq: "budget env a m \<Longrightarrow> budget env b n \<Longrightarrow> budget env (a + b) (eff_seq m n)"
  unfolding eff_seq_def by (rule budget_bind)

lemma budget_try: "budget env b m \<Longrightarrow> budget env b (eff_try m)"
  unfolding budget_def by (fast intro: holds_try holds_conseq)

lemma budget_validate:
  assumes "download_url_ok env u \<Longrightarrow> budget env b m"
  shows "budget env b (eff_seq (validate_download_url env u) m)"
proof (cases "download_url_ok env u")
  case True
  then show ?thesis by (subst validate_eq) (simp only: if_True ret_seq assms)
next
  case False
  then obtain e where "validate_download_url env u = throw e" using validate_bad by blast
  then show ?thesis by (simp add: throw_seq budget_throw)
qed

lemma budget_fetch:
  assumes "download_url_ok env u" shows "budget env 1 (fetch env u)"
proof -
  have "budget env 1 (local_step (\<lambda>d. d\<lparr>fl_fetched := fl_fetched d @ [u]\<rparr>))"
    using assms by (auto simp: budget_def spent_def intro!: holds_local)
  then have one: "budget env (1 + 0) (eff_seq (local_step (\<lambda>d. d\<lparr>fl_fetched := fl_fetched d @ [u]\<rparr>)) (ret r))" for r :: fetch_result
    by (rule budget_seq) (rule budget_ret)
  have "budget env 0 (peek (\<lambda>d. fe_fetch env (fl_fetched d) u))" by (intro budget_keeps keeps_peek)
  from budget_bind[OF this one] show ?thesis by (simp add: fetch_def)
qed

lemma budget_download_loop: "download_url_ok env u \<Longrightarrow> budget env n (download_loop env orig n u)"
proof (induction n arbitrary: u)
  case (Suc n)
  have "budget env (1 + n) (eff_bind (fetch env u) f)" if "\<And>r. budget env n (f r)" for f :: "fetch_result \<Rightarrow> (fleet_db, bytes) eff"
    using that budget_fetch[OF Suc.prems] by (intro budget_bind)
  then show ?case unfolding download_loop.simps plus_1_eq_Suc
    by (rule meta_mp) (use Suc.IH in \<open>auto split: fetch_result.split option.split intro: budget_validate\<close>)
qed auto

lemma download_frame_run:
  assumes "\<And>h d. I d \<Longrightarrow> I (d\<lparr>fl_calls := h\<rparr>)"
  shows "keeps I (run_command env slug cmd t)" and "keeps I (run_with_stdin env slug cmd input t)"
  unfolding run_command_def run_with_stdin_def settled_def using assms
  by (auto intro!: keeps_bind keeps_on_engine)

lemma budget_run: "budget env b (run_command env slug cmd t)" "budget env b (run_with_stdin env slug cmd input t)"
  by (rule budget_keeps, rule download_frame_run, simp add: spent_def)+

lemma budget_upsert: "budget env b (upsert_install_status env u i st m stamp)"
  by (rule budget_keeps) (auto simp: upsert_install_status_def spent_def intro!: keeps_write)

lemma budget_download: "budget env 6 (download_tarball env u)"
  unfolding download_tarball_def max_download_redirects_def
  by (rule budget_validate) (use budget_download_loop[of env u "5 + 1" u] in simp)

lemma budget_free_bind: "budget env 0 m \<Longrightarrow> (\<And>x. budget env b (f x)) \<Longrightarrow> budget env b (eff_bind m f)"
  using budget_bind[of env 0 m b f] by simp

lemma budget_last_bind: "budget env b m \<Longrightarrow> (\<And>x. budget env 0 (f x)) \<Longrightarrow> budget env b (eff_bind m f)"
  using budget_bind[of env b m 0 f] by simp

lemma budget_free_seq: "budget env 0 m \<Longrightarrow> budget env b n \<Longrightarrow> budget env b (eff_seq m n)"
  using budget_seq[of env 0 m b n] by simp

lemma budget_install_tool: "budget env 6 (install_tool env slug t)"
proof -
  have builtin: "budget env b (install_builtin env slug t)" for b unfolding install_builtin_def
    by (rule budget_free_bind[OF budget_run(1)]) auto
  have apt: "budget env 6 (install_apt env slug t)" unfolding install_apt_def
    by (rule budget_free_bind[OF budget_run(1)]) (auto intro: builtin)
  have script: "budget env 0 (case binary_install_script env t of Inl e \<Rightarrow> throw e
      | Inr s \<Rightarrow> eff_bind (run_with_stdin env slug [''bash'', ''-lc'', s] tb 300000) (\<lambda>r.
          if exit_code r \<noteq> 0 then throw (command_error ''Binary install'' (tool_name t) r) else ret ()))" for tb
    by (auto split: sum.split intro!: budget_free_bind budget_run)
  have "budget env 6 (install_binary env slug t)" unfolding install_binary_def
    by (rule budget_free_bind[OF budget_run(1)])
      (auto split: option.split intro!: budget_last_bind[OF budget_download script])
  then show ?thesis using builtin apt by (simp add: install_tool_def)
qed

lemma budget_try_install: "budget env (6 * (n + 1)) (try_install env again u slug t n k)"
proof (induction n arbitrary: k)
  have once: "budget env 6 (eff_try (eff_seq (install_tool env slug t)
        (upsert_install_status env u (tool_id t) ''installed'' ''installed'' True)))"
    using budget_seq[OF budget_install_tool[of env slug t] budget_upsert[of env 0]] by (intro budget_try) simp
  {
    case 0
    show ?case unfolding try_install.simps[of _ _ _ _ _ 0] using once
      by (auto intro!: budget_last_bind split: sum.split)
  next
    case (Suc n)
    have "budget env (6 + 6 * (n + 1)) (try_install env again u slug t (Suc n) k)"
      unfolding try_install.simps[of _ _ _ _ _ "Suc n"]
      by (rule budget_bind[OF once]) (use Suc.IH in \<open>auto intro!: budget_free_seq budget_upsert split: sum.split\<close>)
    then show ?case by simp
  }
qed

definition attempts_of :: "fleet_env \<Rightarrow> tool_row list \<Rightarrow> nat" where
  "attempts_of env ts = sum_list (map (\<lambda>t. max_retries env t + 1) ts)"

lemma attempts_of_Cons: "6 * attempts_of env (t # ts) = 6 * (max_retries env t + 1) + 6 * attempts_of env ts"
  by (simp add: attempts_of_def)

lemma budget_ensure_tools: "budget env (6 * attempts_of env ts) (ensure_tools env u slug ts)"
proof (induction ts)
  case (Cons t ts)
  show ?case unfolding ensure_tools.simps attempts_of_Cons
    by (rule budget_free_seq[OF budget_upsert budget_bind[OF budget_try_install]])
      (use Cons.IH in \<open>auto intro!: budget_free_seq budget_upsert split: option.split\<close>)
qed auto

lemma budget_reconcile_tools: "budget env (6 * attempts_of env ts) (reconcile_tools env u slug H ts rep)"
proof (induction ts arbitrary: rep)
  case (Cons t ts)
  show ?case
  proof (cases "tool_id t \<in> H")
    case True
    then show ?thesis unfolding attempts_of_Cons by (auto intro: budget_mono[OF Cons.IH])
  next
    case False
    then show ?thesis unfolding reconcile_tools.simps attempts_of_Cons if_not_P[OF False]
      by (intro budget_free_seq[OF budget_upsert budget_bind[OF budget_try_install]])
        (use Cons.IH in \<open>auto intro!: budget_free_seq budget_upsert split: option.split\<close>)
  qed
qed auto

text \<open>Reading the tools first: \<open>m\<close> has the budget of the tools that were read.\<close>

lemma budget_read_first:
  assumes "\<And>x. budget env (b x) (f x)" and "eff_bind (db_read g) f w = (r, w')"
  shows "spent env (fl_fetched (db w)) (b (g (db w))) (db w')"
proof -
  obtain x w1 where 1: "db_read g w = (x, w1)" by fastforce
  have w1: "db w1 = db w" and x: "\<And>y. x = Inr y \<Longrightarrow> y = g (db w)"
    using 1 by (auto simp: db_read_def db_query_def Let_def split: list.splits bool.splits)
  have s: "spent env (fl_fetched (db w)) k (db w1)" for k using w1 by (simp add: spent_def)
  show ?thesis
  proof (cases x)
    case (Inl e)
    then have "w' = w1" using assms(2) 1 by (simp add: eff_bind_def)
    then show ?thesis using s by simp
  next
    case (Inr y)
    then have m: "f (g (db w)) w1 = (r, w')" using assms(2) 1 x by (simp add: eff_bind_def)
    have h: "holds (spent env (fl_fetched (db w)) 0) (f (g (db w)))
        (\<lambda>_. spent env (fl_fetched (db w)) (b (g (db w)))) (spent env (fl_fetched (db w)) (b (g (db w))))"
      using assms(1)[of "g (db w)"] unfolding budget_def by (metis add_0)
    show ?thesis using holds_Inr[OF h] holds_Inl[OF h] m s by (cases r) blast+
  qed
qed

text \<open>
  C26: Downloads stay where they are allowed, and end. Whatever the hosts answer, redirects
  included, every URL the installer requests for an agent, at a start or at a
  reconciliation, has the scheme https and an allowed host; and it requests at most six URLs
  for each attempt at each required tool.
\<close>

theorem downloads_stay_allowed:
  assumes "w' = snd (ensure_required_tools_installed env u slug w) \<or> w' = snd (reconcile_tool_installs env u slug w)"
  shows "\<exists>urls. fl_fetched (db w') = fl_fetched (db w) @ urls
    \<and> (\<forall>x \<in> set urls. \<exists>p. fe_parse env x = Some p \<and> up_protocol p = ''https:'' \<and> up_host p \<in> set allowed_download_hosts)
    \<and> length urls \<le> 6 * (\<Sum>t \<leftarrow> required_tools env u (db w). max_retries env t + 1)"
proof -
  let ?m = "\<lambda>ts. eff_bind (db_read (installed_set u)) (\<lambda>old.
     eff_bind (reconcile_tools env u slug (in_tool ` {r \<in> set old. in_status r = ''installed''}) ts
                 \<lparr>tr_installed = [], tr_already = [], tr_failed = []\<rparr>) (\<lambda>rep.
     eff_seq (eff_for (filter (\<lambda>r. in_tool r \<notin> tool_id ` set ts) old) (\<lambda>r. delete_install u (in_tool r)))
       (ret rep)))"
  have del: "budget env 0 (eff_for rs (\<lambda>r. delete_install u (in_tool r)))" for rs
    by (rule budget_keeps) (auto simp: delete_install_def spent_def intro!: keeps_for keeps_write)
  have m: "budget env (6 * attempts_of env ts) (?m ts)" for ts
    by (intro budget_free_bind budget_keeps[OF keeps_read] budget_last_bind budget_reconcile_tools
        budget_free_seq[OF del] budget_ret)
  have rec: "spent env (fl_fetched (db w)) (6 * attempts_of env (required_tools env u (db w))) (db w1)"
    if "reconcile_tool_installs env u slug w = (r, w1)" for r w1
    using budget_read_first[OF m that[unfolded reconcile_tool_installs_def]] .
  have ens: "spent env (fl_fetched (db w)) (6 * attempts_of env (required_tools env u (db w))) (db w1)"
    if "ensure_required_tools_installed env u slug w = (r, w1)" for r w1
    using budget_read_first[OF budget_ensure_tools that[unfolded ensure_required_tools_installed_def]] .
  have "spent env (fl_fetched (db w)) (6 * attempts_of env (required_tools env u (db w))) (db w')"
    using assms rec ens by (metis prod.collapse)
  moreover have "\<exists>p. fe_parse env x = Some p \<and> up_protocol p = ''https:'' \<and> up_host p \<in> set allowed_download_hosts"
    if "download_url_ok env x" for x
    using that by (simp add: download_url_ok_def split: option.splits)
  ultimately show ?thesis unfolding spent_def attempts_of_def by blast
qed

text \<open>Every command in a container comes back: the timer is armed.\<close>

lemma exec_settles: "exec_race True c (es @ [TimerFires]) \<noteq> None"
proof (induction es arbitrary: c)
  case (Cons e es)
  then show ?case by (cases e) auto
qed simp

section \<open>Reconciling\<close>

text \<open>The rows of the agent are for the tools in \<open>K\<close>, those in \<open>S\<close> say installed, those in \<open>F\<close> failed.\<close>

definition rows_say :: "string \<Rightarrow> string set \<Rightarrow> string set \<Rightarrow> string set \<Rightarrow> fleet_db \<Rightarrow> bool" where
  "rows_say u K S F d =
     ((\<forall>r \<in> set (fl_installs d). in_agent r = u \<longrightarrow> in_tool r \<in> K)
      \<and> (\<forall>j \<in> S. status_is u j ''installed'' d) \<and> (\<forall>j \<in> F. status_is u j ''failed'' d))"

lemma upsert_row_keys:
  "r \<in> set (upsert_row t u i st m b rows) \<Longrightarrow> in_agent r = u \<Longrightarrow>
   in_tool r = i \<or> (\<exists>x \<in> set rows. in_agent x = u \<and> in_tool x = in_tool r)"
proof (cases "\<exists>x \<in> set rows. in_agent x = u \<and> in_tool x = i")
  case True
  assume r: "r \<in> set (upsert_row t u i st m b rows)" "in_agent r = u"
  let ?f = "\<lambda>r. if in_agent r = u \<and> in_tool r = i
    then r\<lparr>in_status := st, in_message := m, in_at := (if st = ''installed'' then Some t else in_at r)\<rparr> else r"
  have "upsert_row t u i st m b rows = map ?f rows" unfolding upsert_row_def using True by (rule if_P)
  then obtain x where "x \<in> set rows" and x: "r = ?f x" using r(1) by auto
  moreover have "in_agent r = in_agent x" "in_tool r = in_tool x" unfolding x by simp_all
  ultimately show ?thesis using r(2) by metis
next
  case False
  let ?x = "\<lparr>in_agent = u, in_tool = i, in_status = st, in_message = m, in_at = (if b then Some t else None)\<rparr>"
  assume r: "r \<in> set (upsert_row t u i st m b rows)" "in_agent r = u"
  have "upsert_row t u i st m b rows = rows @ [?x]" unfolding upsert_row_def using False by (rule if_not_P)
  then have "r \<in> set rows \<or> r = ?x" using r(1) by auto
  moreover have "in_tool ?x = i" by simp
  ultimately show ?thesis using r(2) by metis
qed

lemma rows_say_frames:
  "download_frame env (rows_say u K S F)"
  "i \<in> K \<Longrightarrow> i \<notin> S \<Longrightarrow> i \<notin> F \<Longrightarrow> upsert_frame env u i (rows_say u K S F)"
proof -
  show "download_frame env (rows_say u K S F)" by (auto simp: download_frame_def rows_say_def)
  assume i: "i \<in> K" "i \<notin> S" "i \<notin> F"
  have "rows_say u K S F (d\<lparr>fl_installs := upsert_row (fe_now env) u i st m b (fl_installs d)\<rparr>)"
    if "rows_say u K S F d" for d st m b
    unfolding rows_say_def
  proof (intro conjI ballI impI)
    fix r assume "r \<in> set (fl_installs (d\<lparr>fl_installs := upsert_row (fe_now env) u i st m b (fl_installs d)\<rparr>))" "in_agent r = u"
    then have "in_tool r = i \<or> (\<exists>x \<in> set (fl_installs d). in_agent x = u \<and> in_tool x = in_tool r)"
      by (intro upsert_row_keys[of r]) simp_all
    then show "in_tool r \<in> K" using that i(1) unfolding rows_say_def by metis
  qed (use that i in \<open>metis rows_say_def status_upsert_other\<close>)+
  then show "upsert_frame env u i (rows_say u K S F)" by (simp add: upsert_frame_def)
qed

lemma rows_say_more:
  "rows_say u K S F d \<Longrightarrow> status_is u i ''installed'' d \<Longrightarrow> rows_say u K (insert i S) F d"
  "rows_say u K S F d \<Longrightarrow> status_is u i ''failed'' d \<Longrightarrow> rows_say u K S (insert i F) d"
  by (auto simp: rows_say_def)

text \<open>
  The loop: some of the tools that were missing succeed (\<open>ok\<close>), and the report and the rows
  agree on which.
\<close>

definition report_says :: "string set \<Rightarrow> tool_row list \<Rightarrow> (tool_row \<Rightarrow> bool) \<Rightarrow> tool_report \<Rightarrow> tool_report \<Rightarrow> bool" where
  "report_says H ts ok rep rep' =
     (tr_already rep' = tr_already rep @ map tool_name (filter (\<lambda>t. tool_id t \<in> H) ts)
      \<and> tr_installed rep' = tr_installed rep @ map tool_name (filter (\<lambda>t. tool_id t \<notin> H \<and> ok t) ts)
      \<and> tr_failed rep' = tr_failed rep @ map tool_name (filter (\<lambda>t. tool_id t \<notin> H \<and> \<not> ok t) ts))"

definition told :: "string \<Rightarrow> string set \<Rightarrow> string set \<Rightarrow> string set \<Rightarrow> string set \<Rightarrow> tool_row list \<Rightarrow> tool_report \<Rightarrow>
    tool_report \<Rightarrow> fleet_db \<Rightarrow> bool" where
  "told u K S F H ts rep rep' d =
     (\<exists>ok. report_says H ts ok rep rep' \<and>
        rows_say u K (S \<union> tool_id ` {t \<in> set ts. tool_id t \<notin> H \<and> ok t})
          (F \<union> tool_id ` {t \<in> set ts. tool_id t \<notin> H \<and> \<not> ok t}) d)"

lemma told_skip:
  assumes "told u K S F H ts (rep\<lparr>tr_already := tr_already rep @ [tool_name t]\<rparr>) rep' d" "tool_id t \<in> H"
  shows "told u K S F H (t # ts) rep rep' d"
proof -
  obtain ok where ok: "report_says H ts ok (rep\<lparr>tr_already := tr_already rep @ [tool_name t]\<rparr>) rep'"
      "rows_say u K (S \<union> tool_id ` {t \<in> set ts. tool_id t \<notin> H \<and> ok t}) (F \<union> tool_id ` {t \<in> set ts. tool_id t \<notin> H \<and> \<not> ok t}) d"
    using assms(1) by (auto simp: told_def)
  have "{x \<in> set (t # ts). tool_id x \<notin> H \<and> P x} = {x \<in> set ts. tool_id x \<notin> H \<and> P x}" for P using assms(2) by auto
  then show ?thesis using ok assms(2) unfolding told_def by (intro exI[of _ ok]) (simp add: report_says_def)
qed

lemma told_new:
  assumes "told u K (if b then insert (tool_id t) S else S) (if b then F else insert (tool_id t) F) H ts
      (if b then rep\<lparr>tr_installed := tr_installed rep @ [tool_name t]\<rparr> else rep\<lparr>tr_failed := tr_failed rep @ [tool_name t]\<rparr>) rep' d"
    and "tool_id t \<notin> H" "t \<notin> set ts"
  shows "told u K S F H (t # ts) rep rep' d"
proof -
  obtain ok where ok: "report_says H ts ok
        (if b then rep\<lparr>tr_installed := tr_installed rep @ [tool_name t]\<rparr> else rep\<lparr>tr_failed := tr_failed rep @ [tool_name t]\<rparr>) rep'"
      "rows_say u K ((if b then insert (tool_id t) S else S) \<union> tool_id ` {t \<in> set ts. tool_id t \<notin> H \<and> ok t})
        ((if b then F else insert (tool_id t) F) \<union> tool_id ` {t \<in> set ts. tool_id t \<notin> H \<and> \<not> ok t}) d"
    using assms(1) by (auto simp: told_def)
  let ?ok = "\<lambda>x. if x = t then b else ok x"
  have f: "filter (\<lambda>x. tool_id x \<notin> H \<and> ?ok x) ts = filter (\<lambda>x. tool_id x \<notin> H \<and> ok x) ts"
      "filter (\<lambda>x. tool_id x \<notin> H \<and> \<not> ?ok x) ts = filter (\<lambda>x. tool_id x \<notin> H \<and> \<not> ok x) ts"
    using assms(3) by (auto intro!: filter_cong)
  have s: "{x \<in> set (t # ts). tool_id x \<notin> H \<and> ?ok x} = (if b then {t} else {}) \<union> {x \<in> set ts. tool_id x \<notin> H \<and> ok x}"
      "{x \<in> set (t # ts). tool_id x \<notin> H \<and> \<not> ?ok x} = (if b then {} else {t}) \<union> {x \<in> set ts. tool_id x \<notin> H \<and> \<not> ok x}"
    using assms(2,3) by auto
  have "report_says H (t # ts) ?ok rep rep'" using ok(1) assms(2) f by (simp add: report_says_def split: if_splits)
  moreover have "rows_say u K (S \<union> tool_id ` {x \<in> set (t # ts). tool_id x \<notin> H \<and> ?ok x})
      (F \<union> tool_id ` {x \<in> set (t # ts). tool_id x \<notin> H \<and> \<not> ?ok x}) d"
    unfolding s using ok(2) by (simp add: image_Un split: if_splits)
  ultimately show ?thesis unfolding told_def by blast
qed

lemma holds_reconcile_tools:
  assumes "distinct (map tool_id ts)" "tool_id ` set ts \<subseteq> K" "S \<inter> (tool_id ` set ts - H) = {}" "F \<inter> tool_id ` set ts = {}"
  shows "holds (rows_say u K S F) (reconcile_tools env u slug H ts rep) (told u K S F H ts rep) (\<lambda>_. True)"
  using assms
proof (induction ts arbitrary: S F rep)
  case Nil
  then show ?case by (auto simp: told_def report_says_def intro!: holds_ret)
next
  case (Cons t ts)
  show ?case
  proof (cases "tool_id t \<in> H")
    case True
    have "holds (rows_say u K S F) (reconcile_tools env u slug H ts (rep\<lparr>tr_already := tr_already rep @ [tool_name t]\<rparr>))
        (told u K S F H ts (rep\<lparr>tr_already := tr_already rep @ [tool_name t]\<rparr>)) (\<lambda>_. True)"
      using Cons.prems True by (intro Cons.IH) auto
    then show ?thesis unfolding reconcile_tools.simps if_P[OF True]
      by (rule holds_conseq) (auto intro: told_skip[OF _ True])
  next
    case False
    have new: "t \<notin> set ts" using Cons.prems(1) by auto
    have up: "upsert_frame env u (tool_id t) (rows_say u K S F)"
      using Cons.prems False by (intro rows_say_frames(2)) auto
    have first: "holds (rows_say u K S F) (upsert_install_status env u (tool_id t) st m b)
        (\<lambda>_ d. rows_say u K S F d \<and> status_is u (tool_id t) st d) (\<lambda>_. True)" for st m b
      by (rule holds_conseq[OF holds_upsert[OF up]]) auto
    have attempts: "holds (rows_say u K S F) (try_install env True u slug t (max_retries env t) 1)
        (\<lambda>r d. rows_say u K S F d \<and> (r = None \<longrightarrow> status_is u (tool_id t) ''installed'' d)) (\<lambda>_. True)"
      by (rule holds_conseq[OF holds_try_install[OF rows_say_frames(1) up]]) auto
    have ih: "holds (rows_say u K (if b then insert (tool_id t) S else S) (if b then F else insert (tool_id t) F))
        (reconcile_tools env u slug H ts rep') (told u K (if b then insert (tool_id t) S else S) (if b then F else insert (tool_id t) F) H ts rep')
        (\<lambda>_. True)" for b rep'
      using Cons.prems new by (intro Cons.IH) (auto split: if_splits)
    have fin: "holds (\<lambda>d. rows_say u K S F d \<and> (r = None \<longrightarrow> status_is u (tool_id t) ''installed'' d))
        (case r of None \<Rightarrow> reconcile_tools env u slug H ts (rep\<lparr>tr_installed := tr_installed rep @ [tool_name t]\<rparr>)
         | Some e \<Rightarrow> eff_seq (upsert_install_status env u (tool_id t) ''failed'' (failure_text env e) False)
             (reconcile_tools env u slug H ts (rep\<lparr>tr_failed := tr_failed rep @ [tool_name t]\<rparr>)))
        (told u K S F H (t # ts) rep) (\<lambda>_. True)" for r
    proof (cases r)
      case None
      show ?thesis unfolding None option.case
        by (rule holds_conseq[OF ih[of True]]) (use told_new[of u K True] False new in \<open>auto intro: rows_say_more\<close>)
    next
      case (Some e)
      show ?thesis unfolding Some option.case
      proof (rule holds_seq)
        show "holds (\<lambda>d. rows_say u K S F d \<and> (Some e = None \<longrightarrow> status_is u (tool_id t) ''installed'' d))
            (upsert_install_status env u (tool_id t) ''failed'' (failure_text env e) False)
            (\<lambda>_ d. rows_say u K S F d \<and> status_is u (tool_id t) ''failed'' d) (\<lambda>_. True)"
          by (rule holds_conseq[OF first]) auto
        show "holds (\<lambda>d. rows_say u K S F d \<and> status_is u (tool_id t) ''failed'' d)
            (reconcile_tools env u slug H ts (rep\<lparr>tr_failed := tr_failed rep @ [tool_name t]\<rparr>)) (told u K S F H (t # ts) rep) (\<lambda>_. True)"
          by (rule holds_conseq[OF ih[of False]]) (use told_new[of u K False] False new in \<open>auto intro: rows_say_more\<close>)
      qed
    qed
    show ?thesis unfolding reconcile_tools.simps if_not_P[OF False]
      by (rule holds_seq[OF holds_conseq[OF first]]; (rule holds_bind[OF attempts fin])?) auto
  qed
qed

lemma holds_delete_stale:
  assumes "S \<subseteq> K" "F \<subseteq> K" "in_tool ` set rs \<inter> K = {}"
  shows "holds (rows_say u (K \<union> in_tool ` set rs) S F) (eff_for rs (\<lambda>r. delete_install u (in_tool r)))
    (\<lambda>_. rows_say u K S F) (\<lambda>_. True)"
  using assms(3)
proof (induction rs)
  case Nil
  then show ?case by (simp add: holds_ret)
next
  case (Cons r rs)
  have other: "status_is u j st (d\<lparr>fl_installs := filter (\<lambda>x. \<not> (in_agent x = u \<and> in_tool x = in_tool r)) (fl_installs d)\<rparr>)"
    if "j \<in> K" "status_is u j st d" for j st d
    using that Cons.prems by (auto simp: status_is_def)
  have "holds (rows_say u (K \<union> in_tool ` set (r # rs)) S F) (delete_install u (in_tool r))
      (\<lambda>_. rows_say u (K \<union> in_tool ` set rs) S F) (\<lambda>_. True)"
    unfolding delete_install_def
  proof (rule holds_write)
    fix d assume d: "rows_say u (K \<union> in_tool ` set (r # rs)) S F d"
    show "rows_say u (K \<union> in_tool ` set rs) S F
        (d\<lparr>fl_installs := filter (\<lambda>x. \<not> (in_agent x = u \<and> in_tool x = in_tool r)) (fl_installs d)\<rparr>)"
      using d other assms(1,2) unfolding rows_say_def by (intro conjI) (fastforce, blast, blast)
  qed simp
  then show ?case using Cons by (simp del: insert_is_Un) (rule holds_seq, assumption, simp)
qed

text \<open>
  The report of a reconciliation is the truth about the rows. Whatever downloads and
  commands fail, when the reconciliation answers, each required tool is in exactly one of the
  three lists; the tools reported installed or already installed have a row that says
  installed and the others one that says failed; and no row of the agent is left for a tool it
  no longer needs.
\<close>

theorem reconcile_reports_truth:
  assumes "reconcile_tool_installs env u slug w = (Inr rep, w')"
    and "distinct (map tool_id (fl_tools (db w)))"
    and "distinct (map (\<lambda>r. (in_agent r, in_tool r)) (fl_installs (db w)))"
  shows "mset (tr_installed rep @ tr_already rep @ tr_failed rep) = mset (map tool_name (required_tools env u (db w)))
    \<and> (\<forall>t \<in> set (required_tools env u (db w)).
         status_is u (tool_id t) ''installed'' (db w') \<and> tool_name t \<in> set (tr_installed rep @ tr_already rep)
         \<or> status_is u (tool_id t) ''failed'' (db w') \<and> tool_name t \<in> set (tr_failed rep))
    \<and> (\<forall>r \<in> set (fl_installs (db w')). in_agent r = u \<longrightarrow> in_tool r \<in> tool_id ` set (required_tools env u (db w)))"
proof -
  let ?ts = "required_tools env u (db w)" and ?old = "installed_set u (db w)"
  let ?H = "in_tool ` {r \<in> set ?old. in_status r = ''installed''}" and ?I = "tool_id ` set ?ts"
  let ?stale = "filter (\<lambda>r. in_tool r \<notin> ?I) ?old" and ?none = "\<lparr>tr_installed = [], tr_already = [], tr_failed = []\<rparr>"
  from assms(1) obtain w1 w2 rep' where 1: "db w1 = db w" "reconcile_tools env u slug ?H ?ts ?none w1 = (Inr rep', w2)"
      and 2: "eff_for ?stale (\<lambda>r. delete_install u (in_tool r)) w2 = (Inr (), w')" "rep' = rep"
    unfolding reconcile_tool_installs_def
    by (elim bind_InrE seq_InrE) (drule read_Inr, drule read_Inr, simp add: ret_def)
  have d: "distinct (map tool_id ?ts)"
    using distinct_map_filter[OF assms(2)] unfolding required_tools_def by (simp add: distinct_map)
  have start: "rows_say u (?I \<union> in_tool ` set ?stale) (?H \<inter> ?I) {} (db w1)"
  proof -
    have "in_status r = in_status x" if "r \<in> set (fl_installs (db w))" "x \<in> set (fl_installs (db w))"
        "in_agent r = in_agent x" "in_tool r = in_tool x" for r x
      using assms(3) that by (metis (mono_tags, lifting) distinct_map inj_on_def)
    moreover have "x \<in> set (fl_installs (db w)) \<and> in_agent x = u" if "x \<in> set ?old" for x
      using that by (simp add: installed_set_def)
    ultimately have "status_is u j ''installed'' (db w)" if "j \<in> ?H" for j
      using that unfolding status_is_def by (smt (verit) image_iff mem_Collect_eq)
    moreover have "in_tool r \<in> ?I \<union> in_tool ` set ?stale" if "r \<in> set (fl_installs (db w))" "in_agent r = u" for r
      using that by (cases "in_tool r \<in> ?I") (simp_all add: installed_set_def)
    ultimately show ?thesis unfolding rows_say_def 1(1) by blast
  qed
  have "holds (rows_say u (?I \<union> in_tool ` set ?stale) (?H \<inter> ?I) {}) (reconcile_tools env u slug ?H ?ts ?none)
      (told u (?I \<union> in_tool ` set ?stale) (?H \<inter> ?I) {} ?H ?ts ?none) (\<lambda>_. True)"
    by (rule holds_reconcile_tools[OF d]) auto
  from holds_Inr[OF this 1(2) start]
  have "told u (?I \<union> in_tool ` set ?stale) (?H \<inter> ?I) {} ?H ?ts ?none rep (db w2)" unfolding 2(2) .
  then obtain ok where ok: "report_says ?H ?ts ok ?none rep"
      and rows: "rows_say u (?I \<union> in_tool ` set ?stale) (?H \<inter> ?I \<union> tool_id ` {t \<in> set ?ts. tool_id t \<notin> ?H \<and> ok t})
        ({} \<union> tool_id ` {t \<in> set ?ts. tool_id t \<notin> ?H \<and> \<not> ok t}) (db w2)"
    unfolding told_def by blast
  have fin: "rows_say u ?I (?H \<inter> ?I \<union> tool_id ` {t \<in> set ?ts. tool_id t \<notin> ?H \<and> ok t})
      ({} \<union> tool_id ` {t \<in> set ?ts. tool_id t \<notin> ?H \<and> \<not> ok t}) (db w')"
    by (rule holds_Inr[OF holds_delete_stale 2(1) rows]) auto
  have split: "mset (filter (\<lambda>t. tool_id t \<notin> ?H \<and> ok t) xs) + mset (filter (\<lambda>t. tool_id t \<in> ?H) xs) +
      mset (filter (\<lambda>t. tool_id t \<notin> ?H \<and> \<not> ok t) xs) = mset xs" for xs
    by (induction xs) auto
  have "mset (tr_installed rep @ tr_already rep @ tr_failed rep) = image_mset tool_name (mset ?ts)"
    unfolding split[of ?ts, symmetric] using ok by (simp add: report_says_def add.assoc)
  moreover have "status_is u (tool_id t) ''installed'' (db w') \<and> tool_name t \<in> set (tr_installed rep @ tr_already rep)
      \<or> status_is u (tool_id t) ''failed'' (db w') \<and> tool_name t \<in> set (tr_failed rep)" if "t \<in> set ?ts" for t
    using that fin ok unfolding rows_say_def report_says_def by (cases "tool_id t \<in> ?H"; cases "ok t") auto
  ultimately show ?thesis using fin by (simp add: rows_say_def)
qed

section \<open>Witnesses\<close>

definition demo_ensured :: "(exn + unit) \<times> fleet_db world" where
  "demo_ensured = ensure_required_tools_installed demo_fleet_env ''a1'' ''box'' demo_fleet_world"

definition demo_reconciled :: "(exn + tool_report) \<times> fleet_db world" where
  "demo_reconciled = reconcile_tool_installs demo_fleet_env ''a1'' ''box'' demo_fleet_world"

lemma demo_ensured_ok: "ensure_required_tools_installed demo_fleet_env ''a1'' ''box'' demo_fleet_world = (Inr (), snd demo_ensured)"
proof -
  have "fst demo_ensured = Inr ()" by code_simp
  then show ?thesis unfolding demo_ensured_def by (metis prod.collapse)
qed

lemma demo_reconciled_ok:
  "reconcile_tool_installs demo_fleet_env ''a1'' ''box'' demo_fleet_world =
   (Inr \<lparr>tr_installed = [''bash''], tr_already = [], tr_failed = []\<rparr>, snd demo_reconciled)"
proof -
  have "fst demo_reconciled = Inr \<lparr>tr_installed = [''bash''], tr_already = [], tr_failed = []\<rparr>" by code_simp
  then show ?thesis unfolding demo_reconciled_def by (metis prod.collapse)
qed

lemma demo_ids: "distinct (map tool_id (fl_tools (db demo_fleet_world)))"
  "distinct (map (\<lambda>r. (in_agent r, in_tool r)) (fl_installs (db demo_fleet_world)))"
  by (simp_all add: demo_fleet_world_def demo_fleet_def)

theorem ensure_installs_all_witness: "status_is ''a1'' ''t1'' ''installed'' (db (snd demo_ensured))"
  using ensure_installs_all[OF demo_ensured_ok demo_ids(1), of demo_bash] demo_required
  by (simp add: demo_bash_def)

theorem downloads_stay_allowed_witness: "length (fl_fetched (db (snd demo_ensured))) \<le> 6"
proof -
  have "snd demo_ensured = snd (ensure_required_tools_installed demo_fleet_env ''a1'' ''box'' demo_fleet_world)"
    by (simp add: demo_ensured_def)
  then have h: "snd demo_ensured = snd (ensure_required_tools_installed demo_fleet_env ''a1'' ''box'' demo_fleet_world)
      \<or> snd demo_ensured = snd (reconcile_tool_installs demo_fleet_env ''a1'' ''box'' demo_fleet_world)" ..
  show ?thesis using downloads_stay_allowed[OF h] unfolding demo_required
    by (auto simp: demo_bash_def max_retries_def demo_fleet_world_def demo_fleet_def)
qed

theorem reconcile_reports_truth_witness: "status_is ''a1'' ''t1'' ''installed'' (db (snd demo_reconciled))"
  using reconcile_reports_truth[OF demo_reconciled_ok demo_ids] unfolding demo_required
  by (simp add: demo_bash_def)

end
