(* ===== verification/Skills.thy ===== *)
theory Skills
  imports Fleet
begin

text \<open>
  Giving an agent a skill and taking it away (\<open>POST\<close> and \<open>DELETE /agents/:id/skills\<close> in
  \<open>routes/agents.ts\<close>): ownership, the running check, the elevated scopes, and the merged tool
  configuration that is written back to the agent. The response is its HTTP status.
\<close>

section \<open>Statements\<close>

text \<open>\<open>scopeToOwner\<close> in the WHERE clause.\<close>

definition agent_visible :: "fleet_env \<Rightarrow> js \<Rightarrow> fleet_agent \<Rightarrow> bool" where
  "agent_visible env user a =
     (case scope_to_owner (fe_client env) user of AllRows \<Rightarrow> True | CreatedBy v \<Rightarrow> v = Str (fa_owner a))"

definition select_own_agent :: "fleet_env \<Rightarrow> js \<Rightarrow> string \<Rightarrow> (fleet_db, fleet_agent option) eff" where
  "select_own_agent env user i = fleet_query env i (\<lambda>u d.
     (find (\<lambda>a. fa_id a = u \<and> agent_visible env user a) (fl_agents d), d))"

definition find_skill :: "string \<Rightarrow> fleet_db \<Rightarrow> skill_row option" where
  "find_skill k d = find (\<lambda>s. sk_id s = k) (fl_skills d)"

text \<open>A skill id that is no string has a text form that is no uuid.\<close>

definition select_skill :: "fleet_env \<Rightarrow> js \<Rightarrow> (fleet_db, skill_row option) eff" where
  "select_skill env v =
     (case v of Str s \<Rightarrow> fleet_query env s (\<lambda>k d. (find_skill k d, d)) | _ \<Rightarrow> db_query (\<lambda>_. Inl DbFault))"

definition assignments_pk :: string where
  "assignments_pk = ''agent_skills_pkey''"

definition insert_assignment :: "fleet_env \<Rightarrow> string \<Rightarrow> string \<Rightarrow> (fleet_db, unit) eff" where
  "insert_assignment env i k = db_query (\<lambda>d.
     case fe_uuid env i of
       None \<Rightarrow> Inl DbFault
     | Some u \<Rightarrow>
         (let x = \<lparr>as_agent = u, as_skill = k\<rparr> in
          if x \<in> set (fl_assigned d) then Inl (UniqueViolation assignments_pk)
          else Inr ((), d\<lparr>fl_assigned := fl_assigned d @ [x]\<rparr>)))"

text \<open>The row count of the DELETE.\<close>

definition delete_assignment :: "fleet_env \<Rightarrow> string \<Rightarrow> string \<Rightarrow> (fleet_db, nat) eff" where
  "delete_assignment env i k = fleet_query env i (\<lambda>u d.
     let x = \<lparr>as_agent = u, as_skill = k\<rparr> in
     (length (filter ((=) x) (fl_assigned d)), d\<lparr>fl_assigned := filter ((\<noteq>) x) (fl_assigned d)\<rparr>))"

definition configs_of :: "string \<Rightarrow> fleet_db \<Rightarrow> tools_config list" where
  "configs_of u d = map sk_config (skills_of u d)"

definition select_configs :: "fleet_env \<Rightarrow> string \<Rightarrow> (fleet_db, tools_config list) eff" where
  "select_configs env i = fleet_query env i (\<lambda>u d. (configs_of u d, d))"

definition store_config :: "fleet_env \<Rightarrow> string \<Rightarrow> tools_config \<Rightarrow> (fleet_db, unit) eff" where
  "store_config env i c = update_fleet env i (\<lambda>a. a\<lparr>fa_tools := Merged c\<rparr>)"

section \<open>Handlers\<close>

definition answer_500 :: "(fleet_db, nat) eff \<Rightarrow> (fleet_db, nat) eff" where
  "answer_500 m = eff_catch m (\<lambda>_. ret 500)"

text \<open>What both handlers check before they write: the agent and the skill, or a status.\<close>

definition skill_gate :: "fleet_env \<Rightarrow> js \<Rightarrow> string \<Rightarrow> js \<Rightarrow> string \<Rightarrow> (skill_row \<Rightarrow> (fleet_db, nat) eff) \<Rightarrow> (fleet_db, nat) eff" where
  "skill_gate env user i v denied go =
     eff_bind (select_own_agent env user i) (\<lambda>row.
     case row of
       None \<Rightarrow> ret 404
     | Some a \<Rightarrow>
         if fa_status a = ''running'' then ret 409
         else eff_bind (select_skill env v) (\<lambda>sk.
           case sk of
             None \<Rightarrow> ret 404
           | Some s \<Rightarrow>
               if is_elevated_scope (sk_scope s) \<and> \<not> is_admin (fe_client env) user
               then eff_seq (fleet_audit denied i (sk_id s)) (ret 403)
               else go s))"

definition assign_skill :: "fleet_env \<Rightarrow> js \<Rightarrow> string \<Rightarrow> js \<Rightarrow> (fleet_db, nat) eff" where
  "assign_skill env user i body = answer_500
     (if nullish body then throw (Thrown ''Cannot destructure'')
      else if \<not> truthy (js_get body ''skill_id'') then ret 400
      else skill_gate env user i (js_get body ''skill_id'') ''skill_assign_denied'' (\<lambda>s.
        eff_bind (eff_try (insert_assignment env i (sk_id s))) (\<lambda>r.
        case r of
          Inl (UniqueViolation _) \<Rightarrow> ret 409
        | Inl e \<Rightarrow> throw e
        | Inr _ \<Rightarrow>
            eff_bind (select_configs env i) (\<lambda>cs.
            eff_seq (store_config env i (merge_tools_configs cs))
            (eff_seq (fleet_audit ''skill_assign'' i (sk_id s)) (ret 201))))))"

definition remove_skill :: "fleet_env \<Rightarrow> js \<Rightarrow> string \<Rightarrow> string \<Rightarrow> (fleet_db, nat) eff" where
  "remove_skill env user i k = answer_500
     (skill_gate env user i (Str k) ''skill_remove_denied'' (\<lambda>s.
        eff_bind (delete_assignment env i (sk_id s)) (\<lambda>n.
        if n = 0 then ret 404
        else
          eff_bind (select_configs env i) (\<lambda>cs.
          eff_seq (store_config env i (if cs \<noteq> [] then merge_tools_configs cs else default_tools_config))
          (eff_seq (fleet_audit ''skill_remove'' i (sk_id s)) (ret 200))))))"

end
