(* ===== verification/SkillProps.thy ===== *)
theory SkillProps
  imports Skills FleetDemo
begin

text \<open>
  Assigning and removing skills: who may, what changes, and that the agent's tool
  configuration is that of its skills afterwards, unless a query fails in between.
\<close>

section \<open>Outcomes\<close>

lemma fleet_query_cases:
  "fleet_query env i q w = (r, w') \<Longrightarrow>
   (\<exists>e. r = Inl e) \<and> db w' = db w \<or>
   (\<exists>u x d. fe_uuid env i = Some u \<and> q u (db w) = (x, d) \<and> r = Inr x \<and> db w' = d)"
  by (auto simp: fleet_query_def db_query_def Let_def split: list.splits bool.splits option.splits prod.splits)

text \<open>What the two handlers leave alone when they refuse.\<close>

definition unchanged :: "fleet_db \<Rightarrow> fleet_db \<Rightarrow> bool" where
  "unchanged d d' = (fl_agents d' = fl_agents d \<and> fl_assigned d' = fl_assigned d \<and> fl_skills d' = fl_skills d)"

lemma unchanged_refl [simp]: "unchanged d d" by (simp add: unchanged_def)

lemma select_own_agent_cases:
  assumes "select_own_agent env user i w = (r, w')"
  shows "db w' = db w \<and> (\<forall>a. r = Inr (Some a) \<longrightarrow>
    a \<in> set (fl_agents (db w)) \<and> fe_uuid env i = Some (fa_id a) \<and> agent_visible env user a)"
  using fleet_query_cases[OF assms[unfolded select_own_agent_def]]
  by (auto simp: find_Some_iff)

lemma select_skill_cases:
  assumes "select_skill env v w = (r, w')"
  shows "db w' = db w \<and> (\<forall>s. r = Inr (Some s) \<longrightarrow> s \<in> set (fl_skills (db w)))"
proof (cases "\<exists>x. v = Str x")
  case True
  then obtain x where "fleet_query env x (\<lambda>k d. (find_skill k d, d)) w = (r, w')"
    using assms by (auto simp: select_skill_def)
  then show ?thesis using fleet_query_cases[of env x "\<lambda>k d. (find_skill k d, d)" w r w']
    by (auto simp: find_skill_def find_Some_iff)
next
  case False
  then have "select_skill env v = db_query (\<lambda>_. Inl DbFault)" by (cases v) (auto simp: select_skill_def)
  then show ?thesis using assms by (auto simp: db_query_def Let_def split: list.splits bool.splits)
qed

text \<open>The gate refuses without a trace, or hands over an agent and a skill that pass.\<close>

definition admitted :: "fleet_env \<Rightarrow> js \<Rightarrow> string \<Rightarrow> fleet_db \<Rightarrow> fleet_agent \<Rightarrow> skill_row \<Rightarrow> bool" where
  "admitted env user i d a s =
     (a \<in> set (fl_agents d) \<and> fe_uuid env i = Some (fa_id a) \<and> agent_visible env user a \<and> fa_status a \<noteq> ''running''
      \<and> s \<in> set (fl_skills d) \<and> (is_elevated_scope (sk_scope s) \<longrightarrow> is_admin (fe_client env) user))"

lemma skill_gate_cases:
  assumes "skill_gate env user i v denied go w = (r, w')"
  shows "unchanged (db w) (db w') \<and> r \<notin> {Inr 200, Inr 201}
    \<or> (\<exists>a s w1. db w1 = db w \<and> admitted env user i (db w) a s \<and> go s w1 = (r, w'))"
proof -
  obtain x w1 where 1: "select_own_agent env user i w = (x, w1)" by fastforce
  note a = select_own_agent_cases[OF 1]
  show ?thesis
  proof (cases "\<exists>a. x = Inr (Some a) \<and> fa_status a \<noteq> ''running''")
    case False
    then show ?thesis using assms 1 a
      by (auto simp: skill_gate_def eff_bind_def ret_def split: sum.splits option.splits if_splits)
  next
    case True
    then obtain b where b: "x = Inr (Some b)" "fa_status b \<noteq> ''running''" by blast
    obtain y w2 where 2: "select_skill env v w1 = (y, w2)" by fastforce
    note s = select_skill_cases[OF 2]
    show ?thesis
    proof (cases "\<exists>s. y = Inr (Some s) \<and> (is_elevated_scope (sk_scope s) \<longrightarrow> is_admin (fe_client env) user)")
      case True
      then obtain t where t: "y = Inr (Some t)" "is_elevated_scope (sk_scope t) \<longrightarrow> is_admin (fe_client env) user" by blast
      then have "go t w2 = (r, w')" using assms 1 2 b by (auto simp: skill_gate_def eff_bind_def)
      moreover have "admitted env user i (db w) b t" using a b s t by (auto simp: admitted_def)
      ultimately show ?thesis using a s by metis
    next
      case False
      then show ?thesis using assms 1 2 a b s
        by (auto simp: skill_gate_def eff_bind_def eff_seq_def ret_def fleet_audit_def local_step_def unchanged_def
            split: sum.splits option.splits if_splits)
    qed
  qed
qed

text \<open>Writing the merged configuration back.\<close>

definition recomputed :: "string \<Rightarrow> fleet_db \<Rightarrow> fleet_db \<Rightarrow> bool" where
  "recomputed u d d' =
     (fl_assigned d' = fl_assigned d \<and> fl_skills d' = fl_skills d
      \<and> fl_agents d' = map (\<lambda>a. if fa_id a = u then a\<lparr>fa_tools := Merged (merge_tools_configs (configs_of u d))\<rparr> else a) (fl_agents d))"

lemma recompute_cases:
  assumes "eff_bind (select_configs env i) (\<lambda>cs. eff_seq (store_config env i (f cs))
      (eff_seq (fleet_audit act i k) (ret st))) w = (r, w')"
    and "fe_uuid env i = Some u" "\<And>cs. f cs = merge_tools_configs cs"
  shows "unchanged (db w) (db w') \<and> (\<exists>e. r = Inl e) \<or> r = Inr st \<and> recomputed u (db w) (db w')"
proof -
  obtain x w1 where 1: "select_configs env i w = (x, w1)" by fastforce
  have x: "db w1 = db w" "x = Inr cs \<Longrightarrow> cs = configs_of u (db w)" for cs
    using fleet_query_cases[OF 1[unfolded select_configs_def]] assms(2) by auto
  show ?thesis
  proof (cases x)
    case (Inl e)
    then show ?thesis using assms(1) 1 x by (auto simp: eff_bind_def)
  next
    case (Inr cs)
    obtain y w2 where 2: "store_config env i (f cs) w1 = (y, w2)" by fastforce
    have "(\<exists>e. y = Inl e) \<and> db w2 = db w1 \<or> y = Inr () \<and>
        db w2 = change_agent u (\<lambda>a. a\<lparr>fa_tools := Merged (merge_tools_configs (configs_of u (db w)))\<rparr>) (db w)"
      using fleet_query_cases[OF 2[unfolded store_config_def update_fleet_def]] assms(2,3) x Inr by auto
    then show ?thesis using assms(1) 1 2 Inr x(1)
      by (auto simp: eff_bind_def eff_seq_def fleet_audit_def local_step_def ret_def unchanged_def recomputed_def
          change_agent_def)
  qed
qed

lemma configs_frame:
  "fl_assigned d' = fl_assigned d \<Longrightarrow> fl_skills d' = fl_skills d \<Longrightarrow> configs_of u d' = configs_of u d"
  by (simp add: configs_of_def skills_of_def)

text \<open>
  One of the two handlers ran: either it refused or failed before writing, or it changed the
  one assignment, and then the configuration was recomputed or the answer is 500.
\<close>

definition edited :: "assignment \<Rightarrow> fleet_db \<Rightarrow> fleet_db \<Rightarrow> bool" where
  "edited x d d' = (fl_agents d' = fl_agents d \<and> fl_skills d' = fl_skills d \<and>
     fl_assigned d' \<in> {fl_assigned d @ [x], filter ((\<noteq>) x) (fl_assigned d)})"

definition skill_outcome :: "fleet_env \<Rightarrow> js \<Rightarrow> string \<Rightarrow> fleet_db \<Rightarrow> nat \<Rightarrow> fleet_db \<Rightarrow> bool" where
  "skill_outcome env user i d st d' =
     (unchanged d d' \<and> st \<notin> {200, 201}
      \<or> (\<exists>a s d1. admitted env user i d a s \<and> edited \<lparr>as_agent = fa_id a, as_skill = sk_id s\<rparr> d d1
           \<and> (st = 500 \<and> unchanged d1 d' \<or> st \<in> {200, 201} \<and> recomputed (fa_id a) d1 d')))"

lemma remove_outcome:
  assumes "remove_skill env user i k w = (Inr st, w')"
  shows "skill_outcome env user i (db w) st (db w')"
proof -
  let ?rest = "\<lambda>s n. if n = 0 then ret 404 else eff_bind (select_configs env i) (\<lambda>cs.
          eff_seq (store_config env i (if cs \<noteq> [] then merge_tools_configs cs else default_tools_config))
          (eff_seq (fleet_audit ''skill_remove'' i (sk_id s)) (ret 200)))"
  let ?go = "\<lambda>s. eff_bind (delete_assignment env i (sk_id s)) (?rest s)"
  obtain r where r: "skill_gate env user i (Str k) ''skill_remove_denied'' ?go w = (r, w')"
      "st = (case r of Inl e \<Rightarrow> 500 | Inr n \<Rightarrow> n)"
    using assms by (fastforce simp: remove_skill_def answer_500_def eff_catch_def ret_def split: prod.splits sum.splits)
  from skill_gate_cases[OF r(1)] show ?thesis
  proof (elim disjE exE conjE)
    assume "unchanged (db w) (db w')" "r \<notin> {Inr 200, Inr 201}"
    then show ?thesis using r(2) by (auto simp: skill_outcome_def split: sum.splits)
  next
    fix a s w1
    assume w1: "db w1 = db w" and ok: "admitted env user i (db w) a s" and go: "?go s w1 = (r, w')"
    let ?x = "\<lparr>as_agent = fa_id a, as_skill = sk_id s\<rparr>"
    have u: "fe_uuid env i = Some (fa_id a)" using ok by (simp add: admitted_def)
    obtain n w2 where 2: "delete_assignment env i (sk_id s) w1 = (n, w2)" by fastforce
    have del: "(\<exists>e. n = Inl e) \<and> db w2 = db w \<or> (\<exists>m. n = Inr m \<and> (m = 0 \<longrightarrow> ?x \<notin> set (fl_assigned (db w)))
        \<and> db w2 = (db w)\<lparr>fl_assigned := filter ((\<noteq>) ?x) (fl_assigned (db w))\<rparr>)"
      using fleet_query_cases[OF 2[unfolded delete_assignment_def]] u w1
      by (auto simp: Let_def filter_empty_conv)
    show ?thesis
    proof (cases "\<exists>m. n = Inr (Suc m)")
      case True
      then have e: "edited ?x (db w) (db w2)" using del by (auto simp: edited_def)
      have "eff_bind (select_configs env i) (\<lambda>cs.
          eff_seq (store_config env i (if cs \<noteq> [] then merge_tools_configs cs else default_tools_config))
          (eff_seq (fleet_audit ''skill_remove'' i (sk_id s)) (ret 200))) w2 = (r, w')"
        using go 2 True by (auto simp: eff_bind_def)
      from recompute_cases[OF this u] show ?thesis using e ok r(2)
        by (auto simp: skill_outcome_def merge_tools_configs_def split: sum.splits)
    next
      case False
      have keep: "filter ((\<noteq>) ?x) (fl_assigned (db w)) = fl_assigned (db w)" if "?x \<notin> set (fl_assigned (db w))"
        using that by (auto simp: filter_id_conv)
      have "unchanged (db w) (db w') \<and> r \<notin> {Inr 200, Inr 201}"
      proof (cases n)
        case (Inl e)
        then have "r = Inl e" "w' = w2" using go 2 by (simp_all add: eff_bind_def)
        then show ?thesis using del Inl by (auto simp: unchanged_def)
      next
        case (Inr m)
        then have m: "m = 0" using False by (cases m) auto
        then have "r = Inr 404" "w' = w2" using go 2 Inr by (simp_all add: eff_bind_def ret_def)
        then show ?thesis using del Inr m keep by (simp add: unchanged_def)
      qed
      then show ?thesis using r(2) by (auto simp: skill_outcome_def split: sum.splits)
    qed
  qed
qed

lemma assign_outcome:
  assumes "assign_skill env user i body w = (Inr st, w')"
  shows "skill_outcome env user i (db w) st (db w')"
proof (cases "nullish body \<or> \<not> truthy (js_get body ''skill_id'')")
  case True
  then have "w' = w" "st \<in> {500, 400}"
    using assms by (auto simp: assign_skill_def answer_500_def eff_catch_def ret_def throw_def split: if_splits)
  then show ?thesis by (auto simp: skill_outcome_def)
next
  case False
  let ?store = "\<lambda>s. eff_bind (select_configs env i) (\<lambda>cs. eff_seq (store_config env i (merge_tools_configs cs))
            (eff_seq (fleet_audit ''skill_assign'' i (sk_id s)) (ret 201)))"
  let ?rest = "\<lambda>s r. case r of Inl (UniqueViolation _) \<Rightarrow> ret 409 | Inl e \<Rightarrow> throw e | Inr _ \<Rightarrow> ?store s"
  let ?go = "\<lambda>s. eff_bind (eff_try (insert_assignment env i (sk_id s))) (?rest s)"
  obtain r where r: "skill_gate env user i (js_get body ''skill_id'') ''skill_assign_denied'' ?go w = (r, w')"
      "st = (case r of Inl e \<Rightarrow> 500 | Inr n \<Rightarrow> n)"
    using assms False by (fastforce simp: assign_skill_def answer_500_def eff_catch_def ret_def split: prod.splits sum.splits)
  from skill_gate_cases[OF r(1)] show ?thesis
  proof (elim disjE exE conjE)
    assume "unchanged (db w) (db w')" "r \<notin> {Inr 200, Inr 201}"
    then show ?thesis using r(2) by (auto simp: skill_outcome_def split: sum.splits)
  next
    fix a s w1
    assume w1: "db w1 = db w" and ok: "admitted env user i (db w) a s" and go: "?go s w1 = (r, w')"
    let ?x = "\<lparr>as_agent = fa_id a, as_skill = sk_id s\<rparr>"
    have u: "fe_uuid env i = Some (fa_id a)" using ok by (simp add: admitted_def)
    obtain n w2 where 2: "insert_assignment env i (sk_id s) w1 = (n, w2)" by fastforce
    have ins: "(\<exists>e. n = Inl e) \<and> db w2 = db w \<or> n = Inr () \<and> db w2 = (db w)\<lparr>fl_assigned := fl_assigned (db w) @ [?x]\<rparr>"
      using 2 u w1 by (auto simp: insert_assignment_def db_query_def Let_def split: list.splits bool.splits if_splits)
    have t: "eff_try (insert_assignment env i (sk_id s)) w1 = (Inr n, w2)"
      using 2 by (auto simp: eff_try_def eff_catch_def eff_bind_def ret_def split: sum.splits)
    show ?thesis
    proof (cases n)
      case (Inr y)
      then have e: "edited ?x (db w) (db w2)" using ins by (auto simp: edited_def)
      have "?store s w2 = (r, w')" using go t Inr by (simp add: eff_bind_def)
      from recompute_cases[OF this u] show ?thesis using e ok r(2)
        by (auto simp: skill_outcome_def split: sum.splits)
    next
      case (Inl e)
      have "?rest s (Inl e) w2 = (r, w')" using go t Inl by (simp add: eff_bind_def)
      then have "w' = w2 \<and> r \<notin> {Inr 200, Inr 201}" by (cases e) (auto simp: ret_def throw_def)
      then show ?thesis using r(2) ins Inl by (auto simp: skill_outcome_def unchanged_def split: sum.splits)
    qed
  qed
qed

section \<open>What the handlers guarantee\<close>


lemma gate_eval:
  assumes "faults w = p # q # fs" "\<not> p" "\<not> q" "fe_uuid env i = Some (fa_id a)" "fe_uuid env k = Some (sk_id s)"
    and "find (\<lambda>x. fa_id x = fa_id a \<and> agent_visible env user x) (fl_agents (db w)) = Some a"
    and "fa_status a \<noteq> ''running''" "find_skill (sk_id s) (db w) = Some s" "is_admin (fe_client env) user"
  shows "skill_gate env user i (Str k) den go w = go s (w\<lparr>faults := fs\<rparr>)"
  using assms
  by (simp add: skill_gate_def select_own_agent_def select_skill_def fleet_query_def db_query_def eff_bind_def Let_def)

text \<open>
  A removal that fails half way keeps the rights for good. The assignment is deleted
  before the configuration is recomputed, and not in one transaction. When the query that
  reads the remaining configurations fails, the caller is told 500, the skill is gone and
  its tools are still granted; and repeating the request is answered 404 without recomputing
  anything.
\<close>

theorem remove_keeps_rights:
  assumes "fe_uuid env i = Some (fa_id a)" "fe_uuid env k = Some (sk_id s)"
    and "find (\<lambda>x. fa_id x = fa_id a \<and> agent_visible env user x) (fl_agents d) = Some a"
    and "fa_status a \<noteq> ''running''" "find_skill (sk_id s) d = Some s" "is_admin (fe_client env) user"
    and "\<lparr>as_agent = fa_id a, as_skill = sk_id s\<rparr> \<in> set (fl_assigned d)"
  shows "\<exists>w1 w2. remove_skill env user i k \<lparr>faults = [False, False, False, True], db = d\<rparr> = (Inr 500, w1)
    \<and> \<lparr>as_agent = fa_id a, as_skill = sk_id s\<rparr> \<notin> set (fl_assigned (db w1)) \<and> fl_agents (db w1) = fl_agents d
    \<and> remove_skill env user i k \<lparr>faults = [False, False, False, False], db = db w1\<rparr> = (Inr 404, w2)
    \<and> fl_agents (db w2) = fl_agents d"
proof -
  let ?x = "\<lparr>as_agent = fa_id a, as_skill = sk_id s\<rparr>"
  define d1 where "d1 = d\<lparr>fl_assigned := filter ((\<noteq>) ?x) (fl_assigned d)\<rparr>"
  have f: "find (\<lambda>x. fa_id x = fa_id a \<and> agent_visible env user x) (fl_agents d1) = Some a" "find_skill (sk_id s) d1 = Some s"
    using assms(3,5) by (simp_all add: d1_def find_skill_def)
  have none: "filter ((=) ?x) (fl_assigned d1) = []" by (auto simp: d1_def filter_empty_conv)
  have some: "filter ((=) ?x) (fl_assigned d) \<noteq> []" using assms(7) by (auto simp: filter_empty_conv)
  have "remove_skill env user i k \<lparr>faults = [False, False, False, True], db = d\<rparr> = (Inr 500, \<lparr>faults = [], db = d1\<rparr>)"
    unfolding remove_skill_def answer_500_def eff_catch_def
    by (subst gate_eval[where a = a and s = s and p = False and q = False and fs = "[False, True]"])
      (use assms some in \<open>simp_all add: eff_bind_def delete_assignment_def select_configs_def fleet_query_def
        db_query_def Let_def ret_def d1_def\<close>)
  moreover have "remove_skill env user i k \<lparr>faults = [False, False, False, False], db = d1\<rparr> = (Inr 404, \<lparr>faults = [False], db = d1\<rparr>)"
    unfolding remove_skill_def answer_500_def eff_catch_def
    by (subst gate_eval[where a = a and s = s and p = False and q = False and fs = "[False, False]"])
      (use assms f none in \<open>simp_all add: eff_bind_def delete_assignment_def fleet_query_def db_query_def Let_def
        ret_def d1_def\<close>)
  moreover have "?x \<notin> set (fl_assigned d1)" "fl_agents d1 = fl_agents d" by (simp_all add: d1_def)
  ultimately show ?thesis
    by (intro exI[of _ "\<lparr>faults = [], db = d1\<rparr>"] exI[of _ "\<lparr>faults = [False], db = d1\<rparr>"] conjI) simp_all
qed

section \<open>Witnesses\<close>

definition demo_admin :: js where
  "demo_admin = Obj [(''sub'', Str ''u9''),
     (''resource_access'', Obj [(''ui'', Obj [(''roles'', Arr [Str ''admin''])])])]"

definition demo_removed :: "(exn + nat) \<times> fleet_db world" where
  "demo_removed = remove_skill demo_fleet_env demo_admin ''a1'' ''s1'' demo_fleet_world"

lemma demo_removed_ok: "remove_skill demo_fleet_env demo_admin ''a1'' ''s1'' demo_fleet_world = (Inr 200, snd demo_removed)"
proof -
  have "fst demo_removed = Inr 200" by code_simp
  then show ?thesis unfolding demo_removed_def by (metis prod.collapse)
qed


theorem remove_keeps_rights_witness:
  "\<exists>w1. remove_skill demo_fleet_env demo_admin ''a1'' ''s1'' \<lparr>faults = [False, False, False, True], db = demo_fleet\<rparr> = (Inr 500, w1)"
proof -
  have "fe_uuid demo_fleet_env ''a1'' = Some (fa_id demo_box)" "fe_uuid demo_fleet_env ''s1'' = Some (sk_id demo_skill)"
    by (simp_all add: demo_fleet_env_def demo_box_def demo_skill_def)
  moreover have adm: "is_admin (fe_client demo_fleet_env) demo_admin" by code_simp
  moreover have "find (\<lambda>x. fa_id x = fa_id demo_box \<and> agent_visible demo_fleet_env demo_admin x) (fl_agents demo_fleet) = Some demo_box"
    using adm by (simp add: demo_fleet_def agent_visible_def scope_to_owner_def)
  moreover have "fa_status demo_box \<noteq> ''running''" by (simp add: demo_box_def)
  moreover have "find_skill (sk_id demo_skill) demo_fleet = Some demo_skill" by (simp add: find_skill_def demo_fleet_def)
  moreover have "\<lparr>as_agent = fa_id demo_box, as_skill = sk_id demo_skill\<rparr> \<in> set (fl_assigned demo_fleet)"
    by (simp add: demo_fleet_def demo_box_def demo_skill_def)
  ultimately show ?thesis using remove_keeps_rights[of demo_fleet_env "''a1''" demo_box "''s1''" demo_skill demo_admin demo_fleet]
    by blast
qed

end
