(* ===== verification/Lifecycle.thy ===== *)
theory Lifecycle
  imports Installer
begin

text \<open>
  Starting, stopping and deleting an agent (\<open>routes/agents.ts\<close>): the container, the tokens,
  the tools, the row, the history and the uptime session. Each handler is composed as the
  source composes it, with its own catches; a query, the engine, the file system and the
  revocation services may fail at every step. Messages are written in ASCII (a hyphen for a
  dash); removing an avatar from the object store, whose outcome is ignored, is left out.
\<close>

datatype start_warning = NoAkm | NoRouter | NoEdge

text \<open>The warnings of a start that went through without a token or without the edge network.\<close>

datatype fleet_resp = FStatus nat | FStarted string "start_warning list" | FStopped | FDeleted

definition newline :: string where "newline = [CHR 0x0A]"

definition announcement :: "fleet_agent \<Rightarrow> string \<Rightarrow> string" where
  "announcement a what = ''Agent \"'' @ (if fa_name a = [] then fa_slug a else fa_name a) @ ''\" '' @ what"

section \<open>Instructions of the skills\<close>

definition instruction_parts :: "skill_row list \<Rightarrow> string list" where
  "instruction_parts ss =
     map (\<lambda>s. ''## Skill: '' @ sk_name s @ newline @ newline @ the (sk_instructions s))
       (filter (\<lambda>s. configured (sk_instructions s)) ss)"

definition rule_break :: string where
  "rule_break = newline @ newline @ ''---'' @ newline @ newline"

definition skill_instructions :: "skill_row list \<Rightarrow> string option" where
  "skill_instructions ss =
     (let parts = instruction_parts ss in if parts = [] then None else Some (join_with rule_break parts))"

text \<open>What ends up in RULES.md.\<close>

definition rules_content :: "string \<Rightarrow> string option \<Rightarrow> string" where
  "rules_content rules instr =
     (if \<not> configured instr then rules
      else if rules \<noteq> [] then rules @ rule_break @ ''## Skill Instructions'' @ newline @ newline @ the instr
      else ''## Skill Instructions'' @ newline @ newline @ the instr)"

text \<open>The object that is printed as \<open>agent.yml\<close>.\<close>

definition agent_config :: "fleet_agent \<Rightarrow> agent_yml" where
  "agent_config a =
     \<lparr>ay_version = 1, ay_id = fa_slug a, ay_name = fa_name a, ay_description = fa_description a,
      ay_soul_path = ''SOUL.md'', ay_rules_path = ''RULES.md'', ay_tools = fa_tools a,
      ay_max_iterations = 15, ay_iteration_timeout = 600,
      ay_cpus = fa_cpus a, ay_mem = fa_mem a, ay_pids = fa_pids a,
      ay_state = [(''workspace'', ''/workspace''), (''logs'', ''/var/log/agentbox''), (''data'', ''/data'')]\<rparr>"

definition files_of :: "fleet_agent \<Rightarrow> string option \<Rightarrow> agent_files" where
  "files_of a instr = \<lparr>af_yml = agent_config a, af_soul = fa_soul a, af_rules = rules_content (fa_rules a) instr\<rparr>"

definition write_agent_files :: "fleet_env \<Rightarrow> fleet_agent \<Rightarrow> string option \<Rightarrow> (fleet_db, unit) eff" where
  "write_agent_files env a instr =
     (if config_host_path (fe_docker env) = [] then throw (Thrown ''AGENTBOX_CONFIG_HOST_PATH is not set'')
      else case fe_write_files env (fa_slug a) of
        Some why \<Rightarrow> throw (Thrown why)
      | None \<Rightarrow> local_step (\<lambda>d. d\<lparr>fl_files := (fa_slug a, files_of a instr) #
                   filter (\<lambda>f. fst f \<noteq> fa_slug a) (fl_files d)\<rparr>))"

definition remove_agent_files :: "fleet_env \<Rightarrow> string \<Rightarrow> (fleet_db, unit) eff" where
  "remove_agent_files env slug =
     (case fe_remove_files env slug of
        Some why \<Rightarrow> throw (Thrown why)
      | None \<Rightarrow> local_step (\<lambda>d. d\<lparr>fl_files := filter (\<lambda>f. fst f \<noteq> slug) (fl_files d)\<rparr>))"

section \<open>Tokens of a start\<close>

text \<open>What the start keeps of a token: the variables for the container, and what goes into the row.\<close>

record issued =
  is_env :: "string list"
  is_jti :: "string option"
  is_exp :: "int option"
  is_secret :: "string option"
  is_warnings :: "start_warning list"

definition no_token :: issued where
  "no_token = \<lparr>is_env = [], is_jti = None, is_exp = None, is_secret = None, is_warnings = []\<rparr>"

definition issue_for ::
  "bool \<Rightarrow> (nat \<Rightarrow> token_result option) \<Rightarrow> (token_result \<Rightarrow> string list) \<Rightarrow> string \<Rightarrow> start_warning \<Rightarrow> (fleet_db, issued) eff" where
  "issue_for due gen vars slug warning =
     (if \<not> due then ret no_token
      else eff_bind (peek fl_count) (\<lambda>k.
        case gen k of
          None \<Rightarrow> ret (no_token\<lparr>is_warnings := [warning]\<rparr>)
        | Some r \<Rightarrow>
            eff_seq (local_step (\<lambda>d. d\<lparr>fl_count := k + 2\<rparr>))
            (eff_seq (fleet_audit ''token_issued'' slug (tr_jti r))
            (ret \<lparr>is_env = vars r, is_jti = Some (tr_jti r), is_exp = Some (tr_expires r),
                  is_secret = Some (tr_refresh r), is_warnings = []\<rparr>))))"

definition start_opts :: "fleet_agent \<Rightarrow> string option \<Rightarrow> string list \<Rightarrow> token_opts" where
  "start_opts a corr scopes =
     \<lparr>to_slug = fa_slug a, to_uuid = fa_id a, to_owner = fa_owner a, to_scopes = Some scopes, to_corr = corr\<rparr>"

definition issue_akm :: "fleet_env \<Rightarrow> string option \<Rightarrow> fleet_agent \<Rightarrow> (fleet_db, issued) eff" where
  "issue_akm env corr a =
     issue_for (configured (fe_akm_key env))
       (\<lambda>k. generate_agent_akm_token (akm_lib env) (start_opts a corr [''akm:read'', ''akm:write'']) k (fe_now env))
       (get_akm_env_vars (fe_akm_url env)) (fa_slug a)
       NoAkm"

definition issue_router :: "fleet_env \<Rightarrow> string option \<Rightarrow> fleet_agent \<Rightarrow> (fleet_db, issued) eff" where
  "issue_router env corr a =
     issue_for (is_model_router_configured (fe_lib env))
       (\<lambda>k. generate_agent_model_router_token (fe_lib env) (start_opts a corr []) k (fe_now env))
       (get_model_router_env_vars (fe_router_url env) (fe_api_url env)) (fa_slug a)
       NoRouter"

definition draw_work_token :: "fleet_env \<Rightarrow> (fleet_db, string) eff" where
  "draw_work_token env = eff_bind (peek fl_count) (\<lambda>k.
     eff_seq (local_step (\<lambda>d. d\<lparr>fl_count := k + 1\<rparr>)) (ret (tl_uuid (fe_lib env) k)))"

section \<open>The container of a start\<close>

definition optional_var :: "string \<Rightarrow> string option \<Rightarrow> string list" where
  "optional_var name v = (if configured v then [name @ ''='' @ the v] else [])"

definition chat_vars :: "fleet_env \<Rightarrow> string list" where
  "chat_vars env = optional_var ''CHAT_CALLBACK_TOKEN'' (fe_callback env) @
     optional_var ''ANTHROPIC_API_KEY'' (fe_anthropic env) @ optional_var ''TAVILY_API_KEY'' (fe_tavily env)"

definition work_var :: "string \<Rightarrow> string" where
  "work_var t = ''WORK_TOKEN='' @ t"

definition select_profile :: "fleet_agent \<Rightarrow> (fleet_db, container_profile option) eff" where
  "select_profile a =
     (case fa_profile a of
        None \<Rightarrow> ret None
      | Some p \<Rightarrow> db_read (\<lambda>d. find (\<lambda>x. pf_id x = p) (fl_profiles d)))"

definition start_options ::
  "fleet_env \<Rightarrow> fleet_agent \<Rightarrow> issued \<Rightarrow> issued \<Rightarrow> string \<Rightarrow> string \<Rightarrow> container_profile option \<Rightarrow> create_opts" where
  "start_options env a akm mr work net prof =
     \<lparr>co_agent = fa_slug a, co_cpus = fa_cpus a, co_mem = fa_mem a, co_pids = fa_pids a,
      co_env = is_env akm @ is_env mr @ chat_vars env @ [work_var work, ''AGENT_USE_TERMINAL=1''],
      co_network = net,
      co_image = (case prof of None \<Rightarrow> [] | Some p \<Rightarrow> pf_image p),
      co_extra_env = (case prof of None \<Rightarrow> [] | Some p \<Rightarrow> pf_env p),
      co_shm = (case prof of None \<Rightarrow> [] | Some p \<Rightarrow> pf_shm p)\<rparr>"

text \<open>When the container started, if the engine can tell; a failure here is only logged.\<close>

definition container_started_at :: "fleet_env \<Rightarrow> string \<Rightarrow> (fleet_db, int option) eff" where
  "container_started_at env slug =
     eff_catch
       (eff_bind (on_engine env (inspect_container (fe_date env) (fe_engine env) slug)) (\<lambda>v.
        ret (case v of None \<Rightarrow> None | Some x \<Rightarrow> cv_started x)))
       (\<lambda>_. ret None)"

text \<open>The tools; when they fail the container goes again, and the message says whether it went.\<close>

definition install_or_clean_up :: "fleet_env \<Rightarrow> fleet_agent \<Rightarrow> string \<Rightarrow> (fleet_db, unit) eff" where
  "install_or_clean_up env a cid =
     eff_catch (ensure_required_tools_installed env (fa_id a) (fa_slug a)) (\<lambda>e.
       eff_bind (eff_try (on_engine env (stop_and_remove (fe_engine env) (fa_slug a)))) (\<lambda>r.
       let detail = ''Tool installation failed: '' @ exn_text env e in
       throw (Thrown (case r of
         Inl _ \<Rightarrow> detail @ '' (container '' @ cid @ '' could not be removed and may still be running - manual cleanup required)''
       | Inr _ \<Rightarrow> detail))))"

section \<open>The row of a start\<close>

definition store_akm :: "fleet_env \<Rightarrow> string \<Rightarrow> issued \<Rightarrow> (fleet_db, unit) eff" where
  "store_akm env i akm =
     (if configured (is_jti akm)
      then best_effort (update_fleet env i (\<lambda>a. a\<lparr>fa_akm_jti := is_jti akm, fa_akm_exp := is_exp akm\<rparr>))
      else ret ())"

definition store_router :: "fleet_env \<Rightarrow> string \<Rightarrow> issued \<Rightarrow> (fleet_db, unit) eff" where
  "store_router env i mr =
     (if configured (is_jti mr)
      then best_effort (update_fleet env i (\<lambda>a. a\<lparr>fa_mr_jti := is_jti mr, fa_mr_exp := is_exp mr,
             fa_mr_hash := (if configured (is_secret mr) then Some (tl_sha (fe_lib env) (the (is_secret mr))) else None)\<rparr>))
      else ret ())"

definition running_row :: "string \<Rightarrow> string \<Rightarrow> fleet_agent \<Rightarrow> fleet_agent" where
  "running_row cid work a =
     a\<lparr>fa_status := ''running'', fa_container := Some cid, fa_work := Some work, fa_error := None,
       fa_container_state := Some ''running'', fa_finished := None\<rparr>"

definition open_session :: "fleet_env \<Rightarrow> string \<Rightarrow> int option \<Rightarrow> (fleet_db, unit) eff" where
  "open_session env u started = db_write (\<lambda>d. d\<lparr>fl_sessions := fl_sessions d @
     [\<lparr>fs_agent = u, fs_started = (case started of None \<Rightarrow> fe_now env | Some t \<Rightarrow> t),
       fs_estimated = (started = None), fs_stopped = None\<rparr>]\<rparr>)"

section \<open>Start\<close>

definition set_error :: "fleet_env \<Rightarrow> string \<Rightarrow> string \<Rightarrow> (fleet_db, unit) eff" where
  "set_error env i why = update_fleet env i (\<lambda>a. a\<lparr>fa_status := ''error'', fa_error := Some why\<rparr>)"

text \<open>The history row references the agent.\<close>

definition insert_history :: "fleet_env \<Rightarrow> string \<Rightarrow> string \<Rightarrow> string \<Rightarrow> (fleet_db, unit) eff" where
  "insert_history env i old new = db_query (\<lambda>d.
     case fe_uuid env i of
       None \<Rightarrow> Inl DbFault
     | Some u \<Rightarrow>
         if find_fleet u d = None then Inl DbFault
         else Inr ((), d\<lparr>fl_history := fl_history d @ [(u, old, new)]\<rparr>))"

definition start_failed :: "fleet_env \<Rightarrow> js \<Rightarrow> string \<Rightarrow> string \<Rightarrow> exn \<Rightarrow> (fleet_db, fleet_resp) eff" where
  "start_failed env user i slug e =
     eff_seq (best_effort (eff_seq (set_error env i (exn_text env e)) (insert_history env i ''starting'' ''error'')))
     (eff_seq (dispatch_event i ''error'')
     (eff_seq (notify_user (js_get user ''sub'') (''Agent \"'' @ slug @ ''\" failed to start: '' @ exn_text env e))
     (ret (FStatus 500))))"

text \<open>The owner's ceiling: the scope that is denied, if any.\<close>

definition ceiling_exceeded :: "fleet_env \<Rightarrow> js \<Rightarrow> fleet_agent \<Rightarrow> string option \<Rightarrow> bool" where
  "ceiling_exceeded env user a scope =
     (scope \<noteq> None \<and> js_get user ''sub'' = Str (fa_owner a) \<and> Str ''admin'' \<notin> set (roles_from (fe_client env) user))"

text \<open>The container is running: what is recorded about it.\<close>

definition record_start ::
  "fleet_env \<Rightarrow> js \<Rightarrow> string \<Rightarrow> fleet_agent \<Rightarrow> issued \<Rightarrow> issued \<Rightarrow> string \<Rightarrow> string \<Rightarrow> int option \<Rightarrow> start_warning list \<Rightarrow> (fleet_db, fleet_resp) eff" where
  "record_start env user i a akm mr work cid started warnings =
     eff_seq (store_akm env i akm)
     (eff_seq (store_router env i mr)
     (eff_seq (update_fleet env i (running_row cid work))
     (eff_seq (mark_verified (fa_slug a))
     (eff_seq (best_effort (insert_history env (fa_id a) (fa_status a) ''running''))
     (eff_seq (best_effort (open_session env (fa_id a) started))
     (eff_seq (fleet_audit ''start'' (fa_slug a) cid)
     (eff_seq (dispatch_event (fa_id a) ''start'')
     (eff_seq (notify_user (Str (fa_owner a)) (announcement a ''started''))
     (ret (FStarted cid warnings))))))))))"

text \<open>From the container on.\<close>

definition launch ::
  "fleet_env \<Rightarrow> js \<Rightarrow> string \<Rightarrow> fleet_agent \<Rightarrow> issued \<Rightarrow> issued \<Rightarrow> string \<Rightarrow> (fleet_db, fleet_resp) eff" where
  "launch env user i a akm mr work =
     eff_bind (db_read (scopes_of (fa_id a))) (\<lambda>scopes.
     let net = resolve_agent_network (network_prefix (fe_docker env)) (agent_effective_scope scopes) in
     eff_bind (select_profile a) (\<lambda>prof.
     eff_bind (on_engine env (create_and_start (fe_engine env) (fe_docker env) (start_options env a akm mr work net prof)))
       (\<lambda>(cid, edge_failed).
     eff_bind (container_started_at env (fa_slug a)) (\<lambda>started.
     eff_seq (install_or_clean_up env a cid)
     (record_start env user i a akm mr work cid started
       (is_warnings akm @ is_warnings mr @ (if edge_failed then [NoEdge] else [])))))))"

definition start_agent :: "fleet_env \<Rightarrow> js \<Rightarrow> string option \<Rightarrow> string \<Rightarrow> fleet_agent \<Rightarrow> (fleet_db, fleet_resp) eff" where
  "start_agent env user corr i a =
     eff_bind (db_read (skills_of (fa_id a))) (\<lambda>skills.
     eff_seq (write_agent_files env a (skill_instructions skills))
     (eff_bind (db_read (\<lambda>d. agent_elevated_scope (scopes_of (fa_id a) d))) (\<lambda>elevated.
      if ceiling_exceeded env user a elevated
      then eff_seq (fleet_audit ''principal_ceiling_denied'' (fa_slug a) (the elevated)) (ret (FStatus 403))
      else
        eff_bind (issue_akm env corr a) (\<lambda>akm.
        eff_bind (issue_router env corr a) (\<lambda>mr.
        eff_bind (draw_work_token env) (\<lambda>work.
        launch env user i a akm mr work))))))"

definition start_route :: "fleet_env \<Rightarrow> js \<Rightarrow> string option \<Rightarrow> string \<Rightarrow> (fleet_db, fleet_resp) eff" where
  "start_route env user corr i =
     (if config_host_path (fe_docker env) = [] then ret (FStatus 503)
      else eff_bind (eff_try (select_agent env i)) (\<lambda>row.
        case row of
          Inl e \<Rightarrow> start_failed env user i ''unknown'' e
        | Inr None \<Rightarrow> ret (FStatus 404)
        | Inr (Some a) \<Rightarrow> eff_catch (start_agent env user corr i a) (start_failed env user i (fa_slug a))))"

section \<open>Stop\<close>

text \<open>Whether a revocation that was due failed.\<close>

definition revoke_failed :: "bool \<Rightarrow> string option \<Rightarrow> (string \<Rightarrow> (fleet_db, unit) eff) \<Rightarrow> (fleet_db, bool) eff" where
  "revoke_failed due jti revoke =
     (if configured jti \<and> due
      then eff_catch (eff_seq (revoke (the jti)) (ret False)) (\<lambda>_. ret True)
      else ret False)"

definition remove_or_record :: "fleet_env \<Rightarrow> string \<Rightarrow> string \<Rightarrow> (fleet_db, unit) eff" where
  "remove_or_record env i slug =
     eff_catch (on_engine env (stop_and_remove (fe_engine env) slug)) (\<lambda>e.
       let detail = ''Container removal failed: '' @ exn_text env e in
       eff_seq (best_effort (set_error env i detail)) (throw (Thrown detail)))"

definition fail_pending_of :: "string \<Rightarrow> (chat_db, nat) eff" where
  "fail_pending_of u =
     bump_query (\<lambda>m. m_author m = u \<and> m_kind m = Agent \<and> m_status m = Pending) (fail_with ''Agent stopped'')"

definition close_open_sessions :: "fleet_env \<Rightarrow> string \<Rightarrow> (fleet_db, unit) eff" where
  "close_open_sessions env u = db_write (\<lambda>d. d\<lparr>fl_sessions :=
     map (\<lambda>s. if fs_agent s = u \<and> fs_stopped s = None then s\<lparr>fs_stopped := Some (fe_now env)\<rparr> else s) (fl_sessions d)\<rparr>)"

definition stopped_row :: "bool \<Rightarrow> bool \<Rightarrow> fleet_agent \<Rightarrow> fleet_agent" where
  "stopped_row akm_failed mr_failed a =
     (let b = a\<lparr>fa_status := ''stopped'', fa_container := None, fa_work := None, fa_error := None,
                fa_container_state := Some ''absent''\<rparr>;
          c = (if akm_failed then b else b\<lparr>fa_akm_jti := None, fa_akm_exp := None\<rparr>)
      in if mr_failed then c else c\<lparr>fa_mr_jti := None, fa_mr_exp := None, fa_mr_hash := None\<rparr>)"

definition audit_revocation :: "string \<Rightarrow> bool \<Rightarrow> string option \<Rightarrow> (fleet_db, unit) eff" where
  "audit_revocation slug failed jti =
     (if configured jti
      then fleet_audit (if failed then ''token_revoke_failed'' else ''token_revoked'') slug (the jti)
      else ret ())"

definition stop_agent :: "fleet_env \<Rightarrow> string \<Rightarrow> fleet_agent \<Rightarrow> (fleet_db, fleet_resp) eff" where
  "stop_agent env i a =
     eff_bind (revoke_failed (configured (fe_akm_key env)) (fa_akm_jti a) (\<lambda>j. revoke_akm env j (fa_akm_exp a))) (\<lambda>akm_failed.
     eff_bind (revoke_failed (is_model_router_configured (fe_lib env)) (fa_mr_jti a) (\<lambda>j. revoke_mr env j (fa_mr_exp a))) (\<lambda>mr_failed.
     eff_seq (remove_or_record env i (fa_slug a))
     (eff_seq (best_effort (eff_bind (on_chat (fail_pending_of (fa_id a))) (\<lambda>_. ret ())))
     (eff_seq (best_effort (close_open_sessions env (fa_id a)))
     (eff_seq (update_fleet env i (stopped_row akm_failed mr_failed))
     (eff_seq (best_effort (insert_history env (fa_id a) (fa_status a) ''stopped''))
     (eff_seq (audit_revocation (fa_slug a) akm_failed (fa_akm_jti a))
     (eff_seq (audit_revocation (fa_slug a) mr_failed (fa_mr_jti a))
     (eff_seq (fleet_audit ''stop'' (fa_slug a) [])
     (eff_seq (dispatch_event (fa_id a) ''stop'')
     (eff_seq (notify_user (Str (fa_owner a)) (announcement a ''stopped''))
     (ret FStopped))))))))))))"

definition fleet_500 :: "(fleet_db, fleet_resp) eff \<Rightarrow> (fleet_db, fleet_resp) eff" where
  "fleet_500 m = eff_catch m (\<lambda>_. ret (FStatus 500))"

definition stop_route :: "fleet_env \<Rightarrow> string \<Rightarrow> (fleet_db, fleet_resp) eff" where
  "stop_route env i = fleet_500
     (eff_bind (select_agent env i) (\<lambda>row.
      case row of None \<Rightarrow> ret (FStatus 404) | Some a \<Rightarrow> stop_agent env i a))"

section \<open>Delete\<close>

definition revoke_and_audit :: "bool \<Rightarrow> string option \<Rightarrow> string \<Rightarrow> (string \<Rightarrow> (fleet_db, unit) eff) \<Rightarrow> (fleet_db, unit) eff" where
  "revoke_and_audit due jti slug revoke =
     (if configured jti \<and> due
      then eff_catch (eff_seq (revoke (the jti)) (fleet_audit ''token_revoked'' slug (the jti)))
             (\<lambda>_. fleet_audit ''token_revoke_failed'' slug (the jti))
      else ret ())"

definition container_of :: "fleet_agent \<Rightarrow> string" where
  "container_of a = (case fa_container a of None \<Rightarrow> [] | Some c \<Rightarrow> c)"

text \<open>The row and what references it: cascades, and \<open>SET NULL\<close> for the lead of a thread.\<close>

definition forget_agent :: "string \<Rightarrow> fleet_db \<Rightarrow> fleet_db" where
  "forget_agent u d =
     d\<lparr>fl_agents := filter (\<lambda>a. fa_id a \<noteq> u) (fl_agents d),
       fl_assigned := filter (\<lambda>x. as_agent x \<noteq> u) (fl_assigned d),
       fl_installs := filter (\<lambda>r. in_agent r \<noteq> u) (fl_installs d),
       fl_webhooks := filter (\<lambda>h. wh_agent h \<noteq> u) (fl_webhooks d),
       fl_sessions := filter (\<lambda>s. fs_agent s \<noteq> u) (fl_sessions d),
       fl_history := filter (\<lambda>h. fst h \<noteq> u) (fl_history d),
       fl_chat := (update_threads (\<lambda>t. t_lead t = Some u) (\<lambda>t. t\<lparr>t_lead := None\<rparr>) (fl_chat d))
          \<lparr>d_agents := filter (\<lambda>a. a_id a \<noteq> u) (d_agents (fl_chat d))\<rparr>\<rparr>"

definition delete_agent :: "fleet_env \<Rightarrow> bool \<Rightarrow> string \<Rightarrow> fleet_agent \<Rightarrow> (fleet_db, fleet_resp) eff" where
  "delete_agent env purge i a =
     eff_seq (revoke_and_audit (configured (fe_akm_key env)) (fa_akm_jti a) (fa_slug a) (\<lambda>j. revoke_akm env j (fa_akm_exp a)))
     (eff_seq (revoke_and_audit (is_model_router_configured (fe_lib env)) (fa_mr_jti a) (fa_slug a) (\<lambda>j. revoke_mr env j (fa_mr_exp a)))
     (eff_seq (if fa_status a = ''running''
               then eff_catch (on_engine env (stop_and_remove (fe_engine env) (fa_slug a)))
                      (\<lambda>_. fleet_audit ''container_stop_failed'' (fa_slug a) (container_of a))
               else ret ())
     (eff_seq (if purge
               then eff_seq (on_engine env (remove_agent_volumes (fe_engine env) (fa_slug a)))
                      (fleet_audit ''purge_volumes'' (fa_slug a) [])
               else ret ())
     (eff_seq (remove_agent_files env (fa_slug a))
     (eff_seq (fleet_query env i (\<lambda>u d. ((), forget_agent u d)))
     (eff_seq (fleet_audit ''delete'' (fa_slug a) [])
     (ret FDeleted)))))))"

definition delete_route :: "fleet_env \<Rightarrow> bool \<Rightarrow> string \<Rightarrow> (fleet_db, fleet_resp) eff" where
  "delete_route env purge i = fleet_500
     (eff_bind (select_agent env i) (\<lambda>row.
      case row of None \<Rightarrow> ret (FStatus 404) | Some a \<Rightarrow> delete_agent env purge i a))"

section \<open>Reconciling the tools\<close>

definition reconcile_tools_route :: "fleet_env \<Rightarrow> string \<Rightarrow> (fleet_db, fleet_resp + tool_report) eff" where
  "reconcile_tools_route env i =
     eff_catch
       (eff_bind (select_agent env i) (\<lambda>row.
        case row of
          None \<Rightarrow> ret (Inl (FStatus 404))
        | Some a \<Rightarrow>
            if fa_status a \<noteq> ''running'' then ret (Inl (FStatus 409))
            else eff_bind (reconcile_tool_installs env (fa_id a) (fa_slug a)) (\<lambda>rep.
              eff_seq (fleet_audit ''reconcile_tools'' (fa_slug a) []) (ret (Inr rep)))))
       (\<lambda>_. ret (Inl (FStatus 500)))"

end
