(* ===== verification/LifecycleFrame.thy ===== *)
theory LifecycleFrame
  imports Lifecycle InstallerProps
begin

text \<open>
  What the parts of a start, a stop and a deletion leave alone: the engine is asked about the
  agent's own container only, and the agents, their sessions and the lists of revoked tokens
  change at the steps that say so and nowhere else. The installer is covered through a locale
  that states what it needs from a predicate to keep it.
\<close>

section \<open>Calls about one container\<close>

text \<open>\<open>own_call\<close>: the call names the agent's own container, volumes or exec, and a container is made within bounds.\<close>

definition own_call :: "fleet_env \<Rightarrow> string \<Rightarrow> docker_call \<Rightarrow> bool" where
  "own_call env slug c =
     (let n = ''agentbox-'' @ slug in
      case c of
        InspectC m \<Rightarrow> m = n | StopC m \<Rightarrow> m = n | RemoveC m \<Rightarrow> m = n | StartC m \<Rightarrow> m = n
      | ConnectNet net m \<Rightarrow> m = n
      | RemoveVol v \<Rightarrow> v \<in> (\<lambda>x. ''agentbox-'' @ slug @ ''-'' @ x) ` {''workspace'', ''logs'', ''data''}
      | Logs m k f \<Rightarrow> m = n
      | CreateExec m cmd i b \<Rightarrow> m = n
      | CreateC s \<Rightarrow> \<exists>opts. co_agent opts = slug \<and> spec_ok (fe_docker env) opts s
      | _ \<Rightarrow> True)"

lemma calls_ok_mono: "calls_ok P m \<Longrightarrow> (\<And>c. P c \<Longrightarrow> Q c) \<Longrightarrow> calls_ok Q m"
  unfolding calls_ok_def list_all_iff by meson

lemma calls_ok_start:
  "co_agent opts = slug \<Longrightarrow> calls_ok (own_call env slug) (create_and_start e (fe_docker env) opts)"
  by (rule calls_ok_mono[OF calls_ok_create_and_start])
    (auto simp: create_call_ok_def own_call_def Let_def split: docker_call.splits)

lemma calls_ok_managed: "calls_ok (own_call env slug) (managed_container e slug)"
  unfolding managed_container_def assert_agentbox_name_def assert_managed_label_def
  by (intro inv_intros calls_ok_inspect) (simp add: own_call_def container_name_def container_prefix_def)

lemma calls_ok_stop: "calls_ok (own_call env slug) (stop_and_remove e slug)"
  unfolding stop_and_remove_def Let_def assert_agentbox_name_def assert_managed_label_def
  by (intro inv_intros calls_ok_inspect calls_ok_do) (simp_all add: own_call_def container_name_def container_prefix_def)

lemma calls_ok_view: "calls_ok (own_call env slug) (inspect_container date e slug)"
  unfolding inspect_container_def Let_def assert_agentbox_name_def assert_managed_label_def
  by (intro inv_intros calls_ok_inspect) (simp_all add: own_call_def container_name_def container_prefix_def)

lemma calls_ok_await: "calls_ok (own_call env slug) (await_exec e armed)"
  by (rule calls_okI)
    (auto simp: await_exec_def ereturn_def eraise_def own_call_def split: option.splits prod.splits exec_end.splits)

lemma calls_ok_stdin: "calls_ok (own_call env slug) (\<lambda>h. (Inr (), h @ [WriteStdin input]))"
  by (rule calls_okI) (simp add: own_call_def)

lemma calls_ok_exec:
  "calls_ok (own_call env slug) (exec_in_container_with_exit e slug cmd t)"
  "calls_ok (own_call env slug) (exec_with_stdin e slug cmd input t)"
  unfolding exec_in_container_with_exit_def exec_with_stdin_def
  by (intro inv_intros calls_ok_managed calls_ok_await calls_ok_stdin calls_ok_do;
      simp add: own_call_def container_name_def container_prefix_def)+

lemma calls_ok_volumes: "calls_ok (own_call env slug) (remove_volumes e slug ss)"
proof (induction ss)
  case (Cons s ss)
  have "calls_ok (own_call env slug) (ebind (assert_agentbox_volume (volume_name slug s) slug) (\<lambda>_.
     ebind (ecatch (do_call e (RemoveVol (volume_name slug s))) (unless_404 ())) (\<lambda>_. remove_volumes e slug ss)))"
  proof (cases "s \<in> set volume_suffixes")
    case True
    then have "own_call env slug (RemoveVol (volume_name slug s))"
      by (auto simp: own_call_def volume_name_def volume_suffixes_def container_prefix_def)
    then show ?thesis unfolding own_volume[OF True] by (intro inv_intros calls_ok_do Cons.IH)
  next
    case False
    then have "assert_agentbox_volume (volume_name slug s) slug = eraise (Refused (volume_name slug s))"
      using startsWith_append[of "container_prefix @ slug @ ''-''" s]
      by (simp add: assert_agentbox_volume_def volume_name_def Let_def slice_from_def)
    then show ?thesis by (auto intro!: calls_okI simp: eng_defs)
  qed
  then show ?case by simp
qed auto

section \<open>What a step leaves alone\<close>

text \<open>
  \<open>core P S A H K\<close>: the agents are \<open>A\<close>, the revoked tokens, skills and assignments \<open>K\<close>, and
  the engine has been asked \<open>H\<close> and then calls that all satisfy \<open>P\<close>, those of \<open>S\<close> among them.
\<close>

type_synonym rest = "(string \<times> int) list \<times> (string \<times> int) list \<times> assignment list \<times> skill_row list"

definition rest_of :: "fleet_db \<Rightarrow> rest" where
  "rest_of d = (fl_akm_revoked d, fl_mr_revoked d, fl_assigned d, fl_skills d)"

definition core ::
  "(docker_call \<Rightarrow> bool) \<Rightarrow> docker_call set \<Rightarrow> fleet_agent list \<Rightarrow> docker_call list \<Rightarrow> rest \<Rightarrow> fleet_db \<Rightarrow> bool" where
  "core P S A H K d =
     (fl_agents d = A \<and> rest_of d = K
      \<and> (\<exists>cs. fl_calls d = H @ cs \<and> list_all P cs \<and> S \<subseteq> set cs))"

lemma core_frame [simp]:
  "core P S A H K (d\<lparr>fl_installs := a\<rparr>) = core P S A H K d"
  "core P S A H K (d\<lparr>fl_fetched := b\<rparr>) = core P S A H K d"
  "core P S A H K (d\<lparr>fl_history := c\<rparr>) = core P S A H K d"
  "core P S A H K (d\<lparr>fl_sessions := f\<rparr>) = core P S A H K d"
  "core P S A H K (d\<lparr>fl_chat := g\<rparr>) = core P S A H K d"
  "core P S A H K (d\<lparr>fl_files := h\<rparr>) = core P S A H K d"
  "core P S A H K (d\<lparr>fl_audit := i\<rparr>) = core P S A H K d"
  "core P S A H K (d\<lparr>fl_events := j\<rparr>) = core P S A H K d"
  "core P S A H K (d\<lparr>fl_notified := k\<rparr>) = core P S A H K d"
  "core P S A H K (d\<lparr>fl_explicit := l\<rparr>) = core P S A H K d"
  "core P S A H K (d\<lparr>fl_count := m\<rparr>) = core P S A H K d"
  by (simp_all add: core_def rest_of_def)

lemma keeps_core_engine:
  assumes "calls_ok P m" shows "keeps (core P S A H K) (on_engine env m)"
proof (rule keepsI)
  fix w :: "fleet_db world" assume c: "core P S A H K (db w)"
  obtain cs where "snd (m (fl_calls (db w))) = fl_calls (db w) @ cs" "list_all P cs"
    using assms by (auto simp: calls_ok_def)
  then show "core P S A H K (db (snd (on_engine env m w)))"
    using c by (auto simp: on_engine_def core_def rest_of_def split: prod.splits)
qed

text \<open>What the installer asks of a predicate that is to survive it.\<close>

locale install_frame =
  fixes env :: fleet_env and slug :: string and I :: "fleet_db \<Rightarrow> bool"
  assumes keeps_run: "keeps I (run_command env slug cmd t)"
    and keeps_stdin: "keeps I (run_with_stdin env slug cmd input t)"
    and keeps_fetched: "I d \<Longrightarrow> I (d\<lparr>fl_fetched := us\<rparr>)"
    and keeps_installs: "I d \<Longrightarrow> I (d\<lparr>fl_installs := rows\<rparr>)"
begin

lemma keeps_validate: "keeps I (validate_download_url env u)"
proof (cases "download_url_ok env u")
  case True
  then show ?thesis by (subst validate_eq) (simp add: keeps_ret)
next
  case False
  then obtain e where "validate_download_url env u = throw e" using validate_bad by blast
  then show ?thesis by (simp add: keeps_throw)
qed

lemma keeps_loop: "keeps I (download_loop env orig n u)"
proof (induction n arbitrary: u)
  case (Suc n)
  have "keeps I (fetch env u)" unfolding fetch_def by (intro inv_intros keeps_local keeps_fetched)
  then show ?case unfolding download_loop.simps
    by (rule keeps_bind) (auto split: fetch_result.split option.split intro: keeps_seq keeps_validate Suc.IH)
qed auto

lemma keeps_tool: "keeps I (install_tool env slug t)"
  unfolding install_tool_def install_builtin_def install_apt_def install_binary_def download_tarball_def
  by (intro keeps_if keeps_bind keeps_seq keeps_run keeps_stdin keeps_validate keeps_loop keeps_throw keeps_ret
      keeps_option keeps_sum)

lemma keeps_status: "keeps I (upsert_install_status env u i st m b)"
  unfolding upsert_install_status_def by (intro keeps_write keeps_installs)

lemma keeps_attempts: "keeps I (try_install env again u slug t n k)"
proof (induction n arbitrary: k)
  case 0
  show ?case unfolding try_install.simps[of _ _ _ _ _ 0]
    by (intro keeps_bind keeps_try keeps_seq keeps_tool keeps_status keeps_sum) (simp_all add: keeps_ret)
next
  case (Suc n)
  show ?case unfolding try_install.simps[of _ _ _ _ _ "Suc n"] nat.case
    by (intro keeps_bind keeps_try keeps_seq keeps_tool keeps_status keeps_sum keeps_ret Suc.IH)
qed

lemma keeps_tools: "keeps I (ensure_tools env u slug ts)"
  by (induction ts) (auto intro!: keeps_seq keeps_bind keeps_status keeps_attempts keeps_option keeps_throw)

lemma keeps_ensure: "keeps I (ensure_required_tools_installed env u slug)"
  unfolding ensure_required_tools_installed_def by (intro keeps_bind keeps_read keeps_tools)

lemma keeps_reconciled: "keeps I (reconcile_tools env u slug X ts rep)"
  by (induction ts arbitrary: rep)
    (auto intro!: keeps_if keeps_seq keeps_bind keeps_status keeps_attempts keeps_option)

lemma keeps_reconcile: "keeps I (reconcile_tool_installs env u slug)"
  unfolding reconcile_tool_installs_def delete_install_def
  by (intro inv_intros keeps_reconciled keeps_write keeps_installs)

end

interpretation core: install_frame env slug "core (own_call env slug) S A H K" for env slug S A H K
  by unfold_locales
    (auto simp: run_command_def run_with_stdin_def settled_def
      intro!: keeps_bind keeps_core_engine calls_ok_exec keeps_option)

section \<open>Before the row is written\<close>

abbreviation own_core ::
  "fleet_env \<Rightarrow> string \<Rightarrow> docker_call set \<Rightarrow> fleet_agent list \<Rightarrow> docker_call list \<Rightarrow> rest \<Rightarrow> fleet_db \<Rightarrow> bool" where
  "own_core env slug \<equiv> core (own_call env slug)"

lemma keeps_trace [inv_intros]:
  "keeps (core P S A H K) (fleet_audit act slug what)"
  "keeps (core P S A H K) (dispatch_event i ev)"
  "keeps (core P S A H K) (notify_user who what)"
  "keeps (core P S A H K) (mark_verified slug)"
  "keeps (core P S A H K) (insert_history env i old new)"
  "keeps (core P S A H K) (open_session env u started)"
  "keeps (core P S A H K) (close_open_sessions env u)"
  unfolding fleet_audit_def dispatch_event_def notify_user_def mark_verified_def insert_history_def open_session_def
    close_open_sessions_def
  by (intro keeps_local keeps_write keeps_query; auto split: option.splits if_splits)+

lemma keeps_issue_for [inv_intros]: "keeps (core P S A H K) (issue_for due gen vars slug warning)"
  unfolding issue_for_def by (intro inv_intros keeps_local) simp

lemma keeps_issue [inv_intros]:
  "keeps (core P S A H K) (issue_akm env corr a)" "keeps (core P S A H K) (issue_router env corr a)"
  unfolding issue_akm_def issue_router_def by (intro inv_intros)+

lemma keeps_files [inv_intros]:
  "keeps (core P S A H K) (write_agent_files env a instr)" "keeps (core P S A H K) (remove_agent_files env slug)"
  unfolding write_agent_files_def remove_agent_files_def by (intro inv_intros keeps_local; simp)+

lemma keeps_draw [inv_intros]: "keeps (core P S A H K) (draw_work_token env)"
  unfolding draw_work_token_def by (intro inv_intros keeps_local) simp

lemma keeps_profile [inv_intros]: "keeps (core P S A H K) (select_profile a)"
  unfolding select_profile_def by (intro inv_intros)

lemma keeps_started_at: "keeps (own_core env slug S A H K) (container_started_at env slug)"
  unfolding container_started_at_def by (intro inv_intros keeps_core_engine calls_ok_view)

lemma keeps_install: "keeps (own_core env (fa_slug a) S A H K) (install_or_clean_up env a cid)"
  unfolding install_or_clean_up_def Let_def
  by (intro inv_intros core.keeps_ensure keeps_core_engine calls_ok_stop)

section \<open>The container of a start\<close>

text \<open>\<open>asks Q m\<close>: when \<open>m\<close> returns, it has made a call that satisfies \<open>Q\<close>.\<close>

definition asks :: "(docker_call \<Rightarrow> bool) \<Rightarrow> 'a eng \<Rightarrow> bool" where
  "asks Q m = (\<forall>h r h'. m h = (Inr r, h') \<longrightarrow> (\<exists>cs. h' = h @ cs \<and> (\<exists>c \<in> set cs. Q c)))"

lemma asks_do: "Q c \<Longrightarrow> asks Q (do_call e c)"
  by (auto simp: asks_def do_call_def)

lemma extends: "calls_ok P m \<Longrightarrow> m h = (r, h') \<Longrightarrow> \<exists>cs. h' = h @ cs"
  unfolding calls_ok_def by (metis snd_conv)

lemma asks_later: "calls_ok P m \<Longrightarrow> (\<And>x. asks Q (f x)) \<Longrightarrow> asks Q (ebind m f)"
  unfolding asks_def ebind_def
  by (auto split: prod.splits sum.splits dest!: extends) (metis append.assoc set_append UnI2)

lemma asks_first: "asks Q m \<Longrightarrow> (\<And>x. calls_ok P (f x)) \<Longrightarrow> asks Q (ebind m f)"
  unfolding asks_def ebind_def
  by (auto split: prod.splits sum.splits dest!: extends) (metis append.assoc set_append UnI1 extends)

lemma asks_if: "(b \<Longrightarrow> asks Q m) \<Longrightarrow> (\<not> b \<Longrightarrow> asks Q n) \<Longrightarrow> asks Q (if b then m else n)"
  by simp

lemma asks_raise: "asks Q (eraise e)"
  by (simp add: asks_def eraise_def)

definition spec_for :: "docker_env \<Rightarrow> create_opts \<Rightarrow> docker_call \<Rightarrow> bool" where
  "spec_for env opts c = (\<exists>spec. c = CreateC spec \<and> cs_network spec = chosen_network env opts
     \<and> cs_env spec = base_env (co_agent opts) @ co_env opts @ co_extra_env opts)"

lemma create_spec: "asks (spec_for env opts) (create_and_start e env opts)"
proof -
  let ?P = "\<lambda>_. True"
  have spec: "asks (spec_for env opts) (do_call e (CreateC (container_spec env opts a b c d)))" for a b c d
    by (rule asks_do) (simp add: spec_for_def container_spec_def)
  have ok: "calls_ok ?P (remove_collision e n)" "calls_ok ?P (image_revision e img)"
      "calls_ok ?P (attach_edge e env opts)" "calls_ok ?P (do_call e c)" "calls_ok ?P (inspect_c e n)" for n img c
    by (auto intro: calls_ok_do calls_ok_inspect calls_ok_image intro!: inv_intros
        simp: remove_collision_def image_revision_def attach_edge_def)
  show ?thesis unfolding create_and_start_def Let_def assert_agentbox_name_def
    by (intro asks_later[where P = ?P] asks_if asks_raise asks_first[where P = ?P and m = "do_call e (CreateC z)" for z] spec inv_intros ok)
qed

end
