(* ===== verification/LifecycleEnds.thy ===== *)
theory LifecycleEnds
  imports LifecycleFrame SkillProps
begin

text \<open>
  How a start, a stop and a deletion of an agent end, whatever fails on the way: as relations
  of the database before, the answer and the database after (\<open>start_outcome\<close>, \<open>stop_end\<close>,
  \<open>delete_end\<close>). The two revocation services share an interface.
\<close>

section \<open>One row changes\<close>

definition rows :: "string \<Rightarrow> (fleet_agent \<Rightarrow> fleet_agent \<Rightarrow> bool) \<Rightarrow> fleet_agent list \<Rightarrow> fleet_agent list \<Rightarrow> bool" where
  "rows u R A B = list_all2 (\<lambda>a b. if fa_id a = u then R a b \<and> fa_id b = u else b = a) A B"

lemma rows_refl: "rows u (=) A A"
  by (simp add: rows_def list_all2_same)

lemma rows_change:
  assumes "rows u R A (fl_agents d)" "\<And>a b. R a b \<Longrightarrow> fa_id b = u \<Longrightarrow> R' a (f b) \<and> fa_id (f b) = u"
  shows "rows u R' A (fl_agents (change_agent u f d))"
  using assms(1) unfolding rows_def change_agent_def
  by (auto simp: list_all2_map2 elim!: list_all2_mono dest: assms(2) split: if_splits)

lemma rows_mono: "rows u R A B \<Longrightarrow> (\<And>a b. R a b \<Longrightarrow> R' a b) \<Longrightarrow> rows u R' A B"
  unfolding rows_def by (auto elim!: list_all2_mono split: if_splits)

lemma rows_find:
  "rows u R A B \<Longrightarrow>
   (case find (\<lambda>a. fa_id a = v) A of
      None \<Rightarrow> find (\<lambda>a. fa_id a = v) B = None
    | Some a \<Rightarrow> \<exists>b. find (\<lambda>a. fa_id a = v) B = Some b \<and> (if v = u then R a b \<and> fa_id b = u else b = a))"
  unfolding rows_def by (induction rule: list_all2_induct) (auto split: if_splits option.splits)

text \<open>The agent's row has changed by \<open>R\<close>, nothing else of the core has.\<close>

definition phase ::
  "(docker_call \<Rightarrow> bool) \<Rightarrow> docker_call set \<Rightarrow> fleet_agent list \<Rightarrow> docker_call list \<Rightarrow> rest \<Rightarrow> string \<Rightarrow>
   (fleet_agent \<Rightarrow> fleet_agent \<Rightarrow> bool) \<Rightarrow> fleet_db \<Rightarrow> bool" where
  "phase P S A H K u R d = (rows u R A (fl_agents d) \<and> core P S (fl_agents d) H K d)"

lemma keeps_phase: "(\<And>B. keeps (core P S B H K) m) \<Longrightarrow> keeps (phase P S A H K u R) m"
proof (rule keepsI)
  fix w :: "fleet_db world" assume k: "\<And>B. keeps (core P S B H K) m" and p: "phase P S A H K u R (db w)"
  have "core P S (fl_agents (db w)) H K (db (snd (m w)))" using keepsD[OF k] p by (simp add: phase_def)
  then show "phase P S A H K u R (db (snd (m w)))" using p by (auto simp: phase_def core_def)
qed

lemma core_change: "core P S A H K d \<Longrightarrow> core P S (fl_agents (change_agent u f d)) H K (change_agent u f d)"
  by (auto simp: core_def rest_of_def change_agent_def)

lemma holds_update_phase:
  assumes "fe_uuid env i = Some u" "\<And>a b. R a b \<Longrightarrow> fa_id b = u \<Longrightarrow> R' a (f b) \<and> fa_id (f b) = u"
  shows "holds (phase P S A H K u R) (update_fleet env i f) (\<lambda>_. phase P S A H K u R') (phase P S A H K u R)"
  unfolding update_fleet_def
  by (rule holds_fleet_query) (use assms in \<open>auto simp: phase_def intro: core_change intro!: rows_change[of u R A _ R' f]\<close>)

lemma holds_best_effort: "keeps I m \<Longrightarrow> holds I (best_effort m) (\<lambda>_. I) E"
  unfolding best_effort_def keeps_def by (rule holds_catch[where R = I]) (auto intro: holds_ret)

text \<open>Steps that cannot throw.\<close>

definition sure :: "(fleet_db \<Rightarrow> bool) \<Rightarrow> (fleet_db, unit) eff \<Rightarrow> bool" where
  "sure I m = holds I m (\<lambda>_. I) (\<lambda>_. False)"

lemma sure_best: "keeps I m \<Longrightarrow> sure I (best_effort m)"
  unfolding sure_def by (rule holds_best_effort)

lemma sure_local:
  "keeps I (local_step f) \<Longrightarrow> sure I (local_step f)"
  unfolding sure_def keeps_def holds_def local_step_def by auto

lemma sure_ret: "sure I (ret ())"
  unfolding sure_def by (rule holds_ret)

lemma sure_trace:
  "keeps I (fleet_audit a b c) \<Longrightarrow> sure I (fleet_audit a b c)"
  "keeps I (dispatch_event i ev) \<Longrightarrow> sure I (dispatch_event i ev)"
  "keeps I (notify_user j what) \<Longrightarrow> sure I (notify_user j what)"
  "keeps I (mark_verified slug) \<Longrightarrow> sure I (mark_verified slug)"
  unfolding fleet_audit_def dispatch_event_def notify_user_def mark_verified_def by (rule sure_local, assumption)+

lemma sure_seq: "sure I m \<Longrightarrow> holds I n Q E \<Longrightarrow> holds I (eff_seq m n) Q E"
  unfolding sure_def by (rule holds_seq[where R = "\<lambda>_. I"]) (auto intro: holds_conseq)

section \<open>The row of a start\<close>

text \<open>Only the names of the tokens differ.\<close>

definition without_tokens :: "fleet_agent \<Rightarrow> fleet_agent" where
  "without_tokens a = a\<lparr>fa_akm_jti := None, fa_akm_exp := None, fa_mr_jti := None, fa_mr_exp := None, fa_mr_hash := None\<rparr>"

definition tokens_only :: "fleet_agent \<Rightarrow> fleet_agent \<Rightarrow> bool" where
  "tokens_only a b = (without_tokens b = without_tokens a)"

definition started_row :: "string \<Rightarrow> string \<Rightarrow> fleet_agent \<Rightarrow> fleet_agent \<Rightarrow> bool" where
  "started_row cid work a b = (\<exists>t. tokens_only a t \<and> b = running_row cid work t)"

definition failed_row :: "fleet_agent \<Rightarrow> fleet_agent \<Rightarrow> bool" where
  "failed_row a b = (\<exists>t. tokens_only a t \<and> (b = t \<or> (\<exists>why. b = t\<lparr>fa_status := ''error'', fa_error := Some why\<rparr>)))"

lemma tokens_only_refl [simp]: "tokens_only a a"
  by (simp add: tokens_only_def)

lemma tokens_only_fields:
  assumes "tokens_only a b"
  shows "fa_id b = fa_id a" "fa_slug b = fa_slug a" "fa_status b = fa_status a" "fa_owner b = fa_owner a"
    "fa_container b = fa_container a" "fa_container_state b = fa_container_state a" "fa_work b = fa_work a"
    "fa_error b = fa_error a"
  using assms by (cases a; cases b; simp add: tokens_only_def without_tokens_def)+

lemma tokens_only_edit [simp]:
  "tokens_only a (b\<lparr>fa_akm_jti := j, fa_akm_exp := e\<rparr>) = tokens_only a b"
  "tokens_only a (b\<lparr>fa_mr_jti := k, fa_mr_exp := f, fa_mr_hash := h\<rparr>) = tokens_only a b"
  by (simp_all add: tokens_only_def without_tokens_def)

lemma keeps_store:
  assumes "fe_uuid env i = Some u"
  shows "keeps (phase P S A H K u tokens_only) (update_fleet env i (\<lambda>a. a\<lparr>fa_akm_jti := j, fa_akm_exp := e\<rparr>))"
    and "keeps (phase P S A H K u tokens_only) (update_fleet env i (\<lambda>a. a\<lparr>fa_mr_jti := j, fa_mr_exp := e, fa_mr_hash := h\<rparr>))"
  unfolding keeps_def
  by (rule holds_update_phase[OF assms], simp)+

lemma sure_store:
  assumes "fe_uuid env i = Some u"
  shows "sure (phase P S A H K u tokens_only) (store_akm env i t)"
    and "sure (phase P S A H K u tokens_only) (store_router env i t)"
  unfolding store_akm_def store_router_def
  using sure_ret by (auto intro!: sure_best keeps_store[OF assms])

lemma holds_record_start:
  assumes u: "fe_uuid env i = Some u"
  shows "holds (phase P S A H K u tokens_only) (record_start env user i a akm mr work cid started ws)
    (\<lambda>r d. r = FStarted cid ws \<and> phase P S A H K u (started_row cid work) d) (phase P S A H K u tokens_only)"
  unfolding record_start_def
  apply (intro sure_seq[OF sure_store(1)[OF u]] sure_seq[OF sure_store(2)[OF u]])
  apply (rule holds_seq[OF holds_update_phase[OF u, where R' = "started_row cid work"]])
   apply (auto simp: started_row_def running_row_def)[1]
  apply (intro sure_seq sure_trace sure_best keeps_phase inv_intros holds_ret)
  apply simp
  done

section \<open>From the container on\<close>

definition made :: "fleet_env \<Rightarrow> fleet_agent \<Rightarrow> string \<Rightarrow> fleet_db \<Rightarrow> docker_call \<Rightarrow> bool" where
  "made env a work d c = (\<exists>spec. c = CreateC spec \<and> work_var work \<in> set (cs_env spec)
     \<and> cs_network spec = resolve_agent_network (network_prefix (fe_docker env)) (agent_effective_scope (scopes_of (fa_id a) d)))"

lemma scopes_rest: "rest_of d = rest_of d0 \<Longrightarrow> scopes_of v d = scopes_of v d0"
  by (simp add: rest_of_def scopes_of_def skills_of_def)

lemma resolve_nonempty [simp]: "resolve_agent_network p s \<noteq> []"
  by (simp add: resolve_agent_network_def agent_network_def sandbox_network_def)

lemma work_var_passed: "work_var work \<in> set (co_env (start_options env a akm mr work net prof))"
  by (simp add: start_options_def)

lemma made_spec:
  assumes "spec_for (fe_docker env) (start_options env a akm mr work
      (resolve_agent_network (network_prefix (fe_docker env)) (agent_effective_scope scopes)) prof) c"
    and "scopes = scopes_of (fa_id a) d"
  shows "made env a work d c"
proof -
  let ?net = "resolve_agent_network (network_prefix (fe_docker env)) (agent_effective_scope scopes)"
  obtain spec where c: "c = CreateC spec"
    and net: "cs_network spec = chosen_network (fe_docker env) (start_options env a akm mr work ?net prof)"
    and vars: "cs_env spec = base_env (co_agent (start_options env a akm mr work ?net prof)) @
       co_env (start_options env a akm mr work ?net prof) @ co_extra_env (start_options env a akm mr work ?net prof)"
    using assms(1) unfolding spec_for_def by blast
  have "cs_network spec = ?net"
    unfolding net by (simp add: start_options_def chosen_network_def)
  moreover have "work_var work \<in> set (cs_env spec)"
    by (simp only: vars set_append Un_iff work_var_passed simp_thms)
  ultimately show ?thesis using c assms(2) unfolding made_def by blast
qed

lemma holds_ex: "(\<And>c. C c \<Longrightarrow> holds (I c) m Q E) \<Longrightarrow> holds (\<lambda>d. \<exists>c. C c \<and> I c d) m Q E"
  by (rule holdsI) (metis holds_Inr holds_Inl)+

lemma holds_keeps: "keeps I m \<Longrightarrow> (\<And>d. I d \<Longrightarrow> J d) \<Longrightarrow> holds I m (\<lambda>_. I) J"
  unfolding keeps_def by (rule holds_conseq)

lemma phase_weaken: "phase P (insert c S) A H K u R d \<Longrightarrow> phase P S A H K u R d"
  by (auto simp: phase_def core_def)

lemma phase_tokens: "phase P S A H K u (=) d \<Longrightarrow> phase P S A H K u tokens_only d"
  by (auto simp: phase_def intro: rows_mono)

lemma map_sum_Inr: "map_sum f id s = Inr x \<longleftrightarrow> s = Inr x"
  by (cases s) auto

lemma phase_scopes: "phase P S A H (rest_of d0) u R d \<Longrightarrow> scopes_of v d = scopes_of v d0"
  by (rule scopes_rest) (simp add: phase_def core_def)

lemma holds_asks:
  assumes "calls_ok P m" "asks Q m"
  shows "holds (phase P S A H K u R) (on_engine env m)
    (\<lambda>_ d. \<exists>c. Q c \<and> phase P (insert c S) A H K u R d) (phase P S A H K u R)"
proof (rule holdsI)
  fix w x w' assume p: "phase P S A H K u R (db w)" and e: "on_engine env m w = (Inr x, w')"
  obtain r h where m: "m (fl_calls (db w)) = (Inr r, h)" and w': "db w' = (db w)\<lparr>fl_calls := h\<rparr>"
    using e by (auto simp: on_engine_def map_sum_Inr split: prod.splits)
  obtain cs where cs: "h = fl_calls (db w) @ cs" "list_all P cs"
    using assms(1) m by (auto simp: calls_ok_def dest!: spec[of _ "fl_calls (db w)"])
  obtain c where "c \<in> set cs" "Q c" using assms(2) m cs(1) by (fastforce simp: asks_def)
  then show "\<exists>c. Q c \<and> phase P (insert c S) A H K u R (db w')"
    using p cs w' by (intro exI[of _ c]) (auto simp: phase_def core_def rest_of_def)
next
  fix w e w' assume "phase P S A H K u R (db w)" "on_engine env m w = (Inl e, w')"
  then show "phase P S A H K u R (db w')"
    using keepsD[OF keeps_phase[OF keeps_core_engine[OF assms(1)]], of S A H K u R w env] by simp
qed

lemma calls_ok_options:
  "calls_ok (own_call env (fa_slug a)) (create_and_start e (fe_docker env) (start_options env a akm mr work net p))"
  by (rule calls_ok_start) (simp add: start_options_def)

lemma holds_launch:
  assumes u: "fe_uuid env i = Some u" and K: "K = rest_of d0"
  shows "holds (phase (own_call env (fa_slug a)) S A H K u (=)) (launch env user i a akm mr work)
    (\<lambda>r d. \<exists>cid ws c. r = FStarted cid ws \<and> made env a work d0 c
       \<and> phase (own_call env (fa_slug a)) (insert c S) A H K u (started_row cid work) d)
    (phase (own_call env (fa_slug a)) S A H K u tokens_only)"
proof -
  let ?P = "own_call env (fa_slug a)"
  have scopes: "holds (phase ?P S A H K u (=)) (db_read (scopes_of (fa_id a)))
      (\<lambda>r d. phase ?P S A H K u (=) d \<and> r = scopes_of (fa_id a) d0) (phase ?P S A H K u tokens_only)"
    by (rule holds_read) (auto simp: phase_tokens K phase_scopes)
  have prof: "holds (phase ?P S A H K u (=)) (select_profile a) (\<lambda>_. phase ?P S A H K u (=)) (phase ?P S A H K u tokens_only)"
    by (rule holds_keeps[OF keeps_phase]) (auto intro: keeps_profile phase_tokens)
  have make: "holds (phase ?P S A H K u (=))
      (on_engine env (create_and_start (fe_engine env) (fe_docker env) (start_options env a akm mr work net p)))
      (\<lambda>_ d. \<exists>c. spec_for (fe_docker env) (start_options env a akm mr work net p) c \<and> phase ?P (insert c S) A H K u (=) d)
      (phase ?P S A H K u tokens_only)" for net p
    by (rule holds_conseq[OF holds_asks[OF calls_ok_options create_spec]], assumption, assumption, erule phase_tokens)
  have seen: "holds (phase ?P (insert c S) A H K u (=)) (container_started_at env (fa_slug a))
      (\<lambda>_. phase ?P (insert c S) A H K u (=)) (phase ?P S A H K u tokens_only)" for c
    by (rule holds_keeps[OF keeps_phase]) (auto intro: keeps_started_at phase_weaken phase_tokens)
  have inst: "holds (phase ?P (insert c S) A H K u (=)) (install_or_clean_up env a cid)
      (\<lambda>_. phase ?P (insert c S) A H K u tokens_only) (phase ?P S A H K u tokens_only)" for c cid
    by (rule holds_conseq[OF holds_keeps[OF keeps_phase[OF keeps_install], where J = "phase ?P S A H K u tokens_only"]])
      (auto intro: phase_weaken phase_tokens)
  have wrote: "holds (phase ?P (insert c S) A H K u tokens_only) (record_start env user i a akm mr work cid t ws)
      (\<lambda>r d. \<exists>cid ws c. r = FStarted cid ws \<and> made env a work d0 c
         \<and> phase ?P (insert c S) A H K u (started_row cid work) d) (phase ?P S A H K u tokens_only)"
    if "made env a work d0 c" for c cid t ws
    by (rule holds_conseq[OF holds_record_start[OF u]], assumption, use that in blast, erule phase_weaken)
  show ?thesis unfolding launch_def Let_def
    by (rule holds_bind[OF scopes], rule holds_pre_pure[where P = "phase ?P S A H K u (=)"], rule holds_bind[OF prof],
        rule holds_bind[OF make], clarify, rule holds_ex, rule holds_bind[OF seen], rule holds_seq[OF inst],
        rule wrote, rule made_spec, assumption, rule refl)
qed

section \<open>A start\<close>

text \<open>How a start ends, as a relation of the two databases and the answer.\<close>

definition start_end :: "fleet_env \<Rightarrow> js \<Rightarrow> string \<Rightarrow> fleet_agent \<Rightarrow> fleet_db \<Rightarrow> fleet_resp \<Rightarrow> fleet_db \<Rightarrow> bool" where
  "start_end env user u a d0 r d =
     (let P = own_call env (fa_slug a) in
      (\<exists>cid ws work c. r = FStarted cid ws \<and> made env a work d0 c
         \<and> phase P {c} (fl_agents d0) (fl_calls d0) (rest_of d0) u (started_row cid work) d)
      \<or> r = FStatus 403 \<and> ceiling_exceeded env user a (agent_elevated_scope (scopes_of (fa_id a) d0))
         \<and> phase P {} (fl_agents d0) (fl_calls d0) (rest_of d0) u (=) d)"

lemma phase_start: "phase P {} (fl_agents d) (fl_calls d) (rest_of d) u (=) d"
  by (auto simp: phase_def core_def rows_refl)

lemma holds_start_agent:
  assumes u: "fe_uuid env i = Some u"
  shows "holds (\<lambda>d. d = d0) (start_agent env user corr i a) (start_end env user u a d0)
    (phase (own_call env (fa_slug a)) {} (fl_agents d0) (fl_calls d0) (rest_of d0) u tokens_only)"
proof -
  let ?ph = "phase (own_call env (fa_slug a)) {} (fl_agents d0) (fl_calls d0) (rest_of d0) u"
  have keep: "holds (?ph (=)) m (\<lambda>_. ?ph (=)) (?ph tokens_only)"
    if "\<And>B. keeps (core (own_call env (fa_slug a)) {} B (fl_calls d0) (rest_of d0)) m" for m :: "(fleet_db, 'x) eff"
    by (rule holds_keeps[OF keeps_phase[OF that]]) (rule phase_tokens)
  have elev: "holds (?ph (=)) (db_read (\<lambda>d. agent_elevated_scope (scopes_of (fa_id a) d)))
      (\<lambda>r d. ?ph (=) d \<and> r = agent_elevated_scope (scopes_of (fa_id a) d0)) (?ph tokens_only)"
    by (rule holds_read) (auto simp: phase_tokens phase_scopes)
  have skills: "holds (?ph (=)) (db_read (skills_of (fa_id a))) (\<lambda>_. ?ph (=)) (?ph tokens_only)"
    by (rule keep) (rule keeps_read)
  have launch: "holds (?ph (=)) (launch env user i a akm mr work) (start_end env user u a d0) (?ph tokens_only)" for akm mr work
    by (rule holds_conseq[OF holds_launch[OF u refl]]) (auto simp: start_end_def Let_def)
  have deny: "holds (?ph (=)) (fleet_audit x y z) (\<lambda>_. ?ph (=)) (?ph tokens_only)" for x y z
    by (rule keep) (rule keeps_trace)
  have "holds (?ph (=)) (start_agent env user corr i a) (start_end env user u a d0) (?ph tokens_only)"
    unfolding start_agent_def
    apply (rule holds_bind[OF skills], rule holds_seq[OF keep[OF keeps_files(1)]], rule holds_bind[OF elev])
    apply (rule holds_pre_pure[where P = "?ph (=)"], rule holds_if)
     apply (rule holds_seq[OF deny], rule holds_ret, simp add: start_end_def)
    apply (rule holds_bind[OF keep[OF keeps_issue(1)]], rule holds_bind[OF keep[OF keeps_issue(2)]])
    apply (rule holds_bind[OF keep[OF keeps_draw]], rule launch)
    done
  then show ?thesis by (rule holds_conseq) (auto simp: phase_start)
qed

lemma failed_row_intro:
  "tokens_only a t \<Longrightarrow> failed_row a t"
  "tokens_only a t \<Longrightarrow> failed_row a (t\<lparr>fa_status := ''error'', fa_error := Some why\<rparr>)"
  unfolding failed_row_def by blast+

text \<open>A start that fails says so in the row, if it can.\<close>

lemma holds_start_failed:
  assumes "\<And>u. fe_uuid env i = Some u \<Longrightarrow> v = u"
  shows "holds (phase P S A H K v tokens_only) (start_failed env user i slug e)
    (\<lambda>r d. r = FStatus 500 \<and> phase P S A H K v failed_row d) E"
proof -
  let ?t = "phase P S A H K v tokens_only" and ?f = "phase P S A H K v failed_row"
  have tf: "?f d" if "?t d" for d
    using that by (auto simp: phase_def intro: failed_row_intro(1) elim!: rows_mono)
  have "holds ?t (set_error env i (exn_text env e)) (\<lambda>_. ?f) ?f"
  proof (cases "fe_uuid env i")
    case None
    then show ?thesis unfolding set_error_def update_fleet_def by (intro holds_fleet_query) (auto intro: tf)
  next
    case (Some u)
    then have u: "fe_uuid env i = Some v" using assms by simp
    show ?thesis unfolding set_error_def
      by (rule holds_conseq[OF holds_update_phase[OF u, where R' = failed_row and R = tokens_only]])
        (auto dest: tokens_only_fields intro: tf failed_row_intro(2))
  qed
  then have "holds ?t (eff_seq (set_error env i (exn_text env e)) (insert_history env i ''starting'' ''error'')) (\<lambda>_. ?f) ?f"
    by (rule holds_seq) (rule holds_keeps[OF keeps_phase[OF keeps_trace(5)]])
  then have "holds ?t (best_effort (eff_seq (set_error env i (exn_text env e)) (insert_history env i ''starting'' ''error'')))
      (\<lambda>_. ?f) E"
    unfolding best_effort_def by (rule holds_catch) (rule holds_ret)
  then show ?thesis unfolding start_failed_def
    by (rule holds_seq) (intro sure_seq sure_trace keeps_phase inv_intros holds_ret, simp)
qed

definition same_core :: "fleet_db \<Rightarrow> fleet_db \<Rightarrow> bool" where
  "same_core d0 d = (fl_agents d = fl_agents d0 \<and> fl_calls d = fl_calls d0 \<and> rest_of d = rest_of d0)"

definition start_outcome :: "fleet_env \<Rightarrow> js \<Rightarrow> string \<Rightarrow> fleet_db \<Rightarrow> fleet_resp \<Rightarrow> fleet_db \<Rightarrow> bool" where
  "start_outcome env user i d0 r d =
     (r \<in> {FStatus 503, FStatus 404, FStatus 500} \<and> same_core d0 d
      \<or> (\<exists>u a. fe_uuid env i = Some u \<and> find_fleet u d0 = Some a
          \<and> (start_end env user u a d0 r d
             \<or> r = FStatus 500 \<and> phase (own_call env (fa_slug a)) {} (fl_agents d0) (fl_calls d0) (rest_of d0) u failed_row d)))"

lemma select_agent_cases:
  assumes "select_agent env i w = (r, w')"
  shows "db w' = db w \<and> ((\<exists>e. r = Inl e) \<or> (\<exists>u. fe_uuid env i = Some u \<and> r = Inr (find_fleet u (db w))))"
  using fleet_query_cases[OF assms[unfolded select_agent_def]] by auto

lemma rows_absent: "rows u R A B \<Longrightarrow> find (\<lambda>a. fa_id a = u) A = None \<Longrightarrow> B = A"
  unfolding rows_def by (induction rule: list_all2_induct) (auto split: if_splits)

lemma no_calls: "list_all (\<lambda>_. False) cs \<longleftrightarrow> cs = []"
  by (cases cs) auto

lemma phase_idle: "phase (\<lambda>_. False) S A H K u R d \<Longrightarrow> phase P S A H K u R d"
  by (auto simp: phase_def core_def no_calls)

lemma phase_absent:
  "phase (\<lambda>_. False) {} (fl_agents d0) (fl_calls d0) (rest_of d0) u R d \<Longrightarrow> find_fleet u d0 = None \<Longrightarrow> same_core d0 d"
  by (auto simp: phase_def core_def same_core_def find_fleet_def no_calls dest: rows_absent)

lemma fresh_id: "\<exists>v. find_fleet v d = None"
proof -
  have "finite (fa_id ` set (fl_agents d))" by simp
  then obtain v where "v \<notin> fa_id ` set (fl_agents d)" using ex_new_if_finite infinite_UNIV_listI by blast
  then show ?thesis by (intro exI[of _ v]) (auto simp: find_fleet_def find_None_iff)
qed

lemma phase_same: "phase P {} (fl_agents d) (fl_calls d) (rest_of d) u tokens_only d"
  by (intro phase_tokens phase_start)

lemma holds_start_unread:
  "holds (\<lambda>d. d = d0) (start_failed env user i slug e) (start_outcome env user i d0) (\<lambda>_. False)"
proof -
  obtain v where v: "\<And>u. fe_uuid env i = Some u \<Longrightarrow> v = u" "fe_uuid env i = None \<Longrightarrow> find_fleet v d0 = None"
    using fresh_id[of d0] by (cases "fe_uuid env i") auto
  show ?thesis
  proof (rule holds_conseq[OF holds_start_failed[where P = "\<lambda>_. False" and S = "{}", OF v(1)]])
    fix d :: fleet_db assume "d = d0"
    then show "phase (\<lambda>_. False) {} (fl_agents d0) (fl_calls d0) (rest_of d0) v tokens_only d" by (simp add: phase_same)
  next
    fix x d assume x: "x = FStatus 500 \<and> phase (\<lambda>_. False) {} (fl_agents d0) (fl_calls d0) (rest_of d0) v failed_row d"
    show "start_outcome env user i d0 x d"
    proof (cases "find_fleet v d0")
      case None
      then show ?thesis using x phase_absent by (auto simp: start_outcome_def)
    next
      case (Some a)
      then have "fe_uuid env i = Some v" using v by (cases "fe_uuid env i") auto
      then show ?thesis using x Some by (auto simp: start_outcome_def dest: phase_idle)
    qed
  qed simp_all
qed

lemma holds_start_route:
  "holds (\<lambda>d. d = d0) (start_route env user corr i) (start_outcome env user i d0) (\<lambda>_. False)"
proof -
  have sel: "holds (\<lambda>d. d = d0) (eff_try (select_agent env i)) (\<lambda>r d. d = d0 \<and>
      ((\<exists>e. r = Inl e) \<or> (\<exists>u. fe_uuid env i = Some u \<and> r = Inr (find_fleet u d0)))) (\<lambda>_. False)"
    by (rule holdsI) (auto simp: eff_try_def eff_catch_def eff_bind_def ret_def dest!: select_agent_cases split: prod.splits sum.splits)
  have go: "holds (\<lambda>d. d = d0) (eff_catch (start_agent env user corr i a) (start_failed env user i (fa_slug a)))
      (start_outcome env user i d0) (\<lambda>_. False)" if u: "fe_uuid env i = Some u" "find_fleet u d0 = Some a" for u a
  proof (rule holds_catch)
    show "holds (\<lambda>d. d = d0) (start_agent env user corr i a) (start_outcome env user i d0)
        (phase (own_call env (fa_slug a)) {} (fl_agents d0) (fl_calls d0) (rest_of d0) u tokens_only)"
      by (rule holds_conseq[OF holds_start_agent[OF u(1)]]) (use u in \<open>auto simp: start_outcome_def\<close>)
    show "holds (phase (own_call env (fa_slug a)) {} (fl_agents d0) (fl_calls d0) (rest_of d0) u tokens_only)
        (start_failed env user i (fa_slug a) e) (start_outcome env user i d0) (\<lambda>_. False)" for e
      by (rule holds_conseq[OF holds_start_failed]) (use u in \<open>auto simp: start_outcome_def\<close>)
  qed
  show ?thesis unfolding start_route_def
    by (rule holds_if, rule holds_ret, simp add: start_outcome_def same_core_def,
        rule holds_bind[OF sel], rule holds_pre_pure[where P = "\<lambda>d. d = d0"], elim disjE exE conjE)
      (auto simp: holds_start_unread start_outcome_def same_core_def split: option.split intro!: go holds_ret)
qed

lemma start_cases:
  assumes "start_route env user corr i w = (r, w')"
  obtains resp where "r = Inr resp" "start_outcome env user i (db w) resp (db w')"
  using holds_Inr[OF holds_start_route[of "db w" env user corr i], of w] holds_Inl[OF holds_start_route[of "db w" env user corr i], of w] assms
  by (cases r) auto

section \<open>A stop\<close>

text \<open>
  What a revocation attempt may have done to the list of a service: nothing is taken off it,
  and unless it is reported as failed the token is on it, where there is a service to ask.
\<close>

definition attempted :: "bool \<Rightarrow> bool \<Rightarrow> string option \<Rightarrow> bool \<Rightarrow> (string \<times> int) list \<Rightarrow> (string \<times> int) list \<Rightarrow> bool" where
  "attempted due asked jti failed old new =
     (set old \<subseteq> set new \<and> (configured jti \<and> due \<and> asked \<and> \<not> failed \<longrightarrow> the jti \<in> fst ` set new))"

text \<open>The interface of a revocation service; the two services provide it.\<close>

locale revoker =
  fixes revoke :: "string \<Rightarrow> int option \<Rightarrow> (fleet_db, unit) eff" and asked :: bool
    and listed :: "fleet_db \<Rightarrow> (string \<times> int) list" and enlist :: "(string \<times> int) list \<Rightarrow> fleet_db \<Rightarrow> fleet_db"
  assumes revoke_result: "\<exists>u. set (listed (db w)) \<subseteq> set u \<and>
      (revoke j e w = (Inr (), w\<lparr>db := enlist u (db w)\<rparr>) \<and> (asked \<longrightarrow> j \<in> fst ` set u)
       \<or> (\<exists>z. revoke j e w = (Inl z, w\<lparr>db := enlist u (db w)\<rparr>)))"
    and enlist_same: "enlist (listed d) d = d"
    and enlist_audit: "fl_audit (enlist u d) = fl_audit d"
begin

lemma attempt:
  "\<exists>b u. revoke_failed due jti (\<lambda>j. revoke j e) w = (Inr b, w\<lparr>db := enlist u (db w)\<rparr>)
     \<and> attempted due asked jti b (listed (db w)) u"
proof (cases "configured jti \<and> due")
  case False
  then show ?thesis
    by (intro exI[of _ False] exI[of _ "listed (db w)"]) (auto simp: revoke_failed_def ret_def attempted_def enlist_same)
next
  case True
  obtain u where u: "set (listed (db w)) \<subseteq> set u"
    and r: "revoke (the jti) e w = (Inr (), w\<lparr>db := enlist u (db w)\<rparr>) \<and> (asked \<longrightarrow> the jti \<in> fst ` set u)
       \<or> (\<exists>z. revoke (the jti) e w = (Inl z, w\<lparr>db := enlist u (db w)\<rparr>))"
    using revoke_result by blast
  show ?thesis
  proof (cases "fst (revoke (the jti) e w)")
    case (Inl z)
    then have "revoke (the jti) e w = (Inl z, w\<lparr>db := enlist u (db w)\<rparr>)" using r by auto
    then show ?thesis using True u
      by (intro exI[of _ True] exI[of _ u]) (simp add: revoke_failed_def eff_catch_def eff_seq_def eff_bind_def ret_def attempted_def)
  next
    case (Inr z)
    then have "revoke (the jti) e w = (Inr (), w\<lparr>db := enlist u (db w)\<rparr>)" "asked \<longrightarrow> the jti \<in> fst ` set u" using r by auto
    then show ?thesis using True u
      by (intro exI[of _ False] exI[of _ u]) (simp add: revoke_failed_def eff_catch_def eff_seq_def eff_bind_def ret_def attempted_def)
  qed
qed

lemma audited:
  "\<exists>b u x. revoke_and_audit due jti slug (\<lambda>j. revoke j e) w
       = (Inr (), w\<lparr>db := (enlist u (db w))\<lparr>fl_audit := fl_audit (db w) @ x\<rparr>\<rparr>)
     \<and> attempted due asked jti b (listed (db w)) u \<and> (b \<longrightarrow> x = [(''token_revoke_failed'', slug, the jti)])"
proof (cases "configured jti \<and> due")
  case False
  then show ?thesis
    by (intro exI[of _ False] exI[of _ "listed (db w)"] exI[of _ "[]"])
      (auto simp: revoke_and_audit_def ret_def attempted_def enlist_same)
next
  case True
  obtain u where u: "set (listed (db w)) \<subseteq> set u"
    and r: "revoke (the jti) e w = (Inr (), w\<lparr>db := enlist u (db w)\<rparr>) \<and> (asked \<longrightarrow> the jti \<in> fst ` set u)
       \<or> (\<exists>z. revoke (the jti) e w = (Inl z, w\<lparr>db := enlist u (db w)\<rparr>))"
    using revoke_result by blast
  show ?thesis
  proof (cases "fst (revoke (the jti) e w)")
    case (Inl z)
    then have "revoke (the jti) e w = (Inl z, w\<lparr>db := enlist u (db w)\<rparr>)" using r by auto
    then show ?thesis using True u
      by (intro exI[of _ True] exI[of _ u] exI[of _ "[(''token_revoke_failed'', slug, the jti)]"])
        (simp add: revoke_and_audit_def eff_catch_def eff_seq_def eff_bind_def fleet_audit_def local_step_def attempted_def
          enlist_audit)
  next
    case (Inr z)
    then have "revoke (the jti) e w = (Inr (), w\<lparr>db := enlist u (db w)\<rparr>)" "asked \<longrightarrow> the jti \<in> fst ` set u" using r by auto
    then show ?thesis using True u
      by (intro exI[of _ False] exI[of _ u] exI[of _ "[(''token_revoked'', slug, the jti)]"])
        (simp add: revoke_and_audit_def eff_catch_def eff_seq_def eff_bind_def fleet_audit_def local_step_def attempted_def
          enlist_audit)
  qed
qed

end

interpretation akm: revoker "revoke_akm env" "configured (tv_service (fe_akm env))" fl_akm_revoked
  "\<lambda>u d. d\<lparr>fl_akm_revoked := u\<rparr>" for env
proof unfold_locales
  fix w :: "fleet_db world" and j e
  show "\<exists>u. set (fl_akm_revoked (db w)) \<subseteq> set u \<and>
      (revoke_akm env j e w = (Inr (), w\<lparr>db := (db w)\<lparr>fl_akm_revoked := u\<rparr>\<rparr>) \<and> (configured (tv_service (fe_akm env)) \<longrightarrow> j \<in> fst ` set u)
       \<or> (\<exists>z. revoke_akm env j e w = (Inl z, w\<lparr>db := (db w)\<lparr>fl_akm_revoked := u\<rparr>\<rparr>)))"
    unfolding revoke_akm_eq Let_def
    by (cases "configured (tv_service (fe_akm env)) \<and> tv_accepts (fe_akm env) j (case e of None \<Rightarrow> tv_now (fe_akm env) + 3600 | Some t \<Rightarrow> t)",
        intro exI[of _ "(j, case e of None \<Rightarrow> tv_now (fe_akm env) + 3600 | Some t \<Rightarrow> t) # fl_akm_revoked (db w)"], force,
        intro exI[of _ "fl_akm_revoked (db w)"]) auto
qed auto

interpretation router: revoker "revoke_mr env" "configured (tv_service (fe_mr env))" fl_mr_revoked
  "\<lambda>u d. d\<lparr>fl_mr_revoked := u\<rparr>" for env
proof unfold_locales
  fix w :: "fleet_db world" and j e
  show "\<exists>u. set (fl_mr_revoked (db w)) \<subseteq> set u \<and>
      (revoke_mr env j e w = (Inr (), w\<lparr>db := (db w)\<lparr>fl_mr_revoked := u\<rparr>\<rparr>) \<and> (configured (tv_service (fe_mr env)) \<longrightarrow> j \<in> fst ` set u)
       \<or> (\<exists>z. revoke_mr env j e w = (Inl z, w\<lparr>db := (db w)\<lparr>fl_mr_revoked := u\<rparr>\<rparr>)))"
    unfolding revoke_mr_eq Let_def
    by (cases "configured (tv_service (fe_mr env)) \<and> tv_accepts (fe_mr env) j (case e of None \<Rightarrow> tv_now (fe_mr env) + 3600 | Some t \<Rightarrow> t)",
        intro exI[of _ "(j, case e of None \<Rightarrow> tv_now (fe_mr env) + 3600 | Some t \<Rightarrow> t) # fl_mr_revoked (db w)"], force,
        intro exI[of _ "fl_mr_revoked (db w)"]) auto
qed auto

text \<open>The two revocations are over; this is what follows.\<close>

definition error_row :: "fleet_agent \<Rightarrow> fleet_agent \<Rightarrow> bool" where
  "error_row a b = (b = a \<or> (\<exists>why. b = a\<lparr>fa_status := ''error'', fa_error := Some why\<rparr>))"

definition stopped_to :: "bool \<Rightarrow> bool \<Rightarrow> fleet_agent \<Rightarrow> fleet_agent \<Rightarrow> bool" where
  "stopped_to af mf a b = (b = stopped_row af mf a)"

definition stop_rest :: "fleet_env \<Rightarrow> string \<Rightarrow> fleet_agent \<Rightarrow> bool \<Rightarrow> bool \<Rightarrow> (fleet_db, fleet_resp) eff" where
  "stop_rest env i a akm_failed mr_failed =
     eff_seq (remove_or_record env i (fa_slug a))
     (eff_seq (best_effort (eff_bind (on_chat (fail_pending_of (fa_id a))) (\<lambda>_. ret ())))
     (eff_seq (best_effort (close_open_sessions env (fa_id a)))
     (eff_seq (update_fleet env i (stopped_row akm_failed mr_failed))
     (eff_seq (best_effort (insert_history env (fa_id a) (fa_status a) ''stopped''))
     (eff_seq (audit_revocation (fa_slug a) akm_failed (fa_akm_jti a))
     (eff_seq (audit_revocation (fa_slug a) mr_failed (fa_mr_jti a))
     (eff_seq (fleet_audit ''stop'' (fa_slug a) [])
     (eff_seq (dispatch_event (fa_id a) ''stop'')
     (eff_seq (notify_user (Str (fa_owner a)) (announcement a ''stopped''))
     (ret FStopped))))))))))"

lemma sure_audit: "sure (phase P S A H K u R) (audit_revocation slug failed jti)"
  unfolding audit_revocation_def using sure_ret sure_trace(1)[OF keeps_phase[OF keeps_trace(1)]] by auto

lemma phase_error: "phase P S A H K u (=) d \<Longrightarrow> phase P S A H K u error_row d"
  by (auto simp: phase_def error_row_def intro: rows_mono)

lemma holds_remove:
  assumes u: "fe_uuid env i = Some u"
  shows "holds (phase (own_call env slug) S A H K u (=)) (remove_or_record env i slug)
    (\<lambda>_. phase (own_call env slug) S A H K u (=)) (phase (own_call env slug) S A H K u error_row)"
proof -
  let ?ph = "phase (own_call env slug) S A H K u"
  have rec: "holds (?ph (=)) (best_effort (set_error env i why)) (\<lambda>_. ?ph error_row) (?ph error_row)" for why
    unfolding best_effort_def set_error_def
    by (rule holds_catch[OF holds_update_phase[OF u, where R' = error_row]]) (auto simp: error_row_def intro: holds_ret phase_error)
  show ?thesis unfolding remove_or_record_def Let_def
    by (rule holds_catch[OF holds_keeps[OF keeps_phase[OF keeps_core_engine[OF calls_ok_stop]], where J = "?ph (=)"]], assumption)
      (rule holds_seq[OF rec], rule holds_throw)
qed

lemma holds_stop_rest:
  assumes u: "fe_uuid env i = Some u"
  shows "holds (phase (own_call env (fa_slug a)) {} A H K u (=)) (stop_rest env i a af mf)
    (\<lambda>r d. r = FStopped \<and> phase (own_call env (fa_slug a)) {} A H K u (stopped_to af mf) d)
    (phase (own_call env (fa_slug a)) {} A H K u error_row)"
proof -
  let ?ph = "phase (own_call env (fa_slug a)) {} A H K u"
  have chat: "keeps (?ph (=)) (eff_bind (on_chat (fail_pending_of (fa_id a))) (\<lambda>_. ret ()))"
    by (intro keeps_phase inv_intros keeps_on_chat) simp
  have upd: "holds (?ph (=)) (update_fleet env i (stopped_row af mf)) (\<lambda>_. ?ph (stopped_to af mf)) (?ph error_row)"
    by (rule holds_conseq[OF holds_update_phase[OF u, where R' = "stopped_to af mf" and R = "(=)"]])
      (auto simp: stopped_to_def stopped_row_def Let_def intro: phase_error)
  show ?thesis unfolding stop_rest_def
    by (rule holds_seq[OF holds_remove[OF u]], intro sure_seq[OF sure_best[OF chat]]
        sure_seq[OF sure_best[OF keeps_phase[OF keeps_trace(7)]]], rule holds_seq[OF upd],
        intro sure_seq sure_audit sure_trace sure_best keeps_phase inv_intros holds_ret, simp)
qed

text \<open>How a stop ends.\<close>

definition revoked_first :: "fleet_env \<Rightarrow> fleet_agent \<Rightarrow> bool \<Rightarrow> bool \<Rightarrow> fleet_db \<Rightarrow> fleet_db \<Rightarrow> bool" where
  "revoked_first env a af mf d0 d1 =
     (\<exists>R M. d1 = d0\<lparr>fl_akm_revoked := R, fl_mr_revoked := M\<rparr>
        \<and> attempted (configured (fe_akm_key env)) (configured (tv_service (fe_akm env))) (fa_akm_jti a) af (fl_akm_revoked d0) R
        \<and> attempted (is_model_router_configured (fe_lib env)) (configured (tv_service (fe_mr env))) (fa_mr_jti a) mf (fl_mr_revoked d0) M)"

definition stop_end :: "fleet_env \<Rightarrow> string \<Rightarrow> fleet_agent \<Rightarrow> fleet_db \<Rightarrow> fleet_resp \<Rightarrow> fleet_db \<Rightarrow> bool" where
  "stop_end env u a d0 r d = (\<exists>af mf d1. revoked_first env a af mf d0 d1 \<and>
     (r = FStopped \<and> phase (own_call env (fa_slug a)) {} (fl_agents d0) (fl_calls d0) (rest_of d1) u (stopped_to af mf) d
      \<or> r = FStatus 500 \<and> phase (own_call env (fa_slug a)) {} (fl_agents d0) (fl_calls d0) (rest_of d1) u error_row d))"

lemma stop_agent_split:
  obtains af mf d1 where "revoked_first env a af mf (db w) d1"
    "stop_agent env i a w = stop_rest env i a af mf (w\<lparr>db := d1\<rparr>)"
proof -
  obtain af R where 1: "revoke_failed (configured (fe_akm_key env)) (fa_akm_jti a) (\<lambda>j. revoke_akm env j (fa_akm_exp a)) w
      = (Inr af, w\<lparr>db := (db w)\<lparr>fl_akm_revoked := R\<rparr>\<rparr>)"
    "attempted (configured (fe_akm_key env)) (configured (tv_service (fe_akm env))) (fa_akm_jti a) af (fl_akm_revoked (db w)) R"
    using akm.attempt by blast
  let ?w = "w\<lparr>db := (db w)\<lparr>fl_akm_revoked := R\<rparr>\<rparr>"
  obtain mf M where 2: "revoke_failed (is_model_router_configured (fe_lib env)) (fa_mr_jti a) (\<lambda>j. revoke_mr env j (fa_mr_exp a)) ?w
      = (Inr mf, ?w\<lparr>db := (db ?w)\<lparr>fl_mr_revoked := M\<rparr>\<rparr>)"
    "attempted (is_model_router_configured (fe_lib env)) (configured (tv_service (fe_mr env))) (fa_mr_jti a) mf (fl_mr_revoked (db ?w)) M"
    using router.attempt by blast
  show ?thesis
    by (rule that[of af mf "(db w)\<lparr>fl_akm_revoked := R, fl_mr_revoked := M\<rparr>"])
      (use 1 2 in \<open>auto simp: revoked_first_def stop_agent_def stop_rest_def eff_bind_def\<close>)
qed

lemma stop_cases:
  assumes "stop_route env i w = (r, w')"
  obtains (same) st where "r = Inr (FStatus st)" "st \<in> {404, 500}" "same_core (db w) (db w')"
  | (stop) u a resp where "fe_uuid env i = Some u" "find_fleet u (db w) = Some a" "r = Inr resp" "stop_end env u a (db w) resp (db w')"
proof -
  obtain x w1 where 1: "select_agent env i w = (x, w1)" by fastforce
  note sel = select_agent_cases[OF 1]
  show ?thesis
  proof (cases "\<exists>a. x = Inr (Some a)")
    case False
    then have "r \<in> {Inr (FStatus 404), Inr (FStatus 500)} \<and> w' = w1"
      using assms 1 by (auto simp: stop_route_def fleet_500_def eff_catch_def eff_bind_def ret_def split: sum.splits option.splits)
    then show ?thesis using same sel by (auto simp: same_core_def)
  next
    case True
    then obtain a u where a: "x = Inr (Some a)" "fe_uuid env i = Some u" "find_fleet u (db w) = Some a"
      using sel by (fastforce dest: sym)
    obtain af mf d1 where rf: "revoked_first env a af mf (db w1) d1" "stop_agent env i a w1 = stop_rest env i a af mf (w1\<lparr>db := d1\<rparr>)"
      using stop_agent_split by blast
    obtain y w2 where y: "stop_rest env i a af mf (w1\<lparr>db := d1\<rparr>) = (y, w2)" by fastforce
    have d1: "fl_agents d1 = fl_agents (db w)" "fl_calls d1 = fl_calls (db w)" using rf(1) sel by (auto simp: revoked_first_def)
    have "phase (own_call env (fa_slug a)) {} (fl_agents (db w)) (fl_calls (db w)) (rest_of d1) u (=) (db (w1\<lparr>db := d1\<rparr>))"
      using phase_start[of "own_call env (fa_slug a)" d1 u] d1 by simp
    note post = holds_Inr[OF holds_stop_rest[OF a(2)] _ this] holds_Inl[OF holds_stop_rest[OF a(2)] _ this]
    have run: "r = Inr (case y of Inl e \<Rightarrow> FStatus 500 | Inr q \<Rightarrow> q)" "w' = w2"
      using assms 1 a(1) rf(2) y by (auto simp: stop_route_def fleet_500_def eff_catch_def eff_bind_def ret_def split: sum.splits)
    show ?thesis
    proof (rule stop[OF a(2,3) run(1)])
      show "stop_end env u a (db w) (case y of Inl e \<Rightarrow> FStatus 500 | Inr q \<Rightarrow> q) (db w')"
        unfolding stop_end_def using rf(1) sel post y run(2)
        by (intro exI[of _ af] exI[of _ mf] exI[of _ d1]) (cases y; auto)
    qed
  qed
qed

section \<open>A deletion\<close>

text \<open>
  \<open>gone d0 H d\<close>: the lists of revoked tokens are those of \<open>d0\<close>, its audit lines are still
  there, the engine was asked \<open>H\<close> and calls that satisfy \<open>P\<close>, and the agents are \<open>A\<close>.
\<close>

definition gone :: "(docker_call \<Rightarrow> bool) \<Rightarrow> fleet_db \<Rightarrow> fleet_agent list \<Rightarrow> fleet_db \<Rightarrow> bool" where
  "gone P d0 A d = (fl_akm_revoked d = fl_akm_revoked d0 \<and> fl_mr_revoked d = fl_mr_revoked d0
     \<and> set (fl_audit d0) \<subseteq> set (fl_audit d) \<and> fl_agents d = A
     \<and> (\<exists>cs. fl_calls d = fl_calls d0 @ cs \<and> list_all P cs))"

lemma keeps_gone_audit: "keeps (gone P d0 A) (fleet_audit x y z)"
  unfolding fleet_audit_def by (rule keeps_local) (auto simp: gone_def)

lemma keeps_gone_engine:
  assumes "calls_ok P m" shows "keeps (gone P d0 A) (on_engine env m)"
proof (rule keepsI)
  fix w :: "fleet_db world" assume c: "gone P d0 A (db w)"
  obtain cs where "snd (m (fl_calls (db w))) = fl_calls (db w) @ cs" "list_all P cs"
    using assms by (auto simp: calls_ok_def)
  then show "gone P d0 A (db (snd (on_engine env m w)))"
    using c by (auto simp: on_engine_def gone_def split: prod.splits)
qed

lemma keeps_gone_files: "keeps (gone P d0 A) (remove_agent_files env slug)"
  unfolding remove_agent_files_def by (intro inv_intros keeps_local) (simp add: gone_def)

definition delete_rest :: "fleet_env \<Rightarrow> bool \<Rightarrow> string \<Rightarrow> fleet_agent \<Rightarrow> (fleet_db, fleet_resp) eff" where
  "delete_rest env purge i a =
     eff_seq (if fa_status a = ''running''
               then eff_catch (on_engine env (stop_and_remove (fe_engine env) (fa_slug a)))
                      (\<lambda>_. fleet_audit ''container_stop_failed'' (fa_slug a) (container_of a))
               else ret ())
     (eff_seq (if purge
               then eff_seq (on_engine env (remove_agent_volumes (fe_engine env) (fa_slug a)))
                      (fleet_audit ''purge_volumes'' (fa_slug a) [])
               else ret ())
     (eff_seq (remove_agent_files env (fa_slug a))
     (eff_seq (fleet_query env i (\<lambda>u d. ((), forget_agent u d)))
     (eff_seq (fleet_audit ''delete'' (fa_slug a) [])
     (ret FDeleted)))))"

definition delete_calls :: "fleet_env \<Rightarrow> bool \<Rightarrow> fleet_agent \<Rightarrow> docker_call \<Rightarrow> bool" where
  "delete_calls env purge a c = ((fa_status a = ''running'' \<or> purge) \<and> own_call env (fa_slug a) c)"

lemma holds_delete_rest:
  assumes u: "fe_uuid env i = Some u"
  shows "holds (gone (delete_calls env purge a) d0 A) (delete_rest env purge i a)
    (\<lambda>r d. r = FDeleted \<and> gone (delete_calls env purge a) d0 (filter (\<lambda>x. fa_id x \<noteq> u) A) d)
    (gone (delete_calls env purge a) d0 A)"
proof -
  let ?P = "delete_calls env purge a" and ?B = "filter (\<lambda>x. fa_id x \<noteq> u) A"
  have stop: "calls_ok ?P (stop_and_remove (fe_engine env) (fa_slug a))" if "fa_status a = ''running''"
    using that by (intro calls_ok_mono[OF calls_ok_stop[of env]]) (simp add: delete_calls_def)
  have vols: "calls_ok ?P (remove_agent_volumes (fe_engine env) (fa_slug a))" if purge
    unfolding remove_agent_volumes_def
    using that by (intro calls_ok_mono[OF calls_ok_volumes[of env]]) (simp add: delete_calls_def)
  have cut: "holds (gone ?P d0 A) (fleet_query env i (\<lambda>u d. ((), forget_agent u d))) (\<lambda>_. gone ?P d0 ?B) (gone ?P d0 A)"
    by (rule holds_fleet_query) (use u in \<open>auto simp: gone_def forget_agent_def\<close>)
  have "holds (gone ?P d0 ?B) (fleet_audit ''delete'' (fa_slug a) []) (\<lambda>_. gone ?P d0 ?B) (gone ?P d0 A)"
    using sure_trace(1)[OF keeps_gone_audit] unfolding sure_def by (rule holds_conseq) auto
  then have last: "holds (gone ?P d0 ?B) (eff_seq (fleet_audit ''delete'' (fa_slug a) []) (ret FDeleted))
      (\<lambda>r d. r = FDeleted \<and> gone ?P d0 ?B d) (gone ?P d0 A)"
    by (rule holds_seq) (auto intro: holds_ret)
  show ?thesis unfolding delete_rest_def
    by (rule holds_seq[where R = "\<lambda>_. gone ?P d0 A"], fold keeps_def,
        intro keeps_if keeps_catch keeps_gone_engine stop keeps_gone_audit keeps_ret, assumption,
        rule holds_seq[where R = "\<lambda>_. gone ?P d0 A"], fold keeps_def,
        intro keeps_if keeps_seq keeps_gone_engine vols keeps_gone_audit keeps_ret, assumption,
        rule holds_seq[where R = "\<lambda>_. gone ?P d0 A"], fold keeps_def, rule keeps_gone_files,
        rule holds_seq[OF cut last])
qed

text \<open>How a deletion ends: a token of the agent is revoked, or its failed revocation audited.\<close>

definition tried :: "bool \<Rightarrow> bool \<Rightarrow> string option \<Rightarrow> string \<Rightarrow> (string \<times> int) list \<Rightarrow> (string \<times> int) list \<Rightarrow> fleet_db \<Rightarrow> bool" where
  "tried due asked jti slug old new d = (\<exists>b. attempted due asked jti b old new
     \<and> (b \<longrightarrow> (''token_revoke_failed'', slug, the jti) \<in> set (fl_audit d)))"

definition delete_end :: "fleet_env \<Rightarrow> bool \<Rightarrow> string \<Rightarrow> fleet_agent \<Rightarrow> fleet_db \<Rightarrow> fleet_resp \<Rightarrow> fleet_db \<Rightarrow> bool" where
  "delete_end env purge u a d0 r d =
     (tried (configured (fe_akm_key env)) (configured (tv_service (fe_akm env))) (fa_akm_jti a) (fa_slug a)
          (fl_akm_revoked d0) (fl_akm_revoked d) d
      \<and> tried (is_model_router_configured (fe_lib env)) (configured (tv_service (fe_mr env))) (fa_mr_jti a) (fa_slug a)
          (fl_mr_revoked d0) (fl_mr_revoked d) d
      \<and> (\<exists>cs. fl_calls d = fl_calls d0 @ cs \<and> list_all (delete_calls env purge a) cs)
      \<and> (r = FDeleted \<and> fl_agents d = filter (\<lambda>x. fa_id x \<noteq> u) (fl_agents d0)
         \<or> r = FStatus 500 \<and> fl_agents d = fl_agents d0))"

lemma delete_agent_split:
  obtains d1 where "delete_agent env purge i a w = delete_rest env purge i a (w\<lparr>db := d1\<rparr>)"
    "fl_agents d1 = fl_agents (db w)" "fl_calls d1 = fl_calls (db w)"
    "tried (configured (fe_akm_key env)) (configured (tv_service (fe_akm env))) (fa_akm_jti a) (fa_slug a)
          (fl_akm_revoked (db w)) (fl_akm_revoked d1) d1"
    "tried (is_model_router_configured (fe_lib env)) (configured (tv_service (fe_mr env))) (fa_mr_jti a) (fa_slug a)
          (fl_mr_revoked (db w)) (fl_mr_revoked d1) d1"
proof -
  obtain b R x where 1: "revoke_and_audit (configured (fe_akm_key env)) (fa_akm_jti a) (fa_slug a) (\<lambda>j. revoke_akm env j (fa_akm_exp a)) w
      = (Inr (), w\<lparr>db := (db w)\<lparr>fl_akm_revoked := R, fl_audit := fl_audit (db w) @ x\<rparr>\<rparr>)"
    "attempted (configured (fe_akm_key env)) (configured (tv_service (fe_akm env))) (fa_akm_jti a) b (fl_akm_revoked (db w)) R"
    "b \<longrightarrow> x = [(''token_revoke_failed'', fa_slug a, the (fa_akm_jti a))]"
    using akm.audited[of "configured (fe_akm_key env)" "fa_akm_jti a" "fa_slug a" env "fa_akm_exp a" w] by blast
  let ?w = "w\<lparr>db := (db w)\<lparr>fl_akm_revoked := R, fl_audit := fl_audit (db w) @ x\<rparr>\<rparr>"
  obtain c M y where 2: "revoke_and_audit (is_model_router_configured (fe_lib env)) (fa_mr_jti a) (fa_slug a) (\<lambda>j. revoke_mr env j (fa_mr_exp a)) ?w
      = (Inr (), ?w\<lparr>db := (db ?w)\<lparr>fl_mr_revoked := M, fl_audit := fl_audit (db ?w) @ y\<rparr>\<rparr>)"
    "attempted (is_model_router_configured (fe_lib env)) (configured (tv_service (fe_mr env))) (fa_mr_jti a) c (fl_mr_revoked (db ?w)) M"
    "c \<longrightarrow> y = [(''token_revoke_failed'', fa_slug a, the (fa_mr_jti a))]"
    using router.audited[of "is_model_router_configured (fe_lib env)" "fa_mr_jti a" "fa_slug a" env "fa_mr_exp a" ?w] by blast
  show ?thesis
    by (rule that[of "(db ?w)\<lparr>fl_mr_revoked := M, fl_audit := fl_audit (db ?w) @ y\<rparr>"])
      (use 1 2 in \<open>auto simp: delete_agent_def delete_rest_def eff_seq_def eff_bind_def tried_def\<close>)
qed

lemma delete_cases:
  assumes "delete_route env purge i w = (r, w')"
  obtains (same) st where "r = Inr (FStatus st)" "st \<in> {404, 500}" "same_core (db w) (db w')"
  | (gone) u a resp where "fe_uuid env i = Some u" "find_fleet u (db w) = Some a" "r = Inr resp"
      "delete_end env purge u a (db w) resp (db w')"
proof -
  obtain x w1 where 1: "select_agent env i w = (x, w1)" by fastforce
  note sel = select_agent_cases[OF 1]
  show ?thesis
  proof (cases "\<exists>a. x = Inr (Some a)")
    case False
    then have "r \<in> {Inr (FStatus 404), Inr (FStatus 500)} \<and> w' = w1"
      using assms 1 by (auto simp: delete_route_def fleet_500_def eff_catch_def eff_bind_def ret_def split: sum.splits option.splits)
    then show ?thesis using same sel by (auto simp: same_core_def)
  next
    case True
    then obtain a u where a: "x = Inr (Some a)" "fe_uuid env i = Some u" "find_fleet u (db w) = Some a"
      using sel by (fastforce dest: sym)
    obtain d1 where d1: "delete_agent env purge i a w1 = delete_rest env purge i a (w1\<lparr>db := d1\<rparr>)"
      "fl_agents d1 = fl_agents (db w1)" "fl_calls d1 = fl_calls (db w1)"
      "tried (configured (fe_akm_key env)) (configured (tv_service (fe_akm env))) (fa_akm_jti a) (fa_slug a)
            (fl_akm_revoked (db w1)) (fl_akm_revoked d1) d1"
      "tried (is_model_router_configured (fe_lib env)) (configured (tv_service (fe_mr env))) (fa_mr_jti a) (fa_slug a)
            (fl_mr_revoked (db w1)) (fl_mr_revoked d1) d1"
      using delete_agent_split by blast
    obtain y w2 where y: "delete_rest env purge i a (w1\<lparr>db := d1\<rparr>) = (y, w2)" by fastforce
    have "gone (delete_calls env purge a) d1 (fl_agents (db w)) (db (w1\<lparr>db := d1\<rparr>))" using d1(2) sel by (simp add: gone_def)
    note post = holds_Inr[OF holds_delete_rest[OF a(2)] _ this] holds_Inl[OF holds_delete_rest[OF a(2)] _ this]
    have run: "r = Inr (case y of Inl e \<Rightarrow> FStatus 500 | Inr q \<Rightarrow> q)" "w' = w2"
      using assms 1 a(1) d1(1) y by (auto simp: delete_route_def fleet_500_def eff_catch_def eff_bind_def ret_def split: sum.splits)
    have done_by: "gone (delete_calls env purge a) d1 B (db w2) \<Longrightarrow> q = FDeleted \<and> B = filter (\<lambda>x. fa_id x \<noteq> u) (fl_agents (db w))
        \<or> q = FStatus 500 \<and> B = fl_agents (db w) \<Longrightarrow> delete_end env purge u a (db w) q (db w2)" for q B
      using d1 sel by (auto simp: delete_end_def gone_def tried_def)
    show ?thesis
    proof (rule gone[OF a(2,3) run(1)], cases y)
      case (Inl e)
      then show "delete_end env purge u a (db w) (case y of Inl e \<Rightarrow> FStatus 500 | Inr q \<Rightarrow> q) (db w')"
        using done_by[OF post(2), of e] y run(2) by simp
    next
      case (Inr q)
      then show "delete_end env purge u a (db w) (case y of Inl e \<Rightarrow> FStatus 500 | Inr q \<Rightarrow> q) (db w')"
        using done_by[of _ q] post(1)[of q w2] y run(2) by auto
    qed
  qed
qed

end
