(* ===== verification/LifecycleDemo.thy ===== *)
theory LifecycleDemo
  imports Lifecycle SkillProps
begin

text \<open>
  A start that goes through, step by step: the agent of the small fleet, idle or running with
  a token, started with or without a key for the knowledge service.
\<close>

lemma demo_number: "js_parseFloat ''1'' = Fin 1"
proof -
  have "scan_decimal (trim_start ''1'') = Some (1, [])" by code_simp
  moreover have "to_num 1 = Fin 1" using to_num_of_int[of 1] by simp
  ultimately show ?thesis by (simp add: js_parseFloat_def)
qed

lemma demo_limits: "parse_cpus ''1'' = Inr (Fin 1)" "parse_mem_limit ''1g'' = Inr (Fin 1073741824)" "check_pids (Fin 200) = Inr (Fin 200)"
proof -
  have "match_cpus ''1'' = Some ''1''" "match_mem ''1g'' = Some (''1'', ''g'')" by code_simp+
  then show "parse_cpus ''1'' = Inr (Fin 1)" "parse_mem_limit ''1g'' = Inr (Fin 1073741824)"
    by (simp_all add: parse_cpus_def parse_mem_limit_def demo_number max_agent_cpus_def max_agent_mem_bytes_def in_bytes_def)
  show "check_pids (Fin 200) = Inr (Fin 200)" by (simp add: check_pids_def max_agent_pids_limit_def)
qed

definition demo_idle :: "fleet_agent \<Rightarrow> fleet_session list \<Rightarrow> fleet_db world" where
  "demo_idle a ss = \<lparr>faults = [], db = demo_fleet\<lparr>fl_agents := [a], fl_assigned := [], fl_sessions := ss\<rparr>\<rparr>"

lemma demo_created:
  assumes "co_agent opts = ''box''" "co_cpus opts = ''1''" "co_mem opts = ''1g''" "co_pids opts = Fin 200" "co_shm opts = []"
    "co_network opts = ''hill90_agent_sandbox''"
  shows "\<exists>h'. create_and_start demo_docker \<lparr>config_host_path = ''/cfg'', network_prefix = ''hill90''\<rparr> opts h = (Inr (''c1'', False), h')"
  using assms
  by (simp add: create_and_start_def Let_def assert_agentbox_name_def container_name_def remove_collision_def eng_defs demo_docker_def
     demo_cinfo_def demo_limits lift_limit_def image_revision_def attach_edge_def agent_network_def startsWith_append)


lemma on_engine_eval: "m (fl_calls (db w)) = (Inr x, h) \<Longrightarrow> on_engine env m w = (Inr x, w\<lparr>db := (db w)\<lparr>fl_calls := h\<rparr>\<rparr>)"
  by (simp add: on_engine_def)

lemma query_run: "faults w = [] \<Longrightarrow> fe_uuid env i = Some u \<Longrightarrow> fleet_query env i q w = (Inr (fst (q u (db w))), w\<lparr>db := snd (q u (db w))\<rparr>)"
  by (cases w) (auto simp: fleet_query_def db_query_def Let_def split: prod.splits)

lemma demo_seen: "\<exists>h'. inspect_container date demo_docker slug h = (Inr (Some \<lparr>cv_status = ''running'', cv_id = ''c1'', cv_health = None, cv_finished = None, cv_started = None\<rparr>), h')"
  by (simp add: inspect_container_def Let_def assert_agentbox_name_def container_name_def eng_defs demo_docker_def demo_cinfo_def
     assert_managed_label_def managed_label_def managed_value_def startsWith_append parse_docker_timestamp_def)

lemma demo_env_fields:
  "fe_uuid demo_fleet_env = Some" "fe_docker demo_fleet_env = \<lparr>config_host_path = ''/cfg'', network_prefix = ''hill90''\<rparr>"
  "fe_engine demo_fleet_env = demo_docker" "fe_date demo_fleet_env = (\<lambda>_. None)" "fe_write_files demo_fleet_env s = None"
  "fe_lib demo_fleet_env = demo_lib" "fe_akm_key demo_fleet_env = None" "fe_callback demo_fleet_env = None"
  "fe_anthropic demo_fleet_env = None" "fe_tavily demo_fleet_env = None" "fe_client demo_fleet_env = ''ui''"
  "fe_rank demo_fleet_env = length" "fe_now demo_fleet_env = 100"
  by (simp_all add: demo_fleet_env_def)

lemmas run_defs = eff_bind_def eff_seq_def eff_catch_def eff_try_def ret_def throw_def local_step_def peek_def read_eval
  best_effort_def query_run

text \<open>What the row becomes.\<close>

definition started_box :: "issued \<Rightarrow> string \<Rightarrow> fleet_agent \<Rightarrow> fleet_agent" where
  "started_box akm work a =
     running_row ''c1'' work (if configured (is_jti akm) then a\<lparr>fa_akm_jti := is_jti akm, fa_akm_exp := is_exp akm\<rparr> else a)"

lemma demo_launch:
  assumes "faults w = []" "fl_assigned (db w) = []" "fl_agents (db w) = [a]" "fa_id a = ''a1''"
    "fa_slug a = ''box''" "fa_cpus a = ''1''" "fa_mem a = ''1g''" "fa_pids a = Fin 200" "fa_profile a = None"
  shows "\<exists>w'. launch (demo_fleet_env\<lparr>fe_akm_key := k\<rparr>) user ''a1'' a akm no_token work w = (Inr (FStarted ''c1'' (is_warnings akm)), w')
    \<and> fl_agents (db w') = [started_box akm work a]
    \<and> filter (\<lambda>s. fs_stopped s = None) (fl_sessions (db w')) = filter (\<lambda>s. fs_stopped s = None) (fl_sessions (db w)) @ [\<lparr>fs_agent = ''a1'', fs_started = 100, fs_estimated = True, fs_stopped = None\<rparr>]"
proof -
  let ?env = "demo_fleet_env\<lparr>fe_akm_key := k\<rparr>"
  let ?o = "start_options ?env a akm no_token work ''hill90_agent_sandbox'' None"
  have net: "resolve_agent_network ''hill90'' (agent_effective_scope []) = ''hill90_agent_sandbox''" by code_simp
  obtain h where h: "create_and_start demo_docker \<lparr>config_host_path = ''/cfg'', network_prefix = ''hill90''\<rparr> ?o (fl_calls (db w)) = (Inr (''c1'', False), h)"
    using demo_created[of ?o "fl_calls (db w)"] assms(5-9) by (auto simp: start_options_def)
  obtain h2 where h2: "inspect_container (\<lambda>_. None) demo_docker ''box'' h = (Inr (Some \<lparr>cv_status = ''running'', cv_id = ''c1'', cv_health = None, cv_finished = None, cv_started = None\<rparr>), h2)"
    using demo_seen by blast
  have scopes: "scopes_of ''a1'' (db w) = []" using assms(2) by (simp add: scopes_of_def skills_of_def)
  show ?thesis
    using assms h h2 net scopes
    by (simp add: launch_def run_defs select_profile_def demo_env_fields Let_def on_engine_eval container_started_at_def
        install_or_clean_up_def ensure_required_tools_installed_def required_tools_def record_start_def store_akm_def store_router_def
        no_token_def configured_def update_fleet_def mark_verified_def insert_history_def query_eval open_session_def write_eval
        fleet_audit_def dispatch_event_def notify_user_def started_box_def change_agent_def find_fleet_def)
qed

text \<open>The agent running with a token.\<close>

definition demo_running :: fleet_agent where
  "demo_running = demo_box\<lparr>fa_status := ''running'', fa_container := Some ''c1'', fa_container_state := Some ''running'',
     fa_work := Some ''w'', fa_akm_jti := Some ''old'', fa_akm_exp := Some 500\<rparr>"

lemma issue_keyed:
  assumes "fe_akm_key env = Some (c # k)" "fe_lib env = demo_lib" "faults w = []"
  shows "\<exists>t w'. issue_akm env corr a w = (Inr t, w') \<and> faults w' = [] \<and> is_jti t = Some (replicate (Suc (fl_count (db w))) CHR ''u'')
    \<and> is_warnings t = [] \<and> fl_agents (db w') = fl_agents (db w) \<and> fl_assigned (db w') = fl_assigned (db w) \<and> fl_sessions (db w') = fl_sessions (db w)"
  using assms
  by (simp add: issue_akm_def issue_for_def configured_def run_defs generate_agent_akm_token_def issue_def get_private_key_def akm_lib_def
      demo_lib_def fleet_audit_def Let_def)

lemma issue_keyless: "fe_akm_key env = None \<Longrightarrow> issue_akm env corr a w = (Inr no_token, w)"
  by (simp add: issue_akm_def issue_for_def configured_def ret_def)

lemma demo_start:
  assumes "a \<in> {demo_box, demo_running}" "k = None \<or> k = Some ''k''"
  shows "\<exists>w' t. start_route (demo_fleet_env\<lparr>fe_akm_key := k\<rparr>) demo_admin None ''a1'' (demo_idle a ss) = (Inr (FStarted ''c1'' []), w')
    \<and> (k \<noteq> None \<longrightarrow> (\<exists>work. fl_agents (db w') = [started_box t work a]) \<and> is_jti t = Some ''u'')
    \<and> filter (\<lambda>s. fs_stopped s = None) (fl_sessions (db w')) = filter (\<lambda>s. fs_stopped s = None) ss @ [\<lparr>fs_agent = ''a1'', fs_started = 100, fs_estimated = True, fs_stopped = None\<rparr>]"
proof -
  let ?env = "demo_fleet_env\<lparr>fe_akm_key := k\<rparr>"
  have a: "fa_id a = ''a1''" "fa_slug a = ''box''" "fa_cpus a = ''1''" "fa_mem a = ''1g''" "fa_pids a = Fin 200" "fa_profile a = None"
    using assms(1) by (auto simp: demo_box_def demo_running_def)
  let ?w = "(demo_idle a ss)\<lparr>db := (db (demo_idle a ss))\<lparr>fl_files := [(''box'', files_of a None)]\<rparr>\<rparr>"
  have w: "faults ?w = []" "fl_assigned (db ?w) = []" "fl_agents (db ?w) = [a]" "fl_sessions (db ?w) = ss" "fl_count (db ?w) = 0"
    by (simp_all add: demo_idle_def demo_fleet_def)
  obtain t w1 where t: "issue_akm ?env None a ?w = (Inr t, w1)" "faults w1 = []" "fl_assigned (db w1) = []" "fl_agents (db w1) = [a]"
      "fl_sessions (db w1) = ss" "is_warnings t = []" "k \<noteq> None \<longrightarrow> is_jti t = Some ''u''"
  proof (cases k)
    case None
    then show ?thesis using that[of no_token ?w] issue_keyless[of ?env None a ?w] w by (simp add: demo_env_fields no_token_def)
  next
    case (Some x)
    then show ?thesis using that issue_keyed[of ?env "CHR ''k''" "[]" ?w None a] w assms(2) by (force simp: demo_env_fields)
  qed
  have r: "issue_router ?env None a w1 = (Inr no_token, w1)"
    by (simp add: issue_router_def issue_for_def demo_env_fields is_model_router_configured_def configured_def demo_lib_def ret_def)
  let ?w2 = "w1\<lparr>db := (db w1)\<lparr>fl_count := fl_count (db w1) + 1\<rparr>\<rparr>"
  obtain w' where l: "launch ?env demo_admin ''a1'' a t no_token (tl_uuid demo_lib (fl_count (db w1))) ?w2 = (Inr (FStarted ''c1'' []), w')"
      "fl_agents (db w') = [started_box t (tl_uuid demo_lib (fl_count (db w1))) a]"
      "filter (\<lambda>s. fs_stopped s = None) (fl_sessions (db w')) = filter (\<lambda>s. fs_stopped s = None) ss @ [\<lparr>fs_agent = ''a1'', fs_started = 100, fs_estimated = True, fs_stopped = None\<rparr>]"
    using demo_launch[of ?w2 a k demo_admin t "tl_uuid demo_lib (fl_count (db w1))"] a t by auto
  have start: "start_agent ?env demo_admin None ''a1'' a (demo_idle a ss) = (Inr (FStarted ''c1'' []), w')"
  proof -
    have e: "agent_elevated_scope (scopes_of ''a1'' (db ?w)) = None" using w(2)
      by (simp add: scopes_of_def skills_of_def agent_elevated_scope_None_iff)
    have s: "skills_of ''a1'' (db (demo_idle a ss)) = []" "faults (demo_idle a ss) = []" by (simp_all add: skills_of_def demo_idle_def)
    have f: "write_agent_files ?env a (skill_instructions []) (demo_idle a ss) = (Inr (), ?w)"
      by (simp add: write_agent_files_def demo_env_fields local_step_def a skill_instructions_def instruction_parts_def demo_idle_def demo_fleet_def)
    have c: "\<not> ceiling_exceeded ?env demo_admin a None" by (simp add: ceiling_exceeded_def)
    have d: "draw_work_token ?env w1 = (Inr (tl_uuid demo_lib (fl_count (db w1))), ?w2)"
      by (simp add: draw_work_token_def run_defs demo_env_fields)
    show ?thesis using s f c d e w(1) t(1) r l(1) a(1)
      by (simp add: start_agent_def eff_bind_def eff_seq_def read_eval)
  qed
  have "start_route ?env demo_admin None ''a1'' (demo_idle a ss) = (Inr (FStarted ''c1'' []), w')"
    using start a by (simp add: start_route_def run_defs demo_env_fields select_agent_def find_fleet_def demo_idle_def demo_fleet_def)
  then show ?thesis using l(2,3) t(7) by (intro exI[of _ w'] exI[of _ t] conjI impI) auto
qed

end
