(* ===== verification/LifecycleProps.thy ===== *)
theory LifecycleProps
  imports LifecycleEnds LifecycleDemo
begin

text \<open>
  What the lifecycle routes of an agent guarantee: the machine of states they refine, the rows
  they leave behind, the tokens they revoke or forget, the container they touch, and how the
  reconciler finds what they leave.
\<close>

section \<open>The machine of states\<close>

datatype life = Gone | Down | Up | Broken

definition life_of :: "string \<Rightarrow> fleet_db \<Rightarrow> life" where
  "life_of u d = (case find_fleet u d of
      None \<Rightarrow> Gone
    | Some a \<Rightarrow> if fa_status a = ''running'' then Up else if fa_status a = ''error'' then Broken else Down)"

datatype request =
    Start js "string option" string
  | Stop string
  | Delete bool string
  | Assign js string js
  | Unassign js string string

fun target :: "request \<Rightarrow> string" where
  "target (Start user corr i) = i"
| "target (Stop i) = i"
| "target (Delete purge i) = i"
| "target (Assign user i body) = i"
| "target (Unassign user i k) = i"

fun serve :: "fleet_env \<Rightarrow> request \<Rightarrow> (fleet_db, fleet_resp) eff" where
  "serve env (Start user corr i) = start_route env user corr i"
| "serve env (Stop i) = stop_route env i"
| "serve env (Delete purge i) = delete_route env purge i"
| "serve env (Assign user i body) = eff_bind (assign_skill env user i body) (\<lambda>n. ret (FStatus n))"
| "serve env (Unassign user i k) = eff_bind (remove_skill env user i k) (\<lambda>n. ret (FStatus n))"

text \<open>The specification: what an answer to a request says about the agent it names.\<close>

inductive life_step :: "request \<Rightarrow> fleet_resp \<Rightarrow> life \<Rightarrow> life \<Rightarrow> bool" where
  started: "s \<noteq> Gone \<Longrightarrow> life_step (Start user corr i) (FStarted cid ws) s Up"
| start_failed: "s \<noteq> Gone \<Longrightarrow> life_step (Start user corr i) (FStatus 500) s Broken"
| stopped: "s \<noteq> Gone \<Longrightarrow> life_step (Stop i) FStopped s Down"
| stop_failed: "s \<noteq> Gone \<Longrightarrow> life_step (Stop i) (FStatus 500) s Broken"
| deleted: "s \<noteq> Gone \<Longrightarrow> life_step (Delete purge i) FDeleted s Gone"
| unmoved: "life_step q (FStatus n) s s"

inductive_cases life_step_elims: "life_step q r s t"
inductive_simps life_step_gone: "life_step q r Gone t"
declare life_step.intros [intro]

text \<open>Nobody but the target is touched; the target's row changes by \<open>R\<close>.\<close>

definition moved :: "string \<Rightarrow> (fleet_agent \<Rightarrow> fleet_agent \<Rightarrow> bool) \<Rightarrow> fleet_db \<Rightarrow> fleet_db \<Rightarrow> bool" where
  "moved u R d d' = (\<forall>v. case find_fleet v d of
      None \<Rightarrow> find_fleet v d' = None
    | Some a \<Rightarrow> \<exists>b. find_fleet v d' = Some b \<and> (if v = u then R a b else b = a))"

lemma moved_rows:
  assumes "rows u R (fl_agents d) (fl_agents d')" shows "moved u R d d'"
  unfolding moved_def find_fleet_def
proof
  fix v
  show "case find (\<lambda>a. fa_id a = v) (fl_agents d) of None \<Rightarrow> find (\<lambda>a. fa_id a = v) (fl_agents d') = None
      | Some a \<Rightarrow> \<exists>b. find (\<lambda>a. fa_id a = v) (fl_agents d') = Some b \<and> (if v = u then R a b else b = a)"
    using rows_find[OF assms, of v] by (auto split: option.splits if_splits)
qed

lemma moved_phase: "phase P S (fl_agents d) H K u R d' \<Longrightarrow> moved u R d d'"
  by (rule moved_rows) (simp add: phase_def)

lemma moved_other: "moved u R d d' \<Longrightarrow> v \<noteq> u \<Longrightarrow> find_fleet v d' = find_fleet v d"
  unfolding moved_def by (cases "find_fleet v d") (auto dest!: spec[of _ v])

lemma moved_target: "moved u R d d' \<Longrightarrow> find_fleet u d = Some a \<Longrightarrow> \<exists>b. find_fleet u d' = Some b \<and> R a b"
  unfolding moved_def by (auto dest!: spec[of _ u])

lemma same_core_find: "same_core d d' \<Longrightarrow> find_fleet v d' = find_fleet v d"
  by (simp add: same_core_def find_fleet_def)

text \<open>The changes of a row the requests make.\<close>

lemma started_row_fields:
  "started_row cid work a b \<Longrightarrow> fa_status b = ''running'' \<and> fa_container b = Some cid \<and> fa_work b = Some work
     \<and> fa_error b = None \<and> fa_container_state b = Some ''running'' \<and> fa_slug b = fa_slug a"
  by (auto simp: started_row_def running_row_def dest: tokens_only_fields)

lemma stopped_to_fields:
  "stopped_to af mf a b \<Longrightarrow> fa_status b = ''stopped'' \<and> fa_container b = None \<and> fa_work b = None
     \<and> fa_container_state b = Some ''absent'' \<and> fa_slug b = fa_slug a
     \<and> (af \<longrightarrow> fa_akm_jti b = fa_akm_jti a) \<and> (mf \<longrightarrow> fa_mr_jti b = fa_mr_jti a)"
  by (auto simp: stopped_to_def stopped_row_def Let_def)

lemma failed_row_fields:
  "failed_row a b \<Longrightarrow> fa_status b = ''error'' \<or>
     fa_status b = fa_status a \<and> fa_container b = fa_container a \<and> fa_work b = fa_work a \<and> fa_container_state b = fa_container_state a"
  by (auto simp: failed_row_def dest: tokens_only_fields)

lemma error_row_fields:
  "error_row a b \<Longrightarrow> (fa_status b = ''error'' \<or> b = a) \<and> fa_akm_jti b = fa_akm_jti a \<and> fa_mr_jti b = fa_mr_jti a"
  by (auto simp: error_row_def)

section \<open>What a request changes\<close>

definition removed :: "string \<Rightarrow> fleet_db \<Rightarrow> fleet_db \<Rightarrow> bool" where
  "removed u d d' = (\<forall>v. find_fleet v d' = (if v = u then None else find_fleet v d))"

definition retooled :: "fleet_agent \<Rightarrow> fleet_agent \<Rightarrow> bool" where
  "retooled a b = (b = a \<or> (\<exists>t. b = a\<lparr>fa_tools := t\<rparr>))"

inductive change :: "request \<Rightarrow> fleet_resp \<Rightarrow> string \<Rightarrow> fleet_db \<Rightarrow> fleet_db \<Rightarrow> bool" where
  starts: "moved u (started_row cid work) d d' \<Longrightarrow> change (Start user corr i) (FStarted cid ws) u d d'"
| start_fails: "moved u failed_row d d' \<Longrightarrow> change (Start user corr i) (FStatus 500) u d d'"
| stops: "moved u (stopped_to af mf) d d' \<Longrightarrow> change (Stop i) FStopped u d d'"
| stop_fails: "moved u error_row d d' \<Longrightarrow> change (Stop i) (FStatus 500) u d d'"
| deletes: "removed u d d' \<Longrightarrow> change (Delete purge i) FDeleted u d d'"
| tools: "moved u retooled d d' \<Longrightarrow> change q (FStatus n) u d d'"

lemma moved_same: "(\<And>v. find_fleet v d' = find_fleet v d) \<Longrightarrow> (\<And>a. R a a) \<Longrightarrow> moved u R d d'"
  unfolding moved_def by (auto split: option.splits)

lemma change_same: "fl_agents d' = fl_agents d \<Longrightarrow> change q (FStatus n) u d d'"
  by (rule change.tools) (simp add: moved_same find_fleet_def retooled_def)

lemma find_filter_other:
  "find (\<lambda>a. fa_id a = v) (filter (\<lambda>x. fa_id x \<noteq> u) A) = (if v = u then None else find (\<lambda>a. fa_id a = v) A)"
  by (induction A) auto

lemma rows_map: "(\<And>a. fa_id a = u \<Longrightarrow> R a (f a) \<and> fa_id (f a) = u) \<Longrightarrow> rows u R A (map (\<lambda>a. if fa_id a = u then f a else a) A)"
  unfolding rows_def by (simp add: list_all2_map2 list_all2_same)

lemma skill_change:
  assumes "skill_outcome env user i d st d'" "fe_uuid env i = Some u"
  shows "change q (FStatus st) u d d'"
  using assms(1) unfolding skill_outcome_def
proof (elim disjE exE conjE)
  assume "unchanged d d'" then show ?thesis by (intro change_same) (simp add: unchanged_def)
next
  fix a s d1 assume "edited \<lparr>as_agent = fa_id a, as_skill = sk_id s\<rparr> d d1" "unchanged d1 d'"
  then show ?thesis by (intro change_same) (simp add: unchanged_def edited_def)
next
  fix a :: fleet_agent and s d1
  assume "admitted env user i d a s" and e: "edited \<lparr>as_agent = fa_id a, as_skill = sk_id s\<rparr> d d1" "recomputed (fa_id a) d1 d'"
  then have u: "fa_id a = u" using assms(2) by (simp add: admitted_def)
  then have "rows u retooled (fl_agents d) (fl_agents d')"
    using e by (auto simp: recomputed_def edited_def retooled_def intro!: rows_map)
  then show ?thesis by (intro change.tools moved_rows)
qed

lemma skill_unchanged:
  "skill_outcome env user i d st d' \<Longrightarrow> fe_uuid env i = None \<Longrightarrow> fl_agents d' = fl_agents d"
  by (auto simp: skill_outcome_def unchanged_def admitted_def)

lemma skill_answers:
  "\<exists>st. fst (assign_skill env user i body w) = Inr st" "\<exists>st. fst (remove_skill env user i k w) = Inr st"
  by (auto simp: assign_skill_def remove_skill_def answer_500_def eff_catch_def ret_def split: prod.splits sum.splits)

text \<open>Every request is answered, and this is what it changes.\<close>

definition served :: "fleet_env \<Rightarrow> request \<Rightarrow> fleet_db \<Rightarrow> fleet_resp \<Rightarrow> fleet_db \<Rightarrow> bool" where
  "served env q d r d' =
     ((\<exists>n. r = FStatus n) \<and> fl_agents d' = fl_agents d
      \<or> (\<exists>u. fe_uuid env (target q) = Some u \<and> change q r u d d'
            \<and> ((\<exists>n. r = FStatus n) \<or> find_fleet u d \<noteq> None)))"

lemma served_start:
  assumes "start_outcome env user i d r d'" shows "served env (Start user corr i) d r d'"
  using assms unfolding start_outcome_def
proof (elim disjE exE conjE)
  assume "r \<in> {FStatus 503, FStatus 404, FStatus 500}" "same_core d d'"
  then show ?thesis by (auto simp: served_def same_core_def)
next
  fix u a assume u: "fe_uuid env i = Some u" "find_fleet u d = Some a" and e: "start_end env user u a d r d'"
  from e show ?thesis unfolding start_end_def Let_def
  proof (elim disjE exE conjE)
    fix cid ws work c assume "r = FStarted cid ws"
      "phase (own_call env (fa_slug a)) {c} (fl_agents d) (fl_calls d) (rest_of d) u (started_row cid work) d'"
    then show ?thesis using u by (auto simp: served_def intro!: change.starts moved_phase)
  next
    assume "r = FStatus 403" "phase (own_call env (fa_slug a)) {} (fl_agents d) (fl_calls d) (rest_of d) u (=) d'"
    moreover have "rows u (=) A B \<Longrightarrow> B = A" for A B unfolding rows_def by (induction rule: list_all2_induct) (auto split: if_splits)
    ultimately show ?thesis by (auto simp: served_def phase_def)
  qed
next
  fix u a assume "fe_uuid env i = Some u" "r = FStatus 500"
    "phase (own_call env (fa_slug a)) {} (fl_agents d) (fl_calls d) (rest_of d) u failed_row d'"
  then show ?thesis by (auto simp: served_def intro!: change.start_fails moved_phase)
qed

lemma serve_served:
  assumes "serve env q w = (r, w')" obtains resp where "r = Inr resp" "served env q (db w) resp (db w')"
proof (cases q)
  case (Start user corr i)
  then have "start_route env user corr i w = (r, w')" using assms by simp
  then show ?thesis using that Start by (elim start_cases) (auto intro: served_start)
next
  case (Stop i)
  then have "stop_route env i w = (r, w')" using assms by simp
  then show ?thesis
  proof (cases rule: stop_cases)
    case (same st)
    then show ?thesis using that[of "FStatus st"] by (simp add: served_def same_core_def)
  next
    case (stop u a resp)
    then have "change (Stop i) resp u (db w) (db w')"
      unfolding stop_end_def by (auto intro: change.stops change.stop_fails moved_phase)
    then show ?thesis using that stop Stop by (auto simp: served_def)
  qed
next
  case (Delete purge i)
  then have "delete_route env purge i w = (r, w')" using assms by simp
  then show ?thesis
  proof (cases rule: delete_cases)
    case (same st)
    then show ?thesis using that[of "FStatus st"] by (simp add: served_def same_core_def)
  next
    case (gone u a resp)
    then have "resp = FStatus 500 \<and> fl_agents (db w') = fl_agents (db w) \<or> resp = FDeleted \<and> removed u (db w) (db w')"
      unfolding delete_end_def by (auto simp: removed_def find_fleet_def find_filter_other)
    then show ?thesis using that gone Delete by (auto simp: served_def intro: change.deletes)
  qed
next
  case (Assign user i body)
  obtain st w1 where 1: "assign_skill env user i body w = (Inr st, w1)"
    using skill_answers(1)[of env user i body w] by (metis prod.collapse)
  then have "r = Inr (FStatus st)" "w' = w1" using assms Assign by (auto simp: eff_bind_def ret_def)
  then show ?thesis using that assign_outcome[OF 1] skill_change skill_unchanged Assign
    by (cases "fe_uuid env i") (auto simp: served_def)
next
  case (Unassign user i k)
  obtain st w1 where 1: "remove_skill env user i k w = (Inr st, w1)"
    using skill_answers(2)[of env user i k w] by (metis prod.collapse)
  then have "r = Inr (FStatus st)" "w' = w1" using assms Unassign by (auto simp: eff_bind_def ret_def)
  then show ?thesis using that remove_outcome[OF 1] skill_change skill_unchanged Unassign
    by (cases "fe_uuid env i") (auto simp: served_def)
qed

section \<open>The routes refine the machine\<close>

lemma life_of_moved:
  assumes "moved u R d d'" "find_fleet u d = Some a"
  shows "\<exists>b. R a b \<and> life_of u d' = (if fa_status b = ''running'' then Up else if fa_status b = ''error'' then Broken else Down)"
  using moved_target[OF assms] by (auto simp: life_of_def)

lemma life_present: "find_fleet u d = Some a \<Longrightarrow> life_of u d \<noteq> Gone"
  by (simp add: life_of_def)

lemma change_refines:
  assumes "change q r u d d'" "(\<exists>n. r = FStatus n) \<or> find_fleet u d \<noteq> None"
  shows "life_step q r (life_of u d) (life_of u d')"
proof (cases "find_fleet u d")
  case None
  then obtain n where r: "r = FStatus n" using assms(2) by auto
  have "life_of u d' = Gone" "life_of u d = Gone"
    using assms(1) None r by (auto simp: life_of_def moved_def elim!: change.cases dest!: spec[of _ u])
  then show ?thesis using r by auto
next
  case (Some a)
  note p = life_present[OF Some]
  from assms(1) show ?thesis
  proof cases
    case (starts cid work user corr i ws)
    obtain b where b: "started_row cid work a b" "life_of u d' = (if fa_status b = ''running'' then Up else if fa_status b = ''error'' then Broken else Down)"
      using life_of_moved[OF starts(3) Some] by blast
    then have "life_of u d' = Up" using started_row_fields[OF b(1)] by simp
    then show ?thesis using p starts(1,2) by auto
  next
    case (start_fails user corr i)
    obtain b where b: "failed_row a b" "life_of u d' = (if fa_status b = ''running'' then Up else if fa_status b = ''error'' then Broken else Down)"
      using life_of_moved[OF start_fails(3) Some] by blast
    then have "life_of u d' = Broken \<or> life_of u d' = life_of u d"
      using failed_row_fields[OF b(1)] b(2) Some by (auto simp: life_of_def)
    then show ?thesis using p start_fails by auto
  next
    case (stops af mf i)
    obtain b where b: "stopped_to af mf a b" "life_of u d' = (if fa_status b = ''running'' then Up else if fa_status b = ''error'' then Broken else Down)"
      using life_of_moved[OF stops(3) Some] by blast
    then have "life_of u d' = Down" using stopped_to_fields[OF b(1)] by simp
    then show ?thesis using p stops(1,2) by auto
  next
    case (stop_fails i)
    obtain b where b: "error_row a b" "life_of u d' = (if fa_status b = ''running'' then Up else if fa_status b = ''error'' then Broken else Down)"
      using life_of_moved[OF stop_fails(3) Some] by blast
    then have "life_of u d' = Broken \<or> life_of u d' = life_of u d"
      using error_row_fields[OF b(1)] b(2) Some by (auto simp: life_of_def)
    then show ?thesis using p stop_fails by auto
  next
    case (deletes purge i)
    then have "life_of u d' = Gone" by (simp add: life_of_def removed_def)
    then show ?thesis using deletes p by auto
  next
    case (tools n)
    then have "life_of u d' = life_of u d" using life_of_moved[OF tools(2) Some] Some by (auto simp: retooled_def life_of_def)
    then show ?thesis using tools by auto
  qed
qed

lemma change_other: "change q r u d d' \<Longrightarrow> v \<noteq> u \<Longrightarrow> find_fleet v d' = find_fleet v d"
  by (auto elim!: change.cases simp: removed_def moved_other)

text \<open>
  C7: The five routes refine the machine of an agent's states, whatever fails on the way.
  Every request is answered, no agent but the one it names is touched, and the answer tells
  what happened to that one: a start that answers with a container leaves it running, a stop
  that says stopped leaves it down, a deletion that says deleted leaves it gone, any other
  answer leaves it as it was, except that 500 from a start or a stop may leave it in error;
  and nothing brings back an agent that is gone.
\<close>

theorem routes_refine_machine:
  assumes "serve env q w = (r, w')"
  shows "(\<exists>resp. r = Inr resp \<and> (\<forall>u. fe_uuid env (target q) = Some u \<longrightarrow> life_step q resp (life_of u (db w)) (life_of u (db w'))))
    \<and> (\<forall>v. fe_uuid env (target q) \<noteq> Some v \<longrightarrow> find_fleet v (db w') = find_fleet v (db w))
    \<and> (\<forall>v. life_of v (db w) = Gone \<longrightarrow> life_of v (db w') = Gone)"
proof -
  obtain resp where r: "r = Inr resp" and s: "served env q (db w) resp (db w')" using serve_served[OF assms] by blast
  have other: "find_fleet v (db w') = find_fleet v (db w)" if "fe_uuid env (target q) \<noteq> Some v" for v
    using s that unfolding served_def by (auto simp: find_fleet_def dest: change_other[of _ _ _ _ _ v])
  have step: "life_step q resp (life_of u (db w)) (life_of u (db w'))" if "fe_uuid env (target q) = Some u" for u
    using s that unfolding served_def
  proof (elim disjE exE conjE)
    fix n assume "resp = FStatus n" "fl_agents (db w') = fl_agents (db w)"
    then show ?thesis using life_step.unmoved by (simp add: life_of_def find_fleet_def)
  qed (auto intro: change_refines)
  have "life_of v (db w') = Gone" if "life_of v (db w) = Gone" for v
  proof (cases "fe_uuid env (target q) = Some v")
    case True
    then show ?thesis using step[OF True] that by (auto elim: life_step_elims)
  next
    case False
    then show ?thesis using other[OF False] that by (simp add: life_of_def)
  qed
  then show ?thesis using r step other by blast
qed

section \<open>Rows stay well-formed\<close>

text \<open>A running row names its container and the token chats are dispatched with; a stopped one neither.\<close>

definition row_sound :: "fleet_agent \<Rightarrow> bool" where
  "row_sound a =
     ((fa_status a = ''running'' \<longrightarrow> fa_container a \<noteq> None \<and> fa_work a \<noteq> None \<and> fa_container_state a = Some ''running'')
      \<and> (fa_status a = ''stopped'' \<longrightarrow> fa_container a = None \<and> fa_work a = None))"

definition rows_sound :: "fleet_db \<Rightarrow> bool" where
  "rows_sound d = (\<forall>u a. find_fleet u d = Some a \<longrightarrow> row_sound a)"

lemma moved_sound:
  assumes "moved u R d d'" "\<And>a b. R a b \<Longrightarrow> row_sound a \<Longrightarrow> row_sound b" "rows_sound d"
  shows "rows_sound d'"
  unfolding rows_sound_def
proof (intro allI impI)
  fix v b assume b: "find_fleet v d' = Some b"
  then obtain a where a: "find_fleet v d = Some a" "if v = u then R a b else b = a"
    using assms(1) unfolding moved_def by (auto split: option.splits dest!: spec[of _ v])
  then show "row_sound b" using assms(2)[of a b] assms(3) unfolding rows_sound_def by (auto split: if_splits)
qed

lemma row_sound_steps:
  "started_row cid work a b \<Longrightarrow> row_sound b"
  "stopped_to af mf a b \<Longrightarrow> row_sound b"
  "failed_row a b \<Longrightarrow> row_sound a \<Longrightarrow> row_sound b"
  "error_row a b \<Longrightarrow> row_sound a \<Longrightarrow> row_sound b"
  "retooled a b \<Longrightarrow> row_sound a \<Longrightarrow> row_sound b"
proof -
  show "started_row cid work a b \<Longrightarrow> row_sound b" by (auto simp: row_sound_def dest: started_row_fields)
  show "stopped_to af mf a b \<Longrightarrow> row_sound b" by (auto simp: row_sound_def dest: stopped_to_fields)
  show "failed_row a b \<Longrightarrow> row_sound a \<Longrightarrow> row_sound b" using failed_row_fields[of a b] by (auto simp: row_sound_def)
  show "error_row a b \<Longrightarrow> row_sound a \<Longrightarrow> row_sound b" using error_row_fields[of a b] by (auto simp: row_sound_def)
  show "retooled a b \<Longrightarrow> row_sound a \<Longrightarrow> row_sound b" by (auto simp: row_sound_def retooled_def)
qed

lemma change_sound: "change q r u d d' \<Longrightarrow> rows_sound d \<Longrightarrow> rows_sound d'"
proof (induction rule: change.induct)
  case (deletes u d d')
  then show ?case by (auto simp: removed_def rows_sound_def split: if_splits)
qed (erule moved_sound, erule row_sound_steps, assumption?, assumption?)+

text \<open>
  C23: Rows stay well-formed. If every running agent's row names a container and a work token
  and is last seen running, and every stopped one names neither, then this is so after any
  start, stop, deletion and change of skills, however it is answered and whatever failed in
  between.
\<close>

theorem rows_stay_sound:
  assumes "serve env q w = (r, w')" "rows_sound (db w)"
  shows "rows_sound (db w')"
proof -
  obtain resp where "served env q (db w) resp (db w')" using serve_served[OF assms(1)] by blast
  then consider "fl_agents (db w') = fl_agents (db w)" | u where "change q resp u (db w) (db w')"
    unfolding served_def by blast
  then show ?thesis
  proof cases
    case 1
    then show ?thesis using assms(2) by (simp add: rows_sound_def find_fleet_def)
  next
    case 2
    then show ?thesis using assms(2) by (rule change_sound)
  qed
qed

section \<open>What a start records\<close>

lemma start_end_started:
  assumes "start_route env user corr i w = (Inr (FStarted cid ws), w')"
  obtains u a work c where "fe_uuid env i = Some u" "find_fleet u (db w) = Some a" "made env a work (db w) c"
    "phase (own_call env (fa_slug a)) {c} (fl_agents (db w)) (fl_calls (db w)) (rest_of (db w)) u (started_row cid work) (db w')"
  using assms by (elim start_cases) (auto simp: start_outcome_def start_end_def Let_def)

text \<open>
  C8: A start that answers with a container has made and recorded it. Every call to the
  engine was about the agent's own container; one of them created it, with the agent's work
  token among its variables and on the network that the scopes of its skills ask for; the row
  says running and names the container and the very same token, and no other row has changed.
  No token was revoked.
\<close>

theorem start_records_container:
  assumes "start_route env user corr i w = (Inr (FStarted cid ws), w')"
  shows "\<exists>u (a :: fleet_agent) b work spec cs. fe_uuid env i = Some u \<and> find_fleet u (db w) = Some a \<and> find_fleet u (db w') = Some b
    \<and> fl_calls (db w') = fl_calls (db w) @ cs \<and> list_all (own_call env (fa_slug a)) cs
    \<and> CreateC spec \<in> set cs \<and> ''WORK_TOKEN='' @ work \<in> set (cs_env spec)
    \<and> cs_network spec = resolve_agent_network (network_prefix (fe_docker env)) (agent_effective_scope (scopes_of (fa_id a) (db w)))
    \<and> fa_status b = ''running'' \<and> fa_container b = Some cid \<and> fa_work b = Some work \<and> fa_error b = None
    \<and> fa_container_state b = Some ''running''
    \<and> (\<forall>v. v \<noteq> u \<longrightarrow> find_fleet v (db w') = find_fleet v (db w))
    \<and> fl_akm_revoked (db w') = fl_akm_revoked (db w) \<and> fl_mr_revoked (db w') = fl_mr_revoked (db w)"
proof -
  obtain u a work c where u: "fe_uuid env i = Some u" "find_fleet u (db w) = Some a" and m: "made env a work (db w) c"
    and p: "phase (own_call env (fa_slug a)) {c} (fl_agents (db w)) (fl_calls (db w)) (rest_of (db w)) u (started_row cid work) (db w')"
    using start_end_started[OF assms] by blast
  obtain spec where c: "c = CreateC spec" "work_var work \<in> set (cs_env spec)"
    "cs_network spec = resolve_agent_network (network_prefix (fe_docker env)) (agent_effective_scope (scopes_of (fa_id a) (db w)))"
    using m unfolding made_def by blast
  obtain cs where cs: "fl_calls (db w') = fl_calls (db w) @ cs" "list_all (own_call env (fa_slug a)) cs" "CreateC spec \<in> set cs"
    using p c(1) by (auto simp: phase_def core_def)
  obtain b where b: "find_fleet u (db w') = Some b" "started_row cid work a b" using moved_target[OF moved_phase[OF p] u(2)] by blast
  have "fl_akm_revoked (db w') = fl_akm_revoked (db w) \<and> fl_mr_revoked (db w') = fl_mr_revoked (db w)"
    using p by (simp add: phase_def core_def rest_of_def)
  then show ?thesis
    using u b(1) cs c(2,3) started_row_fields[OF b(2)] moved_other[OF moved_phase[OF p]]
    unfolding work_var_def by (intro exI[of _ u] exI[of _ a] exI[of _ b] exI[of _ work] exI[of _ spec] exI[of _ cs]) simp
qed

section \<open>Tokens\<close>

text \<open>
  A token of either kind that could be revoked is revoked, still named by the row, or its
  failed revocation is on the audit trail under its name.
\<close>

definition accounted :: "bool \<Rightarrow> string option \<Rightarrow> (string \<times> int) list \<Rightarrow> string option \<Rightarrow> string \<Rightarrow> fleet_db \<Rightarrow> bool" where
  "accounted due jti revoked named slug d =
     (configured jti \<and> due \<longrightarrow> the jti \<in> fst ` set revoked \<or> named = jti
        \<or> (''token_revoke_failed'', slug, the jti) \<in> set (fl_audit d))"

definition akm_due :: "fleet_env \<Rightarrow> bool" where
  "akm_due env = (configured (fe_akm_key env) \<and> configured (tv_service (fe_akm env)))"

definition mr_due :: "fleet_env \<Rightarrow> bool" where
  "mr_due env = (is_model_router_configured (fe_lib env) \<and> configured (tv_service (fe_mr env)))"

definition names :: "(fleet_agent \<Rightarrow> string option) \<Rightarrow> string \<Rightarrow> fleet_db \<Rightarrow> string option" where
  "names f u d = (case find_fleet u d of None \<Rightarrow> None | Some b \<Rightarrow> f b)"

lemma accounted_attempt:
  "attempted due asked jti failed old new \<Longrightarrow> (failed \<Longrightarrow> named = jti) \<Longrightarrow> accounted (due \<and> asked) jti new named slug d"
  by (auto simp: attempted_def accounted_def)

lemma accounted_tried:
  "tried due asked jti slug old new d \<Longrightarrow> accounted (due \<and> asked) jti new named slug d"
  by (auto simp: tried_def attempted_def accounted_def)

lemma accounted_named: "accounted due jti new jti slug d"
  by (simp add: accounted_def)

text \<open>
  C9: No token is lost by stopping or deleting its agent. Whatever fails on the way and
  however the request is answered, each of the two tokens that the row named before it, if
  its service is configured, is on the service's list of revoked tokens, or the row still
  names it, or the audit trail records its failed revocation.
\<close>

theorem tokens_accounted_for:
  assumes "stop_route env i w = (r, w') \<or> delete_route env purge i w = (r, w')"
    and "fe_uuid env i = Some u" "find_fleet u (db w) = Some a"
  shows "accounted (akm_due env) (fa_akm_jti a) (fl_akm_revoked (db w')) (names fa_akm_jti u (db w')) (fa_slug a) (db w')
    \<and> accounted (mr_due env) (fa_mr_jti a) (fl_mr_revoked (db w')) (names fa_mr_jti u (db w')) (fa_slug a) (db w')"
  using assms(1)
proof
  assume "stop_route env i w = (r, w')"
  then show ?thesis
  proof (cases rule: stop_cases)
    case (same st)
    then have "find_fleet u (db w') = Some a" using assms(3) same_core_find by metis
    then show ?thesis by (simp add: names_def accounted_named)
  next
    case (stop v b resp)
    then have v: "v = u" "b = a" using assms(2,3) by auto
    obtain af mf d1 R where rf: "revoked_first env a af mf (db w) d1"
      and p: "phase (own_call env (fa_slug a)) {} (fl_agents (db w)) (fl_calls (db w)) (rest_of d1) u R (db w')"
      and R: "R = stopped_to af mf \<or> R = error_row"
      using stop(4) v unfolding stop_end_def by blast
    obtain c where c: "find_fleet u (db w') = Some c" "R a c" using moved_target[OF moved_phase[OF p] assms(3)] by blast
    have kept: "af \<Longrightarrow> fa_akm_jti c = fa_akm_jti a" "mf \<Longrightarrow> fa_mr_jti c = fa_mr_jti a"
      using R c(2) by (auto dest: stopped_to_fields error_row_fields)
    have "fl_akm_revoked (db w') = fl_akm_revoked d1" "fl_mr_revoked (db w') = fl_mr_revoked d1"
      using p by (auto simp: phase_def core_def rest_of_def)
    then show ?thesis using rf kept c(1) unfolding revoked_first_def akm_due_def mr_due_def names_def
      by (auto intro!: accounted_attempt)
  qed
next
  assume "delete_route env purge i w = (r, w')"
  then show ?thesis
  proof (cases rule: delete_cases)
    case (same st)
    then have "find_fleet u (db w') = Some a" using assms(3) same_core_find by metis
    then show ?thesis by (simp add: names_def accounted_named)
  next
    case (gone v b resp)
    then have v: "v = u" "b = a" using assms(2,3) by auto
    then show ?thesis using gone(4) unfolding delete_end_def akm_due_def mr_due_def
      by (intro conjI accounted_tried) blast+
  qed
qed

section \<open>Where it goes wrong\<close>

text \<open>
  A deletion that says deleted may leave the container behind. Unless the row says
  running, deleting an agent without its volumes does not speak to the engine at all, and
  afterwards neither the agents nor the reconciler know of it. An agent whose failed start
  could not remove its container is in exactly this state: in error, with the container
  running.
\<close>

theorem delete_leaves_container:
  assumes "delete_route env False i w = (Inr FDeleted, w')"
    and "fe_uuid env i = Some u" "find_fleet u (db w) = Some a" "fa_status a \<noteq> ''running''"
  shows "fl_calls (db w') = fl_calls (db w) \<and> find_fleet u (db w') = None
    \<and> (\<forall>x. x \<in> set (ags (observe (db w'))) \<longrightarrow> ag_id x \<noteq> u)"
proof -
  from assms(1) have "delete_end env False u a (db w) FDeleted (db w')"
    by (cases rule: delete_cases) (use assms(2,3) in auto)
  moreover have "delete_calls env False a = (\<lambda>_. False)" using assms(4) by (intro ext) (simp add: delete_calls_def)
  ultimately have "fl_calls (db w') = fl_calls (db w)" "fl_agents (db w') = filter (\<lambda>x. fa_id x \<noteq> u) (fl_agents (db w))"
    by (auto simp: delete_end_def no_calls)
  then show ?thesis by (auto simp: find_fleet_def find_filter_other observe_def observe_agent_def)
qed

text \<open>
  The owner's ceiling never denies a start. The route asks for the administrator's role
  before it looks at the agent, and the ceiling denies only an owner who is not an
  administrator and starts the agent himself; so no request that passes the gate is answered
  403, whatever the agent's scopes and whoever owns it.
\<close>

theorem ceiling_never_denies:
  assumes "require_role (fe_client env) ''admin'' (Some user) = Next v" "start_route env v corr i w = (r, w')"
  shows "r \<noteq> Inr (FStatus 403)"
proof
  assume "r = Inr (FStatus 403)"
  then have "\<exists>a s. ceiling_exceeded env v a s"
    using assms(2) by (elim start_cases) (auto simp: start_outcome_def start_end_def Let_def)
  moreover have "Str ''admin'' \<in> set (roles_from (fe_client env) v)" using require_role_Next[OF assms(1)] by auto
  ultimately show False by (auto simp: ceiling_exceeded_def)
qed

text \<open>
  Starting an agent again forgets its tokens. Nothing stops a start of an agent that is
  running already, and a start revokes nothing, however it ends: a token the row named before
  and that is not revoked is not revoked afterwards either, also when the row names a new one
  in its place.
\<close>

theorem restart_revokes_nothing:
  assumes "start_route env user corr i w = (r, w')"
  shows "fl_akm_revoked (db w') = fl_akm_revoked (db w) \<and> fl_mr_revoked (db w') = fl_mr_revoked (db w)"
  using assms
  by (elim start_cases) (auto simp: start_outcome_def start_end_def same_core_def phase_def core_def rest_of_def Let_def)

section \<open>The reconciler afterwards\<close>

text \<open>
  C24: What a start or a stop records is what the reconciler would find. After a start that
  answers with a container, a pass that finds the container running changes nothing about the
  agent; after a stop that says stopped, a pass that finds no container changes nothing
  either, and one that still finds a running container takes the agent back to running.
\<close>

theorem reconciler_agrees:
  assumes "serve env q w = (Inr r, w')" "fe_uuid env (target q) = Some u"
    and "(\<exists>cid ws. r = FStarted cid ws) \<or> r = FStopped"
  shows "\<exists>b. find_fleet u (db w') = Some b
    \<and> ((\<exists>cid ws. r = FStarted cid ws) \<longrightarrow> (\<forall>insp v. insp (fa_slug b) = Inr (Some v) \<and> cv_status v = ''running'' \<longrightarrow>
          decide_row insp (observe_agent b) = (Steady, None)))
    \<and> (r = FStopped \<longrightarrow> (\<forall>insp. insp (fa_slug b) = Inr None \<longrightarrow> decide_row insp (observe_agent b) = (Steady, None))
        \<and> (\<forall>insp v. insp (fa_slug b) = Inr (Some v) \<and> cv_status v = ''running'' \<longrightarrow>
             fst (decide_row insp (observe_agent b)) = Promoted \<and> ag_status (settle_row insp (observe_agent b)) = ''running''))"
proof -
  obtain resp where r: "resp = r" and s: "served env q (db w) resp (db w')" using serve_served[OF assms(1)] by blast
  then have ch: "change q r u (db w) (db w')" and a: "find_fleet u (db w) \<noteq> None"
    using assms(2,3) by (auto simp: served_def)
  from a obtain a where a: "find_fleet u (db w) = Some a" by blast
  from ch show ?thesis
  proof cases
    case (starts cid work user corr i ws)
    obtain b where b: "find_fleet u (db w') = Some b" "started_row cid work a b" using moved_target[OF starts(3) a] by blast
    then show ?thesis using started_row_fields[OF b(2)] starts(2)
      by (auto simp: decide_row_def observe_agent_def seen_state_def seen_running_def Let_def)
  next
    case (stops af mf i)
    obtain b where b: "find_fleet u (db w') = Some b" "stopped_to af mf a b" using moved_target[OF stops(3) a] by blast
    then show ?thesis using stopped_to_fields[OF b(2)] stops(2)
      by (auto simp: decide_row_def observe_agent_def seen_state_def seen_running_def container_absent_def Let_def
          settle_row_def patch_row_def)
  qed (use assms(3) in auto)
qed

section \<open>Witnesses\<close>

definition idle_world :: "fleet_db world" where
  "idle_world = demo_idle demo_box []"

definition running_world :: "fleet_db world" where
  "running_world = demo_idle demo_running [\<lparr>fs_agent = ''a1'', fs_started = 1, fs_estimated = False, fs_stopped = None\<rparr>]"

lemma env_same: "demo_fleet_env\<lparr>fe_akm_key := None\<rparr> = demo_fleet_env"
  by (simp add: demo_fleet_env_def)

lemma idle_start: "\<exists>w'. start_route demo_fleet_env demo_admin None ''a1'' idle_world = (Inr (FStarted ''c1'' []), w')"
  using demo_start[of demo_box None "[]"] by (auto simp: idle_world_def env_same)

lemma demo_find: "find_fleet ''a1'' (db idle_world) = Some demo_box" "find_fleet ''a1'' (db running_world) = Some demo_running"
  by (simp_all add: find_fleet_def idle_world_def running_world_def demo_idle_def demo_box_def demo_running_def)

theorem routes_refine_machine_witness:
  "\<exists>w' :: fleet_db world. life_of ''a1'' (db idle_world) = Down \<and> life_of ''a1'' (db w') = Up
     \<and> life_step (Start demo_admin None ''a1'') (FStarted ''c1'' []) Down Up"
proof -
  obtain w' where s: "serve demo_fleet_env (Start demo_admin None ''a1'') idle_world = (Inr (FStarted ''c1'' []), w')"
    using idle_start by auto
  have d: "life_of ''a1'' (db idle_world) = Down" using demo_find(1) by (simp add: life_of_def demo_box_def)
  have "life_step (Start demo_admin None ''a1'') (FStarted ''c1'' []) Down (life_of ''a1'' (db w'))"
    using routes_refine_machine[OF s] d by (simp add: demo_env_fields)
  moreover from this have "life_of ''a1'' (db w') = Up" by (auto elim: life_step_elims)
  ultimately show ?thesis using d by auto
qed

theorem rows_stay_sound_witness:
  "\<exists>w'. serve demo_fleet_env (Start demo_admin None ''a1'') idle_world = (Inr (FStarted ''c1'' []), w') \<and> rows_sound (db w')"
proof -
  obtain w' where s: "serve demo_fleet_env (Start demo_admin None ''a1'') idle_world = (Inr (FStarted ''c1'' []), w')"
    using idle_start by auto
  have "rows_sound (db idle_world)"
    by (auto simp: rows_sound_def row_sound_def find_fleet_def idle_world_def demo_idle_def demo_box_def)
  from rows_stay_sound[OF s this] show ?thesis using s by blast
qed

theorem start_records_container_witness:
  "\<exists>(b :: fleet_agent) w'. start_route demo_fleet_env demo_admin None ''a1'' idle_world = (Inr (FStarted ''c1'' []), w')
     \<and> find_fleet ''a1'' (db w') = Some b \<and> fa_container b = Some ''c1''"
proof -
  obtain w' where s: "start_route demo_fleet_env demo_admin None ''a1'' idle_world = (Inr (FStarted ''c1'' []), w')"
    using idle_start by auto
  from start_records_container[OF s] obtain u b where "fe_uuid demo_fleet_env ''a1'' = Some u" "find_fleet u (db w') = Some b"
    "fa_container b = Some ''c1''" by blast
  then show ?thesis using s by (auto simp: demo_env_fields)
qed

text \<open>A running agent with a token that is started once more: the old token is nowhere, and there are two open sessions.\<close>

theorem restart_revokes_nothing_witness:
  "\<exists>(b :: fleet_agent) w'. fa_akm_jti demo_running = Some ''old''
     \<and> start_route (demo_fleet_env\<lparr>fe_akm_key := Some ''k''\<rparr>) demo_admin None ''a1'' running_world = (Inr (FStarted ''c1'' []), w')
     \<and> find_fleet ''a1'' (db w') = Some b \<and> fa_akm_jti b = Some ''u'' \<and> fl_akm_revoked (db w') = []
     \<and> length (filter (\<lambda>s. fs_stopped s = None) (fl_sessions (db w'))) = 2"
proof -
  obtain w' t work where s: "start_route (demo_fleet_env\<lparr>fe_akm_key := Some ''k''\<rparr>) demo_admin None ''a1'' running_world = (Inr (FStarted ''c1'' []), w')"
    and a: "fl_agents (db w') = [started_box t work demo_running]" "is_jti t = Some ''u''"
    and o: "filter (\<lambda>s. fs_stopped s = None) (fl_sessions (db w')) = filter (\<lambda>s. fs_stopped s = None)
        [\<lparr>fs_agent = ''a1'', fs_started = 1, fs_estimated = False, fs_stopped = None\<rparr>]
        @ [\<lparr>fs_agent = ''a1'', fs_started = 100, fs_estimated = True, fs_stopped = None\<rparr>]"
    using demo_start[of demo_running "Some ''k''" "[\<lparr>fs_agent = ''a1'', fs_started = 1, fs_estimated = False, fs_stopped = None\<rparr>]"]
    by (auto simp: running_world_def)
  have "find_fleet ''a1'' (db w') = Some (started_box t work demo_running)" "fa_akm_jti (started_box t work demo_running) = Some ''u''"
    using a by (auto simp: find_fleet_def started_box_def running_row_def demo_running_def demo_box_def configured_def)
  moreover have "fl_akm_revoked (db w') = []"
    using restart_revokes_nothing[OF s] by (simp add: running_world_def demo_idle_def demo_fleet_def)
  ultimately show ?thesis using s o by (auto simp: demo_running_def)
qed

definition demo_stopped :: "(exn + fleet_resp) \<times> fleet_db world" where
  "demo_stopped = stop_route (demo_fleet_env\<lparr>fe_akm_key := Some ''k''\<rparr>) ''a1'' running_world"

lemma demo_stopped_ok: "stop_route (demo_fleet_env\<lparr>fe_akm_key := Some ''k''\<rparr>) ''a1'' running_world = (Inr FStopped, snd demo_stopped)"
proof -
  have "fst demo_stopped = Inr FStopped" by code_simp
  then show ?thesis unfolding demo_stopped_def by (metis prod.collapse)
qed

theorem tokens_accounted_for_witness:
  "accounted True (Some ''old'') (fl_akm_revoked (db (snd demo_stopped))) (names fa_akm_jti ''a1'' (db (snd demo_stopped))) ''box'' (db (snd demo_stopped))"
proof -
  let ?env = "demo_fleet_env\<lparr>fe_akm_key := Some ''k''\<rparr>"
  have "akm_due ?env" by code_simp
  then show ?thesis
    using tokens_accounted_for[of ?env "''a1''" running_world "Inr FStopped" "snd demo_stopped" False "''a1''" demo_running]
      demo_stopped_ok demo_find(2) by (simp add: demo_env_fields demo_running_def demo_box_def)
qed

definition demo_deleted :: "(exn + fleet_resp) \<times> fleet_db world" where
  "demo_deleted = delete_route demo_fleet_env False ''a1'' idle_world"

lemma demo_deleted_ok: "delete_route demo_fleet_env False ''a1'' idle_world = (Inr FDeleted, snd demo_deleted)"
proof -
  have "fst demo_deleted = Inr FDeleted" by code_simp
  then show ?thesis unfolding demo_deleted_def by (metis prod.collapse)
qed

theorem delete_leaves_container_witness: "fl_calls (db (snd demo_deleted)) = [] \<and> find_fleet ''a1'' (db (snd demo_deleted)) = None"
  using delete_leaves_container[OF demo_deleted_ok _ demo_find(1)]
  by (simp add: demo_env_fields demo_box_def idle_world_def demo_idle_def demo_fleet_def)

theorem ceiling_never_denies_witness:
  "\<exists>r w'. start_route demo_fleet_env demo_admin None ''a1'' idle_world = (r, w') \<and> r \<noteq> Inr (FStatus 403)"
proof -
  have g: "require_role (fe_client demo_fleet_env) ''admin'' (Some demo_admin) = Next demo_admin" by code_simp
  obtain r w' where s: "start_route demo_fleet_env demo_admin None ''a1'' idle_world = (r, w')" by fastforce
  then show ?thesis using ceiling_never_denies[OF g s] by blast
qed

theorem reconciler_agrees_witness:
  "\<exists>(b :: fleet_agent) (w' :: fleet_db world). find_fleet ''a1'' (db w') = Some b
     \<and> decide_row (\<lambda>_. Inr (Some \<lparr>cv_status = ''running'', cv_id = ''c1'', cv_health = None, cv_finished = None, cv_started = None\<rparr>))
         (observe_agent b) = (Steady, None)"
proof -
  obtain w' where s: "serve demo_fleet_env (Start demo_admin None ''a1'') idle_world = (Inr (FStarted ''c1'' []), w')"
    using idle_start by auto
  have u: "fe_uuid demo_fleet_env (target (Start demo_admin None ''a1'')) = Some ''a1''" by (simp add: demo_env_fields)
  from reconciler_agrees[OF s u] obtain b where b: "find_fleet ''a1'' (db w') = Some b"
    and d: "\<And>insp v. insp (fa_slug b) = Inr (Some v) \<Longrightarrow> cv_status v = ''running'' \<Longrightarrow> decide_row insp (observe_agent b) = (Steady, None)"
    by blast
  show ?thesis by (intro exI[of _ b] exI[of _ w'] conjI b, rule d, rule refl, simp)
qed

end
