(* ===== verification/AgentRows.thy ===== *)
theory AgentRows
  imports Skills AgentLimits
begin

text \<open>
  The statements of the routes that create, change and copy agents (\<open>routes/agents.ts\<close>), and
  the values that go into them: how JavaScript and the Postgres client turn a JSON value into
  text, what a column refuses, the slug of an agent, model policies and assigned skills.
\<close>

section \<open>Values\<close>

text \<open>\<open>String(v)\<close> and \<open>join\<close>; \<open>fmt\<close> prints a number that is not an integer.\<close>

fun js_string :: "(rat \<Rightarrow> string) \<Rightarrow> js \<Rightarrow> string"
  and js_elems :: "(rat \<Rightarrow> string) \<Rightarrow> js list \<Rightarrow> string list" where
  "js_string fmt Undef = ''undefined''"
| "js_string fmt Null = ''null''"
| "js_string fmt (Bool b) = (if b then ''true'' else ''false'')"
| "js_string fmt (Num n) =
     (case n of NaN \<Rightarrow> ''NaN'' | PosInf \<Rightarrow> ''Infinity'' | NegInf \<Rightarrow> ''-Infinity'' | Fin q \<Rightarrow> num_text fmt n)"
| "js_string fmt (Str s) = s"
| "js_string fmt (Arr vs) = join_with '','' (js_elems fmt vs)"
| "js_string fmt (Obj kvs) = ''[object Object]''"
| "js_elems fmt [] = []"
| "js_elems fmt (v # vs) = (if nullish v then [] else js_string fmt v) # js_elems fmt vs"

definition fleet_show :: "fleet_env \<Rightarrow> js \<Rightarrow> string" where
  "fleet_show env v = js_string (tl_fmt (fe_lib env)) v"

text \<open>\<open>[...new Set(vs)]\<close>: an object or an array is only equal to itself.\<close>

fun is_object :: "js \<Rightarrow> bool" where
  "is_object (Arr _) = True"
| "is_object (Obj _) = True"
| "is_object _ = False"

fun js_set_from :: "js list \<Rightarrow> js list \<Rightarrow> js list" where
  "js_set_from seen [] = []"
| "js_set_from seen (v # vs) =
     (if \<not> is_object v \<and> v \<in> set seen then js_set_from seen vs else v # js_set_from (v # seen) vs)"

definition js_set :: "js list \<Rightarrow> js list" where
  "js_set vs = js_set_from [] vs"

text \<open>
  Parameters of a statement: None is NULL. For an integer and a uuid the outer option is
  Postgres refusing the text.
\<close>

definition sql_text :: "fleet_env \<Rightarrow> js \<Rightarrow> string option" where
  "sql_text env v =
     (case v of Undef \<Rightarrow> None | Null \<Rightarrow> None | Arr _ \<Rightarrow> Some (fe_pg env v) | Obj _ \<Rightarrow> Some (fe_pg env v)
      | _ \<Rightarrow> Some (fleet_show env v))"

definition sql_uuid :: "fleet_env \<Rightarrow> js \<Rightarrow> string option option" where
  "sql_uuid env v =
     (case sql_text env v of
        None \<Rightarrow> Some None
      | Some t \<Rightarrow> (case fe_uuid env t of None \<Rightarrow> None | Some u \<Rightarrow> Some (Some u)))"

text \<open>Only null, numbers and values that are no integer reach an integer column.\<close>

definition sql_int :: "js \<Rightarrow> jsnum option option" where
  "sql_int v =
     (case v of Undef \<Rightarrow> Some None | Null \<Rightarrow> Some None
      | Num n \<Rightarrow> if js_isInteger n \<and> \<not> num_lt n (- (2 ^ 31)) \<and> num_lt n (2 ^ 31) then Some (Some n) else None
      | _ \<Rightarrow> None)"

definition text_or :: "fleet_env \<Rightarrow> js \<Rightarrow> string \<Rightarrow> string" where
  "text_or env v deflt = (if truthy v then (case sql_text env v of None \<Rightarrow> deflt | Some s \<Rightarrow> s) else deflt)"

definition keep_text :: "fleet_env \<Rightarrow> js \<Rightarrow> string \<Rightarrow> string" where
  "keep_text env v old = (case sql_text env v of None \<Rightarrow> old | Some s \<Rightarrow> s)"

text \<open>The subject of the caller's token, a non-empty string by \<open>requireAuth\<close>.\<close>

definition caller_sub :: "fleet_env \<Rightarrow> js \<Rightarrow> string" where
  "caller_sub env user = text_or env (js_get user ''sub'') []"

definition caller_name :: "fleet_env \<Rightarrow> js \<Rightarrow> string option" where
  "caller_name env user =
     (if truthy (js_get user ''name'') then sql_text env (js_get user ''name'')
      else if truthy (js_get user ''preferred_username'') then sql_text env (js_get user ''preferred_username'')
      else None)"

text \<open>\<open>/^[a-z0-9][a-z0-9-]{0,61}[a-z0-9]$/\<close> or \<open>/^[a-z0-9]$/\<close>\<close>

definition slug_char :: "char \<Rightarrow> bool" where
  "slug_char c = (let n = of_char c :: int in 97 \<le> n \<and> n \<le> 122 \<or> 48 \<le> n \<and> n \<le> 57)"

definition slug_ok :: "string \<Rightarrow> bool" where
  "slug_ok s =
     (1 \<le> length s \<and> length s \<le> 63 \<and> slug_char (hd s) \<and> slug_char (last s)
      \<and> list_all (\<lambda>c. slug_char c \<or> c = CHR ''-'') s)"

section \<open>Agents\<close>

definition row_fits :: "fleet_agent \<Rightarrow> bool" where
  "row_fits a =
     (varchar_ok 63 (fa_slug a) \<and> varchar_ok 255 (fa_name a) \<and> text_ok (fa_description a)
      \<and> varchar_ok 10 (fa_cpus a) \<and> varchar_ok 10 (fa_mem a) \<and> text_ok (fa_soul a) \<and> text_ok (fa_rules a)
      \<and> varchar_ok 255 (fa_owner a) \<and> (case fa_owner_name a of None \<Rightarrow> True | Some n \<Rightarrow> varchar_ok 255 n))"

definition slug_key :: string where
  "slug_key = ''agents_agent_id_key''"

definition insert_agent :: "fleet_env \<Rightarrow> fleet_agent \<Rightarrow> (fleet_db, fleet_agent) eff" where
  "insert_agent env row = db_query (\<lambda>d.
     let a = row\<lparr>fa_id := fe_new_id env (fl_count d)\<rparr> in
     if \<not> row_fits a then Inl DbFault
     else if fa_id a \<in> set (map fa_id (fl_agents d)) then Inl (UniqueViolation ''agents_pkey'')
     else if fa_slug a \<in> set (map fa_slug (fl_agents d)) then Inl (UniqueViolation slug_key)
     else Inr (a, d\<lparr>fl_agents := fl_agents d @ [a], fl_count := Suc (fl_count d)\<rparr>))"

text \<open>Columns an INSERT leaves at their defaults.\<close>

definition blank_agent :: fleet_agent where
  "blank_agent =
     \<lparr>fa_id = [], fa_slug = [], fa_name = [], fa_description = [], fa_status = ''stopped'', fa_owner = [],
      fa_owner_name = None, fa_cpus = ''1.0'', fa_mem = ''1g'', fa_pids = Fin 200, fa_tools = Merged default_tools_config,
      fa_soul = [], fa_rules = [], fa_profile = None, fa_policy = None, fa_tags = [], fa_env_encrypted = None,
      fa_env_nonce = None, fa_avatar = None, fa_container = None, fa_container_state = None, fa_error = None,
      fa_finished = None, fa_work = None, fa_akm_jti = None, fa_akm_exp = None, fa_mr_jti = None,
      fa_mr_exp = None, fa_mr_hash = None\<rparr>"

section \<open>Model policies\<close>

definition find_policy :: "string \<Rightarrow> fleet_db \<Rightarrow> policy_row option" where
  "find_policy p d = find (\<lambda>x. po_id x = p) (fl_policies d)"

definition select_policy :: "fleet_env \<Rightarrow> js \<Rightarrow> (fleet_db, policy_row option) eff" where
  "select_policy env v = db_query (\<lambda>d.
     case sql_uuid env v of
       None \<Rightarrow> Inl DbFault
     | Some None \<Rightarrow> Inr (None, d)
     | Some (Some p) \<Rightarrow> Inr (find_policy p d, d))"

definition select_policy_id :: "string option \<Rightarrow> (fleet_db, policy_row option) eff" where
  "select_policy_id p = db_read (\<lambda>d. case p of None \<Rightarrow> None | Some x \<Rightarrow> find_policy x d)"

definition default_policy :: "fleet_db \<Rightarrow> string option" where
  "default_policy d = map_option po_id (find (\<lambda>p. po_name p = ''default'' \<and> po_owner p = None) (fl_policies d))"

definition is_auto_agent_models_policy :: "string \<Rightarrow> bool" where
  "is_auto_agent_models_policy description = startsWith description ''[auto-agent-models]''"

definition model_accessible :: "string \<Rightarrow> string option \<Rightarrow> fleet_db \<Rightarrow> bool" where
  "model_accessible owner name d =
     (\<exists>m \<in> set (fl_models d). name = Some (mo_name m) \<and> mo_owner m \<in> {Some owner, None} \<and> mo_active m)"

definition select_model :: "fleet_env \<Rightarrow> string \<Rightarrow> js \<Rightarrow> (fleet_db, bool) eff" where
  "select_model env owner v = db_read (model_accessible owner (sql_text env v))"

fun validate_model_names :: "fleet_env \<Rightarrow> js list \<Rightarrow> string \<Rightarrow> (fleet_db, string option) eff" where
  "validate_model_names env [] owner = ret None"
| "validate_model_names env (v # vs) owner =
     eff_bind (select_model env owner v) (\<lambda>ok.
     if ok then validate_model_names env vs owner
     else ret (Some (''Model '' @ [CHR 0x27] @ fleet_show env v @ [CHR 0x27] @ '' not found in user models for agent owner'')))"

fun inaccessible_models :: "fleet_env \<Rightarrow> js list \<Rightarrow> string \<Rightarrow> (fleet_db, js list) eff" where
  "inaccessible_models env [] owner = ret []"
| "inaccessible_models env (v # vs) owner =
     eff_bind (select_model env owner v) (\<lambda>ok.
     eff_bind (inaccessible_models env vs owner) (\<lambda>bad. ret (if ok then bad else v # bad)))"

definition validate_policy_eligibility :: "fleet_env \<Rightarrow> js \<Rightarrow> string \<Rightarrow> (fleet_db, string option) eff" where
  "validate_policy_eligibility env v owner =
     eff_bind (select_policy env v) (\<lambda>row.
     case row of
       None \<Rightarrow> ret None
     | Some p \<Rightarrow>
         eff_bind (inaccessible_models env (po_models p) owner) (\<lambda>bad.
         if bad \<noteq> []
         then ret (Some (''Policy contains models not accessible to agent owner: '' @
                join_with '', '' (js_elems (tl_fmt (fe_lib env)) bad)))
         else ret None))"

text \<open>The unique index of policies is on the name and \<open>COALESCE(created_by, '__platform__')\<close>.\<close>

definition policy_owner_key :: "string option \<Rightarrow> string" where
  "policy_owner_key owner = (case owner of None \<Rightarrow> ''__platform__'' | Some s \<Rightarrow> s)"

definition insert_policy :: "fleet_env \<Rightarrow> string \<Rightarrow> string \<Rightarrow> js list \<Rightarrow> string \<Rightarrow> (fleet_db, string) eff" where
  "insert_policy env name description models owner = db_query (\<lambda>d.
     let p = \<lparr>po_id = fe_new_id env (fl_count d), po_name = name, po_description = description,
              po_models = models, po_owner = Some owner\<rparr> in
     if po_id p \<in> set (map po_id (fl_policies d)) then Inl (UniqueViolation ''model_policies_pkey'')
     else if (\<exists>q \<in> set (fl_policies d). po_name q = name \<and> policy_owner_key (po_owner q) = owner)
     then Inl (UniqueViolation ''idx_model_policies_name_owner'')
     else Inr (po_id p, d\<lparr>fl_policies := fl_policies d @ [p], fl_count := Suc (fl_count d)\<rparr>))"

definition update_policy :: "string \<Rightarrow> (policy_row \<Rightarrow> policy_row) \<Rightarrow> (fleet_db, unit) eff" where
  "update_policy p f = db_write (\<lambda>d. d\<lparr>fl_policies := map (\<lambda>x. if po_id x = p then f x else x) (fl_policies d)\<rparr>)"

definition auto_policy_name :: "string \<Rightarrow> string" where
  "auto_policy_name u = ''agent-models-'' @ u"

definition upsert_auto_agent_models_policy ::
  "fleet_env \<Rightarrow> string \<Rightarrow> string \<Rightarrow> string \<Rightarrow> js list \<Rightarrow> (fleet_db, string) eff" where
  "upsert_auto_agent_models_policy env u slug owner models =
     eff_bind (db_read (\<lambda>d. find (\<lambda>p. po_name p = auto_policy_name u \<and> po_owner p = Some owner) (fl_policies d))) (\<lambda>row.
     case row of
       Some p \<Rightarrow>
         eff_seq (update_policy (po_id p)
           (\<lambda>x. x\<lparr>po_description := ''[auto-agent-models] '' @ slug, po_models := models\<rparr>))
         (ret (po_id p))
     | None \<Rightarrow> insert_policy env (auto_policy_name u) (''[auto-agent-models] '' @ slug) models owner)"

definition resolve_agent_models :: "string option \<Rightarrow> (fleet_db, js list) eff" where
  "resolve_agent_models p =
     (case p of None \<Rightarrow> ret []
      | Some x \<Rightarrow> eff_bind (select_policy_id (Some x)) (\<lambda>row.
          ret (case row of None \<Rightarrow> [] | Some q \<Rightarrow> po_models q)))"

section \<open>Skills and profiles\<close>

text \<open>\<open>WHERE id = ANY($1::uuid[])\<close>: one element that is no uuid and the statement throws.\<close>

definition uuid_array :: "fleet_env \<Rightarrow> js list \<Rightarrow> string option list option" where
  "uuid_array env vs =
     (let us = map (sql_uuid env) vs in if None \<in> set us then None else Some (map the us))"

definition select_skills :: "fleet_env \<Rightarrow> js list \<Rightarrow> (fleet_db, skill_row list) eff" where
  "select_skills env vs = db_query (\<lambda>d.
     case uuid_array env vs of
       None \<Rightarrow> Inl DbFault
     | Some us \<Rightarrow> Inr (filter (\<lambda>s. Some (sk_id s) \<in> set us) (fl_skills d), d))"

definition select_skills_named :: "fleet_env \<Rightarrow> js list \<Rightarrow> (fleet_db, skill_row list) eff" where
  "select_skills_named env vs = db_read (\<lambda>d.
     filter (\<lambda>s. Some (sk_name s) \<in> set (map (sql_text env) vs)) (fl_skills d))"

text \<open>Both keys of an assignment are foreign keys, the pair is its primary key.\<close>

definition add_assignment :: "string \<Rightarrow> string \<Rightarrow> (fleet_db, unit) eff" where
  "add_assignment u k = db_query (\<lambda>d.
     let x = \<lparr>as_agent = u, as_skill = k\<rparr> in
     if find_skill k d = None \<or> find_fleet u d = None then Inl DbFault
     else if x \<in> set (fl_assigned d) then Inl (UniqueViolation assignments_pk)
     else Inr ((), d\<lparr>fl_assigned := fl_assigned d @ [x]\<rparr>))"

definition add_skill :: "fleet_env \<Rightarrow> string \<Rightarrow> js \<Rightarrow> (fleet_db, unit) eff" where
  "add_skill env u v =
     (case sql_uuid env v of Some (Some k) \<Rightarrow> add_assignment u k | _ \<Rightarrow> db_query (\<lambda>_. Inl DbFault))"

definition clear_skills :: "string \<Rightarrow> (fleet_db, unit) eff" where
  "clear_skills u = db_write (\<lambda>d. d\<lparr>fl_assigned := filter (\<lambda>x. as_agent x \<noteq> u) (fl_assigned d)\<rparr>)"

definition skill_cards :: "string \<Rightarrow> (fleet_db, (string \<times> string \<times> string) list) eff" where
  "skill_cards u = db_read (\<lambda>d. map (\<lambda>s. (sk_id s, sk_name s, sk_scope s)) (skills_of u d))"

definition select_profile_id :: "fleet_env \<Rightarrow> js \<Rightarrow> (fleet_db, string option) eff" where
  "select_profile_id env v = db_query (\<lambda>d.
     case sql_uuid env v of
       None \<Rightarrow> Inl DbFault
     | Some None \<Rightarrow> Inr (None, d)
     | Some (Some p) \<Rightarrow> Inr (map_option pf_id (find (\<lambda>x. pf_id x = p) (fl_profiles d)), d))"

end
