(* ===== verification/AgentCrud.thy ===== *)
theory AgentCrud
  imports AgentRows
begin

text \<open>
  Creating, importing, changing, cloning, reading and exporting agents (\<open>routes/agents.ts\<close>): the
  checks in their order, the transaction around the writes of create, import and update, the
  statements of a clone, which run one by one, and what each answer carries.
\<close>

section \<open>Answers\<close>

text \<open>
  The columns an answer carries, and what the handlers add to them; None where a route leaves
  a field out. The encrypted columns are in none of them.
\<close>

record agent_card =
  ac_id :: string
  ac_slug :: string
  ac_name :: string
  ac_description :: string
  ac_status :: string
  ac_tools :: stored_tools
  ac_cpus :: string
  ac_mem :: string
  ac_pids :: jsnum
  ac_soul :: string
  ac_rules :: string
  ac_container :: "string option"
  ac_policy :: "string option"
  ac_profile :: "string option"
  ac_error :: "string option"
  ac_owner :: string
  ac_tags :: "string list option"
  ac_models :: "js list"
  ac_skills :: "(string \<times> string \<times> string) list"
  ac_env_keys :: "string list option"
  ac_verified :: "bool option"
  ac_state :: "string option option"

datatype crud_resp =
    Refused nat string
  | Answer nat agent_card

definition card_of :: "fleet_agent \<Rightarrow> js list \<Rightarrow> (string \<times> string \<times> string) list \<Rightarrow> agent_card" where
  "card_of a models sks =
     \<lparr>ac_id = fa_id a, ac_slug = fa_slug a, ac_name = fa_name a, ac_description = fa_description a,
      ac_status = fa_status a, ac_tools = fa_tools a, ac_cpus = fa_cpus a, ac_mem = fa_mem a, ac_pids = fa_pids a,
      ac_soul = fa_soul a, ac_rules = fa_rules a, ac_container = fa_container a, ac_policy = fa_policy a,
      ac_profile = fa_profile a, ac_error = fa_error a, ac_owner = fa_owner a, ac_tags = None,
      ac_models = models, ac_skills = sks, ac_env_keys = None, ac_verified = None, ac_state = None\<rparr>"

text \<open>An early answer, or a value to go on with.\<close>

type_synonym 'a step = "(fleet_db, crud_resp + 'a) eff"

definition refuse :: "nat \<Rightarrow> string \<Rightarrow> 'a step" where
  "refuse st msg = ret (Inl (Refused st msg))"

definition proceed :: "'a \<Rightarrow> 'a step" where
  "proceed x = ret (Inr x)"

definition and_then :: "'a step \<Rightarrow> ('a \<Rightarrow> 'b step) \<Rightarrow> 'b step" where
  "and_then m f = eff_bind m (\<lambda>r. case r of Inl x \<Rightarrow> ret (Inl x) | Inr y \<Rightarrow> f y)"

definition ensure :: "bool \<Rightarrow> nat \<Rightarrow> string \<Rightarrow> unit step" where
  "ensure b st msg = (if b then proceed () else refuse st msg)"

definition checked :: "string option \<Rightarrow> unit step" where
  "checked e = (case e of None \<Rightarrow> proceed () | Some msg \<Rightarrow> refuse 400 msg)"

text \<open>The catch of the handlers: a violated unique constraint is 409 where the route says so.\<close>

definition answer_with :: "string option \<Rightarrow> string \<Rightarrow> crud_resp step \<Rightarrow> (fleet_db, crud_resp) eff" where
  "answer_with taken failed m =
     eff_catch (eff_bind m (\<lambda>r. ret (case r of Inl x \<Rightarrow> x | Inr x \<Rightarrow> x)))
       (\<lambda>e. case (e, taken) of
          (UniqueViolation _, Some msg) \<Rightarrow> ret (Refused 409 msg)
        | _ \<Rightarrow> ret (Refused 500 failed))"

definition the_arr :: "js \<Rightarrow> js list" where
  "the_arr v = (case v of Arr vs \<Rightarrow> vs | _ \<Rightarrow> [])"

definition is_arr :: "js \<Rightarrow> bool" where
  "is_arr v = (case v of Arr _ \<Rightarrow> True | _ \<Rightarrow> False)"

section \<open>Checks\<close>

definition if_given :: "js \<Rightarrow> (js \<Rightarrow> string option) \<Rightarrow> string option" where
  "if_given v f = (if truthy v then f v else None)"

definition resources_checked :: "js \<Rightarrow> unit step" where
  "resources_checked body =
     and_then (checked (if_given (js_get body ''cpus'') cpus_validation_error)) (\<lambda>_.
     and_then (checked (if_given (js_get body ''mem_limit'') mem_limit_validation_error)) (\<lambda>_.
     checked (if_given (js_get body ''pids_limit'') pids_limit_validation_error)))"

definition no_legacy_field :: "js \<Rightarrow> unit step" where
  "no_legacy_field body =
     ensure (js_get body ''tool_preset_id'' = Undef) 400 ''tool_preset_id is deprecated. Use skill_ids instead.''"

definition slug_checked :: "fleet_env \<Rightarrow> js \<Rightarrow> unit step" where
  "slug_checked env v =
     ensure (slug_ok (fleet_show env v)) 400 ''agent_id must be a lowercase slug (a-z, 0-9, hyphens, 1-63 chars)''"

definition lists_checked :: "js \<Rightarrow> unit step" where
  "lists_checked body =
     and_then (ensure (js_get body ''skill_ids'' = Undef \<or> is_arr (js_get body ''skill_ids'')) 400 ''skill_ids must be an array'') (\<lambda>_.
     and_then (ensure (js_get body ''model_names'' = Undef \<or> is_arr (js_get body ''model_names'')) 400 ''model_names must be an array'') (\<lambda>_.
     ensure (js_get body ''model_names'' = Undef \<or> js_get body ''model_policy_id'' = Undef) 400
       ''Use either model_names or model_policy_id, not both''))"

text \<open>A policy may be given by its owner or when it is the platform's, and must suit the agent's owner.\<close>

definition policy_checked :: "fleet_env \<Rightarrow> js \<Rightarrow> string \<Rightarrow> js \<Rightarrow> string option step" where
  "policy_checked env user owner v =
     eff_bind (select_policy env v) (\<lambda>row.
     case row of
       None \<Rightarrow> refuse 400 ''Model policy not found''
     | Some p \<Rightarrow>
         and_then (ensure (case po_owner p of None \<Rightarrow> True | Some o' \<Rightarrow> Str o' = js_get user ''sub'') 403
           (''Cannot assign another user'' @ [CHR 0x27] @ ''s policy'')) (\<lambda>_.
         eff_bind (validate_policy_eligibility env v owner) (\<lambda>e.
         and_then (checked e) (\<lambda>_. proceed (Some (po_id p))))))"

definition models_checked :: "fleet_env \<Rightarrow> string \<Rightarrow> js list \<Rightarrow> unit step" where
  "models_checked env owner names = eff_bind (validate_model_names env names owner) checked"

definition profile_checked :: "fleet_env \<Rightarrow> js \<Rightarrow> string option step" where
  "profile_checked env v =
     (if nullish v then proceed None
      else eff_bind (select_profile_id env v) (\<lambda>p.
        case p of None \<Rightarrow> refuse 400 ''Container profile not found'' | Some _ \<Rightarrow> proceed p))"

text \<open>The skills asked for by id: all must exist, and elevated ones are for administrators.\<close>

definition elevated_of :: "skill_row list \<Rightarrow> string option" where
  "elevated_of sks = map_option sk_scope (find (\<lambda>s. is_elevated_scope (sk_scope s)) sks)"

definition skills_checked :: "fleet_env \<Rightarrow> js \<Rightarrow> string \<Rightarrow> js list \<Rightarrow> skill_row list step" where
  "skills_checked env user slug ids =
     eff_bind (select_skills env ids) (\<lambda>sks.
     and_then (ensure (length sks = length ids) 400 ''One or more skills not found'') (\<lambda>_.
     case elevated_of sks of
       Some sc \<Rightarrow>
         if is_admin (fe_client env) user then proceed sks
         else eff_seq (fleet_audit ''skill_assign_denied'' slug sc)
                (refuse 403 (''Assigning '' @ sc @ '' skills requires admin role''))
     | None \<Rightarrow> proceed sks))"

section \<open>Create\<close>

text \<open>The writes of create and import, in one transaction.\<close>

fun add_all :: "('a \<Rightarrow> (fleet_db, unit) eff) \<Rightarrow> 'a list \<Rightarrow> (fleet_db, unit) eff" where
  "add_all f [] = ret ()"
| "add_all f (x # xs) = eff_seq (f x) (add_all f xs)"

definition set_policy :: "string \<Rightarrow> string \<Rightarrow> (fleet_db, unit) eff" where
  "set_policy u p = db_write (change_agent u (\<lambda>a. a\<lparr>fa_policy := Some p\<rparr>))"

definition own_models :: "fleet_env \<Rightarrow> fleet_agent \<Rightarrow> js list \<Rightarrow> (fleet_db, string option \<times> js list) eff" where
  "own_models env a models =
     eff_bind (upsert_auto_agent_models_policy env (fa_id a) (fa_slug a) (fa_owner a) models) (\<lambda>p.
     eff_seq (set_policy (fa_id a) p) (ret (Some p, models)))"

definition kept_models :: "fleet_agent \<Rightarrow> (fleet_db, string option \<times> js list) eff" where
  "kept_models a = eff_bind (resolve_agent_models (fa_policy a)) (\<lambda>ms. ret (fa_policy a, ms))"

text \<open>\<open>COALESCE\<close>\<close>

definition or_else :: "'a option \<Rightarrow> 'a option \<Rightarrow> 'a option" where
  "or_else x y = (case x of None \<Rightarrow> y | Some _ \<Rightarrow> x)"

definition insert_with_default :: "fleet_env \<Rightarrow> fleet_agent \<Rightarrow> (fleet_db, fleet_agent) eff" where
  "insert_with_default env row w =
     insert_agent env (row\<lparr>fa_policy := or_else (fa_policy row) (default_policy (db w))\<rparr>) w"

text \<open>\<open>model_names\<close> as create has them: None when the field is missing.\<close>

definition created_models :: "fleet_env \<Rightarrow> fleet_agent \<Rightarrow> js list option \<Rightarrow> (fleet_db, string option \<times> js list) eff" where
  "created_models env a names =
     (case names of
        None \<Rightarrow> kept_models a
      | Some [] \<Rightarrow> ret (fa_policy a, [])
      | Some ms \<Rightarrow> own_models env a ms)"

definition store_new :: "fleet_env \<Rightarrow> fleet_agent \<Rightarrow> js list option \<Rightarrow> (string \<Rightarrow> (fleet_db, unit) eff) \<Rightarrow> (fleet_db, agent_card) eff" where
  "store_new env row names assign = transaction
     (eff_bind (insert_with_default env row) (\<lambda>a.
      eff_bind (created_models env a names) (\<lambda>(p, ms).
      eff_seq (assign (fa_id a))
      (eff_bind (skill_cards (fa_id a)) (\<lambda>sks.
      ret (card_of (a\<lparr>fa_policy := p\<rparr>) ms sks))))))"

definition new_row :: "fleet_env \<Rightarrow> js \<Rightarrow> js \<Rightarrow> stored_tools \<Rightarrow> string option \<Rightarrow> string option \<Rightarrow> fleet_agent" where
  "new_row env user body tools policy profile = blank_agent
     \<lparr>fa_slug := text_or env (js_get body ''agent_id'') [], fa_name := text_or env (js_get body ''name'') [],
      fa_description := text_or env (js_get body ''description'') [], fa_tools := tools,
      fa_cpus := text_or env (js_get body ''cpus'') ''1.0'', fa_mem := text_or env (js_get body ''mem_limit'') ''1g'',
      fa_pids := (case js_get body ''pids_limit'' of Num n \<Rightarrow> if truthy (Num n) then n else Fin 200 | _ \<Rightarrow> Fin 200),
      fa_soul := text_or env (js_get body ''soul_md'') [], fa_rules := text_or env (js_get body ''rules_md'') [],
      fa_policy := policy, fa_profile := profile, fa_owner := caller_sub env user, fa_owner_name := caller_name env user\<rparr>"

definition given_tools :: "js \<Rightarrow> stored_tools" where
  "given_tools v = (if truthy v then Given v else Merged default_tools_config)"

definition create_agent :: "fleet_env \<Rightarrow> js \<Rightarrow> js \<Rightarrow> (fleet_db, crud_resp) eff" where
  "create_agent env user body = answer_with (Some ''An agent with this agent_id already exists'') ''Failed to create agent''
     (if nullish body then throw (Thrown ''Cannot destructure'')
      else
      let sub = caller_sub env user; slug = js_get body ''agent_id''; ids = js_get body ''skill_ids'';
          names = js_get body ''model_names'' in
      and_then (resources_checked body) (\<lambda>_.
      and_then (no_legacy_field body) (\<lambda>_.
      and_then (ensure (truthy slug \<and> truthy (js_get body ''name'')) 400 ''agent_id and name are required'') (\<lambda>_.
      and_then (slug_checked env slug) (\<lambda>_.
      and_then (lists_checked body) (\<lambda>_.
      and_then (if truthy (js_get body ''model_policy_id'')
                then policy_checked env user sub (js_get body ''model_policy_id'') else proceed None) (\<lambda>policy.
      let wanted = js_set (filter truthy (the_arr names)) in
      and_then (if names = Undef then proceed () else models_checked env sub wanted) (\<lambda>_.
      and_then (profile_checked env (js_get body ''container_profile_id'')) (\<lambda>profile.
      and_then (if the_arr ids = [] then proceed []
                else skills_checked env user (fleet_show env slug) (the_arr ids)) (\<lambda>sks.
      let tools = (if the_arr ids = [] then given_tools (js_get body ''tools_config'')
                   else Merged (merge_tools_configs (map sk_config sks))) in
      eff_bind (store_new env (new_row env user body tools policy profile)
          (if names = Undef then None else Some wanted) (\<lambda>u. add_all (add_skill env u) (the_arr ids))) (\<lambda>c.
      proceed (Answer 201 c))))))))))))"

section \<open>Import\<close>

definition import_agent :: "fleet_env \<Rightarrow> js \<Rightarrow> js \<Rightarrow> (fleet_db, crud_resp) eff" where
  "import_agent env user body = answer_with (Some ''An agent with this agent_id already exists'') ''Failed to import agent''
     (if nullish body then throw (Thrown ''Cannot read properties'')
      else
      let slug = js_get body ''agent_id''; wanted = the_arr (js_get body ''skill_names'');
          models = the_arr (js_get body ''model_names'') in
      and_then (ensure (truthy slug \<and> truthy (js_get body ''name'')) 400 ''Exported config must include agent_id and name'') (\<lambda>_.
      and_then (slug_checked env slug) (\<lambda>_.
      and_then (resources_checked body) (\<lambda>_.
      eff_bind (if wanted = [] then ret [] else select_skills_named env wanted) (\<lambda>sks.
      and_then (ensure (elevated_of sks = None \<or> is_admin (fe_client env) user) 403
        ''Importing agents with elevated-scope skills requires admin role'') (\<lambda>_.
      and_then (models_checked env (caller_sub env user) models) (\<lambda>_.
      eff_bind (if truthy (js_get body ''container_profile_id'')
                then select_profile_id env (js_get body ''container_profile_id'') else ret None) (\<lambda>profile.
      let tools = (if sks = [] then given_tools (js_get body ''tools_config'')
                   else Merged (merge_tools_configs (map sk_config sks))) in
      eff_bind (store_new env (new_row env user body tools None profile)
          (if models = [] then None else Some models) (\<lambda>u. add_all (\<lambda>s. add_assignment u (sk_id s)) sks)) (\<lambda>c.
      proceed (Answer 201 c))))))))))"

end
