(* ===== verification/AgentUpdate.thy ===== *)
theory AgentUpdate
  imports AgentCrud "HOL-Library.List_Lexorder" "HOL-Library.Char_ord"
begin

text \<open>
  Changing an agent (\<open>PUT /agents/:id\<close>) with its encrypted environment variables, cloning it,
  reading it and exporting it (\<open>routes/agents.ts\<close>).
\<close>

section \<open>Environment variables\<close>

definition obj_pairs :: "js \<Rightarrow> (string \<times> js) list" where
  "obj_pairs v = (case v of Obj kvs \<Rightarrow> kvs | _ \<Rightarrow> [])"

text \<open>The names an object may have are kept as they come; only objects are ever stored.\<close>

definition encrypt_env_vars :: "fleet_env \<Rightarrow> (string \<times> js) list \<Rightarrow> nat \<Rightarrow> crypt_error + sealed" where
  "encrypt_env_vars env kvs k =
     (case configured_key (fe_enc_key env) of
        Inl e \<Rightarrow> Inl e
      | Inr hex \<Rightarrow> encrypt_provider_key (fe_cipher env) (js_stringify (tl_fmt (fe_lib env)) (Obj kvs)) hex k)"

definition decrypt_env_vars :: "fleet_env \<Rightarrow> string option \<Rightarrow> string option \<Rightarrow> string + (string \<times> js) list" where
  "decrypt_env_vars env encrypted nonce =
     (case (encrypted, nonce) of
        (Some c, Some n) \<Rightarrow>
          (case configured_key (fe_enc_key env) of
             Inl e \<Rightarrow> Inl (key_text e)
           | Inr hex \<Rightarrow>
               (case decrypt_provider_key (fe_cipher env) c n hex of
                  Inl e \<Rightarrow> Inl (key_text e)
                | Inr t \<Rightarrow> (case json_parse t of None \<Rightarrow> Inl ''SyntaxError'' | Some v \<Rightarrow> Inr (obj_pairs v))))
      | _ \<Rightarrow> Inr [])"

definition env_var_keys :: "(string \<times> js) list \<Rightarrow> string list" where
  "env_var_keys kvs = sort (map fst kvs)"

text \<open>Removals first, then additions: \<open>{...current, ...set}\<close>.\<close>

definition apply_env_delta :: "(string \<times> js) list \<Rightarrow> js list \<Rightarrow> (string \<times> js) list \<Rightarrow> (string \<times> js) list" where
  "apply_env_delta current unset added =
     foldl (\<lambda>m (k, v). js_map_set m k v) (filter (\<lambda>(k, v). Str k \<notin> set unset) current) added"

definition env_checked :: "js \<Rightarrow> unit step" where
  "env_checked body =
     (let added = js_get body ''env_vars_set''; unset = js_get body ''env_vars_unset'' in
      and_then (case added of
          Undef \<Rightarrow> proceed ()
        | Obj kvs \<Rightarrow>
            (case find (\<lambda>(k, v). \<not> is_str v) kvs of
               Some (k, v) \<Rightarrow> refuse 400 (''env_vars_set[\"'' @ k @ ''\"] must be a string'')
             | None \<Rightarrow> proceed ())
        | _ \<Rightarrow> refuse 400 ''env_vars_set must be an object with string key-value pairs'') (\<lambda>_.
      ensure (unset = Undef \<or> is_arr unset \<and> list_all is_str (the_arr unset)) 400
        ''env_vars_unset must be an array of key names''))"

definition tags_checked :: "js \<Rightarrow> unit step" where
  "tags_checked body =
     (let tags = js_get body ''tags'' in
      ensure (tags = Undef \<or> is_arr tags \<and> list_all is_str (the_arr tags)) 400 ''tags must be an array of strings'')"

section \<open>Update\<close>

text \<open>What the update will do about models, decided before the transaction.\<close>

datatype model_plan =
    KeepPolicy
  | SetPolicy "string option"
  | ReusePolicy string "js list"
  | UpsertPolicy "js list"

definition plan_models :: "fleet_env \<Rightarrow> fleet_agent \<Rightarrow> js list \<Rightarrow> model_plan step" where
  "plan_models env a wanted =
     and_then (models_checked env (fa_owner a) wanted) (\<lambda>_.
     if wanted = [] then proceed (SetPolicy None)
     else case fa_policy a of
       None \<Rightarrow> proceed (UpsertPolicy wanted)
     | Some p \<Rightarrow>
         eff_bind (select_policy_id (Some p)) (\<lambda>row.
         case row of
           Some q \<Rightarrow>
             if is_auto_agent_models_policy (po_description q) then proceed (ReusePolicy (po_id q) wanted)
             else proceed (UpsertPolicy wanted)
         | None \<Rightarrow> proceed (UpsertPolicy wanted)))"

text \<open>None: leave \<open>model_policy_id\<close> alone.\<close>

definition run_plan :: "fleet_env \<Rightarrow> fleet_agent \<Rightarrow> model_plan \<Rightarrow> (fleet_db, string option option) eff" where
  "run_plan env a plan =
     (case plan of
        KeepPolicy \<Rightarrow> ret None
      | SetPolicy p \<Rightarrow> ret (Some p)
      | ReusePolicy p ms \<Rightarrow> eff_seq (update_policy p (\<lambda>x. x\<lparr>po_models := ms\<rparr>)) (ret (Some (Some p)))
      | UpsertPolicy ms \<Rightarrow>
          eff_bind (upsert_auto_agent_models_policy env (fa_id a) (fa_slug a) (fa_owner a) ms) (\<lambda>p.
          ret (Some (Some p))))"

text \<open>Callers who are not administrators may not take an elevated skill away by leaving it out.\<close>

definition removal_checked :: "fleet_env \<Rightarrow> js \<Rightarrow> fleet_agent \<Rightarrow> js list \<Rightarrow> unit step" where
  "removal_checked env user a ids =
     (if is_admin (fe_client env) user then proceed ()
      else eff_bind (db_read (skills_of (fa_id a))) (\<lambda>current.
        case elevated_of (filter (\<lambda>s. Str (sk_id s) \<notin> set ids) current) of
          None \<Rightarrow> proceed ()
        | Some sc \<Rightarrow>
            eff_seq (fleet_audit ''skill_remove_denied'' (fa_slug a) sc)
              (refuse 403 (''Cannot remove '' @ sc @ '' skills without admin role''))))"

text \<open>The tools an update stores, None for COALESCE to keep the old ones.\<close>

definition updated_tools :: "fleet_env \<Rightarrow> js \<Rightarrow> js \<Rightarrow> fleet_agent \<Rightarrow> stored_tools option step" where
  "updated_tools env user body a =
     (let given = js_get body ''tools_config''; ids = js_get body ''skill_ids'';
          own = (if truthy given then Some (Given given) else None) in
      if ids = Undef then proceed own
      else and_then (if the_arr ids = [] then proceed own
             else and_then (skills_checked env user (fa_slug a) (the_arr ids)) (\<lambda>sks.
               proceed (Some (Merged (merge_tools_configs (map sk_config sks)))))) (\<lambda>tools.
           and_then (removal_checked env user a (the_arr ids)) (\<lambda>_. proceed tools)))"

definition env_delta :: "fleet_env \<Rightarrow> js \<Rightarrow> fleet_agent \<Rightarrow> ((string \<times> js) list \<times> sealed option) step" where
  "env_delta env body a =
     (let added = js_get body ''env_vars_set''; unset = js_get body ''env_vars_unset'' in
      case decrypt_env_vars env (fa_env_encrypted a) (fa_env_nonce a) of
        Inl why \<Rightarrow> throw (Thrown why)
      | Inr current \<Rightarrow>
          if added = Undef \<and> unset = Undef then proceed (current, None)
          else (let final = apply_env_delta current (the_arr unset) (obj_pairs added) in
            eff_bind (peek fl_count) (\<lambda>k.
            case encrypt_env_vars env final k of
              Inl e \<Rightarrow> throw (Thrown (key_text e))
            | Inr s \<Rightarrow> eff_seq (local_step (\<lambda>d. d\<lparr>fl_count := Suc k\<rparr>)) (proceed (final, Some s)))))"

definition updated_row ::
  "fleet_env \<Rightarrow> js \<Rightarrow> stored_tools option \<Rightarrow> string option option \<Rightarrow> string option option \<Rightarrow> jsnum option \<Rightarrow> sealed option
   \<Rightarrow> fleet_agent \<Rightarrow> fleet_agent" where
  "updated_row env body tools policy profile pids sealed a = a
     \<lparr>fa_name := text_or env (js_get body ''name'') (fa_name a),
      fa_description := keep_text env (js_get body ''description'') (fa_description a),
      fa_tools := (case tools of None \<Rightarrow> fa_tools a | Some t \<Rightarrow> t),
      fa_cpus := text_or env (js_get body ''cpus'') (fa_cpus a),
      fa_mem := text_or env (js_get body ''mem_limit'') (fa_mem a),
      fa_pids := (case pids of None \<Rightarrow> fa_pids a | Some n \<Rightarrow> n),
      fa_soul := keep_text env (js_get body ''soul_md'') (fa_soul a),
      fa_rules := keep_text env (js_get body ''rules_md'') (fa_rules a),
      fa_policy := (case policy of None \<Rightarrow> fa_policy a | Some p \<Rightarrow> p),
      fa_profile := (case profile of None \<Rightarrow> fa_profile a | Some p \<Rightarrow> p),
      fa_tags := (if js_get body ''tags'' = Undef then fa_tags a else map the_str (the_arr (js_get body ''tags''))),
      fa_env_encrypted := (case sealed of None \<Rightarrow> fa_env_encrypted a | Some s \<Rightarrow> Some (fst s)),
      fa_env_nonce := (case sealed of None \<Rightarrow> fa_env_nonce a | Some s \<Rightarrow> Some (snd s))\<rparr>"

definition write_agent :: "string \<Rightarrow> (fleet_agent \<Rightarrow> fleet_agent) \<Rightarrow> (fleet_db, fleet_agent option) eff" where
  "write_agent u f = db_query (\<lambda>d.
     case find_fleet u d of
       None \<Rightarrow> Inr (None, d)
     | Some a \<Rightarrow> if row_fits (f a) then Inr (Some (f a), change_agent u f d) else Inl DbFault)"

definition store_update ::
  "fleet_env \<Rightarrow> js \<Rightarrow> fleet_agent \<Rightarrow> model_plan \<Rightarrow> stored_tools option \<Rightarrow> string option option \<Rightarrow> sealed option
   \<Rightarrow> (fleet_db, fleet_agent) eff" where
  "store_update env body a plan tools profile sealed = transaction
     (eff_bind (run_plan env a plan) (\<lambda>policy.
      eff_bind (case sql_int (js_get body ''pids_limit'') of
                  None \<Rightarrow> db_query (\<lambda>_. Inl DbFault)
                | Some pids \<Rightarrow> write_agent (fa_id a) (updated_row env body tools policy profile pids sealed)) (\<lambda>row.
      case row of
        None \<Rightarrow> throw (Thrown ''Cannot set properties of undefined'')
      | Some b \<Rightarrow>
          (if js_get body ''skill_ids'' = Undef then ret b
           else eff_seq (clear_skills (fa_id a))
             (eff_seq (add_all (add_skill env (fa_id a)) (the_arr (js_get body ''skill_ids''))) (ret b))))))"

definition update_agent :: "fleet_env \<Rightarrow> js \<Rightarrow> string \<Rightarrow> js \<Rightarrow> (fleet_db, crud_resp) eff" where
  "update_agent env user i body = answer_with None ''Failed to update agent''
     (if nullish body then throw (Thrown ''Cannot read properties'')
      else
      let names = js_get body ''model_names''; policy_id = js_get body ''model_policy_id'';
          profile_id = js_get body ''container_profile_id'' in
      and_then (no_legacy_field body) (\<lambda>_.
      eff_bind (select_own_agent env user i) (\<lambda>row.
      case row of
        None \<Rightarrow> refuse 404 ''Agent not found''
      | Some a \<Rightarrow>
          and_then (ensure (fa_status a \<noteq> ''running'') 409 ''Cannot update a running agent. Stop it first.'') (\<lambda>_.
          and_then (env_checked body) (\<lambda>_.
          and_then (tags_checked body) (\<lambda>_.
          and_then (resources_checked body) (\<lambda>_.
          and_then (lists_checked body) (\<lambda>_.
          and_then (if nullish policy_id then proceed None else policy_checked env user (fa_owner a) policy_id) (\<lambda>policy.
          and_then (profile_checked env profile_id) (\<lambda>profile.
          and_then (if names = Undef then proceed (if policy_id = Undef then KeepPolicy else SetPolicy policy)
                    else plan_models env a (js_set (filter truthy (the_arr names)))) (\<lambda>plan.
          and_then (updated_tools env user body a) (\<lambda>tools.
          and_then (env_delta env body a) (\<lambda>(vars, sealed).
          eff_bind (store_update env body a plan tools (if profile_id = Undef then None else Some profile) sealed) (\<lambda>b.
          eff_bind (skill_cards (fa_id a)) (\<lambda>sks.
          eff_bind (resolve_agent_models (fa_policy b)) (\<lambda>ms.
          proceed (Answer 200 ((card_of b ms sks)\<lparr>ac_tags := Some (fa_tags b), ac_env_keys := Some (env_var_keys vars)\<rparr>))))))))))))))))))"

end
