(* ===== verification/AgentCopy.thy ===== *)
theory AgentCopy
  imports AgentUpdate
begin

text \<open>
  Cloning an agent, reading one or all of them, and exporting one (\<open>routes/agents.ts\<close>). A clone's
  statements run one by one, outside a transaction.
\<close>

section \<open>The slug of a clone\<close>

definition clone_base :: "string \<Rightarrow> string" where
  "clone_base slug = slug @ ''-clone''"

definition numbered :: "string \<Rightarrow> nat \<Rightarrow> string" where
  "numbered base n = base @ ''-'' @ decimal n"

lemma numbered_inj: "numbered base m = numbered base n \<Longrightarrow> m = n"
proof -
  assume "numbered base m = numbered base n"
  then have "decimal m = decimal n" by (simp add: numbered_def del: decimal.simps)
  then have "int m = int n" using decimal_val by metis
  then show ?thesis by simp
qed

lemma finite_taken: "finite {m. n \<le> m \<and> numbered base m \<in> set taken}"
proof (rule inj_on_finite[of "numbered base" _ "set taken"])
  show "inj_on (numbered base) {m. n \<le> m \<and> numbered base m \<in> set taken}"
    by (rule inj_onI) (rule numbered_inj)
qed auto

text \<open>\<open>while (taken.has(...)) n++\<close>: each round uses up one of the taken names.\<close>

function free_number :: "string \<Rightarrow> string list \<Rightarrow> nat \<Rightarrow> nat" where
  "free_number base taken n =
     (if numbered base n \<in> set taken then free_number base taken (Suc n) else n)"
  by pat_completeness auto
termination
proof (relation "measure (\<lambda>(base, taken, n). card {m. n \<le> m \<and> numbered base m \<in> set taken})", simp)
  fix base :: string and taken :: "string list" and n
  assume t: "numbered base n \<in> set taken"
  have "{m. Suc n \<le> m \<and> numbered base m \<in> set taken} \<subset> {m. n \<le> m \<and> numbered base m \<in> set taken}"
    using t by (auto simp: psubset_eq set_eq_iff intro!: exI[of _ n])
  then show "((base, taken, Suc n), (base, taken, n)) \<in> measure (\<lambda>(base, taken, n). card {m. n \<le> m \<and> numbered base m \<in> set taken})"
    using psubset_card_mono[OF finite_taken] by simp
qed

declare free_number.simps [simp del]

definition clone_slug :: "string \<Rightarrow> string list \<Rightarrow> string" where
  "clone_slug slug taken =
     (if clone_base slug \<in> set taken
      then numbered (clone_base slug) (free_number (clone_base slug) taken 2)
      else clone_base slug)"

lemma free_number_free: "numbered base (free_number base taken n) \<notin> set taken"
  by (induction base taken n rule: free_number.induct) (subst free_number.simps, simp)

lemma clone_slug_free: "clone_slug slug taken \<notin> set taken"
  by (auto simp: clone_slug_def free_number_free)

section \<open>Clone\<close>

definition cloned_policy :: "js \<Rightarrow> fleet_agent \<Rightarrow> (fleet_db, string option) eff" where
  "cloned_policy user src =
     (case fa_policy src of
        None \<Rightarrow> ret None
      | Some p \<Rightarrow>
          eff_bind (select_policy_id (Some p)) (\<lambda>row.
          ret (case row of
             None \<Rightarrow> None
           | Some q \<Rightarrow>
               if is_auto_agent_models_policy (po_description q) then None
               else if (case po_owner q of None \<Rightarrow> False | Some o' \<Rightarrow> Str o' \<noteq> js_get user ''sub'') then None
               else Some p)))"

definition cloned_row :: "fleet_env \<Rightarrow> js \<Rightarrow> js \<Rightarrow> fleet_agent \<Rightarrow> string \<Rightarrow> string option \<Rightarrow> fleet_agent" where
  "cloned_row env user body src slug policy = blank_agent
     \<lparr>fa_slug := slug, fa_name := text_or env (js_get body ''name'') (fa_name src @ '' (Clone)''),
      fa_description := fa_description src, fa_tools := fa_tools src, fa_cpus := fa_cpus src, fa_mem := fa_mem src,
      fa_pids := fa_pids src, fa_soul := fa_soul src, fa_rules := fa_rules src, fa_policy := policy,
      fa_profile := fa_profile src, fa_owner := caller_sub env user, fa_owner_name := caller_name env user\<rparr>"

definition cloned_models :: "fleet_env \<Rightarrow> fleet_agent \<Rightarrow> string option \<Rightarrow> fleet_agent \<Rightarrow> (fleet_db, string option \<times> js list) eff" where
  "cloned_models env src policy c =
     (if fa_policy src \<noteq> None \<and> policy = None
      then eff_bind (resolve_agent_models (fa_policy src)) (\<lambda>ms.
        if ms \<noteq> [] then own_models env c ms else kept_models c)
      else kept_models c)"

definition clone_agent :: "fleet_env \<Rightarrow> js \<Rightarrow> string \<Rightarrow> js \<Rightarrow> (fleet_db, crud_resp) eff" where
  "clone_agent env user i body =
     answer_with (Some (''Clone slug already exists '' @ em_dash @ '' try again'')) ''Failed to clone agent''
     (eff_bind (select_agent env i) (\<lambda>row.
      case row of
        None \<Rightarrow> refuse 404 ''Agent not found''
      | Some src \<Rightarrow>
          eff_bind (db_read (\<lambda>d. filter (\<lambda>s. startsWith s (clone_base (fa_slug src))) (map fa_slug (fl_agents d)))) (\<lambda>taken.
          if nullish body then throw (Thrown ''Cannot read properties'')
          else
          eff_bind (cloned_policy user src) (\<lambda>policy.
          eff_bind (insert_with_default env (cloned_row env user body src (clone_slug (fa_slug src) taken) policy)) (\<lambda>c.
          eff_bind (db_read (\<lambda>d. map as_skill (filter (\<lambda>x. as_agent x = fa_id src) (fl_assigned d)))) (\<lambda>ks.
          eff_seq (add_all (add_assignment (fa_id c)) ks)
          (eff_bind (cloned_models env src policy c) (\<lambda>(p, ms).
          eff_bind (skill_cards (fa_id c)) (\<lambda>sks.
          proceed (Answer 201 (card_of (c\<lparr>fa_policy := p\<rparr>) ms sks)))))))))))"

section \<open>Reading\<close>

text \<open>What the reconciler has not confirmed is shown as unknown, and without its container state.\<close>

definition shown_status :: "fleet_db \<Rightarrow> fleet_agent \<Rightarrow> agent_card \<Rightarrow> agent_card" where
  "shown_status d a c =
     (let ok = is_status_verified (observe d) (fa_slug a) in
      c\<lparr>ac_status := reported_status (observe d) (fa_slug a) (fa_status a), ac_verified := Some ok,
        ac_state := Some (if ok then fa_container_state a else None)\<rparr>)"

definition policy_models :: "string option \<Rightarrow> fleet_db \<Rightarrow> js list" where
  "policy_models p d =
     (case p of None \<Rightarrow> [] | Some x \<Rightarrow> (case find_policy x d of None \<Rightarrow> [] | Some q \<Rightarrow> po_models q))"

text \<open>The row with the models its join brings along.\<close>

definition select_visible :: "fleet_env \<Rightarrow> js \<Rightarrow> string \<Rightarrow> (fleet_db, (fleet_agent \<times> js list) option) eff" where
  "select_visible env user i = fleet_query env i (\<lambda>u d.
     (map_option (\<lambda>a. (a, policy_models (fa_policy a) d))
        (find (\<lambda>a. fa_id a = u \<and> agent_visible env user a) (fl_agents d)), d))"

definition get_agent :: "fleet_env \<Rightarrow> js \<Rightarrow> string \<Rightarrow> (fleet_db, crud_resp) eff" where
  "get_agent env user i = answer_with None ''Failed to get agent''
     (eff_bind (select_visible env user i) (\<lambda>row.
      case row of
        None \<Rightarrow> refuse 404 ''Agent not found''
      | Some (a, ms) \<Rightarrow>
          (case decrypt_env_vars env (fa_env_encrypted a) (fa_env_nonce a) of
             Inl why \<Rightarrow> throw (Thrown why)
           | Inr vars \<Rightarrow>
               eff_bind (peek id) (\<lambda>d.
               eff_bind (skill_cards (fa_id a)) (\<lambda>sks.
               proceed (Answer 200 (shown_status d a
                 ((card_of a ms sks)\<lparr>ac_tags := Some (fa_tags a), ac_env_keys := Some (env_var_keys vars)\<rparr>))))))))"

text \<open>The newest first; the list leaves SOUL, RULES, container and error out.\<close>

definition list_card :: "fleet_db \<Rightarrow> fleet_agent \<Rightarrow> agent_card" where
  "list_card d a = shown_status d a
     ((card_of a (policy_models (fa_policy a) d)
        (map (\<lambda>s. (sk_id s, sk_name s, sk_scope s)) (skills_of (fa_id a) d)))
      \<lparr>ac_soul := [], ac_rules := [], ac_container := None, ac_error := None, ac_tags := Some (fa_tags a)\<rparr>)"

definition list_agents :: "fleet_env \<Rightarrow> js \<Rightarrow> (fleet_db, crud_resp + agent_card list) eff" where
  "list_agents env user =
     eff_catch (eff_bind (db_read id) (\<lambda>d.
        ret (Inr (map (list_card d) (rev (filter (agent_visible env user) (fl_agents d)))))))
       (\<lambda>_. ret (Inl (Refused 500 ''Failed to list agents'')))"

section \<open>Export\<close>

definition str_list :: "string list \<Rightarrow> js" where
  "str_list ss = Arr (map Str ss)"

definition config_json :: "tools_config \<Rightarrow> js" where
  "config_json c = Obj
     [(''shell'', Obj [(''enabled'', Bool (sc_enabled (tc_shell c))), (''allowed_binaries'', str_list (sc_allowed (tc_shell c))),
        (''denied_patterns'', str_list (sc_denied (tc_shell c))), (''max_timeout'', Num (sc_timeout (tc_shell c)))]),
      (''filesystem'', Obj [(''enabled'', Bool (fs_enabled (tc_fs c))), (''read_only'', Bool (fs_read_only (tc_fs c))),
        (''allowed_paths'', str_list (fs_allowed (tc_fs c))), (''denied_paths'', str_list (fs_denied (tc_fs c)))]),
      (''health'', Obj [(''enabled'', Bool (tc_health c))])]"

fun tools_json :: "stored_tools \<Rightarrow> js" where
  "tools_json (Merged c) = config_json c"
| "tools_json (Given v) = v"

definition export_json :: "fleet_env \<Rightarrow> fleet_agent \<Rightarrow> js list \<Rightarrow> string list \<Rightarrow> js" where
  "export_json env a models skill_names = Obj
     [(''_version'', Num (Fin 1)), (''_exported_at'', Str (fe_iso env)), (''agent_id'', Str (fa_slug a)),
      (''name'', Str (fa_name a)), (''description'', Str (fa_description a)), (''tools_config'', tools_json (fa_tools a)),
      (''cpus'', Str (fa_cpus a)), (''mem_limit'', Str (fa_mem a)), (''pids_limit'', Num (fa_pids a)),
      (''soul_md'', Str (fa_soul a)), (''rules_md'', Str (fa_rules a)), (''model_names'', Arr models),
      (''skill_names'', str_list skill_names),
      (''container_profile_id'', case fa_profile a of None \<Rightarrow> Null | Some p \<Rightarrow> Str p)]"

definition export_agent :: "fleet_env \<Rightarrow> js \<Rightarrow> string \<Rightarrow> (fleet_db, crud_resp + js) eff" where
  "export_agent env user i =
     eff_catch (eff_bind (select_visible env user i) (\<lambda>row.
        case row of
          None \<Rightarrow> ret (Inl (Refused 404 ''Agent not found''))
        | Some (a, ms) \<Rightarrow>
            eff_bind (skill_cards (fa_id a)) (\<lambda>sks.
            ret (Inr (export_json env a ms (map (\<lambda>(k, n, sc). n) sks))))))
       (\<lambda>_. ret (Inl (Refused 500 ''Failed to export agent'')))"

end
