(* ===== verification/CrudFrame.thy ===== *)
theory CrudFrame
  imports AgentCopy
begin

text \<open>
  How the agent routes are argued about: a check reads, and either answers or hands on what it
  found; until the transaction nothing but the audit log and the drawn numbers can change.
  \<open>leaves\<close> is the triple for such a step, with one rule per combinator and one lemma per check.
\<close>

section \<open>Steps that answer or go on\<close>

definition untouched :: "fleet_db \<Rightarrow> fleet_db \<Rightarrow> bool" where
  "untouched d0 d = (d = d0\<lparr>fl_audit := fl_audit d, fl_count := fl_count d\<rparr>)"

lemma untouched_refl [simp, intro]: "untouched d d"
  by (simp add: untouched_def)

lemma untouched_fields:
  assumes "untouched d d'"
  shows "fl_agents d' = fl_agents d" "fl_policies d' = fl_policies d" "fl_assigned d' = fl_assigned d"
    "fl_skills d' = fl_skills d" "fl_models d' = fl_models d" "fl_webhooks d' = fl_webhooks d"
proof -
  have e: "d' = d\<lparr>fl_audit := fl_audit d', fl_count := fl_count d'\<rparr>" using assms by (simp add: untouched_def)
  show "fl_agents d' = fl_agents d" by (subst e) simp
  show "fl_policies d' = fl_policies d" by (subst e) simp
  show "fl_assigned d' = fl_assigned d" by (subst e) simp
  show "fl_skills d' = fl_skills d" by (subst e) simp
  show "fl_models d' = fl_models d" by (subst e) simp
  show "fl_webhooks d' = fl_webhooks d" by (subst e) simp
qed

text \<open>\<open>ends\<close> is the general form: \<open>E\<close> holds of the database when the step throws.\<close>

definition ends :: "fleet_db \<Rightarrow> 'a step \<Rightarrow> ('a \<Rightarrow> fleet_db \<Rightarrow> bool) \<Rightarrow> (fleet_db \<Rightarrow> bool) \<Rightarrow> bool" where
  "ends d0 m W E = holds (\<lambda>d. d = d0) m
     (\<lambda>r d. case r of Inl x \<Rightarrow> (\<exists>st msg. x = Refused st msg) \<and> untouched d0 d | Inr y \<Rightarrow> W y d) E"

definition leaves :: "fleet_db \<Rightarrow> 'a step \<Rightarrow> ('a \<Rightarrow> fleet_db \<Rightarrow> bool) \<Rightarrow> bool" where
  "leaves d0 m W = holds (\<lambda>d. d = d0) m
     (\<lambda>r d. case r of Inl x \<Rightarrow> (\<exists>st msg. x = Refused st msg) \<and> untouched d0 d | Inr y \<Rightarrow> W y d) (untouched d0)"

lemma leaves_ends: "leaves d0 m W = ends d0 m W (untouched d0)"
  by (simp add: leaves_def ends_def)

definition looks :: "fleet_db \<Rightarrow> (fleet_db, 'a) eff \<Rightarrow> ('a \<Rightarrow> bool) \<Rightarrow> bool" where
  "looks d0 m G = holds (\<lambda>d. d = d0) m (\<lambda>x d. d = d0 \<and> G x) (untouched d0)"

abbreviation passes :: "fleet_db \<Rightarrow> 'a step \<Rightarrow> ('a \<Rightarrow> bool) \<Rightarrow> bool" where
  "passes d0 m G \<equiv> leaves d0 m (\<lambda>y d. d = d0 \<and> G y)"

named_theorems step_rules \<open>rules for the steps of a handler\<close>

lemma ends_then:
  assumes "passes d0 m G" and "\<And>y. G y \<Longrightarrow> ends d0 (f y) W E" and "\<And>d. untouched d0 d \<Longrightarrow> E d"
  shows "ends d0 (and_then m f) W E"
  unfolding ends_def and_then_def
proof (rule holds_bind)
  show "holds (\<lambda>d. d = d0) m (\<lambda>r d. case r of Inl x \<Rightarrow> (\<exists>st msg. x = Refused st msg) \<and> untouched d0 d | Inr y \<Rightarrow> d = d0 \<and> G y) E"
    using assms(1)[unfolded leaves_def] by (rule holds_conseq) (auto intro: assms(3))
  fix r
  show "holds (\<lambda>d. case r of Inl x \<Rightarrow> (\<exists>st msg. x = Refused st msg) \<and> untouched d0 d | Inr y \<Rightarrow> d = d0 \<and> G y)
      (case r of Inl x \<Rightarrow> ret (Inl x) | Inr y \<Rightarrow> f y)
      (\<lambda>r d. case r of Inl x \<Rightarrow> (\<exists>st msg. x = Refused st msg) \<and> untouched d0 d | Inr y \<Rightarrow> W y d) E"
  proof (cases r)
    case (Inl x)
    then show ?thesis by (auto intro: holds_ret)
  next
    case (Inr y)
    then show ?thesis using assms(2)[of y] by (cases "G y") (auto simp: ends_def holds_def)
  qed
qed

lemma leaves_then [step_rules]:
  "passes d0 m G \<Longrightarrow> (\<And>y. G y \<Longrightarrow> leaves d0 (f y) W) \<Longrightarrow> leaves d0 (and_then m f) W"
  unfolding leaves_ends[of _ _ W] by (rule ends_then[of d0 m G]) auto

lemma ends_bind:
  assumes "looks d0 m G" and "\<And>y. G y \<Longrightarrow> ends d0 (f y) W E" and "\<And>d. untouched d0 d \<Longrightarrow> E d"
  shows "ends d0 (eff_bind m f) W E"
  unfolding ends_def
proof (rule holds_bind)
  show "holds (\<lambda>d. d = d0) m (\<lambda>y d. d = d0 \<and> G y) E"
    using assms(1)[unfolded looks_def] by (rule holds_conseq) (auto intro: assms(3))
  show "holds (\<lambda>d. d = d0 \<and> G y) (f y)
      (\<lambda>r d. case r of Inl x \<Rightarrow> (\<exists>st msg. x = Refused st msg) \<and> untouched d0 d | Inr y \<Rightarrow> W y d) E" for y
    using assms(2)[of y] by (cases "G y") (auto simp: ends_def holds_def)
qed

lemma leaves_bind [step_rules]:
  "looks d0 m G \<Longrightarrow> (\<And>y. G y \<Longrightarrow> leaves d0 (f y) W) \<Longrightarrow> leaves d0 (eff_bind m f) W"
  unfolding leaves_ends[of _ _ W] by (rule ends_bind[of d0 m G]) auto

lemma ends_if: "(b \<Longrightarrow> ends d0 m W E) \<Longrightarrow> (\<not> b \<Longrightarrow> ends d0 n W E) \<Longrightarrow> ends d0 (if b then m else n) W E"
  by simp

lemma ends_refuse: "ends d0 (refuse st msg) W E"
  unfolding ends_def refuse_def by (rule holds_ret) auto

lemma ends_throw: "E d0 \<Longrightarrow> ends d0 (throw e) W E"
  unfolding ends_def by (rule holds_throw) simp

lemma leaves_proceed: "W x d0 \<Longrightarrow> leaves d0 (proceed x) W"
  unfolding leaves_def proceed_def by (rule holds_ret) simp

lemma leaves_refuse [step_rules]: "leaves d0 (refuse st msg) W"
  unfolding leaves_def refuse_def by (rule holds_ret) auto

lemma leaves_throw [step_rules]: "leaves d0 (throw e) W"
  unfolding leaves_def by (rule holds_throw) simp

lemma passes_proceed [step_rules]: "passes d0 (proceed x) ((=) x)"
  by (rule leaves_proceed) simp

lemma passes_ensure [step_rules]: "passes d0 (ensure b st msg) (\<lambda>_. b)"
  by (auto simp: ensure_def intro: leaves_proceed leaves_refuse)

lemma passes_checked [step_rules]: "passes d0 (checked e) (\<lambda>_. e = None)"
  by (cases e) (auto simp: checked_def intro: leaves_proceed leaves_refuse)

lemma passes_weaken: "passes d0 m G \<Longrightarrow> (\<And>y. G y \<Longrightarrow> H y) \<Longrightarrow> passes d0 m H"
  unfolding leaves_def by (erule holds_conseq) (auto split: sum.splits)

lemma leaves_if: "(b \<Longrightarrow> leaves d0 m W) \<Longrightarrow> (\<not> b \<Longrightarrow> leaves d0 n W) \<Longrightarrow> leaves d0 (if b then m else n) W"
  by simp

lemma looks_weaken: "looks d0 m G \<Longrightarrow> (\<And>y. G y \<Longrightarrow> H y) \<Longrightarrow> looks d0 m H"
  unfolding looks_def by (erule holds_conseq) auto

lemma looks_ret [step_rules]: "looks d0 (ret x) ((=) x)"
  unfolding looks_def by (rule holds_ret) simp

lemma looks_read [step_rules]: "looks d0 (db_read f) ((=) (f d0))"
  unfolding looks_def by (rule holds_read) auto

lemma looks_peek [step_rules]: "looks d0 (peek f) ((=) (f d0))"
  unfolding looks_def by (rule holds_peek) auto

lemma looks_query:
  "(\<And>x d'. q d0 = Inr (x, d') \<Longrightarrow> d' = d0 \<and> G x) \<Longrightarrow> looks d0 (db_query q) G"
  unfolding looks_def by (rule holds_query) auto

lemma looks_bind [step_rules]:
  assumes "looks d0 m G" and "\<And>y. G y \<Longrightarrow> looks d0 (f y) H"
  shows "looks d0 (eff_bind m f) H"
  unfolding looks_def
proof (rule holds_bind[OF assms(1)[unfolded looks_def]])
  fix y show "holds (\<lambda>d. d = d0 \<and> G y) (f y) (\<lambda>x d. d = d0 \<and> H x) (untouched d0)"
    using assms(2)[of y] by (cases "G y") (auto simp: looks_def holds_def)
qed

section \<open>What the checks find out\<close>

lemma resources_pass: "passes d0 (resources_checked body)
   (\<lambda>_. if_given (js_get body ''cpus'') cpus_validation_error = None
      \<and> if_given (js_get body ''mem_limit'') mem_limit_validation_error = None
      \<and> if_given (js_get body ''pids_limit'') pids_limit_validation_error = None)"
  unfolding resources_checked_def
  by (rule leaves_then[OF passes_checked], rule leaves_then[OF passes_checked], rule passes_weaken[OF passes_checked]) simp

lemma lists_pass: "passes d0 (lists_checked body)
   (\<lambda>_. (js_get body ''skill_ids'' = Undef \<or> is_arr (js_get body ''skill_ids''))
      \<and> (js_get body ''model_names'' = Undef \<or> is_arr (js_get body ''model_names''))
      \<and> (js_get body ''model_names'' = Undef \<or> js_get body ''model_policy_id'' = Undef))"
  unfolding lists_checked_def
  by (rule leaves_then[OF passes_ensure], rule leaves_then[OF passes_ensure], rule passes_weaken[OF passes_ensure]) simp

lemma legacy_pass: "passes d0 (no_legacy_field body) (\<lambda>_. True)"
  unfolding no_legacy_field_def by (rule passes_weaken[OF passes_ensure]) simp

lemma slug_pass: "passes d0 (slug_checked env v) (\<lambda>_. slug_ok (fleet_show env v))"
  unfolding slug_checked_def by (rule passes_ensure)

text \<open>Models an owner may use.\<close>

lemma looks_select_model: "looks d0 (select_model env owner v) ((=) (model_accessible owner (sql_text env v) d0))"
  unfolding select_model_def by (rule looks_read)

lemma looks_model_names:
  "looks d0 (validate_model_names env vs owner)
     (\<lambda>e. e = None \<longrightarrow> (\<forall>v \<in> set vs. model_accessible owner (sql_text env v) d0))"
proof (induction vs)
  case Nil
  show ?case by (simp, rule looks_weaken[OF looks_ret]) simp
next
  case (Cons v vs)
  show ?case unfolding validate_model_names.simps
  proof (rule looks_bind[OF looks_select_model])
    fix ok assume ok: "model_accessible owner (sql_text env v) d0 = ok"
    show "looks d0 (if ok then validate_model_names env vs owner else ret (Some (''Model '' @ [CHR 0x27] @ fleet_show env v @
        [CHR 0x27] @ '' not found in user models for agent owner'')))
        (\<lambda>e. e = None \<longrightarrow> (\<forall>x \<in> set (v # vs). model_accessible owner (sql_text env x) d0))"
      using Cons ok by (cases ok) (auto intro: looks_weaken looks_weaken[OF looks_ret])
  qed
qed

lemma looks_inaccessible:
  "looks d0 (inaccessible_models env vs owner) ((=) (filter (\<lambda>v. \<not> model_accessible owner (sql_text env v) d0) vs))"
proof (induction vs)
  case Nil
  show ?case using looks_ret[of d0 "[]"] by simp
next
  case (Cons v vs)
  show ?case unfolding inaccessible_models.simps
    by (rule looks_bind[OF looks_select_model], rule looks_bind[OF Cons], rule looks_weaken[OF looks_ret]) auto
qed

lemma looks_select_policy:
  "looks d0 (select_policy env v) (\<lambda>row. \<forall>p. row = Some p \<longrightarrow> p \<in> set (fl_policies d0) \<and> find_policy (po_id p) d0 = Some p
     \<and> sql_uuid env v = Some (Some (po_id p)))"
  unfolding select_policy_def
  by (rule looks_query) (auto simp: find_policy_def find_Some_iff split: option.splits)

definition usable_policy :: "fleet_env \<Rightarrow> js \<Rightarrow> string \<Rightarrow> policy_row \<Rightarrow> fleet_db \<Rightarrow> bool" where
  "usable_policy env user owner p d =
     ((case po_owner p of None \<Rightarrow> True | Some o' \<Rightarrow> Str o' = js_get user ''sub'')
      \<and> (\<forall>v \<in> set (po_models p). model_accessible owner (sql_text env v) d))"

lemma looks_eligibility:
  assumes "sql_uuid env v = Some (Some (po_id p))" "find_policy (po_id p) d0 = Some p"
  shows "looks d0 (validate_policy_eligibility env v owner)
     (\<lambda>e. e = None \<longrightarrow> (\<forall>m \<in> set (po_models p). model_accessible owner (sql_text env m) d0))"
  unfolding validate_policy_eligibility_def
proof (rule looks_bind[where G = "(=) (Some p)"])
  show "looks d0 (select_policy env v) ((=) (Some p))"
    unfolding select_policy_def by (rule looks_query) (use assms in auto)
  fix row assume "Some p = row"
  then have row: "row = Some p" by simp
  show "looks d0 (case row of None \<Rightarrow> ret None
     | Some p \<Rightarrow> eff_bind (inaccessible_models env (po_models p) owner) (\<lambda>bad.
         if bad \<noteq> []
         then ret (Some (''Policy contains models not accessible to agent owner: '' @ join_with '', '' (js_elems (tl_fmt (fe_lib env)) bad)))
         else ret None))
     (\<lambda>e. e = None \<longrightarrow> (\<forall>m \<in> set (po_models p). model_accessible owner (sql_text env m) d0))"
    unfolding row option.case
  proof (rule looks_bind[OF looks_inaccessible])
    fix bad assume bad: "filter (\<lambda>v. \<not> model_accessible owner (sql_text env v) d0) (po_models p) = bad"
    show "looks d0 (if bad \<noteq> [] then ret (Some (''Policy contains models not accessible to agent owner: '' @
          join_with '', '' (js_elems (tl_fmt (fe_lib env)) bad))) else ret None)
        (\<lambda>e. e = None \<longrightarrow> (\<forall>m \<in> set (po_models p). model_accessible owner (sql_text env m) d0))"
      using bad by (cases "bad = []") (auto simp: filter_empty_conv intro: looks_weaken[OF looks_ret])
  qed
qed

lemma policy_pass: "passes d0 (policy_checked env user owner v)
   (\<lambda>r. \<exists>p. r = Some (po_id p) \<and> p \<in> set (fl_policies d0) \<and> usable_policy env user owner p d0)"
  unfolding policy_checked_def
proof (rule leaves_bind[OF looks_select_policy])
  fix row
  assume row: "\<forall>p. row = Some p \<longrightarrow> p \<in> set (fl_policies d0) \<and> find_policy (po_id p) d0 = Some p
     \<and> sql_uuid env v = Some (Some (po_id p))"
  show "passes d0 (case row of None \<Rightarrow> refuse 400 ''Model policy not found''
     | Some p \<Rightarrow> and_then (ensure (case po_owner p of None \<Rightarrow> True | Some o' \<Rightarrow> Str o' = js_get user ''sub'') 403
           (''Cannot assign another user'' @ [CHR 0x27] @ ''s policy'')) (\<lambda>_.
         eff_bind (validate_policy_eligibility env v owner) (\<lambda>e. and_then (checked e) (\<lambda>_. proceed (Some (po_id p))))))
     (\<lambda>r. \<exists>p. r = Some (po_id p) \<and> p \<in> set (fl_policies d0) \<and> usable_policy env user owner p d0)"
  proof (cases row)
    case None
    then show ?thesis by (simp add: leaves_refuse)
  next
    case (Some p)
    then have p: "p \<in> set (fl_policies d0)" "find_policy (po_id p) d0 = Some p" "sql_uuid env v = Some (Some (po_id p))"
      using row by auto
    show ?thesis unfolding Some option.case
      by (rule leaves_then[OF passes_ensure], rule leaves_bind[OF looks_eligibility[OF p(3,2)]],
          rule leaves_then[OF passes_checked], rule leaves_proceed) (use p(1) in \<open>auto simp: usable_policy_def\<close>)
  qed
qed

lemma models_pass: "passes d0 (models_checked env owner vs) (\<lambda>_. \<forall>v \<in> set vs. model_accessible owner (sql_text env v) d0)"
  unfolding models_checked_def
  by (rule leaves_bind[OF looks_model_names], rule passes_weaken[OF passes_checked]) auto

lemma looks_profile_id: "looks d0 (select_profile_id env v) (\<lambda>p. \<forall>x. p = Some x \<longrightarrow> x \<in> set (map pf_id (fl_profiles d0)))"
  unfolding select_profile_id_def
  by (rule looks_query) (auto simp: find_Some_iff split: option.splits)

lemma profile_pass: "passes d0 (profile_checked env v) (\<lambda>p. \<forall>x. p = Some x \<longrightarrow> x \<in> set (map pf_id (fl_profiles d0)))"
  unfolding profile_checked_def
proof (rule leaves_if)
  assume "nullish v"
  show "passes d0 (proceed None) (\<lambda>p. \<forall>x. p = Some x \<longrightarrow> x \<in> set (map pf_id (fl_profiles d0)))" by (rule leaves_proceed) simp
next
  show "passes d0 (eff_bind (select_profile_id env v) (\<lambda>p. case p of None \<Rightarrow> refuse 400 ''Container profile not found'' | Some _ \<Rightarrow> proceed p))
      (\<lambda>p. \<forall>x. p = Some x \<longrightarrow> x \<in> set (map pf_id (fl_profiles d0)))"
    by (rule leaves_bind[OF looks_profile_id]) (auto intro!: leaves_refuse leaves_proceed split: option.split)
qed

lemma looks_select_skills:
  "looks d0 (select_skills env ids) (\<lambda>sks. \<exists>us. uuid_array env ids = Some us \<and>
     sks = filter (\<lambda>s. Some (sk_id s) \<in> set us) (fl_skills d0))"
  unfolding select_skills_def by (rule looks_query) (auto split: option.splits)

lemma leaves_denied: "leaves d0 (eff_seq (fleet_audit act slug what) (refuse st msg)) W"
  unfolding leaves_def fleet_audit_def refuse_def
  by (rule holds_seq[where R = "\<lambda>_. untouched d0"]) (auto simp: untouched_def intro!: holds_local holds_ret)

lemma elevated_of_None: "elevated_of sks = None \<longleftrightarrow> (\<forall>s \<in> set sks. \<not> is_elevated_scope (sk_scope s))"
  by (auto simp: elevated_of_def find_None_iff)

definition assignable :: "fleet_env \<Rightarrow> js \<Rightarrow> skill_row list \<Rightarrow> bool" where
  "assignable env user sks = (is_admin (fe_client env) user \<or> (\<forall>s \<in> set sks. \<not> is_elevated_scope (sk_scope s)))"

lemma skills_pass: "passes d0 (skills_checked env user slug ids)
   (\<lambda>sks. (\<exists>us. uuid_array env ids = Some us \<and> sks = filter (\<lambda>s. Some (sk_id s) \<in> set us) (fl_skills d0))
      \<and> length sks = length ids \<and> assignable env user sks)"
  unfolding skills_checked_def
proof (rule leaves_bind[OF looks_select_skills], rule leaves_then[OF passes_ensure])
  fix sks
  assume s: "\<exists>us. uuid_array env ids = Some us \<and> sks = filter (\<lambda>s. Some (sk_id s) \<in> set us) (fl_skills d0)"
    and n: "length sks = length ids"
  show "passes d0 (case elevated_of sks of
       Some sc \<Rightarrow>
         if is_admin (fe_client env) user then proceed sks
         else eff_seq (fleet_audit ''skill_assign_denied'' slug sc)
                (refuse 403 (''Assigning '' @ sc @ '' skills requires admin role''))
     | None \<Rightarrow> proceed sks)
    (\<lambda>sks. (\<exists>us. uuid_array env ids = Some us \<and> sks = filter (\<lambda>s. Some (sk_id s) \<in> set us) (fl_skills d0))
      \<and> length sks = length ids \<and> assignable env user sks)"
  proof (cases "elevated_of sks")
    case None
    show ?thesis unfolding None option.case
      by (rule leaves_proceed) (use s n None in \<open>auto simp: assignable_def elevated_of_None\<close>)
  next
    case (Some sc)
    show ?thesis unfolding Some option.case
      by (rule leaves_if, rule leaves_proceed, use s n in \<open>simp add: assignable_def\<close>, rule leaves_denied)
  qed
qed

section \<open>The writes\<close>

lemma holds_bind_exact:
  assumes "holds (\<lambda>d. d = d0) m R E" and "\<And>x d1. R x d1 \<Longrightarrow> holds (\<lambda>d. d = d1) (f x) Q E"
  shows "holds (\<lambda>d. d = d0) (eff_bind m f) Q E"
proof (rule holds_bind[OF assms(1)])
  fix x show "holds (R x) (f x) Q E" using assms(2)[of x] by (simp add: holds_def)
qed

lemma holds_seq_exact:
  "holds (\<lambda>d. d = d0) m R E \<Longrightarrow> (\<And>x d1. R x d1 \<Longrightarrow> holds (\<lambda>d. d = d1) n Q E) \<Longrightarrow> holds (\<lambda>d. d = d0) (eff_seq m n) Q E"
  unfolding eff_seq_def by (rule holds_bind_exact)

lemma holds_any: "holds P m (\<lambda>x d. Q x d) (\<lambda>_. True) \<Longrightarrow> holds P m Q (\<lambda>_. True)"
  by simp

lemma insert_agent_outcome:
  "holds (\<lambda>d. d = d0) (insert_agent env row)
     (\<lambda>a d. a = row\<lparr>fa_id := fa_id a\<rparr> \<and> row_fits a \<and> fa_id a \<notin> set (map fa_id (fl_agents d0))
        \<and> fa_slug a \<notin> set (map fa_slug (fl_agents d0))
        \<and> d = d0\<lparr>fl_agents := fl_agents d0 @ [a], fl_count := Suc (fl_count d0)\<rparr>) (\<lambda>_. True)"
  unfolding insert_agent_def by (rule holds_query) (auto simp: Let_def split: if_splits)

lemma insert_default_outcome:
  "holds (\<lambda>d. d = d0) (insert_with_default env row)
     (\<lambda>a d. a = row\<lparr>fa_policy := or_else (fa_policy row) (default_policy d0), fa_id := fa_id a\<rparr>
        \<and> row_fits a \<and> fa_id a \<notin> set (map fa_id (fl_agents d0)) \<and> fa_slug a \<notin> set (map fa_slug (fl_agents d0))
        \<and> d = d0\<lparr>fl_agents := fl_agents d0 @ [a], fl_count := Suc (fl_count d0)\<rparr>) (\<lambda>_. True)"
proof -
  let ?row = "row\<lparr>fa_policy := or_else (fa_policy row) (default_policy d0)\<rparr>"
  have "holds (\<lambda>d. d = d0) (insert_with_default env row) Q E = holds (\<lambda>d. d = d0) (insert_agent env ?row) Q E" for Q E
    unfolding holds_def insert_with_default_def by (intro iff_allI imp_cong refl) simp
  moreover have "holds (\<lambda>d. d = d0) (insert_agent env ?row)
     (\<lambda>a d. a = row\<lparr>fa_policy := or_else (fa_policy row) (default_policy d0), fa_id := fa_id a\<rparr>
        \<and> row_fits a \<and> fa_id a \<notin> set (map fa_id (fl_agents d0)) \<and> fa_slug a \<notin> set (map fa_slug (fl_agents d0))
        \<and> d = d0\<lparr>fl_agents := fl_agents d0 @ [a], fl_count := Suc (fl_count d0)\<rparr>) (\<lambda>_. True)"
    by (rule holds_conseq[OF insert_agent_outcome]) auto
  ultimately show ?thesis by simp
qed

text \<open>An upsert gives the policy of that name and owner the models, and leaves all others.\<close>

definition gave_models :: "string \<Rightarrow> string \<Rightarrow> string \<Rightarrow> js list \<Rightarrow> policy_row list \<Rightarrow> policy_row list \<Rightarrow> bool" where
  "gave_models u owner p ms ps ps' =
     ((\<exists>q. find (\<lambda>x. po_id x = p) ps' = Some q \<and> po_models q = ms \<and> po_owner q = Some owner
           \<and> po_name q = auto_policy_name u)
      \<and> (\<forall>q. po_name q \<noteq> auto_policy_name u \<or> po_owner q \<noteq> Some owner \<longrightarrow> (q \<in> set ps' \<longleftrightarrow> q \<in> set ps))
      \<and> (distinct (map po_id ps) \<longrightarrow> distinct (map po_id ps')))"

definition policies_keyed :: "fleet_db \<Rightarrow> bool" where
  "policies_keyed d = distinct (map po_id (fl_policies d))"

lemma find_mapped:
  assumes "distinct (map po_id ps)" "x \<in> set ps" "\<And>y. po_id (f y) = po_id y"
  shows "find (\<lambda>y. po_id y = po_id x) (map (\<lambda>y. if po_id y = po_id x then f y else y) ps) = Some (f x)"
  using assms(1,2)
proof (induction ps)
  case (Cons y ps)
  show ?case
  proof (cases "y = x")
    case False
    then have "x \<in> set ps" "po_id y \<noteq> po_id x" using Cons.prems by auto
    then show ?thesis using Cons by simp
  qed (simp add: assms(3))
qed simp

lemma find_appended: "find P (xs @ ys) = (case find P xs of None \<Rightarrow> find P ys | r \<Rightarrow> r)"
  by (induction xs) auto

lemma find_SomeD: "find P xs = Some x \<Longrightarrow> x \<in> set xs \<and> P x"
  by (induction xs) (auto split: if_splits)

lemma find_new_id: "k \<notin> f ` set xs \<Longrightarrow> find (\<lambda>x. f x = k) xs = None"
  by (auto simp: find_None_iff)

lemma upsert_outcome:
  assumes "policies_keyed d0"
  shows "holds (\<lambda>d. d = d0) (upsert_auto_agent_models_policy env u slug owner ms)
     (\<lambda>p d. gave_models u owner p ms (fl_policies d0) (fl_policies d) \<and> policies_keyed d
        \<and> d = d0\<lparr>fl_policies := fl_policies d, fl_count := fl_count d\<rparr>) (\<lambda>_. True)"
  unfolding upsert_auto_agent_models_policy_def
proof (rule holds_bind_exact[where R = "\<lambda>row d. d = d0 \<and> row = find (\<lambda>p. po_name p = auto_policy_name u \<and> po_owner p = Some owner) (fl_policies d0)"])
  show "holds (\<lambda>d. d = d0) (db_read (\<lambda>d. find (\<lambda>p. po_name p = auto_policy_name u \<and> po_owner p = Some owner) (fl_policies d)))
     (\<lambda>row d. d = d0 \<and> row = find (\<lambda>p. po_name p = auto_policy_name u \<and> po_owner p = Some owner) (fl_policies d0)) (\<lambda>_. True)"
    by (rule holds_read) auto
  fix row d1
  assume "d1 = d0 \<and> row = find (\<lambda>p. po_name p = auto_policy_name u \<and> po_owner p = Some owner) (fl_policies d0)"
  then have d1: "d1 = d0" and row: "row = find (\<lambda>p. po_name p = auto_policy_name u \<and> po_owner p = Some owner) (fl_policies d0)"
    by auto
  show "holds (\<lambda>d. d = d1) (case row of
       Some p \<Rightarrow> eff_seq (update_policy (po_id p) (\<lambda>x. x\<lparr>po_description := ''[auto-agent-models] '' @ slug, po_models := ms\<rparr>)) (ret (po_id p))
     | None \<Rightarrow> insert_policy env (auto_policy_name u) (''[auto-agent-models] '' @ slug) ms owner)
     (\<lambda>p d. gave_models u owner p ms (fl_policies d0) (fl_policies d) \<and> policies_keyed d
        \<and> d = d0\<lparr>fl_policies := fl_policies d, fl_count := fl_count d\<rparr>) (\<lambda>_. True)"
  proof (cases row)
    case None
    show ?thesis unfolding None option.case d1 insert_policy_def
      by (rule holds_query)
        (use assms in \<open>auto simp: Let_def gave_models_def find_policy_def policies_keyed_def find_appended find_new_id split: if_splits\<close>)
  next
    case (Some x)
    let ?f = "\<lambda>x. x\<lparr>po_description := ''[auto-agent-models] '' @ slug, po_models := ms\<rparr>"
    have x: "x \<in> set (fl_policies d0)" "po_name x = auto_policy_name u" "po_owner x = Some owner"
      using find_SomeD[OF row[symmetric, unfolded Some]] by simp_all
    let ?d = "d0\<lparr>fl_policies := map (\<lambda>y. if po_id y = po_id x then ?f y else y) (fl_policies d0)\<rparr>"
    have only: "y = x" if "y \<in> set (fl_policies d0)" "po_id y = po_id x" for y
      using assms that x(1) by (auto simp: policies_keyed_def inj_on_def dest!: distinct_map[THEN iffD1])
    have "find_policy (po_id x) ?d = Some (?f x)"
      unfolding find_policy_def using find_mapped[OF _ x(1), of ?f] assms by (simp add: policies_keyed_def)
    moreover have "q \<in> set (fl_policies ?d) \<longleftrightarrow> q \<in> set (fl_policies d0)" if "po_name q \<noteq> auto_policy_name u \<or> po_owner q \<noteq> Some owner" for q
      using that only x by (auto simp: image_iff) metis+
    moreover have ids: "map po_id (fl_policies ?d) = map po_id (fl_policies d0)" by simp
    then have "distinct (map po_id (fl_policies ?d))" using assms unfolding policies_keyed_def by (simp only:)
    ultimately have gave: "gave_models u owner (po_id x) ms (fl_policies d0) (fl_policies ?d)"
      unfolding gave_models_def find_policy_def using x(2,3) by (intro conjI exI[of _ "?f x"]) simp_all
    have "policies_keyed ?d" using assms ids unfolding policies_keyed_def by (simp only:)
    with gave show ?thesis unfolding Some option.case d1 update_policy_def
      by (intro holds_seq[where R = "\<lambda>_ d. d = ?d"] holds_write holds_ret) auto
  qed
qed

text \<open>The models of a new agent: those of its policy, none, or an own policy that holds them.\<close>

definition modelled :: "fleet_agent \<Rightarrow> fleet_agent \<Rightarrow> js list option \<Rightarrow> js list \<Rightarrow> fleet_db \<Rightarrow> fleet_db \<Rightarrow> bool" where
  "modelled row a names ms d0 d =
     (case names of
        None \<Rightarrow> fa_policy a = or_else (fa_policy row) (default_policy d0) \<and> ms = policy_models (fa_policy a) d0
          \<and> fl_policies d = fl_policies d0
      | Some [] \<Rightarrow> fa_policy a = or_else (fa_policy row) (default_policy d0) \<and> ms = [] \<and> fl_policies d = fl_policies d0
      | Some vs \<Rightarrow> (\<exists>p. fa_policy a = Some p \<and> ms = vs \<and> gave_models (fa_id a) (fa_owner a) p vs (fl_policies d0) (fl_policies d)))"

definition created :: "fleet_agent \<Rightarrow> js list option \<Rightarrow> string list \<Rightarrow> fleet_db \<Rightarrow> agent_card \<Rightarrow> fleet_db \<Rightarrow> bool" where
  "created row names ks d0 c d =
     (\<exists>a ms. a = row\<lparr>fa_policy := fa_policy a, fa_id := fa_id a\<rparr> \<and> row_fits a
        \<and> fa_id a \<notin> set (map fa_id (fl_agents d0)) \<and> fa_slug a \<notin> set (map fa_slug (fl_agents d0))
        \<and> fl_agents d = fl_agents d0 @ [a] \<and> modelled row a names ms d0 d
        \<and> fl_assigned d = fl_assigned d0 @ map (\<lambda>k. \<lparr>as_agent = fa_id a, as_skill = k\<rparr>) ks
        \<and> c = card_of a ms (map (\<lambda>s. (sk_id s, sk_name s, sk_scope s)) (skills_of (fa_id a) d))
        \<and> d = d0\<lparr>fl_agents := fl_agents d, fl_assigned := fl_assigned d, fl_policies := fl_policies d, fl_count := fl_count d\<rparr>)"

lemma resolve_outcome:
  "holds (\<lambda>d. d = d0) (resolve_agent_models p) (\<lambda>ms d. d = d0 \<and> ms = policy_models p d0) (\<lambda>_. True)"
proof (cases p)
  case None
  then show ?thesis by (simp add: resolve_agent_models_def policy_models_def holds_ret)
next
  case (Some x)
  show ?thesis unfolding Some resolve_agent_models_def option.case select_policy_id_def
    by (rule holds_bind_exact[where R = "\<lambda>row d. d = d0 \<and> row = find_policy x d0"])
      (auto simp: policy_models_def intro!: holds_read holds_ret)
qed

lemma change_last:
  "fa_id a \<notin> set (map fa_id A) \<Longrightarrow> map (\<lambda>x. if fa_id x = fa_id a then f x else x) (A @ [a]) = A @ [f a]"
  by (simp, rule map_idI) (metis imageI)

lemma created_models_outcome:
  assumes "policies_keyed d0" "fa_id a \<notin> set (map fa_id A)" "fl_agents d0 = A @ [a]"
  shows "holds (\<lambda>d. d = d0) (created_models env a names)
     (\<lambda>(p, ms) d. (case names of
          None \<Rightarrow> p = fa_policy a \<and> ms = policy_models (fa_policy a) d0 \<and> d = d0
        | Some [] \<Rightarrow> p = fa_policy a \<and> ms = [] \<and> d = d0
        | Some vs \<Rightarrow> (\<exists>q. p = Some q \<and> ms = vs \<and> gave_models (fa_id a) (fa_owner a) q vs (fl_policies d0) (fl_policies d)
             \<and> d = d0\<lparr>fl_agents := A @ [a\<lparr>fa_policy := Some q\<rparr>], fl_policies := fl_policies d, fl_count := fl_count d\<rparr>)))
     (\<lambda>_. True)"
proof (cases names)
  case None
  show ?thesis unfolding None created_models_def option.case kept_models_def
    by (rule holds_bind_exact[OF resolve_outcome]) (auto intro: holds_ret)
next
  case (Some vs)
  show ?thesis
  proof (cases vs)
    case Nil
    then show ?thesis using Some by (auto simp: created_models_def intro: holds_ret)
  next
    case (Cons v vs')
    show ?thesis unfolding Some Cons created_models_def option.case list.case own_models_def
    proof (rule holds_bind_exact[OF upsert_outcome[OF assms(1)]])
      fix p d1
      assume p: "gave_models (fa_id a) (fa_owner a) p (v # vs') (fl_policies d0) (fl_policies d1) \<and> policies_keyed d1
        \<and> d1 = d0\<lparr>fl_policies := fl_policies d1, fl_count := fl_count d1\<rparr>"
      then obtain P k where d1: "d1 = d0\<lparr>fl_policies := P, fl_count := k\<rparr>" by blast
      let ?d = "d0\<lparr>fl_agents := A @ [a\<lparr>fa_policy := Some p\<rparr>], fl_policies := P, fl_count := k\<rparr>"
      have "change_agent (fa_id a) (\<lambda>a. a\<lparr>fa_policy := Some p\<rparr>) d1 = ?d"
        unfolding change_agent_def d1 by (simp add: assms(3) change_last[OF assms(2), simplified])
      moreover have "gave_models (fa_id a) (fa_owner a) p (v # vs') (fl_policies d0) P" using p d1 by simp
      ultimately show "holds (\<lambda>d. d = d1) (eff_seq (set_policy (fa_id a) p) (ret (Some p, v # vs')))
       (\<lambda>(p, ms) d. (\<exists>q. p = Some q \<and> ms = v # vs' \<and> gave_models (fa_id a) (fa_owner a) q (v # vs') (fl_policies d0) (fl_policies d)
             \<and> d = d0\<lparr>fl_agents := A @ [a\<lparr>fa_policy := Some q\<rparr>], fl_policies := fl_policies d, fl_count := fl_count d\<rparr>)) (\<lambda>_. True)"
        unfolding set_policy_def
        by (intro holds_seq[where R = "\<lambda>_ d. d = ?d"] holds_write holds_ret) auto
    qed
  qed
qed

section \<open>Assigned skills\<close>

text \<open>\<open>gives u ks F m\<close>: if \<open>m\<close> returns, agent \<open>u\<close> has got the skills \<open>ks\<close>, which exist and are new to it, and \<open>F\<close> holds.\<close>

definition gave :: "string \<Rightarrow> string list \<Rightarrow> bool \<Rightarrow> fleet_db \<Rightarrow> fleet_db \<Rightarrow> bool" where
  "gave u ks F d0 d =
     (d = d0\<lparr>fl_assigned := fl_assigned d0 @ map (\<lambda>k. \<lparr>as_agent = u, as_skill = k\<rparr>) ks\<rparr>
      \<and> set ks \<subseteq> sk_id ` set (fl_skills d0) \<and> F)"

definition gives :: "string \<Rightarrow> string list \<Rightarrow> bool \<Rightarrow> (fleet_db, unit) eff \<Rightarrow> bool" where
  "gives u ks F m = (\<forall>d0. holds (\<lambda>d. d = d0) m (\<lambda>_. gave u ks F d0) (\<lambda>_. True))"

lemma gives_none: "gives u [] True (ret ())"
  by (auto simp: gives_def gave_def intro: holds_ret)

lemma gives_assignment: "gives u [k] True (add_assignment u k)"
  unfolding gives_def gave_def add_assignment_def
  by (intro allI holds_query) (auto simp: Let_def find_skill_def find_None_iff split: if_splits)

definition canon_id :: "fleet_env \<Rightarrow> js \<Rightarrow> string" where
  "canon_id env v = (case sql_uuid env v of Some (Some k) \<Rightarrow> k | _ \<Rightarrow> [])"

lemma gives_fault: "gives u ks F (db_query (\<lambda>_. Inl e))"
  unfolding gives_def by (intro allI holds_query) auto

lemma gives_skill: "gives u [canon_id env v] (sql_uuid env v = Some (Some (canon_id env v))) (add_skill env u v)"
  unfolding add_skill_def canon_id_def
  by (auto simp: gives_fault gives_assignment split: option.split)

lemma gives_seq:
  assumes "gives u ks F m" "gives u ks' G n" shows "gives u (ks @ ks') (F \<and> G) (eff_seq m n)"
  unfolding gives_def
proof
  fix d0
  show "holds (\<lambda>d. d = d0) (eff_seq m n) (\<lambda>_. gave u (ks @ ks') (F \<and> G) d0) (\<lambda>_. True)"
  proof (rule holds_seq_exact[OF assms(1)[unfolded gives_def, THEN spec]])
    fix d1 assume "gave u ks F d0 d1"
    then show "holds (\<lambda>d. d = d1) n (\<lambda>_. gave u (ks @ ks') (F \<and> G) d0) (\<lambda>_. True)"
      by (intro holds_conseq[OF assms(2)[unfolded gives_def, THEN spec, of d1]]) (auto simp: gave_def)
  qed
qed

lemma gives_all:
  "(\<And>x. gives u [g x] (F x) (f x)) \<Longrightarrow> gives u (map g xs) (\<forall>x \<in> set xs. F x) (add_all f xs)"
proof (induction xs)
  case (Cons x xs)
  then show ?case using gives_seq[of u "[g x]" "F x" "f x" "map g xs"] by simp
qed (simp add: gives_none)

lemma skill_cards_outcome:
  "holds (\<lambda>d. d = d0) (skill_cards u)
     (\<lambda>r d. d = d0 \<and> r = map (\<lambda>s. (sk_id s, sk_name s, sk_scope s)) (skills_of u d0)) (\<lambda>_. True)"
  unfolding skill_cards_def by (rule holds_read) auto

section \<open>A new agent\<close>

lemma holds_transaction_exact:
  assumes "holds (\<lambda>d. d = d0) m Q (\<lambda>_. True)" shows "holds (\<lambda>d. d = d0) (transaction m) Q (\<lambda>d. d = d0)"
  by (rule holds_transaction[OF assms]) simp

lemma row_policy: "a = row\<lparr>fa_policy := x, fa_id := y\<rparr> \<Longrightarrow> fa_policy a = x"
  by simp

lemma row_repolicy:
  "a = row\<lparr>fa_policy := x, fa_id := y\<rparr> \<Longrightarrow> a\<lparr>fa_policy := p\<rparr> = row\<lparr>fa_policy := p, fa_id := y\<rparr>"
  by simp

lemma policy_models_frame: "policy_models q (d\<lparr>fl_agents := A, fl_count := k\<rparr>) = policy_models q d"
  by (cases q) (simp_all add: policy_models_def find_policy_def)

lemma update_frame:
  "(d\<lparr>fl_agents := A, fl_count := k\<rparr>)\<lparr>fl_agents := A', fl_policies := P, fl_count := k'\<rparr> =
   d\<lparr>fl_agents := A', fl_policies := P, fl_count := k'\<rparr>"
  by simp

lemma modelled_frame: "modelled row a names ms d0 (d\<lparr>fl_assigned := x\<rparr>) = modelled row a names ms d0 d"
  by (cases names) (auto simp: modelled_def split: list.splits)

lemma store_new_outcome:
  assumes keyed: "policies_keyed d0" and assign: "\<And>u. gives u ks F (assign u)"
  shows "holds (\<lambda>d. d = d0) (store_new env row names assign) (\<lambda>c d. created row names ks d0 c d \<and> set ks \<subseteq> sk_id ` set (fl_skills d0) \<and> F) (\<lambda>d. d = d0)"
  unfolding store_new_def
proof (rule holds_transaction_exact, rule holds_bind_exact[OF insert_default_outcome])
  fix a d1
  assume a: "a = row\<lparr>fa_policy := or_else (fa_policy row) (default_policy d0), fa_id := fa_id a\<rparr> \<and> row_fits a
      \<and> fa_id a \<notin> set (map fa_id (fl_agents d0)) \<and> fa_slug a \<notin> set (map fa_slug (fl_agents d0))
      \<and> d1 = d0\<lparr>fl_agents := fl_agents d0 @ [a], fl_count := Suc (fl_count d0)\<rparr>"
  then have d1: "policies_keyed d1" "fa_id a \<notin> set (map fa_id (fl_agents d0))" "fl_agents d1 = fl_agents d0 @ [a]"
    using keyed by (auto simp: policies_keyed_def)
  have pol: "fa_policy a = or_else (fa_policy row) (default_policy d0)"
    using row_policy a by blast
  show "holds (\<lambda>d. d = d1) (eff_bind (created_models env a names) (\<lambda>(p, ms).
      eff_seq (assign (fa_id a)) (eff_bind (skill_cards (fa_id a)) (\<lambda>sks. ret (card_of (a\<lparr>fa_policy := p\<rparr>) ms sks)))))
      (\<lambda>c d. created row names ks d0 c d \<and> set ks \<subseteq> sk_id ` set (fl_skills d0) \<and> F) (\<lambda>_. True)"
  proof (rule holds_bind_exact[OF created_models_outcome[OF d1]], clarsimp simp del: fun_upd_apply)
    fix p ms d2
    let ?a = "a\<lparr>fa_policy := p\<rparr>"
    assume m: "case names of
          None \<Rightarrow> p = fa_policy a \<and> ms = policy_models (fa_policy a) d1 \<and> d2 = d1
        | Some [] \<Rightarrow> p = fa_policy a \<and> ms = [] \<and> d2 = d1
        | Some (v # vs) \<Rightarrow> (\<exists>q. p = Some q \<and> ms = v # vs \<and> gave_models (fa_id a) (fa_owner a) q (v # vs) (fl_policies d1) (fl_policies d2)
             \<and> d2 = d1\<lparr>fl_agents := fl_agents d0 @ [a\<lparr>fa_policy := Some q\<rparr>], fl_policies := fl_policies d2, fl_count := fl_count d2\<rparr>)"
    have "\<exists>P k. d2 = d0\<lparr>fl_agents := fl_agents d0 @ [?a], fl_policies := P, fl_count := k\<rparr> \<and> modelled row ?a names ms d0 d2"
    proof (cases "p = fa_policy a \<and> d2 = d1")
      case True
      then have "?a = a" by simp
      moreover have "d1 = d0\<lparr>fl_agents := fl_agents d0 @ [a], fl_policies := fl_policies d0, fl_count := Suc (fl_count d0)\<rparr>"
        using a by simp
      moreover have "policy_models q d1 = policy_models q d0" for q using a by (simp add: policy_models_frame)
      moreover have "fl_policies d2 = fl_policies d0" using True a by simp
      ultimately have "modelled row ?a names ms d0 d2" using True m pol
        by (auto simp: modelled_def split: option.splits list.splits)
      then show ?thesis using True \<open>?a = a\<close> \<open>d1 = _\<close> by metis
    next
      case False
      then obtain v vs q where n: "names = Some (v # vs)" and q: "p = Some q" "ms = v # vs"
          "gave_models (fa_id a) (fa_owner a) q (v # vs) (fl_policies d1) (fl_policies d2)"
          "d2 = d1\<lparr>fl_agents := fl_agents d0 @ [a\<lparr>fa_policy := Some q\<rparr>], fl_policies := fl_policies d2, fl_count := fl_count d2\<rparr>"
        using m by (auto split: option.splits list.splits)
      have "fl_policies d1 = fl_policies d0" using a by simp
      then have "modelled row ?a names ms d0 d2" using n q(1-3) by (simp add: modelled_def)
      moreover obtain P k where d2: "d2 = d1\<lparr>fl_agents := fl_agents d0 @ [a\<lparr>fa_policy := Some q\<rparr>], fl_policies := P, fl_count := k\<rparr>"
        using q(4) by blast
      moreover have "d1 = d0\<lparr>fl_agents := fl_agents d0 @ [a], fl_count := Suc (fl_count d0)\<rparr>" using a by simp
      then have "d2 = d0\<lparr>fl_agents := fl_agents d0 @ [?a], fl_policies := P, fl_count := k\<rparr>"
        using q(1) by (simp only: d2 update_frame)
      ultimately show ?thesis by blast
    qed
    then obtain P k where d2: "d2 = d0\<lparr>fl_agents := fl_agents d0 @ [?a], fl_policies := P, fl_count := k\<rparr>"
        and md: "modelled row ?a names ms d0 d2" by blast
    show "holds (\<lambda>d. d = d2) (eff_seq (assign (fa_id a)) (eff_bind (skill_cards (fa_id a)) (\<lambda>sks. ret (card_of ?a ms sks))))
      (\<lambda>c d. created row names ks d0 c d \<and> set ks \<subseteq> sk_id ` set (fl_skills d0) \<and> F) (\<lambda>_. True)"
    proof (rule holds_seq_exact[OF assign[unfolded gives_def, THEN spec]], unfold gave_def, elim conjE)
      fix d3 assume ks: "set ks \<subseteq> sk_id ` set (fl_skills d2)" F and d3: "d3 = d2\<lparr>fl_assigned := fl_assigned d2 @ map (\<lambda>k. \<lparr>as_agent = fa_id a, as_skill = k\<rparr>) ks\<rparr>"
      let ?c = "card_of ?a ms (map (\<lambda>s. (sk_id s, sk_name s, sk_scope s)) (skills_of (fa_id a) d3))"
      have d3e: "d3 = d0\<lparr>fl_agents := fl_agents d0 @ [?a], fl_policies := P, fl_count := k,
          fl_assigned := fl_assigned d0 @ map (\<lambda>k. \<lparr>as_agent = fa_id a, as_skill = k\<rparr>) ks\<rparr>"
        unfolding d3 d2 by simp
      have "modelled row ?a names ms d0 d3" unfolding d3 using md by (simp only: modelled_frame)
      moreover have "?a = row\<lparr>fa_policy := fa_policy ?a, fa_id := fa_id ?a\<rparr>" using a row_repolicy by fastforce
      moreover have "row_fits ?a" using a by (simp add: row_fits_def)
      moreover have "fa_id ?a \<notin> set (map fa_id (fl_agents d0))" "fa_slug ?a \<notin> set (map fa_slug (fl_agents d0))"
        using a by simp_all
      moreover have "fl_agents d3 = fl_agents d0 @ [?a]"
          "fl_assigned d3 = fl_assigned d0 @ map (\<lambda>k. \<lparr>as_agent = fa_id ?a, as_skill = k\<rparr>) ks"
          "?c = card_of ?a ms (map (\<lambda>s. (sk_id s, sk_name s, sk_scope s)) (skills_of (fa_id ?a) d3))"
        by (simp_all add: d3e)
      moreover have "d3 = d0\<lparr>fl_agents := fl_agents d3, fl_assigned := fl_assigned d3, fl_policies := fl_policies d3, fl_count := fl_count d3\<rparr>"
        by (simp add: d3e)
      ultimately have "created row names ks d0 ?c d3" unfolding created_def by blast
      then show "holds (\<lambda>d. d = d3) (eff_bind (skill_cards (fa_id a)) (\<lambda>sks. ret (card_of ?a ms sks)))
          (\<lambda>c d. created row names ks d0 c d \<and> set ks \<subseteq> sk_id ` set (fl_skills d0) \<and> F) (\<lambda>_. True)"
        using ks by (intro holds_bind_exact[OF skill_cards_outcome] holds_ret) (auto simp: d2)
    qed
  qed
qed

section \<open>Ends of a handler\<close>

lemma leaves_store:
  assumes "holds (\<lambda>d. d = d0) m Q (\<lambda>d. d = d0)" and "\<And>c d. Q c d \<Longrightarrow> W (Answer st c) d"
  shows "leaves d0 (eff_bind m (\<lambda>c. proceed (Answer st c))) W"
  unfolding leaves_def proceed_def
proof (rule holds_bind[where R = Q])
  show "holds (\<lambda>d. d = d0) m Q (untouched d0)" using assms(1) by (rule holds_conseq) auto
  show "holds (Q c) (ret (Inr (Answer st c)))
      (\<lambda>r d. case r of Inl x \<Rightarrow> (\<exists>st msg. x = Refused st msg) \<and> untouched d0 d | Inr y \<Rightarrow> W y d) (untouched d0)" for c
    by (rule holds_ret) (simp add: assms(2))
qed

lemma answer_ends:
  assumes "answer_with taken failed m w = (r, w')" "ends (db w) m W E"
  shows "\<exists>resp. r = Inr resp \<and> ((\<exists>st msg. resp = Refused st msg) \<and> untouched (db w) (db w')
     \<or> W resp (db w') \<or> E (db w') \<and> (resp = Refused 500 failed \<or> taken \<noteq> None \<and> (\<exists>msg. resp = Refused 409 msg)))"
proof -
  obtain x w1 where m: "m w = (x, w1)" by fastforce
  show ?thesis
  proof (cases x)
    case (Inl e)
    then have "E (db w1)" using holds_Inl[OF assms(2)[unfolded ends_def]] m by simp
    then show ?thesis using assms(1) m Inl
      by (auto simp: answer_with_def eff_catch_def eff_bind_def ret_def split: exn.splits option.splits)
  next
    case (Inr y)
    then have "case y of Inl x \<Rightarrow> (\<exists>st msg. x = Refused st msg) \<and> untouched (db w) (db w1) | Inr y \<Rightarrow> W y (db w1)"
      using holds_Inr[OF assms(2)[unfolded ends_def]] m by simp
    then show ?thesis using assms(1) m Inr
      by (cases y) (auto simp: answer_with_def eff_catch_def eff_bind_def ret_def)
  qed
qed

lemma answer_outcome:
  assumes "answer_with taken failed m w = (r, w')" "leaves (db w) m W"
  shows "\<exists>resp. r = Inr resp \<and> ((\<exists>st msg. resp = Refused st msg) \<and> untouched (db w) (db w') \<or> W resp (db w'))"
  using answer_ends[OF assms(1) assms(2)[unfolded leaves_ends]] by blast

end
