(* ===== verification/CrudProps.thy ===== *)
theory CrudProps
  imports CrudFrame
begin

text \<open>
  What creating and importing an agent guarantee. Both routes are instances of one interface,
  \<open>new_agent_route\<close>: an answer other than 201 leaves everything as it was, and 201 means that one
  agent with these properties has been appended.
\<close>

section \<open>The contract of a route that makes an agent\<close>

definition resources_ok :: "js \<Rightarrow> bool" where
  "resources_ok body =
     (if_given (js_get body ''cpus'') cpus_validation_error = None
      \<and> if_given (js_get body ''mem_limit'') mem_limit_validation_error = None
      \<and> if_given (js_get body ''pids_limit'') pids_limit_validation_error = None)"

definition new_agent :: "fleet_env \<Rightarrow> js \<Rightarrow> js \<Rightarrow> fleet_db \<Rightarrow> agent_card \<Rightarrow> fleet_db \<Rightarrow> bool" where
  "new_agent env user body d c d' =
     (\<exists>tools policy profile names sks ks.
        created (new_row env user body tools policy profile) names ks d c d'
        \<and> resources_ok body \<and> truthy (js_get body ''agent_id'') \<and> slug_ok (fleet_show env (js_get body ''agent_id''))
        \<and> set sks \<subseteq> set (fl_skills d) \<and> set ks = sk_id ` set sks \<and> assignable env user sks
        \<and> tools = (if sks = [] then given_tools (js_get body ''tools_config'') else Merged (merge_tools_configs (map sk_config sks)))
        \<and> (\<forall>p. policy = Some p \<longrightarrow> (\<exists>q \<in> set (fl_policies d). po_id q = p \<and> usable_policy env user (caller_sub env user) q d))
        \<and> (\<forall>vs. names = Some vs \<longrightarrow> (\<forall>v \<in> set vs. model_accessible (caller_sub env user) (sql_text env v) d)))"

definition new_agent_outcome :: "fleet_env \<Rightarrow> js \<Rightarrow> js \<Rightarrow> fleet_db \<Rightarrow> crud_resp \<Rightarrow> fleet_db \<Rightarrow> bool" where
  "new_agent_outcome env user body d resp d' =
     ((\<exists>st msg. resp = Refused st msg) \<and> untouched d d' \<or> (\<exists>c. resp = Answer 201 c \<and> new_agent env user body d c d'))"

locale new_agent_route =
  fixes route :: "fleet_env \<Rightarrow> js \<Rightarrow> js \<Rightarrow> (fleet_db, crud_resp) eff"
  assumes outcome: "policies_keyed (db w) \<Longrightarrow> route env user body w = (r, w') \<Longrightarrow>
    \<exists>resp. r = Inr resp \<and> new_agent_outcome env user body (db w) resp (db w')"

section \<open>Create\<close>

lemma uuid_array_all:
  assumes "uuid_array env ids = Some us" "v \<in> set ids" "sql_uuid env v = Some (Some k)"
  shows "Some k \<in> set us"
proof -
  have "us = map (\<lambda>v. the (sql_uuid env v)) ids" using assms(1) by (auto simp: uuid_array_def Let_def split: if_splits)
  then show ?thesis using assms(2,3) by (auto simp: image_iff intro!: bexI[of _ v])
qed

lemma asked_skills:
  assumes "uuid_array env ids = Some us" "\<forall>v \<in> set ids. sql_uuid env v = Some (Some (canon_id env v))"
    and "canon_id env ` set ids \<subseteq> sk_id ` set S"
  shows "set (map (canon_id env) ids) = sk_id ` set (filter (\<lambda>s. Some (sk_id s) \<in> set us) S)"
proof -
  have us: "us = map (\<lambda>v. the (sql_uuid env v)) ids" using assms(1) by (auto simp: uuid_array_def Let_def split: if_splits)
  have "set us = Some ` canon_id env ` set ids" unfolding us using assms(2) by (force simp: image_iff)
  then show ?thesis using assms(3) by (auto simp: image_iff subset_iff) metis
qed

lemma policy_step:
  "passes d0 (if truthy v then policy_checked env user owner v else proceed None)
     (\<lambda>p. \<forall>x. p = Some x \<longrightarrow> (\<exists>q \<in> set (fl_policies d0). po_id q = x \<and> usable_policy env user owner q d0))"
  by (rule leaves_if, rule passes_weaken[OF policy_pass], force, rule leaves_proceed, simp)

lemma models_step:
  "passes d0 (if b then proceed () else models_checked env owner vs)
     (\<lambda>_. \<not> b \<longrightarrow> (\<forall>v \<in> set vs. model_accessible owner (sql_text env v) d0))"
  by (rule leaves_if, rule leaves_proceed, simp, rule passes_weaken[OF models_pass], simp)

definition asked :: "fleet_env \<Rightarrow> js \<Rightarrow> js list \<Rightarrow> skill_row list \<Rightarrow> fleet_db \<Rightarrow> bool" where
  "asked env user ids sks d =
     ((ids = [] \<and> sks = [] \<or> (\<exists>us. uuid_array env ids = Some us \<and> sks = filter (\<lambda>s. Some (sk_id s) \<in> set us) (fl_skills d)))
      \<and> length sks = length ids \<and> assignable env user sks)"

lemma skills_step:
  "passes d0 (if ids = [] then proceed [] else skills_checked env user slug ids) (\<lambda>sks. asked env user ids sks d0)"
  by (rule leaves_if, rule leaves_proceed, simp add: asked_def assignable_def,
      rule passes_weaken[OF skills_pass], auto simp: asked_def)

lemma asked_given:
  assumes "asked env user ids sks d" "\<forall>v \<in> set ids. sql_uuid env v = Some (Some (canon_id env v))"
    and "set (map (canon_id env) ids) \<subseteq> sk_id ` set (fl_skills d)"
  shows "set sks \<subseteq> set (fl_skills d) \<and> set (map (canon_id env) ids) = sk_id ` set sks \<and> (sks = [] \<longleftrightarrow> ids = [])"
proof -
  have n: "sks = [] \<longleftrightarrow> ids = []" using assms(1) by (metis asked_def length_0_conv)
  show ?thesis
  proof (cases "ids = []")
    case True
    then show ?thesis using n by simp
  next
    case False
    then obtain us where us: "uuid_array env ids = Some us" "sks = filter (\<lambda>s. Some (sk_id s) \<in> set us) (fl_skills d)"
      using assms(1) by (auto simp: asked_def)
    then have "set (map (canon_id env) ids) = sk_id ` set sks"
      using asked_skills[OF us(1) assms(2)] assms(3) by simp
    then show ?thesis using us n by auto
  qed
qed

lemma create_end:
  assumes "policies_keyed d0" "resources_ok body" "truthy (js_get body ''agent_id'')"
    and "slug_ok (fleet_show env (js_get body ''agent_id''))"
    and "\<forall>x. policy = Some x \<longrightarrow> (\<exists>q \<in> set (fl_policies d0). po_id q = x \<and> usable_policy env user (caller_sub env user) q d0)"
    and "names \<noteq> None \<longrightarrow> (\<forall>v \<in> set (the names). model_accessible (caller_sub env user) (sql_text env v) d0)"
    and "asked env user ids sks d0"
  shows "leaves d0 (eff_bind (store_new env (new_row env user body
        (if ids = [] then given_tools (js_get body ''tools_config'') else Merged (merge_tools_configs (map sk_config sks))) policy profile)
      names (\<lambda>u. add_all (add_skill env u) ids)) (\<lambda>c. proceed (Answer 201 c)))
     (\<lambda>r d. \<exists>c. r = Answer 201 c \<and> new_agent env user body d0 c d)"
proof (rule leaves_store[OF store_new_outcome[OF assms(1) gives_all[OF gives_skill]]], elim conjE)
  fix c d
  let ?tools = "if ids = [] then given_tools (js_get body ''tools_config'') else Merged (merge_tools_configs (map sk_config sks))"
  assume c: "created (new_row env user body ?tools policy profile) names (map (canon_id env) ids) d0 c d"
    and ks: "set (map (canon_id env) ids) \<subseteq> sk_id ` set (fl_skills d0)"
    and ok: "\<forall>v \<in> set ids. sql_uuid env v = Some (Some (canon_id env v))"
  have "set sks \<subseteq> set (fl_skills d0) \<and> set (map (canon_id env) ids) = sk_id ` set sks \<and> (sks = [] \<longleftrightarrow> ids = [])"
    by (rule asked_given[OF assms(7) ok ks])
  moreover have "assignable env user sks" using assms(7) by (simp add: asked_def)
  ultimately have "new_agent env user body d0 c d"
    unfolding new_agent_def using c assms(2-6)
    by (intro exI[of _ ?tools] exI[of _ policy] exI[of _ profile] exI[of _ names] exI[of _ sks] exI[of _ "map (canon_id env) ids"])
      simp_all
  then show "\<exists>c'. Answer 201 c = Answer 201 c' \<and> new_agent env user body d0 c' d" by blast
qed

lemma create_outcome:
  assumes "policies_keyed (db w)" "create_agent env user body w = (r, w')"
  shows "\<exists>resp. r = Inr resp \<and> new_agent_outcome env user body (db w) resp (db w')"
  unfolding new_agent_outcome_def
  by (rule answer_outcome[OF assms(2)[unfolded create_agent_def], where W = "\<lambda>r d. \<exists>c. r = Answer 201 c \<and> new_agent env user body (db w) c d"],
      unfold Let_def,
      rule leaves_if, rule leaves_throw, rule leaves_then[OF resources_pass], rule leaves_then[OF legacy_pass],
      rule leaves_then[OF passes_ensure], rule leaves_then[OF slug_pass], rule leaves_then[OF lists_pass],
      rule leaves_then[OF policy_step], rule leaves_then[OF models_step], rule leaves_then[OF profile_pass],
      rule leaves_then[OF skills_step], rule create_end[OF assms(1)]) (auto simp: resources_ok_def)

section \<open>Import\<close>

lemma looks_if: "(b \<Longrightarrow> looks d0 m G) \<Longrightarrow> (\<not> b \<Longrightarrow> looks d0 n G) \<Longrightarrow> looks d0 (if b then m else n) G"
  by simp

lemma named_skills:
  "looks d0 (if vs = [] then ret [] else select_skills_named env vs) (\<lambda>sks. set sks \<subseteq> set (fl_skills d0))"
  unfolding select_skills_named_def
  by (rule looks_if, rule looks_weaken[OF looks_ret], simp, rule looks_weaken[OF looks_read], auto)

lemma maybe_profile: "looks d0 (if b then select_profile_id env v else ret None) (\<lambda>_. True)"
  by (rule looks_if, rule looks_weaken[OF looks_profile_id], simp, rule looks_weaken[OF looks_ret], simp)

lemma gives_named: "gives u (map sk_id sks) True (add_all (\<lambda>s. add_assignment u (sk_id s)) sks)"
  using gives_all[of u sk_id "\<lambda>_. True" "\<lambda>s. add_assignment u (sk_id s)" sks] gives_assignment by simp

lemma import_end:
  assumes "policies_keyed d0" "resources_ok body" "truthy (js_get body ''agent_id'')"
    and "slug_ok (fleet_show env (js_get body ''agent_id''))"
    and "names \<noteq> None \<longrightarrow> (\<forall>v \<in> set (the names). model_accessible (caller_sub env user) (sql_text env v) d0)"
    and "set sks \<subseteq> set (fl_skills d0)" "assignable env user sks"
  shows "leaves d0 (eff_bind (store_new env (new_row env user body
        (if sks = [] then given_tools (js_get body ''tools_config'') else Merged (merge_tools_configs (map sk_config sks))) None profile)
      names (\<lambda>u. add_all (\<lambda>s. add_assignment u (sk_id s)) sks)) (\<lambda>c. proceed (Answer 201 c)))
     (\<lambda>r d. \<exists>c. r = Answer 201 c \<and> new_agent env user body d0 c d)"
proof (rule leaves_store[OF store_new_outcome[OF assms(1) gives_named]], elim conjE)
  fix c d
  let ?tools = "if sks = [] then given_tools (js_get body ''tools_config'') else Merged (merge_tools_configs (map sk_config sks))"
  assume "created (new_row env user body ?tools None profile) names (map sk_id sks) d0 c d"
  then have "new_agent env user body d0 c d"
    unfolding new_agent_def using assms(2-7)
    by (intro exI[of _ ?tools] exI[of _ None] exI[of _ profile] exI[of _ names] exI[of _ sks] exI[of _ "map sk_id sks"])
      simp_all
  then show "\<exists>c'. Answer 201 c = Answer 201 c' \<and> new_agent env user body d0 c' d" by blast
qed

lemma import_outcome:
  assumes "policies_keyed (db w)" "import_agent env user body w = (r, w')"
  shows "\<exists>resp. r = Inr resp \<and> new_agent_outcome env user body (db w) resp (db w')"
  unfolding new_agent_outcome_def
  by (rule answer_outcome[OF assms(2)[unfolded import_agent_def], where W = "\<lambda>r d. \<exists>c. r = Answer 201 c \<and> new_agent env user body (db w) c d"],
      unfold Let_def,
      rule leaves_if, rule leaves_throw, rule leaves_then[OF passes_ensure], rule leaves_then[OF slug_pass],
      rule leaves_then[OF resources_pass], rule leaves_bind[OF named_skills], rule leaves_then[OF passes_ensure],
      rule leaves_then[OF models_pass], rule leaves_bind[OF maybe_profile], rule import_end[OF assms(1)])
    (auto simp: resources_ok_def assignable_def elevated_of_None)

interpretation creating: new_agent_route create_agent
  by unfold_locales (rule create_outcome)

interpretation importing: new_agent_route import_agent
  by unfold_locales (rule import_outcome)

end
