(* ===== verification/UpdateFrame.thy ===== *)
theory UpdateFrame
  imports CrudProps
begin

text \<open>
  The outcome of \<open>PUT /agents/:id\<close>: which row it changes and to what, which skills it assigns,
  what happens to the policies, and that a failure before the commit leaves everything alone.
\<close>

section \<open>What the checks of an update find out\<close>

lemma untouchedE:
  assumes "untouched d0 d" obtains A k where "d = d0\<lparr>fl_audit := A, fl_count := k\<rparr>"
  using assms unfolding untouched_def by blast

lemma untouched_update: "untouched d0 (d0\<lparr>fl_audit := A, fl_count := k\<rparr>)"
  by (simp add: untouched_def)

lemma untouched_trans: "untouched d0 d1 \<Longrightarrow> untouched d1 d \<Longrightarrow> untouched d0 d"
  by (elim untouchedE) (simp add: untouched_update)

definition env_valid :: "js \<Rightarrow> bool" where
  "env_valid body = (\<forall>(k, v) \<in> set (obj_pairs (js_get body ''env_vars_set'')). is_str v)"

lemma env_pass: "passes d0 (env_checked body) (\<lambda>_. env_valid body)"
  unfolding env_checked_def Let_def
proof (rule leaves_then[where G = "\<lambda>_. env_valid body"])
  show "passes d0 (case js_get body ''env_vars_set'' of
        Undef \<Rightarrow> proceed ()
      | Obj kvs \<Rightarrow> (case find (\<lambda>(k, v). \<not> is_str v) kvs of
             Some (k, v) \<Rightarrow> refuse 400 (''env_vars_set[\"'' @ k @ ''\"] must be a string'') | None \<Rightarrow> proceed ())
      | _ \<Rightarrow> refuse 400 ''env_vars_set must be an object with string key-value pairs'') (\<lambda>_. env_valid body)"
    by (cases "js_get body ''env_vars_set''")
      (auto simp: env_valid_def obj_pairs_def find_None_iff intro!: leaves_proceed leaves_refuse split: option.split)
qed (rule passes_weaken[OF passes_ensure], simp)

lemma tags_pass: "passes d0 (tags_checked body) (\<lambda>_. True)"
  unfolding tags_checked_def Let_def by (rule passes_weaken[OF passes_ensure]) simp

lemma own_agent_looks:
  "looks d0 (select_own_agent env user i) (\<lambda>row. \<forall>a. row = Some a \<longrightarrow>
     a \<in> set (fl_agents d0) \<and> fe_uuid env i = Some (fa_id a) \<and> agent_visible env user a)"
  unfolding select_own_agent_def fleet_query_def
  by (rule looks_query) (auto dest: find_SomeD split: option.splits)

definition plan_ok :: "fleet_env \<Rightarrow> fleet_agent \<Rightarrow> model_plan \<Rightarrow> fleet_db \<Rightarrow> bool" where
  "plan_ok env a plan d =
     (case plan of
        ReusePolicy p ms \<Rightarrow> fa_policy a = Some p \<and> (\<forall>v \<in> set ms. model_accessible (fa_owner a) (sql_text env v) d)
          \<and> (\<exists>q. find_policy p d = Some q \<and> is_auto_agent_models_policy (po_description q))
      | UpsertPolicy ms \<Rightarrow> (\<forall>v \<in> set ms. model_accessible (fa_owner a) (sql_text env v) d)
      | _ \<Rightarrow> True)"

lemma plan_pass: "passes d0 (plan_models env a wanted) (\<lambda>plan. plan_ok env a plan d0)"
  unfolding plan_models_def
proof (rule leaves_then[OF models_pass], rule leaves_if)
  assume "wanted = []"
  show "passes d0 (proceed (SetPolicy None)) (\<lambda>plan. plan_ok env a plan d0)" by (rule leaves_proceed) (simp add: plan_ok_def)
next
  assume ok: "\<forall>v \<in> set wanted. model_accessible (fa_owner a) (sql_text env v) d0"
  have up: "passes d0 (proceed (UpsertPolicy wanted)) (\<lambda>plan. plan_ok env a plan d0)"
    by (rule leaves_proceed) (simp add: plan_ok_def ok)
  show "passes d0 (case fa_policy a of
       None \<Rightarrow> proceed (UpsertPolicy wanted)
     | Some p \<Rightarrow> eff_bind (select_policy_id (Some p)) (\<lambda>row. case row of
           Some q \<Rightarrow> if is_auto_agent_models_policy (po_description q) then proceed (ReusePolicy (po_id q) wanted)
                     else proceed (UpsertPolicy wanted)
         | None \<Rightarrow> proceed (UpsertPolicy wanted))) (\<lambda>plan. plan_ok env a plan d0)"
  proof (cases "fa_policy a")
    case None
    then show ?thesis using up by simp
  next
    case (Some p)
    have "passes d0 (case row of
           Some q \<Rightarrow> if is_auto_agent_models_policy (po_description q) then proceed (ReusePolicy (po_id q) wanted)
                     else proceed (UpsertPolicy wanted)
         | None \<Rightarrow> proceed (UpsertPolicy wanted)) (\<lambda>plan. plan_ok env a plan d0)" if "find_policy p d0 = row" for row
    proof (cases row)
      case None
      then show ?thesis using up by simp
    next
      case (Some q)
      then have "po_id q = p" using find_SomeD[OF that[unfolded find_policy_def Some]] by simp
      then have re: "passes d0 (proceed (ReusePolicy (po_id q) wanted)) (\<lambda>plan. plan_ok env a plan d0)"
          if "is_auto_agent_models_policy (po_description q)"
        by (intro leaves_proceed) (use ok that \<open>find_policy p d0 = row\<close> Some \<open>fa_policy a = Some p\<close> in \<open>simp add: plan_ok_def\<close>)
      show ?thesis unfolding Some option.case by (rule leaves_if, erule re, rule up)
    qed
    then show ?thesis unfolding Some option.case select_policy_id_def
      by (intro leaves_bind[OF looks_read]) simp
  qed
qed

text \<open>What an update may do with skills.\<close>

definition reassignable :: "fleet_env \<Rightarrow> js \<Rightarrow> fleet_agent \<Rightarrow> js list \<Rightarrow> fleet_db \<Rightarrow> bool" where
  "reassignable env user a ids d =
     ((\<exists>sks. asked env user ids sks d)
      \<and> (is_admin (fe_client env) user \<or>
         (\<forall>s \<in> set (skills_of (fa_id a) d). is_elevated_scope (sk_scope s) \<longrightarrow> Str (sk_id s) \<in> set ids)))"

lemma removal_pass:
  "passes d0 (removal_checked env user a ids) (\<lambda>_. is_admin (fe_client env) user \<or>
     (\<forall>s \<in> set (skills_of (fa_id a) d0). is_elevated_scope (sk_scope s) \<longrightarrow> Str (sk_id s) \<in> set ids))"
  unfolding removal_checked_def
proof (rule leaves_if, rule leaves_proceed, simp, rule leaves_bind[OF looks_read])
  fix sks assume s: "skills_of (fa_id a) d0 = sks" "\<not> is_admin (fe_client env) user"
  show "passes d0 (case elevated_of (filter (\<lambda>s. Str (sk_id s) \<notin> set ids) sks) of
          None \<Rightarrow> proceed ()
        | Some sc \<Rightarrow> eff_seq (fleet_audit ''skill_remove_denied'' (fa_slug a) sc)
              (refuse 403 (''Cannot remove '' @ sc @ '' skills without admin role'')))
      (\<lambda>_. is_admin (fe_client env) user \<or>
         (\<forall>s \<in> set (skills_of (fa_id a) d0). is_elevated_scope (sk_scope s) \<longrightarrow> Str (sk_id s) \<in> set ids))"
  proof (cases "elevated_of (filter (\<lambda>s. Str (sk_id s) \<notin> set ids) sks)")
    case None
    show ?thesis unfolding None option.case
      by (rule leaves_proceed) (use s None in \<open>auto simp: elevated_of_None\<close>)
  next
    case (Some sc)
    then show ?thesis by (simp add: leaves_denied)
  qed
qed

lemma tools_pass:
  "passes d0 (updated_tools env user body a)
     (\<lambda>_. js_get body ''skill_ids'' \<noteq> Undef \<longrightarrow> reassignable env user a (the_arr (js_get body ''skill_ids'')) d0)"
  unfolding updated_tools_def Let_def
proof (rule leaves_if, rule leaves_proceed, simp)
  let ?ids = "the_arr (js_get body ''skill_ids'')" and ?given = "js_get body ''tools_config''"
  let ?own = "if truthy ?given then Some (Given ?given) else None"
  have a: "passes d0 (if ?ids = [] then proceed ?own
       else and_then (skills_checked env user (fa_slug a) ?ids) (\<lambda>sks. proceed (Some (Merged (merge_tools_configs (map sk_config sks))))))
     (\<lambda>_. \<exists>sks. asked env user ?ids sks d0)"
  proof (rule leaves_if, rule leaves_proceed)
    assume "?ids = []"
    then show "d0 = d0 \<and> (\<exists>sks. asked env user ?ids sks d0)" by (auto simp: asked_def assignable_def intro!: exI[of _ "[]"])
  next
    show "passes d0 (and_then (skills_checked env user (fa_slug a) ?ids) (\<lambda>sks. proceed (Some (Merged (merge_tools_configs (map sk_config sks))))))
        (\<lambda>_. \<exists>sks. asked env user ?ids sks d0)"
      by (rule leaves_then[OF skills_pass], rule leaves_proceed) (auto simp: asked_def)
  qed
  show "passes d0 (and_then (if ?ids = [] then proceed ?own
       else and_then (skills_checked env user (fa_slug a) ?ids) (\<lambda>sks. proceed (Some (Merged (merge_tools_configs (map sk_config sks))))))
       (\<lambda>tools. and_then (removal_checked env user a ?ids) (\<lambda>_. proceed tools)))
     (\<lambda>_. js_get body ''skill_ids'' \<noteq> Undef \<longrightarrow> reassignable env user a ?ids d0)"
    by (rule leaves_then[OF a], rule leaves_then[OF removal_pass], rule leaves_proceed) (simp add: reassignable_def)
qed

section \<open>The environment variables\<close>

definition env_asked :: "js \<Rightarrow> bool" where
  "env_asked body = (js_get body ''env_vars_set'' \<noteq> Undef \<or> js_get body ''env_vars_unset'' \<noteq> Undef)"

definition env_wanted :: "fleet_env \<Rightarrow> js \<Rightarrow> fleet_agent \<Rightarrow> (string \<times> js) list \<Rightarrow> sealed option \<Rightarrow> bool" where
  "env_wanted env body a vars sealed =
     (\<exists>old. decrypt_env_vars env (fa_env_encrypted a) (fa_env_nonce a) = Inr old
        \<and> (if env_asked body
           then vars = apply_env_delta old (the_arr (js_get body ''env_vars_unset'')) (obj_pairs (js_get body ''env_vars_set''))
             \<and> (\<exists>s k. sealed = Some s \<and> encrypt_env_vars env vars k = Inr s)
           else vars = old \<and> sealed = None))"

lemma env_delta_ends:
  "ends d0 (env_delta env body a)
     (\<lambda>(vars, sealed) d. untouched d0 d \<and> env_wanted env body a vars sealed) (untouched d0)"
proof (cases "decrypt_env_vars env (fa_env_encrypted a) (fa_env_nonce a)")
  case (Inl why)
  then show ?thesis by (simp add: env_delta_def Let_def ends_throw)
next
  case (Inr old)
  let ?vars = "apply_env_delta old (the_arr (js_get body ''env_vars_unset'')) (obj_pairs (js_get body ''env_vars_set''))"
  show ?thesis
  proof (cases "env_asked body")
    case False
    then have "env_delta env body a = proceed (old, None)" using Inr by (simp add: env_delta_def env_asked_def)
    then show ?thesis using False Inr by (auto simp: ends_def proceed_def env_wanted_def intro!: holds_ret)
  next
    case True
    then have e: "env_delta env body a = eff_bind (peek fl_count) (\<lambda>k.
            case encrypt_env_vars env ?vars k of
              Inl e \<Rightarrow> throw (Thrown (key_text e))
            | Inr s \<Rightarrow> eff_seq (local_step (\<lambda>d. d\<lparr>fl_count := Suc k\<rparr>)) (proceed (?vars, Some s)))"
      using Inr by (auto simp: env_delta_def env_asked_def Let_def)
    show ?thesis unfolding e
    proof (rule ends_bind[OF looks_peek])
      fix k
      show "ends d0 (case encrypt_env_vars env ?vars k of
              Inl e \<Rightarrow> throw (Thrown (key_text e))
            | Inr s \<Rightarrow> eff_seq (local_step (\<lambda>d. d\<lparr>fl_count := Suc k\<rparr>)) (proceed (?vars, Some s)))
          (\<lambda>(vars, sealed) d. untouched d0 d \<and> env_wanted env body a vars sealed) (untouched d0)"
      proof (cases "encrypt_env_vars env ?vars k")
        case (Inr s)
        have "env_wanted env body a ?vars (Some s)" using True \<open>decrypt_env_vars _ _ _ = _\<close> Inr by (auto simp: env_wanted_def)
        then show ?thesis unfolding Inr sum.case ends_def proceed_def
          by (intro holds_seq[where R = "\<lambda>_ d. untouched d0 d"] holds_local holds_ret) (auto simp: untouched_def)
      qed (simp add: ends_throw)
    qed simp
  qed
qed

lemma ends_switch:
  assumes "ends d0 m (\<lambda>y d. untouched d0 d \<and> G y) (untouched d0)"
    and "\<And>y d1. G y \<Longrightarrow> untouched d0 d1 \<Longrightarrow> ends d1 (f y) W E" and "\<And>d. untouched d0 d \<Longrightarrow> E d"
  shows "ends d0 (and_then m f) W E"
  unfolding ends_def and_then_def
proof (rule holds_bind_exact)
  show "holds (\<lambda>d. d = d0) m (\<lambda>r d. case r of Inl x \<Rightarrow> (\<exists>st msg. x = Refused st msg) \<and> untouched d0 d | Inr y \<Rightarrow> untouched d0 d \<and> G y) E"
    using assms(1)[unfolded ends_def] by (rule holds_conseq) (auto intro: assms(3))
  fix r d1
  assume r: "case r of Inl x \<Rightarrow> (\<exists>st msg. x = Refused st msg) \<and> untouched d0 d1 | Inr y \<Rightarrow> untouched d0 d1 \<and> G y"
  show "holds (\<lambda>d. d = d1) (case r of Inl x \<Rightarrow> ret (Inl x) | Inr y \<Rightarrow> f y)
      (\<lambda>r d. case r of Inl x \<Rightarrow> (\<exists>st msg. x = Refused st msg) \<and> untouched d0 d | Inr y \<Rightarrow> W y d) E"
  proof (cases r)
    case (Inl x)
    then show ?thesis using r by (auto intro: holds_ret)
  next
    case (Inr y)
    then have u: "untouched d0 d1" "G y" using r by simp_all
    show ?thesis unfolding Inr sum.case
      by (rule holds_conseq[OF assms(2)[OF u(2,1), unfolded ends_def]]) (auto split: sum.splits intro: untouched_trans[OF u(1)])
  qed
qed

section \<open>The writes of an update\<close>

definition planned :: "fleet_agent \<Rightarrow> model_plan \<Rightarrow> string option option \<Rightarrow> policy_row list \<Rightarrow> policy_row list \<Rightarrow> bool" where
  "planned a plan policy ps ps' =
     (case plan of
        KeepPolicy \<Rightarrow> policy = None \<and> ps' = ps
      | SetPolicy p \<Rightarrow> policy = Some p \<and> ps' = ps
      | ReusePolicy p ms \<Rightarrow> policy = Some (Some p) \<and> ps' = map (\<lambda>x. if po_id x = p then x\<lparr>po_models := ms\<rparr> else x) ps
      | UpsertPolicy ms \<Rightarrow> (\<exists>p. policy = Some (Some p) \<and> gave_models (fa_id a) (fa_owner a) p ms ps ps'))"

lemma run_plan_outcome:
  assumes "policies_keyed d0"
  shows "holds (\<lambda>d. d = d0) (run_plan env a plan)
     (\<lambda>policy d. planned a plan policy (fl_policies d0) (fl_policies d) \<and> d = d0\<lparr>fl_policies := fl_policies d, fl_count := fl_count d\<rparr>)
     (\<lambda>_. True)"
proof (cases plan)
  case (ReusePolicy p ms)
  show ?thesis unfolding run_plan_def ReusePolicy model_plan.case update_policy_def
    by (rule holds_seq[where R = "\<lambda>_ d. d = d0\<lparr>fl_policies := map (\<lambda>x. if po_id x = p then x\<lparr>po_models := ms\<rparr> else x) (fl_policies d0)\<rparr>"])
      (auto simp: planned_def intro!: holds_write holds_ret)
next
  case (UpsertPolicy ms)
  show ?thesis unfolding run_plan_def UpsertPolicy model_plan.case
    by (rule holds_bind[OF upsert_outcome[OF assms]], rule holds_ret) (auto simp: planned_def)
qed (auto simp: run_plan_def planned_def intro: holds_ret)

definition written ::
  "fleet_env \<Rightarrow> js \<Rightarrow> fleet_agent \<Rightarrow> model_plan \<Rightarrow> stored_tools option \<Rightarrow> string option option \<Rightarrow> sealed option \<Rightarrow> fleet_db \<Rightarrow> fleet_agent \<Rightarrow> fleet_db \<Rightarrow> bool" where
  "written env body a plan tools profile sealed d0 b d =
     (\<exists>policy pids ks. b = updated_row env body tools policy profile pids sealed a \<and> row_fits b
        \<and> sql_int (js_get body ''pids_limit'') = Some pids
        \<and> planned a plan policy (fl_policies d0) (fl_policies d)
        \<and> fl_agents d = map (\<lambda>x. if fa_id x = fa_id a then b else x) (fl_agents d0)
        \<and> (if js_get body ''skill_ids'' = Undef then fl_assigned d = fl_assigned d0
           else ks = map (canon_id env) (the_arr (js_get body ''skill_ids''))
             \<and> (\<forall>v \<in> set (the_arr (js_get body ''skill_ids'')). sql_uuid env v = Some (Some (canon_id env v)))
             \<and> set ks \<subseteq> sk_id ` set (fl_skills d0)
             \<and> fl_assigned d = filter (\<lambda>x. as_agent x \<noteq> fa_id a) (fl_assigned d0) @
                  map (\<lambda>k. \<lparr>as_agent = fa_id a, as_skill = k\<rparr>) ks)
        \<and> d = d0\<lparr>fl_agents := fl_agents d, fl_assigned := fl_assigned d, fl_policies := fl_policies d, fl_count := fl_count d\<rparr>)"

lemma find_keyed:
  "distinct (map fa_id A) \<Longrightarrow> a \<in> set A \<Longrightarrow> find (\<lambda>x. fa_id x = fa_id a) A = Some a"
  by (induction A) auto

lemma write_agent_outcome:
  assumes "distinct (map fa_id (fl_agents d0))" "a \<in> set (fl_agents d0)"
  shows "holds (\<lambda>d. d = d0) (write_agent (fa_id a) f)
     (\<lambda>row d. row = Some (f a) \<and> row_fits (f a)
        \<and> d = d0\<lparr>fl_agents := map (\<lambda>x. if fa_id x = fa_id a then f a else x) (fl_agents d0)\<rparr>) (\<lambda>_. True)"
proof -
  have same: "x = a" if "x \<in> set (fl_agents d0)" "fa_id x = fa_id a" for x
    using assms that by (auto simp: distinct_map inj_on_def)
  have "change_agent (fa_id a) f d0 = d0\<lparr>fl_agents := map (\<lambda>x. if fa_id x = fa_id a then f a else x) (fl_agents d0)\<rparr>"
    unfolding change_agent_def by (intro arg_cong2[where f = "\<lambda>A d. d\<lparr>fl_agents := A\<rparr>"] map_cong refl) (auto dest: same)
  then show ?thesis unfolding write_agent_def
    by (intro holds_query) (auto simp: find_fleet_def find_keyed[OF assms] split: if_splits)
qed

definition keyed :: "fleet_db \<Rightarrow> bool" where
  "keyed d = (policies_keyed d \<and> distinct (map fa_id (fl_agents d)))"

lemma store_update_outcome:
  assumes "keyed d0" "a \<in> set (fl_agents d0)"
  shows "holds (\<lambda>d. d = d0) (store_update env body a plan tools profile sealed)
     (written env body a plan tools profile sealed d0) (\<lambda>d. d = d0)"
  unfolding store_update_def
proof (rule holds_transaction_exact, rule holds_bind_exact[OF run_plan_outcome])
  show "policies_keyed d0" using assms(1) by (simp add: keyed_def)
next
  fix policy d1
  assume p: "planned a plan policy (fl_policies d0) (fl_policies d1) \<and> d1 = d0\<lparr>fl_policies := fl_policies d1, fl_count := fl_count d1\<rparr>"
  then obtain P k where d1: "d1 = d0\<lparr>fl_policies := P, fl_count := k\<rparr>" and pl: "planned a plan policy (fl_policies d0) P" by force
  let ?f = "\<lambda>pids. updated_row env body tools policy profile pids sealed"
  let ?rest = "\<lambda>row. case row of
        None \<Rightarrow> throw (Thrown ''Cannot set properties of undefined'')
      | Some b \<Rightarrow> (if js_get body ''skill_ids'' = Undef then ret b
           else eff_seq (clear_skills (fa_id a))
             (eff_seq (add_all (add_skill env (fa_id a)) (the_arr (js_get body ''skill_ids''))) (ret b)))"
  show "holds (\<lambda>d. d = d1) (eff_bind (case sql_int (js_get body ''pids_limit'') of
            None \<Rightarrow> db_query (\<lambda>_. Inl DbFault)
          | Some pids \<Rightarrow> write_agent (fa_id a) (?f pids)) ?rest)
      (written env body a plan tools profile sealed d0) (\<lambda>_. True)"
  proof (cases "sql_int (js_get body ''pids_limit'')")
    case None
    show ?thesis unfolding None option.case
      by (rule holds_bind[where R = "\<lambda>_ _. False"], rule holds_query) (simp_all add: holds_def)
  next
    case (Some pids)
    have k: "distinct (map fa_id (fl_agents d1))" "a \<in> set (fl_agents d1)" using assms d1 by (simp_all add: keyed_def)
    show ?thesis unfolding Some option.case
    proof (rule holds_bind_exact[OF write_agent_outcome[OF k]], elim conjE)
      fix row d2
      let ?b = "?f pids a"
      assume row: "row = Some ?b" and fits: "row_fits ?b"
        and d2: "d2 = d1\<lparr>fl_agents := map (\<lambda>x. if fa_id x = fa_id a then ?b else x) (fl_agents d1)\<rparr>"
      have w: "written env body a plan tools profile sealed d0 ?b d"
        if "d = d2\<lparr>fl_assigned := A\<rparr>" "if js_get body ''skill_ids'' = Undef then A = fl_assigned d0
           else (\<forall>v \<in> set (the_arr (js_get body ''skill_ids'')). sql_uuid env v = Some (Some (canon_id env v)))
             \<and> set (map (canon_id env) (the_arr (js_get body ''skill_ids''))) \<subseteq> sk_id ` set (fl_skills d0)
             \<and> A = filter (\<lambda>x. as_agent x \<noteq> fa_id a) (fl_assigned d0) @
                  map (\<lambda>k. \<lparr>as_agent = fa_id a, as_skill = k\<rparr>) (map (canon_id env) (the_arr (js_get body ''skill_ids'')))" for d A
        unfolding written_def
        by (intro exI[of _ policy] exI[of _ pids] exI[of _ "map (canon_id env) (the_arr (js_get body ''skill_ids''))"])
          (use that fits Some pl in \<open>simp add: d2 d1 split: if_splits\<close>)
      show "holds (\<lambda>d. d = d2) (?rest row) (written env body a plan tools profile sealed d0) (\<lambda>_. True)"
        unfolding row option.case
      proof (rule holds_if, rule holds_ret)
        fix d assume "js_get body ''skill_ids'' = Undef" "d = d2"
        then show "written env body a plan tools profile sealed d0 ?b d" by (intro w[of d "fl_assigned d0"]) (simp_all add: d2 d1)
      next
        assume ids: "js_get body ''skill_ids'' \<noteq> Undef"
        let ?d3 = "d2\<lparr>fl_assigned := filter (\<lambda>x. as_agent x \<noteq> fa_id a) (fl_assigned d2)\<rparr>"
        show "holds (\<lambda>d. d = d2) (eff_seq (clear_skills (fa_id a))
             (eff_seq (add_all (add_skill env (fa_id a)) (the_arr (js_get body ''skill_ids''))) (ret ?b)))
            (written env body a plan tools profile sealed d0) (\<lambda>_. True)"
        proof (rule holds_seq_exact[where R = "\<lambda>_ d. d = ?d3"])
          show "holds (\<lambda>d. d = d2) (clear_skills (fa_id a)) (\<lambda>_ d. d = ?d3) (\<lambda>_. True)"
            unfolding clear_skills_def by (rule holds_write) auto
          fix d3 assume d3: "d3 = ?d3"
          show "holds (\<lambda>d. d = d3) (eff_seq (add_all (add_skill env (fa_id a)) (the_arr (js_get body ''skill_ids''))) (ret ?b))
            (written env body a plan tools profile sealed d0) (\<lambda>_. True)"
          proof (rule holds_seq[OF gives_all[OF gives_skill, unfolded gives_def, THEN spec]], rule holds_ret)
            fix d
            assume g: "gave (fa_id a) (map (canon_id env) (the_arr (js_get body ''skill_ids'')))
              (\<forall>v \<in> set (the_arr (js_get body ''skill_ids'')). sql_uuid env v = Some (Some (canon_id env v))) d3 d"
            show "written env body a plan tools profile sealed d0 ?b d"
              by (rule w[of d "fl_assigned d"]) (use g ids in \<open>auto simp: gave_def d3 d2 d1\<close>)
          qed
        qed
      qed
    qed
  qed
qed

section \<open>The route\<close>

definition plan_sound :: "fleet_env \<Rightarrow> js \<Rightarrow> fleet_agent \<Rightarrow> model_plan \<Rightarrow> fleet_db \<Rightarrow> bool" where
  "plan_sound env user a plan d =
     (plan_ok env a plan d \<and> (\<forall>p. plan = SetPolicy (Some p) \<longrightarrow>
        (\<exists>q \<in> set (fl_policies d). po_id q = p \<and> usable_policy env user (fa_owner a) q d)))"

definition change_ok :: "fleet_env \<Rightarrow> js \<Rightarrow> string \<Rightarrow> js \<Rightarrow> fleet_agent \<Rightarrow> model_plan \<Rightarrow> fleet_db \<Rightarrow> bool" where
  "change_ok env user i body a plan d =
     (a \<in> set (fl_agents d) \<and> fe_uuid env i = Some (fa_id a) \<and> agent_visible env user a \<and> fa_status a \<noteq> ''running''
      \<and> resources_ok body \<and> env_valid body \<and> plan_sound env user a plan d
      \<and> (js_get body ''skill_ids'' \<noteq> Undef \<longrightarrow> reassignable env user a (the_arr (js_get body ''skill_ids'')) d))"

definition changed :: "fleet_env \<Rightarrow> js \<Rightarrow> string \<Rightarrow> js \<Rightarrow> fleet_db \<Rightarrow> (string \<times> js) list \<Rightarrow> fleet_agent \<Rightarrow> fleet_db \<Rightarrow> bool" where
  "changed env user i body d0 vars b d =
     (\<exists>a plan tools profile sealed d1. change_ok env user i body a plan d0 \<and> env_wanted env body a vars sealed
        \<and> untouched d0 d1 \<and> written env body a plan tools profile sealed d1 b d)"

definition update_answer :: "fleet_env \<Rightarrow> js \<Rightarrow> string \<Rightarrow> js \<Rightarrow> fleet_db \<Rightarrow> crud_resp \<Rightarrow> fleet_db \<Rightarrow> bool" where
  "update_answer env user i body d0 resp d =
     (\<exists>vars b ms sks. resp = Answer 200 ((card_of b ms sks)\<lparr>ac_tags := Some (fa_tags b), ac_env_keys := Some (env_var_keys vars)\<rparr>)
        \<and> changed env user i body d0 vars b d)"

definition maybe_changed :: "fleet_env \<Rightarrow> js \<Rightarrow> string \<Rightarrow> js \<Rightarrow> fleet_db \<Rightarrow> fleet_db \<Rightarrow> bool" where
  "maybe_changed env user i body d0 d = (untouched d0 d \<or> (\<exists>vars b. changed env user i body d0 vars b d))"

lemma keyed_untouched: "untouched d0 d \<Longrightarrow> keyed d0 \<Longrightarrow> keyed d"
  by (elim untouchedE) (simp add: keyed_def policies_keyed_def)

text \<open>From the transaction on: the row is saved, and what fails after it does not undo that.\<close>

lemma update_end:
  assumes "keyed d0" "change_ok env user i body a plan d0" "env_wanted env body a vars sealed" "untouched d0 d1"
  shows "ends d1 (eff_bind (store_update env body a plan tools profile sealed) (\<lambda>b.
          eff_bind (skill_cards (fa_id a)) (\<lambda>sks.
          eff_bind (resolve_agent_models (fa_policy b)) (\<lambda>ms.
          proceed (Answer 200 ((card_of b ms sks)\<lparr>ac_tags := Some (fa_tags b), ac_env_keys := Some (env_var_keys vars)\<rparr>))))))
     (update_answer env user i body d0) (maybe_changed env user i body d0)"
  unfolding ends_def
proof (rule holds_bind)
  have a: "a \<in> set (fl_agents d1)" using assms(2,4) untouched_fields(1) by (fastforce simp: change_ok_def)
  show "holds (\<lambda>d. d = d1) (store_update env body a plan tools profile sealed)
      (written env body a plan tools profile sealed d1) (maybe_changed env user i body d0)"
    by (rule holds_conseq[OF store_update_outcome[OF keyed_untouched[OF assms(4,1)] a]])
      (auto simp: maybe_changed_def assms(4))
  fix b
  let ?P = "written env body a plan tools profile sealed d1 b"
  have ch: "changed env user i body d0 vars b d" if "?P d" for d
    unfolding changed_def using assms that by blast
  have e: "maybe_changed env user i body d0 d" if "?P d" for d using ch[OF that] by (auto simp: maybe_changed_def)
  have r1: "holds ?P (skill_cards (fa_id a)) (\<lambda>_. ?P) (maybe_changed env user i body d0)"
    unfolding skill_cards_def by (rule holds_read) (auto intro: e)
  have r2: "holds ?P (resolve_agent_models p) (\<lambda>_. ?P) (maybe_changed env user i body d0)" for p
  proof (cases p)
    case None
    then show ?thesis by (simp add: resolve_agent_models_def holds_ret)
  next
    case (Some x)
    show ?thesis unfolding Some resolve_agent_models_def option.case select_policy_id_def
      by (rule holds_bind[where R = "\<lambda>_. ?P"], rule holds_read) (auto intro: e holds_ret)
  qed
  show "holds ?P (eff_bind (skill_cards (fa_id a)) (\<lambda>sks.
          eff_bind (resolve_agent_models (fa_policy b)) (\<lambda>ms.
          proceed (Answer 200 ((card_of b ms sks)\<lparr>ac_tags := Some (fa_tags b), ac_env_keys := Some (env_var_keys vars)\<rparr>)))))
      (\<lambda>r d. case r of Inl x \<Rightarrow> (\<exists>st msg. x = Refused st msg) \<and> untouched d1 d | Inr y \<Rightarrow> update_answer env user i body d0 y d)
      (maybe_changed env user i body d0)"
  proof (rule holds_bind[OF r1], rule holds_bind[OF r2], unfold proceed_def, rule holds_ret, simp only: sum.case)
    fix sks ms d assume "?P d"
    then show "update_answer env user i body d0
        (Answer 200 ((card_of b ms sks)\<lparr>ac_tags := Some (fa_tags b), ac_env_keys := Some (env_var_keys vars)\<rparr>)) d"
      unfolding update_answer_def using ch by blast
  qed
qed

lemma passes_both: "passes d0 m G \<Longrightarrow> passes d0 m H \<Longrightarrow> passes d0 m (\<lambda>y. G y \<and> H y)"
  unfolding leaves_def
proof (rule holdsI)
  let ?S = "\<lambda>G r d. case r of Inl x \<Rightarrow> (\<exists>st msg. x = Refused st msg) \<and> untouched d0 d | Inr y \<Rightarrow> d = d0 \<and> G y"
  assume g: "holds (\<lambda>d. d = d0) m (?S G) (untouched d0)" and h: "holds (\<lambda>d. d = d0) m (?S H) (untouched d0)"
  show "?S (\<lambda>y. G y \<and> H y) x (db w')" if "db w = d0" "m w = (Inr x, w')" for w x w'
    using holds_Inr[OF g that(2,1)] holds_Inr[OF h that(2,1)] by (cases x) auto
  show "untouched d0 (db w')" if "db w = d0" "m w = (Inl e, w')" for w e w'
    using holds_Inl[OF g that(2,1)] .
qed

lemma plan_step:
  assumes "\<forall>p. policy = Some p \<longrightarrow> (\<exists>q \<in> set (fl_policies d0). po_id q = p \<and> usable_policy env user (fa_owner a) q d0)"
  shows "passes d0 (if b then proceed (if c then KeepPolicy else SetPolicy policy) else plan_models env a wanted)
     (\<lambda>plan. plan_sound env user a plan d0)"
proof (rule leaves_if, rule leaves_proceed)
  show "d0 = d0 \<and> plan_sound env user a (if c then KeepPolicy else SetPolicy policy) d0"
    using assms by (simp add: plan_sound_def plan_ok_def)
next
  have no: "plan_ok env a plan d0 \<and> (\<forall>p. plan \<noteq> SetPolicy (Some p)) \<Longrightarrow> plan_sound env user a plan d0" for plan
    by (simp add: plan_sound_def)
  have "passes d0 (plan_models env a wanted) (\<lambda>plan. \<forall>p. plan \<noteq> SetPolicy (Some p))"
    unfolding plan_models_def select_policy_id_def
    by (rule leaves_then[OF models_pass], rule leaves_if, rule leaves_proceed, simp)
      (auto split: option.split intro!: leaves_proceed leaves_bind[OF looks_read])
  then show "passes d0 (plan_models env a wanted) (\<lambda>plan. plan_sound env user a plan d0)"
    by (rule passes_weaken[OF passes_both[OF plan_pass]]) (rule no)
qed

lemma policy_given:
  "passes d0 (if nullish v then proceed None else policy_checked env user owner v)
     (\<lambda>p. \<forall>x. p = Some x \<longrightarrow> (\<exists>q \<in> set (fl_policies d0). po_id q = x \<and> usable_policy env user owner q d0))"
  by (rule leaves_if, rule leaves_proceed, simp, rule passes_weaken[OF policy_pass], force)

lemma ends_option:
  "(r = None \<Longrightarrow> ends d0 m W E) \<Longrightarrow> (\<And>a. r = Some a \<Longrightarrow> ends d0 (f a) W E) \<Longrightarrow>
   ends d0 (case r of None \<Rightarrow> m | Some a \<Rightarrow> f a) W E"
  by (cases r) auto

lemma ends_pair: "(\<And>a b. p = (a, b) \<Longrightarrow> ends d0 (f a b) W E) \<Longrightarrow> ends d0 (case p of (a, b) \<Rightarrow> f a b) W E"
  by (cases p) auto

lemma update_outcome:
  assumes "keyed (db w)" "update_agent env user i body w = (r, w')"
  shows "\<exists>resp. r = Inr resp \<and> ((\<exists>st msg. resp = Refused st msg) \<and> untouched (db w) (db w')
     \<or> update_answer env user i body (db w) resp (db w')
     \<or> maybe_changed env user i body (db w) (db w') \<and> (resp = Refused 500 ''Failed to update agent''
         \<or> (None :: string option) \<noteq> None \<and> (\<exists>msg. resp = Refused 409 msg)))"
  by (rule answer_ends[OF assms(2)[unfolded update_agent_def],
        where W = "update_answer env user i body (db w)" and E = "maybe_changed env user i body (db w)"],
      unfold Let_def,
      rule ends_if, rule ends_throw, simp add: maybe_changed_def, rule ends_then[OF legacy_pass],
      rule ends_bind[OF own_agent_looks], rule ends_option, rule ends_refuse, rule ends_then[OF passes_ensure],
      rule ends_then[OF env_pass], rule ends_then[OF tags_pass], rule ends_then[OF resources_pass],
      rule ends_then[OF lists_pass], rule ends_then[OF policy_given], rule ends_then[OF profile_pass],
      rule ends_then[OF plan_step], assumption, rule ends_then[OF tools_pass],
      rule ends_switch[OF env_delta_ends[unfolded case_prod_unfold]], rule ends_pair, rule update_end[OF assms(1)])
    (auto simp: change_ok_def resources_ok_def maybe_changed_def)

end
