(* ===== verification/AgentProps.thy ===== *)
theory AgentProps
  imports UpdateFrame LifecycleProps
begin

text \<open>
  What the routes that create, import, change and copy agents guarantee, and where they do not
  keep what the others promise.
\<close>

section \<open>All or nothing\<close>

text \<open>
  C12: Creating and importing an agent is all or nothing. Whatever query fails and whenever, the
  request is answered; a refusal leaves every agent, every skill assignment and every model
  policy as it was, and 201 means that exactly one agent has been appended: it belongs to
  the caller, has an id and a slug of its own, is stopped and has no container and no tokens,
  and it has got exactly the skills listed in the answer. Policies other than the agent's own
  are left alone.
\<close>

theorem creation_all_or_nothing:
  assumes "policies_keyed (db w)"
    and "create_agent env user body w = (r, w') \<or> import_agent env user body w = (r, w')"
  shows "\<exists>resp. r = Inr resp \<and>
    ((\<exists>st msg. resp = Refused st msg) \<and> fl_agents (db w') = fl_agents (db w)
        \<and> fl_assigned (db w') = fl_assigned (db w) \<and> fl_policies (db w') = fl_policies (db w)
     \<or> (\<exists>c a ks. resp = Answer 201 c \<and> fl_agents (db w') = fl_agents (db w) @ [a]
        \<and> fa_id a \<notin> set (map fa_id (fl_agents (db w))) \<and> fa_slug a \<notin> set (map fa_slug (fl_agents (db w)))
        \<and> fa_owner a = caller_sub env user \<and> fa_status a = ''stopped'' \<and> fa_container a = None
        \<and> fa_work a = None \<and> fa_akm_jti a = None \<and> fa_mr_jti a = None
        \<and> ac_id c = fa_id a \<and> ac_policy c = fa_policy a
        \<and> fl_assigned (db w') = fl_assigned (db w) @ map (\<lambda>k. \<lparr>as_agent = fa_id a, as_skill = k\<rparr>) ks
        \<and> ac_skills c = map (\<lambda>s. (sk_id s, sk_name s, sk_scope s)) (skills_of (fa_id a) (db w'))
        \<and> (\<forall>q. po_name q \<noteq> auto_policy_name (fa_id a) \<longrightarrow> (q \<in> set (fl_policies (db w')) \<longleftrightarrow> q \<in> set (fl_policies (db w))))))"
proof -
  obtain resp where r: "r = Inr resp" and o: "new_agent_outcome env user body (db w) resp (db w')"
    using creating.outcome[OF assms(1)] importing.outcome[OF assms(1)] assms(2) by blast
  from o show ?thesis unfolding new_agent_outcome_def
  proof (elim disjE exE conjE)
    fix st msg assume "untouched (db w) (db w')" "resp = Refused st msg"
    then show ?thesis using r untouched_fields[of "db w" "db w'"] by auto
  next
    fix c assume resp: "resp = Answer 201 c" and "new_agent env user body (db w) c (db w')"
    then obtain tools policy profile names ks where
      "created (new_row env user body tools policy profile) names ks (db w) c (db w')"
      unfolding new_agent_def by blast
    then obtain a ms where a: "a = (new_row env user body tools policy profile)\<lparr>fa_policy := fa_policy a, fa_id := fa_id a\<rparr>"
        "fa_id a \<notin> set (map fa_id (fl_agents (db w)))" "fa_slug a \<notin> set (map fa_slug (fl_agents (db w)))"
        "fl_agents (db w') = fl_agents (db w) @ [a]" "modelled (new_row env user body tools policy profile) a names ms (db w) (db w')"
        "fl_assigned (db w') = fl_assigned (db w) @ map (\<lambda>k. \<lparr>as_agent = fa_id a, as_skill = k\<rparr>) ks"
        "c = card_of a ms (map (\<lambda>s. (sk_id s, sk_name s, sk_scope s)) (skills_of (fa_id a) (db w')))"
      unfolding created_def by blast
    have row: "fa_owner a = caller_sub env user" "fa_status a = ''stopped''" "fa_container a = None" "fa_work a = None"
        "fa_akm_jti a = None" "fa_mr_jti a = None"
      by (subst a(1), simp add: new_row_def blank_agent_def)+
    have "po_name q \<noteq> auto_policy_name (fa_id a) \<longrightarrow> (q \<in> set (fl_policies (db w')) \<longleftrightarrow> q \<in> set (fl_policies (db w)))" for q
      using a(5) by (auto simp: modelled_def gave_models_def split: option.splits list.splits)
    then show ?thesis using r resp a row by (intro exI[of _ resp] conjI disjI2 exI[of _ c] exI[of _ a] exI[of _ ks]) (simp_all add: card_of_def)
  qed
qed

section \<open>Elevated skills\<close>

datatype skill_request =
    Create js
  | Import js
  | Update string js
  | AssignSkill string js
  | RemoveSkill string string

fun after :: "fleet_env \<Rightarrow> js \<times> skill_request \<Rightarrow> fleet_db world \<Rightarrow> fleet_db world" where
  "after env (user, Create body) w = snd (create_agent env user body w)"
| "after env (user, Import body) w = snd (import_agent env user body w)"
| "after env (user, Update i body) w = snd (update_agent env user i body w)"
| "after env (user, AssignSkill i body) w = snd (assign_skill env user i body w)"
| "after env (user, RemoveSkill i k) w = snd (remove_skill env user i k w)"

text \<open>The assignments of elevated skills.\<close>

definition elevated_pairs :: "fleet_db \<Rightarrow> assignment set" where
  "elevated_pairs d = {x \<in> set (fl_assigned d). \<exists>s \<in> set (fl_skills d). sk_id s = as_skill x \<and> is_elevated_scope (sk_scope s)}"

text \<open>Primary keys, and ids in the text form the database prints.\<close>

definition tidy :: "fleet_env \<Rightarrow> fleet_db \<Rightarrow> bool" where
  "tidy env d = (keyed d \<and> distinct (map sk_id (fl_skills d)) \<and> (\<forall>s \<in> set (fl_skills d). fe_uuid env (sk_id s) = Some (sk_id s)))"

lemma same_skill: "tidy env d \<Longrightarrow> s \<in> set (fl_skills d) \<Longrightarrow> t \<in> set (fl_skills d) \<Longrightarrow> sk_id s = sk_id t \<Longrightarrow> s = t"
  by (auto simp: tidy_def distinct_map inj_on_def)

lemma plain_ids:
  assumes "tidy env d" "set sks \<subseteq> set (fl_skills d)" "assignable env user sks" "\<not> is_admin (fe_client env) user"
    and "k \<in> sk_id ` set sks" "s \<in> set (fl_skills d)" "sk_id s = k"
  shows "\<not> is_elevated_scope (sk_scope s)"
proof -
  obtain t where "t \<in> set sks" "sk_id t = k" using assms(5) by auto
  then have "s = t" using same_skill[OF assms(1,6)] assms(2,7) by auto
  then show ?thesis using assms(3,4) \<open>t \<in> set sks\<close> by (auto simp: assignable_def)
qed

lemma elevated_untouched: "untouched d d' \<Longrightarrow> elevated_pairs d' = elevated_pairs d"
  by (simp add: elevated_pairs_def untouched_fields)

lemma tidy_untouched: "untouched d d' \<Longrightarrow> tidy env d \<Longrightarrow> tidy env d'"
  using keyed_untouched untouched_fields(4) by (metis tidy_def)

lemma new_agent_plain:
  assumes "tidy env d" "new_agent env user body d c d'" "\<not> is_admin (fe_client env) user"
  shows "tidy env d' \<and> elevated_pairs d' = elevated_pairs d"
proof -
  obtain tools policy profile names sks ks where
      cr: "created (new_row env user body tools policy profile) names ks d c d'"
      and s: "set sks \<subseteq> set (fl_skills d)" "set ks = sk_id ` set sks" "assignable env user sks"
    using assms(2) unfolding new_agent_def by (elim exE conjE, intro that) assumption+
  let ?row = "new_row env user body tools policy profile"
  obtain a ms where a: "fa_id a \<notin> set (map fa_id (fl_agents d))" "fl_agents d' = fl_agents d @ [a]"
      "modelled ?row a names ms d d'"
      "fl_assigned d' = fl_assigned d @ map (\<lambda>k. \<lparr>as_agent = fa_id a, as_skill = k\<rparr>) ks"
      and fr: "d' = d\<lparr>fl_agents := fl_agents d', fl_assigned := fl_assigned d', fl_policies := fl_policies d', fl_count := fl_count d'\<rparr>"
    using cr unfolding created_def by blast
  have sk: "fl_skills d' = fl_skills d" by (subst fr) simp
  have "policies_keyed d'" using a(3) assms(1)
    by (auto simp: modelled_def gave_models_def tidy_def keyed_def policies_keyed_def split: option.splits list.splits)
  then have "tidy env d'" using a(1,2) assms(1) by (auto simp: tidy_def keyed_def sk)
  moreover have "\<not> is_elevated_scope (sk_scope s)" if "sk_id s \<in> set ks" "s \<in> set (fl_skills d)" for s
    using plain_ids[OF assms(1) s(1,3) assms(3) _ that(2) refl] s(2) that(1) by simp
  then have "elevated_pairs d' = elevated_pairs d" by (auto simp: elevated_pairs_def sk a(4))
  ultimately show ?thesis ..
qed

lemma changed_plain:
  assumes t: "tidy env d" and ch: "changed env user i body d vars b d'" and "\<not> is_admin (fe_client env) user"
  shows "tidy env d' \<and> elevated_pairs d' = elevated_pairs d"
proof -
  obtain a plan tools profile sealed d1 where ok: "change_ok env user i body a plan d" and u: "untouched d d1"
      and w: "written env body a plan tools profile sealed d1 b d'"
    using ch unfolding changed_def by blast
  let ?ids = "the_arr (js_get body ''skill_ids'')"
  obtain policy pids ks where b: "b = updated_row env body tools policy profile pids sealed a"
      and p: "planned a plan policy (fl_policies d1) (fl_policies d')"
      and ag: "fl_agents d' = map (\<lambda>x. if fa_id x = fa_id a then b else x) (fl_agents d1)"
      and sk: "if js_get body ''skill_ids'' = Undef then fl_assigned d' = fl_assigned d1
           else ks = map (canon_id env) ?ids \<and> (\<forall>v \<in> set ?ids. sql_uuid env v = Some (Some (canon_id env v)))
             \<and> set ks \<subseteq> sk_id ` set (fl_skills d1)
             \<and> fl_assigned d' = filter (\<lambda>x. as_agent x \<noteq> fa_id a) (fl_assigned d1) @ map (\<lambda>k. \<lparr>as_agent = fa_id a, as_skill = k\<rparr>) ks"
      and fr: "d' = d1\<lparr>fl_agents := fl_agents d', fl_assigned := fl_assigned d', fl_policies := fl_policies d', fl_count := fl_count d'\<rparr>"
    using w unfolding written_def by blast
  have s1: "fl_skills d' = fl_skills d1" by (subst fr) simp
  note u' = untouched_fields[OF u]
  have "policies_keyed d'" using p t u'(2)
    by (auto simp: planned_def gave_models_def tidy_def keyed_def policies_keyed_def o_def if_distrib cong: if_cong split: model_plan.splits)
  moreover have "map fa_id (fl_agents d') = map fa_id (fl_agents d)"
    by (auto simp: ag u'(1) b updated_row_def)
  ultimately have "tidy env d'" using t by (simp add: tidy_def keyed_def s1 u'(4))
  moreover have "elevated_pairs d' = elevated_pairs d"
  proof (cases "js_get body ''skill_ids'' = Undef")
    case True
    then show ?thesis using sk by (simp add: elevated_pairs_def s1 u')
  next
    case False
    then obtain sks where sks: "asked env user ?ids sks d"
        and keep: "\<forall>s \<in> set (skills_of (fa_id a) d). is_elevated_scope (sk_scope s) \<longrightarrow> Str (sk_id s) \<in> set ?ids"
      using ok assms(3) by (auto simp: change_ok_def reassignable_def)
    have ks: "ks = map (canon_id env) ?ids" "\<forall>v \<in> set ?ids. sql_uuid env v = Some (Some (canon_id env v))"
        "set ks \<subseteq> sk_id ` set (fl_skills d)"
      using sk unfolding if_not_P[OF False] u'(4) by blast+
    have given: "set sks \<subseteq> set (fl_skills d)" "set ks = sk_id ` set sks"
      using asked_given[OF sks ks(2)] ks(1,3) by (simp_all del: set_map)
    have "assignable env user sks" using sks by (simp add: asked_def)
    then have plain: "\<not> is_elevated_scope (sk_scope s)" if "sk_id s \<in> set ks" "s \<in> set (fl_skills d)" for s
      using plain_ids[OF t given(1) _ assms(3) _ that(2) refl] given(2) that(1) by simp
    have gone: "\<not> is_elevated_scope (sk_scope s)" if "\<lparr>as_agent = fa_id a, as_skill = sk_id s\<rparr> \<in> set (fl_assigned d)" "s \<in> set (fl_skills d)" for s
    proof
      assume e: "is_elevated_scope (sk_scope s)"
      have "s \<in> set (skills_of (fa_id a) d)" using that by (force simp: skills_of_def)
      then have i: "Str (sk_id s) \<in> set ?ids" using keep e by blast
      have "canon_id env (Str (sk_id s)) = sk_id s"
        using t that(2) by (simp add: canon_id_def sql_uuid_def sql_text_def fleet_show_def tidy_def)
      then have "sk_id s \<in> set ks" using i sk False by force
      then show False using plain that(2) e by simp
    qed
    have assigned: "fl_assigned d' = filter (\<lambda>x. as_agent x \<noteq> fa_id a) (fl_assigned d) @ map (\<lambda>k. \<lparr>as_agent = fa_id a, as_skill = k\<rparr>) ks"
      using sk False u'(3) by simp
    show ?thesis
    proof (intro set_eqI iffI)
      fix x assume "x \<in> elevated_pairs d'"
      then show "x \<in> elevated_pairs d" using plain
        by (auto simp: elevated_pairs_def assigned s1 u'(4))
    next
      fix x assume "x \<in> elevated_pairs d"
      then obtain s where x: "x \<in> set (fl_assigned d)" "s \<in> set (fl_skills d)" "sk_id s = as_skill x" "is_elevated_scope (sk_scope s)"
        by (auto simp: elevated_pairs_def)
      have "as_agent x \<noteq> fa_id a" using gone[of s] x by (cases x) auto
      then show "x \<in> elevated_pairs d'" using x by (auto simp: elevated_pairs_def assigned s1 u'(4))
    qed
  qed
  ultimately show ?thesis ..
qed

lemma skill_outcome_plain:
  assumes t: "tidy env d" and o: "skill_outcome env user i d st d'" and "\<not> is_admin (fe_client env) user"
  shows "elevated_pairs d' = elevated_pairs d"
  using o unfolding skill_outcome_def
proof (elim disjE exE conjE)
  assume "unchanged d d'" then show ?thesis by (simp add: unchanged_def elevated_pairs_def)
next
  have plain: "elevated_pairs d1 = elevated_pairs d"
    if "admitted env user i d a s" "edited \<lparr>as_agent = fa_id a, as_skill = sk_id s\<rparr> d d1" for a s d1
  proof -
    have "\<not> is_elevated_scope (sk_scope t')" if "t' \<in> set (fl_skills d)" "sk_id t' = sk_id s" for t'
      using same_skill[OF t that(1), of s] that(2) \<open>admitted env user i d a s\<close> assms(3) by (auto simp: admitted_def)
    then show ?thesis using that(2) by (auto simp: elevated_pairs_def edited_def)
  qed
  fix a s d1 assume a: "admitted env user i d a s" "edited \<lparr>as_agent = fa_id a, as_skill = sk_id s\<rparr> d d1"
  { assume "unchanged d1 d'" then show ?thesis using plain[OF a] by (simp add: unchanged_def elevated_pairs_def) }
  { assume "recomputed (fa_id a) d1 d'" then show ?thesis using plain[OF a] by (simp add: recomputed_def elevated_pairs_def) }
qed

lemma keeps_skill_gate:
  assumes "\<And>d a. I d \<Longrightarrow> I (d\<lparr>fl_audit := a\<rparr>)" "\<And>s. keeps I (go s)"
  shows "keeps I (skill_gate env user i v den go)"
  unfolding skill_gate_def select_own_agent_def select_skill_def fleet_audit_def
  by (auto intro!: keeps_bind keeps_seq keeps_ret keeps_local keeps_fleet_query keeps_query assms split: option.split js.split)

lemma keeps_skill_routes:
  assumes "\<And>d a. I d \<Longrightarrow> I (d\<lparr>fl_audit := a\<rparr>)" "\<And>d a. I d \<Longrightarrow> I (d\<lparr>fl_assigned := a\<rparr>)"
    and "\<And>d u t. I d \<Longrightarrow> I (change_agent u (\<lambda>a. a\<lparr>fa_tools := t\<rparr>) d)"
  shows "keeps I (assign_skill env user i body)" "keeps I (remove_skill env user i k)"
proof -
  have "keeps I (insert_assignment env i s)" for s
    unfolding insert_assignment_def by (rule keeps_query) (auto simp: Let_def assms(2) split: option.splits if_splits)
  moreover have "keeps I (delete_assignment env i s)" for s
    unfolding delete_assignment_def by (rule keeps_fleet_query) (simp add: Let_def assms(2))
  moreover have "keeps I (store_config env i c)" for c
    unfolding store_config_def by (rule keeps_update_fleet) (rule assms(3))
  moreover have "keeps I (select_configs env i)" unfolding select_configs_def by (rule keeps_fleet_query) simp
  moreover have "keeps I (fleet_audit x y z)" for x y z unfolding fleet_audit_def by (rule keeps_local) (rule assms(1))
  ultimately show "keeps I (assign_skill env user i body)" "keeps I (remove_skill env user i k)"
    unfolding assign_skill_def remove_skill_def answer_500_def
    by (auto intro!: keeps_catch keeps_bind keeps_seq keeps_ret keeps_throw keeps_skill_gate keeps_try assms(1) split: exn.split sum.split)
qed

lemma skill_routes_tidy:
  assumes "tidy env (db w)"
  shows "tidy env (db (snd (assign_skill env user i body w)))" "tidy env (db (snd (remove_skill env user i k w)))"
proof -
  have t: "tidy env (d\<lparr>fl_audit := a\<rparr>) = tidy env d" "tidy env (d\<lparr>fl_assigned := x\<rparr>) = tidy env d"
      "tidy env (change_agent u (\<lambda>a. a\<lparr>fa_tools := t\<rparr>) d) = tidy env d" for d a x u t
    by (simp_all add: tidy_def keyed_def policies_keyed_def change_agent_def o_def if_distrib cong: if_cong)
  show "tidy env (db (snd (assign_skill env user i body w)))" "tidy env (db (snd (remove_skill env user i k w)))"
    using keepsD[OF keeps_skill_routes(1)[of "tidy env"], of w env user i body] keepsD[OF keeps_skill_routes(2)[of "tidy env"], of w env user i k]
      assms by (simp_all add: t)
qed

lemma after_plain:
  assumes "tidy env (db w)" "\<not> is_admin (fe_client env) (fst uq)"
  shows "tidy env (db (after env uq w)) \<and> elevated_pairs (db (after env uq w)) = elevated_pairs (db w)"
proof (cases uq)
  case (Pair user q)
  have k: "keyed (db w)" "policies_keyed (db w)" using assms(1) by (auto simp: tidy_def keyed_def)
  have na: "\<not> is_admin (fe_client env) user" using assms(2) Pair by simp
  have made: "tidy env (db w') \<and> elevated_pairs (db w') = elevated_pairs (db w)"
    if "new_agent_outcome env user body (db w) resp (db w')" for body resp w'
    using that new_agent_plain[OF assms(1) _ na] tidy_untouched[OF _ assms(1)] elevated_untouched
    unfolding new_agent_outcome_def by blast
  show ?thesis
  proof (cases q)
    case (Create body)
    then show ?thesis using creating.outcome[OF k(2) prod.collapse[symmetric], of env user body] made Pair by fastforce
  next
    case (Import body)
    then show ?thesis using importing.outcome[OF k(2) prod.collapse[symmetric], of env user body] made Pair by fastforce
  next
    case (Update i body)
    have "untouched (db w) (db (snd (update_agent env user i body w)))
        \<or> (\<exists>vars b. changed env user i body (db w) vars b (db (snd (update_agent env user i body w))))"
      using update_outcome[OF k(1) prod.collapse[symmetric], of env user i body] by (auto simp: maybe_changed_def update_answer_def)
    then show ?thesis using changed_plain[OF assms(1) _ na] tidy_untouched[OF _ assms(1)] elevated_untouched Pair Update by auto
  next
    case (AssignSkill i body)
    obtain st where "assign_skill env user i body w = (Inr st, snd (assign_skill env user i body w))"
      using skill_answers(1)[of env user i body w] by (metis prod.collapse)
    then show ?thesis using skill_outcome_plain[OF assms(1) assign_outcome na] skill_routes_tidy(1)[OF assms(1)] Pair AssignSkill by auto
  next
    case (RemoveSkill i k)
    obtain st where "remove_skill env user i k w = (Inr st, snd (remove_skill env user i k w))"
      using skill_answers(2)[of env user i k w] by (metis prod.collapse)
    then show ?thesis using skill_outcome_plain[OF assms(1) remove_outcome na] skill_routes_tidy(2)[OF assms(1)] Pair RemoveSkill by auto
  qed
qed

text \<open>
  C11: Elevated skills change hands through administrators only. Whatever requests callers who
  are not administrators make, in whatever order and whatever fails, to create, import or
  change agents and to assign or remove skills: afterwards exactly the same agents have the
  skills that reach the host as before, none was given one and none has lost one.
\<close>

theorem elevation_needs_admin:
  assumes "tidy env (db w)" and "\<forall>uq \<in> set qs. \<not> is_admin (fe_client env) (fst uq)"
  shows "elevated_pairs (db (fold (after env) qs w)) = elevated_pairs (db w)"
  using assms
proof (induction qs arbitrary: w)
  case (Cons uq qs)
  then show ?case using after_plain[of env w uq] by simp
qed simp

section \<open>Clones\<close>

lemma add_assignments_run:
  assumes "\<forall>k \<in> set ks. find_skill k d \<noteq> None" "find_fleet u d \<noteq> None" "distinct ks"
    and "\<forall>k \<in> set ks. \<lparr>as_agent = u, as_skill = k\<rparr> \<notin> set (fl_assigned d)"
  shows "add_all (add_assignment u) ks \<lparr>faults = [], db = d\<rparr> =
     (Inr (), \<lparr>faults = [], db = d\<lparr>fl_assigned := fl_assigned d @ map (\<lambda>k. \<lparr>as_agent = u, as_skill = k\<rparr>) ks\<rparr>\<rparr>)"
  using assms
proof (induction ks arbitrary: d)
  case Nil
  then show ?case by (simp add: ret_def)
next
  case (Cons k ks)
  let ?d = "d\<lparr>fl_assigned := fl_assigned d @ [\<lparr>as_agent = u, as_skill = k\<rparr>]\<rparr>"
  have "add_assignment u k \<lparr>faults = [], db = d\<rparr> = (Inr (), \<lparr>faults = [], db = ?d\<rparr>)"
    using Cons.prems by (simp add: add_assignment_def query_eval Let_def)
  moreover have "add_all (add_assignment u) ks \<lparr>faults = [], db = ?d\<rparr> =
     (Inr (), \<lparr>faults = [], db = ?d\<lparr>fl_assigned := fl_assigned ?d @ map (\<lambda>k. \<lparr>as_agent = u, as_skill = k\<rparr>) ks\<rparr>\<rparr>)"
    using Cons.prems by (intro Cons.IH) (auto simp: find_skill_def find_fleet_def)
  ultimately show ?case by (simp add: eff_seq_def eff_bind_def)
qed

definition own_skill_ids :: "string \<Rightarrow> fleet_db \<Rightarrow> string list" where
  "own_skill_ids u d = map as_skill (filter (\<lambda>x. as_agent x = u) (fl_assigned d))"

lemma distinct_own_skills: "distinct (fl_assigned d) \<Longrightarrow> distinct (own_skill_ids u d)"
proof -
  have same: "x = y" if "as_agent x = as_agent y" "as_skill x = as_skill y" for x y :: assignment
    using that by (cases x; cases y) simp
  have "inj_on as_skill {x :: assignment. as_agent x = u}" by (rule inj_onI) (simp add: same)
  then show "distinct (fl_assigned d) \<Longrightarrow> distinct (own_skill_ids u d)"
    unfolding own_skill_ids_def distinct_map by (auto elim: inj_on_subset)
qed

text \<open>Assignments refer to skills and agents that exist, and no pair is there twice.\<close>

definition assigned_sound :: "fleet_db \<Rightarrow> bool" where
  "assigned_sound d = (distinct (fl_assigned d) \<and> (\<forall>x \<in> set (fl_assigned d). find_skill (as_skill x) d \<noteq> None
     \<and> find_fleet (as_agent x) d \<noteq> None))"

lemma clone_run:
  assumes src: "fe_uuid env i = Some (fa_id src)" "find_fleet (fa_id src) d = Some src" "fa_policy src = None"
    and body: "\<not> nullish body" and sound: "assigned_sound d"
    and fresh: "fe_new_id env (fl_count d) \<notin> set (map fa_id (fl_agents d))"
    and fits: "row_fits (cloned_row env user body src (clone_slug (fa_slug src)
        (filter (\<lambda>s. startsWith s (clone_base (fa_slug src))) (map fa_slug (fl_agents d)))) None)"
  shows "\<exists>c a d'. clone_agent env user i body \<lparr>faults = [], db = d\<rparr> = (Inr (Answer 201 c), \<lparr>faults = [], db = d'\<rparr>)
    \<and> ac_id c = fa_id a \<and> fa_id a = fe_new_id env (fl_count d) \<and> fa_owner a = caller_sub env user
    \<and> fl_agents d' = fl_agents d @ [a] \<and> fl_skills d' = fl_skills d
    \<and> fl_assigned d' = fl_assigned d @ map (\<lambda>k. \<lparr>as_agent = fa_id a, as_skill = k\<rparr>) (own_skill_ids (fa_id src) d)"
proof -
  let ?taken = "filter (\<lambda>s. startsWith s (clone_base (fa_slug src))) (map fa_slug (fl_agents d))"
  let ?slug = "clone_slug (fa_slug src) ?taken"
  let ?row = "cloned_row env user body src ?slug None"
  define a where "a = ?row\<lparr>fa_policy := or_else (fa_policy ?row) (default_policy d), fa_id := fe_new_id env (fl_count d)\<rparr>"
  let ?d1 = "d\<lparr>fl_agents := fl_agents d @ [a], fl_count := Suc (fl_count d)\<rparr>"
  let ?ks = "own_skill_ids (fa_id src) d"
  let ?d2 = "?d1\<lparr>fl_assigned := fl_assigned d @ map (\<lambda>k. \<lparr>as_agent = fa_id a, as_skill = k\<rparr>) ?ks\<rparr>"
  have slug: "?slug \<notin> set (map fa_slug (fl_agents d))"
  proof
    assume s: "?slug \<in> set (map fa_slug (fl_agents d))"
    have "startsWith ?slug (clone_base (fa_slug src))" 
      using startsWith_append[of "clone_base (fa_slug src)" "[]"] by (simp add: clone_slug_def numbered_def)
    then have "?slug \<in> set ?taken" using s by auto
    then show False using clone_slug_free by blast
  qed
  have ins: "insert_with_default env ?row \<lparr>faults = [], db = d\<rparr> = (Inr a, \<lparr>faults = [], db = ?d1\<rparr>)"
    using fits fresh slug
    by (simp add: insert_with_default_def insert_agent_def query_eval Let_def a_def row_fits_def cloned_row_def)
  have add: "add_all (add_assignment (fa_id a)) ?ks \<lparr>faults = [], db = ?d1\<rparr> = (Inr (), \<lparr>faults = [], db = ?d2\<rparr>)"
  proof -
    have "find_skill k ?d1 \<noteq> None" if "k \<in> set ?ks" for k
      using that sound by (auto simp: own_skill_ids_def assigned_sound_def find_skill_def)
    moreover have "find_fleet (fa_id a) ?d1 \<noteq> None" by (auto simp: find_fleet_def find_None_iff)
    moreover have "distinct ?ks" using sound distinct_own_skills by (simp add: assigned_sound_def)
    moreover have "\<lparr>as_agent = fa_id a, as_skill = k\<rparr> \<notin> set (fl_assigned ?d1)" for k
      using sound fresh by (force simp: assigned_sound_def find_fleet_def find_None_iff a_def)
    ultimately show ?thesis by (subst add_assignments_run) simp_all
  qed
  have kept: "\<exists>ms. cloned_models env src None a \<lparr>faults = [], db = ?d2\<rparr> = (Inr (fa_policy a, ms), \<lparr>faults = [], db = ?d2\<rparr>)"
    by (auto simp: cloned_models_def src(3) kept_models_def resolve_agent_models_def select_policy_id_def
        eff_bind_def read_eval ret_def split: option.split)
  then obtain ms where ms: "cloned_models env src None a \<lparr>faults = [], db = ?d2\<rparr> = (Inr (fa_policy a, ms), \<lparr>faults = [], db = ?d2\<rparr>)" by blast
  have "clone_agent env user i body \<lparr>faults = [], db = d\<rparr> =
      (Inr (Answer 201 (card_of (a\<lparr>fa_policy := fa_policy a\<rparr>) ms (map (\<lambda>s. (sk_id s, sk_name s, sk_scope s)) (skills_of (fa_id a) ?d2)))),
       \<lparr>faults = [], db = ?d2\<rparr>)"
    using src body ins add ms
    by (simp add: clone_agent_def answer_with_def eff_catch_def eff_bind_def eff_seq_def select_agent_def fleet_query_def query_eval
        read_eval ret_def cloned_policy_def proceed_def skill_cards_def own_skill_ids_def)
  moreover have "fa_id a = fe_new_id env (fl_count d)" by (simp add: a_def)
  moreover have "fa_owner a = caller_sub env user" by (simp add: a_def cloned_row_def)
  moreover have "ac_id (card_of (a\<lparr>fa_policy := p\<rparr>) ms x) = fa_id a" for p x by (simp add: card_of_def)
  moreover have "fl_agents ?d2 = fl_agents d @ [a]" "fl_skills ?d2 = fl_skills d"
      "fl_assigned ?d2 = fl_assigned d @ map (\<lambda>k. \<lparr>as_agent = fa_id a, as_skill = k\<rparr>) ?ks" by simp_all
  ultimately show ?thesis by blast
qed

text \<open>
  A clone hands elevated skills to anybody. \<open>POST /agents/:id/clone\<close> neither asks whose agent
  it copies nor who may assign its skills: whenever nothing fails, any signed-in caller who
  names an agent gets 201 and a copy of it that the caller owns, with every skill of the
  source; so a source with a skill that reaches the host gives that skill to an agent of a
  caller who is no administrator.
\<close>

theorem clone_hands_over_elevation:
  assumes "fe_uuid env i = Some (fa_id src)" "find_fleet (fa_id src) d = Some src" "fa_policy src = None"
    and "\<not> nullish body" "assigned_sound d" "fe_new_id env (fl_count d) \<notin> set (map fa_id (fl_agents d))"
    and "row_fits (cloned_row env user body src (clone_slug (fa_slug src)
        (filter (\<lambda>s. startsWith s (clone_base (fa_slug src))) (map fa_slug (fl_agents d)))) None)"
  shows "\<exists>c a d'. clone_agent env user i body \<lparr>faults = [], db = d\<rparr> = (Inr (Answer 201 c), \<lparr>faults = [], db = d'\<rparr>)
    \<and> fl_agents d' = fl_agents d @ [a] \<and> fa_owner a = caller_sub env user \<and> ac_id c = fa_id a
    \<and> (\<forall>s \<in> set (skills_of (fa_id src) d). \<lparr>as_agent = fa_id a, as_skill = sk_id s\<rparr> \<in> set (fl_assigned d'))
    \<and> (\<forall>s \<in> set (skills_of (fa_id src) d). is_elevated_scope (sk_scope s) \<longrightarrow>
         \<lparr>as_agent = fa_id a, as_skill = sk_id s\<rparr> \<in> elevated_pairs d' - elevated_pairs d)"
proof -
  obtain c a d' where r: "clone_agent env user i body \<lparr>faults = [], db = d\<rparr> = (Inr (Answer 201 c), \<lparr>faults = [], db = d'\<rparr>)"
      "ac_id c = fa_id a" "fa_id a = fe_new_id env (fl_count d)" "fa_owner a = caller_sub env user"
      "fl_agents d' = fl_agents d @ [a]" "fl_skills d' = fl_skills d"
      "fl_assigned d' = fl_assigned d @ map (\<lambda>k. \<lparr>as_agent = fa_id a, as_skill = k\<rparr>) (own_skill_ids (fa_id src) d)"
    using clone_run[OF assms] by blast
  have own: "sk_id s \<in> set (own_skill_ids (fa_id src) d) \<and> s \<in> set (fl_skills d)" if "s \<in> set (skills_of (fa_id src) d)" for s
    using that by (auto simp: skills_of_def own_skill_ids_def)
  have old: "\<lparr>as_agent = fa_id a, as_skill = k\<rparr> \<notin> set (fl_assigned d)" for k
    using assms(5,6) r(3) by (force simp: assigned_sound_def find_fleet_def find_None_iff)
  show ?thesis
    by (rule exI[of _ c], rule exI[of _ a], rule exI[of _ d'])
      (use r own old in \<open>auto simp: elevated_pairs_def\<close>)
qed

section \<open>The statements at work\<close>

definition demo_new :: js where
  "demo_new = Obj [(''agent_id'', Str ''new''), (''name'', Str ''New''), (''skill_ids'', Arr [Str ''s1''])]"

theorem creation_all_or_nothing_witness:
  "map fa_slug (fl_agents (db (snd (create_agent demo_fleet_env demo_admin demo_new demo_fleet_world)))) = [''box'', ''new'']
   \<and> (\<exists>resp. fst (create_agent demo_fleet_env demo_admin demo_new demo_fleet_world) = Inr resp)"
proof
  show "map fa_slug (fl_agents (db (snd (create_agent demo_fleet_env demo_admin demo_new demo_fleet_world)))) = [''box'', ''new'']"
    by code_simp
  have "policies_keyed (db demo_fleet_world)" by code_simp
  then show "\<exists>resp. fst (create_agent demo_fleet_env demo_admin demo_new demo_fleet_world) = Inr resp"
    using creation_all_or_nothing[OF _ disjI1[OF prod.collapse[symmetric]], of demo_fleet_world demo_fleet_env demo_admin demo_new] by blast
qed

text \<open>The same fleet with a skill that reaches the host, and a caller who is no administrator.\<close>

definition demo_host :: "fleet_db world" where
  "demo_host = \<lparr>faults = [], db = demo_fleet\<lparr>fl_skills := [demo_skill\<lparr>sk_scope := ''host_docker''\<rparr>]\<rparr>\<rparr>"

definition demo_plain :: js where
  "demo_plain = Obj [(''sub'', Str ''u1'')]"

lemma demo_host_tidy: "tidy demo_fleet_env (db demo_host)"
  by (simp add: tidy_def keyed_def policies_keyed_def demo_host_def demo_fleet_def demo_fleet_env_def demo_box_def demo_skill_def)

theorem elevation_needs_admin_witness:
  "elevated_pairs (db (fold (after demo_fleet_env)
      [(demo_plain, Create demo_new), (demo_plain, RemoveSkill ''a1'' ''s1''), (demo_plain, Update ''a1'' (Obj [(''skill_ids'', Arr [])]))] demo_host))
   = {\<lparr>as_agent = ''a1'', as_skill = ''s1''\<rparr>}"
proof -
  have "\<not> is_admin (fe_client demo_fleet_env) demo_plain" by code_simp
  then have "elevated_pairs (db (fold (after demo_fleet_env)
      [(demo_plain, Create demo_new), (demo_plain, RemoveSkill ''a1'' ''s1''), (demo_plain, Update ''a1'' (Obj [(''skill_ids'', Arr [])]))] demo_host))
    = elevated_pairs (db demo_host)"
    by (intro elevation_needs_admin demo_host_tidy) simp
  also have "\<dots> = {\<lparr>as_agent = ''a1'', as_skill = ''s1''\<rparr>}"
    by (auto simp: elevated_pairs_def demo_host_def demo_fleet_def demo_skill_def is_elevated_scope_def elevated_scopes_def)
  finally show ?thesis .
qed

theorem clone_hands_over_elevation_witness:
  "\<exists>c (a :: fleet_agent) d'. clone_agent demo_fleet_env (Obj [(''sub'', Str ''u2'')]) ''a1'' (Obj []) demo_host = (Inr (Answer 201 c), \<lparr>faults = [], db = d'\<rparr>)
     \<and> fa_owner a = ''u2'' \<and> \<lparr>as_agent = fa_id a, as_skill = ''s1''\<rparr> \<in> elevated_pairs d'"
proof -
  have s: "demo_skill\<lparr>sk_scope := ''host_docker''\<rparr> \<in> set (skills_of ''a1'' (db demo_host))" "is_elevated_scope ''host_docker''"
    by (code_simp, code_simp)
  have "\<exists>c a d'. clone_agent demo_fleet_env (Obj [(''sub'', Str ''u2'')]) ''a1'' (Obj []) \<lparr>faults = [], db = db demo_host\<rparr> =
        (Inr (Answer 201 c), \<lparr>faults = [], db = d'\<rparr>)
    \<and> fl_agents d' = fl_agents (db demo_host) @ [a] \<and> fa_owner a = caller_sub demo_fleet_env (Obj [(''sub'', Str ''u2'')]) \<and> ac_id c = fa_id a
    \<and> (\<forall>s \<in> set (skills_of (fa_id demo_box) (db demo_host)). \<lparr>as_agent = fa_id a, as_skill = sk_id s\<rparr> \<in> set (fl_assigned d'))
    \<and> (\<forall>s \<in> set (skills_of (fa_id demo_box) (db demo_host)). is_elevated_scope (sk_scope s) \<longrightarrow>
         \<lparr>as_agent = fa_id a, as_skill = sk_id s\<rparr> \<in> elevated_pairs d' - elevated_pairs (db demo_host))"
  proof (rule clone_hands_over_elevation)
    show "fe_uuid demo_fleet_env ''a1'' = Some (fa_id demo_box)" "find_fleet (fa_id demo_box) (db demo_host) = Some demo_box"
      "fa_policy demo_box = None" "\<not> nullish (Obj [])" "assigned_sound (db demo_host)"
      by (simp_all add: demo_fleet_env_def demo_box_def demo_host_def demo_fleet_def find_fleet_def assigned_sound_def find_skill_def demo_skill_def)
    show "fe_new_id demo_fleet_env (fl_count (db demo_host)) \<notin> set (map fa_id (fl_agents (db demo_host)))" by code_simp
    show "row_fits (cloned_row demo_fleet_env (Obj [(''sub'', Str ''u2'')]) (Obj []) demo_box (clone_slug (fa_slug demo_box)
        (filter (\<lambda>s. startsWith s (clone_base (fa_slug demo_box))) (map fa_slug (fl_agents (db demo_host))))) None)" by code_simp
  qed
  then obtain c and a :: fleet_agent and d' where c: "clone_agent demo_fleet_env (Obj [(''sub'', Str ''u2'')]) ''a1'' (Obj []) \<lparr>faults = [], db = db demo_host\<rparr> =
        (Inr (Answer 201 c), \<lparr>faults = [], db = d'\<rparr>)" "fa_owner a = caller_sub demo_fleet_env (Obj [(''sub'', Str ''u2'')])"
      "\<forall>s \<in> set (skills_of (fa_id demo_box) (db demo_host)). is_elevated_scope (sk_scope s) \<longrightarrow>
         \<lparr>as_agent = fa_id a, as_skill = sk_id s\<rparr> \<in> elevated_pairs d' - elevated_pairs (db demo_host)" by blast
  have "caller_sub demo_fleet_env (Obj [(''sub'', Str ''u2'')]) = ''u2''" by code_simp
  moreover have "\<lparr>as_agent = fa_id a, as_skill = ''s1''\<rparr> \<in> elevated_pairs d'"
    using c(3)[rule_format, of "demo_skill\<lparr>sk_scope := ''host_docker''\<rparr>"] s by (simp add: demo_box_def demo_skill_def)
  moreover have "\<lparr>faults = [], db = db demo_host\<rparr> = demo_host" by (simp add: demo_host_def)
  ultimately show ?thesis using c(1,2) by auto
qed

end
