(* ===== verification/AgentLaws.thy ===== *)
theory AgentLaws
  imports AgentProps LifecycleDemo
begin

text \<open>
  What the update route guarantees of the row it changes, of the environment variables it keeps
  encrypted, and of the resource limits all routes store.
\<close>

section \<open>Update\<close>

lemma written_frame:
  assumes "written env body a plan tools profile sealed d b d'"
  shows "fl_agents d' = map (\<lambda>x. if fa_id x = fa_id a then b else x) (fl_agents d)" "row_fits b"
    "fl_skills d' = fl_skills d" "fl_models d' = fl_models d" "fl_webhooks d' = fl_webhooks d"
    "filter (\<lambda>x. as_agent x \<noteq> fa_id a) (fl_assigned d') = filter (\<lambda>x. as_agent x \<noteq> fa_id a) (fl_assigned d)"
    "\<exists>policy pids. b = updated_row env body tools policy profile pids sealed a \<and> sql_int (js_get body ''pids_limit'') = Some pids
        \<and> planned a plan policy (fl_policies d) (fl_policies d')"
proof -
  obtain policy pids ks where b: "b = updated_row env body tools policy profile pids sealed a" "row_fits b"
      "sql_int (js_get body ''pids_limit'') = Some pids" "planned a plan policy (fl_policies d) (fl_policies d')"
      "fl_agents d' = map (\<lambda>x. if fa_id x = fa_id a then b else x) (fl_agents d)"
      and sk: "if js_get body ''skill_ids'' = Undef then fl_assigned d' = fl_assigned d
           else ks = map (canon_id env) (the_arr (js_get body ''skill_ids''))
             \<and> (\<forall>v \<in> set (the_arr (js_get body ''skill_ids'')). sql_uuid env v = Some (Some (canon_id env v)))
             \<and> set ks \<subseteq> sk_id ` set (fl_skills d)
             \<and> fl_assigned d' = filter (\<lambda>x. as_agent x \<noteq> fa_id a) (fl_assigned d) @
                  map (\<lambda>k. \<lparr>as_agent = fa_id a, as_skill = k\<rparr>) ks"
      and fr: "d' = d\<lparr>fl_agents := fl_agents d', fl_assigned := fl_assigned d', fl_policies := fl_policies d', fl_count := fl_count d'\<rparr>"
    using assms unfolding written_def by blast
  show "fl_agents d' = map (\<lambda>x. if fa_id x = fa_id a then b else x) (fl_agents d)" "row_fits b" by (rule b)+
  show "fl_skills d' = fl_skills d" by (subst fr) simp
  show "fl_models d' = fl_models d" by (subst fr) simp
  show "fl_webhooks d' = fl_webhooks d" by (subst fr) simp
  show "filter (\<lambda>x. as_agent x \<noteq> fa_id a) (fl_assigned d') = filter (\<lambda>x. as_agent x \<noteq> fa_id a) (fl_assigned d)"
  proof -
    have "filter (\<lambda>x. as_agent x \<noteq> fa_id a) (map (\<lambda>k. \<lparr>as_agent = fa_id a, as_skill = k\<rparr>) ks) = []" by (simp add: filter_map o_def)
    then show ?thesis using sk by (auto split: if_splits)
  qed
  show "\<exists>policy pids. b = updated_row env body tools policy profile pids sealed a \<and> sql_int (js_get body ''pids_limit'') = Some pids
        \<and> planned a plan policy (fl_policies d) (fl_policies d')" using b by blast
qed

text \<open>One agent has been changed, and by a caller who may change it.\<close>

definition one_updated :: "fleet_env \<Rightarrow> js \<Rightarrow> string \<Rightarrow> fleet_agent \<Rightarrow> fleet_agent \<Rightarrow> fleet_db \<Rightarrow> fleet_db \<Rightarrow> bool" where
  "one_updated env user i a b d d' =
     (a \<in> set (fl_agents d) \<and> fe_uuid env i = Some (fa_id a) \<and> agent_visible env user a \<and> fa_status a \<noteq> ''running''
      \<and> fl_agents d' = map (\<lambda>x. if fa_id x = fa_id a then b else x) (fl_agents d)
      \<and> fa_id b = fa_id a \<and> fa_slug b = fa_slug a \<and> fa_owner b = fa_owner a \<and> fa_status b = fa_status a
      \<and> fa_container b = fa_container a \<and> fa_work b = fa_work a \<and> fa_akm_jti b = fa_akm_jti a \<and> fa_mr_jti b = fa_mr_jti a
      \<and> filter (\<lambda>x. as_agent x \<noteq> fa_id a) (fl_assigned d') = filter (\<lambda>x. as_agent x \<noteq> fa_id a) (fl_assigned d)
      \<and> fl_skills d' = fl_skills d \<and> fl_models d' = fl_models d \<and> fl_webhooks d' = fl_webhooks d)"

lemma changed_one:
  assumes "changed env user i body d vars b d'"
  shows "\<exists>a. one_updated env user i a b d d'"
proof -
  obtain a plan tools profile sealed d1 where ok: "change_ok env user i body a plan d" and u: "untouched d d1"
      and w: "written env body a plan tools profile sealed d1 b d'"
    using assms unfolding changed_def by blast
  note f = written_frame[OF w] and u' = untouched_fields[OF u]
  obtain policy pids where b: "b = updated_row env body tools policy profile pids sealed a" using f(7) by blast
  have "fa_id b = fa_id a" "fa_slug b = fa_slug a" "fa_owner b = fa_owner a" "fa_status b = fa_status a"
      "fa_container b = fa_container a" "fa_work b = fa_work a" "fa_akm_jti b = fa_akm_jti a" "fa_mr_jti b = fa_mr_jti a"
    unfolding b updated_row_def by simp_all
  then show ?thesis unfolding one_updated_def using ok f(1,3-6) u' by (intro exI[of _ a]) (simp add: change_ok_def)
qed

text \<open>
  C15: An update is confined to the agent it names. Whatever query fails and whenever, the request
  is answered; 200 means that exactly one row has changed, that of the agent with this id, which
  the caller may see and which was not running, and its id, slug, owner, status, container and
  tokens are as before, as are the skills of all others. A refusal other than 500 has changed no
  agent, skill or policy; after 500 either nothing or this one update has been stored.
\<close>

theorem update_is_confined:
  assumes "keyed (db w)" "update_agent env user i body w = (r, w')"
  shows "\<exists>resp. r = Inr resp \<and>
     (case resp of
        Answer st c \<Rightarrow> st = 200 \<and> (\<exists>a b. one_updated env user i a b (db w) (db w') \<and> ac_id c = fa_id b \<and> ac_status c = fa_status a
           \<and> ac_cpus c = fa_cpus b \<and> ac_mem c = fa_mem b \<and> ac_pids c = fa_pids b \<and> ac_policy c = fa_policy b)
      | Refused st msg \<Rightarrow>
          (fl_agents (db w') = fl_agents (db w) \<and> fl_assigned (db w') = fl_assigned (db w) \<and> fl_policies (db w') = fl_policies (db w))
          \<or> st = 500 \<and> (\<exists>a b. one_updated env user i a b (db w) (db w')))"
proof -
  obtain resp where r: "r = Inr resp" and o: "((\<exists>st msg. resp = Refused st msg) \<and> untouched (db w) (db w')
     \<or> update_answer env user i body (db w) resp (db w')
     \<or> maybe_changed env user i body (db w) (db w') \<and> resp = Refused 500 ''Failed to update agent'')"
    using update_outcome[OF assms] by auto
  show ?thesis
  proof (intro exI[of _ resp] conjI[OF r], cases resp)
    case (Refused st msg)
    then have "untouched (db w) (db w') \<or> st = 500 \<and> (\<exists>vars b. changed env user i body (db w) vars b (db w'))"
      using o by (auto simp: update_answer_def maybe_changed_def)
    then show "case resp of
        Answer st c \<Rightarrow> st = 200 \<and> (\<exists>a b. one_updated env user i a b (db w) (db w') \<and> ac_id c = fa_id b \<and> ac_status c = fa_status a
           \<and> ac_cpus c = fa_cpus b \<and> ac_mem c = fa_mem b \<and> ac_pids c = fa_pids b \<and> ac_policy c = fa_policy b)
      | Refused st msg \<Rightarrow>
          (fl_agents (db w') = fl_agents (db w) \<and> fl_assigned (db w') = fl_assigned (db w) \<and> fl_policies (db w') = fl_policies (db w))
          \<or> st = 500 \<and> (\<exists>a b. one_updated env user i a b (db w) (db w'))"
      unfolding Refused crud_resp.case using untouched_fields(1-3)[of "db w" "db w'"] changed_one by blast
  next
    case (Answer st c)
    then obtain vars b ms sks where c: "st = 200" "c = (card_of b ms sks)\<lparr>ac_tags := Some (fa_tags b), ac_env_keys := Some (env_var_keys vars)\<rparr>"
        and ch: "changed env user i body (db w) vars b (db w')"
      using o by (auto simp: update_answer_def)
    obtain a where a: "one_updated env user i a b (db w) (db w')" using changed_one[OF ch] by blast
    then show "case resp of
        Answer st c \<Rightarrow> st = 200 \<and> (\<exists>a b. one_updated env user i a b (db w) (db w') \<and> ac_id c = fa_id b \<and> ac_status c = fa_status a
           \<and> ac_cpus c = fa_cpus b \<and> ac_mem c = fa_mem b \<and> ac_pids c = fa_pids b \<and> ac_policy c = fa_policy b)
      | Refused st msg \<Rightarrow>
          (fl_agents (db w') = fl_agents (db w) \<and> fl_assigned (db w') = fl_assigned (db w) \<and> fl_policies (db w') = fl_policies (db w))
          \<or> st = 500 \<and> (\<exists>a b. one_updated env user i a b (db w) (db w'))"
      unfolding Answer crud_resp.case using c
      by (intro conjI exI[of _ a] exI[of _ b]) (simp_all add: card_of_def one_updated_def)
  qed
qed

section \<open>Environment variables\<close>

lemma map_of_js_set: "map_of (js_map_set m k v) = (map_of m)(k \<mapsto> v)"
  by (induction m k v rule: js_map_set.induct) auto

definition string_map :: "(string \<times> js) list \<Rightarrow> bool" where
  "string_map kvs = (distinct (map fst kvs) \<and> (\<forall>(k, v) \<in> set kvs. is_str v))"

lemma string_map_json: "string_map kvs \<Longrightarrow> json_ok (Obj kvs)"
proof -
  have "\<forall>(k, v) \<in> set kvs. is_str v \<Longrightarrow> members_ok kvs"
  proof (induction kvs)
    case (Cons x kvs)
    then show ?case by (cases x; cases "snd x") auto
  qed simp
  then show "string_map kvs \<Longrightarrow> json_ok (Obj kvs)" by (simp add: string_map_def)
qed

lemma string_map_set:
  assumes "string_map m" "is_str v" shows "string_map (js_map_set m k v)"
proof -
  have keys: "fst ` set (js_map_set m k v) = insert k (fst ` set m)" for m :: "(string \<times> js) list" and k v
    by (induction m k v rule: js_map_set.induct) auto
  have mem: "(a, b) \<in> set (js_map_set m k v) \<Longrightarrow> a = k \<or> a \<in> fst ` set m" for a b k v and m :: "(string \<times> js) list"
    using keys[of m k v] by (metis fst_conv imageI insertE)
  show ?thesis using assms unfolding string_map_def
    by (induction m k v rule: js_map_set.induct) (auto simp: keys dest: mem split: if_splits)
qed

lemma string_map_delta:
  assumes "string_map old" "string_map added" shows "string_map (apply_env_delta old unset added)"
proof -
  have "string_map m \<Longrightarrow> \<forall>(k, v) \<in> set xs. is_str v \<Longrightarrow> string_map (foldl (\<lambda>m (k, v). js_map_set m k v) m xs)" for m and xs :: "(string \<times> js) list"
  proof (induction xs arbitrary: m)
    case (Cons x xs)
    then show ?case by (cases x) (simp add: string_map_set)
  qed simp
  moreover have "string_map (filter (\<lambda>(k, v). Str k \<notin> set unset) old)"
    using assms(1) by (auto simp: string_map_def distinct_map_filter)
  ultimately show ?thesis using assms(2) unfolding apply_env_delta_def string_map_def[of added] by blast
qed

lemma map_of_added:
  "distinct (map fst xs) \<Longrightarrow> map_of (foldl (\<lambda>m (k, v). js_map_set m k v) m xs) k =
     (case map_of xs k of Some v \<Rightarrow> Some v | None \<Rightarrow> map_of m k)" for m :: "(string \<times> js) list"
proof (induction xs arbitrary: m)
  case (Cons x xs)
  show ?case
  proof (cases x)
    case (Pair k' v)
    have "map_of xs k' = None" using Cons.prems Pair by (simp add: map_of_eq_None_iff)
    then show ?thesis using Cons Pair by (auto simp: map_of_js_set split: option.split)
  qed
qed simp

lemma map_of_delta:
  assumes "distinct (map fst added)"
  shows "map_of (apply_env_delta old unset added) k =
    (case map_of added k of Some v \<Rightarrow> Some v | None \<Rightarrow> if Str k \<in> set unset then None else map_of old k)"
proof -
  have "map_of (filter (\<lambda>(k, v). Str k \<notin> set unset) old) k = (if Str k \<in> set unset then None else map_of old k)"
    by (induction old) auto
  then show ?thesis unfolding apply_env_delta_def map_of_added[OF assms] by (simp split: option.split)
qed

lemma decrypt_encrypted_vars:
  assumes "cipher_laws (fe_cipher env)" "usable_key hex" "fe_enc_key env = Some hex" "string_map vars"
    and "encrypt_env_vars env vars k = Inr (c, n)"
  shows "decrypt_env_vars env (Some c) (Some n) = Inr vars"
proof -
  have key: "configured_key (fe_enc_key env) = Inr hex" using assms(2,3) by (cases hex) (auto simp: configured_key_def usable_key_def)
  have "encrypt_provider_key (fe_cipher env) (js_stringify (tl_fmt (fe_lib env)) (Obj vars)) hex k = Inr (c, n)"
    using assms(5) key by (simp add: encrypt_env_vars_def)
  from decrypt_encrypted[OF assms(1,2) this] show ?thesis
    using json_roundtrip[OF string_map_json[OF assms(4)]] key by (simp add: decrypt_env_vars_def obj_pairs_def)
qed

lemma one_row:
  assumes "keyed d" "a \<in> set (fl_agents d)" "b \<in> set (fl_agents d)" "fa_id a = fa_id b" shows "a = b"
  using assms by (auto simp: keyed_def distinct_map inj_on_def)


lemma visible_looks:
  "looks d0 (select_visible env user i) (\<lambda>row. \<forall>a ms. row = Some (a, ms) \<longrightarrow>
     a \<in> set (fl_agents d0) \<and> fe_uuid env i = Some (fa_id a) \<and> agent_visible env user a \<and> ms = policy_models (fa_policy a) d0)"
  unfolding select_visible_def fleet_query_def
  by (rule looks_query) (auto dest: find_SomeD split: option.splits)

text \<open>
  An agent whose variables do not decrypt is frozen. After the key of the process has been
  changed, or lost, every read and every update of an agent with stored variables is refused,
  whatever it asks for, and leaves every agent, skill and policy as it was, so there is no
  request that would drop the unreadable variables or change the agent otherwise.
\<close>

theorem undecryptable_is_frozen:
  assumes "keyed (db w)" "a \<in> set (fl_agents (db w))" "fe_uuid env i = Some (fa_id a)"
    and "decrypt_env_vars env (fa_env_encrypted a) (fa_env_nonce a) = Inl why"
    and "update_agent env user i body w = (r, w') \<or> get_agent env user i w = (r, w')"
  shows "\<exists>st msg. r = Inr (Refused st msg) \<and> fl_agents (db w') = fl_agents (db w)
     \<and> fl_assigned (db w') = fl_assigned (db w) \<and> fl_policies (db w') = fl_policies (db w)"
  using assms(5)
proof
  assume up: "update_agent env user i body w = (r, w')"
  have no: "\<not> changed env user i body (db w) vars b d'" for vars b d'
  proof
    assume "changed env user i body (db w) vars b d'"
    then obtain a' plan sealed where ok: "change_ok env user i body a' plan (db w)" and want: "env_wanted env body a' vars sealed"
      unfolding changed_def by blast
    have "a' \<in> set (fl_agents (db w))" "fa_id a' = fa_id a" using ok assms(3) by (auto simp: change_ok_def)
    then have "a' = a" using one_row[OF assms(1) _ assms(2)] by blast
    then show False using want assms(4) by (auto simp: env_wanted_def)
  qed
  then show ?thesis using update_outcome[OF assms(1) up] untouched_fields(1-3)[of "db w" "db w'"]
    by (auto simp: update_answer_def maybe_changed_def)
next
  assume get: "get_agent env user i w = (r, w')"
  have "\<exists>resp. r = Inr resp \<and> ((\<exists>st msg. resp = Refused st msg) \<and> untouched (db w) (db w') \<or> False)"
  proof (rule answer_outcome[OF get[unfolded get_agent_def], where W = "\<lambda>_ _. False"], rule leaves_bind[OF visible_looks])
    fix row
    assume row: "\<forall>a ms. row = Some (a, ms) \<longrightarrow> a \<in> set (fl_agents (db w)) \<and> fe_uuid env i = Some (fa_id a)
       \<and> agent_visible env user a \<and> ms = policy_models (fa_policy a) (db w)"
    have "b = a" if "row = Some (b, ms)" for b ms using row that assms(3) one_row[OF assms(1) _ assms(2)] by auto
    then show "leaves (db w) (case row of
        None \<Rightarrow> refuse 404 ''Agent not found''
      | Some (a, ms) \<Rightarrow>
          (case decrypt_env_vars env (fa_env_encrypted a) (fa_env_nonce a) of
             Inl why \<Rightarrow> throw (Thrown why)
           | Inr vars \<Rightarrow>
               eff_bind (peek id) (\<lambda>d.
               eff_bind (skill_cards (fa_id a)) (\<lambda>sks.
               proceed (Answer 200 (shown_status d a
                 ((card_of a ms sks)\<lparr>ac_tags := Some (fa_tags a), ac_env_keys := Some (env_var_keys vars)\<rparr>))))))) (\<lambda>_ _. False)"
      using assms(4) by (cases row) (auto intro: leaves_refuse leaves_throw)
  qed
  then show ?thesis using untouched_fields(1-3)[of "db w" "db w'"] by auto
qed

lemma transaction_run: "m \<lparr>faults = [], db = d\<rparr> = (Inr x, \<lparr>faults = [], db = d'\<rparr>) \<Longrightarrow>
    transaction m \<lparr>faults = [], db = d\<rparr> = (Inr x, \<lparr>faults = [], db = d'\<rparr>)"
  by (simp add: transaction_def no_op_query_def query_eval eff_seq_def eff_bind_def ret_def Let_def)

lemmas step_runs = and_then_def proceed_def refuse_def ensure_def checked_def ret_def eff_bind_def eff_seq_def eff_catch_def
  query_eval read_eval peek_def

section \<open>The statements at work\<close>

lemma demo_keyed: "keyed (db demo_fleet_world)"
  by (simp add: keyed_def policies_keyed_def demo_fleet_world_def demo_fleet_def)

theorem update_is_confined_witness:
  "\<exists>resp. fst (update_agent demo_fleet_env demo_plain ''a1'' (Obj [(''name'', Str ''Crate'')]) demo_fleet_world) = Inr resp
     \<and> map fa_name (fl_agents (db (snd (update_agent demo_fleet_env demo_plain ''a1'' (Obj [(''name'', Str ''Crate'')]) demo_fleet_world)))) = [''Crate'']"
proof -
  have "map fa_name (fl_agents (db (snd (update_agent demo_fleet_env demo_plain ''a1'' (Obj [(''name'', Str ''Crate'')]) demo_fleet_world)))) = [''Crate'']"
    by code_simp
  moreover have "\<exists>resp. fst (update_agent demo_fleet_env demo_plain ''a1'' (Obj [(''name'', Str ''Crate'')]) demo_fleet_world) = Inr resp"
    using update_is_confined[OF demo_keyed prod.collapse[symmetric], of demo_fleet_env demo_plain "''a1''" "Obj [(''name'', Str ''Crate'')]"]
    by (elim exE conjE) (rule exI)
  ultimately show ?thesis by simp
qed

definition demo_vars :: js where
  "demo_vars = Obj [(''env_vars_set'', Obj [(''K'', Str ''v'')])]"

lemma demo_vars_run: "\<exists>st c w'. update_agent demo_fleet_env demo_plain ''a1'' demo_vars demo_fleet_world = (Inr (Answer st c), w')"
proof -
  let ?w = demo_fleet_world and ?vars = "[(''K'', Str ''v'')]"
  have f: "js_get demo_vars k = (if k = ''env_vars_set'' then Obj ?vars else Undef)" for k by (simp add: demo_vars_def)
  have w: "\<lparr>faults = [], db = demo_fleet\<rparr> = ?w" "faults ?w = []" "db ?w = demo_fleet" by (simp_all add: demo_fleet_world_def)
  have sel: "select_own_agent demo_fleet_env demo_plain ''a1'' ?w = (Inr (Some demo_box), ?w)"
  proof -
    have "agent_visible demo_fleet_env demo_plain demo_box" by code_simp
    moreover have "fe_uuid demo_fleet_env ''a1'' = Some ''a1''" "fa_id demo_box = ''a1''" "fl_agents demo_fleet = [demo_box]"
      by (simp_all add: demo_fleet_env_def demo_box_def demo_fleet_def)
    ultimately show ?thesis by (simp add: select_own_agent_def fleet_query_def query_eval w)
  qed
  have body: "\<not> nullish demo_vars" by (simp add: demo_vars_def)
  obtain s where enc: "encrypt_env_vars demo_fleet_env ?vars (fl_count demo_fleet) = Inr s"
    using encrypt_usable[OF demo_hex_usable] by (auto simp: encrypt_env_vars_def demo_fleet_env_def configured_key_def demo_hex_def)
  define d1 where "d1 = demo_fleet\<lparr>fl_count := Suc (fl_count demo_fleet)\<rparr>"
  have dec: "decrypt_env_vars demo_fleet_env (fa_env_encrypted demo_box) (fa_env_nonce demo_box) = Inr []"
    by (simp add: decrypt_env_vars_def demo_box_def)
  have delta: "env_delta demo_fleet_env demo_vars demo_box ?w = (Inr (Inr (?vars, Some s)), \<lparr>faults = [], db = d1\<rparr>)"
    by (simp add: env_delta_def f dec apply_env_delta_def the_arr_def obj_pairs_def peek_def local_step_def eff_bind_def eff_seq_def
        w enc proceed_def ret_def d1_def)
       (simp add: Let_def peek_def local_step_def eff_bind_def eff_seq_def enc proceed_def ret_def demo_fleet_world_def)
  define g where "g = updated_row demo_fleet_env demo_vars None None None None (Some s)"
  have row: "g demo_box = demo_box\<lparr>fa_env_encrypted := Some (fst s), fa_env_nonce := Some (snd s)\<rparr>"
    by (simp add: g_def updated_row_def f text_or_def keep_text_def sql_text_def)
  let ?d = "change_agent ''a1'' g d1"
  have found: "find_fleet ''a1'' d1 = Some demo_box" by (simp add: find_fleet_def d1_def demo_fleet_def demo_box_def)
  have fits: "row_fits demo_box" by code_simp
  have a1: "fa_id demo_box = ''a1''" by (simp add: demo_box_def)
  have "write_agent ''a1'' g \<lparr>faults = [], db = d1\<rparr> = (Inr (Some (g demo_box)), \<lparr>faults = [], db = ?d\<rparr>)"
    using fits by (simp add: write_agent_def query_eval found row row_fits_def)
  then have st: "store_update demo_fleet_env demo_vars demo_box KeepPolicy None None (Some s) \<lparr>faults = [], db = d1\<rparr> = (Inr (g demo_box), \<lparr>faults = [], db = ?d\<rparr>)"
    unfolding store_update_def
    by (intro transaction_run) (simp add: run_plan_def eff_bind_def ret_def f sql_int_def g_def[symmetric] a1)
  have pol: "fa_policy (g demo_box) = None" unfolding row by (simp add: demo_box_def)
  have stopped: "fa_status demo_box \<noteq> ''running''" by (simp add: demo_box_def)
  show ?thesis
    by (simp add: update_agent_def answer_with_def f sel stopped no_legacy_field_def env_checked_def tags_checked_def resources_checked_def
        if_given_def lists_checked_def profile_checked_def updated_tools_def skill_cards_def delta st resolve_agent_models_def pol
        and_then_def proceed_def ensure_def checked_def ret_def eff_bind_def eff_seq_def eff_catch_def read_eval Let_def body)
qed


theorem undecryptable_is_frozen_witness:
  "\<exists>st msg. fst (update_agent demo_fleet_env demo_plain ''a1'' (Obj [(''name'', Str ''Crate'')])
      \<lparr>faults = [], db = demo_fleet\<lparr>fl_agents := [demo_box\<lparr>fa_env_encrypted := Some [], fa_env_nonce := Some []\<rparr>]\<rparr>\<rparr>) = Inr (Refused st msg)"
proof -
  let ?a = "demo_box\<lparr>fa_env_encrypted := Some [], fa_env_nonce := Some []\<rparr>"
  let ?w = "\<lparr>faults = [], db = demo_fleet\<lparr>fl_agents := [?a]\<rparr>\<rparr>"
  have "keyed (db ?w)" by (simp add: keyed_def policies_keyed_def demo_fleet_def)
  moreover have "?a \<in> set (fl_agents (db ?w))" "fe_uuid demo_fleet_env ''a1'' = Some (fa_id ?a)" by (simp_all add: demo_fleet_env_def demo_box_def)
  moreover have "decrypt_env_vars demo_fleet_env (fa_env_encrypted ?a) (fa_env_nonce ?a) = Inl (key_text TooShort)" by code_simp
  ultimately show ?thesis
    using undecryptable_is_frozen[OF _ _ _ _ disjI1[OF prod.collapse[symmetric]], of ?w ?a demo_fleet_env "''a1''" _ demo_plain "Obj [(''name'', Str ''Crate'')]"]
    by blast
qed

end
