(* ===== verification/AgentBounds.thy ===== *)
theory AgentBounds
  imports AgentLaws
begin

text \<open>
  The resource limits that creating, importing, changing and cloning agents store, against what
  a start accepts; how far a clone's slug goes; and what an export gives back on import.
\<close>

section \<open>Stored limits\<close>

definition cpus_ok :: "string \<Rightarrow> bool" where
  "cpus_ok s = (\<exists>q. parse_cpus s = Inr (Fin q) \<and> 0 < q \<and> q \<le> max_agent_cpus)"

definition mem_ok :: "string \<Rightarrow> bool" where
  "mem_ok s = (\<exists>q. parse_mem_limit s = Inr (Fin q) \<and> 0 < q \<and> q \<le> max_agent_mem_bytes)"

definition limits_ok :: "fleet_agent \<Rightarrow> bool" where
  "limits_ok a = (cpus_ok (fa_cpus a) \<and> mem_ok (fa_mem a) \<and> (check_pids (fa_pids a) = Inr (fa_pids a) \<or> fa_pids a = Fin 0))"

lemma default_limits: "cpus_ok ''1.0''" "mem_ok ''1g''" "check_pids (Fin 200) = Inr (Fin 200)"
proof -
  have "match_cpus ''1.0'' = Some ''1.0''" "scan_decimal (trim_start ''1.0'') = Some (1, [])" by code_simp+
  moreover have "to_num 1 = Fin 1" using to_num_of_int[of 1] by simp
  ultimately show "cpus_ok ''1.0''" by (simp add: cpus_ok_def parse_cpus_def js_parseFloat_def max_agent_cpus_def)
  show "mem_ok ''1g''" "check_pids (Fin 200) = Inr (Fin 200)"
    by (simp_all add: mem_ok_def demo_limits max_agent_mem_bytes_def)
qed

lemma given_text:
  assumes "if_given v f = None" "\<And>s. f (Str s) = None \<Longrightarrow> P s" "\<And>v. \<not> is_str v \<Longrightarrow> f v \<noteq> None" "P deflt"
  shows "P (text_or env v deflt)"
proof (cases "truthy v")
  case True
  then have f: "f v = None" using assms(1) by (simp add: if_given_def)
  then obtain s where "v = Str s" using assms(3) by (cases v) auto
  then show ?thesis using assms(2) f True by (simp add: text_or_def sql_text_def fleet_show_def)
qed (simp add: text_or_def assms(4))

lemma given_cpus: "if_given v cpus_validation_error = None \<Longrightarrow> cpus_ok deflt \<Longrightarrow> cpus_ok (text_or env v deflt)"
  by (rule given_text[where f = cpus_validation_error]) (simp_all add: cpus_ok_def cpus_agree, simp add: cpus_validation_error_def)

lemma given_mem: "if_given v mem_limit_validation_error = None \<Longrightarrow> mem_ok deflt \<Longrightarrow> mem_ok (text_or env v deflt)"
  by (rule given_text[where f = mem_limit_validation_error]) (simp_all add: mem_ok_def mem_limit_agree, simp add: mem_limit_validation_error_def)

lemma new_row_limits:
  assumes "resources_ok body" shows "limits_ok (new_row env user body tools policy profile)"
proof -
  let ?v = "js_get body ''pids_limit''"
  let ?n = "case ?v of Num n \<Rightarrow> if truthy (Num n) then n else Fin 200 | _ \<Rightarrow> Fin 200"
  have "check_pids ?n = Inr ?n"
  proof (cases "\<exists>n. ?v = Num n \<and> truthy ?v")
    case True
    then obtain n where n: "?v = Num n" "truthy ?v" by blast
    then show ?thesis using assms by (simp add: resources_ok_def if_given_def pids_agree)
  qed (auto simp: default_limits split: js.split)
  then show ?thesis using assms given_cpus[OF _ default_limits(1)] given_mem[OF _ default_limits(2)]
    by (simp add: limits_ok_def new_row_def resources_ok_def)
qed

lemma updated_row_limits:
  assumes "resources_ok body" "sql_int (js_get body ''pids_limit'') = Some pids" "limits_ok a"
  shows "limits_ok (updated_row env body tools policy profile pids sealed a)"
proof -
  let ?v = "js_get body ''pids_limit''"
  have "pids = None \<or> (\<exists>n. pids = Some n \<and> (check_pids n = Inr n \<or> n = Fin 0))"
  proof (cases "\<exists>n. ?v = Num n")
    case True
    then obtain n where n: "?v = Num n" by blast
    show ?thesis
    proof (cases "truthy ?v")
      case True
      then have "pids_limit_validation_error (Num n) = None" "pids = Some n"
        using assms(1,2) n by (simp_all add: resources_ok_def if_given_def sql_int_def split: if_splits)
      then show ?thesis using pids_agree(1) by simp
    next
      case False
      then have "n = NaN \<or> n = Fin 0" using n by (cases n) auto
      then show ?thesis using assms(2) n by (auto simp: sql_int_def split: if_splits)
    qed
  qed (use assms(2) in \<open>auto simp: sql_int_def split: js.splits\<close>)
  then have "check_pids (case pids of None \<Rightarrow> fa_pids a | Some n \<Rightarrow> n) = Inr (case pids of None \<Rightarrow> fa_pids a | Some n \<Rightarrow> n)
      \<or> (case pids of None \<Rightarrow> fa_pids a | Some n \<Rightarrow> n) = Fin 0"
    using assms(3) by (auto simp: limits_ok_def)
  then show ?thesis using assms given_cpus given_mem by (simp add: limits_ok_def updated_row_def resources_ok_def)
qed

definition all_limits_ok :: "fleet_db \<Rightarrow> bool" where
  "all_limits_ok d = (\<forall>a \<in> set (fl_agents d). limits_ok a)"

lemma limits_untouched: "untouched d d' \<Longrightarrow> all_limits_ok d \<Longrightarrow> all_limits_ok d'"
  by (simp add: all_limits_ok_def untouched_fields)

lemma limits_new: "new_agent env user body d c d' \<Longrightarrow> all_limits_ok d \<Longrightarrow> all_limits_ok d'"
proof -
  assume n: "new_agent env user body d c d'" and ok: "all_limits_ok d"
  obtain tools policy profile names ks where r: "resources_ok body" and cr: "created (new_row env user body tools policy profile) names ks d c d'"
    using n unfolding new_agent_def by blast
  obtain a where a: "a = (new_row env user body tools policy profile)\<lparr>fa_policy := fa_policy a, fa_id := fa_id a\<rparr>"
      "fl_agents d' = fl_agents d @ [a]"
    using cr unfolding created_def by blast
  have "limits_ok a" using new_row_limits[OF r, of env user tools policy profile] by (subst a(1)) (simp add: limits_ok_def)
  then show ?thesis using ok by (simp add: all_limits_ok_def a(2))
qed

lemma limits_changed: "changed env user i body d vars b d' \<Longrightarrow> all_limits_ok d \<Longrightarrow> all_limits_ok d'"
proof -
  assume ch: "changed env user i body d vars b d'" and ok: "all_limits_ok d"
  obtain a plan tools profile sealed d1 where c: "change_ok env user i body a plan d" and u: "untouched d d1"
      and w: "written env body a plan tools profile sealed d1 b d'"
    using ch unfolding changed_def by blast
  obtain policy pids where b: "b = updated_row env body tools policy profile pids sealed a" "sql_int (js_get body ''pids_limit'') = Some pids"
    using written_frame(7)[OF w] by blast
  have "limits_ok a" "resources_ok body" using c ok by (auto simp: change_ok_def all_limits_ok_def)
  then have "limits_ok b" using updated_row_limits b by simp
  then show ?thesis using ok by (auto simp: all_limits_ok_def written_frame(1)[OF w] untouched_fields(1)[OF u])
qed

lemma keeps_limits_rest:
  "keeps all_limits_ok (cloned_models env src p c)" "keeps all_limits_ok (add_all (add_assignment u) ks)"
proof -
  have pol: "all_limits_ok (d\<lparr>fl_policies := P\<rparr>) = all_limits_ok d" "all_limits_ok (d\<lparr>fl_policies := P, fl_count := n\<rparr>) = all_limits_ok d"
      "all_limits_ok (d\<lparr>fl_assigned := A\<rparr>) = all_limits_ok d" for d P n A
    by (simp_all add: all_limits_ok_def)
  have set: "keeps all_limits_ok (set_policy v q)" for v q
    unfolding set_policy_def by (rule keeps_write) (auto simp: all_limits_ok_def change_agent_def limits_ok_def)
  have up: "keeps all_limits_ok (upsert_auto_agent_models_policy env u s ow ms)" for u s ow ms
    unfolding upsert_auto_agent_models_policy_def insert_policy_def update_policy_def
    by (auto intro!: keeps_bind keeps_seq keeps_ret keeps_read keeps_write keeps_query simp: pol Let_def split: option.split if_splits)
  have sel: "keeps all_limits_ok (resolve_agent_models q)" for q
    unfolding resolve_agent_models_def select_policy_id_def by (auto intro!: keeps_bind keeps_read keeps_ret split: option.split)
  show "keeps all_limits_ok (cloned_models env src p c)"
    unfolding cloned_models_def own_models_def kept_models_def
    by (auto intro!: keeps_if keeps_bind keeps_seq keeps_ret set up sel)
  have "keeps all_limits_ok (add_assignment u k)" for k
    unfolding add_assignment_def by (rule keeps_query) (auto simp: Let_def pol split: if_splits)
  then show "keeps all_limits_ok (add_all (add_assignment u) ks)"
    by (induction ks) (auto intro: keeps_seq)
qed

lemma clone_limits: "keeps all_limits_ok (clone_agent env user i body)"
proof -
  let ?I = all_limits_ok
  have ans: "keeps ?I m \<Longrightarrow> keeps ?I (answer_with taken failed m)" for taken failed m
    unfolding answer_with_def by (auto intro!: keeps_catch keeps_bind keeps_ret split: exn.split option.split)
  have ins: "keeps ?I (insert_with_default env (cloned_row env user body src slug policy))" if "limits_ok src" for src slug policy
  proof (rule keepsI)
    fix w :: "fleet_db world"
    let ?r = "(cloned_row env user body src slug policy)\<lparr>fa_policy := or_else policy (default_policy (db w))\<rparr>"
    assume I: "?I (db w)"
    have "limits_ok (?r\<lparr>fa_id := k\<rparr>)" for k using that by (simp add: limits_ok_def cloned_row_def)
    then have "keeps ?I (insert_agent env ?r)" unfolding insert_agent_def
      by (intro keeps_query) (auto simp: Let_def all_limits_ok_def split: if_splits)
    then have "?I (db (snd (insert_agent env ?r w)))" using I by (rule keepsD)
    then show "?I (db (snd (insert_with_default env (cloned_row env user body src slug policy) w)))"
      by (simp add: insert_with_default_def cloned_row_def)
  qed
  have sel: "keeps ?I (eff_bind (select_agent env i) f)"
    if f: "\<And>row. \<forall>a. row = Some a \<longrightarrow> limits_ok a \<Longrightarrow> keeps ?I (f row)" for f :: "fleet_agent option \<Rightarrow> crud_resp step"
  proof (rule keepsI)
    fix w :: "fleet_db world"
    assume I: "?I (db w)"
    have s: "holds ?I (select_agent env i) (\<lambda>row d. ?I d \<and> (\<forall>a. row = Some a \<longrightarrow> limits_ok a)) ?I"
      unfolding select_agent_def fleet_query_def
      by (rule holds_query) (auto simp: find_fleet_def all_limits_ok_def dest: find_SomeD split: option.splits)
    obtain r w1 where r: "select_agent env i w = (r, w1)" by fastforce
    show "?I (db (snd (eff_bind (select_agent env i) f w)))"
    proof (cases r)
      case (Inl e)
      then show ?thesis using holds_Inl[OF s] I r by (simp add: eff_bind_def)
    next
      case (Inr row)
      then have k: "?I (db w1)" "\<forall>a. row = Some a \<longrightarrow> limits_ok a" using holds_Inr[OF s] I r by blast+
      show ?thesis using keepsD[OF f[OF k(2)] k(1)] r Inr by (simp add: eff_bind_def)
    qed
  qed
  show ?thesis unfolding clone_agent_def
  proof (rule ans, rule sel)
    fix row :: "fleet_agent option"
    assume "\<forall>a. row = Some a \<longrightarrow> limits_ok a"
    then show "keeps ?I (case row of None \<Rightarrow> refuse 404 ''Agent not found''
      | Some src \<Rightarrow> eff_bind (db_read (\<lambda>d. filter (\<lambda>s. startsWith s (clone_base (fa_slug src))) (map fa_slug (fl_agents d)))) (\<lambda>taken.
          if nullish body then throw (Thrown ''Cannot read properties'')
          else
          eff_bind (cloned_policy user src) (\<lambda>policy.
          eff_bind (insert_with_default env (cloned_row env user body src (clone_slug (fa_slug src) taken) policy)) (\<lambda>c.
          eff_bind (db_read (\<lambda>d. map as_skill (filter (\<lambda>x. as_agent x = fa_id src) (fl_assigned d)))) (\<lambda>ks.
          eff_seq (add_all (add_assignment (fa_id c)) ks)
          (eff_bind (cloned_models env src policy c) (\<lambda>(p, ms).
          eff_bind (skill_cards (fa_id c)) (\<lambda>sks.
          proceed (Answer 201 (card_of (c\<lparr>fa_policy := p\<rparr>) ms sks))))))))))"
      unfolding cloned_policy_def select_policy_id_def skill_cards_def proceed_def refuse_def
      by (auto intro!: keeps_bind keeps_seq keeps_if keeps_read keeps_ret keeps_throw ins keeps_limits_rest split: option.split)
  qed
qed


section \<open>A limit that no start accepts\<close>

lemma bad_pids_never_start:
  assumes "check_pids (co_pids opts) = Inl x"
  shows "\<exists>y h'. create_and_start e env opts h = (Inl y, h')"
  using assms
  by (auto simp: create_and_start_def Let_def ebind_def elift_def lift_limit_def eraise_def split: prod.split sum.split)

text \<open>
  \<open>PUT\<close> stores a pids_limit of 0, and that agent can never be started again. The check of the
  resource limits is skipped for a falsy value, and the statement keeps the old value only where
  the new one is null: a caller who sends \<open>{"pids_limit": 0}\<close> gets 200, the row has 0, and
  creating a container from the row is an error in whatever state the engine is.
\<close>

theorem zero_pids_stored:
  assumes "fe_uuid env i = Some (fa_id a)" "find_fleet (fa_id a) d = Some a" "keyed d" "agent_visible env user a"
    and "fa_status a \<noteq> ''running''" "decrypt_env_vars env (fa_env_encrypted a) (fa_env_nonce a) = Inr old" "row_fits a"
  shows "\<exists>c b d'. update_agent env user i (Obj [(''pids_limit'', Num (Fin 0))]) \<lparr>faults = [], db = d\<rparr> =
       (Inr (Answer 200 c), \<lparr>faults = [], db = d'\<rparr>)
     \<and> b \<in> set (fl_agents d') \<and> fa_id b = fa_id a \<and> fa_pids b = Fin 0
     \<and> (\<forall>akm mr work net prof h. \<exists>x h'. create_and_start (fe_engine env) (fe_docker env) (start_options env b akm mr work net prof) h = (Inl x, h'))"
proof -
  let ?body = "Obj [(''pids_limit'', Num (Fin 0))]" and ?w = "\<lparr>faults = [], db = d\<rparr>"
  have f: "js_get ?body k = (if k = ''pids_limit'' then Num (Fin 0) else Undef)" for k by simp
  define g where "g = updated_row env ?body None None None (Some (Fin 0)) None"
  have a: "a \<in> set (fl_agents d)" using find_SomeD assms(2) unfolding find_fleet_def by metis
  have row: "g a = a\<lparr>fa_pids := Fin 0\<rparr>"
    by (simp add: g_def updated_row_def f text_or_def keep_text_def sql_text_def del: js_get.simps)
  let ?d = "change_agent (fa_id a) g d"
  have "select_own_agent env user i ?w = (Inr (Some a), ?w)"
  proof -
    have "find (\<lambda>x. fa_id x = fa_id a \<and> agent_visible env user x) A = Some a"
      if "distinct (map fa_id A)" "a \<in> set A" for A
      using that assms(4) by (induction A) auto
    then show ?thesis using a assms(1,3) by (simp add: select_own_agent_def fleet_query_def query_eval keyed_def)
  qed
  moreover have "store_update env ?body a KeepPolicy None None None ?w = (Inr (g a), \<lparr>faults = [], db = ?d\<rparr>)"
  proof -
    have "write_agent (fa_id a) g ?w = (Inr (Some (g a)), \<lparr>faults = [], db = ?d\<rparr>)"
      using assms(2,7) by (simp add: write_agent_def query_eval row row_fits_def)
    then show ?thesis unfolding store_update_def
      by (intro transaction_run) (simp add: run_plan_def eff_bind_def ret_def f sql_int_def g_def[symmetric] del: js_get.simps)
  qed
  moreover have "\<exists>ms. resolve_agent_models p \<lparr>faults = [], db = ?d\<rparr> = (Inr ms, \<lparr>faults = [], db = ?d\<rparr>)" for p
    by (cases p) (auto simp: resolve_agent_models_def select_policy_id_def step_runs)
  then obtain ms where "resolve_agent_models (fa_policy (g a)) \<lparr>faults = [], db = ?d\<rparr> = (Inr ms, \<lparr>faults = [], db = ?d\<rparr>)" by blast
  ultimately have "\<exists>c. update_agent env user i ?body ?w = (Inr (Answer 200 c), \<lparr>faults = [], db = ?d\<rparr>)"
    using assms(5,6)
    by (simp add: update_agent_def answer_with_def f no_legacy_field_def env_checked_def tags_checked_def resources_checked_def
        if_given_def lists_checked_def profile_checked_def updated_tools_def env_delta_def skill_cards_def step_runs Let_def
        del: js_get.simps)
  then obtain c where c: "update_agent env user i ?body ?w = (Inr (Answer 200 c), \<lparr>faults = [], db = ?d\<rparr>)" by blast
  have "g a \<in> set (fl_agents ?d)" using a by (auto simp: change_agent_def)
  moreover have "fa_id (g a) = fa_id a" "fa_pids (g a) = Fin 0" by (simp_all add: row)
  moreover have "\<exists>x h'. create_and_start (fe_engine env) (fe_docker env) (start_options env (g a) akm mr work net prof) h = (Inl x, h')"
    for akm mr work net prof h
    by (rule bad_pids_never_start[where x = "InvalidPids (Fin 0)"]) (simp add: start_options_def row check_pids_def)
  ultimately show ?thesis using c by blast
qed

section \<open>Slugs of clones\<close>

lemma free_number_least:
  "n \<le> free_number base taken n \<and> (\<forall>m. n \<le> m \<and> m < free_number base taken n \<longrightarrow> numbered base m \<in> set taken)"
proof (induction base taken n rule: free_number.induct)
  case (1 base taken n)
  show ?case
  proof (cases "numbered base n \<in> set taken")
    case True
    have e: "free_number base taken n = free_number base taken (Suc n)" by (subst free_number.simps) (simp add: True)
    show ?thesis unfolding e
    proof (intro conjI allI impI)
      show "n \<le> free_number base taken (Suc n)" using 1[OF True] by simp
      fix m assume "n \<le> m \<and> m < free_number base taken (Suc n)"
      then show "numbered base m \<in> set taken" using 1[OF True] True by (cases "m = n") auto
    qed
  next
    case False
    have "free_number base taken n = n" by (subst free_number.simps) (simp add: False)
    then show ?thesis by auto
  qed
qed

lemma numbered_not_base: "numbered base n \<noteq> base"
  by (simp add: numbered_def)

text \<open>
  C36: The search for a clone's slug ends, within as many rounds as there are taken slugs, with a
  slug that is free: the plain one when that is free, and otherwise the one with the least number
  from 2 on that is, at most one more than the number of slugs that start like it.
\<close>

theorem clone_slug_found:
  "clone_slug slug taken \<notin> set taken
   \<and> (if clone_base slug \<in> set taken
      then \<exists>n. clone_slug slug taken = numbered (clone_base slug) n \<and> 2 \<le> n \<and> n \<le> length taken + 1
             \<and> {numbered (clone_base slug) m |m. 2 \<le> m \<and> m < n} \<subseteq> set taken
      else clone_slug slug taken = clone_base slug)"
proof (intro conjI clone_slug_free)
  let ?b = "clone_base slug" and ?n = "free_number (clone_base slug) taken 2"
  show "if ?b \<in> set taken
      then \<exists>n. clone_slug slug taken = numbered ?b n \<and> 2 \<le> n \<and> n \<le> length taken + 1
             \<and> {numbered ?b m |m. 2 \<le> m \<and> m < n} \<subseteq> set taken
      else clone_slug slug taken = ?b"
  proof (cases "?b \<in> set taken")
    case True
    have n: "2 \<le> ?n" and used: "{numbered ?b m |m. 2 \<le> m \<and> m < ?n} \<subseteq> set taken"
      using free_number_least[of 2 ?b taken] by auto
    have img: "numbered ?b ` {2..<?n} \<subseteq> set taken" using free_number_least[of 2 ?b taken] by auto
    have "inj_on (numbered ?b) {2..<?n}" by (rule inj_onI) (rule numbered_inj)
    then have "?n - 2 = card (numbered ?b ` {2..<?n})" by (simp add: card_image)
    moreover have "?b \<notin> numbered ?b ` {2..<?n}" using numbered_not_base by (metis imageE)
    moreover have "insert ?b (numbered ?b ` {2..<?n}) \<subseteq> set taken" using img True by simp
    ultimately have "Suc (?n - 2) \<le> card (set taken)"
      by (metis card_insert_disjoint card_mono finite_atLeastLessThan finite_imageI List.finite_set)
    then have "?n \<le> length taken + 1" using card_length[of taken] n by linarith
    then show ?thesis using True n used by (simp add: clone_slug_def) blast
  qed (simp add: clone_slug_def)
qed

lemma clone_slug_long: "length (clone_base slug) \<le> length (clone_slug slug taken)"
  by (simp add: clone_slug_def numbered_def)

text \<open>
  An agent whose slug has more than 57 characters cannot be cloned. Creation admits slugs of
  63, the column has room for 63, and a clone's slug is 6 characters longer or more: every
  request to clone such an agent is refused, and nothing is stored.
\<close>

theorem long_slugs_not_cloned:
  assumes "fe_uuid env i = Some u" "find_fleet u (db w) = Some src" "57 < length (fa_slug src)"
    and "clone_agent env user i body w = (r, w')"
  shows "\<exists>st msg. r = Inr (Refused st msg) \<and> fl_agents (db w') = fl_agents (db w) \<and> fl_assigned (db w') = fl_assigned (db w)
     \<and> fl_policies (db w') = fl_policies (db w)"
proof -
  let ?d = "db w"
  have sel: "looks ?d (select_agent env i) (\<lambda>row. row = Some src)"
    unfolding select_agent_def fleet_query_def by (rule looks_query) (use assms(1,2) in auto)
  have pol: "looks ?d (cloned_policy user src) (\<lambda>_. True)"
    unfolding cloned_policy_def select_policy_id_def
    by (cases "fa_policy src") (auto intro!: looks_weaken[OF looks_ret] looks_bind[OF looks_read])
  have ins: "looks ?d (insert_with_default env (cloned_row env user body src (clone_slug (fa_slug src) taken) policy)) (\<lambda>_. False)"
    for taken policy
  proof -
    let ?r = "(cloned_row env user body src (clone_slug (fa_slug src) taken) policy)\<lparr>fa_policy := or_else policy (default_policy ?d)\<rparr>"
    have "63 < length (clone_slug (fa_slug src) taken)" using clone_slug_long[of "fa_slug src" taken] assms(3) by (simp add: clone_base_def)
    then have "looks ?d (insert_agent env ?r) (\<lambda>_. False)"
      unfolding insert_agent_def by (intro looks_query) (auto simp: Let_def row_fits_def cloned_row_def varchar_ok_def split: if_splits)
    then show ?thesis unfolding looks_def holds_def by (simp add: insert_with_default_def cloned_row_def)
  qed
  have "\<exists>resp. r = Inr resp \<and> ((\<exists>st msg. resp = Refused st msg) \<and> untouched ?d (db w') \<or> False)"
    by (rule answer_outcome[OF assms(4)[unfolded clone_agent_def], where W = "\<lambda>_ _. False"], rule leaves_bind[OF sel], simp only: option.case,
        rule leaves_bind[OF looks_read], rule leaves_if, rule leaves_throw, rule leaves_bind[OF pol], rule leaves_bind[OF ins], simp)
  then show ?thesis using untouched_fields(1-3)[of ?d "db w'"] by auto
qed

section \<open>The statements at work\<close>


theorem zero_pids_stored_witness:
  "\<exists>c (b :: fleet_agent) d'. update_agent demo_fleet_env demo_plain ''a1'' (Obj [(''pids_limit'', Num (Fin 0))]) \<lparr>faults = [], db = demo_fleet\<rparr> =
       (Inr (Answer 200 c), \<lparr>faults = [], db = d'\<rparr>) \<and> b \<in> set (fl_agents d') \<and> fa_pids b = Fin 0"
proof -
  have e: "fe_uuid demo_fleet_env ''a1'' = Some (fa_id demo_box)" "find_fleet (fa_id demo_box) demo_fleet = Some demo_box"
      "fa_status demo_box \<noteq> ''running''"
      "decrypt_env_vars demo_fleet_env (fa_env_encrypted demo_box) (fa_env_nonce demo_box) = Inr []"
    by (simp_all add: demo_fleet_env_def demo_box_def demo_fleet_def find_fleet_def decrypt_env_vars_def)
  have k: "keyed demo_fleet" using demo_keyed by (simp add: demo_fleet_world_def)
  have v: "agent_visible demo_fleet_env demo_plain demo_box" "row_fits demo_box" by (code_simp, code_simp)
  show ?thesis
    using zero_pids_stored[OF e(1,2) k v(1) e(3,4) v(2)] by (elim exE conjE) (intro exI conjI)
qed

text \<open>An agent with a long slug.\<close>

definition demo_long :: fleet_agent where
  "demo_long = demo_box\<lparr>fa_slug := replicate 58 CHR ''a''\<rparr>"

theorem long_slugs_not_cloned_witness:
  "\<exists>st msg. fst (clone_agent demo_fleet_env demo_plain ''a1'' (Obj []) \<lparr>faults = [], db = demo_fleet\<lparr>fl_agents := [demo_long]\<rparr>\<rparr>) = Inr (Refused st msg)"
proof -
  let ?w = "\<lparr>faults = [], db = demo_fleet\<lparr>fl_agents := [demo_long]\<rparr>\<rparr>"
  have "fe_uuid demo_fleet_env ''a1'' = Some ''a1''" "find_fleet ''a1'' (db ?w) = Some demo_long" "57 < length (fa_slug demo_long)"
    by (simp_all add: demo_fleet_env_def find_fleet_def demo_long_def demo_box_def)
  from long_slugs_not_cloned[OF this prod.collapse[symmetric], of demo_plain "Obj []"] show ?thesis
    by (elim exE conjE) (intro exI)
qed

end
