(* ===== verification/AgentTransfer.thy ===== *)
theory AgentTransfer
  imports AgentBounds
begin

text \<open>
  Taking an agent elsewhere: what \<open>GET /agents/:id/export\<close> writes, \<open>POST /agents/import\<close> turns back
  into an agent.
\<close>

section \<open>The writes of an import that nothing disturbs\<close>

text \<open>The ids that are still to be drawn are nobody's.\<close>

definition fresh_ids :: "fleet_env \<Rightarrow> fleet_db \<Rightarrow> bool" where
  "fresh_ids env d = (\<forall>k \<ge> fl_count d. fe_new_id env k \<notin> set (map fa_id (fl_agents d))
     \<and> fe_new_id env k \<notin> set (map po_id (fl_policies d))
     \<and> auto_policy_name (fe_new_id env k) \<notin> set (map po_name (fl_policies d)))"

lemma change_appended:
  assumes "fa_id a \<notin> set (map fa_id A)" "fl_agents d = A @ [a]"
  shows "fl_agents (change_agent (fa_id a) f d) = A @ [f a]"
  using change_last[OF assms(1), of f] by (simp add: change_agent_def assms(2))

lemma own_models_run:
  assumes "fa_id a \<notin> set (map fa_id A)" "fl_agents d = A @ [a]" "fe_new_id env (fl_count d) \<notin> set (map po_id (fl_policies d))"
    and "auto_policy_name (fa_id a) \<notin> set (map po_name (fl_policies d))"
  shows "\<exists>p d'. own_models env a ms \<lparr>faults = [], db = d\<rparr> = (Inr (Some p, ms), \<lparr>faults = [], db = d'\<rparr>)
     \<and> fl_agents d' = A @ [a\<lparr>fa_policy := Some p\<rparr>] \<and> fl_skills d' = fl_skills d \<and> fl_assigned d' = fl_assigned d"
proof -
  have none: "find (\<lambda>p. po_name p = auto_policy_name (fa_id a) \<and> po_owner p = Some (fa_owner a)) (fl_policies d) = None"
    using assms(4) by (force simp: find_None_iff)
  have "\<not> (\<exists>q \<in> set (fl_policies d). po_name q = auto_policy_name (fa_id a) \<and> policy_owner_key (po_owner q) = fa_owner a)"
    using assms(4) by force
  then obtain p d1 where up: "upsert_auto_agent_models_policy env (fa_id a) (fa_slug a) (fa_owner a) ms \<lparr>faults = [], db = d\<rparr> =
        (Inr p, \<lparr>faults = [], db = d1\<rparr>)"
      and d1: "fl_agents d1 = fl_agents d" "fl_skills d1 = fl_skills d" "fl_assigned d1 = fl_assigned d"
    using assms(3) none
    by (auto simp: upsert_auto_agent_models_policy_def insert_policy_def eff_bind_def query_eval read_eval Let_def)
  let ?d = "change_agent (fa_id a) (\<lambda>a. a\<lparr>fa_policy := Some p\<rparr>) d1"
  have "own_models env a ms \<lparr>faults = [], db = d\<rparr> = (Inr (Some p, ms), \<lparr>faults = [], db = ?d\<rparr>)"
    by (simp add: own_models_def set_policy_def eff_bind_def eff_seq_def up write_eval ret_def)
  moreover have "fl_agents ?d = A @ [a\<lparr>fa_policy := Some p\<rparr>]" using change_appended[OF assms(1), of d1 "\<lambda>a. a\<lparr>fa_policy := Some p\<rparr>"] assms(2) d1(1) by simp
  moreover have "fl_skills ?d = fl_skills d" "fl_assigned ?d = fl_assigned d" by (simp_all add: change_agent_def d1)
  ultimately show ?thesis by blast
qed

lemma created_models_run:
  assumes "fa_id a \<notin> set (map fa_id A)" "fl_agents d = A @ [a]" "fe_new_id env (fl_count d) \<notin> set (map po_id (fl_policies d))"
    and "auto_policy_name (fa_id a) \<notin> set (map po_name (fl_policies d))"
  shows "\<exists>p r d'. created_models env a (if ms = [] then None else Some ms) \<lparr>faults = [], db = d\<rparr> = (Inr (p, r), \<lparr>faults = [], db = d'\<rparr>)
     \<and> (ms \<noteq> [] \<longrightarrow> r = ms)
     \<and> fl_agents d' = A @ [a\<lparr>fa_policy := p\<rparr>] \<and> fl_skills d' = fl_skills d \<and> fl_assigned d' = fl_assigned d"
proof (cases ms)
  case Nil
  have "\<exists>r. kept_models a \<lparr>faults = [], db = d\<rparr> = (Inr (fa_policy a, r), \<lparr>faults = [], db = d\<rparr>)"
    by (cases "fa_policy a") (auto simp: kept_models_def resolve_agent_models_def select_policy_id_def step_runs)
  then show ?thesis using Nil assms(2) by (auto simp: created_models_def)
next
  case (Cons m ns)
  then show ?thesis using own_models_run[OF assms, of "m # ns"] by (force simp: created_models_def)
qed

lemma store_new_run:
  assumes "row_fits (row\<lparr>fa_id := fe_new_id env (fl_count d)\<rparr>)" "fresh_ids env d"
    and "fa_slug row \<notin> set (map fa_slug (fl_agents d))" "set sks \<subseteq> set (fl_skills d)" "distinct (map sk_id sks)" "assigned_sound d"
  shows "\<exists>c b d'. store_new env row (if ms = [] then None else Some ms) (\<lambda>u. add_all (\<lambda>s. add_assignment u (sk_id s)) sks) \<lparr>faults = [], db = d\<rparr> =
       (Inr c, \<lparr>faults = [], db = d'\<rparr>)
     \<and> fl_agents d' = fl_agents d @ [b] \<and> b = row\<lparr>fa_id := fe_new_id env (fl_count d), fa_policy := fa_policy b\<rparr>
     \<and> fl_assigned d' = fl_assigned d @ map (\<lambda>s. \<lparr>as_agent = fa_id b, as_skill = sk_id s\<rparr>) sks
     \<and> (ms \<noteq> [] \<longrightarrow> ac_models c = ms) \<and> ac_id c = fa_id b"
proof -
  let ?k = "fe_new_id env (fl_count d)"
  define a where "a = row\<lparr>fa_policy := or_else (fa_policy row) (default_policy d), fa_id := ?k\<rparr>"
  let ?d1 = "d\<lparr>fl_agents := fl_agents d @ [a], fl_count := Suc (fl_count d)\<rparr>"
  have new: "?k \<notin> set (map fa_id (fl_agents d))" "fe_new_id env (Suc (fl_count d)) \<notin> set (map po_id (fl_policies d))"
      "auto_policy_name ?k \<notin> set (map po_name (fl_policies d))"
    using assms(2) by (simp_all add: fresh_ids_def)
  have ins: "insert_with_default env row \<lparr>faults = [], db = d\<rparr> = (Inr a, \<lparr>faults = [], db = ?d1\<rparr>)"
    using assms(1,3) new(1) by (simp add: insert_with_default_def insert_agent_def query_eval Let_def a_def row_fits_def)
  obtain p r d2 where m: "created_models env a (if ms = [] then None else Some ms) \<lparr>faults = [], db = ?d1\<rparr> = (Inr (p, r), \<lparr>faults = [], db = d2\<rparr>)"
      and r: "ms \<noteq> [] \<longrightarrow> r = ms"
      and d2: "fl_agents d2 = fl_agents d @ [a\<lparr>fa_policy := p\<rparr>]" "fl_skills d2 = fl_skills d" "fl_assigned d2 = fl_assigned d"
    using created_models_run[of a "fl_agents d" ?d1 env ms] new by (auto simp: a_def)
  let ?ks = "map sk_id sks"
  let ?d3 = "d2\<lparr>fl_assigned := fl_assigned d2 @ map (\<lambda>k. \<lparr>as_agent = ?k, as_skill = k\<rparr>) ?ks\<rparr>"
  have "add_all (\<lambda>s. add_assignment u (sk_id s)) sks = add_all (add_assignment u) ?ks" for u
    by (induction sks) auto
  moreover have "add_all (add_assignment ?k) ?ks \<lparr>faults = [], db = d2\<rparr> = (Inr (), \<lparr>faults = [], db = ?d3\<rparr>)"
  proof (rule add_assignments_run)
    show "\<forall>k \<in> set ?ks. find_skill k d2 \<noteq> None"
    proof
      fix k assume "k \<in> set ?ks"
      then obtain s where "s \<in> set (fl_skills d)" "sk_id s = k" using assms(4) by auto
      then show "find_skill k d2 \<noteq> None" unfolding find_skill_def find_None_iff d2(2) by blast
    qed
    show "find_fleet ?k d2 \<noteq> None" by (auto simp: find_fleet_def find_None_iff d2(1) a_def)
    show "distinct ?ks" by (rule assms(5))
    show "\<forall>k \<in> set ?ks. \<lparr>as_agent = ?k, as_skill = k\<rparr> \<notin> set (fl_assigned d2)"
      using assms(6) new(1) by (force simp: assigned_sound_def find_fleet_def find_None_iff d2(3))
  qed
  ultimately have add: "add_all (\<lambda>s. add_assignment ?k (sk_id s)) sks \<lparr>faults = [], db = d2\<rparr> = (Inr (), \<lparr>faults = [], db = ?d3\<rparr>)" by simp
  let ?c = "card_of (a\<lparr>fa_policy := p\<rparr>) r (map (\<lambda>s. (sk_id s, sk_name s, sk_scope s)) (skills_of ?k ?d3))"
  have "store_new env row (if ms = [] then None else Some ms) (\<lambda>u. add_all (\<lambda>s. add_assignment u (sk_id s)) sks) \<lparr>faults = [], db = d\<rparr> =
       (Inr ?c, \<lparr>faults = [], db = ?d3\<rparr>)"
  proof -
    have "fa_id a = ?k" by (simp add: a_def)
    then show ?thesis unfolding store_new_def
      by (intro transaction_run) (simp add: eff_bind_def eff_seq_def ins m add skill_cards_def read_eval ret_def)
  qed
  moreover have "fl_agents ?d3 = fl_agents d @ [a\<lparr>fa_policy := p\<rparr>]"
      "fl_assigned ?d3 = fl_assigned d @ map (\<lambda>s. \<lparr>as_agent = fa_id (a\<lparr>fa_policy := p\<rparr>), as_skill = sk_id s\<rparr>) sks"
    by (simp_all add: d2 a_def o_def)
  ultimately show ?thesis using r
    by (intro exI[of _ ?c] exI[of _ "a\<lparr>fa_policy := p\<rparr>"] exI[of _ ?d3]) (simp add: card_of_def a_def)
qed

section \<open>Export and import\<close>

text \<open>What an import of \<open>a\<close> needs of the tables it goes to: \<open>sks\<close> are the skills with the exported names there.\<close>

definition receivable :: "fleet_env \<Rightarrow> js \<Rightarrow> fleet_agent \<Rightarrow> js list \<Rightarrow> skill_row list \<Rightarrow> fleet_db \<Rightarrow> bool" where
  "receivable env user a ms sks d =
     (fresh_ids env d \<and> assigned_sound d \<and> fa_slug a \<notin> set (map fa_slug (fl_agents d)) \<and> slug_ok (fa_slug a) \<and> fa_name a \<noteq> []
      \<and> row_fits (a\<lparr>fa_owner := caller_sub env user, fa_owner_name := caller_name env user\<rparr>)
      \<and> cpus_ok (fa_cpus a) \<and> mem_ok (fa_mem a) \<and> check_pids (fa_pids a) = Inr (fa_pids a) \<and> truthy (tools_json (fa_tools a))
      \<and> (\<forall>v \<in> set ms. model_accessible (caller_sub env user) (sql_text env v) d)
      \<and> set sks \<subseteq> set (fl_skills d) \<and> distinct (map sk_id sks) \<and> assignable env user sks
      \<and> (\<forall>p. fa_profile a = Some p \<longrightarrow> p \<noteq> [] \<and> fe_uuid env p = Some p \<and> p \<in> set (map pf_id (fl_profiles d))))"

lemma and_then_eval: "m w = (Inr (Inr x), w') \<Longrightarrow> and_then m f w = f x w'"
  by (simp add: and_then_def eff_bind_def)

lemma answer_cong: "m w = n w \<Longrightarrow> answer_with taken failed m w = answer_with taken failed n w"
  by (simp add: answer_with_def eff_catch_def eff_bind_def)

lemma validate_run:
  "\<forall>v \<in> set vs. model_accessible owner (sql_text env v) d \<Longrightarrow>
   validate_model_names env vs owner \<lparr>faults = [], db = d\<rparr> = (Inr None, \<lparr>faults = [], db = d\<rparr>)"
  by (induction vs) (simp_all add: ret_def eff_bind_def select_model_def read_eval)

lemma named_run:
  "(if nms = [] then ret [] else select_skills_named env (map Str nms)) \<lparr>faults = [], db = d\<rparr> =
     (Inr (filter (\<lambda>s. sk_name s \<in> set nms) (fl_skills d)), \<lparr>faults = [], db = d\<rparr>)"
proof -
  have "filter (\<lambda>s. Some (sk_name s) \<in> set (map (sql_text env) (map Str nms))) S = filter (\<lambda>s. sk_name s \<in> set nms) S" for S
    by (rule filter_cong) (auto simp: sql_text_def fleet_show_def)
  then show ?thesis by (cases "nms = []") (simp_all add: select_skills_named_def read_eval ret_def del: set_map map_map)
qed

lemma limits_nonempty: "cpus_ok s \<Longrightarrow> s \<noteq> []" "mem_ok s \<Longrightarrow> s \<noteq> []"
  by (auto simp: cpus_ok_def mem_ok_def parse_cpus_def parse_mem_limit_def match_cpus_def match_mem_def match_decimal_def)

lemma text_or_Str: "s \<noteq> [] \<or> s = deflt \<Longrightarrow> text_or env (Str s) deflt = s"
  by (auto simp: text_or_def sql_text_def fleet_show_def)

lemma export_fields:
  assumes "j = export_json env a ms nms"
  shows "js_get j ''agent_id'' = Str (fa_slug a)" "js_get j ''name'' = Str (fa_name a)" "js_get j ''description'' = Str (fa_description a)"
    "js_get j ''tools_config'' = tools_json (fa_tools a)" "js_get j ''cpus'' = Str (fa_cpus a)" "js_get j ''mem_limit'' = Str (fa_mem a)"
    "js_get j ''pids_limit'' = Num (fa_pids a)" "js_get j ''soul_md'' = Str (fa_soul a)" "js_get j ''rules_md'' = Str (fa_rules a)"
    "js_get j ''model_names'' = Arr ms" "js_get j ''skill_names'' = Arr (map Str nms)" "\<not> nullish j"
    "js_get j ''container_profile_id'' = (case fa_profile a of None \<Rightarrow> Null | Some p \<Rightarrow> Str p)"
  by (simp_all add: assms export_json_def str_list_def)

lemma export_row:
  assumes "receivable env user a ms sks d"
  shows "new_row env user (export_json env a ms nms) tools None (fa_profile a) =
     blank_agent\<lparr>fa_slug := fa_slug a, fa_name := fa_name a, fa_description := fa_description a, fa_tools := tools,
       fa_cpus := fa_cpus a, fa_mem := fa_mem a, fa_pids := fa_pids a, fa_soul := fa_soul a, fa_rules := fa_rules a,
       fa_policy := None, fa_profile := fa_profile a, fa_owner := caller_sub env user, fa_owner_name := caller_name env user\<rparr>"
proof -
  have "fa_slug a \<noteq> []" "fa_name a \<noteq> []" "fa_cpus a \<noteq> []" "fa_mem a \<noteq> []"
    using assms limits_nonempty by (auto simp: receivable_def slug_ok_def)
  moreover have "(if truthy (Num (fa_pids a)) then fa_pids a else Fin 200) = fa_pids a"
    using assms pids_agree(2)[of "fa_pids a"] by (auto simp: receivable_def)
  ultimately show ?thesis by (simp add: new_row_def export_fields[OF refl] text_or_Str)
qed

lemma import_run:
  assumes "receivable env user a ms sks d" "sks = filter (\<lambda>s. sk_name s \<in> set nms) (fl_skills d)"
  shows "import_agent env user (export_json env a ms nms) \<lparr>faults = [], db = d\<rparr> =
    (answer_with (Some ''An agent with this agent_id already exists'') ''Failed to import agent''
      (eff_bind (store_new env (new_row env user (export_json env a ms nms)
          (if sks = [] then Given (tools_json (fa_tools a)) else Merged (merge_tools_configs (map sk_config sks))) None (fa_profile a))
        (if ms = [] then None else Some ms) (\<lambda>u. add_all (\<lambda>s. add_assignment u (sk_id s)) sks)) (\<lambda>c. proceed (Answer 201 c))))
     \<lparr>faults = [], db = d\<rparr>"
proof -
  let ?j = "export_json env a ms nms" and ?w = "\<lparr>faults = [], db = d\<rparr>"
  note w = assms(1)[unfolded receivable_def]
  have t: "fa_slug a \<noteq> []" "fa_name a \<noteq> []" using w by (auto simp: slug_ok_def)
  have res: "resources_checked ?j ?w = (Inr (Inr ()), ?w)"
  proof -
    have "cpus_validation_error (Str (fa_cpus a)) = None" "mem_limit_validation_error (Str (fa_mem a)) = None"
        "pids_limit_validation_error (Num (fa_pids a)) = None"
      using w by (simp_all add: cpus_agree mem_limit_agree pids_agree(1) cpus_ok_def mem_ok_def)
    then show ?thesis
      by (simp add: resources_checked_def export_fields[OF refl] if_given_def checked_def and_then_eval proceed_def ret_def)
  qed
  have mod: "models_checked env (caller_sub env user) ms ?w = (Inr (Inr ()), ?w)"
    using w validate_run[of ms "caller_sub env user" env d] by (simp add: models_checked_def checked_def proceed_def eff_bind_def ret_def)
  have prof: "(if truthy (case fa_profile a of None \<Rightarrow> Null | Some p \<Rightarrow> Str p)
        then select_profile_id env (case fa_profile a of None \<Rightarrow> Null | Some p \<Rightarrow> Str p) else ret None) ?w = (Inr (fa_profile a), ?w)"
  proof (cases "fa_profile a")
    case None
    then show ?thesis by (simp add: ret_def)
  next
    case (Some p)
    then have p: "p \<noteq> []" "fe_uuid env p = Some p" "p \<in> set (map pf_id (fl_profiles d))" using w by auto
    then obtain x where "find (\<lambda>x. pf_id x = p) (fl_profiles d) = Some x" "pf_id x = p"
      by (cases "find (\<lambda>x. pf_id x = p) (fl_profiles d)") (auto simp: find_None_iff dest: find_SomeD)
    then show ?thesis using p Some by (simp add: select_profile_id_def sql_uuid_def sql_text_def fleet_show_def query_eval)
  qed
  have el: "elevated_of sks = None \<or> is_admin (fe_client env) user" using w by (auto simp: assignable_def elevated_of_None)
  have tools: "given_tools (tools_json (fa_tools a)) = Given (tools_json (fa_tools a))" using w by (simp add: given_tools_def)
  have slug: "slug_ok (fleet_show env (Str (fa_slug a)))" using w by (simp add: fleet_show_def)
  have named: "(if map Str nms = [] then ret [] else select_skills_named env (map Str nms)) ?w = (Inr sks, ?w)"
    using named_run[of nms env d] assms(2) by simp
  have ens: "and_then (ensure b st msg) f ?w = f () ?w" if b for b st msg and f :: "unit \<Rightarrow> crud_resp step"
    using that by (simp add: ensure_def proceed_def ret_def and_then_eval)
  have sl: "slug_checked env (Str (fa_slug a)) ?w = (Inr (Inr ()), ?w)" using slug by (simp add: slug_checked_def ensure_def proceed_def ret_def)
  have arr: "the_arr (Arr vs) = vs" for vs by (simp add: the_arr_def)
  have ok: "truthy (Str (fa_slug a)) \<and> truthy (Str (fa_name a))" using t by simp
  have sl': "and_then (slug_checked env (Str (fa_slug a))) f ?w = f () ?w" for f :: "unit \<Rightarrow> crud_resp step"
    using sl by (simp add: and_then_eval)
  have res': "and_then (resources_checked ?j) f ?w = f () ?w" for f :: "unit \<Rightarrow> crud_resp step" using res by (simp add: and_then_eval)
  have mod': "and_then (models_checked env (caller_sub env user) ms) f ?w = f () ?w" for f :: "unit \<Rightarrow> crud_resp step"
    using mod by (simp add: and_then_eval)
  have named': "eff_bind (if map Str nms = [] then ret [] else select_skills_named env (map Str nms)) f ?w = f sks ?w"
    for f :: "skill_row list \<Rightarrow> crud_resp step" using named by (simp add: eff_bind_def)
  have prof': "eff_bind (if truthy (case fa_profile a of None \<Rightarrow> Null | Some p \<Rightarrow> Str p)
        then select_profile_id env (case fa_profile a of None \<Rightarrow> Null | Some p \<Rightarrow> Str p) else ret None) f ?w = f (fa_profile a) ?w"
    for f :: "string option \<Rightarrow> crud_resp step" unfolding eff_bind_def prof by simp
  show ?thesis unfolding import_agent_def
  proof (rule answer_cong, simp only: export_fields[OF refl] if_False Let_def arr)
    show "and_then (ensure (truthy (Str (fa_slug a)) \<and> truthy (Str (fa_name a))) 400 ''Exported config must include agent_id and name'') (\<lambda>_.
      and_then (slug_checked env (Str (fa_slug a))) (\<lambda>_.
      and_then (resources_checked ?j) (\<lambda>_.
      eff_bind (if map Str nms = [] then ret [] else select_skills_named env (map Str nms)) (\<lambda>sks.
      and_then (ensure (elevated_of sks = None \<or> is_admin (fe_client env) user) 403
        ''Importing agents with elevated-scope skills requires admin role'') (\<lambda>_.
      and_then (models_checked env (caller_sub env user) ms) (\<lambda>_.
      eff_bind (if truthy (case fa_profile a of None \<Rightarrow> Null | Some p \<Rightarrow> Str p)
                then select_profile_id env (case fa_profile a of None \<Rightarrow> Null | Some p \<Rightarrow> Str p) else ret None) (\<lambda>profile.
      eff_bind (store_new env (new_row env user ?j (if sks = [] then given_tools (tools_json (fa_tools a))
                   else Merged (merge_tools_configs (map sk_config sks))) None profile)
          (if ms = [] then None else Some ms) (\<lambda>u. add_all (\<lambda>s. add_assignment u (sk_id s)) sks)) (\<lambda>c.
      proceed (Answer 201 c))))))))) ?w =
     eff_bind (store_new env (new_row env user ?j
          (if sks = [] then Given (tools_json (fa_tools a)) else Merged (merge_tools_configs (map sk_config sks))) None (fa_profile a))
        (if ms = [] then None else Some ms) (\<lambda>u. add_all (\<lambda>s. add_assignment u (sk_id s)) sks)) (\<lambda>c. proceed (Answer 201 c)) ?w"
      by (simp only: ens[OF ok] sl' res' named' ens[OF el] mod' prof' tools)
  qed
qed


section \<open>The statement at work\<close>

text \<open>The agent of the small fleet moves to a fleet that has the skill and no agents.\<close>

definition demo_elsewhere :: fleet_db where
  "demo_elsewhere = demo_fleet\<lparr>fl_agents := [], fl_assigned := []\<rparr>"

lemma demo_receivable: "receivable demo_fleet_env demo_plain demo_box [] [demo_skill] demo_elsewhere"
proof -
  have "fresh_ids demo_fleet_env demo_elsewhere" "assigned_sound demo_elsewhere"
    by (simp_all add: fresh_ids_def assigned_sound_def demo_elsewhere_def demo_fleet_def)
  moreover have "slug_ok (fa_slug demo_box)" by code_simp
  moreover have "row_fits (demo_box\<lparr>fa_owner := caller_sub demo_fleet_env demo_plain, fa_owner_name := caller_name demo_fleet_env demo_plain\<rparr>)" by code_simp
  moreover have "cpus_ok (fa_cpus demo_box)" "mem_ok (fa_mem demo_box)" "check_pids (fa_pids demo_box) = Inr (fa_pids demo_box)"
    by (simp_all add: demo_box_def cpus_ok_def mem_ok_def demo_limits max_agent_cpus_def max_agent_mem_bytes_def)
  moreover have "truthy (tools_json (fa_tools demo_box))" by (simp add: demo_box_def config_json_def)
  moreover have "assignable demo_fleet_env demo_plain [demo_skill]" by (simp add: assignable_def demo_skill_def is_elevated_scope_def elevated_scopes_def)
  moreover have "fa_name demo_box \<noteq> []" "fa_profile demo_box = None" by (simp_all add: demo_box_def)
  moreover have "fl_agents demo_elsewhere = []" "fl_skills demo_elsewhere = [demo_skill]" by (simp_all add: demo_elsewhere_def demo_fleet_def)
  ultimately show ?thesis by (simp add: receivable_def)
qed


end
