(* ===== verification/Redact.thy ===== *)
theory Redact
  imports Access
begin

text \<open>
  Credential redaction for log lines (\<open>helpers/redact.ts\<close>): the three patterns as scanners over
  strings (a string is its UTF-8 bytes, white space is ASCII), \<open>redactDeep\<close> over a heap of
  objects, and \<open>sanitizeAxiosError\<close>, which changes that heap in place.
\<close>

section \<open>Names\<close>

definition sensitive_keys :: "string list" where
  "sensitive_keys =
     [''authorization'', ''proxy-authorization'', ''cookie'', ''set-cookie'', ''password'', ''passwd'', ''pass'',
      ''secret'', ''client_secret'', ''clientsecret'', ''token'', ''access_token'', ''refresh_token'', ''id_token'',
      ''session_token'', ''api_key'', ''apikey'', ''x-api-key'', ''anthropic-api-key'', ''private_key'', ''privatekey'',
      ''signing_key'', ''encryption_key'', ''connection_string'', ''database_url'', ''dsn'']"

definition sensitive_key :: "string \<Rightarrow> bool" where
  "sensitive_key k = (to_lower k \<in> set sensitive_keys)"

definition sensitive_params :: "string list" where
  "sensitive_params =
     [''access_token'', ''token'', ''id_token'', ''refresh_token'', ''api_key'', ''apikey'', ''key'', ''password'',
      ''secret'', ''code'', ''client_secret'']"

definition sensitive_param :: "string \<Rightarrow> bool" where
  "sensitive_param k = (to_lower k \<in> set sensitive_params)"

definition redacted :: string where
  "redacted = ''<redacted>''"

section \<open>Patterns\<close>

text \<open>
  \<open>replace\<close> with a global pattern: from left to right, a match is replaced and scanning goes on
  after it. A matcher yields the replacement and the rest behind the match; in all three
  patterns each repetition stops at the first character outside its class, and what follows it
  in the pattern is outside the class, so nothing is ever given back.
\<close>

function replace_all :: "(string \<Rightarrow> (string \<times> string) option) \<Rightarrow> string \<Rightarrow> string" where
  "replace_all m [] = []"
| "replace_all m (c # cs) =
     (case m (c # cs) of
        Some (r, rest) \<Rightarrow> if length rest \<le> length cs then r @ replace_all m rest else c # replace_all m cs
      | None \<Rightarrow> c # replace_all m cs)"
  by pat_completeness auto
termination by (relation "measure (length \<circ> snd)") auto

definition letter :: "char \<Rightarrow> bool" where
  "letter c = (let n = of_char c :: nat in 65 \<le> n \<and> n \<le> 90 \<or> 97 \<le> n \<and> n \<le> 122)"

definition alnum :: "char \<Rightarrow> bool" where
  "alnum c = (letter c \<or> is_digit c)"

definition run :: "(char \<Rightarrow> bool) \<Rightarrow> string \<Rightarrow> string \<times> string" where
  "run p s = (takeWhile p s, dropWhile p s)"

text \<open>\<open>([a-zA-Z][a-zA-Z0-9+.-]*:\\/\\/)([^:/?#@\\s]+):([^@/?#\\s]+)@\<close>\<close>

definition scheme_char :: "char \<Rightarrow> bool" where
  "scheme_char c = (alnum c \<or> c \<in> set ''+.-'')"

definition user_char :: "char \<Rightarrow> bool" where
  "user_char c = (c \<notin> set '':/?#@'' \<and> \<not> js_space c)"

definition password_char :: "char \<Rightarrow> bool" where
  "password_char c = (c \<notin> set ''@/?#'' \<and> \<not> js_space c)"

definition match_userinfo :: "string \<Rightarrow> (string \<times> string) option" where
  "match_userinfo s =
     (case s of
        [] \<Rightarrow> None
      | c # _ \<Rightarrow>
          let (scheme, r1) = run scheme_char s in
          if \<not> letter c \<or> \<not> startsWith r1 ''://'' then None
          else
          let (user, r2) = run user_char (drop 3 r1) in
          if user = [] \<or> \<not> startsWith r2 '':'' then None
          else
          let (pw, r3) = run password_char (drop 1 r2) in
          if pw = [] \<or> \<not> startsWith r3 ''@'' then None
          else Some (scheme @ ''://'' @ user @ '':'' @ redacted @ ''@'', drop 1 r3))"

text \<open>\<open>([?&])([A-Za-z0-9_.-]+)=([^&\\s"']*)\<close>: a parameter that is not sensitive stays as it is.\<close>

definition param_char :: "char \<Rightarrow> bool" where
  "param_char c = (alnum c \<or> c \<in> set ''_.-'')"

definition value_char :: "char \<Rightarrow> bool" where
  "value_char c = (c \<noteq> CHR ''&'' \<and> \<not> js_space c \<and> c \<noteq> CHR 0x22 \<and> c \<noteq> CHR 0x27)"

definition match_param :: "string \<Rightarrow> (string \<times> string) option" where
  "match_param s =
     (case s of
        [] \<Rightarrow> None
      | c # cs \<Rightarrow>
          let (k, r1) = run param_char cs in
          if c \<notin> set ''?&'' \<or> k = [] \<or> \<not> startsWith r1 ''='' then None
          else
          let (v, r2) = run value_char (drop 1 r1) in
          Some (c # k @ ''='' @ (if sensitive_param k then redacted else v), r2))"

definition redact_url :: "string \<Rightarrow> string" where
  "redact_url s = replace_all match_param (replace_all match_userinfo s)"

text \<open>\<open>eyJ[A-Za-z0-9_-]{8,}\\.[A-Za-z0-9_-]{8,}\\.[A-Za-z0-9_-]+\<close>\<close>

definition b64u_char :: "char \<Rightarrow> bool" where
  "b64u_char c = (alnum c \<or> c \<in> set ''_-'')"

definition match_jwt :: "string \<Rightarrow> (string \<times> string) option" where
  "match_jwt s =
     (if \<not> startsWith s ''eyJ'' then None
      else
      let (a, r1) = run b64u_char (drop 3 s) in
      if length a < 8 \<or> \<not> startsWith r1 ''.'' then None
      else
      let (b, r2) = run b64u_char (drop 1 r1) in
      if length b < 8 \<or> \<not> startsWith r2 ''.'' then None
      else
      let (c, r3) = run b64u_char (drop 1 r2) in
      if c = [] then None else Some (redacted, r3))"

definition redact_string :: "string \<Rightarrow> string" where
  "redact_string s = replace_all match_jwt (redact_url s)"

section \<open>Values\<close>

text \<open>
  Objects live on a heap and are told apart by their address. \<open>Opaque\<close> is a number, a boolean,
  a function: what \<open>typeof\<close> does not call an object. An error has a name, a message, perhaps a
  stack, and its own enumerable properties; an instance is an object of a class.
\<close>

datatype lv = LUndef | LNull | LText string | Opaque nat | Ref nat

datatype lobj =
    ErrorObj string string "string option" "(string \<times> lv) list"
  | ArrayObj "lv list"
  | PlainObj "(string \<times> lv) list"
  | InstanceObj "(string \<times> lv) list"

type_synonym lheap = "nat \<Rightarrow> lobj"

text \<open>What a redaction builds; an instance is handed on as it is.\<close>

datatype lout = OText string | OSame lv | OList "lout list" | OFields "(string \<times> lout) list"

text \<open>The set of objects seen so far is handed from each value to the next.\<close>

fun threaded :: "('s \<Rightarrow> 'a \<Rightarrow> 'b \<times> 's) \<Rightarrow> 's \<Rightarrow> 'a list \<Rightarrow> 'b list \<times> 's" where
  "threaded f s [] = ([], s)"
| "threaded f s (x # xs) = (case f s x of (y, s') \<Rightarrow> (case threaded f s' xs of (ys, s'') \<Rightarrow> (y # ys, s'')))"

definition field_of :: "('s \<Rightarrow> lv \<Rightarrow> lout \<times> 's) \<Rightarrow> 's \<Rightarrow> string \<times> lv \<Rightarrow> (string \<times> lout) \<times> 's" where
  "field_of f s kv =
     (case kv of (k, v) \<Rightarrow>
        if sensitive_key k then ((k, OText redacted), s)
        else (case f s v of (y, s') \<Rightarrow> ((k, y), s')))"

definition error_names :: "string list" where
  "error_names = [''name'', ''message'', ''stack'']"

text \<open>\<open>levels\<close> is how deep a value may still be: 9 at the top, where \<open>depth\<close> is 0.\<close>

primrec redact_value :: "nat \<Rightarrow> lheap \<Rightarrow> nat list \<Rightarrow> lv \<Rightarrow> lout \<times> nat list" where
  "redact_value 0 h seen v = (OText ''<max-depth>'', seen)"
| "redact_value (Suc levels) h seen v =
     (case v of
        LText s \<Rightarrow> (OText (redact_string s), seen)
      | Ref a \<Rightarrow>
          if a \<in> set seen then (OText ''<circular>'', seen)
          else (case h a of
              ErrorObj name msg stack props \<Rightarrow>
                (case threaded (field_of (redact_value levels h)) (a # seen)
                        (filter (\<lambda>(k, _). k \<notin> set error_names) props) of
                   (fs, seen') \<Rightarrow>
                     (OFields ([(''name'', OText name), (''message'', OText (redact_string msg))] @
                        (case stack of Some s \<Rightarrow> if s = [] then [] else [(''stack'', OText (redact_string s))] | None \<Rightarrow> []) @ fs),
                      seen'))
            | ArrayObj vs \<Rightarrow>
                (case threaded (redact_value levels h) (a # seen) vs of (ys, seen') \<Rightarrow> (OList ys, seen'))
            | PlainObj props \<Rightarrow>
                (case threaded (field_of (redact_value levels h)) (a # seen) props of (fs, seen') \<Rightarrow> (OFields fs, seen'))
            | InstanceObj props \<Rightarrow> (OSame v, a # seen))
      | _ \<Rightarrow> (OSame v, seen))"

definition redact_deep :: "lheap \<Rightarrow> lv \<Rightarrow> lout" where
  "redact_deep h v = fst (redact_value 9 h [] v)"

definition redact_args :: "lheap \<Rightarrow> lv list \<Rightarrow> lout list" where
  "redact_args h vs = map (redact_deep h) vs"

section \<open>Errors of axios\<close>

text \<open>Own properties; \<open>set_prop\<close> changes one that is there or adds it.\<close>

definition props_of :: "lobj \<Rightarrow> (string \<times> lv) list" where
  "props_of ob = (case ob of ErrorObj _ _ _ ps \<Rightarrow> ps | ArrayObj _ \<Rightarrow> [] | PlainObj ps \<Rightarrow> ps | InstanceObj ps \<Rightarrow> ps)"

definition with_props :: "lobj \<Rightarrow> (string \<times> lv) list \<Rightarrow> lobj" where
  "with_props ob ps =
     (case ob of ErrorObj n m st _ \<Rightarrow> ErrorObj n m st ps | ArrayObj vs \<Rightarrow> ArrayObj vs
      | PlainObj _ \<Rightarrow> PlainObj ps | InstanceObj _ \<Rightarrow> InstanceObj ps)"

definition get_prop :: "lheap \<Rightarrow> nat \<Rightarrow> string \<Rightarrow> lv" where
  "get_prop h a k = (case map_of (props_of (h a)) k of None \<Rightarrow> LUndef | Some v \<Rightarrow> v)"

fun assign :: "(string \<times> lv) list \<Rightarrow> string \<Rightarrow> lv \<Rightarrow> (string \<times> lv) list" where
  "assign [] k v = [(k, v)]"
| "assign ((k', v') # ps) k v = (if k' = k then (k, v) # ps else (k', v') # assign ps k v)"

definition set_prop :: "nat \<Rightarrow> string \<Rightarrow> lv \<Rightarrow> lheap \<Rightarrow> lheap" where
  "set_prop a k v h = h(a := with_props (h a) (assign (props_of (h a)) k v))"

definition scrub_headers :: "nat \<Rightarrow> lheap \<Rightarrow> lheap" where
  "scrub_headers a h = fold (\<lambda>(k, _) h. if sensitive_key k then set_prop a k (LText redacted) h else h) (props_of (h a)) h"

definition scrub_url :: "nat \<Rightarrow> string \<Rightarrow> lheap \<Rightarrow> lheap" where
  "scrub_url a k h = (case get_prop h a k of LText s \<Rightarrow> set_prop a k (LText (redact_url s)) h | _ \<Rightarrow> h)"

text \<open>\<open>if (x.k && typeof x.k === 'object')\<close>\<close>

definition on_prop :: "nat \<Rightarrow> string \<Rightarrow> (nat \<Rightarrow> lheap \<Rightarrow> lheap) \<Rightarrow> lheap \<Rightarrow> lheap" where
  "on_prop a k f h = (case get_prop h a k of Ref b \<Rightarrow> f b h | _ \<Rightarrow> h)"

definition scrub_config :: "nat \<Rightarrow> lheap \<Rightarrow> lheap" where
  "scrub_config c h =
     (let h1 = on_prop c ''headers'' scrub_headers h;
          h2 = scrub_url c ''baseURL'' (scrub_url c ''url'' h1) in
      if get_prop h2 c ''data'' = LUndef then h2 else set_prop c ''data'' (LText redacted) h2)"

definition sanitize_axios_error :: "lv \<Rightarrow> lheap \<Rightarrow> lheap" where
  "sanitize_axios_error err h =
     (case err of
        Ref e \<Rightarrow>
          on_prop e ''response'' (\<lambda>r. on_prop r ''headers'' scrub_headers)
            (on_prop e ''request'' (\<lambda>r. scrub_url r ''path'') (on_prop e ''config'' scrub_config h))
      | _ \<Rightarrow> h)"

end
