(* ===== verification/RedactProps.thy ===== *)
theory RedactProps
  imports Redact "HOL-Library.Sublist"
begin

text \<open>
  What redaction keeps out of a log line: the values under sensitive keys have no influence on
  it, and no JWT is left in its texts; and where it stops short.
\<close>

section \<open>No token survives\<close>

text \<open>The words of the JWT pattern, and the texts that hold one.\<close>

definition jwt_word :: "string \<Rightarrow> bool" where
  "jwt_word w \<longleftrightarrow> (\<exists>a b c. w = ''eyJ'' @ a @ ''.'' @ b @ ''.'' @ c \<and> list_all b64u_char (a @ b @ c)
     \<and> 8 \<le> length a \<and> 8 \<le> length b \<and> c \<noteq> [])"

definition contains_jwt :: "string \<Rightarrow> bool" where
  "contains_jwt s \<longleftrightarrow> (\<exists>w. jwt_word w \<and> sublist w s)"

lemma b64u_stops [simp]: "\<not> b64u_char CHR ''.''" "\<not> b64u_char CHR ''<''" "\<not> b64u_char CHR ''>''"
  by code_simp+

lemma run_word:
  assumes "list_all p a" "\<not> p c"
  shows "run p (a @ c # r) = (a, c # r)"
  using assms by (simp add: run_def takeWhile_append2 dropWhile_append2 list_all_iff)

lemma run_nonempty:
  assumes "list_all p a" "a \<noteq> []"
  shows "fst (run p (a @ r)) \<noteq> []"
  using assms by (cases a) (auto simp: run_def)

lemma jwt_word_matches:
  assumes "jwt_word w" shows "match_jwt (w @ r) \<noteq> None"
proof -
  obtain a b c where w: "w = ''eyJ'' @ a @ ''.'' @ b @ ''.'' @ c" "list_all b64u_char a" "list_all b64u_char b"
      "list_all b64u_char c" "8 \<le> length a" "8 \<le> length b" "c \<noteq> []"
    using assms by (auto simp: jwt_word_def)
  show ?thesis using run_nonempty[OF w(4,7), of r] w
    by (auto simp: match_jwt_def startsWith_def run_word Let_def split: prod.splits)
qed

lemma jwt_word_plain: "jwt_word w \<Longrightarrow> CHR ''<'' \<notin> set w \<and> CHR ''>'' \<notin> set w"
  using b64u_stops by (auto simp: jwt_word_def list_all_iff simp del: b64u_stops)

lemma jwt_word_long: "jwt_word w \<Longrightarrow> 11 < length w"
  by (auto simp: jwt_word_def)

lemma run_length: "length (snd (run p s)) \<le> length s"
  by (simp add: run_def length_dropWhile_le)

lemma match_jwt_shorter:
  assumes "match_jwt (c # cs) = Some (r, rest)" shows "r = redacted \<and> length rest \<le> length cs"
proof -
  have "length rest < length (c # cs)"
    using assms run_length[of b64u_char "drop 3 (c # cs)"]
      run_length[of b64u_char "drop 1 (snd (run b64u_char (drop 3 (c # cs))))"]
      run_length[of b64u_char "drop 1 (snd (run b64u_char (drop 1 (snd (run b64u_char (drop 3 (c # cs)))))))"]
    by (auto simp: match_jwt_def Let_def split: if_splits prod.splits)
  moreover have "r = redacted" using assms by (auto simp: match_jwt_def Let_def split: if_splits prod.splits)
  ultimately show ?thesis by simp
qed

lemma replaced_prefix:
  "prefix w (replace_all match_jwt s) \<Longrightarrow> CHR ''<'' \<notin> set w \<Longrightarrow> prefix w s"
proof (induction match_jwt s arbitrary: w rule: replace_all.induct)
  case (2 c cs)
  show ?case
  proof (cases "match_jwt (c # cs)")
    case None
    then show ?thesis using 2 by (cases w) auto
  next
    case (Some x)
    then obtain rest where "match_jwt (c # cs) = Some (redacted, rest)" "length rest \<le> length cs"
      using match_jwt_shorter by (metis surj_pair)
    then show ?thesis using 2(4,5) by (cases w) (auto simp: redacted_def)
  qed
qed simp

lemma not_in_redacted:
  assumes "jwt_word w" "sublist w (redacted @ s)" shows "sublist w s"
proof -
  have w: "CHR ''>'' \<notin> set w" "11 < length w" using assms(1) jwt_word_plain jwt_word_long by auto
  consider "sublist w redacted" | "sublist w s"
    | a b where "w = a @ b" "suffix a redacted" "prefix b s"
    using assms(2) by (auto simp: sublist_append)
  then show ?thesis
  proof cases
    case 1 then show ?thesis using w(2) sublist_length_le[of w redacted] by (simp add: redacted_def)
  next
    case 3
    have "a = []"
    proof (rule ccontr)
      assume "a \<noteq> []"
      then have "last a = CHR ''>''" using 3(2) by (auto simp: redacted_def suffix_def)
        (metis last.simps last_appendR list.discI)
      then show False using w(1) 3(1) \<open>a \<noteq> []\<close> by (metis Un_iff last_in_set set_append)
    qed
    then show ?thesis using 3 by (simp add: prefix_imp_sublist)
  qed simp
qed

lemma no_jwt_replaced: "jwt_word w \<Longrightarrow> \<not> sublist w (replace_all match_jwt s)"
proof (induction match_jwt s rule: replace_all.induct)
  case 1 then show ?case using jwt_word_long by fastforce
next
  case (2 c cs)
  show ?case
  proof (cases "match_jwt (c # cs)")
    case None
    have "\<not> prefix w (c # cs)" using jwt_word_matches[OF 2(4)] None by (metis prefix_def)
    then have "\<not> prefix w (c # replace_all match_jwt cs)"
      using replaced_prefix[of w "c # cs"] jwt_word_plain[OF 2(4)] None by auto
    then show ?thesis using 2 None by (auto simp: sublist_Cons_right)
  next
    case (Some x)
    then obtain rest where m: "match_jwt (c # cs) = Some (redacted, rest)" "length rest \<le> length cs"
      using match_jwt_shorter by (metis surj_pair)
    then show ?thesis using not_in_redacted[OF 2(4)] 2(2)[OF m(1) refl m(2) 2(4)] by auto
  qed
qed

lemma no_jwt_in_string: "\<not> contains_jwt (redact_string s)"
  using no_jwt_replaced by (auto simp: contains_jwt_def redact_string_def)

section \<open>Values under sensitive keys\<close>

text \<open>
  Two heaps that differ at most in the values of sensitive keys of errors and plain objects;
  instances are printed as they are, so theirs must agree.
\<close>

definition same_fields :: "(string \<times> lv) list \<Rightarrow> (string \<times> lv) list \<Rightarrow> bool" where
  "same_fields ps qs \<longleftrightarrow> list_all2 (\<lambda>(k, v) (k', v'). k = k' \<and> (sensitive_key k \<or> v = v')) ps qs"

fun same_obj :: "lobj \<Rightarrow> lobj \<Rightarrow> bool" where
  "same_obj (ErrorObj n m st ps) (ErrorObj n' m' st' qs) = (n = n' \<and> m = m' \<and> st = st' \<and> same_fields ps qs)"
| "same_obj (ArrayObj vs) (ArrayObj us) = (vs = us)"
| "same_obj (PlainObj ps) (PlainObj qs) = same_fields ps qs"
| "same_obj (InstanceObj ps) (InstanceObj qs) = (ps = qs)"
| "same_obj _ _ = False"

definition same_heap :: "lheap \<Rightarrow> lheap \<Rightarrow> bool" where
  "same_heap h h' \<longleftrightarrow> (\<forall>a. same_obj (h a) (h' a))"

lemma same_fields_filter:
  "same_fields ps qs \<Longrightarrow> same_fields (filter (\<lambda>(k, _). P k) ps) (filter (\<lambda>(k, _). P k) qs)"
  unfolding same_fields_def by (induction rule: list_all2_induct) auto

lemma threaded_fields:
  assumes "same_fields ps qs" "\<And>s v. f s v = g s v"
  shows "threaded (field_of f) s ps = threaded (field_of g) s qs"
  using assms(1) unfolding same_fields_def
proof (induction arbitrary: s rule: list_all2_induct)
  case (Cons x xs y ys)
  have "field_of f s x = field_of g s y" using Cons(1) assms(2) by (auto simp: field_of_def split: prod.splits)
  then show ?case using Cons(3) by simp
qed simp

lemma threaded_cong: "(\<And>s v. f s v = g s v) \<Longrightarrow> threaded f s vs = threaded g s vs"
  by (induction vs arbitrary: s) auto

lemma redact_value_same:
  assumes "same_heap h h'" shows "redact_value n h seen v = redact_value n h' seen v"
proof (induction n arbitrary: seen v)
  case (Suc n)
  have fields: "same_fields ps qs \<Longrightarrow> threaded (field_of (redact_value n h)) s ps = threaded (field_of (redact_value n h')) s qs" for ps qs s
    by (rule threaded_fields) (auto intro: Suc.IH)
  have vals: "threaded (redact_value n h) s vs = threaded (redact_value n h') s vs" for s vs
    by (rule threaded_cong) (rule Suc.IH)
  show ?case
  proof (cases v)
    case (Ref a)
    have "same_obj (h a) (h' a)" using assms by (simp add: same_heap_def)
    then show ?thesis unfolding Ref
      by (cases "h a"; cases "h' a") (simp_all add: vals fields fields[OF same_fields_filter])
  qed simp_all
qed simp

text \<open>The texts of a redacted value; the name of an error is copied as it is.\<close>

fun out_texts :: "lout \<Rightarrow> string list" where
  "out_texts (OText s) = [s]"
| "out_texts (OSame v) = []"
| "out_texts (OList ys) = concat (map out_texts ys)"
| "out_texts (OFields fs) = concat (map (\<lambda>kv. out_texts (snd kv)) fs)"

definition error_title :: "lheap \<Rightarrow> string \<Rightarrow> bool" where
  "error_title h t \<longleftrightarrow> (\<exists>a msg st ps. h a = ErrorObj t msg st ps)"

definition safe_text :: "lheap \<Rightarrow> string \<Rightarrow> bool" where
  "safe_text h t \<longleftrightarrow> \<not> contains_jwt t \<or> error_title h t"

lemma redact_string_safe: "safe_text h (redact_string s)"
  using no_jwt_in_string by (simp add: safe_text_def)

lemma short_text_safe: "length t < 12 \<Longrightarrow> safe_text h t"
  unfolding safe_text_def contains_jwt_def using jwt_word_long sublist_length_le by fastforce

lemma fixed_texts_safe: "safe_text h redacted" "safe_text h ''<max-depth>''" "safe_text h ''<circular>''"
  by (rule short_text_safe, simp add: redacted_def)+

lemma threaded_fields_safe:
  assumes "\<And>s v. list_all (safe_text h) (out_texts (fst (f s v)))"
  shows "list_all (safe_text h) (out_texts (OFields (fst (threaded (field_of f) s ps))))"
proof (induction ps arbitrary: s)
  case (Cons p ps)
  have "list_all (safe_text h) (out_texts (snd (fst (field_of f s p))))"
    using assms[of s "snd p"] fixed_texts_safe(1) by (simp add: field_of_def case_prod_beta)
  then show ?case using Cons by (simp add: case_prod_beta)
qed simp

lemma threaded_safe:
  assumes "\<And>s v. list_all (safe_text h) (out_texts (fst (f s v)))"
  shows "list_all (safe_text h) (out_texts (OList (fst (threaded f s vs))))"
proof (induction vs arbitrary: s)
  case (Cons v vs)
  then show ?case using assms[of s v] by (simp add: case_prod_beta)
qed simp

lemma redact_value_safe: "list_all (safe_text h) (out_texts (fst (redact_value n h seen v)))"
proof (induction n arbitrary: seen v)
  case (Suc n)
  note fields = threaded_fields_safe[of h "redact_value n h", OF Suc.IH]
  note vals = threaded_safe[of h "redact_value n h", OF Suc.IH]
  show ?case
  proof (cases v)
    case (Ref a)
    show ?thesis
    proof (cases "h a")
      case (ErrorObj name msg st ps)
      then have "safe_text h name" by (auto simp: safe_text_def error_title_def)
      then show ?thesis using fields[of "a # seen" "filter (\<lambda>(k, _). k \<notin> set error_names) ps"]
        by (cases st) (simp_all add: Ref ErrorObj case_prod_beta redact_string_safe fixed_texts_safe)
    next
      case (ArrayObj vs)
      then show ?thesis using vals[of "a # seen" vs] by (simp add: Ref case_prod_beta fixed_texts_safe)
    next
      case (PlainObj ps)
      then show ?thesis using fields[of "a # seen" ps] by (simp add: Ref case_prod_beta fixed_texts_safe)
    qed (simp add: Ref fixed_texts_safe)
  qed (simp_all add: redact_string_safe)
qed (simp add: fixed_texts_safe)

section \<open>Passwords in URLs\<close>

definition url_word :: "string \<Rightarrow> string \<Rightarrow> string \<Rightarrow> string" where
  "url_word scheme user pw = scheme @ ''://'' @ user @ '':'' @ pw @ ''@''"

text \<open>The parts of a URL with a password, as the pattern wants them.\<close>

definition url_parts_ok :: "string \<Rightarrow> string \<Rightarrow> bool" where
  "url_parts_ok scheme user \<longleftrightarrow>
     scheme \<noteq> [] \<and> letter (hd scheme) \<and> list_all scheme_char scheme \<and> user \<noteq> [] \<and> list_all user_char user"

definition password_ok :: "string \<Rightarrow> bool" where
  "password_ok pw \<longleftrightarrow> pw \<noteq> [] \<and> list_all password_char pw"

lemma class_stops [simp]:
  "\<not> scheme_char CHR '':''" "\<not> user_char CHR '':''" "\<not> password_char CHR ''@''"
  by code_simp+

lemma match_userinfo_url:
  assumes "url_parts_ok scheme user" "password_ok pw"
  shows "match_userinfo (url_word scheme user pw @ rest) = Some (url_word scheme user redacted, rest)"
proof -
  obtain c cs where s: "scheme = c # cs" "letter c" "list_all scheme_char (c # cs)"
    using assms(1) by (cases scheme) (auto simp: url_parts_ok_def)
  have r1: "run scheme_char (c # cs @ CHR '':'' # x) = (c # cs, CHR '':'' # x)" for x
    using run_word[OF s(3), of "CHR '':''" x] by simp
  have r2: "run user_char (user @ CHR '':'' # x) = (user, CHR '':'' # x)" for x
    using assms(1) by (intro run_word) (simp_all add: url_parts_ok_def)
  have r3: "run password_char (pw @ CHR ''@'' # x) = (pw, CHR ''@'' # x)" for x
    using assms(2) by (intro run_word) (simp_all add: password_ok_def)
  show ?thesis using assms s(2)
    by (simp add: match_userinfo_def url_word_def s(1) r1 r2 r3 startsWith_def url_parts_ok_def password_ok_def)
qed

lemma url_after_text:
  assumes "url_parts_ok scheme user" "password_ok pw" "CHR '':'' \<notin> set pre"
  shows "replace_all match_userinfo (pre @ url_word scheme user pw @ rest) =
     pre @ url_word scheme user redacted @ replace_all match_userinfo rest"
  using assms(3)
proof (induction pre)
  case Nil
  obtain c cs where w: "url_word scheme user pw @ rest = c # cs" "length rest \<le> length cs"
    using assms(1) by (cases scheme) (auto simp: url_parts_ok_def url_word_def)
  then show ?case using match_userinfo_url[OF assms(1,2), of rest] by simp
next
  case (Cons c pre)
  let ?t = "pre @ url_word scheme user pw @ rest"
  show ?case
  proof (cases "letter c \<and> list_all scheme_char (c # pre)")
    case True
    then have "url_parts_ok (c # pre @ scheme) user" using assms(1) by (simp add: url_parts_ok_def)
    from match_userinfo_url[OF this assms(2), of rest]
    have "match_userinfo (c # ?t) = Some (c # pre @ url_word scheme user redacted, rest)" by (simp add: url_word_def)
    moreover have "length rest \<le> length ?t" by simp
    ultimately show ?thesis by simp
  next
    case False
    have "match_userinfo (c # ?t) = None"
    proof (cases "letter c")
      case True
      then have "\<exists>x \<in> set (c # pre). \<not> scheme_char x" using False by (auto simp: list_all_iff)
      from split_list_first_prop[OF this] obtain u d v
        where uv: "c # pre = u @ d # v" "list_all scheme_char u" "\<not> scheme_char d" by (auto simp: list_all_iff)
      then have "d \<noteq> CHR '':''" using Cons.prems by (metis in_set_conv_decomp)
      moreover have e: "c # ?t = u @ d # v @ url_word scheme user pw @ rest" using uv(1) by simp
      have "run scheme_char (c # ?t) = (u, d # v @ url_word scheme user pw @ rest)"
        unfolding e by (rule run_word[OF uv(2,3)])
      ultimately show ?thesis by (simp add: match_userinfo_def startsWith_def)
    qed (simp add: match_userinfo_def)
    then show ?thesis using Cons by simp
  qed
qed

lemma password_has_no_influence:
  assumes "url_parts_ok scheme user" "password_ok pw" "password_ok pw'" "CHR '':'' \<notin> set pre"
  shows "redact_string (pre @ url_word scheme user pw @ rest) = redact_string (pre @ url_word scheme user pw' @ rest)"
  by (simp add: redact_string_def redact_url_def url_after_text assms)

text \<open>What is no such URL is left as it is: no user, a slash in the password, a parameter in a parameter.\<close>

lemma userless_url_kept: "redact_string ''redis://:hunter2@cache'' = ''redis://:hunter2@cache''"
  by code_simp

lemma slash_password_kept: "redact_string ''postgres://app:pa/ss@db'' = ''postgres://app:pa/ss@db''"
  by code_simp

lemma nested_param_kept: "redact_string ''http://h/cb?next=/x?token=abc'' = ''http://h/cb?next=/x?token=abc''"
  by code_simp

section \<open>Errors of axios\<close>

definition url_names :: "string list" where
  "url_names = [''url'', ''baseURL'', ''path'']"

definition scrubbed :: "string \<Rightarrow> lv \<Rightarrow> bool" where
  "scrubbed k v \<longleftrightarrow> (sensitive_key k \<or> k = ''data'') \<and> v = LText redacted
     \<or> k \<in> set url_names \<and> (\<exists>s. v = LText (redact_url s))"

text \<open>From one heap to the next, properties are kept or scrubbed.\<close>

definition scrubs :: "lheap \<Rightarrow> lheap \<Rightarrow> bool" where
  "scrubs h h' \<longleftrightarrow> (\<forall>x k. get_prop h' x k = get_prop h x k \<or> scrubbed k (get_prop h' x k))"

definition gone :: "lheap \<Rightarrow> nat \<Rightarrow> string \<Rightarrow> bool" where
  "gone h a k \<longleftrightarrow> get_prop h a k = LUndef \<or> get_prop h a k = LText redacted"

lemma plain_names:
  "\<not> sensitive_key ''config''" "\<not> sensitive_key ''headers''" "\<not> sensitive_key ''request''"
  "\<not> sensitive_key ''response''" "\<not> sensitive_key ''url''" "\<not> sensitive_key ''baseURL''" "\<not> sensitive_key ''path''"
  by code_simp+

lemma pointers_kept:
  assumes "scrubs h h'" "k \<in> {''config'', ''headers'', ''request'', ''response''}"
  shows "get_prop h' a k = get_prop h a k"
  using assms plain_names by (auto simp: scrubs_def scrubbed_def url_names_def)

lemma scrubs_refl: "scrubs h h"
  by (simp add: scrubs_def)

lemma scrubs_trans: "scrubs h h1 \<Longrightarrow> scrubs h1 h2 \<Longrightarrow> scrubs h h2"
  unfolding scrubs_def by metis

lemma gone_kept:
  assumes "scrubs h h'" "sensitive_key k \<or> k = ''data''" "gone h a k" shows "gone h' a k"
proof -
  have "k \<notin> set url_names" using assms(2) plain_names by (auto simp: url_names_def)
  then show ?thesis using assms(1,3) unfolding scrubs_def scrubbed_def gone_def by metis
qed

lemma assign_map: "map_of (assign ps k v) = (map_of ps)(k \<mapsto> v)"
  by (induction ps) auto

lemma props_with: "props_of (with_props ob ps) = (case ob of ArrayObj _ \<Rightarrow> [] | _ \<Rightarrow> ps)"
  by (simp add: props_of_def with_props_def split: lobj.splits)

lemma get_set_prop:
  "get_prop (set_prop a k v h) b k' =
     (if b = a \<and> k' = k \<and> (\<forall>vs. h a \<noteq> ArrayObj vs) then v else get_prop h b k')"
  by (cases "h a") (simp_all add: get_prop_def set_prop_def with_props_def props_of_def assign_map)

lemma scrubs_set: "scrubbed k v \<Longrightarrow> scrubs h (set_prop a k v h)"
  by (simp add: scrubs_def get_set_prop)

lemma scrubs_on_prop: "(\<And>b h. scrubs h (f b h)) \<Longrightarrow> scrubs h (on_prop a k f h)"
  by (simp add: on_prop_def scrubs_refl split: lv.splits)

lemma scrubs_url: "k \<in> set url_names \<Longrightarrow> scrubs h (scrub_url a k h)"
  by (auto simp: scrub_url_def scrubs_refl scrubbed_def intro!: scrubs_set split: lv.splits)

lemma scrub_fold:
  "scrubs h (fold (\<lambda>(k, _) h. if sensitive_key k then set_prop a k (LText redacted) h else h) ps h)"
proof (induction ps arbitrary: h)
  case (Cons p ps)
  show ?case using scrubs_trans[OF scrubs_set[of "fst p" "LText redacted" h a] Cons] Cons
    by (auto simp: scrubbed_def split: prod.splits)
qed (simp add: scrubs_refl)

lemma scrubs_headers: "scrubs h (scrub_headers a h)"
  by (simp add: scrub_headers_def scrub_fold)

lemma fold_gone:
  assumes "sensitive_key k" "gone h a k \<or> k \<in> fst ` set ps"
  shows "gone (fold (\<lambda>(k, _) h. if sensitive_key k then set_prop a k (LText redacted) h else h) ps h) a k"
  using assms(2)
proof (induction ps arbitrary: h)
  case (Cons p ps)
  obtain k' v' where p: "p = (k', v')" by (cases p)
  let ?h = "if sensitive_key k' then set_prop a k' (LText redacted) h else h"
  have "gone ?h a k \<or> k \<in> fst ` set ps"
  proof (cases "k = k'")
    case True
    have "get_prop h a k = LUndef" if "h a = ArrayObj vs" for vs using that by (simp add: get_prop_def props_of_def)
    then show ?thesis using True assms(1) by (auto simp: gone_def get_set_prop)
  next
    case False
    then show ?thesis using Cons.prems p by (auto simp: gone_def get_set_prop)
  qed
  then show ?case using Cons.IH[of ?h] p by simp
qed simp

lemma headers_gone: "sensitive_key k \<Longrightarrow> gone (scrub_headers a h) a k"
  unfolding scrub_headers_def
proof (rule fold_gone)
  show "gone h a k \<or> k \<in> fst ` set (props_of (h a))"
    by (cases "map_of (props_of (h a)) k") (auto simp: gone_def get_prop_def dest!: map_of_SomeD intro: rev_image_eqI)
qed

lemma scrubs_rest:
  "scrubs h1 (let h2 = scrub_url c ''baseURL'' (scrub_url c ''url'' h1) in
     if get_prop h2 c ''data'' = LUndef then h2 else set_prop c ''data'' (LText redacted) h2)"
proof -
  let ?h2 = "scrub_url c ''baseURL'' (scrub_url c ''url'' h1)"
  have two: "scrubs h1 ?h2" by (rule scrubs_trans; rule scrubs_url) (simp_all add: url_names_def)
  moreover have "scrubs ?h2 (set_prop c ''data'' (LText redacted) ?h2)" by (rule scrubs_set) (simp add: scrubbed_def)
  ultimately show ?thesis using scrubs_trans by (simp add: Let_def)
qed

lemma scrubs_config: "scrubs h (scrub_config c h)"
  unfolding scrub_config_def Let_def[of "on_prop c ''headers'' scrub_headers h"]
  by (rule scrubs_trans[OF scrubs_on_prop[OF scrubs_headers] scrubs_rest])

lemma config_data_gone: "gone (scrub_config c h) c ''data''"
proof -
  have "get_prop g c ''data'' = LUndef" if "g c = ArrayObj vs" for g vs using that by (simp add: get_prop_def props_of_def)
  then show ?thesis by (auto simp: scrub_config_def Let_def gone_def get_set_prop)
qed

lemma config_headers_gone:
  assumes "get_prop h c ''headers'' = Ref a" "sensitive_key k" shows "gone (scrub_config c h) a k"
proof -
  have "gone (on_prop c ''headers'' scrub_headers h) a k" using assms headers_gone by (simp add: on_prop_def)
  then show ?thesis
    unfolding scrub_config_def Let_def[of "on_prop c ''headers'' scrub_headers h"]
    using gone_kept[OF scrubs_rest] assms(2) by blast
qed

section \<open>The properties\<close>



text \<open>
  Whatever the password of a URL is, of the characters the pattern allows, the text it stands in is
  logged the same, when nothing before the URL has a colon.
\<close>

theorem url_password_never_logged:
  assumes "url_parts_ok scheme user" "password_ok pw" "password_ok pw'" "CHR '':'' \<notin> set pre"
  shows "redact_string (pre @ url_word scheme user pw @ rest) = redact_string (pre @ url_word scheme user pw' @ rest)"
  by (rule password_has_no_influence[OF assms])

text \<open>
  After \<open>sanitizeAxiosError\<close> the headers of the request and of the response hold nothing under a
  sensitive name and the request body is gone, whatever objects are shared; every other property is
  as it was, but for the addresses, which are redacted.
\<close>

theorem sanitized_error_is_clean:
  fixes h :: lheap and e :: nat
  defines "h' \<equiv> sanitize_axios_error (Ref e) h"
  assumes "get_prop h e ''config'' = Ref c"
  shows "gone h' c ''data''
     \<and> (\<forall>a k. get_prop h c ''headers'' = Ref a \<and> sensitive_key k \<longrightarrow> gone h' a k)
     \<and> (\<forall>r a k. get_prop h e ''response'' = Ref r \<and> get_prop h r ''headers'' = Ref a \<and> sensitive_key k \<longrightarrow> gone h' a k)
     \<and> scrubs h h'"
proof -
  let ?h1 = "scrub_config c h"
  let ?h2 = "on_prop e ''request'' (\<lambda>r. scrub_url r ''path'') ?h1"
  have h': "h' = on_prop e ''response'' (\<lambda>r. on_prop r ''headers'' scrub_headers) ?h2"
    using assms(2) by (simp add: h'_def sanitize_axios_error_def on_prop_def)
  have s2: "scrubs ?h1 ?h2" by (rule scrubs_on_prop) (rule scrubs_url, simp add: url_names_def)
  have s3: "scrubs ?h2 h'" unfolding h' by (intro scrubs_on_prop scrubs_headers)
  note s13 = scrubs_trans[OF s2 s3] and s02 = scrubs_trans[OF scrubs_config s2]
  have "gone h' a k" if "get_prop h c ''headers'' = Ref a" "sensitive_key k" for a k
    using gone_kept[OF s13] config_headers_gone[OF that] that(2) by blast
  moreover have "gone h' a k"
    if r: "get_prop h e ''response'' = Ref r" "get_prop h r ''headers'' = Ref a" "sensitive_key k" for r a k
  proof -
    have "h' = scrub_headers a ?h2" using pointers_kept[OF s02] r by (simp add: h' on_prop_def)
    then show ?thesis using headers_gone r(3) by simp
  qed
  ultimately show ?thesis
    using gone_kept[OF s13 _ config_data_gone] scrubs_trans[OF s02 s3] by blast
qed

section \<open>Witnesses\<close>

definition demo_axios_error :: "string \<Rightarrow> lheap" where
  "demo_axios_error token = (\<lambda>_. PlainObj [])
     (0 := ErrorObj ''AxiosError'' ''failed'' None [(''config'', Ref 1)],
      1 := PlainObj [(''url'', LText ''http://h/?token=abc''), (''headers'', Ref 2), (''data'', LText ''key'')],
      2 := PlainObj [(''Authorization'', LText token), (''Accept'', LText ''text'')])"


theorem url_password_never_logged_witness:
  "redact_string (''at '' @ url_word ''postgres'' ''app'' ''one'' @ ''db'') = redact_string (''at '' @ url_word ''postgres'' ''app'' ''two'' @ ''db'')"
proof (rule url_password_never_logged)
  show "url_parts_ok ''postgres'' ''app''" "password_ok ''one''" "password_ok ''two''" by (code_simp)+
qed simp

theorem sanitized_error_is_clean_witness:
  "gone (sanitize_axios_error (Ref 0) (demo_axios_error ''Bearer one'')) 2 ''Authorization''"
proof -
  have "sensitive_key ''Authorization''" by code_simp
  moreover have "get_prop (demo_axios_error ''Bearer one'') 0 ''config'' = Ref 1"
      "get_prop (demo_axios_error ''Bearer one'') 1 ''headers'' = Ref 2"
    by (simp_all add: get_prop_def props_of_def demo_axios_error_def)
  ultimately show ?thesis using sanitized_error_is_clean by blast
qed

end
