(* ===== verification/Webhooks.thy ===== *)
theory Webhooks
  imports AgentCrud
begin

text \<open>
  The webhooks of agents: registering, listing and removing them (\<open>routes/agents.ts\<close>) and what is
  delivered to them (\<open>services/webhook-dispatch.ts\<close>). A delivery that is attempted is a row of
  \<open>fl_posts\<close>: where to, the body and the signature; what the host answers is only logged. The
  routes are for administrators, which is the gate of theory Access.
\<close>

section \<open>Routes\<close>

record hook_card =
  hc_id :: string
  hc_agent :: string
  hc_url :: string
  hc_events :: "string list"
  hc_active :: bool
  hc_created_by :: string

datatype hook_resp =
    HookRefused nat string
  | HookList "hook_card list"
  | HookCreated hook_card
  | HookDeleted

text \<open>The columns of the answers, those of the secret not among them.\<close>

definition hook_card :: "webhook_row \<Rightarrow> hook_card" where
  "hook_card h = \<lparr>hc_id = wh_id h, hc_agent = wh_agent h, hc_url = wh_url h, hc_events = wh_events h,
     hc_active = wh_active h, hc_created_by = wh_created_by h\<rparr>"

definition or_500 :: "string \<Rightarrow> (fleet_db, hook_resp) eff \<Rightarrow> (fleet_db, hook_resp) eff" where
  "or_500 msg m = eff_catch m (\<lambda>_. ret (HookRefused 500 msg))"

definition hooks_of :: "string \<Rightarrow> fleet_db \<Rightarrow> webhook_row list" where
  "hooks_of u d = filter (\<lambda>h. wh_agent h = u) (fl_webhooks d)"

definition list_webhooks :: "fleet_env \<Rightarrow> string \<Rightarrow> (fleet_db, hook_resp) eff" where
  "list_webhooks env i = or_500 ''Failed to list webhooks''
     (eff_bind (fleet_query env i (\<lambda>u d. (hooks_of u d, d))) (\<lambda>hs. ret (HookList (map hook_card hs))))"

definition valid_webhook_events :: "string list" where
  "valid_webhook_events = [''start'', ''stop'', ''error'']"

definition bad_event :: "js list \<Rightarrow> js option" where
  "bad_event es = find (\<lambda>e. \<not> (is_str e \<and> the_str e \<in> set valid_webhook_events)) es"

text \<open>The secret of a request: only a string can be encrypted, and nothing falsy is.\<close>

definition seal_secret :: "fleet_env \<Rightarrow> js \<Rightarrow> (fleet_db, sealed option) eff" where
  "seal_secret env v =
     (if \<not> truthy v then ret None
      else case configured_key (fe_enc_key env) of
        Inl e \<Rightarrow> throw (Thrown (key_text e))
      | Inr hex \<Rightarrow>
          if \<not> is_str v then throw (Thrown ''ERR_INVALID_ARG_TYPE'')
          else eff_bind (peek fl_count) (\<lambda>k.
            case encrypt_provider_key (fe_cipher env) (the_str v) hex k of
              Inl e \<Rightarrow> throw (Thrown (key_text e))
            | Inr s \<Rightarrow> eff_seq (local_step (\<lambda>d. d\<lparr>fl_count := Suc k\<rparr>)) (ret (Some s))))"

definition insert_webhook :: "fleet_env \<Rightarrow> string \<Rightarrow> string \<Rightarrow> string list \<Rightarrow> sealed option \<Rightarrow> string \<Rightarrow> (fleet_db, webhook_row) eff" where
  "insert_webhook env i url events secret by_whom = db_query (\<lambda>d.
     case fe_uuid env i of
       None \<Rightarrow> Inl DbFault
     | Some u \<Rightarrow>
         let h = \<lparr>wh_id = fe_new_id env (fl_count d), wh_agent = u, wh_url = url, wh_events = events,
               wh_encrypted = map_option fst secret, wh_nonce = map_option snd secret, wh_active = True,
               wh_created_by = by_whom\<rparr> in
         if \<not> text_ok url \<or> \<not> varchar_ok 255 by_whom then Inl DbFault
         else if find_fleet u d = None then Inl DbFault
         else if wh_id h \<in> set (map wh_id (fl_webhooks d)) then Inl (UniqueViolation ''agent_webhooks_pkey'')
         else Inr (h, d\<lparr>fl_webhooks := fl_webhooks d @ [h], fl_count := Suc (fl_count d)\<rparr>))"

definition create_webhook :: "fleet_env \<Rightarrow> js \<Rightarrow> string \<Rightarrow> js \<Rightarrow> (fleet_db, hook_resp) eff" where
  "create_webhook env user i body = or_500 ''Failed to create webhook''
     (if nullish body then throw (Thrown ''Cannot destructure'')
      else
      let url = js_get body ''url''; evs = js_get body ''events'' in
      if \<not> truthy url \<or> \<not> is_str url then ret (HookRefused 400 ''url is required'')
      else if fe_parse env (the_str url) = None then ret (HookRefused 400 ''Invalid URL format'')
      else
      let events = (if is_arr evs then the_arr evs else map Str valid_webhook_events) in
      case bad_event events of
        Some e \<Rightarrow> ret (HookRefused 400 (''Invalid event: '' @ fleet_show env e @ ''. Valid: '' @ join_with '', '' valid_webhook_events))
      | None \<Rightarrow>
          eff_bind (select_agent env i) (\<lambda>a.
          if a = None then ret (HookRefused 404 ''Agent not found'')
          else
          eff_bind (seal_secret env (js_get body ''secret'')) (\<lambda>s.
          eff_bind (insert_webhook env i (the_str url) (map the_str events) s (caller_sub env user)) (\<lambda>h.
          ret (HookCreated (hook_card h))))))"

definition delete_webhook :: "fleet_env \<Rightarrow> string \<Rightarrow> string \<Rightarrow> (fleet_db, hook_resp) eff" where
  "delete_webhook env i hook = or_500 ''Failed to delete webhook''
     (eff_bind (db_query (\<lambda>d.
        case (fe_uuid env hook, fe_uuid env i) of
          (Some k, Some u) \<Rightarrow>
            let gone = (\<lambda>h. wh_id h = k \<and> wh_agent h = u) in
            Inr (filter gone (fl_webhooks d), d\<lparr>fl_webhooks := filter (\<lambda>h. \<not> gone h) (fl_webhooks d)\<rparr>)
        | _ \<Rightarrow> Inl DbFault))
      (\<lambda>hs. ret (if hs = [] then HookRefused 404 ''Webhook not found'' else HookDeleted)))"

section \<open>Delivery\<close>

datatype webhook_event = HookStart | HookStop | HookError

fun event_name :: "webhook_event \<Rightarrow> string" where
  "event_name HookStart = ''start''"
| "event_name HookStop = ''stop''"
| "event_name HookError = ''error''"

definition decrypt_webhook_secret :: "fleet_env \<Rightarrow> webhook_row \<Rightarrow> crypt_error + string option" where
  "decrypt_webhook_secret env h =
     (case (wh_encrypted h, wh_nonce h) of
        (Some c, Some n) \<Rightarrow>
          (case configured_key (fe_enc_key env) of
             Inl e \<Rightarrow> Inl e
           | Inr hex \<Rightarrow> map_sum id Some (decrypt_provider_key (fe_cipher env) c n hex))
      | _ \<Rightarrow> Inr None)"

text \<open>\<open>{event, agent_id, agent_uuid, timestamp, ...payload}\<close>\<close>

definition event_object :: "fleet_env \<Rightarrow> string \<Rightarrow> string \<Rightarrow> webhook_event \<Rightarrow> (string \<times> js) list \<Rightarrow> js" where
  "event_object env slug i ev payload = Obj (foldl (\<lambda>kvs (k, v). js_map_set kvs k v)
     [(''event'', Str (event_name ev)), (''agent_id'', Str slug), (''agent_uuid'', Str i),
      (''timestamp'', Str (fe_iso env))] payload)"

definition is_discord_webhook :: "string \<Rightarrow> bool" where
  "is_discord_webhook url =
     (str_includes url ''discord.com/api/webhooks/'' \<or> str_includes url ''discordapp.com/api/webhooks/'')"

text \<open>Colours and signs of the events, the latter in UTF-8.\<close>

definition event_color :: "string \<Rightarrow> nat" where
  "event_color ev = (if ev = ''start'' then 0x5b9a2f else if ev = ''stop'' then 0xf59e0b
     else if ev = ''error'' then 0xef4444 else 0x6b7280)"

definition event_emoji :: "string \<Rightarrow> string" where
  "event_emoji ev =
     (if ev = ''start'' then [CHR 0xF0, CHR 0x9F, CHR 0x9F, CHR 0xA2]
      else if ev = ''stop'' then [CHR 0xF0, CHR 0x9F, CHR 0x9F, CHR 0xA1]
      else if ev = ''error'' then [CHR 0xF0, CHR 0x9F, CHR 0x94, CHR 0xB4]
      else [CHR 0xE2, CHR 0x9A, CHR 0xAA])"

definition or_str :: "js \<Rightarrow> string \<Rightarrow> js" where
  "or_str v s = (if truthy v then v else Str s)"

definition format_discord_payload :: "fleet_env \<Rightarrow> string \<Rightarrow> js \<Rightarrow> string" where
  "format_discord_payload env ev parsed =
     (let show = fleet_show env; agent = js_get parsed ''agent_id''; box = js_get parsed ''container_id'' in
      js_stringify (tl_fmt (fe_lib env)) (Obj [(''embeds'', Arr [Obj
        [(''title'', Str (event_emoji ev @ '' Agent '' @ to_upper (take 1 ev) @ drop 1 ev)),
         (''description'', Str (''**'' @ show agent @ ''** '' @
            (if ev = ''error'' then ''failed: '' @ show (or_str (js_get parsed ''error'') ''unknown error'')
             else if ev = ''start'' then ''is now running'' else ''has stopped''))),
         (''color'', Num (Fin (of_nat (event_color ev)))),
         (''fields'', Arr
            ([Obj [(''name'', Str ''Agent''), (''value'', Str (show (or_str agent ''unknown''))), (''inline'', Bool True)],
              Obj [(''name'', Str ''Event''), (''value'', Str ev), (''inline'', Bool True)]] @
             (if truthy box then [Obj [(''name'', Str ''Container''), (''value'', Str (take 12 (show box))), (''inline'', Bool True)]]
              else []))),
         (''timestamp'', or_str (js_get parsed ''timestamp'') (fe_iso env)),
         (''footer'', Obj [(''text'', Str ''Hill90 Platform'')])]])]))"

definition send_post :: "hook_post \<Rightarrow> (fleet_db, unit) eff" where
  "send_post p = local_step (\<lambda>d. d\<lparr>fl_posts := fl_posts d @ [p]\<rparr>)"

definition signature_of :: "fleet_env \<Rightarrow> string \<Rightarrow> string \<Rightarrow> string" where
  "signature_of env secret body = ''sha256='' @ fe_hmac env secret body"

definition deliver_webhook :: "fleet_env \<Rightarrow> webhook_row \<Rightarrow> string \<Rightarrow> (fleet_db, unit) eff" where
  "deliver_webhook env h body =
     (case json_parse body of
        None \<Rightarrow> throw (Thrown ''SyntaxError'')
      | Some parsed \<Rightarrow>
          let discord = is_discord_webhook (wh_url h); ev = or_str (js_get parsed ''event'') ''unknown'' in
          if discord \<and> \<not> is_str ev then throw (Thrown ''TypeError'')
          else
          let sent = (if discord then format_discord_payload env (the_str ev) parsed else body) in
          case decrypt_webhook_secret env h of
            Inl e \<Rightarrow> ret ()
          | Inr secret \<Rightarrow>
              send_post \<lparr>hp_hook = wh_id h, hp_url = wh_url h, hp_body = sent,
                hp_signature = (case secret of
                    Some s \<Rightarrow> if s \<noteq> [] \<and> \<not> discord then Some (signature_of env s sent) else None
                  | None \<Rightarrow> None)\<rparr>)"

definition listening :: "string \<Rightarrow> webhook_event \<Rightarrow> fleet_db \<Rightarrow> webhook_row list" where
  "listening u ev d = filter (\<lambda>h. wh_agent h = u \<and> wh_active h \<and> event_name ev \<in> set (wh_events h)) (fl_webhooks d)"

text \<open>\<open>Promise.allSettled\<close>: one delivery that throws leaves the others alone.\<close>

definition dispatch_webhooks :: "fleet_env \<Rightarrow> string \<Rightarrow> string \<Rightarrow> webhook_event \<Rightarrow> (string \<times> js) list \<Rightarrow> (fleet_db, unit) eff" where
  "dispatch_webhooks env slug i ev payload = best_effort
     (eff_bind (fleet_query env i (\<lambda>u d. (listening u ev d, d))) (\<lambda>hs.
      eff_for hs (\<lambda>h. best_effort
        (deliver_webhook env h (js_stringify (tl_fmt (fe_lib env)) (event_object env slug i ev payload))))))"

end
