(* ===== verification/WebhookProps.thy ===== *)
theory WebhookProps
  imports Webhooks AgentProps
begin

text \<open>
  What the subscribers of an agent get: deliveries against a reference definition, their
  signatures, and the way of a secret from the request that registers it to the signature of a delivery.
\<close>

section \<open>The event\<close>

lemma js_map_set_keys: "fst ` set (js_map_set kvs k v) = insert k (fst ` set kvs)"
proof (induction kvs)
  case (Cons kv kvs)
  then show ?case by (cases kv) (simp add: insert_commute)
qed simp

lemma js_map_set_distinct: "distinct (map fst kvs) \<Longrightarrow> distinct (map fst (js_map_set kvs k v))"
proof (induction kvs)
  case (Cons kv kvs)
  then show ?case using js_map_set_keys[of kvs k v] by (cases kv) auto
qed simp

lemma js_map_set_ok: "members_ok kvs \<Longrightarrow> json_ok v \<Longrightarrow> members_ok (js_map_set kvs k v)"
  by (induction kvs) auto

lemma spread_ok:
  "list_all (\<lambda>kv. json_ok (snd kv)) payload \<Longrightarrow> members_ok kvs \<Longrightarrow> distinct (map fst kvs) \<Longrightarrow>
     json_ok (Obj (foldl (\<lambda>kvs (k, v). js_map_set kvs k v) kvs payload))"
proof (induction payload arbitrary: kvs)
  case (Cons p ps)
  then show ?case by (cases p) (simp add: js_map_set_ok js_map_set_distinct)
qed simp

lemma event_object_ok: "list_all (\<lambda>kv. json_ok (snd kv)) payload \<Longrightarrow> json_ok (event_object env slug i ev payload)"
  unfolding event_object_def by (rule spread_ok) simp_all

lemma js_map_set_other: "k' \<noteq> k \<Longrightarrow> js_get (Obj (js_map_set kvs k v)) k' = js_get (Obj kvs) k'"
  by (induction kvs) auto

lemma spread_other:
  "k \<notin> fst ` set payload \<Longrightarrow>
     js_get (Obj (foldl (\<lambda>kvs (k, v). js_map_set kvs k v) kvs payload)) k = js_get (Obj kvs) k"
proof (induction payload arbitrary: kvs)
  case (Cons p ps)
  then show ?case by (cases p) (auto simp: js_map_set_other simp del: js_get.simps)
qed simp

lemma event_object_event:
  "''event'' \<notin> fst ` set payload \<Longrightarrow> js_get (event_object env slug i ev payload) ''event'' = Str (event_name ev)"
  unfolding event_object_def by (subst spread_other) simp_all

section \<open>A delivery\<close>

definition signed_with :: "fleet_env \<Rightarrow> webhook_row \<Rightarrow> string option \<Rightarrow> string \<Rightarrow> string option" where
  "signed_with env h secret body =
     (if is_discord_webhook (wh_url h) then None
      else case secret of None \<Rightarrow> None | Some s \<Rightarrow> if s = [] then None else Some (signature_of env s body))"

text \<open>The reference: what a subscriber is sent of an event, None when its secret cannot be read.\<close>

definition hook_delivery :: "fleet_env \<Rightarrow> webhook_event \<Rightarrow> js \<Rightarrow> webhook_row \<Rightarrow> hook_post option" where
  "hook_delivery env ev obj h =
     (case decrypt_webhook_secret env h of
        Inl _ \<Rightarrow> None
      | Inr secret \<Rightarrow>
          let body = (if is_discord_webhook (wh_url h) then format_discord_payload env (event_name ev) obj
            else js_stringify (tl_fmt (fe_lib env)) obj) in
          Some \<lparr>hp_hook = wh_id h, hp_url = wh_url h, hp_body = body, hp_signature = signed_with env h secret body\<rparr>)"

lemma deliver_as_reference:
  assumes "json_ok obj" "js_get obj ''event'' = Str (event_name ev)"
  shows "deliver_webhook env h (js_stringify (tl_fmt (fe_lib env)) obj) w =
     (Inr (), w\<lparr>db := (db w)\<lparr>fl_posts := fl_posts (db w) @ (case hook_delivery env ev obj h of None \<Rightarrow> [] | Some p \<Rightarrow> [p])\<rparr>\<rparr>)"
proof -
  have "event_name ev \<noteq> []" by (cases ev) simp_all
  then show ?thesis using assms
    by (auto simp: deliver_webhook_def json_roundtrip or_str_def hook_delivery_def signed_with_def send_post_def
        local_step_def ret_def Let_def split: sum.splits option.splits)
qed

text \<open>Any delivery, whatever its body: at most one post, signed as the hook's secret has it.\<close>

definition rightly_signed :: "fleet_env \<Rightarrow> webhook_row \<Rightarrow> hook_post \<Rightarrow> bool" where
  "rightly_signed env h p \<longleftrightarrow> hp_hook p = wh_id h \<and> hp_url p = wh_url h
     \<and> (\<exists>secret. decrypt_webhook_secret env h = Inr secret \<and> hp_signature p = signed_with env h secret (hp_body p))"

definition posts_more :: "(hook_post \<Rightarrow> bool) \<Rightarrow> fleet_db \<Rightarrow> fleet_db \<Rightarrow> bool" where
  "posts_more P d d' \<longleftrightarrow> (\<exists>new. d' = d\<lparr>fl_posts := fl_posts d @ new\<rparr> \<and> list_all P new)"

lemma posts_more_refl: "posts_more P d d"
  unfolding posts_more_def by (intro exI[of _ "[]"]) simp

lemma posts_more_trans: "posts_more P d d1 \<Longrightarrow> posts_more P d1 d2 \<Longrightarrow> posts_more P d d2"
  unfolding posts_more_def by fastforce

lemma posts_more_mono: "posts_more P d d' \<Longrightarrow> (\<And>p. P p \<Longrightarrow> Q p) \<Longrightarrow> posts_more Q d d'"
  unfolding posts_more_def by (auto simp: list_all_iff)

lemma signed_post:
  "decrypt_webhook_secret env h = Inr secret \<Longrightarrow>
     rightly_signed env h \<lparr>hp_hook = wh_id h, hp_url = wh_url h, hp_body = body, hp_signature = signed_with env h secret body\<rparr>"
  by (auto simp: rightly_signed_def)

lemma deliver_cases:
  "deliver_webhook env h body w = (Inr (), w) \<or> (\<exists>e. deliver_webhook env h body w = (Inl e, w))
   \<or> (\<exists>secret sent. decrypt_webhook_secret env h = Inr secret \<and> deliver_webhook env h body w =
        send_post \<lparr>hp_hook = wh_id h, hp_url = wh_url h, hp_body = sent, hp_signature = signed_with env h secret sent\<rparr> w)"
proof (cases "decrypt_webhook_secret env h")
  case (Inl e)
  then show ?thesis by (auto simp: deliver_webhook_def throw_def ret_def Let_def split: option.splits)
next
  case (Inr secret)
  have "(case secret of None \<Rightarrow> None | Some s \<Rightarrow> if s \<noteq> [] \<and> \<not> is_discord_webhook (wh_url h) then Some (signature_of env s sent) else None) =
      signed_with env h secret sent" for sent
    by (auto simp: signed_with_def split: option.splits)
  then show ?thesis using Inr by (auto simp: deliver_webhook_def throw_def Let_def split: option.splits)
qed

lemma deliver_signed: "posts_more (rightly_signed env h) (db w) (db (snd (best_effort (deliver_webhook env h body) w)))"
proof -
  let ?w = "snd (best_effort (deliver_webhook env h body) w)"
  consider "db ?w = db w"
    | secret sent where "decrypt_webhook_secret env h = Inr secret"
        "db ?w = (db w)\<lparr>fl_posts := fl_posts (db w) @
           [\<lparr>hp_hook = wh_id h, hp_url = wh_url h, hp_body = sent, hp_signature = signed_with env h secret sent\<rparr>]\<rparr>"
    using deliver_cases[of env h body w]
    by (auto simp: best_effort_def eff_catch_def ret_def send_post_def local_step_def)
  then show ?thesis
  proof cases
    case 2
    then show ?thesis using signed_post unfolding posts_more_def by (intro exI conjI) (assumption, simp)
  qed (simp add: posts_more_refl)
qed

lemma deliveries_signed:
  "posts_more (\<lambda>p. \<exists>h \<in> set hs. rightly_signed env h p) (db w)
     (db (snd (eff_for hs (\<lambda>h. best_effort (deliver_webhook env h body)) w)))"
proof (induction hs arbitrary: w)
  case (Cons h hs)
  let ?m = "best_effort (deliver_webhook env h body)"
  have "posts_more (\<lambda>p. \<exists>h' \<in> set (h # hs). rightly_signed env h' p) (db w) (db (snd (?m w)))"
    by (rule posts_more_mono[OF deliver_signed]) simp
  moreover have "posts_more (\<lambda>p. \<exists>h' \<in> set (h # hs). rightly_signed env h' p) (db w')
      (db (snd (eff_for hs (\<lambda>h. best_effort (deliver_webhook env h body)) w')))" for w'
    by (rule posts_more_mono[OF Cons]) auto
  ultimately show ?case
    by (cases "?m w") (auto simp: eff_seq_def eff_bind_def split: sum.splits intro: posts_more_trans)
qed (simp add: ret_def posts_more_refl)

lemma deliveries_as_reference:
  assumes "json_ok obj" "js_get obj ''event'' = Str (event_name ev)"
  shows "eff_for hs (\<lambda>h. best_effort (deliver_webhook env h (js_stringify (tl_fmt (fe_lib env)) obj))) w =
     (Inr (), w\<lparr>db := (db w)\<lparr>fl_posts := fl_posts (db w) @ List.map_filter (hook_delivery env ev obj) hs\<rparr>\<rparr>)"
proof (induction hs arbitrary: w)
  case (Cons h hs)
  then show ?case
    by (simp add: best_effort_def eff_catch_def eff_seq_def eff_bind_def deliver_as_reference[OF assms] List.map_filter_simps
        split: option.splits)
qed (simp add: ret_def List.map_filter_simps)

text \<open>Where nothing fails, each subscriber is sent exactly what the reference says.\<close>

lemma dispatch_as_reference:
  assumes "faults w = []" "fe_uuid env i = Some u"
    and "list_all (\<lambda>kv. json_ok (snd kv)) payload" "''event'' \<notin> fst ` set payload"
  shows "dispatch_webhooks env slug i ev payload w =
     (Inr (), w\<lparr>db := (db w)\<lparr>fl_posts := fl_posts (db w) @
        List.map_filter (hook_delivery env ev (event_object env slug i ev payload)) (listening u ev (db w))\<rparr>\<rparr>)"
proof -
  note ref = deliveries_as_reference[OF event_object_ok[OF assms(3)] event_object_event[OF assms(4)]]
  show ?thesis using assms(1,2)
    by (simp add: dispatch_webhooks_def best_effort_def[of "eff_bind _ _"] eff_catch_def eff_bind_def fleet_query_def
        db_query_def ref)
qed

section \<open>The way of a secret\<close>

lemma or_500_created:
  assumes "or_500 msg m w = (Inr (HookCreated c), w')" shows "m w = (Inr (HookCreated c), w')"
  using assms by (auto simp: or_500_def eff_catch_def ret_def split: prod.splits sum.splits)

lemma seal_secret_run:
  assumes "seal_secret env (Str s) w = (Inr x, w')" "s \<noteq> []" "cipher_laws (fe_cipher env)"
  shows "\<exists>c n hex. x = Some (c, n) \<and> configured_key (fe_enc_key env) = Inr hex
     \<and> decrypt_provider_key (fe_cipher env) c n hex = Inr s \<and> faults w' = faults w \<and> fl_webhooks (db w') = fl_webhooks (db w)"
proof -
  obtain hex where hex: "configured_key (fe_enc_key env) = Inr hex"
    using assms(1,2) by (auto simp: seal_secret_def throw_def split: sum.splits)
  obtain y where y: "encrypt_provider_key (fe_cipher env) s hex (fl_count (db w)) = Inr y"
    using assms(1,2) hex by (auto simp: seal_secret_def throw_def eff_bind_def peek_def split: sum.splits)
  obtain c n where cn: "y = (c, n)" by (cases y)
  have "usable_key hex" using y by (rule contrapos_pp) (simp add: encrypt_provider_key_def key_buffer_unusable)
  then have "decrypt_provider_key (fe_cipher env) c n hex = Inr s" using decrypt_encrypted[OF assms(3)] y cn by blast
  then show ?thesis using assms(1,2) hex y cn
    by (auto simp: seal_secret_def eff_bind_def eff_seq_def peek_def local_step_def ret_def)
qed

lemma insert_webhook_run:
  assumes "insert_webhook env i url events secret by_whom w = (Inr h, w')" "faults w = []"
  shows "\<exists>u. fe_uuid env i = Some u \<and> wh_agent h = u \<and> wh_active h \<and> wh_events h = events \<and> wh_url h = url
     \<and> wh_encrypted h = map_option fst secret \<and> wh_nonce h = map_option snd secret
     \<and> h \<in> set (fl_webhooks (db w')) \<and> faults w' = []"
  using assms by (auto simp: insert_webhook_def db_query_def Let_def split: option.splits if_splits)

text \<open>A registration that succeeds leaves an active hook from which the secret can be read back.\<close>

lemma created_hook:
  assumes "create_webhook env user i body w = (Inr (HookCreated c), w')" "faults w = []"
    and "js_get body ''secret'' = Str s" "s \<noteq> []" "cipher_laws (fe_cipher env)"
  shows "\<exists>u h. fe_uuid env i = Some u \<and> h \<in> set (fl_webhooks (db w')) \<and> wh_agent h = u \<and> wh_active h
     \<and> c = hook_card h \<and> decrypt_webhook_secret env h = Inr (Some s) \<and> faults w' = []"
proof -
  from or_500_created[OF assms(1)[unfolded create_webhook_def]] assms(2,3)
  obtain a w1 x w2 h where steps: "select_agent env i w = (Inr a, w1)" "seal_secret env (Str s) w1 = (Inr x, w2)"
      "insert_webhook env i (the_str (js_get body ''url'')) 
         (map the_str (if is_arr (js_get body ''events'') then the_arr (js_get body ''events'') else map Str valid_webhook_events))
         x (caller_sub env user) w2 = (Inr h, w')" "c = hook_card h"
    by (auto simp: Let_def eff_bind_def ret_def throw_def split: if_splits option.splits sum.splits prod.splits)
  have f1: "faults w1 = []" using steps(1) assms(2)
    by (auto simp: select_agent_def fleet_query_def db_query_def Let_def split: option.splits)
  from seal_secret_run[OF steps(2) assms(4,5)] f1 obtain ct n hex
    where x: "x = Some (ct, n)" "configured_key (fe_enc_key env) = Inr hex"
      "decrypt_provider_key (fe_cipher env) ct n hex = Inr s" and f2: "faults w2 = []" by auto
  from insert_webhook_run[OF steps(3) f2] x show ?thesis
    by (auto simp: decrypt_webhook_secret_def steps(4))
qed

lemma map_filter_member: "x \<in> set xs \<Longrightarrow> f x = Some y \<Longrightarrow> y \<in> set (List.map_filter f xs)"
  by (force simp: List.map_filter_def)

section \<open>The properties\<close>

text \<open>
  C21: A delivery is signed with the secret of its subscriber, or not made. Whatever queries fail and whatever
  the event carries, an event changes nothing but the deliveries, each of which goes to the address of an active
  subscriber of that agent and event whose secret, if it has one, could be decrypted, and carries the HMAC of
  the very body sent under that secret, but for Discord addresses and empty secrets, which are never signed.
\<close>

theorem deliveries_never_unsigned:
  "\<exists>new. db (snd (dispatch_webhooks env slug i ev payload w)) = (db w)\<lparr>fl_posts := fl_posts (db w) @ new\<rparr>
     \<and> (new \<noteq> [] \<longrightarrow> (\<exists>u. fe_uuid env i = Some u
        \<and> list_all (\<lambda>p. \<exists>h \<in> set (listening u ev (db w)). rightly_signed env h p) new))"
proof -
  obtain r w1 where q: "fleet_query env i (\<lambda>u d. (listening u ev d, d)) w = (r, w1)" by (cases "fleet_query env i (\<lambda>u d. (listening u ev d, d)) w")
  have w1: "db w1 = db w" and r: "r = Inr hs \<Longrightarrow> \<exists>u. fe_uuid env i = Some u \<and> hs = listening u ev (db w)" for hs
    using q by (auto simp: fleet_query_def db_query_def Let_def split: option.splits list.splits bool.splits)
  show ?thesis
  proof (cases r)
    case (Inl e)
    then show ?thesis using q w1
      by (intro exI[of _ "[]"]) (simp add: dispatch_webhooks_def best_effort_def[of "eff_bind _ _"] eff_catch_def eff_bind_def ret_def)
  next
    case (Inr hs)
    let ?m = "eff_for hs (\<lambda>h. best_effort
        (deliver_webhook env h (js_stringify (tl_fmt (fe_lib env)) (event_object env slug i ev payload))))"
    have "db (snd (dispatch_webhooks env slug i ev payload w)) = db (snd (?m w1))"
      using q Inr by (auto simp: dispatch_webhooks_def best_effort_def[of "eff_bind _ _"] eff_catch_def eff_bind_def ret_def
          split: prod.splits sum.splits)
    moreover from deliveries_signed[of hs env w1] obtain new
      where "db (snd (?m w1)) = (db w)\<lparr>fl_posts := fl_posts (db w) @ new\<rparr>"
        "list_all (\<lambda>p. \<exists>h \<in> set hs. rightly_signed env h p) new" unfolding posts_more_def w1 by blast
    ultimately show ?thesis using r[OF Inr] by (intro exI[of _ new]) auto
  qed
qed


text \<open>
  The address decides by text alone: any address with the words of Discord's in it, a query included, is
  sent its events unsigned, whatever secret it was registered with.
\<close>

lemma discord_never_signed:
  "is_discord_webhook (wh_url h) \<Longrightarrow> hook_delivery env ev obj h = Some p \<Longrightarrow> hp_signature p = None"
  by (auto simp: hook_delivery_def signed_with_def Let_def split: sum.splits)

lemma discord_by_text: "is_discord_webhook ''https://h.example/?discord.com/api/webhooks/''"
  by code_simp

section \<open>Witnesses\<close>

definition demo_hook_env :: fleet_env where
  "demo_hook_env = demo_fleet_env\<lparr>fe_parse := (\<lambda>_. Some \<lparr>up_protocol = ''https:'', up_host = ''h''\<rparr>)\<rparr>"

definition demo_hook_body :: js where
  "demo_hook_body = Obj [(''url'', Str ''https://h''), (''secret'', Str ''s3'')]"

definition demo_hook_row :: webhook_row where
  "demo_hook_row = \<lparr>wh_id = ''n1'', wh_agent = ''a1'', wh_url = ''https://h'', wh_events = valid_webhook_events,
     wh_encrypted = Some (''s3'' @ take 16 (from_hex demo_hex)), wh_nonce = Some ''nonce0'', wh_active = True,
     wh_created_by = caller_sub demo_hook_env demo_plain\<rparr>"

lemma demo_hook_created:
  "create_webhook demo_hook_env demo_plain ''a1'' demo_hook_body demo_fleet_world =
     (Inr (HookCreated (hook_card demo_hook_row)), demo_fleet_world\<lparr>db := demo_fleet\<lparr>fl_webhooks := [demo_hook_row], fl_count := 2\<rparr>\<rparr>)"
proof -
  have w: "demo_fleet_world = \<lparr>faults = [], db = demo_fleet\<rparr>" by (simp add: demo_fleet_world_def)
  have u: "fe_uuid demo_hook_env ''a1'' = Some ''a1''" "find_fleet ''a1'' demo_fleet = Some demo_box"
    by (simp_all add: demo_hook_env_def demo_fleet_env_def demo_fleet_def demo_box_def find_fleet_def)
  have k: "configured_key (fe_enc_key demo_hook_env) = Inr demo_hex"
    by (simp add: demo_hook_env_def demo_fleet_env_def configured_key_def demo_hex_def)
  have e: "encrypt_provider_key (fe_cipher demo_hook_env) ''s3'' demo_hex 0 = Inr (''s3'' @ take 16 (from_hex demo_hex), ''nonce0'')"
    unfolding encrypt_usable[OF demo_hex_usable]
    by (simp add: demo_hook_env_def demo_fleet_env_def demo_cipher_def) code_simp
  have p: "fe_parse demo_hook_env s \<noteq> None" "fe_new_id demo_hook_env 1 = ''n1''" for s
    by (simp_all add: demo_hook_env_def demo_fleet_env_def) code_simp
  have v: "bad_event (map Str valid_webhook_events) = None" "map the_str (map Str valid_webhook_events) = valid_webhook_events"
      "text_ok ''https://h''" "varchar_ok 255 (caller_sub demo_hook_env demo_plain)"
    by code_simp+
  have c: "fl_count demo_fleet = 0" "fl_webhooks demo_fleet = []" by (simp_all add: demo_fleet_def)
  show ?thesis unfolding w create_webhook_def
    using u k e p v c
    by (simp add: or_500_def eff_catch_def demo_hook_body_def Let_def eff_bind_def eff_seq_def ret_def select_agent_def
        fleet_query_def db_query_def seal_secret_def peek_def local_step_def insert_webhook_def demo_hook_row_def is_arr_def find_fleet_def)
qed

definition demo_hooked :: "fleet_db world" where
  "demo_hooked = demo_fleet_world\<lparr>db := demo_fleet\<lparr>fl_webhooks := [demo_hook_row], fl_count := 2\<rparr>\<rparr>"

lemma demo_hook_setting:
  "faults demo_fleet_world = []" "js_get demo_hook_body ''secret'' = Str ''s3''" "cipher_laws (fe_cipher demo_hook_env)"
  by (simp_all add: demo_fleet_world_def demo_hook_body_def demo_hook_env_def demo_fleet_env_def demo_cipher_laws)

lemma demo_posted: "fl_posts (db demo_hooked) = [] \<and> fl_posts (db (snd (dispatch_webhooks demo_hook_env ''box'' ''a1'' HookStart [] demo_hooked))) \<noteq> []"
proof -
  have u: "fe_uuid demo_hook_env ''a1'' = Some ''a1''" by (simp add: demo_hook_env_def demo_fleet_env_def)
  have "decrypt_webhook_secret demo_hook_env demo_hook_row = Inr (Some ''s3'')"
    using created_hook[OF demo_hook_created demo_hook_setting(1,2) _ demo_hook_setting(3)] by auto
  moreover have "listening ''a1'' HookStart (db demo_hooked) = [demo_hook_row]"
    by (simp add: listening_def demo_hooked_def demo_hook_row_def valid_webhook_events_def)
  moreover have "faults demo_hooked = []" "fl_posts (db demo_hooked) = []"
    by (simp_all add: demo_hooked_def demo_fleet_world_def demo_fleet_def)
  ultimately show ?thesis using dispatch_as_reference[of demo_hooked demo_hook_env "''a1''" "''a1''" "[]" "''box''" HookStart] u
    by (simp add: List.map_filter_simps hook_delivery_def Let_def)
qed

theorem deliveries_never_unsigned_witness:
  "\<exists>p h. p \<in> set (fl_posts (db (snd (dispatch_webhooks demo_hook_env ''box'' ''a1'' HookStart [] demo_hooked))))
     \<and> h \<in> set (fl_webhooks (db demo_hooked)) \<and> rightly_signed demo_hook_env h p"
proof -
  obtain new u where new: "db (snd (dispatch_webhooks demo_hook_env ''box'' ''a1'' HookStart [] demo_hooked)) =
        (db demo_hooked)\<lparr>fl_posts := fl_posts (db demo_hooked) @ new\<rparr>" "new \<noteq> []"
      "list_all (\<lambda>p. \<exists>h \<in> set (listening u HookStart (db demo_hooked)). rightly_signed demo_hook_env h p) new"
    using deliveries_never_unsigned[of demo_hook_env "''box''" "''a1''" HookStart "[]" demo_hooked] demo_posted by auto
  then obtain h where "h \<in> set (listening u HookStart (db demo_hooked))" "rightly_signed demo_hook_env h (hd new)"
    by (cases new) auto
  then show ?thesis using new(1,2) by (intro exI[of _ "hd new"] exI[of _ h]) (simp add: listening_def)
qed


end
