(* ===== verification/Canary.thy ===== *)
theory Canary
  imports FleetDemo
begin

text \<open>
  What the boot check of the encryption key (\<open>services/provider-key-canary.ts\<close>, theory Secrets) tells
  of the stored secrets, and what it does not.
\<close>

lemma read_result: "db_read f w = (Inr y, w') \<Longrightarrow> y = f (db w) \<and> db w' = db w"
  by (auto simp: db_read_def db_query_def Let_def split: list.splits bool.splits)

lemma find_from_result:
  assumes "find_from cs w = (Inr r, w')"
  shows "db w' = db w \<and>
    (case r of
       None \<Rightarrow> list_all (\<lambda>c. first_sealed (snd c (db w)) = None) cs
     | Some (src, s) \<Rightarrow> (\<exists>before tab after. cs = before @ (src, tab) # after
          \<and> list_all (\<lambda>c. first_sealed (snd c (db w)) = None) before \<and> first_sealed (tab (db w)) = Some s))"
  using assms
proof (induction cs arbitrary: w)
  case Nil
  then show ?case by (auto simp: ret_def)
next
  case (Cons c cs)
  obtain src tab where c: "c = (src, tab)" by (cases c)
  obtain y w1 where r1: "db_read (\<lambda>v. first_sealed (tab v)) w = (Inr y, w1)"
      and run': "(case y of Some s \<Rightarrow> ret (Some (src, s)) | None \<Rightarrow> find_from cs) w1 = (Inr r, w')"
    using Cons.prems unfolding c by (auto simp: eff_bind_def split: prod.splits sum.splits)
  have w1: "db w1 = db w" and run: "(case first_sealed (tab (db w)) of Some s \<Rightarrow> ret (Some (src, s)) | None \<Rightarrow> find_from cs) w1 = (Inr r, w')"
    using read_result[OF r1] run' by auto
  show ?case
  proof (cases "first_sealed (tab (db w))")
    case (Some s)
    have "c # cs = [] @ (src, tab) # cs" by (simp add: c)
    moreover have "r = Some (src, s)" "db w' = db w" using Some run w1 by (auto simp: ret_def)
    ultimately show ?thesis using Some by (simp only: option.case prod.case) (force intro: exI[of _ "[]"])
  next
    case None
    then have "find_from cs w1 = (Inr r, w')" using run by simp
    note ih = Cons.IH[OF this, unfolded w1]
    show ?thesis
    proof (cases r)
      case None
      then show ?thesis using ih \<open>first_sealed (tab (db w)) = None\<close> by (simp add: c)
    next
      case (Some y)
      obtain src' s where y: "y = (src', s)" by (cases y)
      obtain before tab' after where "cs = before @ (src', tab') # after"
          "list_all (\<lambda>c. first_sealed (snd c (db w)) = None) (c # before)" "first_sealed (tab' (db w)) = Some s"
        using ih None by (auto simp: Some y c)
      moreover from this(1) have "c # cs = (c # before) @ (src', tab') # after" by simp
      ultimately show ?thesis using ih unfolding Some y by (simp only: option.case prod.case) blast
    qed
  qed
qed

text \<open>
  A verdict about the row that was read: the first whole row of the first table that has one opens under the
  configured key; nothing to verify means that no table has a whole row.
\<close>

theorem canary_verdict:
  assumes "run_provider_key_canary lib key w = (Inr r, w')"
  shows "case r of
      NothingToVerify \<Rightarrow> list_all (\<lambda>c. first_sealed (snd c (db w)) = None) candidates
    | Verified src \<Rightarrow> (\<exists>before tab after c n hex p. candidates = before @ (src, tab) # after
        \<and> list_all (\<lambda>c. first_sealed (snd c (db w)) = None) before \<and> first_sealed (tab (db w)) = Some (c, n)
        \<and> configured_key key = Inr hex \<and> decrypt_provider_key lib c n hex = Inr p)"
proof -
  obtain x w1 where x: "find_from candidates w = (Inr x, w1)"
    using assms by (auto simp: run_provider_key_canary_def find_existing_ciphertext_def eff_bind_def split: prod.splits sum.splits)
  have found: "case x of None \<Rightarrow> list_all (\<lambda>c. first_sealed (snd c (db w)) = None) candidates
     | Some (src, s) \<Rightarrow> (\<exists>before tab after. candidates = before @ (src, tab) # after
          \<and> list_all (\<lambda>c. first_sealed (snd c (db w)) = None) before \<and> first_sealed (tab (db w)) = Some s)"
    using find_from_result[OF x] by simp
  show ?thesis
  proof (cases x)
    case None
    then show ?thesis using assms x found
      by (auto simp: run_provider_key_canary_def find_existing_ciphertext_def eff_bind_def ret_def)
  next
    case (Some y)
    obtain src c n where y: "y = (src, c, n)" by (cases y) auto
    obtain hex p where "configured_key key = Inr hex" "decrypt_provider_key lib c n hex = Inr p" "r = Verified src"
      using assms x unfolding Some y
      by (auto simp: run_provider_key_canary_def find_existing_ciphertext_def eff_bind_def ret_def throw_def split: sum.splits)
    moreover obtain before tab after where "candidates = before @ (src, tab) # after"
        "list_all (\<lambda>c. first_sealed (snd c (db w)) = None) before" "first_sealed (tab (db w)) = Some (c, n)"
      using found unfolding Some y by auto
    ultimately show ?thesis by (simp only: canary_result.case) blast
  qed
qed

text \<open>Other rows are not looked at: one that no longer opens goes unnoticed.\<close>

definition stale_vault :: vault where
  "stale_vault = \<lparr>va_connections = [(Some (''key'' @ take 16 (from_hex demo_hex)), Some ''n'')], va_mcp = [],
     va_env = [(Some (''vars'' @ replicate 16 CHR ''x''), Some ''n'')], va_hooks = []\<rparr>"

lemma stale_rows_pass:
  "fst (run_provider_key_canary demo_cipher (Some demo_hex) \<lparr>faults = [], db = stale_vault\<rparr>) = Inr (Verified ''provider_connections'')
   \<and> decrypt_provider_key demo_cipher (''vars'' @ replicate 16 CHR ''x'') ''n'' demo_hex = Inl KeyMismatch"
proof -
  have k: "configured_key (Some demo_hex) = Inr demo_hex" by (simp add: configured_key_def demo_hex_def)
  have b: "get_key_buffer demo_hex = Inr (from_hex demo_hex)" by (rule key_buffer_usable[OF demo_hex_usable])
  have l: "length (from_hex demo_hex) = 32" using demo_hex_usable by (simp add: usable_key_def)
  have h: "hd (from_hex demo_hex) \<noteq> CHR ''x''" by code_simp
  have "replicate 16 CHR ''x'' \<noteq> take 16 (from_hex demo_hex)"
    using h l by (cases "from_hex demo_hex") (auto simp: numeral_eq_Suc)
  then show ?thesis using k b l
    by (simp add: run_provider_key_canary_def find_existing_ciphertext_def candidates_def eff_bind_def db_read_def db_query_def
        stale_vault_def first_sealed_def List.map_filter_simps ret_def decrypt_provider_key_def tag_length_def demo_cipher_def Let_def)
qed

end
