(* ===== verification/SkillAdmin.thy ===== *)
theory SkillAdmin
  imports AgentCrud
begin

text \<open>
  Reading, creating, changing and deleting skills (\<open>routes/skills.ts\<close>). A body's \<open>tools_config\<close> is a
  configuration of the type the source declares for it, or not given; bodies with JSON of another
  shape there are not modelled. Writing is for administrators, which is the gate of theory Access.
\<close>

section \<open>Requests and answers\<close>

record skill_body =
  sq_name :: js
  sq_description :: js
  sq_instructions :: js
  sq_scope :: js
  sq_tools :: js
  sq_config :: "tools_config option"

datatype skill_resp =
    SkillRefused nat string
  | SkillAnswer nat skill_row "tool_row list"
  | SkillList "(skill_row \<times> tool_row list) list"
  | SkillDeleted

definition valid_scopes :: "string list" where
  "valid_scopes = [''container_local'', ''host_docker'', ''vps_system'']"

definition default_tools_config_for_scope :: tools_config where
  "default_tools_config_for_scope =
     \<lparr>tc_shell = \<lparr>sc_enabled = True, sc_allowed = [], sc_denied = [], sc_timeout = Fin 300\<rparr>,
      tc_fs = \<lparr>fs_enabled = True, fs_read_only = False,
        fs_allowed = [''/workspace'', ''/data'', ''/home/agentuser''], fs_denied = []\<rparr>,
      tc_health = True\<rparr>"

text \<open>\<open>err.validationError\<close> is told by its message, which no other exception here has.\<close>

definition not_found_text :: string where
  "not_found_text = ''Tool(s) not found: ''"

definition skill_catch :: "string \<Rightarrow> (fleet_db, skill_resp) eff \<Rightarrow> (fleet_db, skill_resp) eff" where
  "skill_catch failed m = eff_catch m (\<lambda>e.
     case e of
       Thrown msg \<Rightarrow> if startsWith msg not_found_text then ret (SkillRefused 400 msg) else ret (SkillRefused 500 failed)
     | UniqueViolation _ \<Rightarrow> ret (SkillRefused 409 ''A skill with this name already exists'')
     | DbFault \<Rightarrow> ret (SkillRefused 500 failed))"

definition or_failed :: "string \<Rightarrow> (fleet_db, skill_resp) eff \<Rightarrow> (fleet_db, skill_resp) eff" where
  "or_failed msg m = eff_catch m (\<lambda>_. ret (SkillRefused 500 msg))"

section \<open>Statements\<close>

text \<open>The tools of each of some skills, by name.\<close>

definition tools_of_skill :: "fleet_env \<Rightarrow> string \<Rightarrow> fleet_db \<Rightarrow> tool_row list" where
  "tools_of_skill env k d = sort_key (fe_rank env \<circ> tool_name)
     (filter (\<lambda>t. (k, tool_id t) \<in> set (fl_skill_tools d)) (fl_tools d))"

definition fetch_tools_for_skills :: "fleet_env \<Rightarrow> string list \<Rightarrow> (fleet_db, string \<Rightarrow> tool_row list) eff" where
  "fetch_tools_for_skills env ks =
     (if ks = [] then ret (\<lambda>_. []) else db_read (\<lambda>d k. if k \<in> set ks then tools_of_skill env k d else []))"

definition select_skill_by :: "fleet_env \<Rightarrow> string \<Rightarrow> (fleet_db, skill_row option) eff" where
  "select_skill_by env i = fleet_query env i (\<lambda>k d. (find_skill k d, d))"

definition text_column :: "string option \<Rightarrow> bool" where
  "text_column v = (case v of None \<Rightarrow> True | Some s \<Rightarrow> text_ok s)"

definition skill_fits :: "skill_row \<Rightarrow> bool" where
  "skill_fits s = (varchar_ok 128 (sk_name s) \<and> text_column (sk_description s) \<and> text_column (sk_instructions s))"

definition insert_skill :: "fleet_env \<Rightarrow> skill_row \<Rightarrow> (fleet_db, skill_row) eff" where
  "insert_skill env row = db_query (\<lambda>d.
     let s = row\<lparr>sk_id := fe_new_id env (fl_count d)\<rparr> in
     if \<not> skill_fits s then Inl DbFault
     else if sk_id s \<in> set (map sk_id (fl_skills d)) then Inl (UniqueViolation ''skills_pkey'')
     else if sk_name s \<in> set (map sk_name (fl_skills d)) then Inl (UniqueViolation ''skills_name_key'')
     else Inr (s, d\<lparr>fl_skills := fl_skills d @ [s], fl_count := Suc (fl_count d)\<rparr>))"

text \<open>The UPDATE: what is not given keeps its value; a violated constraint undoes it.\<close>

definition change_skill :: "string \<Rightarrow> (skill_row \<Rightarrow> skill_row) \<Rightarrow> fleet_db \<Rightarrow> fleet_db" where
  "change_skill k f d = d\<lparr>fl_skills := map (\<lambda>s. if sk_id s = k then f s else s) (fl_skills d)\<rparr>"

definition update_skill_row :: "fleet_env \<Rightarrow> string \<Rightarrow> (skill_row \<Rightarrow> skill_row) \<Rightarrow> (fleet_db, skill_row option) eff" where
  "update_skill_row env i f = db_query (\<lambda>d.
     case fe_uuid env i of
       None \<Rightarrow> Inl DbFault
     | Some k \<Rightarrow>
         (case find_skill k d of
            None \<Rightarrow> Inr (None, d)
          | Some s \<Rightarrow>
              if \<not> skill_fits (f s) then Inl DbFault
              else if sk_name (f s) \<in> set (map sk_name (filter (\<lambda>x. sk_id x \<noteq> k) (fl_skills d))) then Inl (UniqueViolation ''skills_name_key'')
              else Inr (Some (f s), change_skill k f d)))"

text \<open>\<open>setSkillTools\<close>: an empty list changes nothing.\<close>

definition tool_uuids :: "fleet_env \<Rightarrow> string list \<Rightarrow> string list option" where
  "tool_uuids env ids = those (map (fe_uuid env) ids)"

definition select_tools :: "fleet_env \<Rightarrow> string list \<Rightarrow> (fleet_db, string list) eff" where
  "select_tools env ids = db_query (\<lambda>d.
     case tool_uuids env ids of
       None \<Rightarrow> Inl DbFault
     | Some us \<Rightarrow> Inr (filter (\<lambda>t. t \<in> set us) (map tool_id (fl_tools d)), d))"

definition clear_tools :: "string \<Rightarrow> (fleet_db, unit) eff" where
  "clear_tools k = db_write (\<lambda>d. d\<lparr>fl_skill_tools := filter (\<lambda>p. fst p \<noteq> k) (fl_skill_tools d)\<rparr>)"

definition add_tool :: "fleet_env \<Rightarrow> string \<Rightarrow> string \<Rightarrow> (fleet_db, unit) eff" where
  "add_tool env k i = fleet_query env i (\<lambda>t d.
     ((), if (k, t) \<in> set (fl_skill_tools d) then d else d\<lparr>fl_skill_tools := fl_skill_tools d @ [(k, t)]\<rparr>))"

definition set_skill_tools :: "fleet_env \<Rightarrow> string \<Rightarrow> string list \<Rightarrow> (fleet_db, unit) eff" where
  "set_skill_tools env k ids =
     (if ids = [] then ret ()
      else eff_bind (select_tools env ids) (\<lambda>found.
        if length found \<noteq> length ids
        then throw (Thrown (not_found_text @ join_with '', '' (filter (\<lambda>i. i \<notin> set found) ids)))
        else eff_seq (clear_tools k) (eff_for ids (add_tool env k))))"

section \<open>Handlers\<close>

definition list_skills :: "fleet_env \<Rightarrow> (fleet_db, skill_resp) eff" where
  "list_skills env = or_failed ''Failed to list skills''
     (eff_bind (db_read (\<lambda>d. sort_key (\<lambda>s. (if sk_platform s then 0 else 1 :: nat)) (sort_key (fe_rank env \<circ> sk_name) (fl_skills d)))) (\<lambda>ss.
      eff_bind (fetch_tools_for_skills env (map sk_id ss)) (\<lambda>tools.
      ret (SkillList (map (\<lambda>s. (s, tools (sk_id s))) ss)))))"

definition get_skill :: "fleet_env \<Rightarrow> string \<Rightarrow> (fleet_db, skill_resp) eff" where
  "get_skill env i = or_failed ''Failed to get skill''
     (eff_bind (select_skill_by env i) (\<lambda>r.
      case r of
        None \<Rightarrow> ret (SkillRefused 404 ''Skill not found'')
      | Some s \<Rightarrow> eff_bind (fetch_tools_for_skills env [sk_id s]) (\<lambda>tools. ret (SkillAnswer 200 s (tools (sk_id s))))))"

definition scope_valid :: "js \<Rightarrow> bool" where
  "scope_valid v = (is_str v \<and> the_str v \<in> set valid_scopes)"

definition tool_ids_valid :: "js \<Rightarrow> bool" where
  "tool_ids_valid v = (is_arr v \<and> list_all is_str (the_arr v))"

text \<open>What create and update check alike; None when both pass.\<close>

definition body_error :: "skill_body \<Rightarrow> string option" where
  "body_error q =
     (if sq_scope q \<noteq> Undef \<and> \<not> scope_valid (sq_scope q)
      then Some (''Invalid scope. Must be one of: '' @ join_with '', '' valid_scopes)
      else if sq_tools q \<noteq> Undef \<and> \<not> tool_ids_valid (sq_tools q) then Some ''tool_ids must be an array of UUIDs''
      else None)"

definition asked_tools :: "skill_body \<Rightarrow> string list" where
  "asked_tools q = map the_str (the_arr (sq_tools q))"

definition new_skill :: "fleet_env \<Rightarrow> skill_body \<Rightarrow> skill_row" where
  "new_skill env q =
     \<lparr>sk_id = [], sk_name = text_or env (sq_name q) [],
      sk_scope = text_or env (sq_scope q) ''container_local'',
      sk_config = (case sq_config q of None \<Rightarrow> default_tools_config_for_scope | Some c \<Rightarrow> c),
      sk_instructions = Some (text_or env (sq_instructions q) []),
      sk_description = Some (text_or env (sq_description q) []), sk_platform = False\<rparr>"

definition answer_skill :: "fleet_env \<Rightarrow> nat \<Rightarrow> skill_row \<Rightarrow> (fleet_db, skill_resp) eff" where
  "answer_skill env st s = eff_bind (fetch_tools_for_skills env [sk_id s]) (\<lambda>tools. ret (SkillAnswer st s (tools (sk_id s))))"

definition store_skill :: "fleet_env \<Rightarrow> skill_body \<Rightarrow> (fleet_db, skill_row) eff" where
  "store_skill env q = transaction
     (eff_bind (insert_skill env (new_skill env q)) (\<lambda>s.
      eff_seq (set_skill_tools env (sk_id s) (asked_tools q)) (ret s)))"

definition create_skill :: "fleet_env \<Rightarrow> skill_body \<Rightarrow> (fleet_db, skill_resp) eff" where
  "create_skill env q = skill_catch ''Failed to create skill''
     (if \<not> truthy (sq_name q) then ret (SkillRefused 400 ''name is required'')
      else case body_error q of
        Some msg \<Rightarrow> ret (SkillRefused 400 msg)
      | None \<Rightarrow> eff_bind (store_skill env q) (answer_skill env 201))"

text \<open>The guard of a change of scope: None lets it pass.\<close>

definition running_with :: "string \<Rightarrow> fleet_db \<Rightarrow> fleet_agent list" where
  "running_with k d =
     filter (\<lambda>a. fa_status a = ''running'' \<and> \<lparr>as_agent = fa_id a, as_skill = k\<rparr> \<in> set (fl_assigned d)) (fl_agents d)"

definition scope_guard :: "fleet_env \<Rightarrow> string \<Rightarrow> string \<Rightarrow> string \<Rightarrow> (fleet_db, skill_resp option) eff" where
  "scope_guard env i old new =
     (if old \<noteq> new \<and> (is_elevated_scope old \<or> is_elevated_scope new)
      then
        eff_bind (fleet_query env i (\<lambda>k d. (running_with k d, d))) (\<lambda>rs.
        if rs \<noteq> [] then eff_seq (fleet_audit ''skill_scope_change_blocked'' i new)
          (ret (Some (SkillRefused 409 ''Cannot change scope while running agents are assigned. Stop the agent(s) first.'')))
        else if is_elevated_scope new then
          eff_bind (fleet_query env i (\<lambda>k d. (length (filter (\<lambda>x. as_skill x = k) (fl_assigned d)), d))) (\<lambda>n.
          if 0 < n then eff_seq (fleet_audit ''skill_scope_change_blocked'' i new)
            (ret (Some (SkillRefused 409 ''Cannot escalate scope while agents are assigned. Remove assignments first.'')))
          else ret None)
        else ret None)
      else ret None)"

text \<open>The row after the UPDATE: \<open>COALESCE\<close> of \<open>name || null\<close>, \<open>description ?? null\<close> and so on.\<close>

definition keep_column :: "fleet_env \<Rightarrow> js \<Rightarrow> string option \<Rightarrow> string option" where
  "keep_column env v old = or_else (sql_text env v) old"

definition skill_change :: "fleet_env \<Rightarrow> skill_body \<Rightarrow> skill_row \<Rightarrow> skill_row" where
  "skill_change env q s =
     s\<lparr>sk_name := text_or env (sq_name q) (sk_name s),
       sk_description := keep_column env (sq_description q) (sk_description s),
       sk_config := (case sq_config q of None \<Rightarrow> sk_config s | Some c \<Rightarrow> c),
       sk_instructions := keep_column env (sq_instructions q) (sk_instructions s),
       sk_scope := text_or env (sq_scope q) (sk_scope s)\<rparr>"

definition write_skill :: "fleet_env \<Rightarrow> string \<Rightarrow> skill_body \<Rightarrow> (fleet_db, skill_row) eff" where
  "write_skill env i q = transaction
     (eff_bind (update_skill_row env i (skill_change env q)) (\<lambda>r.
      case r of
        None \<Rightarrow> throw (Thrown ''Cannot read properties of undefined'')
      | Some s \<Rightarrow>
          eff_seq (if sq_tools q = Undef then ret () else set_skill_tools env (sk_id s) (asked_tools q)) (ret s)))"

definition edit_skill :: "fleet_env \<Rightarrow> string \<Rightarrow> skill_body \<Rightarrow> skill_row \<Rightarrow> (fleet_db, skill_resp) eff" where
  "edit_skill env i q s =
     (case body_error q of
        Some msg \<Rightarrow> ret (SkillRefused 400 msg)
      | None \<Rightarrow>
          let old = sk_scope s; new = text_or env (sq_scope q) old in
          eff_bind (scope_guard env i old new) (\<lambda>g.
          case g of
            Some refusal \<Rightarrow> ret refusal
          | None \<Rightarrow>
              eff_bind (write_skill env i q) (\<lambda>s'.
              eff_seq (if old \<noteq> new then fleet_audit ''skill_scope_change'' i new else ret ())
                (answer_skill env 200 s'))))"

definition update_skill :: "fleet_env \<Rightarrow> string \<Rightarrow> skill_body \<Rightarrow> (fleet_db, skill_resp) eff" where
  "update_skill env i q = skill_catch ''Failed to update skill''
     (eff_bind (select_skill_by env i) (\<lambda>r.
      case r of
        None \<Rightarrow> ret (SkillRefused 404 ''Skill not found'')
      | Some s \<Rightarrow> edit_skill env i q s))"

text \<open>\<open>agent_skills\<close> refers to skills with \<open>ON DELETE RESTRICT\<close>, \<open>skill_tools\<close> with \<open>CASCADE\<close>.\<close>

definition delete_skill :: "fleet_env \<Rightarrow> string \<Rightarrow> (fleet_db, skill_resp) eff" where
  "delete_skill env i = or_failed ''Failed to delete skill''
     (eff_bind (select_skill_by env i) (\<lambda>r.
      case r of
        None \<Rightarrow> ret (SkillRefused 404 ''Skill not found'')
      | Some s \<Rightarrow>
          if sk_platform s then ret (SkillRefused 403 ''Cannot delete a platform skill'')
          else eff_bind (fleet_query env i (\<lambda>k d.
              (filter (\<lambda>x. as_skill x = k \<and> find_fleet (as_agent x) d \<noteq> None) (fl_assigned d), d))) (\<lambda>xs.
            if xs \<noteq> [] then ret (SkillRefused 409 ''Cannot delete skill while agents are assigned to it'')
            else eff_bind (db_query (\<lambda>d.
                case fe_uuid env i of
                  None \<Rightarrow> Inl DbFault
                | Some k \<Rightarrow>
                    if k \<in> as_skill ` set (fl_assigned d) then Inl DbFault
                    else Inr ((), d\<lparr>fl_skills := filter (\<lambda>x. sk_id x \<noteq> k) (fl_skills d),
                        fl_skill_tools := filter (\<lambda>p. fst p \<noteq> k) (fl_skill_tools d)\<rparr>)))
              (\<lambda>_. ret SkillDeleted))))"

end
