(* ===== verification/SkillAdminProps.thy ===== *)
theory SkillAdminProps
  imports SkillAdmin AgentProps
begin

text \<open>
  What editing skills can do to the agents that have them: the contract of \<open>PUT /skills/:id\<close> on
  elevated scopes, and what a request leaves behind when it fails.
\<close>

section \<open>What an edit changes\<close>

text \<open>A state without what the skill routes write.\<close>

definition besides_skills :: "fleet_db \<Rightarrow> fleet_db" where
  "besides_skills d = d\<lparr>fl_skills := [], fl_skill_tools := [], fl_count := 0, fl_audit := []\<rparr>"

lemma besides_fields:
  assumes "besides_skills d' = besides_skills d"
  shows "fl_agents d' = fl_agents d" "fl_assigned d' = fl_assigned d" "fl_tools d' = fl_tools d"
  using arg_cong[OF assms, of fl_agents] arg_cong[OF assms, of fl_assigned] arg_cong[OF assms, of fl_tools]
  by (simp_all add: besides_skills_def)

definition skill_guarded :: "string \<Rightarrow> string \<Rightarrow> string \<Rightarrow> fleet_db \<Rightarrow> bool" where
  "skill_guarded k old new d \<longleftrightarrow>
     new = old \<or> \<not> is_elevated_scope old \<and> \<not> is_elevated_scope new
     \<or> running_with k d = [] \<and> (is_elevated_scope new \<longrightarrow> k \<notin> as_skill ` set (fl_assigned d))"

text \<open>A skill is added, changed under the guard, or one nobody has is removed.\<close>

definition skill_edit :: "fleet_db \<Rightarrow> fleet_db \<Rightarrow> bool" where
  "skill_edit d d' \<longleftrightarrow> besides_skills d' = besides_skills d
     \<and> (fl_skills d' = fl_skills d
      \<or> (\<exists>s. fl_skills d' = fl_skills d @ [s] \<and> sk_id s \<notin> set (map sk_id (fl_skills d)))
      \<or> (\<exists>k f s. find_skill k d = Some s \<and> fl_skills d' = map (\<lambda>x. if sk_id x = k then f x else x) (fl_skills d)
           \<and> sk_id (f s) = k \<and> skill_guarded k (sk_scope s) (sk_scope (f s)) d)
      \<or> (\<exists>k. k \<notin> as_skill ` set (fl_assigned d) \<and> fl_skills d' = filter (\<lambda>x. sk_id x \<noteq> k) (fl_skills d)))"

lemma skill_edit_refl: "skill_edit d d"
  by (simp add: skill_edit_def)

lemma skill_edit_more:
  "skill_edit d d' \<Longrightarrow> skill_edit d (d'\<lparr>fl_skill_tools := x\<rparr>)"
  "skill_edit d d' \<Longrightarrow> skill_edit d (d'\<lparr>fl_audit := y\<rparr>)"
  by (simp_all add: skill_edit_def besides_skills_def)

lemma keeps_skill_tools: "keeps (skill_edit d) (set_skill_tools env k ids)"
  unfolding set_skill_tools_def select_tools_def clear_tools_def add_tool_def
  by (intro inv_intros keeps_query keeps_write keeps_fleet_query)
    (auto simp: skill_edit_more split: option.splits)

lemma keeps_skill_audit: "keeps (skill_edit d) (fleet_audit a b c)"
  unfolding fleet_audit_def by (rule keeps_local) (rule skill_edit_more)

lemma keeps_answer: "keeps I (answer_skill env st s)"
  unfolding answer_skill_def fetch_tools_for_skills_def by (intro inv_intros)

lemma edit_by_insert: "holds ((=) d) (insert_skill env row) (\<lambda>_. skill_edit d) (\<lambda>_. True)"
  unfolding insert_skill_def
  by (rule holds_query) (auto simp: Let_def skill_edit_def besides_skills_def split: if_splits)

lemma edit_by_create: "holds ((=) d) (create_skill env q) (\<lambda>_. skill_edit d) (skill_edit d)"
proof -
  have "holds ((=) d) (store_skill env q) (\<lambda>_. skill_edit d) (skill_edit d)"
    unfolding store_skill_def
  proof (rule holds_transaction)
    show "holds ((=) d) (eff_bind (insert_skill env (new_skill env q)) (\<lambda>s. eff_seq (set_skill_tools env (sk_id s) (asked_tools q)) (ret s)))
        (\<lambda>_. skill_edit d) (\<lambda>_. True)"
      by (intro holds_bind[OF edit_by_insert] holds_seq[OF holds_conseq[OF keeps_skill_tools[unfolded keeps_def]]] holds_ret) simp_all
  qed (simp add: skill_edit_refl)
  then have "holds ((=) d) (eff_bind (store_skill env q) (answer_skill env 201)) (\<lambda>_. skill_edit d) (skill_edit d)"
    by (rule holds_bind) (rule keeps_answer[unfolded keeps_def])
  then show ?thesis unfolding create_skill_def skill_catch_def
    by (intro holds_catch[where R = "skill_edit d"])
      (auto intro!: holds_ret skill_edit_refl split: exn.splits option.splits)
qed

text \<open>A statement that only reads, and the guard, which is made of such.\<close>

lemma fleet_read_result:
  assumes "fleet_query env i (\<lambda>u d. (f u d, d)) w = (r, w')"
  shows "db w' = db w \<and> (\<forall>x. r = Inr x \<longrightarrow> (\<exists>u. fe_uuid env i = Some u \<and> x = f u (db w)))"
  using assms by (auto simp: fleet_query_def db_query_def Let_def split: list.splits bool.splits option.splits)

lemma guard_result:
  assumes "scope_guard env i old new w = (r, w')"
  shows "(\<exists>a. db w' = (db w)\<lparr>fl_audit := a\<rparr>)
     \<and> (r = Inr None \<longrightarrow> db w' = db w \<and> (\<forall>k. fe_uuid env i = Some k \<longrightarrow> skill_guarded k old new (db w)))"
proof (cases "old \<noteq> new \<and> (is_elevated_scope old \<or> is_elevated_scope new)")
  case False
  then show ?thesis using assms by (auto simp: scope_guard_def ret_def skill_guarded_def intro: exI[of _ "fl_audit (db w)"])
next
  case True
  obtain r1 w1 where 1: "fleet_query env i (\<lambda>k d. (running_with k d, d)) w = (r1, w1)" by fastforce
  obtain r2 w2 where 2: "fleet_query env i (\<lambda>k d. (length (filter (\<lambda>x. as_skill x = k) (fl_assigned d)), d)) w1 = (r2, w2)" by fastforce
  note reads = fleet_read_result[OF 1] fleet_read_result[OF 2]
  have same: "db w1 = db w" "db w2 = db w" using reads by auto
  show ?thesis
  proof (cases r1)
    case (Inl e)
    then show ?thesis using assms True 1 same by (auto simp: scope_guard_def eff_bind_def intro: exI[of _ "fl_audit (db w)"])
  next
    case (Inr rs)
    then obtain u where u: "fe_uuid env i = Some u" "rs = running_with u (db w)" using reads(1) by auto
    show ?thesis
    proof (cases "rs = [] \<and> is_elevated_scope new")
      case False
      then show ?thesis using assms True 1 same Inr u
        by (auto simp: scope_guard_def eff_bind_def eff_seq_def fleet_audit_def local_step_def ret_def skill_guarded_def
            intro: exI[of _ "fl_audit (db w)"] split: if_splits)
    next
      case el: True
      show ?thesis
      proof (cases r2)
        case (Inl e)
        then show ?thesis using assms True 1 2 same Inr el
          by (auto simp: scope_guard_def eff_bind_def intro: exI[of _ "fl_audit (db w)"])
      next
        case (Inr n)
        then have "n = length (filter (\<lambda>x. as_skill x = u) (fl_assigned (db w)))" using reads(2) u same by auto
        then show ?thesis using assms True 1 2 same \<open>r1 = Inr rs\<close> Inr el u
          by (auto simp: scope_guard_def eff_bind_def eff_seq_def fleet_audit_def local_step_def ret_def skill_guarded_def
              filter_empty_conv intro: exI[of _ "fl_audit (db w)"] split: if_splits)
      qed
    qed
  qed
qed

lemma edit_by_write:
  "holds (\<lambda>d'. d' = d \<and> (\<forall>k s. fe_uuid env i = Some k \<and> find_skill k d = Some s \<longrightarrow>
       skill_guarded k (sk_scope s) (text_or env (sq_scope q) (sk_scope s)) d))
     (write_skill env i q) (\<lambda>_. skill_edit d) (skill_edit d)"
  unfolding write_skill_def
proof (rule holds_transaction)
  let ?P = "\<lambda>d'. d' = d \<and> (\<forall>k s. fe_uuid env i = Some k \<and> find_skill k d = Some s \<longrightarrow>
       skill_guarded k (sk_scope s) (text_or env (sq_scope q) (sk_scope s)) d)"
  have row: "holds ?P (update_skill_row env i (skill_change env q)) (\<lambda>_. skill_edit d) (\<lambda>_. True)"
    unfolding update_skill_row_def
  proof (rule holds_query)
    fix d1 x d'
    assume P: "?P d1" and e: "(case fe_uuid env i of None \<Rightarrow> Inl DbFault
       | Some k \<Rightarrow> (case find_skill k d1 of None \<Rightarrow> Inr (None, d1)
          | Some s \<Rightarrow> if \<not> skill_fits (skill_change env q s) then Inl DbFault
              else if sk_name (skill_change env q s) \<in> set (map sk_name (filter (\<lambda>x. sk_id x \<noteq> k) (fl_skills d1)))
              then Inl (UniqueViolation ''skills_name_key'')
              else Inr (Some (skill_change env q s), change_skill k (skill_change env q) d1))) = Inr (x, d')"
    have d1: "d1 = d" using P by simp
    obtain k where k: "fe_uuid env i = Some k" using e by (cases "fe_uuid env i") simp_all
    have "d' = d \<or> (\<exists>s. find_skill k d = Some s \<and> d' = change_skill k (skill_change env q) d)"
      using e[unfolded d1 k option.case] by (cases "find_skill k d") (simp_all split: if_splits)
    then consider "d' = d"
      | k s where "fe_uuid env i = Some k" "find_skill k d = Some s" "d' = change_skill k (skill_change env q) d"
      using k by blast
    then show "skill_edit d d'"
    proof cases
      case 2
      have "sk_id s = k" using 2(2) by (auto simp: find_skill_def find_Some_iff)
      then have "sk_id (skill_change env q s) = k" by (simp add: skill_change_def)
      moreover have "skill_guarded k (sk_scope s) (sk_scope (skill_change env q s)) d" using P 2(1,2) by (simp add: skill_change_def)
      ultimately show ?thesis using 2(2) unfolding skill_edit_def 2(3)
        by (intro conjI disjI2 disjI1) (auto simp: besides_skills_def change_skill_def)
    qed (simp add: skill_edit_refl)
  qed simp
  have tools: "holds (skill_edit d) (eff_seq (if sq_tools q = Undef then ret () else set_skill_tools env k ids) (ret s))
      (\<lambda>_. skill_edit d) (\<lambda>_. True)" for k ids s
    by (intro holds_seq[where R = "\<lambda>_. skill_edit d"] holds_if holds_ret holds_conseq[OF keeps_skill_tools[unfolded keeps_def]]) simp_all
  show "holds ?P (eff_bind (update_skill_row env i (skill_change env q)) (\<lambda>r.
      case r of None \<Rightarrow> throw (Thrown ''Cannot read properties of undefined'')
      | Some s \<Rightarrow> eff_seq (if sq_tools q = Undef then ret () else set_skill_tools env (sk_id s) (asked_tools q)) (ret s)))
      (\<lambda>_. skill_edit d) (\<lambda>_. True)"
    by (rule holds_bind[OF row], rule holds_option, rule holds_throw, simp, rule tools)
qed (auto simp: skill_edit_refl)

lemma select_result:
  "select_skill_by env i w = (r, w') \<Longrightarrow> db w' = db w \<and> (\<forall>x. r = Inr x \<longrightarrow> (\<exists>k. fe_uuid env i = Some k \<and> x = find_skill k (db w)))"
  unfolding select_skill_by_def by (rule fleet_read_result)

lemma guard_holds:
  "holds ((=) d) (scope_guard env i old new)
     (\<lambda>g d'. case g of None \<Rightarrow> d' = d \<and> (\<forall>k. fe_uuid env i = Some k \<longrightarrow> skill_guarded k old new d) | Some _ \<Rightarrow> skill_edit d d')
     (skill_edit d)"
proof (rule holdsI)
  fix w g w' assume w: "d = db w" "scope_guard env i old new w = (Inr g, w')"
  show "case g of None \<Rightarrow> db w' = d \<and> (\<forall>k. fe_uuid env i = Some k \<longrightarrow> skill_guarded k old new d) | Some _ \<Rightarrow> skill_edit d (db w')"
    using guard_result[OF w(2)] skill_edit_more(2)[OF skill_edit_refl] by (auto simp: w(1) skill_edit_refl split: option.splits)
next
  fix w e w' assume w: "d = db w" "scope_guard env i old new w = (Inl e, w')"
  show "skill_edit d (db w')" using guard_result[OF w(2)] skill_edit_more(2)[OF skill_edit_refl] by (auto simp: w(1))
qed

lemma edit_by_edit:
  assumes "fe_uuid env i = Some k" "find_skill k d = Some s"
  shows "holds ((=) d) (edit_skill env i q s) (\<lambda>_. skill_edit d) (skill_edit d)"
proof (cases "body_error q")
  case None
  let ?new = "text_or env (sq_scope q) (sk_scope s)"
  have finish: "holds (skill_edit d) (eff_seq (if b then fleet_audit x i y else ret ()) (answer_skill env 200 s')) (\<lambda>_. skill_edit d) (skill_edit d)" for b x y s'
    by (intro holds_seq[where R = "\<lambda>_. skill_edit d"] holds_if keeps_skill_audit[unfolded keeps_def] keeps_answer[unfolded keeps_def] holds_ret)
  have "holds (\<lambda>d'. case g of None \<Rightarrow> d' = d \<and> (\<forall>k. fe_uuid env i = Some k \<longrightarrow> skill_guarded k (sk_scope s) ?new d) | Some _ \<Rightarrow> skill_edit d d')
     (case g of Some refusal \<Rightarrow> ret refusal | None \<Rightarrow> eff_bind (write_skill env i q) (\<lambda>s'.
        eff_seq (if sk_scope s \<noteq> ?new then fleet_audit ''skill_scope_change'' i ?new else ret ()) (answer_skill env 200 s')))
     (\<lambda>_. skill_edit d) (skill_edit d)" for g
  proof (cases g)
    case None
    show ?thesis unfolding None option.case
      by (rule holds_bind[OF _ finish], rule holds_conseq[OF edit_by_write[of d env i q]]) (use assms in auto)
  qed (simp add: holds_ret)
  note go = this
  show ?thesis unfolding edit_skill_def None Let_def option.case by (rule holds_bind[OF guard_holds go])
qed (auto simp: edit_skill_def intro!: holds_ret skill_edit_refl)

lemma catch_edit: "holds P m (\<lambda>_. skill_edit d) (skill_edit d) \<Longrightarrow> holds P (skill_catch msg m) (\<lambda>_. skill_edit d) (skill_edit d)"
  unfolding skill_catch_def by (rule holds_catch) (auto intro!: holds_ret split: exn.splits)

lemma select_holds:
  "holds ((=) d) (select_skill_by env i) (\<lambda>x d'. d' = d \<and> (\<exists>k. fe_uuid env i = Some k \<and> x = find_skill k d)) (skill_edit d)"
  by (rule holdsI) (use select_result skill_edit_refl in fastforce)+

lemma edit_by_update: "holds ((=) d) (update_skill env i q) (\<lambda>_. skill_edit d) (skill_edit d)"
  unfolding update_skill_def
proof (rule catch_edit, rule holds_bind[OF select_holds])
  fix r
  show "holds (\<lambda>d'. d' = d \<and> (\<exists>k. fe_uuid env i = Some k \<and> r = find_skill k d))
     (case r of None \<Rightarrow> ret (SkillRefused 404 ''Skill not found'') | Some s \<Rightarrow> edit_skill env i q s) (\<lambda>_. skill_edit d) (skill_edit d)"
  proof (cases r)
    case (Some s)
    show ?thesis
    proof (cases "\<exists>k. fe_uuid env i = Some k \<and> r = find_skill k d")
      case True
      then obtain k where "fe_uuid env i = Some k" "find_skill k d = Some s" using Some by auto
      from edit_by_edit[OF this] have "holds ((=) d) (edit_skill env i q s) (\<lambda>_. skill_edit d) (skill_edit d)" .
      then show ?thesis unfolding Some option.case by (rule holds_conseq) simp_all
    qed (rule holdsI; blast)
  qed (auto intro!: holds_ret skill_edit_refl)
qed

lemma edit_by_delete: "holds ((=) d) (delete_skill env i) (\<lambda>_. skill_edit d) (skill_edit d)"
  unfolding delete_skill_def or_failed_def
proof (rule holds_catch, rule holds_bind[OF select_holds])
  fix r
  have wr: "holds ((=) d) (db_query (\<lambda>d. case fe_uuid env i of None \<Rightarrow> Inl DbFault
      | Some k \<Rightarrow> if k \<in> as_skill ` set (fl_assigned d) then Inl DbFault
          else Inr ((), d\<lparr>fl_skills := filter (\<lambda>x. sk_id x \<noteq> k) (fl_skills d),
             fl_skill_tools := filter (\<lambda>p. fst p \<noteq> k) (fl_skill_tools d)\<rparr>))) (\<lambda>_. skill_edit d) (skill_edit d)"
    by (rule holds_query) (auto simp: skill_edit_def besides_skills_def split: option.splits if_splits)
  have check: "holds ((=) d) (fleet_query env i (\<lambda>k d. (f k d, d))) (\<lambda>_. (=) d) (skill_edit d)" for f :: "string \<Rightarrow> fleet_db \<Rightarrow> assignment list"
    by (rule holds_fleet_query) (auto simp: skill_edit_refl)
  show "holds (\<lambda>d'. d' = d \<and> (\<exists>k. fe_uuid env i = Some k \<and> r = find_skill k d)) (case r of
      None \<Rightarrow> ret (SkillRefused 404 ''Skill not found'')
    | Some s \<Rightarrow> if sk_platform s then ret (SkillRefused 403 ''Cannot delete a platform skill'')
        else eff_bind (fleet_query env i (\<lambda>k d. (filter (\<lambda>x. as_skill x = k \<and> find_fleet (as_agent x) d \<noteq> None) (fl_assigned d), d)))
          (\<lambda>xs. if xs \<noteq> [] then ret (SkillRefused 409 ''Cannot delete skill while agents are assigned to it'')
            else eff_bind (db_query (\<lambda>d. case fe_uuid env i of None \<Rightarrow> Inl DbFault
              | Some k \<Rightarrow> if k \<in> as_skill ` set (fl_assigned d) then Inl DbFault
                  else Inr ((), d\<lparr>fl_skills := filter (\<lambda>x. sk_id x \<noteq> k) (fl_skills d),
                     fl_skill_tools := filter (\<lambda>p. fst p \<noteq> k) (fl_skill_tools d)\<rparr>))) (\<lambda>_. ret SkillDeleted)))
    (\<lambda>_. skill_edit d) (skill_edit d)"
    by (rule holds_conseq[where P' = "(=) d" and Q' = "\<lambda>_. skill_edit d" and E' = "skill_edit d"])
      (auto intro!: holds_option holds_if holds_ret holds_bind[OF check] holds_bind[OF wr] skill_edit_refl)
qed (auto intro!: holds_ret)

section \<open>Elevated scopes\<close>

text \<open>The primary key of the skills and the foreign key of the assignments.\<close>

definition skills_sound :: "fleet_db \<Rightarrow> bool" where
  "skills_sound d \<longleftrightarrow> distinct (map sk_id (fl_skills d)) \<and> as_skill ` set (fl_assigned d) \<subseteq> sk_id ` set (fl_skills d)"

definition elevated_of_agent :: "string \<Rightarrow> fleet_db \<Rightarrow> string list" where
  "elevated_of_agent u d = filter is_elevated_scope (map sk_scope (skills_of u d))"

definition running_ids :: "fleet_db \<Rightarrow> string set" where
  "running_ids d = fa_id ` set (filter (\<lambda>a. fa_status a = ''running'') (fl_agents d))"

definition nobody_escalated :: "fleet_db \<Rightarrow> fleet_db \<Rightarrow> bool" where
  "nobody_escalated d d' \<longleftrightarrow> fl_agents d' = fl_agents d \<and> fl_assigned d' = fl_assigned d
     \<and> elevated_pairs d' \<subseteq> elevated_pairs d
     \<and> (\<forall>u \<in> running_ids d. elevated_of_agent u d' = elevated_of_agent u d)"

lemma nobody_escalated_trans: "nobody_escalated d d1 \<Longrightarrow> nobody_escalated d1 d2 \<Longrightarrow> nobody_escalated d d2"
  by (auto simp: nobody_escalated_def running_ids_def)

text \<open>Skills nobody has do not matter.\<close>

lemma unassigned_irrelevant:
  assumes "fl_agents d' = fl_agents d" "fl_assigned d' = fl_assigned d"
    and "\<And>x. x \<in> set (fl_assigned d) \<Longrightarrow> filter (\<lambda>s. sk_id s = as_skill x) (fl_skills d') = filter (\<lambda>s. sk_id s = as_skill x) (fl_skills d)"
  shows "nobody_escalated d d'"
proof -
  have "skills_of u d' = skills_of u d" for u
    unfolding skills_of_def assms(2) by (rule arg_cong[of _ _ concat], rule map_cong) (auto simp: assms(3))
  moreover have "elevated_pairs d' = elevated_pairs d"
  proof -
    have "(\<exists>s \<in> set (fl_skills d'). sk_id s = as_skill x \<and> is_elevated_scope (sk_scope s)) =
        (\<exists>s \<in> set (fl_skills d). sk_id s = as_skill x \<and> is_elevated_scope (sk_scope s))" if "x \<in> set (fl_assigned d)" for x
      using arg_cong[OF assms(3)[OF that], of set] by auto
    then show ?thesis by (auto simp: elevated_pairs_def assms(2))
  qed
  ultimately show ?thesis by (simp add: nobody_escalated_def assms(1,2) elevated_of_agent_def)
qed

lemma filter_ids: "(\<And>x. x \<in> set xs \<Longrightarrow> sk_id (g x) = sk_id x) \<Longrightarrow> filter (\<lambda>s. sk_id s = j) (map g xs) = map g (filter (\<lambda>s. sk_id s = j) xs)"
  by (induction xs) auto

lemma skills_of_subset: "set (skills_of u d) = {s \<in> set (fl_skills d). \<lparr>as_agent = u, as_skill = sk_id s\<rparr> \<in> set (fl_assigned d)}"
proof (rule set_eqI)
  fix s
  have "s \<in> set (skills_of u d) \<longleftrightarrow> s \<in> set (fl_skills d) \<and> (\<exists>x \<in> set (fl_assigned d). as_agent x = u \<and> as_skill x = sk_id s)"
    by (auto simp: skills_of_def)
  also have "(\<exists>x \<in> set (fl_assigned d). as_agent x = u \<and> as_skill x = sk_id s) \<longleftrightarrow> \<lparr>as_agent = u, as_skill = sk_id s\<rparr> \<in> set (fl_assigned d)"
    (is "?l = ?r")
  proof
    assume ?l
    then obtain x where x: "x \<in> set (fl_assigned d)" "as_agent x = u" "as_skill x = sk_id s" by blast
    have "x = \<lparr>as_agent = u, as_skill = sk_id s\<rparr>" by (rule assignment.equality) (simp_all add: x)
    then show ?r using x(1) by simp
  qed force
  finally show "s \<in> set (skills_of u d) \<longleftrightarrow> s \<in> {s \<in> set (fl_skills d). \<lparr>as_agent = u, as_skill = sk_id s\<rparr> \<in> set (fl_assigned d)}" by simp
qed

lemma filter_unchanged:
  "(\<And>x. x \<in> set xs \<Longrightarrow> P (h (g x)) \<or> P (h x) \<Longrightarrow> h (g x) = h x) \<Longrightarrow> filter P (map h (map g xs)) = filter P (map h xs)"
proof (induction xs)
  case (Cons y ys)
  have "filter P (map h (map g ys)) = filter P (map h ys)" by (rule Cons.IH) (rule Cons.prems, auto)
  moreover have "h (g y) = h y \<or> \<not> P (h (g y)) \<and> \<not> P (h y)" using Cons.prems[of y] by auto
  ultimately show ?case by auto
qed simp

lemma edit_escalates_nobody:
  assumes "skill_edit d d'" "skills_sound d"
  shows "skills_sound d' \<and> nobody_escalated d d'"
proof -
  have b: "fl_agents d' = fl_agents d" "fl_assigned d' = fl_assigned d"
    using assms(1) besides_fields unfolding skill_edit_def by blast+
  consider "fl_skills d' = fl_skills d"
    | s where "fl_skills d' = fl_skills d @ [s]" "sk_id s \<notin> set (map sk_id (fl_skills d))"
    | k f s where "find_skill k d = Some s" "fl_skills d' = map (\<lambda>x. if sk_id x = k then f x else x) (fl_skills d)"
        "sk_id (f s) = k" "skill_guarded k (sk_scope s) (sk_scope (f s)) d"
    | k where "k \<notin> as_skill ` set (fl_assigned d)" "fl_skills d' = filter (\<lambda>x. sk_id x \<noteq> k) (fl_skills d)"
    using assms(1) unfolding skill_edit_def by blast
  then show ?thesis
  proof cases
    case 1
    then show ?thesis using assms(2) unassigned_irrelevant[OF b] by (simp add: skills_sound_def b)
  next
    case 2
    have "as_skill x \<noteq> sk_id s" if "x \<in> set (fl_assigned d)" for x
      using assms(2) 2(2) that unfolding skills_sound_def set_map by (metis image_eqI subsetD)
    then show ?thesis using assms(2) 2 by (intro conjI unassigned_irrelevant[OF b]) (auto simp: skills_sound_def b)
  next
    case 4
    have ids: "as_skill x \<noteq> k" if "x \<in> set (fl_assigned d)" for x using 4(1) that by auto
    then have "as_skill ` set (fl_assigned d) \<subseteq> sk_id ` set (fl_skills d')"
      using assms(2) unfolding skills_sound_def 4(2) by (auto simp: image_iff subset_iff)
    then have "skills_sound d'" using assms(2) by (simp add: skills_sound_def b 4(2) distinct_map_filter)
    moreover have "nobody_escalated d d'"
      by (rule unassigned_irrelevant[OF b]) (auto simp: 4(2) intro!: filter_cong dest!: ids)
    ultimately show ?thesis ..
  next
    case 3
    let ?g = "\<lambda>x. if sk_id x = k then f x else x"
    have s: "s \<in> set (fl_skills d)" "sk_id s = k" using 3(1) by (auto simp: find_skill_def find_Some_iff)
    have only: "x = s" if "x \<in> set (fl_skills d)" "sk_id x = k" for x
      using assms(2) s that by (auto simp: skills_sound_def distinct_map inj_on_def)
    then have ids: "sk_id (?g x) = sk_id x" if "x \<in> set (fl_skills d)" for x using that 3(3) by auto
    then have "map sk_id (fl_skills d') = map sk_id (fl_skills d)" by (simp add: 3(2))
    then have ok: "skills_sound d'" using assms(2) by (simp add: skills_sound_def b) (metis list.set_map)
    have fi: "filter (\<lambda>s. sk_id s = j) (map ?g (fl_skills d)) = map ?g (filter (\<lambda>s. sk_id s = j) (fl_skills d))" for j
      by (rule filter_ids) (rule ids)
    have of: "skills_of u d' = map ?g (skills_of u d)" for u
      unfolding skills_of_def b(2) 3(2) fi map_concat by (simp add: o_def)
    moreover have same: "elevated_of_agent u d' = elevated_of_agent u d"
      if "u \<in> running_ids d" for u
    proof -
      have "sk_scope (?g x) = sk_scope x"
        if x: "x \<in> set (skills_of u d)" "is_elevated_scope (sk_scope (?g x)) \<or> is_elevated_scope (sk_scope x)" for x
      proof (cases "sk_id x = k")
        case True
        have "x \<in> set (fl_skills d)" "\<lparr>as_agent = u, as_skill = k\<rparr> \<in> set (fl_assigned d)" using x(1) True unfolding skills_of_subset by auto
        moreover from this have "running_with k d \<noteq> []"
          using \<open>u \<in> running_ids d\<close> by (auto simp: running_with_def running_ids_def filter_empty_conv)
        ultimately show ?thesis using 3(4) only True x(2) by (auto simp: skill_guarded_def)
      qed simp
      then show ?thesis unfolding elevated_of_agent_def of by (rule filter_unchanged)
    qed
    moreover have "elevated_pairs d' \<subseteq> elevated_pairs d"
    proof
      fix x assume "x \<in> elevated_pairs d'"
      then obtain t where t: "x \<in> set (fl_assigned d)" "t \<in> set (fl_skills d)" "sk_id (?g t) = as_skill x" "is_elevated_scope (sk_scope (?g t))"
        by (auto simp: elevated_pairs_def b 3(2))
      show "x \<in> elevated_pairs d"
      proof (cases "sk_id t = k")
        case True
        then have "t = s" "as_skill x = k" using only t(2,3) 3(3) by auto
        then have "is_elevated_scope (sk_scope s)" using 3(4) t(1,4) s by (auto simp: skill_guarded_def)
        then show ?thesis using t(1) s \<open>as_skill x = k\<close> by (auto simp: elevated_pairs_def)
      qed (use t in \<open>auto simp: elevated_pairs_def\<close>)
    qed
    ultimately show ?thesis using ok by (simp add: nobody_escalated_def b)
  qed
qed

section \<open>What an update leaves behind\<close>

text \<open>The tools of a skill after \<open>setSkillTools\<close>: those asked for; an empty list leaves them as they are.\<close>

definition tools_set :: "fleet_env \<Rightarrow> string \<Rightarrow> string list \<Rightarrow> fleet_db \<Rightarrow> fleet_db \<Rightarrow> bool" where
  "tools_set env k ids d d' \<longleftrightarrow>
     (if ids = [] then fl_skill_tools d' = fl_skill_tools d
      else \<exists>us. tool_uuids env ids = Some us
        \<and> set (fl_skill_tools d') = {p \<in> set (fl_skill_tools d). fst p \<noteq> k} \<union> Pair k ` set us)"

definition skill_written :: "fleet_env \<Rightarrow> string \<Rightarrow> skill_body \<Rightarrow> fleet_db \<Rightarrow> fleet_db \<Rightarrow> skill_row \<Rightarrow> bool" where
  "skill_written env i q d d' s \<longleftrightarrow> besides_skills d' = besides_skills d
     \<and> (\<exists>k s0. fe_uuid env i = Some k \<and> find_skill k d = Some s0 \<and> s = skill_change env q s0
        \<and> fl_skills d' = fl_skills (change_skill k (skill_change env q) d)
        \<and> tools_set env k (if sq_tools q = Undef then [] else asked_tools q) d d')"

lemma added_tools:
  "holds (\<lambda>d'. besides_skills d' = besides_skills d \<and> fl_skills d' = S \<and> set (fl_skill_tools d') = T) (eff_for ids (add_tool env k))
     (\<lambda>_ d'. besides_skills d' = besides_skills d \<and> fl_skills d' = S
        \<and> (\<exists>us. tool_uuids env ids = Some us \<and> set (fl_skill_tools d') = T \<union> Pair k ` set us)) (\<lambda>_. True)"
proof (induction ids arbitrary: T)
  case Nil
  show ?case by (auto simp: tool_uuids_def intro!: holds_ret)
next
  case (Cons i ids)
  show ?case
  proof (cases "fe_uuid env i")
    case None
    then show ?thesis by (auto simp: eff_seq_def eff_bind_def holds_def add_tool_def fleet_query_def db_query_def Let_def split: list.splits bool.splits)
  next
    case (Some u)
    have "holds (\<lambda>d'. besides_skills d' = besides_skills d \<and> fl_skills d' = S \<and> set (fl_skill_tools d') = T) (add_tool env k i)
        (\<lambda>_ d'. besides_skills d' = besides_skills d \<and> fl_skills d' = S \<and> set (fl_skill_tools d') = insert (k, u) T) (\<lambda>_. True)"
      unfolding add_tool_def using Some by (intro holds_fleet_query) (auto simp: besides_skills_def split: if_splits)
    from holds_seq[OF this Cons.IH[of "insert (k, u) T"]] show ?thesis
      by simp (rule holds_conseq, assumption, auto simp: tool_uuids_def Some)
  qed
qed

lemma tools_are_set:
  "holds ((=) d) (set_skill_tools env k ids)
     (\<lambda>_ d'. besides_skills d' = besides_skills d \<and> fl_skills d' = fl_skills d \<and> tools_set env k ids d d') (\<lambda>_. True)"
proof (cases "ids = []")
  case False
  let ?T = "{p \<in> set (fl_skill_tools d). fst p \<noteq> k}"
  have "holds ((=) d) (eff_seq (clear_tools k) (eff_for ids (add_tool env k)))
     (\<lambda>_ d'. besides_skills d' = besides_skills d \<and> fl_skills d' = fl_skills d
        \<and> (\<exists>us. tool_uuids env ids = Some us \<and> set (fl_skill_tools d') = ?T \<union> Pair k ` set us)) (\<lambda>_. True)"
    by (rule holds_seq[OF _ added_tools]) (auto simp: clear_tools_def besides_skills_def intro!: holds_write)
  then have go: "holds ((=) d) (eff_seq (clear_tools k) (eff_for ids (add_tool env k)))
     (\<lambda>_ d'. besides_skills d' = besides_skills d \<and> fl_skills d' = fl_skills d \<and> tools_set env k ids d d') (\<lambda>_. True)"
    by (rule holds_conseq) (simp_all add: tools_set_def False)
  have sel: "holds ((=) d) (select_tools env ids) (\<lambda>_. (=) d) (\<lambda>_. True)"
    unfolding select_tools_def by (rule holds_query) (auto split: option.splits)
  show ?thesis unfolding set_skill_tools_def using False
    by simp (rule holds_bind[OF sel], auto intro!: holds_throw go)
qed (auto simp: set_skill_tools_def tools_set_def intro!: holds_ret)

lemma written_by_write:
  "holds ((=) d) (write_skill env i q) (\<lambda>s d'. skill_written env i q d d' s) ((=) d)"
  unfolding write_skill_def
proof (rule holds_transaction)
  let ?ids = "if sq_tools q = Undef then [] else asked_tools q"
  define row where "row r d' \<longleftrightarrow> (case r of None \<Rightarrow> True
     | Some s \<Rightarrow> besides_skills d' = besides_skills d \<and> fl_skill_tools d' = fl_skill_tools d
         \<and> (\<exists>k s0. fe_uuid env i = Some k \<and> find_skill k d = Some s0 \<and> s = skill_change env q s0 \<and> sk_id s = k
            \<and> fl_skills d' = fl_skills (change_skill k (skill_change env q) d)))" for r d'
  have 1: "holds ((=) d) (update_skill_row env i (skill_change env q)) row (\<lambda>_. True)"
    unfolding update_skill_row_def
  proof (rule holds_query)
    fix d1 x d'
    assume d1: "d = d1" and e: "(case fe_uuid env i of None \<Rightarrow> Inl DbFault
       | Some k \<Rightarrow> (case find_skill k d1 of None \<Rightarrow> Inr (None, d1)
          | Some s \<Rightarrow> if \<not> skill_fits (skill_change env q s) then Inl DbFault
              else if sk_name (skill_change env q s) \<in> set (map sk_name (filter (\<lambda>x. sk_id x \<noteq> k) (fl_skills d1)))
              then Inl (UniqueViolation ''skills_name_key'')
              else Inr (Some (skill_change env q s), change_skill k (skill_change env q) d1))) = Inr (x, d')"
    obtain k where k: "fe_uuid env i = Some k" using e by (cases "fe_uuid env i") simp_all
    have id: "sk_id s = k" if "find_skill k d = Some s" for s using that by (auto simp: find_skill_def find_Some_iff)
    have "x = None \<or> (\<exists>s. find_skill k d = Some s \<and> x = Some (skill_change env q s) \<and> d' = change_skill k (skill_change env q) d)"
      using e[folded d1, unfolded k option.case] by (cases "find_skill k d") (simp_all split: if_splits)
    then show "row x d'" using k id by (auto simp: row_def change_skill_def besides_skills_def skill_change_def)
  qed simp
  have 2: "holds (row (Some s)) (eff_seq (if sq_tools q = Undef then ret () else set_skill_tools env (sk_id s) (asked_tools q)) (ret s))
      (\<lambda>s d'. skill_written env i q d d' s) (\<lambda>_. True)" for s
  proof (rule holdsI)
    fix w x w' assume r: "row (Some s) (db w)"
      and e: "eff_seq (if sq_tools q = Undef then ret () else set_skill_tools env (sk_id s) (asked_tools q)) (ret s) w = (Inr x, w')"
    have "x = s \<and> besides_skills (db w') = besides_skills (db w) \<and> fl_skills (db w') = fl_skills (db w) \<and> tools_set env (sk_id s) ?ids (db w) (db w')"
    proof (cases "sq_tools q = Undef")
      case True
      then show ?thesis using e by (auto simp: eff_seq_def eff_bind_def ret_def tools_set_def)
    next
      case False
      then obtain w1 where "set_skill_tools env (sk_id s) (asked_tools q) w = (Inr (), w1)" "x = s" "w' = w1"
        using e by (auto simp: eff_seq_def eff_bind_def ret_def split: prod.splits sum.splits)
      then show ?thesis using holds_Inr[OF tools_are_set[of "db w"]] False by auto
    qed
    then show "skill_written env i q d (db w') x" using r by (auto simp: row_def skill_written_def tools_set_def)
  qed simp
  show "holds ((=) d) (eff_bind (update_skill_row env i (skill_change env q)) (\<lambda>r.
      case r of None \<Rightarrow> throw (Thrown ''Cannot read properties of undefined'')
      | Some s \<Rightarrow> eff_seq (if sq_tools q = Undef then ret () else set_skill_tools env (sk_id s) (asked_tools q)) (ret s)))
      (\<lambda>s d'. skill_written env i q d d' s) (\<lambda>_. True)"
  proof (rule holds_bind[OF 1])
    fix r
    show "holds (row r) (case r of None \<Rightarrow> throw (Thrown ''Cannot read properties of undefined'')
      | Some s \<Rightarrow> eff_seq (if sq_tools q = Undef then ret () else set_skill_tools env (sk_id s) (asked_tools q)) (ret s))
      (\<lambda>s d'. skill_written env i q d d' s) (\<lambda>_. True)"
      by (cases r) (simp_all add: holds_throw 2)
  qed
qed simp

definition audit_only :: "fleet_db \<Rightarrow> fleet_db \<Rightarrow> bool" where
  "audit_only d d' \<longleftrightarrow> (\<exists>a. d' = d\<lparr>fl_audit := a\<rparr>)"

lemma audit_only_refl: "audit_only d d"
  unfolding audit_only_def by (rule exI[of _ "fl_audit d"]) simp

lemma audit_aside:
  "besides_skills (d'\<lparr>fl_audit := a\<rparr>) = besides_skills d'" "tools_set env k ids d (d'\<lparr>fl_audit := a\<rparr>) = tools_set env k ids d d'"
  by (simp_all add: besides_skills_def tools_set_def)

lemma written_audit: "skill_written env i q d d' s \<Longrightarrow> skill_written env i q d (d'\<lparr>fl_audit := a\<rparr>) s"
  by (simp add: skill_written_def audit_aside)

lemma answer_result:
  "answer_skill env st s w = (r, w') \<Longrightarrow> db w' = db w \<and> (r = Inl DbFault \<or> (\<exists>ts. r = Inr (SkillAnswer st s ts)))"
  by (auto simp: answer_skill_def fetch_tools_for_skills_def eff_bind_def db_read_def db_query_def ret_def Let_def
      split: list.splits bool.splits)

text \<open>Every way a change can go: refused, failed before it was written, failed when reading it back, answered.\<close>

lemma edit_skill_result:
  assumes "edit_skill env i q s w = (r, w')"
  shows "audit_only (db w) (db w') \<and> (\<forall>x. r = Inr x \<longrightarrow> (\<exists>st msg. x = SkillRefused st msg))
     \<or> (\<exists>s'. skill_written env i q (db w) (db w') s' \<and> (r = Inl DbFault \<or> (\<exists>ts. r = Inr (SkillAnswer 200 s' ts))))"
proof (cases "body_error q")
  case (Some msg)
  then show ?thesis using assms by (auto simp: edit_skill_def ret_def audit_only_refl)
next
  case None
  let ?old = "sk_scope s" and ?new = "text_or env (sq_scope q) (sk_scope s)"
  obtain g w1 where 1: "scope_guard env i ?old ?new w = (g, w1)" by fastforce
  show ?thesis
  proof (cases "g = Inr None")
    case False
    have "db w' = db w1 \<and> (\<forall>x. r = Inr x \<longrightarrow> g = Inr (Some x))"
      using assms False 1 None by (cases g) (auto simp: edit_skill_def Let_def eff_bind_def ret_def split: option.splits)
    moreover have "\<exists>st msg. x = SkillRefused st msg" if "g = Inr (Some x)" for x
      using 1 that unfolding scope_guard_def
      by (auto simp: eff_bind_def eff_seq_def fleet_audit_def local_step_def ret_def split: if_splits prod.splits sum.splits)
    ultimately show ?thesis using guard_result[OF 1] by (auto simp: audit_only_def)
  next
    case True
    then have w1: "db w1 = db w" using guard_result[OF 1] by simp
    obtain x w2 where 2: "write_skill env i q w1 = (x, w2)" by fastforce
    show ?thesis
    proof (cases x)
      case (Inl e)
      then have "db w2 = db w" using holds_Inl[OF written_by_write[of "db w" env i q] 2[unfolded Inl]] w1 by simp
      then show ?thesis using assms None 1 True 2 Inl by (auto simp: edit_skill_def Let_def eff_bind_def audit_only_refl)
    next
      case (Inr s')
      then have wr: "skill_written env i q (db w) (db w2) s'" using holds_Inr[OF written_by_write[of "db w" env i q] 2[unfolded Inr]] w1 by simp
      obtain w3 where 3: "(if ?old \<noteq> ?new then fleet_audit ''skill_scope_change'' i ?new else ret ()) w2 = (Inr (), w3)"
          "skill_written env i q (db w) (db w3) s'"
        using wr written_audit[OF wr] by (cases "?old = ?new") (auto simp: fleet_audit_def local_step_def ret_def)
      obtain y w4 where 4: "answer_skill env 200 s' w3 = (y, w4)" by fastforce
      have "(r, w') = (y, w4)" using assms None 1 True 2 Inr 3(1) 4 by (simp add: edit_skill_def Let_def eff_bind_def eff_seq_def)
      then show ?thesis using answer_result[OF 4] 3(2) by auto
    qed
  qed
qed

section \<open>The properties\<close>

datatype skill_edit_request =
    NewSkill skill_body
  | ChangeSkill string skill_body
  | DropSkill string

fun edited :: "fleet_env \<Rightarrow> skill_edit_request \<Rightarrow> fleet_db world \<Rightarrow> fleet_db world" where
  "edited env (NewSkill q) w = snd (create_skill env q w)"
| "edited env (ChangeSkill i q) w = snd (update_skill env i q w)"
| "edited env (DropSkill i) w = snd (delete_skill env i w)"

lemma edited_edit: "skill_edit (db w) (db (edited env r w))"
proof -
  have "skill_edit (db w) (db (snd (m w)))" if "\<And>d. holds ((=) d) m (\<lambda>_. skill_edit d) (skill_edit d)" for m :: "(fleet_db, skill_resp) eff"
    using that[of "db w", unfolded holds_def, rule_format, of w] by (auto split: prod.splits sum.splits)
  then show ?thesis using edit_by_create edit_by_update edit_by_delete by (cases r) auto
qed

text \<open>
  C13: Editing skills gives nobody an elevated scope. Whatever requests to create, change and delete skills come
  in and whatever queries fail during them, no agent is left with an elevated skill that did not count as one
  before, and the elevated scopes of a running agent stay exactly as they are; who has which skill
  is not touched.
\<close>

theorem skill_edits_escalate_nobody:
  assumes "skills_sound (db w)"
  shows "skills_sound (db (fold (edited env) rs w)) \<and> nobody_escalated (db w) (db (fold (edited env) rs w))"
  using assms
proof (induction rs arbitrary: w)
  case (Cons r rs)
  from edit_escalates_nobody[OF edited_edit Cons.prems] have r: "skills_sound (db (edited env r w))" "nobody_escalated (db w) (db (edited env r w))" by blast+
  then show ?case using Cons.IH[OF r(1)] nobody_escalated_trans[OF r(2)] by simp
qed (simp add: nobody_escalated_def)


section \<open>The gap between the guard and the write\<close>

text \<open>
  The guard and the write are statements of their own. Where an assignment comes in between, its agent, of
  somebody who is no administrator, ends up with an elevated skill.
\<close>

definition demo_escalation :: skill_body where
  "demo_escalation = \<lparr>sq_name = Undef, sq_description = Undef, sq_instructions = Undef, sq_scope = Str ''host_docker'',
     sq_tools = Undef, sq_config = None\<rparr>"

definition demo_free :: "fleet_db world" where
  "demo_free = \<lparr>faults = [], db = demo_fleet\<lparr>fl_assigned := []\<rparr>\<rparr>"

lemma escalation_race:
  fixes w1 w2 :: "fleet_db world"
  defines "w1 \<equiv> snd (assign_skill demo_fleet_env demo_plain ''a1'' (Obj [(''skill_id'', Str ''s1'')]) demo_free)"
    and "w2 \<equiv> snd (write_skill demo_fleet_env ''s1'' demo_escalation w1)"
  shows "fst (scope_guard demo_fleet_env ''s1'' ''container_local'' ''host_docker'' demo_free) = Inr None
     \<and> elevated_pairs (db demo_free) = {} \<and> elevated_pairs (db w2) \<noteq> {}"
proof -
  have "fst (scope_guard demo_fleet_env ''s1'' ''container_local'' ''host_docker'' demo_free) = Inr None" by code_simp
  moreover have "list_all (\<lambda>x. x = \<lparr>as_agent = ''a1'', as_skill = ''s1''\<rparr>) (fl_assigned (db w2)) \<and> fl_assigned (db w2) \<noteq> []
      \<and> map (\<lambda>s. (sk_id s, sk_scope s)) (fl_skills (db w2)) = [(''s1'', ''host_docker'')]"
    unfolding w1_def w2_def by code_simp
  then have "elevated_pairs (db w2) \<noteq> {}"
    by (cases "fl_assigned (db w2)"; cases "fl_skills (db w2)")
      (auto simp: elevated_pairs_def is_elevated_scope_def elevated_scopes_def)
  moreover have "elevated_pairs (db demo_free) = {}" by (simp add: elevated_pairs_def demo_free_def)
  ultimately show ?thesis by blast
qed

section \<open>Witnesses\<close>

theorem skill_edits_escalate_nobody_witness:
  "nobody_escalated (db demo_fleet_world) (db (fold (edited demo_fleet_env)
       [ChangeSkill ''s1'' demo_escalation, DropSkill ''s1''] demo_fleet_world))
   \<and> map sk_scope (fl_skills (db (fold (edited demo_fleet_env)
       [ChangeSkill ''s1'' demo_escalation, DropSkill ''s1''] demo_fleet_world))) = [''container_local'']"
proof -
  have "skills_sound (db demo_fleet_world)" by (simp add: skills_sound_def demo_fleet_world_def demo_fleet_def demo_skill_def)
  note kept = skill_edits_escalate_nobody[OF this, of demo_fleet_env "[ChangeSkill ''s1'' demo_escalation, DropSkill ''s1'']"]
  have "map sk_scope (fl_skills (db (fold (edited demo_fleet_env)
       [ChangeSkill ''s1'' demo_escalation, DropSkill ''s1''] demo_fleet_world))) = [''container_local'']" by code_simp
  then show ?thesis using kept by (intro conjI) (elim conjE, assumption, assumption)
qed

end
