(* ===== verification/Reporting.thy ===== *)
theory Reporting
  imports AgentRows
begin

text \<open>
  What tells people and callers about trouble and about size: the streaks of failed journal entries
  (\<open>services/journal-gaps.ts\<close>), notifications (\<open>services/notifications.ts\<close>,
  \<open>routes/notifications.ts\<close>), the paging parameters of lists (\<open>helpers/page-params.ts\<close>) and
  the totals of proxied lists (\<open>helpers/upstream-total.ts\<close>).
\<close>

section \<open>State\<close>

text \<open>
  The streaks are kept in memory, by slug. Notifications are in the order of \<open>created_at\<close>; the
  metadata of one is the agent, the count and the reason, where it has any.
\<close>

record streak =
  st_count :: nat
  st_first :: string
  st_reason :: string
  st_notified :: bool

record note_row =
  nt_id :: string
  nt_user :: string
  nt_message :: string
  nt_type :: string
  nt_read :: bool
  nt_meta :: "(string \<times> nat \<times> string) option"

record report_db =
  rp_streaks :: "string \<Rightarrow> streak option"
  rp_notes :: "note_row list"

section \<open>Notifications\<close>

text \<open>Ids are drawn by the database; a fault is logged and swallowed.\<close>

definition notify :: "(nat \<Rightarrow> string) \<Rightarrow> string \<Rightarrow> string \<Rightarrow> string \<Rightarrow> (string \<times> nat \<times> string) option \<Rightarrow> (report_db, unit) eff" where
  "notify ids user msg typ meta = eff_catch
     (db_query (\<lambda>d.
        let n = \<lparr>nt_id = ids (length (rp_notes d)), nt_user = user, nt_message = msg, nt_type = typ, nt_read = False, nt_meta = meta\<rparr> in
        if \<not> varchar_ok 255 user \<or> \<not> text_ok msg \<or> \<not> varchar_ok 32 typ then Inl DbFault
        else Inr ((), d\<lparr>rp_notes := rp_notes d @ [n]\<rparr>)))
     (\<lambda>_. ret ())"

datatype note_resp =
    NoteRefused nat string
  | NoteList "note_row list" nat
  | NoteRead
  | NotesUpdated nat

definition or_note_500 :: "string \<Rightarrow> (report_db, note_resp) eff \<Rightarrow> (report_db, note_resp) eff" where
  "or_note_500 msg m = eff_catch m (\<lambda>_. ret (NoteRefused 500 msg))"

text \<open>\<open>parseInt(v)\<close> without a radix, of a query value that may be an array or missing.\<close>

definition hex_digit :: "char \<Rightarrow> bool" where
  "hex_digit c = (hex_val c \<noteq> None)"

definition auto_prefix :: "bool \<Rightarrow> string \<Rightarrow> jsnum" where
  "auto_prefix neg s =
     (if to_lower (take 2 s) = ''0x'' then
        (let ds = takeWhile hex_digit (drop 2 s); n = foldl (\<lambda>n c. 16 * n + int (the (hex_val c))) 0 ds in
         if ds = [] then NaN else to_num (of_int (if neg then - n else n)))
      else int_prefix neg s)"

definition parse_int :: "(rat \<Rightarrow> string) \<Rightarrow> js \<Rightarrow> jsnum" where
  "parse_int fmt v = JsValue.signed (auto_prefix False) (auto_prefix True) (trim_start (js_string fmt v))"

text \<open>\<open>Math.min(parseInt(v) || deflt, most)\<close>\<close>

definition capped :: "(rat \<Rightarrow> string) \<Rightarrow> js \<Rightarrow> nat \<Rightarrow> nat \<Rightarrow> jsnum" where
  "capped fmt v deflt most =
     (let n = parse_int fmt v; m = (if truthy (Num n) then n else Fin (of_nat deflt)) in
      if num_lt m (of_nat most) then m else Fin (of_nat most))"

text \<open>A \<open>LIMIT\<close>; Postgres refuses a negative one.\<close>

definition limited :: "jsnum \<Rightarrow> 'a list \<Rightarrow> 'a list option" where
  "limited n xs = (case n of Fin q \<Rightarrow> if 0 \<le> q then Some (take (nat \<lfloor>q\<rfloor>) xs) else None | _ \<Rightarrow> None)"

definition list_notifications :: "(rat \<Rightarrow> string) \<Rightarrow> string \<Rightarrow> js \<Rightarrow> js \<Rightarrow> (report_db, note_resp) eff" where
  "list_notifications fmt user limit unread = or_note_500 ''Failed to list notifications''
     (eff_bind (db_query (\<lambda>d.
        let mine = filter (\<lambda>n. nt_user n = user \<and> (unread = Str ''true'' \<longrightarrow> \<not> nt_read n)) (rp_notes d) in
        case limited (capped fmt limit 50 200) (rev mine) of None \<Rightarrow> Inl DbFault | Some ns \<Rightarrow> Inr (ns, d))) (\<lambda>ns.
      eff_bind (db_read (\<lambda>d. length (filter (\<lambda>n. nt_user n = user \<and> \<not> nt_read n) (rp_notes d)))) (\<lambda>c.
      ret (NoteList ns c))))"

text \<open>An UPDATE of the caller's own rows; its result is the count of rows.\<close>

definition mark_notes :: "(note_row \<Rightarrow> bool) \<Rightarrow> report_db \<Rightarrow> nat \<times> report_db" where
  "mark_notes p d = (length (filter p (rp_notes d)),
     d\<lparr>rp_notes := map (\<lambda>n. if p n then n\<lparr>nt_read := True\<rparr> else n) (rp_notes d)\<rparr>)"

definition mark_notification :: "(string \<Rightarrow> string option) \<Rightarrow> string \<Rightarrow> string \<Rightarrow> (report_db, note_resp) eff" where
  "mark_notification uuid user i = or_note_500 ''Failed to mark notification as read''
     (eff_bind (db_query (\<lambda>d. case uuid i of None \<Rightarrow> Inl DbFault
        | Some k \<Rightarrow> Inr (mark_notes (\<lambda>n. nt_id n = k \<and> nt_user n = user) d))) (\<lambda>c.
      ret (if c = 0 then NoteRefused 404 ''Notification not found'' else NoteRead)))"

definition mark_all_notifications :: "string \<Rightarrow> (report_db, note_resp) eff" where
  "mark_all_notifications user = or_note_500 ''Failed to mark notifications as read''
     (eff_bind (db_query (\<lambda>d. Inr (mark_notes (\<lambda>n. nt_user n = user \<and> \<not> nt_read n) d))) (\<lambda>c. ret (NotesUpdated c)))"

section \<open>Streaks of failures\<close>

definition persistent_after :: nat where
  "persistent_after = 3"

definition journal_streak :: "string \<Rightarrow> report_db \<Rightarrow> nat" where
  "journal_streak slug d = (case rp_streaks d slug of None \<Rightarrow> 0 | Some s \<Rightarrow> st_count s)"

definition persistent_text :: "string \<Rightarrow> nat \<Rightarrow> string \<Rightarrow> string" where
  "persistent_text slug n reason = ''Agent '' @ [CHR 0x22] @ slug @ [CHR 0x22] @ '' has failed to write its journal '' @ decimal n
     @ '' times in a row '' @ em_dash @ '' its memory of these conversations is missing. Reason: '' @ reason"

definition record_journal_failure :: "(nat \<Rightarrow> string) \<Rightarrow> string \<Rightarrow> string \<Rightarrow> string option \<Rightarrow> string \<Rightarrow> (report_db, unit) eff" where
  "record_journal_failure ids time slug owner reason =
     eff_bind (peek (\<lambda>d. rp_streaks d slug)) (\<lambda>prev.
     let s = (case prev of
            Some p \<Rightarrow> p\<lparr>st_count := st_count p + 1, st_reason := reason\<rparr>
          | None \<Rightarrow> \<lparr>st_count = 1, st_first = time, st_reason = reason, st_notified = False\<rparr>);
         keep = (\<lambda>x. local_step (\<lambda>d. d\<lparr>rp_streaks := (rp_streaks d)(slug \<mapsto> x)\<rparr>)) in
     eff_seq (keep s)
       (if persistent_after \<le> st_count s \<and> \<not> st_notified s \<and> configured owner
        then eff_seq (keep (s\<lparr>st_notified := True\<rparr>))
          (notify ids (the owner) (persistent_text slug (st_count s) reason) ''agent_error'' (Some (slug, st_count s, reason)))
        else ret ()))"

definition record_journal_success :: "string \<Rightarrow> (report_db, unit) eff" where
  "record_journal_success slug = local_step (\<lambda>d. d\<lparr>rp_streaks := (rp_streaks d)(slug := None)\<rparr>)"

section \<open>Paging\<close>

definition max_page :: nat where
  "max_page = 2000"

definition default_page :: nat where
  "default_page = 500"

record page_params =
  pg_limit :: "jsnum option"
  pg_offset :: "jsnum option"

text \<open>One parameter: absent, a number in its bounds, or an error.\<close>

definition page_param :: "(rat \<Rightarrow> string) \<Rightarrow> string \<Rightarrow> js \<Rightarrow> string + jsnum option" where
  "page_param fmt key raw =
     (if raw = Undef then Inr None
      else
      let n = js_Number (js_string fmt raw) in
      if \<not> js_isInteger n then Inl (key @ '' must be an integer'')
      else if key = ''limit'' \<and> (num_lt n 1 \<or> num_gt n (of_nat max_page)) then Inl (''limit must be between 1 and '' @ decimal max_page)
      else if key = ''offset'' \<and> num_lt n 0 then Inl ''offset must be >= 0''
      else Inr (Some n))"

definition parse_page_params :: "(rat \<Rightarrow> string) \<Rightarrow> js \<Rightarrow> js \<Rightarrow> string + page_params" where
  "parse_page_params fmt limit offset =
     (case page_param fmt ''limit'' limit of
        Inl e \<Rightarrow> Inl e
      | Inr l \<Rightarrow>
          (case page_param fmt ''offset'' offset of
             Inl e \<Rightarrow> Inl e
           | Inr k \<Rightarrow> Inr \<lparr>pg_limit = l, pg_offset = k\<rparr>))"

text \<open>The total of a proxied list: the header, where it is a number of rows, or the page's length.\<close>

definition total_from :: "string option \<Rightarrow> js \<Rightarrow> jsnum option" where
  "total_from header data =
     (let fallback = (case data of Arr vs \<Rightarrow> Some (Fin (of_nat (length vs))) | _ \<Rightarrow> None) in
      case header of
        None \<Rightarrow> fallback
      | Some h \<Rightarrow>
          if h = [] then fallback
          else let n = js_Number h in if \<not> js_isFinite n \<or> num_lt n 0 then fallback else Some n)"

end
