(* ===== verification/ReportingProps.thy ===== *)
theory ReportingProps
  imports Reporting
begin

text \<open>
  What the reports promise: an owner is told once of an outage of an agent's journal, a caller
  touches only the own notifications, and paging parameters that are accepted are within bounds.
\<close>

section \<open>Streaks\<close>

datatype journal_event =
    Failed string "string option" string string
  | Appended string

fun report :: "(nat \<Rightarrow> string) \<Rightarrow> journal_event \<Rightarrow> report_db world \<Rightarrow> report_db world" where
  "report ids (Failed slug owner reason time) w = snd (record_journal_failure ids time slug owner reason w)"
| "report ids (Appended slug) w = snd (record_journal_success slug w)"

fun about :: "string \<Rightarrow> journal_event \<Rightarrow> bool" where
  "about s (Failed slug _ _ _) = (slug = s)"
| "about s (Appended slug) = (slug = s)"

fun failing :: "string \<Rightarrow> journal_event \<Rightarrow> bool" where
  "failing s (Failed slug _ _ _) = (slug = s)"
| "failing s (Appended slug) = False"

text \<open>The owner is known, and the texts are such as Postgres stores.\<close>

fun tellable :: "journal_event \<Rightarrow> bool" where
  "tellable (Failed slug owner reason _) = (configured owner \<and> varchar_ok 255 (the owner) \<and> text_ok slug \<and> text_ok reason)"
| "tellable (Appended slug) = True"

definition notes_about :: "string \<Rightarrow> report_db \<Rightarrow> note_row list" where
  "notes_about slug d = filter (\<lambda>n. \<exists>c r. nt_meta n = Some (slug, c, r)) (rp_notes d)"

text \<open>In the middle of an outage of \<open>c\<close> failures.\<close>

definition in_outage :: "string \<Rightarrow> nat \<Rightarrow> report_db \<Rightarrow> bool" where
  "in_outage slug c d \<longleftrightarrow>
     (case rp_streaks d slug of
        None \<Rightarrow> c = 0
      | Some s \<Rightarrow> 0 < c \<and> st_count s = c \<and> (st_notified s \<longleftrightarrow> persistent_after \<le> c))"

lemma persistent_text_ok: "text_ok slug \<Longrightarrow> text_ok reason \<Longrightarrow> text_ok (persistent_text slug 3 reason)"
proof -
  have "text_ok em_dash" "text_ok (decimal 3)" by code_simp+
  then show "text_ok slug \<Longrightarrow> text_ok reason \<Longrightarrow> text_ok (persistent_text slug 3 reason)"
    by (simp add: text_ok_def persistent_text_def)
qed

lemma notify_db:
  "rp_streaks (db (snd (notify ids u m t meta w))) = rp_streaks (db w)
   \<and> (rp_notes (db (snd (notify ids u m t meta w))) = rp_notes (db w)
      \<or> (\<exists>n. nt_meta n = meta \<and> nt_user n = u \<and> rp_notes (db (snd (notify ids u m t meta w))) = rp_notes (db w) @ [n]))"
  by (auto simp: notify_def eff_catch_def db_query_def ret_def Let_def split: list.splits bool.splits if_splits)

lemma notify_run:
  assumes "faults w = []" "varchar_ok 255 u" "text_ok m" "varchar_ok 32 t"
  shows "faults (snd (notify ids u m t meta w)) = []
     \<and> (\<exists>n. nt_meta n = meta \<and> nt_user n = u \<and> rp_notes (db (snd (notify ids u m t meta w))) = rp_notes (db w) @ [n])"
  using assms by (auto simp: notify_def eff_catch_def db_query_def ret_def Let_def)

text \<open>A failure, seen from outside: the streak grows, and its owner is told or not.\<close>

definition longer :: "streak option \<Rightarrow> string \<Rightarrow> string \<Rightarrow> streak" where
  "longer prev time reason =
     (case prev of
        Some p \<Rightarrow> p\<lparr>st_count := st_count p + 1, st_reason := reason\<rparr>
      | None \<Rightarrow> \<lparr>st_count = 1, st_first = time, st_reason = reason, st_notified = False\<rparr>)"

definition due :: "streak \<Rightarrow> string option \<Rightarrow> bool" where
  "due s owner \<longleftrightarrow> persistent_after \<le> st_count s \<and> \<not> st_notified s \<and> configured owner"

lemma failure_eq:
  "report ids (Failed slug owner reason time) w =
     (let s = longer (rp_streaks (db w) slug) time reason;
          w1 = (\<lambda>x. w\<lparr>db := (db w)\<lparr>rp_streaks := (rp_streaks (db w))(slug \<mapsto> x)\<rparr>\<rparr>) in
      if due s owner
      then snd (notify ids (the owner) (persistent_text slug (st_count s) reason) ''agent_error'' (Some (slug, st_count s, reason))
        (w1 (s\<lparr>st_notified := True\<rparr>)))
      else w1 s)"
  by (simp add: record_journal_failure_def eff_bind_def eff_seq_def peek_def local_step_def ret_def longer_def due_def Let_def)

lemma failure_streaks:
  "rp_streaks (db (report ids (Failed slug owner reason time) w)) = (rp_streaks (db w))(slug \<mapsto>
     (let s = longer (rp_streaks (db w) slug) time reason in s\<lparr>st_notified := st_notified s \<or> due s owner\<rparr>))"
proof -
  let ?s = "longer (rp_streaks (db w) slug) time reason"
  have "\<not> due ?s owner \<Longrightarrow> ?s\<lparr>st_notified := st_notified ?s \<or> due ?s owner\<rparr> = ?s" by simp
  then show ?thesis unfolding failure_eq Let_def using notify_db by (cases "due ?s owner") simp_all
qed

lemma failure_notes:
  "rp_notes (db (report ids (Failed slug owner reason time) w)) = rp_notes (db w)
   \<or> due (longer (rp_streaks (db w) slug) time reason) owner
     \<and> (\<exists>n c. nt_meta n = Some (slug, c, reason) \<and> rp_notes (db (report ids (Failed slug owner reason time) w)) = rp_notes (db w) @ [n])"
proof -
  let ?s = "longer (rp_streaks (db w) slug) time reason"
  show ?thesis
  proof (cases "due ?s owner")
    case True
    then show ?thesis unfolding failure_eq Let_def
      using notify_db[of ids "the owner" "persistent_text slug (st_count ?s) reason" "''agent_error''" "Some (slug, st_count ?s, reason)"
          "w\<lparr>db := (db w)\<lparr>rp_streaks := (rp_streaks (db w))(slug \<mapsto> ?s\<lparr>st_notified := True\<rparr>)\<rparr>\<rparr>"]
      by auto
  qed (simp add: failure_eq Let_def del: report.simps)
qed

text \<open>Events of other agents do not concern this one.\<close>

lemma other_event:
  assumes "\<not> about slug e"
  shows "rp_streaks (db (report ids e w)) slug = rp_streaks (db w) slug \<and> notes_about slug (db (report ids e w)) = notes_about slug (db w)"
proof (cases e)
  case (Failed s owner reason time)
  then show ?thesis using assms failure_streaks[of ids s owner reason time w] failure_notes[of ids s owner reason time w]
    by (auto simp: notes_about_def)
next
  case (Appended s)
  then show ?thesis using assms by (auto simp: record_journal_success_def local_step_def notes_about_def)
qed

lemma report_calm: "faults w = [] \<Longrightarrow> faults (report ids e w) = []"
proof -
  have "faults (snd (notify ids u m t meta w)) = []" if "faults w = []" for u m t meta w
    using that by (auto simp: notify_def eff_catch_def db_query_def ret_def Let_def)
  then show "faults w = [] \<Longrightarrow> faults (report ids e w) = []"
    by (cases e) (simp_all add: failure_eq record_journal_success_def local_step_def Let_def del: report.simps(1))
qed

definition told_now :: "nat \<Rightarrow> nat" where
  "told_now c = (if c = persistent_after then 1 else 0)"

text \<open>One more failure in an outage.\<close>

lemma own_failure:
  assumes "in_outage slug c (db w)" "tellable (Failed slug owner reason time)"
  shows "\<exists>new. in_outage slug (Suc c) (db (report ids (Failed slug owner reason time) w))
     \<and> notes_about slug (db (report ids (Failed slug owner reason time) w)) = notes_about slug (db w) @ new
     \<and> length new \<le> told_now (Suc c) \<and> (faults w = [] \<longrightarrow> length new = told_now (Suc c))"
proof -
  let ?e = "Failed slug owner reason time"
  let ?s = "longer (rp_streaks (db w) slug) time reason"
  have s: "st_count ?s = Suc c" "st_notified ?s \<longleftrightarrow> persistent_after \<le> c"
    using assms(1) by (auto simp: in_outage_def longer_def persistent_after_def split: option.splits)
  have due: "due ?s owner \<longleftrightarrow> Suc c = persistent_after" using s assms(2) by (auto simp: due_def persistent_after_def)
  have out: "in_outage slug (Suc c) (db (report ids ?e w))"
    unfolding in_outage_def failure_streaks using s due by (auto simp: Let_def persistent_after_def)
  show ?thesis
  proof (cases "Suc c = persistent_after")
    case False
    then have "rp_notes (db (report ids ?e w)) = rp_notes (db w)" using failure_notes[of ids slug owner reason time w] due by blast
    then show ?thesis using out False by (intro exI[of _ "[]"]) (simp add: notes_about_def told_now_def)
  next
    case True
    let ?w = "w\<lparr>db := (db w)\<lparr>rp_streaks := (rp_streaks (db w))(slug \<mapsto> ?s\<lparr>st_notified := True\<rparr>)\<rparr>\<rparr>"
    let ?m = "persistent_text slug (st_count ?s) reason"
    have e: "report ids ?e w = snd (notify ids (the owner) ?m ''agent_error'' (Some (slug, st_count ?s, reason)) ?w)"
      using True due by (simp add: failure_eq Let_def del: report.simps)
    have "text_ok ?m" using persistent_text_ok assms(2) True s(1) by (simp add: persistent_after_def)
    moreover have "varchar_ok 32 ''agent_error''" by code_simp
    ultimately have "faults w = [] \<Longrightarrow> \<exists>n. nt_meta n = Some (slug, st_count ?s, reason) \<and> rp_notes (db (report ids ?e w)) = rp_notes (db w) @ [n]"
      using notify_run[of ?w "the owner" ?m "''agent_error''"] assms(2) unfolding e by fastforce
    moreover have "rp_notes (db (report ids ?e w)) = rp_notes (db w)
        \<or> (\<exists>n. nt_meta n = Some (slug, st_count ?s, reason) \<and> rp_notes (db (report ids ?e w)) = rp_notes (db w) @ [n])"
      using notify_db[of ids "the owner" ?m "''agent_error''" "Some (slug, st_count ?s, reason)" ?w] unfolding e by auto
    ultimately consider "faults w \<noteq> []" "rp_notes (db (report ids ?e w)) = rp_notes (db w)"
      | n where "nt_meta n = Some (slug, st_count ?s, reason)" "rp_notes (db (report ids ?e w)) = rp_notes (db w) @ [n]" by blast
    then show ?thesis
    proof cases
      case 1
      then show ?thesis using out by (intro exI[of _ "[]"]) (simp add: notes_about_def)
    next
      case (2 n)
      then show ?thesis using out True by (intro exI[of _ "[n]"]) (simp add: notes_about_def told_now_def)
    qed
  qed
qed

lemma outage_run:
  assumes "in_outage slug c (db w)" "list_all tellable es" "Appended slug \<notin> set es"
  shows "\<exists>new. in_outage slug (c + length (filter (failing slug) es)) (db (fold (report ids) es w))
     \<and> notes_about slug (db (fold (report ids) es w)) = notes_about slug (db w) @ new
     \<and> length new \<le> (if c < persistent_after \<and> persistent_after \<le> c + length (filter (failing slug) es) then 1 else 0)
     \<and> (faults w = [] \<longrightarrow> length new = (if c < persistent_after \<and> persistent_after \<le> c + length (filter (failing slug) es) then 1 else 0))"
  using assms
proof (induction es arbitrary: c w)
  case Nil
  then show ?case by (intro exI[of _ "[]"]) auto
next
  case (Cons e es)
  show ?case
  proof (cases "about slug e")
    case False
    then have "\<not> failing slug e" by (cases e) auto
    moreover have "in_outage slug c (db (report ids e w))" using Cons.prems(1) other_event[OF False] by (simp add: in_outage_def)
    ultimately show ?thesis using Cons.IH[of c "report ids e w"] Cons.prems other_event[OF False] report_calm[of w ids e] by auto
  next
    case True
    then obtain owner reason time where e: "e = Failed slug owner reason time" using Cons.prems(3) by (cases e) auto
    have "tellable (Failed slug owner reason time)" using Cons.prems(2) e by simp
    from own_failure[OF Cons.prems(1) this, of ids] obtain new1
      where 1: "in_outage slug (Suc c) (db (report ids e w))" "notes_about slug (db (report ids e w)) = notes_about slug (db w) @ new1"
        "length new1 \<le> told_now (Suc c)" "faults w = [] \<longrightarrow> length new1 = told_now (Suc c)" unfolding e by blast
    from Cons.IH[OF 1(1)] Cons.prems obtain new2
      where 2: "in_outage slug (Suc c + length (filter (failing slug) es)) (db (fold (report ids) (e # es) w))"
        "notes_about slug (db (fold (report ids) (e # es) w)) = notes_about slug (db w) @ new1 @ new2"
        "length new2 \<le> (if Suc c < persistent_after \<and> persistent_after \<le> Suc c + length (filter (failing slug) es) then 1 else 0)"
        "faults (report ids e w) = [] \<longrightarrow> length new2 = (if Suc c < persistent_after \<and> persistent_after \<le> Suc c + length (filter (failing slug) es) then 1 else 0)"
      using 1(2) by auto
    have "failing slug e" by (simp add: e)
    then show ?thesis using 1(3,4) 2 report_calm[of w ids e]
      by (intro exI[of _ "new1 @ new2"]) (auto simp: told_now_def split: if_splits)
  qed
qed

section \<open>Notifications\<close>

text \<open>Marking as read touches the caller's rows only.\<close>

lemma marking_is_confined:
  "map (\<lambda>n. n\<lparr>nt_read := False\<rparr>) (rp_notes (db (snd (mark_notification uuid user i w)))) = map (\<lambda>n. n\<lparr>nt_read := False\<rparr>) (rp_notes (db w))
   \<and> filter (\<lambda>n. nt_user n \<noteq> user) (rp_notes (db (snd (mark_notification uuid user i w)))) = filter (\<lambda>n. nt_user n \<noteq> user) (rp_notes (db w))"
proof -
  have other: "filter (\<lambda>n. nt_user n \<noteq> user) (map (\<lambda>n. if nt_id n = k \<and> nt_user n = user then n\<lparr>nt_read := True\<rparr> else n) ns) =
      filter (\<lambda>n. nt_user n \<noteq> user) ns" for k ns by (induction ns) auto
  have aside: "map (\<lambda>n. n\<lparr>nt_read := False\<rparr>) (map (\<lambda>n. if nt_id n = k \<and> nt_user n = user then n\<lparr>nt_read := True\<rparr> else n) ns) =
      map (\<lambda>n. n\<lparr>nt_read := False\<rparr>) ns" for k ns by (induction ns) auto
  show ?thesis using other aside
    by (auto simp: mark_notification_def or_note_500_def eff_catch_def eff_bind_def db_query_def mark_notes_def ret_def Let_def
        split: list.splits bool.splits option.splits)
qed

section \<open>Paging\<close>

text \<open>What is accepted is within the bounds.\<close>

lemma page_params_bounded:
  assumes "parse_page_params fmt l k = Inr p"
  shows "(case pg_limit p of None \<Rightarrow> l = Undef | Some n \<Rightarrow> \<exists>z. n = Fin (of_int z) \<and> 1 \<le> z \<and> z \<le> 2000)
     \<and> (case pg_offset p of None \<Rightarrow> k = Undef | Some n \<Rightarrow> \<exists>z. n = Fin (of_int z) \<and> 0 \<le> z)"
proof -
  have int: "\<exists>z. n = Fin (of_int z)" if "js_isInteger n" for n
    using that by (simp add: js_isInteger_Fin)
  obtain a b where ab: "page_param fmt ''limit'' l = Inr a" "page_param fmt ''offset'' k = Inr b" "p = \<lparr>pg_limit = a, pg_offset = b\<rparr>"
    using assms by (auto simp: parse_page_params_def split: sum.splits)
  have "case a of None \<Rightarrow> l = Undef | Some n \<Rightarrow> \<exists>z. n = Fin (of_int z) \<and> 1 \<le> z \<and> z \<le> 2000"
    using ab(1) int[of "js_Number (js_string fmt l)"]
    by (auto simp: page_param_def Let_def max_page_def split: if_splits)
  moreover have "case b of None \<Rightarrow> k = Undef | Some n \<Rightarrow> \<exists>z. n = Fin (of_int z) \<and> 0 \<le> z"
    using ab(2) int[of "js_Number (js_string fmt k)"]
    by (auto simp: page_param_def Let_def split: if_splits)
  ultimately show ?thesis by (simp add: ab(3))
qed

section \<open>The properties\<close>


section \<open>Witnesses\<close>

definition demo_reports :: "report_db world" where
  "demo_reports = \<lparr>faults = [], db = \<lparr>rp_streaks = Map.empty, rp_notes = []\<rparr>\<rparr>"

definition demo_outage :: "journal_event list" where
  "demo_outage = [Failed ''box'' (Some ''u1'') ''refused'' ''t1'', Appended ''other'', Failed ''box'' (Some ''u1'') ''refused'' ''t2'',
     Failed ''box'' (Some ''u1'') ''refused'' ''t3'', Failed ''box'' (Some ''u1'') ''refused'' ''t4'']"


end
