(* ===== verification/Spec2Isabelle.thy ===== *)
theory Spec2Isabelle
  imports Access Effects Streams ChatProps ChatGate ChatAtomic ChatStream ChatReasons
    AgentLimits Demux Docker Reconciler WorkflowProps TerminalProps TokenProps
    ToolsConfig InstallerProps SkillProps LifecycleProps AgentTransfer
    RedactProps WebhookProps Canary SkillAdminProps ReportingProps
begin

text \<open>
  A verification development of the hill90 application, a platform on which users talk to
  agents that run in containers. The part modelled here is the API service,
  \<open>services/api/src\<close>, and one utility of the web UI. Handlers are shallowly embedded:
  pure functions are HOL functions, a handler is a state-passing computation over the tables
  it reads and writes, with errors as values, and everything outside the repository (the JWT
  library, Postgres faults, the agentboxes and their answers, the Docker Engine) is a
  parameter.

  \<^bold>\<open>Foundations.\<close> Prelude holds the fact collections, the JavaScript list and string
  operations and two interfaces (an invariant of a transition system, a sticky state).
  JsValue holds JavaScript values, Binary64 the arithmetic of binary64 numbers and decimal
  printing, Encoding a locale of codecs with its two instances, base64url and JSON. Effects holds computations over a
  database whose queries may fail at any point, with transactions, partial-correctness
  triples that quantify over all faults (\<open>holds\<close>, \<open>keeps\<close>, \<open>yields\<close>) and total
  triples for runs without faults (\<open>runs\<close>).

  \<^bold>\<open>Access.\<close> \<open>middleware/auth.ts\<close>, \<open>middleware/role.ts\<close>, \<open>helpers/elevated-scope.ts\<close>,
  \<open>services/terminal-token.ts\<close>, \<open>helpers/participation-watch.ts\<close>: who is admitted, with
  which roles, and which agents are elevated.

  \<^bold>\<open>Streams.\<close> \<open>services/relay-backpressure.ts\<close>, \<open>services/sse-writer.ts\<close>,
  \<open>helpers/bounded-read.ts\<close>, \<open>helpers/stream-deadline.ts\<close>, the UI's
  \<open>utils/request-body.ts\<close>: components that hold bytes for a slow peer. Each is a state
  machine over socket events; the lemmas bound its memory and show that it resumes.

  \<^bold>\<open>Chat.\<close> \<open>routes/chat.ts\<close> and \<open>services/chat-dispatch.ts\<close>. ChatDb has the tables and
  one definition per SQL statement, ChatLaws the invariant of the tables and the laws of the
  statements, ChatDispatch the dispatch of work to agentboxes, Chat the handlers and the
  step of the whole system, ChatClosed the interfaces (locales) from which preservation of
  an invariant by all handlers follows, ChatDemo a concrete state, ChatProps, ChatGate,
  ChatAtomic, ChatReasons the theorems, ChatStream the event stream of a thread interleaved
  with the handlers.

  \<^bold>\<open>Containers.\<close> AgentLimits: the resource limits, on the write side and at container
  start, with the rounding of their arithmetic. Demux: the engine's multiplexed output over
  bytes. Docker: \<open>services/docker.ts\<close> against an arbitrary engine, whose answers may depend
  on all calls so far. Reconciler: \<open>services/agent-reconciler.ts\<close> and
  \<open>services/agent-status-verification.ts\<close>, the pass that makes recorded status agree with
  the containers.

  \<^bold>\<open>Workflows.\<close> Workflows: \<open>services/workflow-scheduler.ts\<close>, \<open>helpers/cron.ts\<close>,
  \<open>routes/workflows.ts\<close> and \<open>routes/workflows-webhook.ts\<close> over an arbitrary cron library and
  agentbox; WorkflowProps: what a tick does to the schedule, its advisory lock, and what
  running a workflow can achieve.

  \<^bold>\<open>Terminals.\<close> Terminal: \<open>services/terminal-proxy.ts\<close>, the upgrade handler over the chat
  tables and the session as a step relation whose events are those of the two WebSockets,
  the timers and the queries; it runs two of the relays of Streams. TerminalProps: who gets
  a session, how long it lasts and how it ends.

  \<^bold>\<open>Tokens.\<close> Tokens: \<open>services/model-router-token.ts\<close>, \<open>services/akm-token.ts\<close>,
  \<open>services/model-router-delegation.ts\<close>, \<open>services/model-router-revoke.ts\<close>,
  \<open>services/akm-revoke.ts\<close>, \<open>services/model-router-refresh.ts\<close>, with the signature scheme, the
  hash and the random ids as parameters. TokenProps: what is issued verifies, where and how
  long, and what a refresh does to the agents' rows, on every failure and when it races.

  \<^bold>\<open>Fleet.\<close> ToolsConfig: \<open>services/merge-tools-config.ts\<close>, with the lattice its merge of
  skills computes in. Fleet: the tables and services the agent routes work on, so that the
  chat, the engine, the tokens and the reconciler run on one state. Installer:
  \<open>services/tool-installer.ts\<close>; InstallerProps: quoting, downloads, and that a start that
  goes through has all its tools. Skills: assigning and removing a skill; SkillProps: an
  agent's tools are those of its skills. Lifecycle: start, stop, delete and reconcile-tools of
  \<open>routes/agents.ts\<close> with \<open>services/agent-files.ts\<close>; LifecycleFrame and LifecycleEnds: what
  each part leaves alone and how each handler ends; LifecycleProps: the machine of states the
  routes refine, well-formed rows, tokens, containers, and agreement with the reconciler.
  FleetDemo and LifecycleDemo hold a small concrete fleet.

  \<^bold>\<open>Secrets.\<close> Secrets: \<open>services/provider-key-crypto.ts\<close> and
  \<open>services/provider-key-canary.ts\<close> over an arbitrary authenticated cipher, whose laws are
  named hypotheses; sealing is one of the codecs of Encoding. Canary: what the check at boot
  finds out about the key, over the stored secrets of the fleet.

  \<^bold>\<open>Agents as records.\<close> AgentRows: the statements of the routes that create and change agents,
  and how JSON values become columns. AgentCrud: create and import; AgentUpdate: update, with
  the encrypted environment variables; AgentCopy: clone, read, list and export, all of
  \<open>routes/agents.ts\<close>. CrudFrame, CrudProps and UpdateFrame: the triples for a check, an early
  answer and a transaction, and the outcome of each route; creating and importing are two
  instances of one interface. AgentProps: creation is all or nothing, and elevated skills;
  AgentLaws: what an update changes and what becomes of the variables; AgentBounds: limits and
  the slugs of clones; AgentTransfer: an import gives back what was exported.

  \<^bold>\<open>Webhooks.\<close> Webhooks: the webhook routes of \<open>routes/agents.ts\<close> and
  \<open>services/webhook-dispatch.ts\<close>, from the encrypted secret to the signed body. A delivery is
  the last field of the state it changes; what the subscriber answers is not read by the code.
  WebhookProps: who is told of an event, with what body and signature.

  \<^bold>\<open>Skills as records.\<close> SkillAdmin: \<open>routes/skills.ts\<close>, with the guard on changes of
  scope; SkillAdminProps: any sequence of edits escalates no agent, an update is atomic, and
  the race between the guard and the write.

  \<^bold>\<open>Reports.\<close> Reporting: \<open>services/journal-gaps.ts\<close>, \<open>services/notifications.ts\<close>,
  \<open>routes/notifications.ts\<close>, \<open>helpers/page-params.ts\<close>, \<open>helpers/upstream-total.ts\<close>;
  ReportingProps: an outage is told once, marking is confined to its user, pages are bounded.

  \<^bold>\<open>Redaction.\<close> Redact: \<open>helpers/redact.ts\<close>, its regular expressions as matchers at a
  position with the substitution loop around them, and its walk over a heap of objects that
  may be shared and cyclic. RedactProps: noninterference of secret values, the absence of
  tokens, the clean-up of an error in place, and what the patterns miss.

  \<^bold>\<open>Bounds.\<close> Nothing here uses fuel that can run out: recursions are structural or have a
  measure (the search for a clone's slug: the taken slugs that are left; a substitution: the
  text that is left), and the walk over an object takes the depth limit the code has.
  Strings are char lists; no theorem depends on characters outside ASCII.

  \<^bold>\<open>Not modelled.\<close> Rendering and styling of the web UI and its fetch calls, the Python
  services, and handlers that only forward to another service (knowledge, tasks, storage,
  Keycloak, Vault): what they compute is the other side's answer. Log lines, but for their
  redaction. Of the agent routes, those that only read: events, logs, statistics, journals,
  status history. The tables of tools, container profiles, MCP servers, provider connections
  and Discord bindings have routes of their own; here they are only read.
  Time is a field of the state that the environment sets. The handlers of one process are
  interleaved at the granularity of whole handlers, except where a theory says otherwise.
\<close>

end
